(* ===== verification/Prelude.thy ===== *)
theory Prelude
  imports Complex_Main "HOL-Library.AList" "HOL-Library.Char_ord" "HOL-Library.List_Lexorder"
begin

text \<open>
  The vocabulary the component theories share: Go's 64-bit integers, its floating point
  values, strings, dynamically typed values and maps, and the generic facts about them.

  \<^item> An \<open>int\<close> or \<open>int64\<close> of the source is an HOL \<open>int\<close>; where the source can overflow, the
    wrap-around is written with \<open>wrap64\<close>, or with the saturation the source writes itself.
  \<^item> A \<open>float64\<close> is a \<open>gofloat\<close>: a rational, or one of the three special values. Every finite
    float64 is a dyadic rational, and the source only compares and truncates them.
  \<^item> A string is the list of its bytes. \<open>strings.TrimSpace\<close>, \<open>strings.ToLower\<close> and
    \<open>strings.EqualFold\<close> act on ASCII here, which is the alphabet of the keys, provider names,
    levels and numbers the modelled code passes to them.
  \<^item> A Go map is an association list whose keys are distinct (\<open>gomap_ok\<close>). The order of the list
    stands for one iteration order of the runtime, so a fact proved for every list holds for
    every order the runtime may choose.
\<close>

named_theorems gomap_simps "lookup, update and key facts of the association-list maps"
named_theorems arith_defs "the integer operations written out"

section \<open>Integers\<close>

abbreviation maxInt64 :: int where "maxInt64 \<equiv> 9223372036854775807"
abbreviation minInt64 :: int where "minInt64 \<equiv> -9223372036854775808"

definition in_int64 :: "int \<Rightarrow> bool" where
  "in_int64 x \<longleftrightarrow> minInt64 \<le> x \<and> x \<le> maxInt64"

definition wrap64 :: "int \<Rightarrow> int" where
  "wrap64 x = (x + 9223372036854775808) mod 18446744073709551616 - 9223372036854775808"

lemma wrap64_id [simp]: "in_int64 x \<Longrightarrow> wrap64 x = x"
  by (simp add: in_int64_def wrap64_def)

lemma wrap64_in_int64: "in_int64 (wrap64 x)"
proof -
  have "0 \<le> (x + 9223372036854775808) mod 18446744073709551616"
    and "(x + 9223372036854775808) mod 18446744073709551616 < 18446744073709551616"
    by simp_all
  then show ?thesis by (simp add: in_int64_def wrap64_def)
qed

text \<open>Go's integer division and remainder truncate towards zero.\<close>

definition go_div :: "int \<Rightarrow> int \<Rightarrow> int" where
  "go_div a b = sgn a * sgn b * (\<bar>a\<bar> div \<bar>b\<bar>)"

definition go_mod :: "int \<Rightarrow> int \<Rightarrow> int" where
  "go_mod a b = sgn a * (\<bar>a\<bar> mod \<bar>b\<bar>)"

lemma go_div_nonneg [arith_defs]: "0 \<le> a \<Longrightarrow> 0 < b \<Longrightarrow> go_div a b = a div b"
  by (cases "a = 0") (simp_all add: go_div_def sgn_if)

lemma go_mod_nonneg [arith_defs]: "0 \<le> a \<Longrightarrow> 0 < b \<Longrightarrow> go_mod a b = a mod b"
  by (cases "a = 0") (simp_all add: go_mod_def sgn_if)

section \<open>Floating point values\<close>

datatype gofloat = Fin rat | NaN | PosInf | NegInf

fun flt_less :: "gofloat \<Rightarrow> gofloat \<Rightarrow> bool" where
  "flt_less (Fin a) (Fin b) = (a < b)"
| "flt_less NegInf (Fin _) = True"
| "flt_less NegInf PosInf = True"
| "flt_less (Fin _) PosInf = True"
| "flt_less _ _ = False"

text \<open>
  Conversion of a \<open>float64\<close> to \<open>int64\<close>: truncation where the value fits. Where it does not, the
  language leaves the result to the implementation; the value is that of amd64.
\<close>

fun flt_to_int64 :: "gofloat \<Rightarrow> int" where
  "flt_to_int64 (Fin q) =
     (let t = (if 0 \<le> q then \<lfloor>q\<rfloor> else \<lceil>q\<rceil>) in if in_int64 t then t else minInt64)"
| "flt_to_int64 _ = minInt64"

section \<open>Strings\<close>

definition code_of :: "char \<Rightarrow> nat" where
  "code_of c = of_char c"

definition is_space :: "char \<Rightarrow> bool" where
  "is_space c \<longleftrightarrow> code_of c \<in> {9, 10, 11, 12, 13, 32}"

definition trim_space :: "string \<Rightarrow> string" where
  "trim_space s = rev (dropWhile is_space (rev (dropWhile is_space s)))"

definition lower_char :: "char \<Rightarrow> char" where
  "lower_char c = (if 65 \<le> code_of c \<and> code_of c \<le> 90 then char_of (code_of c + 32) else c)"

definition to_lower :: "string \<Rightarrow> string" where
  "to_lower s = map lower_char s"

definition equal_fold :: "string \<Rightarrow> string \<Rightarrow> bool" where
  "equal_fold a b \<longleftrightarrow> to_lower a = to_lower b"

fun has_prefix :: "string \<Rightarrow> string \<Rightarrow> bool" where
  "has_prefix s [] = True"
| "has_prefix [] (p # ps) = False"
| "has_prefix (c # cs) (p # ps) = (c = p \<and> has_prefix cs ps)"

definition has_suffix :: "string \<Rightarrow> string \<Rightarrow> bool" where
  "has_suffix s p = has_prefix (rev s) (rev p)"

fun str_contains :: "string \<Rightarrow> string \<Rightarrow> bool" where
  "str_contains s p =
     (has_prefix s p \<or> (case s of [] \<Rightarrow> False | _ # cs \<Rightarrow> str_contains cs p))"

declare str_contains.simps [simp del]

text \<open>\<open>strings.LastIndex\<close> of a single byte: the position of its last occurrence.\<close>

fun last_index :: "char \<Rightarrow> string \<Rightarrow> nat option" where
  "last_index c [] = None"
| "last_index c (x # xs) =
     (case last_index c xs of Some i \<Rightarrow> Some (Suc i) | None \<Rightarrow> if x = c then Some 0 else None)"

text \<open>\<open>strings.Cut\<close>: the text after the first occurrence of a non-empty separator.\<close>

fun cut_after :: "string \<Rightarrow> string \<Rightarrow> string option" where
  "cut_after sep [] = (if sep = [] then Some [] else None)"
| "cut_after sep (c # cs) =
     (if has_prefix (c # cs) sep then Some (drop (length sep) (c # cs)) else cut_after sep cs)"

lemma to_lower_Nil [simp]: "to_lower [] = []"
  by (simp add: to_lower_def)

lemma trim_space_Nil [simp]: "trim_space [] = []"
  by (simp add: trim_space_def)

lemma has_prefix_append: "has_prefix (p @ s) p"
  by (induction p) auto

lemma has_prefix_iff: "has_prefix s p \<longleftrightarrow> (\<exists>t. s = p @ t)"
  by (induction s p rule: has_prefix.induct) auto

lemma has_suffix_iff: "has_suffix s p \<longleftrightarrow> (\<exists>t. s = t @ p)"
proof -
  have "has_suffix s p \<longleftrightarrow> (\<exists>t. rev s = rev p @ t)"
    by (simp add: has_suffix_def has_prefix_iff)
  also have "\<dots> \<longleftrightarrow> (\<exists>t. s = t @ p)"
    by (metis rev_append rev_rev_ident)
  finally show ?thesis .
qed

lemma last_index_None: "last_index c s = None \<longleftrightarrow> c \<notin> set s"
  by (induction s) (auto split: option.splits)

lemma last_index_split:
  "last_index c s = Some i \<Longrightarrow> s = take i s @ c # drop (Suc i) s \<and> c \<notin> set (drop (Suc i) s)"
proof (induction s arbitrary: i)
  case Nil
  then show ?case by simp
next
  case (Cons x xs)
  then show ?case
    by (cases "last_index c xs") (auto simp: last_index_None split: if_splits)
qed

section \<open>Decimal numbers\<close>

definition digit_val :: "char \<Rightarrow> int option" where
  "digit_val c = (let n = code_of c in if 48 \<le> n \<and> n \<le> 57 then Some (int n - 48) else None)"

fun parse_digits :: "int \<Rightarrow> string \<Rightarrow> int option" where
  "parse_digits acc [] = Some acc"
| "parse_digits acc (c # cs) =
     (case digit_val c of None \<Rightarrow> None | Some d \<Rightarrow> parse_digits (acc * 10 + d) cs)"

text \<open>\<open>strconv.ParseInt(s, 10, 64)\<close> and \<open>strconv.Atoi\<close> on a 64-bit platform.\<close>

definition parse_int64 :: "string \<Rightarrow> int option" where
  "parse_int64 s =
     (let neg = (s \<noteq> [] \<and> hd s = CHR ''-'');
          ds = (if s \<noteq> [] \<and> (hd s = CHR ''-'' \<or> hd s = CHR ''+'') then tl s else s)
      in if ds = [] then None
         else case parse_digits 0 ds of None \<Rightarrow> None
              | Some n \<Rightarrow> let v = (if neg then - n else n) in if in_int64 v then Some v else None)"

fun nat_digits :: "nat \<Rightarrow> string" where
  "nat_digits n =
     (if n < 10 then [char_of (48 + n)] else nat_digits (n div 10) @ [char_of (48 + n mod 10)])"

declare nat_digits.simps [simp del]

text \<open>\<open>strconv.FormatInt(v, 10)\<close>.\<close>

definition format_int :: "int \<Rightarrow> string" where
  "format_int v = (if v < 0 then CHR ''-'' # nat_digits (nat (- v)) else nat_digits (nat v))"

text \<open>\<open>strconv.ParseBool\<close>.\<close>

definition parse_bool :: "string \<Rightarrow> bool option" where
  "parse_bool s =
     (if s \<in> {''1'', ''t'', ''T'', ''true'', ''TRUE'', ''True''} then Some True
      else if s \<in> {''0'', ''f'', ''F'', ''false'', ''FALSE'', ''False''} then Some False
      else None)"

lemma code_of_char_of: "n < 256 \<Longrightarrow> code_of (char_of n) = n"
  by (simp add: code_of_def)

lemma digit_val_char_of: "n < 10 \<Longrightarrow> digit_val (char_of (48 + n)) = Some (int n)"
  by (simp add: digit_val_def code_of_char_of)

lemma parse_digits_append:
  "parse_digits acc (xs @ ys) =
     (case parse_digits acc xs of None \<Rightarrow> None | Some a \<Rightarrow> parse_digits a ys)"
  by (induction acc xs rule: parse_digits.induct) (auto split: option.splits)

lemma parse_digits_nat_digits: "parse_digits 0 (nat_digits n) = Some (int n)"
proof (induction n rule: nat_digits.induct)
  case (1 n)
  show ?case
  proof (cases "n < 10")
    case True
    then show ?thesis by (subst nat_digits.simps) (simp add: digit_val_char_of)
  next
    case False
    have "int (n div 10) * 10 + int (n mod 10) = int n"
      by presburger
    with False 1 show ?thesis
      by (subst nat_digits.simps) (simp add: parse_digits_append digit_val_char_of)
  qed
qed

lemma nat_digits_nonempty: "nat_digits n \<noteq> []"
  by (subst nat_digits.simps) simp

lemma digit_not_sign: "(n::nat) < 10 \<Longrightarrow> char_of (48 + n) \<noteq> CHR ''-'' \<and> char_of (48 + n) \<noteq> CHR ''+''"
proof -
  assume n: "n < 10"
  have "code_of (CHR ''-'') = 45" "code_of (CHR ''+'') = 43"
    by (simp_all add: code_of_def)
  moreover have "code_of (char_of (48 + n)) = 48 + n"
    using n by (intro code_of_char_of) simp
  ultimately show ?thesis by fastforce
qed

lemma nat_digits_hd: "hd (nat_digits n) \<noteq> CHR ''-'' \<and> hd (nat_digits n) \<noteq> CHR ''+''"
proof (induction n rule: nat_digits.induct)
  case (1 n)
  show ?case
  proof (cases "n < 10")
    case True
    then show ?thesis using digit_not_sign [OF True] by (subst (1 2) nat_digits.simps) simp
  next
    case False
    then show ?thesis using 1 nat_digits_nonempty by (subst (1 2) nat_digits.simps) simp
  qed
qed

theorem parse_format_int: "in_int64 v \<Longrightarrow> parse_int64 (format_int v) = Some v"
  using nat_digits_hd [of "nat v"] nat_digits_nonempty
  by (auto simp: parse_int64_def format_int_def parse_digits_nat_digits Let_def)

lemma parse_int64_range: "parse_int64 s = Some v \<Longrightarrow> in_int64 v"
  by (auto simp: parse_int64_def Let_def split: option.splits if_splits)

section \<open>Maps\<close>

type_synonym ('k, 'v) gomap = "('k \<times> 'v) list"

definition gomap_ok :: "('k, 'v) gomap \<Rightarrow> bool" where
  "gomap_ok m \<longleftrightarrow> distinct (map fst m)"

abbreviation glookup :: "('k, 'v) gomap \<Rightarrow> 'k \<Rightarrow> 'v option" where
  "glookup m k \<equiv> map_of m k"

abbreviation gput :: "'k \<Rightarrow> 'v \<Rightarrow> ('k, 'v) gomap \<Rightarrow> ('k, 'v) gomap" where
  "gput k v m \<equiv> AList.update k v m"

abbreviation gdel :: "'k \<Rightarrow> ('k, 'v) gomap \<Rightarrow> ('k, 'v) gomap" where
  "gdel k m \<equiv> AList.delete k m"

lemma gomap_ok_Nil [simp, gomap_simps]: "gomap_ok []"
  by (simp add: gomap_ok_def)

lemma gomap_ok_put [simp, gomap_simps]: "gomap_ok m \<Longrightarrow> gomap_ok (gput k v m)"
  by (simp add: gomap_ok_def distinct_update)

lemma gomap_ok_del [simp, gomap_simps]: "gomap_ok m \<Longrightarrow> gomap_ok (gdel k m)"
  by (simp add: gomap_ok_def distinct_delete)

lemma gomap_ok_filter [simp, gomap_simps]: "gomap_ok m \<Longrightarrow> gomap_ok (filter P m)"
  by (simp add: gomap_ok_def distinct_map_filter)

lemma glookup_put [gomap_simps]: "glookup (gput k v m) k' = (if k' = k then Some v else glookup m k')"
  by (simp add: update_conv')

lemma glookup_del [gomap_simps]: "glookup (gdel k m) k' = (if k' = k then None else glookup m k')"
  by (simp add: delete_conv')

lemma gomap_mem [gomap_simps]: "gomap_ok m \<Longrightarrow> (k, v) \<in> set m \<longleftrightarrow> glookup m k = Some v"
  by (auto simp: gomap_ok_def)

lemma glookup_in_keys: "glookup m k \<noteq> None \<longleftrightarrow> k \<in> fst ` set m"
  by (metis domIff dom_map_of_conv_image_fst)

lemma glookup_filter_key:
  "glookup (filter (\<lambda>(k, v). P k) m) k = (if P k then glookup m k else None)"
  by (induction m) auto

lemma glookup_filter:
  "gomap_ok m \<Longrightarrow>
   glookup (filter (\<lambda>(k, v). P k v) m) k =
     (case glookup m k of None \<Rightarrow> None | Some v \<Rightarrow> if P k v then Some v else None)"
proof (induction m)
  case Nil
  then show ?case by simp
next
  case (Cons a m)
  obtain k' v' where a: "a = (k', v')" by fastforce
  from Cons.prems have "k' \<notin> fst ` set m" and "gomap_ok m"
    by (auto simp: gomap_ok_def a)
  then have "glookup m k' = None" by (meson glookup_in_keys)
  with Cons.IH [OF \<open>gomap_ok m\<close>] show ?case by (auto simp: a)
qed

lemma length_put: "gomap_ok m \<Longrightarrow>
    length (gput k v m) = (if glookup m k = None then Suc (length m) else length m)"
  by (induction m) (auto simp: gomap_ok_def dest: map_of_SomeD split: if_splits)

section \<open>Dynamically typed values\<close>

text \<open>
  The \<open>any\<close> values of an auth file's metadata, by the types the modelled type switches name;
  \<open>GOther\<close> is every other dynamic type, on which all of them take their default branch.
\<close>

datatype intkind = KInt | KInt8 | KInt16 | KInt32 | KInt64
  | KUint | KUint8 | KUint16 | KUint32 | KUint64

datatype gov =
    GNil
  | GBool bool
  | GInt intkind int
  | GFloat64 gofloat
  | GFloat32 gofloat
  | GNumber string
  | GStr string
  | GMap "(string \<times> gov) list"
  | GMapStr "(string \<times> string) list"
  | GList "gov list"
  | GInt64s "int list"
  | GInts "int list"
  | GFloats "gofloat list"
  | GBytes string
  | GOther

section \<open>Sorted lists\<close>

lemma takeWhile_sorted_filter:
  "sorted (map f xs) \<Longrightarrow> takeWhile (\<lambda>x. \<not> f x > c) xs = filter (\<lambda>x. \<not> f x > c) xs"
proof (induction xs)
  case Nil
  then show ?case by simp
next
  case (Cons x xs)
  show ?case
  proof (cases "f x > c")
    case True
    with Cons.prems have "filter (\<lambda>x. \<not> f x > c) xs = []"
      by (force simp: filter_empty_conv)
    with True show ?thesis by simp
  next
    case False
    with Cons show ?thesis by simp
  qed
qed

lemma sort_key_Cons:
  assumes "xs \<noteq> []"
  obtains b rest where "sort_key f xs = b # rest"
proof (cases "sort_key f xs")
  case Nil
  then have "length xs = 0" using length_sort [of f xs] by simp
  with assms show ?thesis by simp
qed (rule that)

lemma sorted_map_mono:
  assumes "sorted (map f xs)"
    and "\<And>x y. x \<in> set xs \<Longrightarrow> y \<in> set xs \<Longrightarrow> f x \<le> f y \<Longrightarrow> g x \<le> g y"
  shows "sorted (map g xs)"
  using assms by (induction xs) auto

section \<open>Transition systems\<close>

text \<open>
  Components whose operations interleave are step relations. A state is reachable when some
  initial state leads to it; the locale is the contract an inductive invariant meets.
\<close>

definition reachable :: "('s \<Rightarrow> bool) \<Rightarrow> ('s \<Rightarrow> 's \<Rightarrow> bool) \<Rightarrow> 's \<Rightarrow> bool" where
  "reachable init step s \<longleftrightarrow> (\<exists>s0. init s0 \<and> step\<^sup>*\<^sup>* s0 s)"

lemma reachable_init: "init s \<Longrightarrow> reachable init step s"
  by (auto simp: reachable_def)

lemma reachable_step: "reachable init step s \<Longrightarrow> step s t \<Longrightarrow> reachable init step t"
  by (auto simp: reachable_def intro: rtranclp.rtrancl_into_rtrancl)

locale invariant_system =
  fixes init :: "'s \<Rightarrow> bool" and step :: "'s \<Rightarrow> 's \<Rightarrow> bool" and inv :: "'s \<Rightarrow> bool"
  assumes inv_init: "init s \<Longrightarrow> inv s"
    and inv_step: "inv s \<Longrightarrow> step s t \<Longrightarrow> inv t"
begin

lemma inv_steps: "step\<^sup>*\<^sup>* s t \<Longrightarrow> inv s \<Longrightarrow> inv t"
  by (induction rule: rtranclp.induct) (auto intro: inv_step)

lemma reachable_inv: "reachable init step s \<Longrightarrow> inv s"
  by (auto simp: reachable_def intro: inv_steps inv_init)

end

lemma sort_key_short: "\<not> 1 < length xs \<Longrightarrow> sort_key f xs = xs"
  by (cases xs rule: remdups_adj.cases) auto

end
