(* ===== verification/GoTime.thy ===== *)
theory GoTime
  imports Prelude
begin

text \<open>
  Go's \<open>time.Time\<close> and \<open>time.Duration\<close>. An instant is the number of nanoseconds since the
  zero time (1 January of year 1, UTC), so \<open>IsZero\<close> is equality with 0, and \<open>After\<close>,
  \<open>Before\<close> and \<open>Equal\<close> are the order of the integers. A duration is an \<open>int64\<close> of
  nanoseconds: \<open>Sub\<close> saturates and the product of a count and a unit wraps around.

  The second half is \<open>time.Parse\<close> for the layouts the auth metadata code tries.
\<close>

type_synonym gotime = int
type_synonym duration = int

abbreviation nanosecond :: duration where "nanosecond \<equiv> 1"
abbreviation second :: duration where "second \<equiv> 1000000000"
abbreviation minute :: duration where "minute \<equiv> 60000000000"
abbreviation hour :: duration where "hour \<equiv> 3600000000000"

abbreviation zeroTime :: gotime where "zeroTime \<equiv> 0"

definition time_sub :: "gotime \<Rightarrow> gotime \<Rightarrow> duration" where
  "time_sub a b = max minInt64 (min maxInt64 (a - b))"

definition dur_mul :: "int \<Rightarrow> duration \<Rightarrow> duration" where
  "dur_mul n unit = wrap64 (n * unit)"

lemma time_sub_le: "0 \<le> d \<Longrightarrow> d < maxInt64 \<Longrightarrow> time_sub a b \<le> d \<longleftrightarrow> a - b \<le> d"
  by (auto simp: time_sub_def)

lemma time_sub_ge: "0 \<le> d \<Longrightarrow> d \<le> maxInt64 \<Longrightarrow> d \<le> time_sub a b \<longleftrightarrow> d \<le> a - b"
  by (auto simp: time_sub_def)

lemma time_sub_mono: "a \<le> a' \<Longrightarrow> time_sub a b \<le> time_sub a' b"
  by (auto simp: time_sub_def)

lemma dur_mul_small: "0 \<le> n \<Longrightarrow> n \<le> 9000000000 \<Longrightarrow> dur_mul n second = n * second"
  by (simp add: dur_mul_def in_int64_def)

section \<open>Unix time\<close>

definition unix_epoch :: gotime where
  "unix_epoch = 62135596800 * second"

definition time_unix :: "int \<Rightarrow> gotime" where
  "time_unix s = s * second + unix_epoch"

definition time_unix_milli :: "int \<Rightarrow> gotime" where
  "time_unix_milli ms = ms * 1000000 + unix_epoch"

definition unix_of :: "gotime \<Rightarrow> int" where
  "unix_of t = (t - unix_epoch) div second"

lemma unix_of_time_unix [simp]: "unix_of (time_unix s) = s"
  by (simp add: unix_of_def time_unix_def)

section \<open>The calendar\<close>

definition is_leap :: "int \<Rightarrow> bool" where
  "is_leap y \<longleftrightarrow> 4 dvd y \<and> (\<not> 100 dvd y \<or> 400 dvd y)"

definition days_in_month :: "int \<Rightarrow> int \<Rightarrow> int" where
  "days_in_month m y =
     (if m = 2 then (if is_leap y then 29 else 28)
      else if m \<in> {4, 6, 9, 11} then 30 else 31)"

definition days_before_month :: "int \<Rightarrow> int \<Rightarrow> int" where
  "days_before_month m y = sum_list (map (\<lambda>k. days_in_month k y) [1..m - 1])"

definition days_before_year :: "int \<Rightarrow> int" where
  "days_before_year y = (let p = y - 1 in 365 * p + p div 4 - p div 100 + p div 400)"

definition time_date :: "int \<Rightarrow> int \<Rightarrow> int \<Rightarrow> int \<Rightarrow> int \<Rightarrow> int \<Rightarrow> int \<Rightarrow> gotime" where
  "time_date y mo d h mi s ns =
     ((((days_before_year y + days_before_month mo y + (d - 1)) * 24 + h) * 60 + mi) * 60 + s)
       * second + ns"

section \<open>time.Parse\<close>

text \<open>The two-digit field reader of the library; \<open>fixed\<close> demands both digits.\<close>

fun getnum :: "bool \<Rightarrow> string \<Rightarrow> (int \<times> string) option" where
  "getnum fixed [] = None"
| "getnum fixed [a] =
     (case digit_val a of None \<Rightarrow> None | Some x \<Rightarrow> if fixed then None else Some (x, []))"
| "getnum fixed (a # b # r) =
     (case digit_val a of None \<Rightarrow> None
      | Some x \<Rightarrow>
          (case digit_val b of
             None \<Rightarrow> if fixed then None else Some (x, b # r)
           | Some y \<Rightarrow> Some (10 * x + y, r)))"

definition get_year :: "string \<Rightarrow> (int \<times> string) option" where
  "get_year s =
     (if length s < 4 then None
      else case parse_digits 0 (take 4 s) of None \<Rightarrow> None | Some y \<Rightarrow> Some (y, drop 4 s))"

definition in_range :: "int \<Rightarrow> int \<Rightarrow> (int \<times> string) option \<Rightarrow> (int \<times> string) option" where
  "in_range lo hi r =
     (case r of Some (v, rest) \<Rightarrow> if lo \<le> v \<and> v \<le> hi then Some (v, rest) else None | None \<Rightarrow> None)"

fun skip_char :: "char \<Rightarrow> string \<Rightarrow> string option" where
  "skip_char c [] = None"
| "skip_char c (x # xs) = (if x = c then Some xs else None)"

text \<open>A space of the layout matches any run of spaces, and the end of the text.\<close>

definition skip_space :: "string \<Rightarrow> string option" where
  "skip_space s =
     (if s \<noteq> [] \<and> hd s \<noteq> CHR '' '' then None else Some (dropWhile (\<lambda>c. c = CHR '' '') s))"

text \<open>A fraction of a second after the seconds is read even where the layout has none.\<close>

definition get_fraction :: "string \<Rightarrow> int \<times> string" where
  "get_fraction s =
     (case s of
        c # d # r \<Rightarrow>
          if (c = CHR ''.'' \<or> c = CHR '','') \<and> digit_val d \<noteq> None then
            let ds = takeWhile (\<lambda>x. digit_val x \<noteq> None) (d # r);
                used = take 9 ds
            in (case parse_digits 0 used of None \<Rightarrow> 0 | Some n \<Rightarrow> n * 10 ^ (9 - length used),
                drop (length ds) (d # r))
          else (0, s)
      | _ \<Rightarrow> (0, s))"

text \<open>The zone field \<open>Z07:00\<close>: seconds east of UTC.\<close>

definition get_zone :: "string \<Rightarrow> (int \<times> string) option" where
  "get_zone s =
     (if s \<noteq> [] \<and> hd s = CHR ''Z'' then Some (0, tl s)
      else if length s < 6 \<or> s ! 3 \<noteq> CHR '':'' then None
      else case (getnum True (take 2 (drop 1 s)), getnum True (take 2 (drop 4 s))) of
        (Some (hr, _), Some (mm, _)) \<Rightarrow>
          if hr > 24 \<or> mm > 60 then None
          else if hd s = CHR ''+'' then Some ((hr * 60 + mm) * 60, drop 6 s)
          else if hd s = CHR ''-'' then Some (- ((hr * 60 + mm) * 60), drop 6 s)
          else None
      | _ \<Rightarrow> None)"

definition parse_date :: "string \<Rightarrow> ((int \<times> int \<times> int) \<times> string) option" where
  "parse_date s0 =
     Option.bind (get_year s0) (\<lambda>(y, s1).
     Option.bind (skip_char CHR ''-'' s1) (\<lambda>s2.
     Option.bind (in_range 1 12 (getnum True s2)) (\<lambda>(mo, s3).
     Option.bind (skip_char CHR ''-'' s3) (\<lambda>s4.
     Option.bind (getnum True s4) (\<lambda>(d, s5). Some ((y, mo, d), s5))))))"

definition parse_hm :: "string \<Rightarrow> ((int \<times> int) \<times> string) option" where
  "parse_hm s0 =
     Option.bind (in_range 0 23 (getnum False s0)) (\<lambda>(h, s1).
     Option.bind (skip_char CHR '':'' s1) (\<lambda>s2.
     Option.bind (in_range 0 59 (getnum True s2)) (\<lambda>(mi, s3). Some ((h, mi), s3))))"

definition parse_sec :: "string \<Rightarrow> ((int \<times> int) \<times> string) option" where
  "parse_sec s0 =
     Option.bind (skip_char CHR '':'' s0) (\<lambda>s1.
     Option.bind (in_range 0 59 (getnum True s1)) (\<lambda>(s, s2).
       let (ns, s3) = get_fraction s2 in Some ((s, ns), s3)))"

definition finish_date ::
  "int \<times> int \<times> int \<Rightarrow> int \<times> int \<Rightarrow> int \<times> int \<Rightarrow> int \<Rightarrow> string \<Rightarrow> gotime option" where
  "finish_date ymd hm sn zone rest =
     (case (ymd, hm, sn) of ((y, mo, d), (h, mi), (s, ns)) \<Rightarrow>
        if rest \<noteq> [] \<or> d < 1 \<or> d > days_in_month mo y then None
        else Some (time_date y mo d h mi s ns - zone * second))"

datatype time_layout = RFC3339 | DateTimeSeconds | DateTimeMinutes

fun time_parse :: "time_layout \<Rightarrow> string \<Rightarrow> gotime option" where
  "time_parse RFC3339 s0 =
     Option.bind (parse_date s0) (\<lambda>(ymd, s1).
     Option.bind (skip_char CHR ''T'' s1) (\<lambda>s2.
     Option.bind (parse_hm s2) (\<lambda>(hm, s3).
     Option.bind (parse_sec s3) (\<lambda>(sn, s4).
     Option.bind (get_zone s4) (\<lambda>(z, s5). finish_date ymd hm sn z s5)))))"
| "time_parse DateTimeSeconds s0 =
     Option.bind (parse_date s0) (\<lambda>(ymd, s1).
     Option.bind (skip_space s1) (\<lambda>s2.
     Option.bind (parse_hm s2) (\<lambda>(hm, s3).
     Option.bind (parse_sec s3) (\<lambda>(sn, s4). finish_date ymd hm sn 0 s4))))"
| "time_parse DateTimeMinutes s0 =
     Option.bind (parse_date s0) (\<lambda>(ymd, s1).
     Option.bind (skip_space s1) (\<lambda>s2.
     Option.bind (parse_hm s2) (\<lambda>(hm, s3). finish_date ymd hm (0, 0) 0 s3)))"

lemma time_parse_epoch: "time_parse RFC3339 ''1970-01-01T00:00:00Z'' = Some unix_epoch"
  by code_simp

lemma time_parse_offset:
  "time_parse RFC3339 ''2026-03-01T02:00:00.5+02:00'' = time_parse DateTimeSeconds ''2026-03-01 00:00:00.5''"
  by code_simp

section \<open>The earliest of some times\<close>

text \<open>The zero time stands for no time at all.\<close>

definition earliest_of :: "gotime set \<Rightarrow> gotime" where
  "earliest_of T = (if T = {} then zeroTime else linorder_class.Min T)"

lemma earliest_insert:
  "finite T \<Longrightarrow> zeroTime \<notin> T \<Longrightarrow> t \<noteq> zeroTime \<Longrightarrow>
   earliest_of (insert t T) = (if earliest_of T = zeroTime \<or> t < earliest_of T then t else earliest_of T)"
proof (cases "T = {}")
  case False
  assume T: "finite T" "zeroTime \<notin> T"
  then have "linorder_class.Min T \<in> T" using False by (intro Min_in)
  then have "linorder_class.Min T \<noteq> zeroTime" using T(2) by metis
  moreover have "linorder_class.Min (insert t T) = min t (linorder_class.Min T)" using T(1) False by (rule Min_insert)
  ultimately show ?thesis using False by (simp add: earliest_of_def min_def)
qed (simp add: earliest_of_def)

end
