(* ===== verification/CredentialWeight.thy ===== *)
theory CredentialWeight
  imports Prelude
begin

text \<open>
  Credential weights, \<open>internal/credentialweight/weight.go\<close>: the normalisation of an explicit
  weight and the two parsers, of a scheduler attribute (a string) and of a metadata value.
  An \<open>error\<close> of the source is one of the two messages it can carry.
\<close>

datatype weight_error = WeightExceedsMax | WeightNotInteger

definition Default :: int where "Default = 1"

definition MaxWeight :: int where "MaxWeight = 1000000"

definition Normalize :: "int \<Rightarrow> weight_error + int" where
  "Normalize weight =
     (if weight \<le> 0 then Inr 0
      else if weight > MaxWeight then Inl WeightExceedsMax
      else Inr weight)"

definition ParseString :: "string \<Rightarrow> weight_error + int" where
  "ParseString raw0 =
     (let raw = trim_space raw0
      in if raw = '''' then Inr Default
         else case parse_int64 raw of
                None \<Rightarrow> Inl WeightNotInteger
              | Some weight \<Rightarrow> Normalize weight)"

text \<open>
  The type switch. The unsigned cases compare as \<open>uint64\<close> and return the value as it is; the
  \<open>float32\<close> case converts to \<open>float64\<close>, which is exact, and takes that case.
\<close>

definition parse_unsigned :: "int \<Rightarrow> weight_error + int" where
  "parse_unsigned n = (if n > MaxWeight then Inl WeightExceedsMax else Inr n)"

definition parse_float :: "gofloat \<Rightarrow> weight_error + int" where
  "parse_float f =
     (case f of
        Fin q \<Rightarrow>
          (if of_int \<lfloor>q\<rfloor> \<noteq> q then Inl WeightNotInteger
           else if q \<le> 0 then Inr 0
           else if q > of_int MaxWeight then Inl WeightExceedsMax
           else Inr \<lfloor>q\<rfloor>)
      | _ \<Rightarrow> Inl WeightNotInteger)"

fun ParseValue :: "gov \<Rightarrow> weight_error + int" where
  "ParseValue (GInt KInt n) = Normalize n"
| "ParseValue (GInt KInt8 n) = Normalize n"
| "ParseValue (GInt KInt16 n) = Normalize n"
| "ParseValue (GInt KInt32 n) = Normalize n"
| "ParseValue (GInt KInt64 n) = Normalize n"
| "ParseValue (GInt KUint n) = parse_unsigned n"
| "ParseValue (GInt KUint8 n) = Inr n"
| "ParseValue (GInt KUint16 n) = Inr n"
| "ParseValue (GInt KUint32 n) = parse_unsigned n"
| "ParseValue (GInt KUint64 n) = parse_unsigned n"
| "ParseValue (GFloat64 f) = parse_float f"
| "ParseValue (GFloat32 f) = parse_float f"
| "ParseValue (GNumber s) =
     (case parse_int64 s of None \<Rightarrow> Inl WeightNotInteger | Some w \<Rightarrow> Normalize w)"
| "ParseValue (GStr s) = ParseString s"
| "ParseValue _ = Inl WeightNotInteger"

text \<open>The Go types of the integer cases bound their values; \<open>gov_wf\<close> states those bounds.\<close>

fun kind_range :: "intkind \<Rightarrow> int \<times> int" where
  "kind_range KInt = (minInt64, maxInt64)"
| "kind_range KInt8 = (-128, 127)"
| "kind_range KInt16 = (-32768, 32767)"
| "kind_range KInt32 = (-2147483648, 2147483647)"
| "kind_range KInt64 = (minInt64, maxInt64)"
| "kind_range KUint = (0, 18446744073709551615)"
| "kind_range KUint8 = (0, 255)"
| "kind_range KUint16 = (0, 65535)"
| "kind_range KUint32 = (0, 4294967295)"
| "kind_range KUint64 = (0, 18446744073709551615)"

fun gov_wf :: "gov \<Rightarrow> bool" where
  "gov_wf (GInt k n) = (fst (kind_range k) \<le> n \<and> n \<le> snd (kind_range k))"
| "gov_wf _ = True"

lemma Normalize_bounds: "Normalize w = Inr v \<Longrightarrow> 0 \<le> v \<and> v \<le> MaxWeight"
  by (auto simp: Normalize_def MaxWeight_def split: if_splits)

lemma ParseString_bounds: "ParseString s = Inr v \<Longrightarrow> 0 \<le> v \<and> v \<le> MaxWeight"
  by (auto simp: ParseString_def Let_def Default_def MaxWeight_def
      dest!: Normalize_bounds split: if_splits option.splits)

lemma parse_float_bounds: "parse_float f = Inr v \<Longrightarrow> 0 \<le> v \<and> v \<le> MaxWeight"
proof (cases f)
  case (Fin q)
  assume "parse_float f = Inr v"
  with Fin show ?thesis
    by (auto simp: parse_float_def MaxWeight_def split: if_splits)
qed (auto simp: parse_float_def)

lemma ParseValue_bounds:
  assumes "gov_wf x" and "ParseValue x = Inr v"
  shows "0 \<le> v \<and> v \<le> MaxWeight"
proof (cases x)
  case (GInt k n)
  with assms show ?thesis
    by (cases k)
      (auto simp: parse_unsigned_def MaxWeight_def [symmetric] split: if_splits
        dest: Normalize_bounds, auto simp: MaxWeight_def)
qed (use assms in \<open>auto dest: Normalize_bounds ParseString_bounds parse_float_bounds
    split: option.splits\<close>)

text \<open>A weight that one parser returns is written by \<open>FormatInt\<close> and read back unchanged.\<close>

lemma weight_in_int64: "0 \<le> v \<Longrightarrow> v \<le> MaxWeight \<Longrightarrow> in_int64 v"
  by (simp add: in_int64_def MaxWeight_def)

lemma Normalize_idem: "0 \<le> v \<Longrightarrow> v \<le> MaxWeight \<Longrightarrow> Normalize v = Inr v"
  by (auto simp: Normalize_def)

lemma nat_digits_no_space: "c \<in> set (nat_digits n) \<Longrightarrow> \<not> is_space c"
proof (induction n rule: nat_digits.induct)
  case (1 n)
  have digit: "k < 10 \<Longrightarrow> \<not> is_space (char_of (48 + k))" for k :: nat
    by (simp add: is_space_def code_of_char_of)
  from "1.prems" consider "n < 10" "c = char_of (48 + n)"
    | "\<not> n < 10" "c \<in> set (nat_digits (n div 10))"
    | "\<not> n < 10" "c = char_of (48 + n mod 10)"
    by (subst (asm) nat_digits.simps) (auto split: if_splits)
  then show ?case
    by cases (use digit "1.IH" in auto)
qed

lemma format_int_no_space: "c \<in> set (format_int v) \<Longrightarrow> \<not> is_space c"
  using nat_digits_no_space [of c "nat (- v)"] nat_digits_no_space [of c "nat v"]
  by (auto simp: format_int_def is_space_def code_of_def split: if_splits)

lemma trim_space_id: "(\<And>c. c \<in> set s \<Longrightarrow> \<not> is_space c) \<Longrightarrow> trim_space s = s"
  by (simp add: trim_space_def dropWhile_eq_self_iff hd_in_set)
    (metis dropWhile_eq_self_iff hd_in_set rev_is_Nil_conv rev_rev_ident set_rev)

lemma trim_format_int [simp]: "trim_space (format_int v) = format_int v"
  by (rule trim_space_id) (rule format_int_no_space)

lemma format_int_nonempty: "format_int v \<noteq> []"
  by (simp add: format_int_def nat_digits_nonempty)

lemma ParseString_format:
  "0 \<le> v \<Longrightarrow> v \<le> MaxWeight \<Longrightarrow> ParseString (format_int v) = Inr v"
  using format_int_nonempty parse_format_int [OF weight_in_int64]
  by (simp add: ParseString_def Normalize_idem)

end
