(* ===== verification/Thinking.thy ===== *)
theory Thinking
  imports Prelude
begin

text \<open>
  Thinking configuration, \<open>internal/thinking\<close>: the model-name suffix (\<open>suffix.go\<close>), the
  conversion between levels and budgets (\<open>convert.go\<close>), the validation of a configuration
  against a model's capabilities (\<open>validate.go\<close>), and the parts of \<open>apply.go\<close> that do not
  read a JSON body: suffix interpretation, the mapping of high intents, the effort label of
  the usage log and the registry of provider appliers. Log calls have no effect on a result
  and are left out; an error carries its code and the values of its message.
\<close>

section \<open>Types\<close>

datatype ThinkingMode = ModeBudget | ModeLevel | ModeNone | ModeAuto

type_synonym ThinkingLevel = string

abbreviation LevelNone :: ThinkingLevel where "LevelNone \<equiv> ''none''"
abbreviation LevelAuto :: ThinkingLevel where "LevelAuto \<equiv> ''auto''"
abbreviation LevelMinimal :: ThinkingLevel where "LevelMinimal \<equiv> ''minimal''"
abbreviation LevelLow :: ThinkingLevel where "LevelLow \<equiv> ''low''"
abbreviation LevelMedium :: ThinkingLevel where "LevelMedium \<equiv> ''medium''"
abbreviation LevelHigh :: ThinkingLevel where "LevelHigh \<equiv> ''high''"
abbreviation LevelXHigh :: ThinkingLevel where "LevelXHigh \<equiv> ''xhigh''"
abbreviation LevelMax :: ThinkingLevel where "LevelMax \<equiv> ''max''"

record ThinkingConfig =
  Mode :: ThinkingMode
  Budget :: int
  Level :: ThinkingLevel

record SuffixResult =
  ModelName :: string
  HasSuffix :: bool
  RawSuffix :: string

record ThinkingSupport =
  Min :: int
  Max :: int
  ZeroAllowed :: bool
  DynamicAllowed :: bool
  Levels :: "string list"

text \<open>The fields of \<open>registry.ModelInfo\<close> this package reads.\<close>

record ModelInfo =
  miID :: string
  miType :: string
  miThinking :: "ThinkingSupport option"
  miUserDefined :: bool

datatype ThinkingError =
    ErrThinkingNotSupported string
  | ErrUnknownLevel string
  | ErrUnknownBudget int
  | ErrLevelNotSupported string "string list"
  | ErrBudgetOutOfRange int int int

definition emptyConfig :: ThinkingConfig where
  "emptyConfig = \<lparr>Mode = ModeBudget, Budget = 0, Level = ''''\<rparr>"

section \<open>Suffix parsing\<close>

definition ParseSuffix :: "string \<Rightarrow> SuffixResult" where
  "ParseSuffix model =
     (case last_index CHR ''('' model of
        None \<Rightarrow> \<lparr>ModelName = model, HasSuffix = False, RawSuffix = ''''\<rparr>
      | Some lastOpen \<Rightarrow>
          if \<not> has_suffix model '')'' then
            \<lparr>ModelName = model, HasSuffix = False, RawSuffix = ''''\<rparr>
          else
            \<lparr>ModelName = take lastOpen model, HasSuffix = True,
             RawSuffix = take (length model - 1 - (lastOpen + 1)) (drop (lastOpen + 1) model)\<rparr>)"

definition ParseNumericSuffix :: "string \<Rightarrow> int option" where
  "ParseNumericSuffix rawSuffix =
     (if rawSuffix = '''' then None
      else case parse_int64 rawSuffix of
             None \<Rightarrow> None
           | Some value \<Rightarrow> if value < 0 then None else Some value)"

definition ParseSpecialSuffix :: "string \<Rightarrow> ThinkingMode option" where
  "ParseSpecialSuffix rawSuffix =
     (if rawSuffix = '''' then None
      else let s = to_lower rawSuffix
           in if s = ''none'' then Some ModeNone
              else if s = ''auto'' \<or> s = ''-1'' then Some ModeAuto
              else None)"

definition ParseLevelSuffix :: "string \<Rightarrow> ThinkingLevel option" where
  "ParseLevelSuffix rawSuffix =
     (if rawSuffix = '''' then None
      else let s = to_lower rawSuffix
           in if s = ''minimal'' then Some LevelMinimal
              else if s = ''low'' then Some LevelLow
              else if s = ''medium'' then Some LevelMedium
              else if s = ''high'' then Some LevelHigh
              else if s = ''xhigh'' then Some LevelXHigh
              else if s = ''max'' then Some LevelMax
              else None)"

definition parseSuffixToConfig :: "string \<Rightarrow> ThinkingConfig" where
  "parseSuffixToConfig rawSuffix =
     (case ParseSpecialSuffix rawSuffix of
        Some ModeNone \<Rightarrow> emptyConfig\<lparr>Mode := ModeNone\<rparr>
      | Some ModeAuto \<Rightarrow> emptyConfig\<lparr>Mode := ModeAuto, Budget := -1\<rparr>
      | _ \<Rightarrow>
        (case ParseLevelSuffix rawSuffix of
           Some level \<Rightarrow> emptyConfig\<lparr>Mode := ModeLevel, Level := level\<rparr>
         | None \<Rightarrow>
           (case ParseNumericSuffix rawSuffix of
              Some budget \<Rightarrow>
                if budget = 0 then emptyConfig\<lparr>Mode := ModeNone\<rparr>
                else emptyConfig\<lparr>Mode := ModeBudget, Budget := budget\<rparr>
            | None \<Rightarrow> emptyConfig)))"

section \<open>Levels and budgets\<close>

definition levelToBudgetMap :: "(string, int) gomap" where
  "levelToBudgetMap =
     [(''none'', 0), (''auto'', -1), (''minimal'', 512), (''low'', 1024), (''medium'', 8192),
      (''high'', 24576), (''xhigh'', 32768), (''max'', 128000)]"

definition ConvertLevelToBudget :: "string \<Rightarrow> int option" where
  "ConvertLevelToBudget level = glookup levelToBudgetMap (to_lower level)"

definition ThresholdMinimal :: int where "ThresholdMinimal = 512"
definition ThresholdLow :: int where "ThresholdLow = 1024"
definition ThresholdMedium :: int where "ThresholdMedium = 8192"
definition ThresholdHigh :: int where "ThresholdHigh = 24576"

lemmas thresholds = ThresholdMinimal_def ThresholdLow_def ThresholdMedium_def ThresholdHigh_def

definition ConvertBudgetToLevel :: "int \<Rightarrow> string option" where
  "ConvertBudgetToLevel budget =
     (if budget < -1 then None
      else if budget = -1 then Some LevelAuto
      else if budget = 0 then Some LevelNone
      else if budget \<le> ThresholdMinimal then Some LevelMinimal
      else if budget \<le> ThresholdLow then Some LevelLow
      else if budget \<le> ThresholdMedium then Some LevelMedium
      else if budget \<le> ThresholdHigh then Some LevelHigh
      else Some LevelXHigh)"

definition HasLevel :: "string list \<Rightarrow> string \<Rightarrow> bool" where
  "HasLevel levels target = list_ex (\<lambda>level. equal_fold (trim_space level) target) levels"

definition MapToClaudeEffort :: "string \<Rightarrow> bool \<Rightarrow> string option" where
  "MapToClaudeEffort level0 supportsMax =
     (let level = to_lower (trim_space level0)
      in if level = '''' then None
         else if level = ''minimal'' then Some ''low''
         else if level \<in> {''low'', ''medium'', ''high''} then Some level
         else if level \<in> {''xhigh'', ''max''} then Some (if supportsMax then ''max'' else ''high'')
         else if level = ''auto'' then Some ''high''
         else None)"

datatype ModelCapability = CapabilityUnknown | CapabilityNone | CapabilityBudgetOnly
  | CapabilityLevelOnly | CapabilityHybrid

definition detectModelCapability :: "ModelInfo option \<Rightarrow> ModelCapability" where
  "detectModelCapability modelInfo =
     (case modelInfo of
        None \<Rightarrow> CapabilityUnknown
      | Some mi \<Rightarrow>
          (case miThinking mi of
             None \<Rightarrow> CapabilityNone
           | Some support \<Rightarrow>
               let hasBudget = (Min support > 0 \<or> Max support > 0);
                   hasLevels = (length (Levels support) > 0)
               in if hasBudget \<and> hasLevels then CapabilityHybrid
                  else if hasBudget then CapabilityBudgetOnly
                  else if hasLevels then CapabilityLevelOnly
                  else CapabilityNone))"

section \<open>Validation\<close>

definition standardLevelOrder :: "ThinkingLevel list" where
  "standardLevelOrder = [LevelMinimal, LevelLow, LevelMedium, LevelHigh, LevelXHigh, LevelMax]"

definition isLevelSupported :: "string \<Rightarrow> string list \<Rightarrow> bool" where
  "isLevelSupported level supported = list_ex (\<lambda>s. equal_fold level (trim_space s)) supported"

text \<open>The position in the standard order; \<open>None\<close> is the source's -1.\<close>

fun levelIndexFrom :: "nat \<Rightarrow> ThinkingLevel list \<Rightarrow> string \<Rightarrow> nat option" where
  "levelIndexFrom i [] level = None"
| "levelIndexFrom i (l # ls) level =
     (if equal_fold level l then Some i else levelIndexFrom (Suc i) ls level)"

definition levelIndex :: "string \<Rightarrow> nat option" where
  "levelIndex level = levelIndexFrom 0 standardLevelOrder level"

definition normalizeLevels :: "string list \<Rightarrow> string list" where
  "normalizeLevels levels = map (\<lambda>l. to_lower (trim_space l)) levels"

definition isBudgetCapableProvider :: "string \<Rightarrow> bool" where
  "isBudgetCapableProvider provider \<longleftrightarrow> provider \<in> {''gemini'', ''antigravity'', ''claude''}"

definition isGeminiFamily :: "string \<Rightarrow> bool" where
  "isGeminiFamily provider \<longleftrightarrow> provider \<in> {''gemini'', ''antigravity''}"

definition isOpenAIFamily :: "string \<Rightarrow> bool" where
  "isOpenAIFamily provider \<longleftrightarrow> provider \<in> {''openai'', ''openai-response'', ''codex''}"

definition isSameProviderFamily :: "string \<Rightarrow> string \<Rightarrow> bool" where
  "isSameProviderFamily from_p to_p \<longleftrightarrow>
     from_p = to_p \<or> (isGeminiFamily from_p \<and> isGeminiFamily to_p) \<or>
     (isOpenAIFamily from_p \<and> isOpenAIFamily to_p)"

text \<open>
  The loop of \<open>clampLevel\<close> over the supported levels: \<open>best\<close> is the pair of \<open>bestIdx\<close> and
  \<open>bestDist\<close>, \<open>None\<close> while \<open>bestIdx\<close> is still -1 (its initial distance is larger than any).
\<close>

definition level_dist :: "nat \<Rightarrow> nat \<Rightarrow> nat" where
  "level_dist a b = (if a < b then b - a else a - b)"

fun clampLoop :: "nat \<Rightarrow> string list \<Rightarrow> (nat \<times> nat) option \<Rightarrow> (nat \<times> nat) option" where
  "clampLoop pos [] best = best"
| "clampLoop pos (s # ss) best =
     (case levelIndex (trim_space s) of
        None \<Rightarrow> clampLoop pos ss best
      | Some idx \<Rightarrow>
          let dist = level_dist pos idx
          in clampLoop pos ss
               (case best of
                  None \<Rightarrow> Some (idx, dist)
                | Some (bestIdx, bestDist) \<Rightarrow>
                    if dist < bestDist \<or> (dist = bestDist \<and> idx < bestIdx)
                    then Some (idx, dist) else best))"

definition clampLevel :: "ThinkingLevel \<Rightarrow> ModelInfo option \<Rightarrow> ThinkingLevel" where
  "clampLevel level modelInfo =
     (let supported = (case modelInfo of None \<Rightarrow> []
                       | Some mi \<Rightarrow> (case miThinking mi of None \<Rightarrow> [] | Some t \<Rightarrow> Levels t))
      in if supported = [] \<or> isLevelSupported level supported then level
         else case levelIndex level of
                None \<Rightarrow> level
              | Some pos \<Rightarrow>
                  (case clampLoop pos supported None of
                     Some (bestIdx, _) \<Rightarrow> standardLevelOrder ! bestIdx
                   | None \<Rightarrow> level))"

definition clampBudget :: "int \<Rightarrow> ModelInfo option \<Rightarrow> int" where
  "clampBudget value modelInfo =
     (case (case modelInfo of None \<Rightarrow> None | Some mi \<Rightarrow> miThinking mi) of
        None \<Rightarrow> value
      | Some support \<Rightarrow>
          if value = -1 then value
          else if value = 0 \<and> \<not> ZeroAllowed support then Min support
          else if Min support = 0 \<and> Max support = 0 then value
          else if value < Min support then
            (if value = 0 \<and> ZeroAllowed support then 0 else Min support)
          else if value > Max support then Max support
          else value)"

definition convertAutoToMidRange :: "ThinkingConfig \<Rightarrow> ThinkingSupport \<Rightarrow> ThinkingConfig" where
  "convertAutoToMidRange config support =
     (if length (Levels support) > 0 \<and> Min support = 0 \<and> Max support = 0 then
        config\<lparr>Mode := ModeLevel, Level := LevelMedium, Budget := 0\<rparr>
      else let mid = go_div (wrap64 (Min support + Max support)) 2
           in if mid \<le> 0 \<and> ZeroAllowed support then config\<lparr>Mode := ModeNone, Budget := 0\<rparr>
              else if mid \<le> 0 then config\<lparr>Mode := ModeBudget, Budget := Min support\<rparr>
              else config\<lparr>Mode := ModeBudget, Budget := mid\<rparr>)"

text \<open>The capability switch of \<open>ValidateConfig\<close>; the second component is \<open>budgetDerivedFromLevel\<close>.\<close>

definition convertByCapability ::
  "ThinkingConfig \<Rightarrow> ModelInfo option \<Rightarrow> ThinkingError + (ThinkingConfig \<times> bool)" where
  "convertByCapability config modelInfo =
     (case detectModelCapability modelInfo of
        CapabilityBudgetOnly \<Rightarrow>
          if Mode config = ModeLevel then
            (if Level config = LevelAuto then Inr (config, False)
             else case ConvertLevelToBudget (Level config) of
                    None \<Rightarrow> Inl (ErrUnknownLevel (Level config))
                  | Some budget \<Rightarrow>
                      Inr (config\<lparr>Mode := ModeBudget, Budget := budget, Level := ''''\<rparr>, True))
          else Inr (config, False)
      | CapabilityLevelOnly \<Rightarrow>
          if Mode config = ModeBudget then
            (case ConvertBudgetToLevel (Budget config) of
               None \<Rightarrow> Inl (ErrUnknownBudget (Budget config))
             | Some level \<Rightarrow>
                 Inr (config\<lparr>Mode := ModeLevel, Level := clampLevel level modelInfo, Budget := 0\<rparr>,
                      False))
          else Inr (config, False)
      | _ \<Rightarrow> Inr (config, False))"

definition normalizeSpecial :: "ThinkingConfig \<Rightarrow> ThinkingConfig" where
  "normalizeSpecial config0 =
     (let config1 = (if Mode config0 = ModeLevel \<and> Level config0 = LevelNone
                     then config0\<lparr>Mode := ModeNone, Budget := 0, Level := ''''\<rparr> else config0);
          config2 = (if Mode config1 = ModeLevel \<and> Level config1 = LevelAuto
                     then config1\<lparr>Mode := ModeAuto, Budget := -1, Level := ''''\<rparr> else config1)
      in if Mode config2 = ModeBudget \<and> Budget config2 = 0
         then config2\<lparr>Mode := ModeNone, Level := ''''\<rparr> else config2)"

definition checkLevel ::
  "bool \<Rightarrow> ThinkingSupport \<Rightarrow> ModelInfo option \<Rightarrow> ThinkingConfig \<Rightarrow> ThinkingError + ThinkingConfig" where
  "checkLevel allowClampUnsupported support modelInfo config =
     (if length (Levels support) > 0 \<and> Mode config = ModeLevel then
        (if \<not> isLevelSupported (Level config) (Levels support) then
           let config' = (if allowClampUnsupported
                          then config\<lparr>Level := clampLevel (Level config) modelInfo\<rparr> else config)
           in if \<not> isLevelSupported (Level config') (Levels support)
              then Inl (ErrLevelNotSupported (to_lower (Level config')) (normalizeLevels (Levels support)))
              else Inr config'
         else Inr config)
      else Inr config)"

definition checkBudget ::
  "bool \<Rightarrow> bool \<Rightarrow> ThinkingSupport \<Rightarrow> ThinkingConfig \<Rightarrow> ThinkingError + ThinkingConfig" where
  "checkBudget strictBudget budgetDerivedFromLevel support config =
     (if strictBudget \<and> Mode config = ModeBudget \<and> \<not> budgetDerivedFromLevel \<and>
         (Min support \<noteq> 0 \<or> Max support \<noteq> 0) \<and>
         (Budget config < Min support \<or> Budget config > Max support \<or>
          (Budget config = 0 \<and> \<not> ZeroAllowed support))
      then Inl (ErrBudgetOutOfRange (Budget config) (Min support) (Max support))
      else Inr config)"

definition resolveAuto :: "ThinkingSupport \<Rightarrow> ModelInfo option \<Rightarrow> ThinkingConfig \<Rightarrow> ThinkingConfig" where
  "resolveAuto support modelInfo config =
     (if Mode config = ModeAuto \<and> \<not> DynamicAllowed support then
        let c = convertAutoToMidRange config support
        in if Mode c = ModeLevel \<and> length (Levels support) > 0 \<and>
              \<not> isLevelSupported (Level c) (Levels support)
           then c\<lparr>Level := clampLevel (Level c) modelInfo\<rparr> else c
      else config)"

definition finishConfig ::
  "string \<Rightarrow> ThinkingSupport \<Rightarrow> ModelInfo option \<Rightarrow> ThinkingConfig \<Rightarrow> ThinkingConfig" where
  "finishConfig toFormat support modelInfo config =
     (if Mode config = ModeNone \<and> toFormat = ''claude'' then config\<lparr>Budget := 0, Level := ''''\<rparr>
      else
        let c = (if Mode config \<in> {ModeBudget, ModeAuto, ModeNone}
                 then config\<lparr>Budget := clampBudget (Budget config) modelInfo\<rparr> else config);
            cannotDisableLevelModel =
              (\<not> ZeroAllowed support \<and> \<not> isLevelSupported LevelNone (Levels support))
        in if Mode c = ModeNone \<and> length (Levels support) > 0 \<and>
              (Budget c > 0 \<or> cannotDisableLevelModel)
           then c\<lparr>Level := hd (Levels support)\<rparr> else c)"

definition modelFamilyMismatch :: "ModelInfo \<Rightarrow> string \<Rightarrow> string \<Rightarrow> bool" where
  "modelFamilyMismatch mi fromFormat toFormat =
     (let modelType = to_lower (trim_space (miType mi))
      in modelType \<noteq> '''' \<and>
         ((fromFormat \<noteq> '''' \<and> \<not> isSameProviderFamily fromFormat modelType) \<or>
          (toFormat \<noteq> '''' \<and> \<not> isSameProviderFamily toFormat modelType)))"

definition ValidateConfig ::
  "ThinkingConfig \<Rightarrow> ModelInfo option \<Rightarrow> string \<Rightarrow> string \<Rightarrow> bool \<Rightarrow> ThinkingError + ThinkingConfig" where
  "ValidateConfig config modelInfo fromFormat0 toFormat0 fromSuffix =
     (let fromFormat = to_lower (trim_space fromFormat0);
          toFormat = to_lower (trim_space toFormat0)
      in case Option.bind modelInfo miThinking of
           None \<Rightarrow>
             (if Mode config \<noteq> ModeNone then
                Inl (ErrThinkingNotSupported
                  (case modelInfo of None \<Rightarrow> ''unknown''
                   | Some mi \<Rightarrow> if miID mi \<noteq> '''' then miID mi else ''unknown''))
              else Inr config)
         | Some support \<Rightarrow>
             let toHasLevelSupport =
                   (detectModelCapability modelInfo \<in> {CapabilityLevelOnly, CapabilityHybrid});
                 mismatch = modelFamilyMismatch (the modelInfo) fromFormat toFormat;
                 allowClampUnsupported =
                   (toHasLevelSupport \<and> (\<not> isSameProviderFamily fromFormat toFormat \<or> mismatch));
                 strictBudget =
                   (\<not> fromSuffix \<and> fromFormat \<noteq> '''' \<and> isSameProviderFamily fromFormat toFormat \<and> \<not> mismatch)
             in case convertByCapability config modelInfo of
                  Inl e \<Rightarrow> Inl e
                | Inr (c1, derived) \<Rightarrow>
                    (case checkLevel allowClampUnsupported support modelInfo (normalizeSpecial c1) of
                       Inl e \<Rightarrow> Inl e
                     | Inr c2 \<Rightarrow>
                         (case checkBudget strictBudget derived support c2 of
                            Inl e \<Rightarrow> Inl e
                          | Inr c3 \<Rightarrow>
                              Inr (finishConfig toFormat support modelInfo
                                     (resolveAuto support modelInfo c3)))))"

section \<open>Application helpers\<close>

definition hasThinkingConfig :: "ThinkingConfig \<Rightarrow> bool" where
  "hasThinkingConfig config \<longleftrightarrow>
     Mode config \<noteq> ModeBudget \<or> Budget config \<noteq> 0 \<or> Level config \<noteq> ''''"

definition thinkingIsFullyDisabled :: "ThinkingConfig \<Rightarrow> bool" where
  "thinkingIsFullyDisabled config \<longleftrightarrow>
     Mode config = ModeNone \<and> Budget config = 0 \<and> Level config = ''''"

definition shouldMapConfiguredHighIntent :: "string \<Rightarrow> string \<Rightarrow> ModelInfo option \<Rightarrow> bool" where
  "shouldMapConfiguredHighIntent fromFormat0 toFormat0 modelInfo =
     (let fromFormat = to_lower (trim_space fromFormat0);
          toFormat = to_lower (trim_space toFormat0)
      in if fromFormat \<noteq> toFormat then True
         else case modelInfo of
                None \<Rightarrow> False
              | Some mi \<Rightarrow>
                  let modelType = to_lower (trim_space (miType mi))
                  in modelType \<noteq> '''' \<and> \<not> isSameProviderFamily toFormat modelType)"

definition mapConfiguredHighIntent :: "ThinkingLevel \<Rightarrow> ModelInfo option \<Rightarrow> ThinkingLevel" where
  "mapConfiguredHighIntent level0 modelInfo =
     (case Option.bind modelInfo miThinking of
        None \<Rightarrow> level0
      | Some support \<Rightarrow>
          if Levels support = [] then level0
          else
            let level = to_lower (trim_space level0);
                candidates = (if level = LevelXHigh then [LevelXHigh, LevelMax, LevelHigh]
                              else if level = LevelMax then [LevelMax, LevelXHigh, LevelHigh]
                              else [])
            in case find (\<lambda>c. isLevelSupported c (Levels support)) candidates of
                 Some c \<Rightarrow> c
               | None \<Rightarrow> level)"

definition normalizeUserDefinedConfig :: "ThinkingConfig \<Rightarrow> string \<Rightarrow> ThinkingConfig" where
  "normalizeUserDefinedConfig config toFormat =
     (if Mode config \<noteq> ModeLevel then config
      else if toFormat = ''claude'' then config
      else if \<not> isBudgetCapableProvider toFormat then config
      else case ConvertLevelToBudget (Level config) of
             None \<Rightarrow> config
           | Some budget \<Rightarrow> config\<lparr>Mode := ModeBudget, Budget := budget, Level := ''''\<rparr>)"

definition reasoningEffortFromConfig :: "ThinkingConfig \<Rightarrow> string" where
  "reasoningEffortFromConfig config =
     (if \<not> hasThinkingConfig config then ''''
      else case Mode config of
             ModeNone \<Rightarrow> LevelNone
           | ModeAuto \<Rightarrow> LevelAuto
           | ModeLevel \<Rightarrow> to_lower (trim_space (Level config))
           | ModeBudget \<Rightarrow>
               (case ConvertBudgetToLevel (Budget config) of None \<Rightarrow> '''' | Some level \<Rightarrow> level))"

definition reasoningEffortFromSuffix :: "SuffixResult \<Rightarrow> string" where
  "reasoningEffortFromSuffix suffix =
     (if \<not> HasSuffix suffix then ''''
      else reasoningEffortFromConfig (parseSuffixToConfig (RawSuffix suffix)))"

definition IsUserDefinedModel :: "ModelInfo option \<Rightarrow> bool" where
  "IsUserDefinedModel modelInfo = (case modelInfo of None \<Rightarrow> True | Some mi \<Rightarrow> miUserDefined mi)"

section \<open>Facts about levels\<close>

lemma levelIndexFrom_bounds:
  "levelIndexFrom i ls l = Some j \<Longrightarrow> i \<le> j \<and> j < i + length ls \<and> equal_fold l (ls ! (j - i))"
  by (induction i ls l rule: levelIndexFrom.induct)
    (auto split: if_splits simp: nth_Cons' Suc_diff_le less_Suc_eq_le)

lemma levelIndex_bounds:
  "levelIndex l = Some j \<Longrightarrow> j < 6 \<and> equal_fold l (standardLevelOrder ! j)"
  using levelIndexFrom_bounds [of 0 standardLevelOrder l j]
  by (simp add: levelIndex_def standardLevelOrder_def)

lemma equal_fold_sym: "equal_fold a b \<longleftrightarrow> equal_fold b a"
  by (auto simp: equal_fold_def)

lemma isLevelSupported_iff:
  "isLevelSupported l ss \<longleftrightarrow> (\<exists>s \<in> set ss. equal_fold l (trim_space s))"
  by (simp add: isLevelSupported_def list_ex_iff)

text \<open>What the loop of \<open>clampLevel\<close> has found after a list of supported levels.\<close>

definition closer :: "nat \<Rightarrow> nat \<Rightarrow> nat \<Rightarrow> bool" where
  "closer pos i j \<longleftrightarrow>
     level_dist pos i < level_dist pos j \<or> (level_dist pos i = level_dist pos j \<and> i \<le> j)"

lemma closer_refl: "closer pos i i"
  by (simp add: closer_def)

lemma closer_trans: "closer pos i j \<Longrightarrow> closer pos j k \<Longrightarrow> closer pos i k"
  by (auto simp: closer_def)

definition candidates :: "string list \<Rightarrow> nat set" where
  "candidates ss = {i. \<exists>s \<in> set ss. levelIndex (trim_space s) = Some i}"

lemma candidates_Nil [simp]: "candidates [] = {}"
  by (simp add: candidates_def)

lemma candidates_Cons [simp]:
  "candidates (s # ss) =
     (case levelIndex (trim_space s) of None \<Rightarrow> candidates ss | Some i \<Rightarrow> insert i (candidates ss))"
  by (auto simp: candidates_def split: option.splits)

fun best_ok :: "nat \<Rightarrow> (nat \<times> nat) option \<Rightarrow> bool" where
  "best_ok pos None = True"
| "best_ok pos (Some (i, d)) = (d = level_dist pos i)"

definition best_set :: "(nat \<times> nat) option \<Rightarrow> nat set" where
  "best_set b = (case b of None \<Rightarrow> {} | Some (i, _) \<Rightarrow> {i})"

lemma best_extend:
  assumes R: "case r of None \<Rightarrow> C \<union> B' = {}
              | Some (i, d) \<Rightarrow> i \<in> C \<union> B' \<and> (\<forall>j \<in> C \<union> B'. closer pos i j)"
    and sub: "B' \<subseteq> B" and ne: "B' \<noteq> {}" and dom: "\<forall>j \<in> B. \<exists>i \<in> B'. closer pos i j"
  shows "case r of None \<Rightarrow> C \<union> B = {}
         | Some (i, d) \<Rightarrow> i \<in> C \<union> B \<and> (\<forall>j \<in> C \<union> B. closer pos i j)"
proof (cases r)
  case None
  with R ne show ?thesis by simp
next
  case (Some p)
  obtain i d where p: "p = (i, d)" by fastforce
  with R Some have mem: "i \<in> C \<union> B'" and best: "\<And>j. j \<in> C \<union> B' \<Longrightarrow> closer pos i j"
    by simp_all
  have "closer pos i j" if "j \<in> C \<union> B" for j
  proof (cases "j \<in> C")
    case True
    then show ?thesis using best by blast
  next
    case False
    with that dom obtain k where "k \<in> B'" "closer pos k j" by blast
    then show ?thesis using best closer_trans by blast
  qed
  with mem sub show ?thesis by (auto simp: Some p)
qed

lemma clampLoop_spec:
  assumes "best_ok pos best"
  shows "case clampLoop pos ss best of
           None \<Rightarrow> candidates ss \<union> best_set best = {}
         | Some (i, d) \<Rightarrow> i \<in> candidates ss \<union> best_set best \<and>
             (\<forall>j \<in> candidates ss \<union> best_set best. closer pos i j)"
  using assms
proof (induction pos ss best rule: clampLoop.induct)
  case (1 pos best)
  then show ?case by (auto simp: best_set_def closer_refl split: option.splits)
next
  case (2 pos s ss best)
  show ?case
  proof (cases "levelIndex (trim_space s)")
    case None
    then have "clampLoop pos (s # ss) best = clampLoop pos ss best"
      and "candidates (s # ss) = candidates ss" by simp_all
    then show ?thesis using "2.IH"(1) [OF None "2.prems"] by metis
  next
    case (Some idx)
    let ?d = "level_dist pos idx"
    let ?b = "case best of None \<Rightarrow> Some (idx, ?d)
              | Some (bi, bd) \<Rightarrow> if ?d < bd \<or> (?d = bd \<and> idx < bi) then Some (idx, ?d) else best"
    have ok: "best_ok pos ?b"
      using "2.prems" by (auto split: option.splits)
    have loop: "clampLoop pos (s # ss) best = clampLoop pos ss ?b"
      using Some by (simp add: Let_def)
    have IH: "case clampLoop pos ss ?b of
           None \<Rightarrow> candidates ss \<union> best_set ?b = {}
         | Some (i, d) \<Rightarrow> i \<in> candidates ss \<union> best_set ?b \<and>
             (\<forall>j \<in> candidates ss \<union> best_set ?b. closer pos i j)"
      using "2.IH"(2) [OF Some refl ok] .
    have sub: "best_set ?b \<subseteq> insert idx (best_set best)" and ne: "best_set ?b \<noteq> {}"
      by (auto simp: best_set_def split: option.splits if_splits)
    have dom: "\<forall>j \<in> insert idx (best_set best). \<exists>i \<in> best_set ?b. closer pos i j"
      using "2.prems" by (auto simp: best_set_def closer_def split: option.splits if_splits)
    have eq: "candidates (s # ss) \<union> best_set best = candidates ss \<union> insert idx (best_set best)"
      using Some by auto
    show ?thesis
      unfolding loop eq using IH sub ne dom by (rule best_extend)
  qed
qed

lemma clampLoop_None: "clampLoop pos ss None = None \<longleftrightarrow> candidates ss = {}"
  using clampLoop_spec [of pos None ss] by (auto simp: best_set_def split: option.splits)

lemma clampLoop_Some:
  "clampLoop pos ss None = Some (i, d) \<Longrightarrow> i \<in> candidates ss \<and> (\<forall>j \<in> candidates ss. closer pos i j)"
  using clampLoop_spec [of pos None ss] by (simp add: best_set_def)

lemma candidate_supported:
  "i \<in> candidates ss \<Longrightarrow> isLevelSupported (standardLevelOrder ! i) ss"
  by (auto simp: candidates_def isLevelSupported_iff dest!: levelIndex_bounds
      intro: equal_fold_sym [THEN iffD1])

lemma clampLevel_supported:
  assumes "miThinking mi = Some t" and "candidates (Levels t) \<noteq> {}" and "levelIndex l \<noteq> None"
  shows "isLevelSupported (clampLevel l (Some mi)) (Levels t)"
  using assms clampLoop_None candidate_supported
  by (auto simp: clampLevel_def Let_def split: option.splits dest!: clampLoop_Some)

section \<open>Facts about validation\<close>

lemma medium_standard: "levelIndex LevelMedium \<noteq> None"
  by code_simp

lemma checkLevel_supported:
  "checkLevel ac t mi c = Inr c' \<Longrightarrow> Mode c' = ModeLevel \<Longrightarrow> Levels t \<noteq> [] \<Longrightarrow>
   isLevelSupported (Level c') (Levels t)"
  by (auto simp: checkLevel_def Let_def split: if_splits)

lemma checkLevel_frame:
  "checkLevel ac t mi c = Inr c' \<Longrightarrow> Mode c' = Mode c \<and> Budget c' = Budget c"
  by (auto simp: checkLevel_def Let_def split: if_splits)

lemma checkBudget_id: "checkBudget strict derived t c = Inr c' \<Longrightarrow> c' = c"
  by (auto simp: checkBudget_def split: if_splits)

lemma finishConfig_Mode [simp]: "Mode (finishConfig f t mi c) = Mode c"
  by (simp add: finishConfig_def Let_def)

lemma finishConfig_Level: "Mode c = ModeLevel \<Longrightarrow> Level (finishConfig f t mi c) = Level c"
  by (simp add: finishConfig_def Let_def)

lemma finishConfig_Budget:
  "Mode c = ModeBudget \<Longrightarrow> Budget (finishConfig f t mi c) = clampBudget (Budget c) mi"
  by (simp add: finishConfig_def Let_def)

lemma resolveAuto_supported:
  assumes "miThinking mi = Some t" and "DynamicAllowed t \<or> candidates (Levels t) \<noteq> {}"
    and "Levels t \<noteq> []"
    and "Mode c = ModeLevel \<Longrightarrow> isLevelSupported (Level c) (Levels t)"
    and "Mode (resolveAuto t (Some mi) c) = ModeLevel"
  shows "isLevelSupported (Level (resolveAuto t (Some mi) c)) (Levels t)"
proof (cases "Mode c = ModeAuto \<and> \<not> DynamicAllowed t")
  case True
  with assms(2) have cand: "candidates (Levels t) \<noteq> {}" by simp
  have "isLevelSupported (clampLevel LevelMedium (Some mi)) (Levels t)"
    using assms(1) cand medium_standard by (rule clampLevel_supported)
  with True assms(3,5) show ?thesis
    by (auto simp: resolveAuto_def convertAutoToMidRange_def Let_def split: if_splits)
next
  case False
  then have "resolveAuto t (Some mi) c = c" by (auto simp: resolveAuto_def)
  with assms(4,5) show ?thesis by simp
qed

text \<open>The stages of a successful validation, for a model that supports thinking.\<close>

lemma ValidateConfig_stages:
  assumes "ValidateConfig c (Some mi) f0 t0 sfx = Inr c'" and "miThinking mi = Some t"
  obtains c1 derived c2 ac where
    "convertByCapability c (Some mi) = Inr (c1, derived)"
    "checkLevel ac t (Some mi) (normalizeSpecial c1) = Inr c2"
    "c' = finishConfig (to_lower (trim_space t0)) t (Some mi) (resolveAuto t (Some mi) c2)"
  using assms
  by (auto simp: ValidateConfig_def Let_def split: sum.splits prod.splits dest!: checkBudget_id)

lemma clampBudget_range:
  assumes "miThinking mi = Some t" and "Min t \<le> Max t" and "Min t \<noteq> 0 \<or> Max t \<noteq> 0"
    and "clampBudget v (Some mi) = b" and "v \<noteq> -1"
  shows "(Min t \<le> b \<and> b \<le> Max t) \<or> (b = 0 \<and> ZeroAllowed t)"
  using assms by (auto simp: clampBudget_def split: if_splits)

lemma normalizeSpecial_Budget:
  "Mode (normalizeSpecial c) = ModeBudget \<Longrightarrow> Mode c = ModeBudget \<and> Budget (normalizeSpecial c) = Budget c"
  by (auto simp: normalizeSpecial_def Let_def split: if_splits)

lemma levelToBudget_auto: "ConvertLevelToBudget l = Some (-1) \<Longrightarrow> to_lower l = LevelAuto"
  by (auto simp: ConvertLevelToBudget_def levelToBudgetMap_def split: if_splits)

lemma convertByCapability_Budget:
  assumes "convertByCapability c m = Inr (c1, d)" and "Mode c1 = ModeBudget"
  shows "(Mode c = ModeBudget \<and> Budget c1 = Budget c) \<or>
         (Mode c = ModeLevel \<and> ConvertLevelToBudget (Level c) = Some (Budget c1))"
  using assms
  by (auto simp: convertByCapability_def split: ModelCapability.splits if_splits option.splits)

lemma resolveAuto_Budget:
  assumes "Mode (resolveAuto t m c) = ModeBudget"
  shows "(Mode c = ModeBudget \<and> resolveAuto t m c = c) \<or>
         Budget (resolveAuto t m c) = Min t \<or> 0 < Budget (resolveAuto t m c)"
  using assms
  by (auto simp: resolveAuto_def convertAutoToMidRange_def Let_def split: if_splits)

lemma ParseSuffix_split:
  assumes has: "HasSuffix (ParseSuffix model)"
  shows "model = ModelName (ParseSuffix model) @ ''('' @ RawSuffix (ParseSuffix model) @ '')''
      \<and> CHR ''('' \<notin> set (RawSuffix (ParseSuffix model))"
proof -
  from has obtain i where i: "last_index CHR ''('' model = Some i" and suf: "has_suffix model '')''"
    by (auto simp: ParseSuffix_def split: option.splits if_splits)
  let ?tail = "drop (Suc i) model"
  from last_index_split [OF i] have m: "model = take i model @ CHR ''('' # ?tail"
    and fresh: "CHR ''('' \<notin> set ?tail" by auto
  from suf obtain p where p: "model = p @ '')''" by (auto simp: has_suffix_iff)
  have ne: "?tail \<noteq> []"
  proof
    assume "?tail = []"
    with m have "last model = CHR ''(''" by (metis last_snoc)
    with p show False by simp
  qed
  then have "last ?tail = CHR '')''"
    using p by (metis last_drop drop_eq_Nil not_le last_snoc)
  with ne have tail: "?tail = butlast ?tail @ '')''"
    by (metis append_butlast_last_id)
  have raw: "RawSuffix (ParseSuffix model) = butlast ?tail"
    using i suf by (simp add: ParseSuffix_def butlast_conv_take)
  have name: "ModelName (ParseSuffix model) = take i model"
    using i suf by (simp add: ParseSuffix_def)
  from m tail have "model = take i model @ ''('' @ butlast ?tail @ '')''"
    by (metis append_Cons append_Nil)
  with raw name fresh show ?thesis by (metis in_set_butlastD)
qed

lemma ParseSuffix_build:
  assumes "CHR ''('' \<notin> set v"
  shows "ParseSuffix (m @ ''('' @ v @ '')'') = \<lparr>ModelName = m, HasSuffix = True, RawSuffix = v\<rparr>"
proof -
  have "last_index CHR ''('' (m @ ''('' @ v @ '')'') = Some (length m)"
  proof (induction m)
    case Nil
    have "last_index CHR ''('' (v @ '')'') = None" using assms by (simp add: last_index_None)
    then show ?case by simp
  qed simp
  moreover have "has_suffix (m @ ''('' @ v @ '')'') '')''"
    unfolding has_suffix_iff by (rule exI [of _ "m @ ''('' @ v"]) simp
  ultimately show ?thesis by (simp add: ParseSuffix_def)
qed

lemma ParseSuffix_none:
  "\<not> HasSuffix (ParseSuffix model) \<Longrightarrow>
   ParseSuffix model = \<lparr>ModelName = model, HasSuffix = False, RawSuffix = ''''\<rparr>"
  by (auto simp: ParseSuffix_def split: option.splits if_splits)

section \<open>Properties\<close>

text \<open>
  C39 (suffix round trip). A model name has the suffix \<open>v\<close> after the name \<open>m\<close> exactly when it
  is \<open>m(v)\<close> with no opening parenthesis in \<open>v\<close>; a name without a suffix is returned unchanged
  with an empty raw suffix.
\<close>

theorem ParseSuffix_iff:
  "(ParseSuffix model = \<lparr>ModelName = m, HasSuffix = True, RawSuffix = v\<rparr> \<longleftrightarrow>
      model = m @ ''('' @ v @ '')'' \<and> CHR ''('' \<notin> set v) \<and>
   (HasSuffix (ParseSuffix model) \<or>
      ParseSuffix model = \<lparr>ModelName = model, HasSuffix = False, RawSuffix = ''''\<rparr>)"
  using ParseSuffix_split [of model] ParseSuffix_build [of v m] ParseSuffix_none [of model] by auto

text \<open>
  Levels and budgets. Every level the table knows converts to a budget that converts
  back to the same level, in any letter case; only \<open>max\<close> comes back as \<open>xhigh\<close>.
\<close>

theorem level_budget_roundtrip:
  "ConvertLevelToBudget l = Some b \<Longrightarrow>
   ConvertBudgetToLevel b = Some (if to_lower l = LevelMax then LevelXHigh else to_lower l)"
  by (auto simp: ConvertLevelToBudget_def levelToBudgetMap_def ConvertBudgetToLevel_def thresholds
      split: if_splits)

theorem level_budget_roundtrip_witness:
  "ConvertLevelToBudget ''High'' = Some 24576 \<and> ConvertBudgetToLevel 24576 = Some ''high''"
proof -
  have h: "ConvertLevelToBudget ''High'' = Some 24576" by code_simp
  have "to_lower ''High'' = ''high''" by code_simp
  with level_budget_roundtrip [OF h] h show ?thesis by simp
qed

text \<open>
  Nearest level. When a model's levels contain a standard one, clamping a standard level
  that is not supported returns a supported level whose distance in the standard order is
  least, the lower level on a tie.
\<close>

theorem clampLevel_nearest:
  assumes "miThinking mi = Some t" and "\<not> isLevelSupported l (Levels t)"
    and "levelIndex l = Some pos" and "\<exists>s \<in> set (Levels t). levelIndex (trim_space s) \<noteq> None"
  shows "\<exists>i < 6. clampLevel l (Some mi) = standardLevelOrder ! i \<and>
           isLevelSupported (standardLevelOrder ! i) (Levels t) \<and>
           (\<forall>s \<in> set (Levels t). \<forall>j. levelIndex (trim_space s) = Some j \<longrightarrow>
              level_dist pos i < level_dist pos j \<or>
              (level_dist pos i = level_dist pos j \<and> i \<le> j))"
proof -
  from assms(4) have ne: "candidates (Levels t) \<noteq> {}" by (auto simp: candidates_def)
  then obtain i d where loop: "clampLoop pos (Levels t) None = Some (i, d)"
    using clampLoop_None by (metis not_None_eq surj_pair)
  from clampLoop_Some [OF loop] have mem: "i \<in> candidates (Levels t)"
    and best: "\<And>j. j \<in> candidates (Levels t) \<Longrightarrow> closer pos i j" by auto
  from assms(4) have "Levels t \<noteq> []" by auto
  with assms loop have "clampLevel l (Some mi) = standardLevelOrder ! i"
    by (simp add: clampLevel_def Let_def)
  moreover have "i < 6" using mem by (auto simp: candidates_def dest: levelIndex_bounds)
  moreover have "\<forall>s \<in> set (Levels t). \<forall>j. levelIndex (trim_space s) = Some j \<longrightarrow> closer pos i j"
    using best by (auto simp: candidates_def)
  ultimately show ?thesis using candidate_supported [OF mem] by (auto simp: closer_def)
qed

theorem clampLevel_nearest_witness:
  "\<exists>i < 6. clampLevel ''max'' (Some \<lparr>miID = ''m'', miType = ''kimi'',
       miThinking = Some \<lparr>Min = 0, Max = 0, ZeroAllowed = False, DynamicAllowed = False,
         Levels = [''low'', ''high'']\<rparr>, miUserDefined = False\<rparr>) = standardLevelOrder ! i"
proof -
  let ?t = "\<lparr>Min = 0, Max = 0, ZeroAllowed = False, DynamicAllowed = False,
         Levels = [''low'', ''high'']\<rparr>"
  let ?mi = "\<lparr>miID = ''m'', miType = ''kimi'', miThinking = Some ?t, miUserDefined = False\<rparr>"
  have a: "miThinking ?mi = Some ?t" by simp
  have b: "\<not> isLevelSupported ''max'' (Levels ?t)" by code_simp
  have c: "levelIndex ''max'' = Some 5" by code_simp
  have d: "\<exists>s \<in> set (Levels ?t). levelIndex (trim_space s) \<noteq> None" by code_simp
  show ?thesis using clampLevel_nearest [OF a b c d] by blast
qed

text \<open>
  No unsupported level reaches a provider. A validated configuration in level mode names
  a level the model lists, whatever the source and target formats, for every model that allows
  dynamic thinking or lists at least one standard level.
\<close>

theorem ValidateConfig_level_supported:
  assumes "ValidateConfig c (Some mi) fromFormat toFormat fromSuffix = Inr c'"
    and "miThinking mi = Some t" and "Mode c' = ModeLevel" and "Levels t \<noteq> []"
    and "DynamicAllowed t \<or> (\<exists>s \<in> set (Levels t). levelIndex (trim_space s) \<noteq> None)"
  shows "isLevelSupported (Level c') (Levels t)"
proof -
  obtain c1 d c2 ac where
    lev: "checkLevel ac t (Some mi) (normalizeSpecial c1) = Inr c2" and
    fin: "c' = finishConfig (to_lower (trim_space toFormat)) t (Some mi) (resolveAuto t (Some mi) c2)"
    using assms(1,2) by (rule ValidateConfig_stages)
  from assms(5) have dyn: "DynamicAllowed t \<or> candidates (Levels t) \<noteq> {}"
    by (auto simp: candidates_def)
  have mode: "Mode (resolveAuto t (Some mi) c2) = ModeLevel" using fin assms(3) by simp
  have "isLevelSupported (Level (resolveAuto t (Some mi) c2)) (Levels t)"
    using resolveAuto_supported [OF assms(2) dyn assms(4) _ mode] checkLevel_supported [OF lev _ assms(4)]
    by blast
  with fin mode show ?thesis by (simp add: finishConfig_Level)
qed

definition kimi_model :: ModelInfo where
  "kimi_model = \<lparr>miID = ''kimi-k2'', miType = ''kimi'',
     miThinking = Some \<lparr>Min = 0, Max = 0, ZeroAllowed = True, DynamicAllowed = False,
       Levels = [''low'', ''high'']\<rparr>, miUserDefined = False\<rparr>"

theorem ValidateConfig_level_supported_witness:
  "isLevelSupported ''high'' [''low'', ''high'']"
proof -
  let ?t = "\<lparr>Min = 0, Max = 0, ZeroAllowed = True, DynamicAllowed = False, Levels = [''low'', ''high'']\<rparr>"
  let ?c = "\<lparr>Mode = ModeLevel, Budget = 0, Level = ''max''\<rparr>"
  let ?r = "\<lparr>Mode = ModeLevel, Budget = 0, Level = ''high''\<rparr>"
  have v: "ValidateConfig ?c (Some kimi_model) ''claude'' ''claude'' False = Inr ?r" by code_simp
  have m: "miThinking kimi_model = Some ?t" by (simp add: kimi_model_def)
  have s: "DynamicAllowed ?t \<or> (\<exists>s \<in> set (Levels ?t). levelIndex (trim_space s) \<noteq> None)"
    by code_simp
  show ?thesis using ValidateConfig_level_supported [OF v m _ _ s] by simp
qed

text \<open>
  C40 (budgets stay in range). A validated configuration in budget mode has a budget within the
  model's range, or zero where the model allows zero; the only other value is -1, which passes
  through only when the caller asked for it, as the budget -1 or as the level \<open>auto\<close> in some
  letter case.
\<close>

theorem ValidateConfig_budget_range:
  assumes "ValidateConfig c (Some mi) fromFormat toFormat fromSuffix = Inr c'"
    and "miThinking mi = Some t" and "Mode c' = ModeBudget"
    and "Min t \<le> Max t" and "Min t \<noteq> 0 \<or> Max t \<noteq> 0"
  shows "(Min t \<le> Budget c' \<and> Budget c' \<le> Max t) \<or> (Budget c' = 0 \<and> ZeroAllowed t) \<or>
         (Budget c' = -1 \<and> ((Mode c = ModeBudget \<and> Budget c = -1) \<or>
                            (Mode c = ModeLevel \<and> to_lower (Level c) = LevelAuto)))"
proof -
  obtain c1 d c2 ac where
    conv: "convertByCapability c (Some mi) = Inr (c1, d)" and
    lev: "checkLevel ac t (Some mi) (normalizeSpecial c1) = Inr c2" and
    fin: "c' = finishConfig (to_lower (trim_space toFormat)) t (Some mi) (resolveAuto t (Some mi) c2)"
    using assms(1,2) by (rule ValidateConfig_stages)
  let ?r = "resolveAuto t (Some mi) c2"
  have mode: "Mode ?r = ModeBudget" using fin assms(3) by simp
  have b: "clampBudget (Budget ?r) (Some mi) = Budget c'"
    using fin finishConfig_Budget [OF mode] by simp
  show ?thesis
  proof (cases "Budget ?r = -1")
    case False
    then show ?thesis using clampBudget_range [OF assms(2,4,5) b] by blast
  next
    case True
    then have c': "Budget c' = -1" using b assms(2) by (simp add: clampBudget_def)
    from resolveAuto_Budget [OF mode] True consider
      "Mode c2 = ModeBudget" "?r = c2" | "Min t = -1" by auto
    then show ?thesis
    proof cases
      case 1
      then have "Mode (normalizeSpecial c1) = ModeBudget" "Budget (normalizeSpecial c1) = -1"
        using checkLevel_frame [OF lev] True by auto
      then have "Mode c1 = ModeBudget" "Budget c1 = -1"
        using normalizeSpecial_Budget [of c1] by auto
      then show ?thesis using convertByCapability_Budget [OF conv] levelToBudget_auto c' by auto
    next
      case 2
      then show ?thesis using c' assms(4) by simp
    qed
  qed
qed

definition claude_model :: ModelInfo where
  "claude_model = \<lparr>miID = ''claude-sonnet-4-5'', miType = ''claude'',
     miThinking = Some \<lparr>Min = 1024, Max = 128000, ZeroAllowed = True, DynamicAllowed = False,
       Levels = []\<rparr>, miUserDefined = False\<rparr>"

theorem ValidateConfig_budget_range_witness:
  "ValidateConfig \<lparr>Mode = ModeBudget, Budget = 500, Level = ''''\<rparr> (Some claude_model)
     ''openai'' ''claude'' False = Inr \<lparr>Mode = ModeBudget, Budget = 1024, Level = ''''\<rparr>"
proof -
  let ?t = "\<lparr>Min = 1024, Max = 128000, ZeroAllowed = True, DynamicAllowed = False, Levels = []\<rparr>"
  let ?r = "\<lparr>Mode = ModeBudget, Budget = 1024, Level = ''''\<rparr>"
  have v: "ValidateConfig \<lparr>Mode = ModeBudget, Budget = 500, Level = ''''\<rparr> (Some claude_model)
     ''openai'' ''claude'' False = Inr ?r" by code_simp
  have m: "miThinking claude_model = Some ?t" by (simp add: claude_model_def)
  have "(Min ?t \<le> Budget ?r \<and> Budget ?r \<le> Max ?t) \<or> (Budget ?r = 0 \<and> ZeroAllowed ?t) \<or>
     Budget ?r = -1"
    using ValidateConfig_budget_range [OF v m] by auto
  with v show ?thesis by simp
qed

end
