(* ===== verification/AuthModel.thy ===== *)
theory AuthModel
  imports GoTime CredentialWeight Thinking
begin

text \<open>
  The credential record of \<open>sdk/cliproxy/auth/types.go\<close> and the readings the scheduling code
  takes from it: dynamically typed metadata (\<open>parseIntAny\<close>, \<open>parseBoolAny\<close>,
  \<open>parseTimeValue\<close>), the expiration time, the priority, weight and websocket attributes, the
  model key, the lifecycle state of \<open>initialization.go\<close>, the account groups, the weight
  metadata of \<open>weight.go\<close> and the recent-request ring.

  A map that is nil and one that is empty read the same, so both are the empty list. The
  \<open>Runtime\<close> value of a credential is opaque; the only thing the scheduling code asks it is
  \<open>RuntimeSelectionAvailable\<close>, which is the field \<open>runtimeAvailable\<close> (\<open>None\<close> when the value
  does not implement that interface). The runtime limits a credential points to are a state of
  their own, in \<open>RuntimeLimits\<close>.
\<close>

section \<open>Types\<close>

datatype Status = StatusUnknown | StatusActive | StatusPending | StatusRefreshing
  | StatusInitializing | StatusRefreshingToken | StatusRefreshingQuota
  | StatusInitializationFailed | StatusRecoveringToken | StatusRecoveringQuota
  | StatusProbingUsage | StatusRecoveryFailed | StatusError | StatusDisabled
  | StatusOther string

record QuotaState =
  Exceeded :: bool
  quotaReason :: string
  NextRecoverAt :: gotime
  BackoffLevel :: int

text \<open>The error value of \<open>errors.go\<close> that a credential or a model state remembers.\<close>

record ResultError =
  errCode :: string
  errMessage :: string
  errRetryable :: bool
  HTTPStatus :: int

record ModelState =
  msStatus :: Status
  msStatusMessage :: string
  msUnavailable :: bool
  msNextRetryAfter :: gotime
  msLastError :: "ResultError option"
  msQuota :: QuotaState
  msUpdatedAt :: gotime

record recentRequestBucket =
  bucketID :: int
  bucketSuccess :: int
  bucketFailed :: int

record Auth =
  ID :: string
  Provider :: string
  Label :: string
  FileName :: string
  authStatus :: Status
  StatusMessage :: string
  Disabled :: bool
  Unavailable :: bool
  Attributes :: "(string, string) gomap"
  Metadata :: "(string, gov) gomap"
  Quota :: QuotaState
  LastError :: "ResultError option"
  UpdatedAt :: gotime
  NextRefreshAfter :: gotime
  NextRetryAfter :: gotime
  ModelStates :: "(string, ModelState option) gomap"
  successCount :: int
  failedCount :: int
  runtimeAvailable :: "bool option"
  groupIDs :: "int list"
  quotaPreemptFallback :: bool
  tailBurstMaxConcurrency :: int
  tailBurstFallbackMaxConcurrency :: int
  tailBurstNormalConcurrencyAffinityBypass :: bool
  recentRequests :: "recentRequestBucket list"

section \<open>Dynamically typed values\<close>

definition parseBoolAny :: "gov \<Rightarrow> bool option" where
  "parseBoolAny val =
     (case val of
        GBool b \<Rightarrow> Some b
      | GStr s \<Rightarrow> (let trimmed = trim_space s in if trimmed = '''' then None else parse_bool trimmed)
      | GFloat64 f \<Rightarrow> Some (f \<noteq> Fin 0)
      | GNumber s \<Rightarrow> map_option (\<lambda>n. n \<noteq> 0) (parse_int64 s)
      | _ \<Rightarrow> None)"

definition parseIntAny :: "gov \<Rightarrow> int option" where
  "parseIntAny val =
     (case val of
        GInt KInt n \<Rightarrow> Some n
      | GInt KInt32 n \<Rightarrow> Some n
      | GInt KInt64 n \<Rightarrow> Some n
      | GFloat64 f \<Rightarrow> Some (flt_to_int64 f)
      | GNumber s \<Rightarrow> parse_int64 s
      | GStr s \<Rightarrow> (let trimmed = trim_space s in if trimmed = '''' then None else parse_int64 trimmed)
      | _ \<Rightarrow> None)"

definition normaliseUnix :: "int \<Rightarrow> gotime" where
  "normaliseUnix raw =
     (if raw \<le> 0 then zeroTime
      else if raw > 1000000000000 then time_unix_milli raw
      else time_unix raw)"

text \<open>
  The layouts are tried in the source's order; \<open>RFC3339Nano\<close> and the last layout accept
  the same texts as \<open>RFC3339\<close>.
\<close>

definition firstLayout :: "string \<Rightarrow> gotime option" where
  "firstLayout s =
     (case time_parse RFC3339 s of
        Some t \<Rightarrow> Some t
      | None \<Rightarrow>
          (case time_parse DateTimeSeconds s of
             Some t \<Rightarrow> Some t
           | None \<Rightarrow> time_parse DateTimeMinutes s))"

text \<open>
  \<open>Number.Float64\<close> on the text of a JSON number: sign, digits, fraction and exponent. The value
  is the decimal one, before rounding to the nearest \<open>float64\<close>; a text whose value is out of
  range is an error.
\<close>

definition parse_exponent :: "string \<Rightarrow> int option" where
  "parse_exponent s =
     (if s = '''' then Some 0
      else let ds = (if tl s \<noteq> '''' \<and> (hd (tl s) = CHR ''+'' \<or> hd (tl s) = CHR ''-'') then tl (tl s) else tl s)
           in if ds = '''' then None
              else map_option (\<lambda>n. if hd (tl s) = CHR ''-'' then - n else n) (parse_digits 0 ds))"

definition number_float :: "string \<Rightarrow> rat option" where
  "number_float s =
     (let neg = (s \<noteq> '''' \<and> hd s = CHR ''-'');
          body = (if neg then tl s else s);
          mantissa = takeWhile (\<lambda>c. c \<noteq> CHR ''e'' \<and> c \<noteq> CHR ''E'') body;
          whole = takeWhile (\<lambda>c. c \<noteq> CHR ''.'') mantissa;
          frac = drop (length whole + 1) mantissa
      in if whole = '''' then None
         else case (parse_digits 0 (whole @ frac), parse_exponent (drop (length mantissa) body)) of
                (Some n, Some ex) \<Rightarrow>
                  (let sh = ex - int (length frac);
                       v = (if 0 \<le> sh then of_int n * 10 ^ nat sh else of_int n / 10 ^ nat (- sh)) :: rat
                   in if v < 2 ^ 1024 then Some (if neg then - v else v) else None)
              | _ \<Rightarrow> None)"

definition parseTimeValue :: "gov \<Rightarrow> gotime option" where
  "parseTimeValue v =
     (case v of
        GStr value \<Rightarrow>
          (let s = trim_space value
           in if s = '''' then None
              else case firstLayout s of
                     Some t \<Rightarrow> Some t
                   | None \<Rightarrow> map_option normaliseUnix (parse_int64 s))
      | GFloat64 f \<Rightarrow> Some (normaliseUnix (flt_to_int64 f))
      | GInt KInt64 n \<Rightarrow> Some (normaliseUnix n)
      | GNumber s \<Rightarrow>
          (case parse_int64 s of
             Some i \<Rightarrow> Some (normaliseUnix i)
           | None \<Rightarrow> map_option (\<lambda>f. normaliseUnix (flt_to_int64 (Fin f))) (number_float s))
      | _ \<Rightarrow> None)"

section \<open>Expiration\<close>

definition expireKeys :: "string list" where
  "expireKeys = [''expired'', ''expire'', ''expires_at'', ''expiresAt'', ''expiry'', ''expires'']"

text \<open>The first of the keys that is present and parses.\<close>

fun firstTime :: "(string, gov) gomap \<Rightarrow> string list \<Rightarrow> gotime option" where
  "firstTime meta [] = None"
| "firstTime meta (key # keys) =
     (case glookup meta key of
        None \<Rightarrow> firstTime meta keys
      | Some v \<Rightarrow> (case parseTimeValue v of Some t \<Rightarrow> Some t | None \<Rightarrow> firstTime meta keys))"

text \<open>
  The nested \<open>token\<close> objects may hold further ones. The depth of a decoded JSON value bounds
  the recursion; \<open>gov_depth\<close> is that depth. A \<open>map[string]string\<close> has only strings, so its
  own keys are all there is to try.
\<close>

fun gov_depth :: "gov \<Rightarrow> nat" and fields_depth :: "(string \<times> gov) list \<Rightarrow> nat" where
  "gov_depth (GMap fs) = Suc (fields_depth fs)"
| "gov_depth _ = 0"
| "fields_depth [] = 0"
| "fields_depth ((_, v) # fs) = max (gov_depth v) (fields_depth fs)"

lemma fields_depth_lookup: "glookup m k = Some v \<Longrightarrow> gov_depth v \<le> fields_depth m"
  by (induction m) (auto split: if_splits)

function expirationFromMap :: "(string, gov) gomap \<Rightarrow> gotime option" where
  "expirationFromMap meta =
     (let nested = (\<lambda>nestedKey.
            case glookup meta nestedKey of
              Some (GMap val) \<Rightarrow> expirationFromMap val
            | Some (GMapStr val) \<Rightarrow> firstTime (map (\<lambda>(k, s). (k, GStr s)) val) expireKeys
            | _ \<Rightarrow> None)
      in case firstTime meta expireKeys of
           Some t \<Rightarrow> Some t
         | None \<Rightarrow>
             (case nested ''token'' of Some t \<Rightarrow> Some t | None \<Rightarrow> nested ''Token''))"
  by pat_completeness auto
termination
  by (relation "measure fields_depth") (auto dest: fields_depth_lookup)

declare expirationFromMap.simps [simp del]

definition ExpirationTime :: "Auth \<Rightarrow> gotime option" where
  "ExpirationTime a = expirationFromMap (Metadata a)"

definition authSupplyLeaseExpiryKeys :: "string list" where
  "authSupplyLeaseExpiryKeys =
     [''supply_lease_expires_at_ms'', ''supplyLeaseExpiresAtMs'',
      ''supply_lease_expires_at'', ''supplyLeaseExpiresAt'']"

section \<open>Routing attributes\<close>

definition canonicalModelKey :: "string \<Rightarrow> string" where
  "canonicalModelKey model0 =
     (let model = trim_space model0
      in if model = '''' then ''''
         else let modelName = trim_space (ModelName (ParseSuffix model))
              in if modelName = '''' then model else modelName)"

definition authPriority :: "Auth option \<Rightarrow> int" where
  "authPriority auth =
     (case auth of
        None \<Rightarrow> 0
      | Some a \<Rightarrow>
          let raw = trim_space (case glookup (Attributes a) ''priority'' of None \<Rightarrow> '''' | Some s \<Rightarrow> s)
          in if raw = '''' then 0
             else case parse_int64 raw of None \<Rightarrow> 0 | Some parsed \<Rightarrow> parsed)"

abbreviation AttributeWeight :: string where "AttributeWeight \<equiv> ''weight''"

definition authWeight :: "Auth option \<Rightarrow> int" where
  "authWeight auth =
     (case auth of
        None \<Rightarrow> Default
      | Some a \<Rightarrow>
          (case glookup (Attributes a) AttributeWeight of
             Some rawWeight \<Rightarrow>
               if trim_space rawWeight \<noteq> ''''
               then (case ParseString rawWeight of Inl _ \<Rightarrow> 0 | Inr weight \<Rightarrow> weight)
               else (case glookup (Metadata a) AttributeWeight of
                       Some v \<Rightarrow> (case ParseValue v of Inl _ \<Rightarrow> 0 | Inr weight \<Rightarrow> weight)
                     | None \<Rightarrow> Default)
           | None \<Rightarrow>
               (case glookup (Metadata a) AttributeWeight of
                  Some v \<Rightarrow> (case ParseValue v of Inl _ \<Rightarrow> 0 | Inr weight \<Rightarrow> weight)
                | None \<Rightarrow> Default)))"

definition authWebsocketsEnabled :: "Auth option \<Rightarrow> bool" where
  "authWebsocketsEnabled auth =
     (case auth of
        None \<Rightarrow> False
      | Some a \<Rightarrow>
          let raw = trim_space (case glookup (Attributes a) ''websockets'' of None \<Rightarrow> '''' | Some s \<Rightarrow> s);
              fromMetadata =
                (case glookup (Metadata a) ''websockets'' of
                   Some (GBool b) \<Rightarrow> b
                 | Some (GStr s) \<Rightarrow> (case parse_bool (trim_space s) of Some b \<Rightarrow> b | None \<Rightarrow> False)
                 | _ \<Rightarrow> False)
          in if raw \<noteq> '''' then (case parse_bool raw of Some b \<Rightarrow> b | None \<Rightarrow> fromMetadata)
             else fromMetadata)"

text \<open>Both id lists are sorted; the loop advances the one with the smaller head.\<close>

fun matchSorted :: "int list \<Rightarrow> int list \<Rightarrow> bool" where
  "matchSorted (g # gs) (x # xs) =
     (if g = x then True
      else if g < x then matchSorted gs (x # xs)
      else matchSorted (g # gs) xs)"
| "matchSorted _ _ = False"

definition matchesAnyGroup :: "Auth option \<Rightarrow> int list \<Rightarrow> bool" where
  "matchesAnyGroup auth allowed =
     (case auth of
        None \<Rightarrow> False
      | Some a \<Rightarrow> if groupIDs a = [] \<or> allowed = [] then False else matchSorted (groupIDs a) allowed)"

section \<open>Credential weights of an auth\<close>

datatype auth_weight_error = InvalidAttributesWeight weight_error | InvalidMetadataWeight weight_error

definition ValidateAuthWeight :: "Auth option \<Rightarrow> auth_weight_error option" where
  "ValidateAuthWeight auth =
     (case auth of
        None \<Rightarrow> None
      | Some a \<Rightarrow>
          let metadataCheck =
                (case glookup (Metadata a) AttributeWeight of
                   Some rawWeight \<Rightarrow>
                     (case ParseValue rawWeight of Inl e \<Rightarrow> Some (InvalidMetadataWeight e) | Inr _ \<Rightarrow> None)
                 | None \<Rightarrow> None)
          in case glookup (Attributes a) AttributeWeight of
               Some rawWeight \<Rightarrow>
                 (case ParseString rawWeight of
                    Inl e \<Rightarrow> Some (InvalidAttributesWeight e)
                  | Inr _ \<Rightarrow> metadataCheck)
             | None \<Rightarrow> metadataCheck)"

text \<open>
  The update writes the caller's auth in place; the model returns it. A nil \<open>metadata\<close> is
  \<open>None\<close>.
\<close>

definition ApplyAuthWeightMetadata ::
  "Auth option \<Rightarrow> (string, gov) gomap option \<Rightarrow> auth_weight_error + Auth option" where
  "ApplyAuthWeightMetadata auth metadata =
     (case ValidateAuthWeight auth of
        Some e \<Rightarrow> Inl e
      | None \<Rightarrow>
          (case (auth, metadata) of
             (Some a, Some md) \<Rightarrow>
               (case glookup md AttributeWeight of
                  None \<Rightarrow> Inr auth
                | Some rawWeight \<Rightarrow>
                    (case ParseValue rawWeight of
                       Inl e \<Rightarrow> Inl (InvalidMetadataWeight e)
                     | Inr weight \<Rightarrow>
                         Inr (Some (a\<lparr>Attributes :=
                           gput AttributeWeight (format_int weight) (Attributes a)\<rparr>))))
           | _ \<Rightarrow> Inr auth))"

section \<open>Lifecycle states\<close>

datatype InitializationState = InitializationStateInitializing | InitializationStateRefreshingToken
  | InitializationStateRefreshingQuota | InitializationStateReady | InitializationStateFailed

datatype RecoveryState = RecoveryStateRefreshingToken | RecoveryStateRefreshingQuota
  | RecoveryStateProbingUsage | RecoveryStateReady | RecoveryStateFailed

abbreviation metadataString :: "(string, gov) gomap \<Rightarrow> string \<Rightarrow> string" where
  "metadataString m k \<equiv> (case glookup m k of Some (GStr s) \<Rightarrow> s | _ \<Rightarrow> '''')"

definition InitializationStateFromMetadata :: "(string, gov) gomap \<Rightarrow> InitializationState option" where
  "InitializationStateFromMetadata metadata =
     (let value = to_lower (trim_space (metadataString metadata ''initialization_state''))
      in if value = ''initializing'' then Some InitializationStateInitializing
         else if value = ''refreshing_token'' then Some InitializationStateRefreshingToken
         else if value = ''refreshing_quota'' then Some InitializationStateRefreshingQuota
         else if value = ''ready'' then Some InitializationStateReady
         else if value = ''initialization_failed'' then Some InitializationStateFailed
         else None)"

definition AuthRecoveryState :: "Auth option \<Rightarrow> RecoveryState option" where
  "AuthRecoveryState auth =
     (case auth of
        None \<Rightarrow> None
      | Some a \<Rightarrow>
          let value = to_lower (trim_space (metadataString (Metadata a) ''recovery_state''))
          in if value = ''recovering_token'' then Some RecoveryStateRefreshingToken
             else if value = ''recovering_quota'' then Some RecoveryStateRefreshingQuota
             else if value = ''probing_usage'' then Some RecoveryStateProbingUsage
             else if value = ''ready'' then Some RecoveryStateReady
             else if value = ''recovery_failed'' then Some RecoveryStateFailed
             else None)"

definition IsAuthInitializationBlocking :: "Auth option \<Rightarrow> bool" where
  "IsAuthInitializationBlocking auth =
     (case auth of
        None \<Rightarrow> False
      | Some a \<Rightarrow>
          authStatus a \<in> {StatusInitializing, StatusRefreshingToken, StatusRefreshingQuota,
                          StatusInitializationFailed} \<or>
          InitializationStateFromMetadata (Metadata a) \<in>
            {Some InitializationStateInitializing, Some InitializationStateRefreshingToken,
             Some InitializationStateRefreshingQuota, Some InitializationStateFailed})"

definition IsAuthRecoveryBlocking :: "Auth option \<Rightarrow> bool" where
  "IsAuthRecoveryBlocking auth =
     (case auth of
        None \<Rightarrow> False
      | Some a \<Rightarrow>
          authStatus a \<in> {StatusRecoveringToken, StatusRecoveringQuota, StatusProbingUsage,
                          StatusRecoveryFailed} \<or>
          AuthRecoveryState auth \<in>
            {Some RecoveryStateRefreshingToken, Some RecoveryStateRefreshingQuota,
             Some RecoveryStateProbingUsage, Some RecoveryStateFailed})"

definition IsAuthLifecycleBlocking :: "Auth option \<Rightarrow> bool" where
  "IsAuthLifecycleBlocking auth \<longleftrightarrow> IsAuthInitializationBlocking auth \<or> IsAuthRecoveryBlocking auth"

section \<open>Recent requests\<close>

definition recentRequestBucketSeconds :: int where "recentRequestBucketSeconds = 600"
definition recentRequestBucketCount :: nat where "recentRequestBucketCount = 20"

definition recentRequestBucketID :: "gotime \<Rightarrow> int" where
  "recentRequestBucketID now =
     (if now = zeroTime then 0 else go_div (unix_of now) recentRequestBucketSeconds)"

definition recentRequestBucketIndex :: "int \<Rightarrow> nat" where
  "recentRequestBucketIndex bid =
     (let m = go_mod bid (int recentRequestBucketCount)
      in nat (if m < 0 then m + int recentRequestBucketCount else m))"

definition emptyBucket :: recentRequestBucket where
  "emptyBucket = \<lparr>bucketID = 0, bucketSuccess = 0, bucketFailed = 0\<rparr>"

definition recordRecentRequest :: "gotime \<Rightarrow> bool \<Rightarrow> Auth \<Rightarrow> Auth" where
  "recordRecentRequest now success a =
     (let bid = recentRequestBucketID now;
          idx = recentRequestBucketIndex bid;
          b0 = recentRequests a ! idx;
          b1 = (if bucketID b0 \<noteq> bid
                then b0\<lparr>bucketID := bid, bucketSuccess := 0, bucketFailed := 0\<rparr> else b0);
          b2 = (if success then b1\<lparr>bucketSuccess := wrap64 (bucketSuccess b1 + 1)\<rparr>
                else b1\<lparr>bucketFailed := wrap64 (bucketFailed b1 + 1)\<rparr>)
      in a\<lparr>recentRequests := (recentRequests a)[idx := b2]\<rparr>)"

text \<open>
  The counts of the snapshot, oldest first; the label of a bucket is its start and end
  formatted as clock times and is left out.
\<close>

definition RecentRequestsSnapshot :: "gotime \<Rightarrow> Auth \<Rightarrow> (int \<times> int) list" where
  "RecentRequestsSnapshot now a =
     map (\<lambda>i. let bid = recentRequestBucketID now - int i;
                  b = recentRequests a ! recentRequestBucketIndex bid
              in if bucketID b = bid then (bucketSuccess b, bucketFailed b) else (0, 0))
       (rev [0..<recentRequestBucketCount])"

section \<open>A concrete credential\<close>

definition exampleAuth :: "string \<Rightarrow> (string, gov) gomap \<Rightarrow> Auth" where
  "exampleAuth aid md =
     \<lparr>ID = aid, Provider = ''codex'', Label = '''', FileName = '''',
      authStatus = StatusActive, StatusMessage = '''', Disabled = False,
      Unavailable = False, Attributes = [], Metadata = md,
      Quota = \<lparr>Exceeded = False, quotaReason = '''', NextRecoverAt = zeroTime, BackoffLevel = 0\<rparr>,
      LastError = None, UpdatedAt = zeroTime, NextRefreshAfter = zeroTime,
      NextRetryAfter = zeroTime, ModelStates = [], successCount = 0, failedCount = 0,
      runtimeAvailable = None, groupIDs = [],
      quotaPreemptFallback = False, tailBurstMaxConcurrency = 0,
      tailBurstFallbackMaxConcurrency = 0, tailBurstNormalConcurrencyAffinityBypass = False,
      recentRequests = replicate recentRequestBucketCount emptyBucket\<rparr>"

end
