(* ===== verification/QuotaSnapshots.thy ===== *)
theory QuotaSnapshots
  imports AuthModel
begin

text \<open>
  The request-time state of one credential (\<open>authRuntimeLimits\<close> of
  \<open>sdk/cliproxy/auth/runtime_limits.go\<close>) and the quota snapshots it holds
  (\<open>codex_tail_burst.go\<close>).

  A credential points to its state and every clone of the credential shares that pointer, so
  the model keeps the state apart from the \<open>Auth\<close> record and passes it to the operations
  that lock it. The state is created on first use, so it is always there. One call of an
  operation is one critical section of the state's mutex; an interleaving of requests is a
  sequence of operations. The counters of requests in flight and of requests in a window are
  unbounded integers: overflowing them takes $2^{63}$ requests.

  \<open>atomic.Value\<close> distinguishes \<open>never stored\<close> from an empty store: the snapshots are an option
  of a map. Fields of a snapshot that are only reported (the window's name, the token hash) are
  kept where they can differ between two samples and left out otherwise.
\<close>

record CodexQuotaSnapshot =
  UsedRatio :: gofloat
  SampledAt :: gotime
  ExpiresAt :: gotime
  ResetAt :: gotime
  Generation :: int

type_synonym codexQuotaSnapshotStore = "(string, CodexQuotaSnapshot) gomap"

record authRuntimeLimits =
  currentConcurrency :: int
  rateWindowStart :: gotime
  rateWindowCount :: int
  frozenUntil :: gotime
  usageLimitFreezeUntil :: gotime
  quotaPreemptFreezeUntil :: gotime
  rateLimitedUntil :: gotime
  upstreamRateLimitedUntil :: gotime
  upstreamRateLimitBackoff :: int
  upstreamRateLimitLastSeen :: gotime
  stickyBypassNext :: bool
  stickyBypassSessions :: "(string, gotime) gomap"
  lastSkipReason :: string
  lastSkipRecordedAt :: gotime
  lastSkipRecoveryTarget :: gotime
  quotaPreemptFallbackInFlight :: int
  codexQuotaSnapshots :: "codexQuotaSnapshotStore option"
  codexCacheAffinityMaxConcurrency :: int

definition newRuntimeLimits :: authRuntimeLimits where
  "newRuntimeLimits =
     \<lparr>currentConcurrency = 0, rateWindowStart = zeroTime, rateWindowCount = 0,
      frozenUntil = zeroTime, usageLimitFreezeUntil = zeroTime, quotaPreemptFreezeUntil = zeroTime,
      rateLimitedUntil = zeroTime, upstreamRateLimitedUntil = zeroTime,
      upstreamRateLimitBackoff = 0, upstreamRateLimitLastSeen = zeroTime,
      stickyBypassNext = False, stickyBypassSessions = [], lastSkipReason = '''',
      lastSkipRecordedAt = zeroTime, lastSkipRecoveryTarget = zeroTime,
      quotaPreemptFallbackInFlight = 0, codexQuotaSnapshots = None,
      codexCacheAffinityMaxConcurrency = 0\<rparr>"

section \<open>Operations\<close>

definition normalizeCodexTailBurstModel :: "string \<Rightarrow> string" where
  "normalizeCodexTailBurstModel model =
     (let model' = canonicalModelKey model in if model' = '''' then ''*'' else model')"

definition codexQuotaSnapshotNewer :: "CodexQuotaSnapshot \<Rightarrow> CodexQuotaSnapshot \<Rightarrow> bool" where
  "codexQuotaSnapshotNewer n previous =
     (if Generation n > 0 \<and> Generation previous > 0 \<and> Generation n \<noteq> Generation previous
      then Generation n > Generation previous
      else if SampledAt n \<noteq> SampledAt previous then SampledAt n > SampledAt previous
      else ExpiresAt n > ExpiresAt previous)"

definition snapshotStore :: "authRuntimeLimits \<Rightarrow> codexQuotaSnapshotStore" where
  "snapshotStore st = (case codexQuotaSnapshots st of None \<Rightarrow> [] | Some store \<Rightarrow> store)"

definition setCodexQuotaSnapshot ::
  "string \<Rightarrow> CodexQuotaSnapshot \<Rightarrow> authRuntimeLimits \<Rightarrow>
     (CodexQuotaSnapshot \<times> bool) \<times> authRuntimeLimits" where
  "setCodexQuotaSnapshot model0 snapshot st =
     (let model = normalizeCodexTailBurstModel model0;
          current = snapshotStore st;
          accept = ((snapshot, True), st\<lparr>codexQuotaSnapshots := Some (gput model snapshot current)\<rparr>)
      in case glookup current model of
           None \<Rightarrow> accept
         | Some previous \<Rightarrow>
             if \<not> codexQuotaSnapshotNewer snapshot previous then ((previous, False), st) else accept)"

definition codexQuotaSnapshot ::
  "string \<Rightarrow> gotime \<Rightarrow> authRuntimeLimits \<Rightarrow> CodexQuotaSnapshot option" where
  "codexQuotaSnapshot model0 now st =
     (let store = snapshotStore st;
          model = normalizeCodexTailBurstModel model0;
          found = (case glookup store model of
                     Some snapshot \<Rightarrow> Some snapshot
                   | None \<Rightarrow> if model \<noteq> ''*'' then glookup store ''*'' else None)
      in if store = [] then None
         else case found of
                None \<Rightarrow> None
              | Some snapshot \<Rightarrow>
                  if ExpiresAt snapshot = zeroTime \<or> \<not> ExpiresAt snapshot > now then None
                  else Some snapshot)"

definition activeSnapshots :: "gotime \<Rightarrow> authRuntimeLimits \<Rightarrow> codexQuotaSnapshotStore" where
  "activeSnapshots now st =
     filter (\<lambda>(model, snapshot). ExpiresAt snapshot \<noteq> zeroTime \<and> ExpiresAt snapshot > now)
       (snapshotStore st)"

section \<open>Which sample is kept\<close>

text \<open>
  Between two samples that both carry a generation the order is lexicographic in generation,
  sampling time and expiry.
\<close>

definition snapshotKey :: "CodexQuotaSnapshot \<Rightarrow> int \<times> gotime \<times> gotime" where
  "snapshotKey s = (Generation s, SampledAt s, ExpiresAt s)"

definition key_less :: "int \<times> int \<times> int \<Rightarrow> int \<times> int \<times> int \<Rightarrow> bool" where
  "key_less x y =
     (case x of (a, b, c) \<Rightarrow> case y of (a', b', c') \<Rightarrow>
        a < a' \<or> a = a' \<and> (b < b' \<or> b = b' \<and> c < c'))"

lemma newer_iff_key:
  "0 < Generation n \<Longrightarrow> 0 < Generation p \<Longrightarrow>
   codexQuotaSnapshotNewer n p \<longleftrightarrow> key_less (snapshotKey p) (snapshotKey n)"
  by (auto simp: codexQuotaSnapshotNewer_def key_less_def snapshotKey_def)

lemma key_less_trans: "key_less x y \<Longrightarrow> key_less y z \<Longrightarrow> key_less x z"
  by (auto simp: key_less_def split: prod.splits)

lemma key_less_irrefl: "\<not> key_less x x"
  by (auto simp: key_less_def split: prod.splits)

lemma key_less_asym: "key_less x y \<Longrightarrow> \<not> key_less y x"
  by (auto simp: key_less_def split: prod.splits)

lemma key_less_total: "key_less x y \<or> x = y \<or> key_less y x"
  by (auto simp: key_less_def split: prod.splits)

text \<open>Deliver a sequence of samples for one model.\<close>

fun deliverSnapshots :: "string \<Rightarrow> CodexQuotaSnapshot list \<Rightarrow> authRuntimeLimits \<Rightarrow> authRuntimeLimits" where
  "deliverSnapshots model [] st = st"
| "deliverSnapshots model (s # ss) st =
     deliverSnapshots model ss (snd (setCodexQuotaSnapshot model s st))"

definition storedSnapshot :: "string \<Rightarrow> authRuntimeLimits \<Rightarrow> CodexQuotaSnapshot option" where
  "storedSnapshot model st = glookup (snapshotStore st) (normalizeCodexTailBurstModel model)"

lemma storedSnapshot_set:
  "storedSnapshot model (snd (setCodexQuotaSnapshot model s st)) =
     (case storedSnapshot model st of
        None \<Rightarrow> Some s
      | Some p \<Rightarrow> Some (if codexQuotaSnapshotNewer s p then s else p))"
  by (auto simp: storedSnapshot_def setCodexQuotaSnapshot_def Let_def snapshotStore_def
      glookup_put split: option.splits)

lemma storedSnapshot_deliver:
  assumes "storedSnapshot model st = Some p" and "0 < Generation p"
    and "\<forall>s \<in> set ss. 0 < Generation s"
  shows "\<exists>q. storedSnapshot model (deliverSnapshots model ss st) = Some q \<and>
      q \<in> insert p (set ss) \<and> (\<forall>s \<in> insert p (set ss). \<not> key_less (snapshotKey q) (snapshotKey s))"
  using assms
proof (induction ss arbitrary: st p)
  case Nil
  then show ?case by (simp add: key_less_irrefl)
next
  case (Cons s ss)
  define p' where "p' = (if codexQuotaSnapshotNewer s p then s else p)"
  have p': "0 < Generation p'" "p' \<in> {p, s}"
    using Cons.prems by (auto simp: p'_def)
  have "storedSnapshot model (snd (setCodexQuotaSnapshot model s st)) = Some p'"
    using Cons.prems by (simp add: storedSnapshot_set p'_def)
  from Cons.IH [OF this p'(1)] Cons.prems obtain q where
    q: "storedSnapshot model (deliverSnapshots model (s # ss) st) = Some q"
      "q \<in> insert p' (set ss)" "\<forall>t \<in> insert p' (set ss). \<not> key_less (snapshotKey q) (snapshotKey t)"
    by auto
  have "\<not> key_less (snapshotKey p') (snapshotKey t)" if "t \<in> {p, s}" for t
    using that Cons.prems newer_iff_key [of s p]
    by (auto simp: p'_def key_less_irrefl dest: key_less_asym split: if_splits)
  then have "\<not> key_less (snapshotKey q) (snapshotKey t)" if "t \<in> {p, s}" for t
    using that q(3) key_less_trans key_less_total by (metis insertCI)
  with q p' show ?case by auto
qed

text \<open>C38 (quota samples): overlapping polls may deliver samples of a model in any order and more
  than once; as long as every sample carries a generation, the one that stays is a newest one,
  and every order of delivery keeps the same generation, sampling time and expiry.\<close>

theorem deliverSnapshots_latest:
  assumes "snapshotStore st = []" and "ss \<noteq> []" and "\<forall>s \<in> set ss. 0 < Generation s"
    and "set ts = set ss"
  shows "\<exists>q. storedSnapshot model (deliverSnapshots model ss st) = Some q \<and> q \<in> set ss \<and>
      (\<forall>s \<in> set ss. s = q \<or> snapshotKey s = snapshotKey q \<or> codexQuotaSnapshotNewer q s) \<and>
      map_option snapshotKey (storedSnapshot model (deliverSnapshots model ts st)) = Some (snapshotKey q)"
proof -
  have one: "\<exists>q. storedSnapshot model (deliverSnapshots model us st) = Some q \<and> q \<in> set us \<and>
      (\<forall>s \<in> set us. \<not> key_less (snapshotKey q) (snapshotKey s))"
    if "us \<noteq> []" "\<forall>s \<in> set us. 0 < Generation s" for us
  proof (cases us)
    case Nil
    with that show ?thesis by simp
  next
    case (Cons u us')
    have "storedSnapshot model (snd (setCodexQuotaSnapshot model u st)) = Some u"
      using assms(1) by (simp add: storedSnapshot_set) (simp add: storedSnapshot_def)
    from storedSnapshot_deliver [OF this, of us'] that show ?thesis by (simp add: Cons)
  qed
  obtain q where q: "storedSnapshot model (deliverSnapshots model ss st) = Some q" "q \<in> set ss"
    "\<forall>s \<in> set ss. \<not> key_less (snapshotKey q) (snapshotKey s)"
    using one [of ss] assms by blast
  obtain r where r: "storedSnapshot model (deliverSnapshots model ts st) = Some r" "r \<in> set ss"
    "\<forall>s \<in> set ss. \<not> key_less (snapshotKey r) (snapshotKey s)"
    using one [of ts] assms by (metis set_empty)
  from q r have "snapshotKey r = snapshotKey q" using key_less_total by blast
  moreover have "\<forall>s \<in> set ss. snapshotKey s = snapshotKey q \<or> codexQuotaSnapshotNewer q s"
    using q assms(3) newer_iff_key key_less_total by metis
  ultimately show ?thesis using q r by auto
qed


definition exampleSnapshot :: "int \<Rightarrow> gotime \<Rightarrow> CodexQuotaSnapshot" where
  "exampleSnapshot g t =
     \<lparr>UsedRatio = Fin (1 / 2), SampledAt = t, ExpiresAt = t + 90 * second, ResetAt = zeroTime,
      Generation = g\<rparr>"

lemma deliverSnapshots_latest_witness:
  "\<exists>q. storedSnapshot ''gpt-5''
        (deliverSnapshots ''gpt-5'' [exampleSnapshot 2 20, exampleSnapshot 1 30] newRuntimeLimits) = Some q \<and>
      q \<in> {exampleSnapshot 2 20, exampleSnapshot 1 30}"
  using deliverSnapshots_latest [of newRuntimeLimits
      "[exampleSnapshot 2 20, exampleSnapshot 1 30]" "[exampleSnapshot 1 30, exampleSnapshot 2 20]" "''gpt-5''"]
  by (auto simp: snapshotStore_def newRuntimeLimits_def exampleSnapshot_def insert_commute)

text \<open>
  Samples without a generation are compared by time alone, so mixing both kinds makes
  \<open>codexQuotaSnapshotNewer\<close> cyclic: the sample that stays then depends on the order of delivery.
\<close>

lemma newer_cycle:
  "codexQuotaSnapshotNewer (exampleSnapshot 0 20) (exampleSnapshot 2 10) \<and>
   codexQuotaSnapshotNewer (exampleSnapshot 1 30) (exampleSnapshot 0 20) \<and>
   codexQuotaSnapshotNewer (exampleSnapshot 2 10) (exampleSnapshot 1 30)"
  by (simp add: codexQuotaSnapshotNewer_def exampleSnapshot_def)

end
