(* ===== verification/ExpiryDrain.thy ===== *)
theory ExpiryDrain
  imports QuotaSnapshots "HOL-Library.Product_Lexorder"
begin

text \<open>
  \<open>sdk/cliproxy/auth/expiry_drain.go\<close>: credentials about to expire are used first, and in the
  last minutes of their life they get a bounded concurrency boost.

  A candidate is a pair of a credential and its request-time state, because the drain ceiling
  reads the quota snapshots. \<open>sort.SliceStable\<close> under a strict weak order is the stable
  \<open>sort_key\<close> of the library, keyed by what the comparison function compares.
\<close>

abbreviation authExpiryPriorityWindow :: duration where "authExpiryPriorityWindow \<equiv> 24 * hour"
abbreviation authExpiryCohortWindow :: duration where "authExpiryCohortWindow \<equiv> minute"
abbreviation authExpiryDrainWindow :: duration where "authExpiryDrainWindow \<equiv> 5 * minute"
definition authExpiryDrainMinConcurrency :: int where [arith_defs]: "authExpiryDrainMinConcurrency = 8"
definition authExpiryDrainNormalConcurrency :: int where [arith_defs]: "authExpiryDrainNormalConcurrency = 10"
definition authExpiryDrainUrgentConcurrency :: int where [arith_defs]: "authExpiryDrainUrgentConcurrency = 12"

section \<open>Expiry of a credential\<close>

fun firstNonzeroTime :: "(string, gov) gomap \<Rightarrow> string list \<Rightarrow> gotime option" where
  "firstNonzeroTime meta [] = None"
| "firstNonzeroTime meta (key # keys) =
     (case glookup meta key of
        None \<Rightarrow> firstNonzeroTime meta keys
      | Some v \<Rightarrow>
          (case parseTimeValue v of
             None \<Rightarrow> firstNonzeroTime meta keys
           | Some t \<Rightarrow> if t = zeroTime then firstNonzeroTime meta keys else Some t))"

definition authSupplyLeaseExpirationTime :: "Auth option \<Rightarrow> gotime option" where
  "authSupplyLeaseExpirationTime auth =
     (case auth of
        None \<Rightarrow> None
      | Some a \<Rightarrow> firstNonzeroTime (Metadata a) authSupplyLeaseExpiryKeys)"

definition authSchedulingExpirationTime :: "Auth option \<Rightarrow> gotime option" where
  "authSchedulingExpirationTime auth =
     (case authSupplyLeaseExpirationTime auth of
        Some expiresAt \<Rightarrow> Some expiresAt
      | None \<Rightarrow> (case auth of None \<Rightarrow> None | Some a \<Rightarrow> ExpirationTime a))"

definition authExpiryRemaining :: "Auth option \<Rightarrow> gotime \<Rightarrow> duration option" where
  "authExpiryRemaining auth now =
     (case auth of
        None \<Rightarrow> None
      | Some a \<Rightarrow>
          let supplied = (authSupplyLeaseExpirationTime auth \<noteq> None)
          in case (case authSupplyLeaseExpirationTime auth of
                     Some t \<Rightarrow> Some t | None \<Rightarrow> ExpirationTime a) of
               None \<Rightarrow> None
             | Some expiresAt \<Rightarrow>
                 if expiresAt = zeroTime then None
                 else let remaining = time_sub expiresAt now
                      in if remaining > authExpiryPriorityWindow then None
                         else if remaining \<le> 0 then (if supplied then Some remaining else None)
                         else Some remaining)"

definition authQuotaExceeded :: "Auth option \<Rightarrow> string \<Rightarrow> bool" where
  "authQuotaExceeded auth model =
     (case auth of
        None \<Rightarrow> False
      | Some a \<Rightarrow>
          if model \<noteq> '''' \<and> ModelStates a \<noteq> []
          then let modelKey = canonicalModelKey model
               in case find (\<lambda>(stateModel, state). state \<noteq> None \<and> canonicalModelKey stateModel = modelKey)
                        (ModelStates a) of
                    Some (_, Some state) \<Rightarrow> Exceeded (msQuota state)
                  | _ \<Rightarrow> Exceeded (Quota a)
          else Exceeded (Quota a))"

definition authExpiryDrainActive :: "Auth option \<Rightarrow> string \<Rightarrow> gotime \<Rightarrow> bool" where
  "authExpiryDrainActive auth model now =
     (case authExpiryRemaining auth now of
        None \<Rightarrow> False
      | Some remaining \<Rightarrow>
          if remaining > authExpiryDrainWindow then False
          else if authQuotaExceeded auth model then False
          else True)"

section \<open>Concurrency boost\<close>

text \<open>\<open>0.80\<close> as a float64.\<close>

definition flt_0_80 :: gofloat where
  "flt_0_80 = Fin (3602879701896397 / 4503599627370496)"

definition expiryDrainConcurrencyCeiling ::
  "string \<Rightarrow> gotime \<Rightarrow> authRuntimeLimits \<Rightarrow> int" where
  "expiryDrainConcurrencyCeiling model now st =
     (case codexQuotaSnapshot model now st of
        None \<Rightarrow> authExpiryDrainNormalConcurrency
      | Some snapshot \<Rightarrow>
          if flt_less (UsedRatio snapshot) (Fin (1 / 2)) then authExpiryDrainUrgentConcurrency
          else if flt_less (UsedRatio snapshot) flt_0_80 then authExpiryDrainNormalConcurrency
          else authExpiryDrainMinConcurrency)"

definition expiryDrainConcurrencyLimit ::
  "Auth \<Rightarrow> string \<Rightarrow> gotime \<Rightarrow> int \<Rightarrow> authRuntimeLimits \<Rightarrow> int" where
  "expiryDrainConcurrencyLimit a model now configured st =
     (if configured \<le> 0 \<or> \<not> authExpiryDrainActive (Some a) model now then configured
      else let ceiling = expiryDrainConcurrencyCeiling model now st
           in if configured \<ge> ceiling then configured
              else let boosted = configured * 2;
                       boosted = (if boosted < configured + 1 then configured + 1 else boosted)
                   in if boosted > ceiling then ceiling else boosted)"

definition expiryPriorityConcurrencyLimit ::
  "Auth \<Rightarrow> string \<Rightarrow> gotime \<Rightarrow> int \<Rightarrow> authRuntimeLimits \<Rightarrow> int" where
  "expiryPriorityConcurrencyLimit a model now configured st =
     (if configured \<le> 0 then 0
      else if authExpiryRemaining (Some a) now = None then configured
      else expiryDrainConcurrencyLimit a model now configured st)"

section \<open>The near-expiry lane\<close>

abbreviation remaining_of :: "gotime \<Rightarrow> Auth \<Rightarrow> duration" where
  "remaining_of now a \<equiv> (case authExpiryRemaining (Some a) now of None \<Rightarrow> 0 | Some r \<Rightarrow> r)"

abbreviation expiry_of :: "Auth \<Rightarrow> gotime" where
  "expiry_of a \<equiv>
     (case authSchedulingExpirationTime (Some a) of None \<Rightarrow> zeroTime | Some t \<Rightarrow> t)"

definition expiryPriorityAuths :: "Auth list \<Rightarrow> gotime \<Rightarrow> Auth list" where
  "expiryPriorityAuths auths now =
     (if length auths \<le> 1 then auths
      else let priority = filter (\<lambda>a. authExpiryRemaining (Some a) now \<noteq> None) auths
           in case sort_key (\<lambda>a. (remaining_of now a, ID a)) priority of
                [] \<Rightarrow> auths
              | boundary # rest \<Rightarrow>
                  let cutoff = expiry_of boundary + authExpiryCohortWindow
                  in boundary # takeWhile (\<lambda>a. \<not> expiry_of a > cutoff) rest)"

text \<open>The candidates here may be nil, and the result drops the credential already bound.\<close>

definition expiryDrainFailoverAuths ::
  "Auth option list \<Rightarrow> Auth option \<Rightarrow> string \<Rightarrow> gotime \<Rightarrow> Auth list" where
  "expiryDrainFailoverAuths auths cached model now =
     (let draining = [a. Some a \<leftarrow> auths, authExpiryDrainActive (Some a) model now]
      in case sort_key (\<lambda>a. (expiry_of a, ID a)) draining of
           [] \<Rightarrow> []
         | earliest # rest \<Rightarrow>
             let sorted_auths = earliest # rest;
                 cutoff = expiry_of earliest + authExpiryCohortWindow;
                 cachedInCohort =
                   (case cached of
                      None \<Rightarrow> False
                    | Some c \<Rightarrow>
                        authExpiryDrainActive cached model now \<and>
                        (case authSchedulingExpirationTime cached of
                           None \<Rightarrow> False | Some t \<Rightarrow> \<not> t > cutoff))
             in if cachedInCohort then []
                else filter (\<lambda>a. case cached of None \<Rightarrow> True | Some c \<Rightarrow> ID a \<noteq> ID c)
                       (takeWhile (\<lambda>a. \<not> expiry_of a > cutoff) sorted_auths))"

section \<open>A concrete supplier lease\<close>

definition leaseAuth :: "string \<Rightarrow> int \<Rightarrow> Auth" where
  "leaseAuth aid ms = exampleAuth aid [(''supply_lease_expires_at_ms'', GInt KInt64 ms)]"

lemma lease_supply:
  "1000000000000 < ms \<Longrightarrow>
   authSupplyLeaseExpirationTime (Some (leaseAuth aid ms)) = Some (time_unix_milli ms)"
  by (simp add: authSupplyLeaseExpirationTime_def leaseAuth_def exampleAuth_def
      authSupplyLeaseExpiryKeys_def parseTimeValue_def normaliseUnix_def time_unix_milli_def
      unix_epoch_def)

lemma lease_scheduling:
  "1000000000000 < ms \<Longrightarrow>
   authSchedulingExpirationTime (Some (leaseAuth aid ms)) = Some (time_unix_milli ms)"
  by (simp add: authSchedulingExpirationTime_def lease_supply)

lemma lease_remaining:
  "1000000000000 < ms \<Longrightarrow> 0 < now \<Longrightarrow> now < time_unix_milli ms \<Longrightarrow>
   time_unix_milli ms \<le> now + authExpiryPriorityWindow \<Longrightarrow>
   authExpiryRemaining (Some (leaseAuth aid ms)) now = Some (time_unix_milli ms - now)"
  by (simp add: authExpiryRemaining_def lease_supply Let_def time_sub_def)

lemma lease_quota: "\<not> authQuotaExceeded (Some (leaseAuth aid ms)) model"
  by (simp add: authQuotaExceeded_def leaseAuth_def exampleAuth_def)

section \<open>Correctness\<close>

lemma remaining_expiry:
  assumes "authExpiryRemaining (Some a) now = Some r"
  shows "r = time_sub (expiry_of a) now" and "r \<le> authExpiryPriorityWindow"
    and "expiry_of a \<noteq> zeroTime"
  using assms
  by (auto simp: authExpiryRemaining_def authSchedulingExpirationTime_def Let_def
      split: option.splits if_splits)

lemma remaining_exact:
  assumes "authExpiryRemaining (Some a) now \<noteq> None" and "now - expiry_of a \<le> maxInt64"
  shows "remaining_of now a = expiry_of a - now"
proof -
  obtain r where r: "authExpiryRemaining (Some a) now = Some r" using assms(1) by auto
  from remaining_expiry [OF r] assms(2) show ?thesis
    unfolding r by (simp add: time_sub_def)
qed

lemma drainActive_expires:
  "authExpiryDrainActive (Some a) model now \<Longrightarrow> authSchedulingExpirationTime (Some a) \<noteq> None"
  by (auto simp: authExpiryDrainActive_def authExpiryRemaining_def authSchedulingExpirationTime_def
      Let_def split: option.splits)

lemma boost_ceiling: "expiryDrainConcurrencyCeiling model now st \<in> {8, 10, 12}"
  by (auto simp: expiryDrainConcurrencyCeiling_def arith_defs split: option.splits)

text \<open>
  Near-expiry lane. When some candidate is near its expiry, the lane is exactly the
  near-expiry candidates that expire within a minute of the earliest of them, in the order of
  their expiry; the last hypothesis excludes supplier timestamps over 292 years old, on which
  the source's subtraction saturates.
\<close>

theorem expiryPriorityAuths_lane:
  assumes "1 < length auths"
    and lane: "lane = filter (\<lambda>a. authExpiryRemaining (Some a) now \<noteq> None) auths" "lane \<noteq> []"
    and old: "\<forall>a \<in> set lane. now - expiry_of a \<le> maxInt64"
  shows "set (expiryPriorityAuths auths now) =
      {a \<in> set lane. \<forall>d \<in> set lane. expiry_of a \<le> expiry_of d + authExpiryCohortWindow} \<and>
    sorted (map expiry_of (expiryPriorityAuths auths now))"
proof -
  let ?k = "\<lambda>a. (remaining_of now a, ID a)"
  obtain b rest where s: "sort_key ?k lane = b # rest"
    using lane(2) by (rule sort_key_Cons)
  have exact: "remaining_of now a = expiry_of a - now" if "a \<in> set lane" for a
    using that old lane(1) by (intro remaining_exact) auto
  have set: "set (b # rest) = set lane" unfolding s [symmetric] by simp
  have "sorted (map ?k (b # rest))"
    unfolding s [symmetric] by (rule sorted_sort_key)
  then have sorted: "sorted (map expiry_of (b # rest))"
  proof (rule sorted_map_mono)
    fix x y assume "x \<in> set (b # rest)" "y \<in> set (b # rest)" "?k x \<le> ?k y"
    then show "expiry_of x \<le> expiry_of y" unfolding set by (auto simp: exact)
  qed
  then have least: "\<forall>a \<in> set lane. expiry_of b \<le> expiry_of a" by (auto simp: set [symmetric])
  have "expiryPriorityAuths auths now =
      b # takeWhile (\<lambda>a. \<not> expiry_of a > expiry_of b + authExpiryCohortWindow) rest"
    using assms(1) s by (simp add: expiryPriorityAuths_def lane(1) Let_def)
  also have "\<dots> = filter (\<lambda>a. \<not> expiry_of a > expiry_of b + authExpiryCohortWindow) (b # rest)"
    using takeWhile_sorted_filter [of expiry_of rest] sorted by simp
  finally have eq: "expiryPriorityAuths auths now =
      filter (\<lambda>a. \<not> expiry_of a > expiry_of b + authExpiryCohortWindow) (b # rest)" .
  have b: "b \<in> set lane" using set by auto
  have "set (expiryPriorityAuths auths now) =
      {a \<in> set lane. expiry_of a \<le> expiry_of b + authExpiryCohortWindow}"
    unfolding eq set_filter set by auto
  also have "\<dots> = {a \<in> set lane. \<forall>d \<in> set lane. expiry_of a \<le> expiry_of d + authExpiryCohortWindow}"
    using least b by fastforce
  finally show ?thesis
    unfolding eq using sorted_filter [OF sorted] by blast
qed

text \<open>
  Bounded boost. The final drain raises an explicit concurrency limit by at most a factor
  of two and never above the ceiling of 12, never lowers it, and does not touch it once the
  provider reported the quota exhausted.
\<close>

theorem expiryPriorityConcurrencyLimit_bounds:
  assumes "0 < configured"
  shows "configured \<le> expiryPriorityConcurrencyLimit a model now configured st \<and>
    expiryPriorityConcurrencyLimit a model now configured st \<le> min (2 * configured) (max configured 12) \<and>
    (authQuotaExceeded (Some a) model \<longrightarrow>
       expiryPriorityConcurrencyLimit a model now configured st = configured)"
  using assms boost_ceiling [of model now st]
  by (auto simp: expiryPriorityConcurrencyLimit_def expiryDrainConcurrencyLimit_def Let_def
      authExpiryDrainActive_def split: option.splits)

text \<open>
  Failover to the drain cohort. The failover set never contains the credential already
  bound, every member is draining and expires within a minute of every draining candidate's
  earliest expiry, and it is empty when the bound credential is in that cohort itself.
\<close>

theorem expiryDrainFailoverAuths_cohort:
  assumes "a \<in> set (expiryDrainFailoverAuths auths (Some c) model now)"
  shows "Some a \<in> set auths \<and> ID a \<noteq> ID c \<and> authExpiryDrainActive (Some a) model now \<and>
    (\<forall>d. Some d \<in> set auths \<and> authExpiryDrainActive (Some d) model now \<longrightarrow>
       expiry_of a \<le> expiry_of d + authExpiryCohortWindow) \<and>
    (authExpiryDrainActive (Some c) model now \<longrightarrow>
       (\<exists>d. Some d \<in> set auths \<and> authExpiryDrainActive (Some d) model now \<and>
          expiry_of d + authExpiryCohortWindow < expiry_of c))"
proof -
  let ?k = "\<lambda>a. (expiry_of a, ID a)"
  define draining where "draining = [a. Some a \<leftarrow> auths, authExpiryDrainActive (Some a) model now]"
  have mem: "a \<in> set draining \<longleftrightarrow> Some a \<in> set auths \<and> authExpiryDrainActive (Some a) model now" for a
    by (force simp: draining_def split: option.splits)
  obtain b rest where s: "sort_key ?k draining = b # rest"
    using assms by (cases "sort_key ?k draining")
      (auto simp: expiryDrainFailoverAuths_def Let_def draining_def)
  have set: "set (b # rest) = set draining" unfolding s [symmetric] by simp
  have "sorted (map ?k (b # rest))" unfolding s [symmetric] by (rule sorted_sort_key)
  then have "\<forall>d \<in> set (b # rest). ?k b \<le> ?k d" by auto
  then have least: "expiry_of b \<le> expiry_of d" if "d \<in> set draining" for d
    using that set by (force simp: less_eq_prod_def)
  from assms have a: "a \<in> set (b # rest)" "\<not> expiry_of a > expiry_of b + authExpiryCohortWindow"
    "ID a \<noteq> ID c" and c: "\<not> (authExpiryDrainActive (Some c) model now \<and>
      (case authSchedulingExpirationTime (Some c) of None \<Rightarrow> False
       | Some t \<Rightarrow> \<not> t > expiry_of b + authExpiryCohortWindow))"
    unfolding expiryDrainFailoverAuths_def draining_def [symmetric] Let_def s
    by (auto dest: set_takeWhileD split: if_splits)
  have member: "a \<in> set draining" using a(1) unfolding set .
  have cohort: "expiry_of a \<le> expiry_of d + authExpiryCohortWindow" if "d \<in> set draining" for d
    using a(2) least [OF that] by simp
  have "expiry_of b + authExpiryCohortWindow < expiry_of c" if "authExpiryDrainActive (Some c) model now"
    using that c drainActive_expires [OF that] by (auto split: option.splits)
  moreover have "b \<in> set draining" using set by auto
  ultimately show ?thesis using a(3) member cohort mem by blast
qed

section \<open>Witnesses\<close>

abbreviation exampleNow :: gotime where "exampleNow \<equiv> time_unix_milli 1700000000000"

lemma example_lease:
  "authExpiryRemaining (Some (leaseAuth aid 1700000100000)) exampleNow = Some (100 * second)"
  "authExpiryRemaining (Some (leaseAuth aid 1700000200000)) exampleNow = Some (200 * second)"
  "expiry_of (leaseAuth aid 1700000100000) = exampleNow + 100 * second"
  "expiry_of (leaseAuth aid 1700000200000) = exampleNow + 200 * second"
  by (simp_all add: lease_remaining lease_scheduling time_unix_milli_def unix_epoch_def)

lemma expiryPriorityAuths_lane_witness:
  "set (expiryPriorityAuths [leaseAuth ''a'' 1700000200000, leaseAuth ''b'' 1700000100000] exampleNow) =
     {leaseAuth ''b'' 1700000100000}"
proof -
  let ?as = "[leaseAuth ''a'' 1700000200000, leaseAuth ''b'' 1700000100000]"
  have f: "?as = filter (\<lambda>a. authExpiryRemaining (Some a) exampleNow \<noteq> None) ?as"
    by (simp add: example_lease)
  have "set (expiryPriorityAuths ?as exampleNow) =
      {a \<in> set ?as. \<forall>d \<in> set ?as. expiry_of a \<le> expiry_of d + authExpiryCohortWindow}"
    by (rule conjunct1 [OF expiryPriorityAuths_lane [OF _ f]]) (simp_all only: list.set ball_simps example_lease, simp_all)
  also have "\<dots> = {leaseAuth ''b'' 1700000100000}"
    by (auto simp: example_lease)
  finally show ?thesis .
qed

lemma expiryPriorityConcurrencyLimit_bounds_witness:
  "expiryPriorityConcurrencyLimit (leaseAuth ''a'' 1700000200000) ''gpt-5'' exampleNow 4 newRuntimeLimits \<le> 8"
  using expiryPriorityConcurrencyLimit_bounds
    [of 4 "leaseAuth ''a'' 1700000200000" "''gpt-5''" exampleNow newRuntimeLimits]
  by simp

lemma expiryDrainFailoverAuths_cohort_witness:
  "expiry_of (leaseAuth ''b'' 1700000100000) < expiry_of (leaseAuth ''a'' 1700000200000)"
proof -
  let ?a = "leaseAuth ''a'' 1700000200000" and ?b = "leaseAuth ''b'' 1700000100000"
  have drain: "authExpiryDrainActive (Some ?a) ''m'' exampleNow"
    "authExpiryDrainActive (Some ?b) ''m'' exampleNow"
    by (simp_all add: authExpiryDrainActive_def example_lease lease_quota)
  have id: "ID ?a = ''a''" "ID ?b = ''b''" by (simp_all add: leaseAuth_def exampleAuth_def)
  have "?b \<in> set (expiryDrainFailoverAuths [Some ?a, Some ?b] (Some ?a) ''m'' exampleNow)"
    using lease_scheduling [of 1700000200000 "''a''"]
    by (simp add: expiryDrainFailoverAuths_def Let_def drain drain [unfolded time_unix_milli_def unix_epoch_def, simplified]
        example_lease id time_unix_milli_def unix_epoch_def)
  from expiryDrainFailoverAuths_cohort [OF this] drain show ?thesis
    by (auto simp: example_lease)
qed

end
