(* ===== verification/RuntimeLimits.thy ===== *)
theory RuntimeLimits
  imports ExpiryDrain
begin

text \<open>
  \<open>sdk/cliproxy/auth/runtime_limits.go\<close>: the request-time limits of one credential, a
  concurrency cap, a fixed-window rate limit and four kinds of freeze, and the slots requests
  hold while they run.

  Every operation takes the state under its mutex and returns the new state. A successful
  acquisition returns a \<open>release\<close> closure; the model returns the slot the closure stands for,
  which remembers whether it was a quota fallback and whether it was released
  (\<open>sync.Once\<close>). The first parts are the configuration and the operations in the order of the
  source; then come the classification of failures, the facts about each operation, and the
  system of one credential and the slots held on it, as a step relation.
\<close>

abbreviation defaultRuntimeSelectionFreezeSeconds :: int where "defaultRuntimeSelectionFreezeSeconds \<equiv> 30"
abbreviation defaultRuntimeRateLimitWindowSeconds :: int where "defaultRuntimeRateLimitWindowSeconds \<equiv> 60"
abbreviation defaultUpstreamRateLimitBackoff :: duration where "defaultUpstreamRateLimitBackoff \<equiv> 15 * second"
abbreviation maximumUpstreamRateLimitBackoff :: duration where "maximumUpstreamRateLimitBackoff \<equiv> 5 * minute"
abbreviation upstreamRateLimitStableResetWindow :: duration where "upstreamRateLimitStableResetWindow \<equiv> 5 * minute"
abbreviation runtimeStickyBypassTTL :: duration where "runtimeStickyBypassTTL \<equiv> hour"
abbreviation runtimeSkipReasonQuotaPreempt :: string where "runtimeSkipReasonQuotaPreempt \<equiv> ''quota_preempt''"
abbreviation runtimeSkipReasonUsageLimitReached :: string where "runtimeSkipReasonUsageLimitReached \<equiv> ''usage_limit_reached''"
abbreviation runtimeSkipReasonUpstreamRateLimit :: string where "runtimeSkipReasonUpstreamRateLimit \<equiv> ''upstream_rate_limit''"

datatype blockReason = blockReasonNone | blockReasonCooldown | blockReasonDisabled | blockReasonOther

section \<open>Configuration\<close>

definition runtimeLimitLookupAny :: "Auth \<Rightarrow> string \<Rightarrow> gov" where
  "runtimeLimitLookupAny a key =
     (case glookup (Metadata a) key of
        Some v \<Rightarrow> v
      | None \<Rightarrow> (case glookup (Attributes a) key of Some s \<Rightarrow> GStr s | None \<Rightarrow> GNil))"

definition runtimeLimitHasAny :: "Auth \<Rightarrow> string list \<Rightarrow> bool" where
  "runtimeLimitHasAny a ks \<longleftrightarrow> list_ex (\<lambda>key. runtimeLimitLookupAny a key \<noteq> GNil) ks"

fun runtimeLimitIntAny :: "Auth \<Rightarrow> string list \<Rightarrow> int" where
  "runtimeLimitIntAny a [] = 0"
| "runtimeLimitIntAny a (key # ks) =
     (let v = runtimeLimitLookupAny a key
      in if v = GNil then runtimeLimitIntAny a ks
         else case parseIntAny v of Some parsed \<Rightarrow> parsed | None \<Rightarrow> runtimeLimitIntAny a ks)"

fun runtimeLimitBoolAny :: "Auth \<Rightarrow> string list \<Rightarrow> bool" where
  "runtimeLimitBoolAny a [] = False"
| "runtimeLimitBoolAny a (key # ks) =
     (let v = runtimeLimitLookupAny a key
      in if v = GNil then runtimeLimitBoolAny a ks
         else case parseBoolAny v of Some parsed \<Rightarrow> parsed | None \<Rightarrow> runtimeLimitBoolAny a ks)"

record RuntimeLimitConfig =
  maxConcurrency :: int
  rateLimitMaxRequests :: int
  rateLimitWindowSeconds :: int
  selectionErrorFreezeSeconds :: int
  disableStickyOnNextRequest :: bool

abbreviation maxConcurrencyKeys :: "string list" where
  "maxConcurrencyKeys \<equiv> [''max_concurrency'', ''max-concurrency'', ''maxConcurrency'']"
abbreviation rateLimitMaxRequestsKeys :: "string list" where
  "rateLimitMaxRequestsKeys \<equiv>
     [''rate_limit_max_requests'', ''rate-limit-max-requests'', ''rateLimitMaxRequests'']"
abbreviation rateLimitWindowSecondsKeys :: "string list" where
  "rateLimitWindowSecondsKeys \<equiv>
     [''rate_limit_window_seconds'', ''rate-limit-window-seconds'', ''rateLimitWindowSeconds'']"
abbreviation selectionErrorFreezeSecondsKeys :: "string list" where
  "selectionErrorFreezeSecondsKeys \<equiv>
     [''selection_error_freeze_seconds'', ''selection-error-freeze-seconds'',
      ''selectionErrorFreezeSeconds'']"
abbreviation disableStickyOnNextRequestKeys :: "string list" where
  "disableStickyOnNextRequestKeys \<equiv>
     [''disable_sticky_on_next_request'', ''disable-sticky-on-next-request'',
      ''disableStickyOnNextRequest'']"

definition runtimeLimitConfig :: "Auth \<Rightarrow> RuntimeLimitConfig" where
  "runtimeLimitConfig a =
     (let hasMaxConcurrency = runtimeLimitHasAny a maxConcurrencyKeys;
          hasRateLimitMaxRequests = runtimeLimitHasAny a rateLimitMaxRequestsKeys;
          hasRateLimitWindowSeconds = runtimeLimitHasAny a rateLimitWindowSecondsKeys;
          hasSelectionFreeze = runtimeLimitHasAny a selectionErrorFreezeSecondsKeys;
          hasStickyBypass = runtimeLimitHasAny a disableStickyOnNextRequestKeys;
          maxC = runtimeLimitIntAny a maxConcurrencyKeys;
          maxR = runtimeLimitIntAny a rateLimitMaxRequestsKeys;
          window = runtimeLimitIntAny a rateLimitWindowSecondsKeys;
          freeze = runtimeLimitIntAny a selectionErrorFreezeSecondsKeys
      in \<lparr>maxConcurrency = (if maxC < 0 then 0 else maxC),
          rateLimitMaxRequests = (if maxR < 0 then 0 else maxR),
          rateLimitWindowSeconds =
            (if window \<le> 0 then defaultRuntimeRateLimitWindowSeconds else window),
          selectionErrorFreezeSeconds =
            (if freeze < 0 then 0
             else if \<not> hasSelectionFreeze \<and> (hasMaxConcurrency \<or> hasRateLimitMaxRequests \<or>
                       hasRateLimitWindowSeconds \<or> hasStickyBypass)
             then defaultRuntimeSelectionFreezeSeconds else freeze),
          disableStickyOnNextRequest = runtimeLimitBoolAny a disableStickyOnNextRequestKeys\<rparr>)"

definition runtimeLimitConfigForModel ::
  "Auth \<Rightarrow> string \<Rightarrow> gotime \<Rightarrow> authRuntimeLimits \<Rightarrow> RuntimeLimitConfig" where
  "runtimeLimitConfigForModel a model now st =
     (let cfg = runtimeLimitConfig a
      in cfg\<lparr>maxConcurrency := expiryPriorityConcurrencyLimit a model now (maxConcurrency cfg) st\<rparr>)"

definition setCodexCacheAffinityMaxConcurrency :: "int \<Rightarrow> authRuntimeLimits \<Rightarrow> authRuntimeLimits" where
  "setCodexCacheAffinityMaxConcurrency limit st =
     st\<lparr>codexCacheAffinityMaxConcurrency := (if limit < 0 then 0 else limit)\<rparr>"

definition codexNormalConcurrencyLimit :: "authRuntimeLimits \<Rightarrow> int \<Rightarrow> bool \<Rightarrow> int" where
  "codexNormalConcurrencyLimit st configuredLimit affinityBypass =
     (if affinityBypass then configuredLimit
      else let normalLimit = codexCacheAffinityMaxConcurrency st
           in if normalLimit > 0 \<and> (configuredLimit \<le> 0 \<or> normalLimit < configuredLimit)
              then normalLimit else configuredLimit)"

section \<open>Windows, freezes and skips\<close>

definition recordSkipLocked ::
  "string \<Rightarrow> gotime \<Rightarrow> gotime \<Rightarrow> authRuntimeLimits \<Rightarrow> authRuntimeLimits" where
  "recordSkipLocked reason until now st =
     st\<lparr>lastSkipReason := reason, lastSkipRecordedAt := now, lastSkipRecoveryTarget := until\<rparr>"

definition clearSkip :: "authRuntimeLimits \<Rightarrow> authRuntimeLimits" where
  "clearSkip st =
     st\<lparr>lastSkipReason := '''', lastSkipRecordedAt := zeroTime, lastSkipRecoveryTarget := zeroTime\<rparr>"

text \<open>A deadline that has passed is cleared; one that is zero already stays.\<close>

abbreviation expireDeadline :: "gotime \<Rightarrow> gotime \<Rightarrow> gotime" where
  "expireDeadline now t \<equiv> (if t \<noteq> zeroTime \<and> \<not> t > now then zeroTime else t)"

definition compactRuntimeWindowLocked ::
  "gotime \<Rightarrow> RuntimeLimitConfig \<Rightarrow> authRuntimeLimits \<Rightarrow> authRuntimeLimits" where
  "compactRuntimeWindowLocked now cfg st =
     (let window0 = dur_mul (rateLimitWindowSeconds cfg) second;
          window = (if window0 \<le> 0 then defaultRuntimeRateLimitWindowSeconds * second else window0);
          st1 = st\<lparr>frozenUntil := expireDeadline now (frozenUntil st),
                   usageLimitFreezeUntil := expireDeadline now (usageLimitFreezeUntil st),
                   quotaPreemptFreezeUntil := expireDeadline now (quotaPreemptFreezeUntil st),
                   rateLimitedUntil := expireDeadline now (rateLimitedUntil st),
                   upstreamRateLimitedUntil := expireDeadline now (upstreamRateLimitedUntil st)\<rparr>
      in if rateWindowStart st1 = zeroTime
         then (if rateWindowCount st1 > 0 then st1\<lparr>rateWindowCount := 0\<rparr> else st1)
         else if time_sub now (rateWindowStart st1) \<ge> window
         then st1\<lparr>rateWindowStart := now, rateWindowCount := 0, rateLimitedUntil := zeroTime\<rparr>
         else st1)"

definition activeFreezeLocked :: "gotime \<Rightarrow> authRuntimeLimits \<Rightarrow> gotime \<times> string" where
  "activeFreezeLocked now st =
     (let (until, reason) = (frozenUntil st, ''frozen'');
          (until, reason) = (if usageLimitFreezeUntil st > until
            then (usageLimitFreezeUntil st, runtimeSkipReasonUsageLimitReached) else (until, reason));
          (until, reason) = (if quotaPreemptFreezeUntil st > until
            then (quotaPreemptFreezeUntil st, runtimeSkipReasonQuotaPreempt) else (until, reason));
          (until, reason) = (if upstreamRateLimitedUntil st > until
            then (upstreamRateLimitedUntil st, runtimeSkipReasonUpstreamRateLimit) else (until, reason))
      in if \<not> until > now then (zeroTime, '''') else (until, reason))"

definition onlyQuotaPreemptFreezeLocked :: "gotime \<Rightarrow> authRuntimeLimits \<Rightarrow> bool" where
  "onlyQuotaPreemptFreezeLocked now st =
     (if \<not> quotaPreemptFreezeUntil st > now then False
      else \<not> frozenUntil st > now \<and> \<not> usageLimitFreezeUntil st > now \<and>
           \<not> upstreamRateLimitedUntil st > now)"

definition runtimeQuotaPreemptFreezeBypassed ::
  "Auth \<Rightarrow> gotime \<Rightarrow> bool \<Rightarrow> authRuntimeLimits \<Rightarrow> bool" where
  "runtimeQuotaPreemptFreezeBypassed a now tailBurst st =
     (if \<not> onlyQuotaPreemptFreezeLocked now st then False
      else if tailBurst \<or> tailBurstFallbackMaxConcurrency a > 0 then True
      else quotaPreemptFallback a \<and> quotaPreemptFallbackInFlight st = 0)"

text \<open>The lane's limit and the reason a full lane gives; \<open>None\<close> when no burst lane is active.\<close>

definition codexBurstConcurrencyLimit ::
  "Auth \<Rightarrow> RuntimeLimitConfig \<Rightarrow> string \<Rightarrow> gotime \<Rightarrow> bool \<Rightarrow> authRuntimeLimits \<Rightarrow> (int \<times> string) option" where
  "codexBurstConcurrencyLimit a cfg model now tailBurst st =
     (let limit = (if maxConcurrency cfg > 1 then maxConcurrency cfg else 1);
          lane = (if tailBurstFallbackMaxConcurrency a > 0
                  then Some (if tailBurstFallbackMaxConcurrency a > limit
                             then tailBurstFallbackMaxConcurrency a else limit,
                             ''tail_burst_fallback_concurrency_limit'')
                  else if tailBurst
                  then Some (if tailBurstMaxConcurrency a > limit then tailBurstMaxConcurrency a else limit,
                             ''tail_burst_concurrency_limit'')
                  else None)
      in case lane of
           None \<Rightarrow> None
         | Some (limit, reason) \<Rightarrow>
             let drainLimit = expiryDrainConcurrencyLimit a model now 1 st
             in Some (if drainLimit > limit then drainLimit else limit, reason))"

section \<open>Selection and acquisition\<close>

text \<open>
  Both start with the same checks. \<open>rateUntil\<close> is the end of the current window, or now if it
  has passed.
\<close>

definition rateUntil :: "gotime \<Rightarrow> RuntimeLimitConfig \<Rightarrow> authRuntimeLimits \<Rightarrow> gotime" where
  "rateUntil now cfg st =
     (let until = rateWindowStart st + dur_mul (rateLimitWindowSeconds cfg) second
      in if until < now then now else until)"

definition runtimeAuthBlockedForModelWithTailBurst ::
  "Auth option \<Rightarrow> string \<Rightarrow> gotime \<Rightarrow> bool \<Rightarrow> authRuntimeLimits \<Rightarrow>
     (bool \<times> blockReason \<times> gotime) \<times> authRuntimeLimits" where
  "runtimeAuthBlockedForModelWithTailBurst auth model now tailBurst st0 =
     (case auth of
        None \<Rightarrow> ((True, blockReasonOther, zeroTime), st0)
      | Some a \<Rightarrow>
          let cfg = runtimeLimitConfigForModel a model now st0;
              st = compactRuntimeWindowLocked now cfg st0;
              (frozen, freezeReason) = activeFreezeLocked now st;
              burst = codexBurstConcurrencyLimit a cfg model now tailBurst st;
              normalLimit = codexNormalConcurrencyLimit st (maxConcurrency cfg)
                              (tailBurstNormalConcurrencyAffinityBypass a)
          in if frozen > now \<and> \<not> runtimeQuotaPreemptFreezeBypassed a now tailBurst st
             then ((True, blockReasonCooldown, frozen), recordSkipLocked freezeReason frozen now st)
             else if (case burst of Some (limit, _) \<Rightarrow> currentConcurrency st \<ge> limit | None \<Rightarrow> False)
             then ((True, blockReasonOther, zeroTime),
                   recordSkipLocked (snd (the burst)) zeroTime now st)
             else if burst = None \<and> normalLimit > 0 \<and> currentConcurrency st \<ge> normalLimit
             then ((True, blockReasonOther, zeroTime),
                   recordSkipLocked ''concurrency_limit'' zeroTime now st)
             else if rateLimitMaxRequests cfg > 0 \<and> rateWindowCount st \<ge> rateLimitMaxRequests cfg
             then let until = rateUntil now cfg st
                  in ((True, blockReasonCooldown, until),
                      recordSkipLocked ''rate_limited'' until now (st\<lparr>rateLimitedUntil := until\<rparr>))
             else ((False, blockReasonNone, zeroTime), st))"

definition runtimeAuthBlockedForModel ::
  "Auth option \<Rightarrow> gotime \<Rightarrow> authRuntimeLimits \<Rightarrow> (bool \<times> blockReason \<times> gotime) \<times> authRuntimeLimits" where
  "runtimeAuthBlockedForModel auth now st = runtimeAuthBlockedForModelWithTailBurst auth '''' now False st"

record slot =
  slotFallback :: bool
  slotReleased :: bool

definition acquireRuntimeSlotForModel ::
  "Auth option \<Rightarrow> gotime \<Rightarrow> string \<Rightarrow> bool \<Rightarrow> authRuntimeLimits \<Rightarrow>
     ((string \<times> gotime) + slot) \<times> authRuntimeLimits" where
  "acquireRuntimeSlotForModel auth now model tailBurst st0 =
     (case auth of
        None \<Rightarrow> (Inl (''missing_auth'', zeroTime), st0)
      | Some a \<Rightarrow>
          let cfg = runtimeLimitConfigForModel a model now st0;
              st = compactRuntimeWindowLocked now cfg st0;
              (frozen, freezeReason) = activeFreezeLocked now st;
              bypassed = runtimeQuotaPreemptFreezeBypassed a now tailBurst st;
              fallback = (frozen > now \<and> bypassed \<and> quotaPreemptFallback a \<and> \<not> tailBurst \<and>
                          tailBurstFallbackMaxConcurrency a \<le> 0);
              burst = codexBurstConcurrencyLimit a cfg model now tailBurst st;
              normalLimit = codexNormalConcurrencyLimit st (maxConcurrency cfg)
                              (tailBurstNormalConcurrencyAffinityBypass a)
          in if frozen > now \<and> \<not> bypassed
             then (Inl (''frozen'', frozen), recordSkipLocked freezeReason frozen now st)
             else if (case burst of Some (limit, _) \<Rightarrow> currentConcurrency st \<ge> limit | None \<Rightarrow> False)
             then (Inl (snd (the burst), zeroTime),
                   recordSkipLocked (snd (the burst)) zeroTime now st)
             else if burst = None \<and> normalLimit > 0 \<and> currentConcurrency st \<ge> normalLimit
             then (Inl (''concurrency_limit'', zeroTime),
                   recordSkipLocked ''concurrency_limit'' zeroTime now st)
             else if rateLimitMaxRequests cfg > 0 \<and> rateWindowCount st \<ge> rateLimitMaxRequests cfg
             then let until = rateUntil now cfg st
                  in (Inl (''rate_limited'', until),
                      recordSkipLocked ''rate_limited'' until now (st\<lparr>rateLimitedUntil := until\<rparr>))
             else let st = st\<lparr>currentConcurrency := currentConcurrency st + 1\<rparr>;
                      st = (if fallback
                            then st\<lparr>quotaPreemptFallbackInFlight := quotaPreemptFallbackInFlight st + 1\<rparr>
                            else st);
                      st = (if rateWindowStart st = zeroTime \<or>
                              time_sub now (rateWindowStart st) \<ge>
                                dur_mul (rateLimitWindowSeconds cfg) second
                            then st\<lparr>rateWindowStart := now, rateWindowCount := 0\<rparr> else st);
                      st = st\<lparr>rateWindowCount := rateWindowCount st + 1\<rparr>
                  in (Inr \<lparr>slotFallback = fallback, slotReleased = False\<rparr>, clearSkip st))"

definition acquireRuntimeSlot ::
  "Auth option \<Rightarrow> gotime \<Rightarrow> authRuntimeLimits \<Rightarrow> ((string \<times> gotime) + slot) \<times> authRuntimeLimits" where
  "acquireRuntimeSlot auth now st = acquireRuntimeSlotForModel auth now '''' False st"

text \<open>The \<open>release\<close> closure; a second call does nothing.\<close>

definition releaseSlot :: "slot \<Rightarrow> authRuntimeLimits \<Rightarrow> slot \<times> authRuntimeLimits" where
  "releaseSlot s st =
     (if slotReleased s then (s, st)
      else let st = (if currentConcurrency st > 0
                     then st\<lparr>currentConcurrency := currentConcurrency st - 1\<rparr> else st);
               st = (if slotFallback s \<and> quotaPreemptFallbackInFlight st > 0
                     then st\<lparr>quotaPreemptFallbackInFlight := quotaPreemptFallbackInFlight st - 1\<rparr>
                     else st)
           in (s\<lparr>slotReleased := True\<rparr>, st))"

section \<open>Snapshots and recovery\<close>

record RuntimeLimitSnapshot =
  CurrentConcurrency :: int
  FrozenUntil :: gotime
  RateLimitedUntil :: gotime
  LastSkipReason :: string

definition runtimeLimitSnapshot ::
  "Auth \<Rightarrow> gotime \<Rightarrow> authRuntimeLimits \<Rightarrow> RuntimeLimitSnapshot \<times> authRuntimeLimits" where
  "runtimeLimitSnapshot a now st0 =
     (let st = compactRuntimeWindowLocked now (runtimeLimitConfig a) st0;
          (frozen, freezeReason) = activeFreezeLocked now st
      in (\<lparr>CurrentConcurrency = currentConcurrency st, FrozenUntil = frozen,
           RateLimitedUntil = (if upstreamRateLimitedUntil st > rateLimitedUntil st
                               then upstreamRateLimitedUntil st else rateLimitedUntil st),
           LastSkipReason = (if freezeReason \<noteq> '''' then freezeReason else lastSkipReason st)\<rparr>,
          st))"

definition normalizedQuotaResetReason :: "string \<Rightarrow> string" where
  "normalizedQuotaResetReason value =
     map (\<lambda>c. if c = CHR ''-'' \<or> c = CHR '' '' then CHR ''_'' else c) (to_lower (trim_space value))"

definition quotaResetRuntimeReason :: "string \<Rightarrow> bool" where
  "quotaResetRuntimeReason value \<longleftrightarrow>
     normalizedQuotaResetReason value \<in>
       {runtimeSkipReasonQuotaPreempt, runtimeSkipReasonUsageLimitReached, ''codex_usage_limit_reached''}"

definition hasQuotaResetRuntimeState ::
  "Auth \<Rightarrow> gotime \<Rightarrow> authRuntimeLimits \<Rightarrow> bool \<times> authRuntimeLimits" where
  "hasQuotaResetRuntimeState a now st0 =
     (let st = compactRuntimeWindowLocked now (runtimeLimitConfig a) st0
      in (usageLimitFreezeUntil st > now \<or> quotaPreemptFreezeUntil st > now \<or>
            quotaResetRuntimeReason (lastSkipReason st), st))"

text \<open>
  Each step clears one group of fields and remembers whether it held anything. Storing an empty
  quota store counts as a change whenever a store was ever stored.
\<close>

definition clearIf ::
  "(authRuntimeLimits \<Rightarrow> bool) \<Rightarrow> (authRuntimeLimits \<Rightarrow> authRuntimeLimits) \<Rightarrow>
     bool \<times> authRuntimeLimits \<Rightarrow> bool \<times> authRuntimeLimits" where
  "clearIf cond f p = (if cond (snd p) then (True, f (snd p)) else p)"

definition resetQuotaRuntimeState :: "authRuntimeLimits \<Rightarrow> bool \<times> authRuntimeLimits" where
  "resetQuotaRuntimeState st0 =
     (let p = (False, st0);
          p = clearIf (\<lambda>st. frozenUntil st \<noteq> zeroTime) (\<lambda>st. st\<lparr>frozenUntil := zeroTime\<rparr>) p;
          p = clearIf (\<lambda>st. usageLimitFreezeUntil st \<noteq> zeroTime)
                (\<lambda>st. st\<lparr>usageLimitFreezeUntil := zeroTime\<rparr>) p;
          p = clearIf (\<lambda>st. quotaPreemptFreezeUntil st \<noteq> zeroTime)
                (\<lambda>st. st\<lparr>quotaPreemptFreezeUntil := zeroTime\<rparr>) p;
          p = clearIf (\<lambda>st. rateLimitedUntil st \<noteq> zeroTime) (\<lambda>st. st\<lparr>rateLimitedUntil := zeroTime\<rparr>) p;
          p = clearIf (\<lambda>st. upstreamRateLimitedUntil st \<noteq> zeroTime \<or> upstreamRateLimitBackoff st \<noteq> 0 \<or>
                       upstreamRateLimitLastSeen st \<noteq> zeroTime)
                (\<lambda>st. st\<lparr>upstreamRateLimitedUntil := zeroTime, upstreamRateLimitBackoff := 0,
                       upstreamRateLimitLastSeen := zeroTime\<rparr>) p;
          p = clearIf (\<lambda>st. rateWindowStart st \<noteq> zeroTime \<or> rateWindowCount st \<noteq> 0)
                (\<lambda>st. st\<lparr>rateWindowStart := zeroTime, rateWindowCount := 0\<rparr>) p;
          p = clearIf (\<lambda>st. stickyBypassNext st \<or> length (stickyBypassSessions st) > 0)
                (\<lambda>st. st\<lparr>stickyBypassNext := False, stickyBypassSessions := []\<rparr>) p;
          p = clearIf (\<lambda>st. lastSkipReason st \<noteq> '''' \<or> lastSkipRecordedAt st \<noteq> zeroTime \<or>
                       lastSkipRecoveryTarget st \<noteq> zeroTime) clearSkip p;
          p = clearIf (\<lambda>st. currentConcurrency st = 0 \<and> quotaPreemptFallbackInFlight st \<noteq> 0)
                (\<lambda>st. st\<lparr>quotaPreemptFallbackInFlight := 0\<rparr>) p
      in clearIf (\<lambda>st. codexQuotaSnapshots st \<noteq> None) (\<lambda>st. st\<lparr>codexQuotaSnapshots := Some []\<rparr>) p)"

section \<open>Sticky bypass\<close>

definition pruneStickyBypassSessionsLocked :: "gotime \<Rightarrow> authRuntimeLimits \<Rightarrow> authRuntimeLimits" where
  "pruneStickyBypassSessionsLocked now st =
     st\<lparr>stickyBypassSessions :=
       filter (\<lambda>(key, until). \<not> (key = '''' \<or> (until \<noteq> zeroTime \<and> \<not> until > now)))
         (stickyBypassSessions st)\<rparr>"

definition consumeStickyBypass ::
  "string \<Rightarrow> gotime \<Rightarrow> authRuntimeLimits \<Rightarrow> bool \<times> authRuntimeLimits" where
  "consumeStickyBypass sessionKey0 now st0 =
     (let sessionKey = trim_space sessionKey0
      in if sessionKey = '''' then (False, st0)
         else let st = pruneStickyBypassSessionsLocked now st0
              in case glookup (stickyBypassSessions st) sessionKey of
                   Some until \<Rightarrow>
                     (until = zeroTime \<or> until > now,
                      st\<lparr>stickyBypassSessions := gdel sessionKey (stickyBypassSessions st)\<rparr>)
                 | None \<Rightarrow>
                     if \<not> stickyBypassNext st then (False, st)
                     else (True, st\<lparr>stickyBypassNext := False\<rparr>))"

definition markStickyBypassForSession ::
  "string \<Rightarrow> gotime \<Rightarrow> authRuntimeLimits \<Rightarrow> authRuntimeLimits" where
  "markStickyBypassForSession sessionKey0 now st0 =
     (let sessionKey = trim_space sessionKey0
      in if sessionKey = '''' then st0
         else let st = pruneStickyBypassSessionsLocked now st0
              in st\<lparr>stickyBypassSessions :=
                   gput sessionKey (now + runtimeStickyBypassTTL) (stickyBypassSessions st)\<rparr>)"

section \<open>Freezes\<close>

text \<open>The doubling loop, by the steps left; it stops at the maximum whatever the level.\<close>

fun doubleCooldown :: "nat \<Rightarrow> duration \<Rightarrow> duration" where
  "doubleCooldown 0 cooldown = cooldown"
| "doubleCooldown (Suc steps) cooldown =
     (if cooldown < maximumUpstreamRateLimitBackoff then doubleCooldown steps (cooldown * 2)
      else cooldown)"

definition upstreamCooldown :: "int \<Rightarrow> duration option \<Rightarrow> duration" where
  "upstreamCooldown level retryAfter =
     (let cooldown = doubleCooldown (nat level) defaultUpstreamRateLimitBackoff;
          cooldown = (if cooldown > maximumUpstreamRateLimitBackoff
                      then maximumUpstreamRateLimitBackoff else cooldown);
          cooldown = (case retryAfter of
                        Some r \<Rightarrow> if r > cooldown then r else cooldown | None \<Rightarrow> cooldown);
          cooldown = (if cooldown > maximumUpstreamRateLimitBackoff
                      then maximumUpstreamRateLimitBackoff else cooldown)
      in if cooldown \<le> 0 then defaultUpstreamRateLimitBackoff else cooldown)"

definition freezeUpstreamRateLimit ::
  "gotime \<Rightarrow> duration option \<Rightarrow> authRuntimeLimits \<Rightarrow> bool \<times> authRuntimeLimits" where
  "freezeUpstreamRateLimit now retryAfter st0 =
     (let st = (if upstreamRateLimitLastSeen st0 < now
                then st0\<lparr>upstreamRateLimitLastSeen := now\<rparr> else st0)
      in if upstreamRateLimitedUntil st > now
         then (False, recordSkipLocked runtimeSkipReasonUpstreamRateLimit
                        (upstreamRateLimitedUntil st) now st)
         else let level = (if upstreamRateLimitBackoff st < 0 then 0 else upstreamRateLimitBackoff st);
                  cooldown = upstreamCooldown level retryAfter;
                  st = st\<lparr>upstreamRateLimitedUntil := now + cooldown\<rparr>;
                  st = (if cooldown < maximumUpstreamRateLimitBackoff
                        then st\<lparr>upstreamRateLimitBackoff := level + 1\<rparr> else st)
              in (True, recordSkipLocked runtimeSkipReasonUpstreamRateLimit
                          (upstreamRateLimitedUntil st) now st))"

definition observeUpstreamRateLimitSuccess :: "gotime \<Rightarrow> authRuntimeLimits \<Rightarrow> authRuntimeLimits" where
  "observeUpstreamRateLimitSuccess now st =
     (let stableSinceLastRateLimit =
            (upstreamRateLimitLastSeen st \<noteq> zeroTime \<and> \<not> now < upstreamRateLimitLastSeen st \<and>
             time_sub now (upstreamRateLimitLastSeen st) \<ge> upstreamRateLimitStableResetWindow)
      in if \<not> upstreamRateLimitedUntil st > now \<and> stableSinceLastRateLimit
         then st\<lparr>upstreamRateLimitedUntil := zeroTime, upstreamRateLimitBackoff := 0,
                 upstreamRateLimitLastSeen := zeroTime\<rparr>
         else st)"

definition clearTransientRateLimitRecovery ::
  "Auth \<Rightarrow> gotime \<Rightarrow> authRuntimeLimits \<Rightarrow> authRuntimeLimits" where
  "clearTransientRateLimitRecovery a now st0 =
     (let st = compactRuntimeWindowLocked now (runtimeLimitConfig a) (st0\<lparr>frozenUntil := zeroTime\<rparr>)
      in if lastSkipReason st = ''frozen'' \<or>
            (lastSkipReason st = runtimeSkipReasonUpstreamRateLimit \<and> \<not> upstreamRateLimitedUntil st > now)
         then clearSkip st else st)"

text \<open>Whether only the quota pre-emption freezes the credential, and whether it has capacity.\<close>

definition runtimeQuotaPreemptFallbackState ::
  "Auth \<Rightarrow> gotime \<Rightarrow> authRuntimeLimits \<Rightarrow> (bool \<times> bool) \<times> authRuntimeLimits" where
  "runtimeQuotaPreemptFallbackState a now st0 =
     (let cfg = runtimeLimitConfig a;
          st = compactRuntimeWindowLocked now cfg st0
      in if \<not> onlyQuotaPreemptFreezeLocked now st then ((False, False), st)
         else if quotaPreemptFallbackInFlight st > 0 then ((True, False), st)
         else if maxConcurrency cfg > 0 \<and> currentConcurrency st \<ge> maxConcurrency cfg
         then ((True, False), st)
         else if rateLimitMaxRequests cfg > 0 \<and> rateWindowCount st \<ge> rateLimitMaxRequests cfg
         then ((True, False), st)
         else ((True, True), st))"

definition runtimeAuthHasPersistentQuotaFreeze :: "gotime \<Rightarrow> authRuntimeLimits \<Rightarrow> bool" where
  "runtimeAuthHasPersistentQuotaFreeze now st \<longleftrightarrow>
     usageLimitFreezeUntil st > now \<or> quotaPreemptFreezeUntil st > now"

definition runtimeAuthHasUsageLimitFreeze :: "gotime \<Rightarrow> authRuntimeLimits \<Rightarrow> bool" where
  "runtimeAuthHasUsageLimitFreeze now st \<longleftrightarrow> usageLimitFreezeUntil st > now"

definition freezeUsageLimit ::
  "gotime \<Rightarrow> duration option \<Rightarrow> authRuntimeLimits \<Rightarrow> bool \<times> authRuntimeLimits" where
  "freezeUsageLimit now retryAfter st0 =
     (let until = (case retryAfter of
                     Some r \<Rightarrow> if r > 0 then now + r else now + 5 * minute
                   | None \<Rightarrow> now + 5 * minute);
          extended = (usageLimitFreezeUntil st0 < until - second);
          st = (if extended then st0\<lparr>usageLimitFreezeUntil := until\<rparr> else st0);
          (frozen, reason) = activeFreezeLocked now st
      in (extended, recordSkipLocked reason frozen now st))"

definition updateQuotaPreempt ::
  "gotime \<Rightarrow> gotime \<Rightarrow> bool \<Rightarrow> authRuntimeLimits \<Rightarrow> authRuntimeLimits" where
  "updateQuotaPreempt now until active st0 =
     (let st = (if active \<and> until \<noteq> zeroTime \<and> until > now
                then (if quotaPreemptFreezeUntil st0 < until
                      then st0\<lparr>quotaPreemptFreezeUntil := until\<rparr> else st0)
                else st0\<lparr>quotaPreemptFreezeUntil := zeroTime\<rparr>);
          (frozen, reason) = activeFreezeLocked now st
      in if frozen > now then recordSkipLocked reason frozen now st else st)"

section \<open>Failures that freeze a credential\<close>


definition statusCodeFromResult :: "ResultError option \<Rightarrow> int" where
  "statusCodeFromResult err = (case err of None \<Rightarrow> 0 | Some e \<Rightarrow> HTTPStatus e)"

definition isTransientCredentialContextResultError :: "ResultError option \<Rightarrow> bool" where
  "isTransientCredentialContextResultError err \<longleftrightarrow>
     (case err of None \<Rightarrow> False
      | Some e \<Rightarrow> equal_fold (trim_space (errCode e)) ''transient_credential_context'')"

definition isModelSupportErrorMessage :: "string \<Rightarrow> bool" where
  "isModelSupportErrorMessage message =
     (let lower = to_lower (trim_space message)
      in if lower = '''' then False
         else list_ex (str_contains lower)
           [''model_not_supported'', ''model_not_found'', ''unknown_model'', ''unknown model'',
            ''unknown provider for model'', ''model does not exist'', ''model not found'',
            ''requested model is not supported'', ''requested model is unsupported'',
            ''requested model is unavailable'', ''model is not supported'', ''model not supported'',
            ''unsupported model'', ''model unavailable'', ''not available for your plan'',
            ''not available for your account''])"

definition isModelSupportResultError :: "ResultError option \<Rightarrow> bool" where
  "isModelSupportResultError err =
     (case err of
        None \<Rightarrow> False
      | Some e \<Rightarrow> if statusCodeFromResult err \<notin> {400, 404, 422} then False
                  else isModelSupportErrorMessage (errMessage e))"

definition isCloudflareChallengeErrorMessage :: "string \<Rightarrow> bool" where
  "isCloudflareChallengeErrorMessage message =
     (let lower = to_lower (trim_space message)
      in str_contains lower ''challenge-platform'' \<or> str_contains lower ''cf-mitigated'' \<or>
         str_contains lower ''cloudflare challenge'' \<or>
         (str_contains lower ''cloudflare'' \<and> str_contains lower ''<html''))"

definition isCloudflareChallengeResultError :: "ResultError option \<Rightarrow> bool" where
  "isCloudflareChallengeResultError err =
     (case err of None \<Rightarrow> False | Some e \<Rightarrow> isCloudflareChallengeErrorMessage (errMessage e))"

definition isItemNotPersisted :: "string \<Rightarrow> bool" where
  "isItemNotPersisted message =
     (let lower = to_lower message
      in str_contains lower ''item with id'' \<and> str_contains lower ''not found'' \<and>
         str_contains lower ''items are not persisted when `store` is set to false'')"

definition isRequestScopedNotFoundResultError :: "ResultError option \<Rightarrow> bool" where
  "isRequestScopedNotFoundResultError err =
     (case err of
        None \<Rightarrow> False
      | Some e \<Rightarrow> if statusCodeFromResult err \<noteq> 404 then False else isItemNotPersisted (errMessage e))"

definition shouldFreezeRuntimeAuthResult :: "ResultError option \<Rightarrow> bool" where
  "shouldFreezeRuntimeAuthResult err =
     (case err of
        None \<Rightarrow> False
      | Some e \<Rightarrow>
          if isTransientCredentialContextResultError err then False
          else if isCloudflareChallengeResultError err \<or> isModelSupportResultError err then True
          else if statusCodeFromResult err \<in> {401, 402, 403, 429, 408, 500, 502, 503, 504} then True
          else let lower = to_lower (trim_space (errMessage e))
               in if lower = '''' then False
                  else list_ex (str_contains lower)
                    [''insufficient_quota'', ''quota exhausted'', ''quota'', ''rate limit'',
                     ''too many requests'', ''authentication error'', ''invalid credential'',
                     ''selection'', ''not available for your account''])"

definition maybeFreezeRuntimeResult ::
  "Auth \<Rightarrow> bool \<Rightarrow> ResultError option \<Rightarrow> gotime \<Rightarrow> string \<Rightarrow> authRuntimeLimits \<Rightarrow> authRuntimeLimits" where
  "maybeFreezeRuntimeResult a success err now stickySessionKey st =
     (if success then st
      else if isRequestScopedNotFoundResultError err then st
      else if \<not> shouldFreezeRuntimeAuthResult err then st
      else let cfg = runtimeLimitConfig a
           in if selectionErrorFreezeSeconds cfg \<le> 0 then st
              else let until = now + dur_mul (selectionErrorFreezeSeconds cfg) second;
                       st = recordSkipLocked ''frozen'' until now (st\<lparr>frozenUntil := until\<rparr>)
                   in if disableStickyOnNextRequest cfg
                      then markStickyBypassForSession stickySessionKey now st else st)"

section \<open>Facts about the operations\<close>

named_theorems limit_defs "the operations of the request-time state"

lemmas [limit_defs] = recordSkipLocked_def clearSkip_def compactRuntimeWindowLocked_def Let_def

lemma skip_simps [simp]:
  "currentConcurrency (recordSkipLocked r u now st) = currentConcurrency st"
  "quotaPreemptFallbackInFlight (recordSkipLocked r u now st) = quotaPreemptFallbackInFlight st"
  "upstreamRateLimitBackoff (recordSkipLocked r u now st) = upstreamRateLimitBackoff st"
  "stickyBypassSessions (recordSkipLocked r u now st) = stickyBypassSessions st"
  "rateWindowCount (recordSkipLocked r u now st) = rateWindowCount st"
  "currentConcurrency (clearSkip st) = currentConcurrency st"
  "quotaPreemptFallbackInFlight (clearSkip st) = quotaPreemptFallbackInFlight st"
  "upstreamRateLimitBackoff (clearSkip st) = upstreamRateLimitBackoff st"
  "stickyBypassSessions (clearSkip st) = stickyBypassSessions st"
  "rateWindowCount (clearSkip st) = rateWindowCount st"
  "rateWindowStart (clearSkip st) = rateWindowStart st"
  by (simp_all add: limit_defs)

lemma compact_simps [simp]:
  "currentConcurrency (compactRuntimeWindowLocked now cfg st) = currentConcurrency st"
  "quotaPreemptFallbackInFlight (compactRuntimeWindowLocked now cfg st) = quotaPreemptFallbackInFlight st"
  "upstreamRateLimitBackoff (compactRuntimeWindowLocked now cfg st) = upstreamRateLimitBackoff st"
  "stickyBypassSessions (compactRuntimeWindowLocked now cfg st) = stickyBypassSessions st"
  "codexCacheAffinityMaxConcurrency (compactRuntimeWindowLocked now cfg st) =
     codexCacheAffinityMaxConcurrency st"
  "codexQuotaSnapshots (compactRuntimeWindowLocked now cfg st) = codexQuotaSnapshots st"
  by (simp_all add: compactRuntimeWindowLocked_def Let_def)

text \<open>The deadlines after a compaction are the active ones.\<close>

lemma compact_deadlines:
  assumes "0 \<le> now"
  shows "frozenUntil (compactRuntimeWindowLocked now cfg st) > now \<longleftrightarrow> frozenUntil st > now"
    and "usageLimitFreezeUntil (compactRuntimeWindowLocked now cfg st) > now \<longleftrightarrow>
      usageLimitFreezeUntil st > now"
    and "quotaPreemptFreezeUntil (compactRuntimeWindowLocked now cfg st) > now \<longleftrightarrow>
      quotaPreemptFreezeUntil st > now"
    and "upstreamRateLimitedUntil (compactRuntimeWindowLocked now cfg st) > now \<longleftrightarrow>
      upstreamRateLimitedUntil st > now"
  using assms by (auto simp: compactRuntimeWindowLocked_def Let_def)

lemma config_nonneg:
  "0 \<le> maxConcurrency (runtimeLimitConfig a)" "0 \<le> rateLimitMaxRequests (runtimeLimitConfig a)"
  "0 < rateLimitWindowSeconds (runtimeLimitConfig a)"
  "0 \<le> selectionErrorFreezeSeconds (runtimeLimitConfig a)"
  by (simp_all add: runtimeLimitConfig_def Let_def)

lemma config_model_simps [simp]:
  "rateLimitMaxRequests (runtimeLimitConfigForModel a model now st) = rateLimitMaxRequests (runtimeLimitConfig a)"
  "rateLimitWindowSeconds (runtimeLimitConfigForModel a model now st) =
     rateLimitWindowSeconds (runtimeLimitConfig a)"
  by (simp_all add: runtimeLimitConfigForModel_def Let_def)

lemma burst_limit_pos:
  "codexBurstConcurrencyLimit a cfg model now tailBurst st = Some (limit, reason) \<Longrightarrow> 1 \<le> limit"
  by (auto simp: codexBurstConcurrencyLimit_def Let_def split: if_splits)

text \<open>
  Freezes. The active freeze is the latest of the four deadlines when that is still to come,
  and the reason names the first deadline that attains it; otherwise there is no freeze and no
  reason.
\<close>

theorem activeFreezeLocked_latest:
  "activeFreezeLocked now st =
     (let deadlines = [(frozenUntil st, ''frozen''),
                       (usageLimitFreezeUntil st, runtimeSkipReasonUsageLimitReached),
                       (quotaPreemptFreezeUntil st, runtimeSkipReasonQuotaPreempt),
                       (upstreamRateLimitedUntil st, runtimeSkipReasonUpstreamRateLimit)];
          latest = fold max (map fst deadlines) (frozenUntil st)
      in if now < latest then (latest, the (map_of deadlines latest)) else (zeroTime, ''''))"
  by (auto simp: activeFreezeLocked_def Let_def max_def)

text \<open>
  C8 (selection agrees with acquisition). On the same state a credential is reported as blocked
  exactly when acquiring a slot on it would be refused; the refusal carries the same retry
  time and leaves the same state behind.
\<close>

theorem blocked_iff_refused:
  "case (runtimeAuthBlockedForModelWithTailBurst auth model now tailBurst st,
         acquireRuntimeSlotForModel auth now model tailBurst st) of
     (((blocked, reason, retryAt), st1), (result, st2)) \<Rightarrow>
       if blocked then (\<exists>msg. result = Inl (msg, retryAt)) \<and> st1 = st2 \<and> reason \<noteq> blockReasonNone
       else (\<exists>s. result = Inr s \<and> \<not> slotReleased s) \<and> reason = blockReasonNone"
proof (cases auth)
  case None
  then show ?thesis
    by (simp add: runtimeAuthBlockedForModelWithTailBurst_def acquireRuntimeSlotForModel_def)
next
  case (Some a)
  define cfg where "cfg = runtimeLimitConfigForModel a model now st"
  define st' where "st' = compactRuntimeWindowLocked now cfg st"
  obtain frozen reason where af: "activeFreezeLocked now st' = (frozen, reason)" by fastforce
  define bp where "bp = runtimeQuotaPreemptFreezeBypassed a now tailBurst st'"
  define burst where "burst = codexBurstConcurrencyLimit a cfg model now tailBurst st'"
  define full where "full = (case burst of Some (limit, _) \<Rightarrow> currentConcurrency st' \<ge> limit | None \<Rightarrow> False)"
  show ?thesis
    unfolding Some runtimeAuthBlockedForModelWithTailBurst_def acquireRuntimeSlotForModel_def Let_def
      option.case cfg_def [symmetric] st'_def [symmetric] af prod.case bp_def [symmetric]
      burst_def [symmetric] full_def [symmetric]
    by auto
qed

text \<open>
  The two outcomes of an acquisition, stated over the compacted state: what it was refused for,
  and the guards that held and the state it left when it was granted.
\<close>

lemma acquire_refused_state:
  assumes "acquireRuntimeSlotForModel auth now model tailBurst st = (Inl e, st')"
  shows "st' = st \<or> (\<exists>cfg reason until limited st1.
      st1 = compactRuntimeWindowLocked now cfg st \<and>
      (st' = recordSkipLocked reason until now st1 \<or>
       st' = recordSkipLocked reason until now (st1\<lparr>rateLimitedUntil := limited\<rparr>)))"
proof (cases auth)
  case None
  with assms show ?thesis by (simp add: acquireRuntimeSlotForModel_def)
next
  case (Some a)
  define cfg where "cfg = runtimeLimitConfigForModel a model now st"
  define stc where "stc = compactRuntimeWindowLocked now cfg st"
  obtain frozen reason where af: "activeFreezeLocked now stc = (frozen, reason)" by fastforce
  define bp where "bp = runtimeQuotaPreemptFreezeBypassed a now tailBurst stc"
  define burst where "burst = codexBurstConcurrencyLimit a cfg model now tailBurst stc"
  define full where "full = (case burst of Some (limit, _) \<Rightarrow> currentConcurrency stc \<ge> limit | None \<Rightarrow> False)"
  define nl where "nl = codexNormalConcurrencyLimit stc (maxConcurrency cfg)
      (tailBurstNormalConcurrencyAffinityBypass a)"
  have "\<exists>reason until limited. st' = recordSkipLocked reason until now stc \<or>
      st' = recordSkipLocked reason until now (stc\<lparr>rateLimitedUntil := limited\<rparr>)"
    using assms
    unfolding Some acquireRuntimeSlotForModel_def Let_def option.case cfg_def [symmetric]
      stc_def [symmetric] af prod.case bp_def [symmetric] burst_def [symmetric] full_def [symmetric]
      nl_def [symmetric]
    by (auto split: if_splits)
  then show ?thesis unfolding stc_def by blast
qed

lemma acquire_granted_state:
  assumes acq: "acquireRuntimeSlotForModel (Some a) now model tailBurst st = (Inr s, st')"
    and cfg: "cfg = runtimeLimitConfigForModel a model now st"
    and stc: "stc = compactRuntimeWindowLocked now cfg st"
  shows "fst (activeFreezeLocked now stc) > now \<longrightarrow>
      runtimeQuotaPreemptFreezeBypassed a now tailBurst stc"
    and "case codexBurstConcurrencyLimit a cfg model now tailBurst stc of
           Some (limit, _) \<Rightarrow> currentConcurrency stc < limit
         | None \<Rightarrow> let limit = codexNormalConcurrencyLimit stc (maxConcurrency cfg)
                                (tailBurstNormalConcurrencyAffinityBypass a)
                   in 0 < limit \<longrightarrow> currentConcurrency stc < limit"
    and "0 < rateLimitMaxRequests cfg \<longrightarrow> rateWindowCount stc < rateLimitMaxRequests cfg"
    and "s = \<lparr>slotFallback = (fst (activeFreezeLocked now stc) > now \<and>
        quotaPreemptFallback a \<and> \<not> tailBurst \<and> tailBurstFallbackMaxConcurrency a \<le> 0),
      slotReleased = False\<rparr>"
    and "\<exists>start count. st' = clearSkip
        (stc\<lparr>currentConcurrency := currentConcurrency stc + 1,
             quotaPreemptFallbackInFlight := quotaPreemptFallbackInFlight stc + (if slotFallback s then 1 else 0),
             rateWindowStart := start, rateWindowCount := count\<rparr>) \<and>
        (if rateWindowStart stc = zeroTime \<or>
            time_sub now (rateWindowStart stc) \<ge> dur_mul (rateLimitWindowSeconds cfg) second
         then start = now \<and> count = 1
         else start = rateWindowStart stc \<and> count = rateWindowCount stc + 1)"
proof -
  obtain frozen reason where af: "activeFreezeLocked now stc = (frozen, reason)" by fastforce
  define bp where "bp = runtimeQuotaPreemptFreezeBypassed a now tailBurst stc"
  define burst where "burst = codexBurstConcurrencyLimit a cfg model now tailBurst stc"
  define full where "full = (case burst of Some (limit, _) \<Rightarrow> currentConcurrency stc \<ge> limit | None \<Rightarrow> False)"
  define nl where "nl = codexNormalConcurrencyLimit stc (maxConcurrency cfg)
      (tailBurstNormalConcurrencyAffinityBypass a)"
  define fb where "fb = (quotaPreemptFallback a \<and> \<not> tailBurst \<and> tailBurstFallbackMaxConcurrency a \<le> 0)"
  define w where "w = dur_mul (rateLimitWindowSeconds cfg) second"
  note acq' = acq [unfolded acquireRuntimeSlotForModel_def Let_def option.case cfg [symmetric]
      stc [symmetric] af prod.case bp_def [symmetric] burst_def [symmetric] full_def [symmetric]
      nl_def [symmetric] fb_def [symmetric] w_def [symmetric]]
  have *: "(frozen > now \<longrightarrow> bp) \<and> \<not> full \<and> \<not> (burst = None \<and> nl > 0 \<and> currentConcurrency stc \<ge> nl) \<and>
      \<not> (rateLimitMaxRequests cfg > 0 \<and> rateWindowCount stc \<ge> rateLimitMaxRequests cfg)"
    using acq' by (auto split: if_splits)
  show "fst (activeFreezeLocked now stc) > now \<longrightarrow> runtimeQuotaPreemptFreezeBypassed a now tailBurst stc"
    and "0 < rateLimitMaxRequests cfg \<longrightarrow> rateWindowCount stc < rateLimitMaxRequests cfg"
    using * by (auto simp: af bp_def)
  show "case codexBurstConcurrencyLimit a cfg model now tailBurst stc of
           Some (limit, _) \<Rightarrow> currentConcurrency stc < limit
         | None \<Rightarrow> let limit = codexNormalConcurrencyLimit stc (maxConcurrency cfg)
                                (tailBurstNormalConcurrencyAffinityBypass a)
                   in 0 < limit \<longrightarrow> currentConcurrency stc < limit"
    using * unfolding Let_def nl_def [symmetric] burst_def [symmetric]
    by (auto simp: full_def split: option.splits)
  define F where "F = (frozen > now \<and> bp \<and> fb)"
  have g: "(Inr s :: (string \<times> gotime) + slot, st') =
     (let st = stc\<lparr>currentConcurrency := currentConcurrency stc + 1\<rparr>;
          st = (if F
                then st\<lparr>quotaPreemptFallbackInFlight := quotaPreemptFallbackInFlight st + 1\<rparr> else st);
          st = (if rateWindowStart st = zeroTime \<or> time_sub now (rateWindowStart st) \<ge> w
                then st\<lparr>rateWindowStart := now, rateWindowCount := 0\<rparr> else st);
          st = st\<lparr>rateWindowCount := rateWindowCount st + 1\<rparr>
      in (Inr \<lparr>slotFallback = F, slotReleased = False\<rparr>, clearSkip st))"
    unfolding acq [symmetric] Let_def acquireRuntimeSlotForModel_def option.case cfg [symmetric]
      stc [symmetric] af prod.case bp_def [symmetric] burst_def [symmetric] full_def [symmetric]
      nl_def [symmetric] fb_def [symmetric] w_def [symmetric] F_def [symmetric]
    using * by (simp only: simp_thms if_False split: if_split) blast
  have "F = (frozen > now \<and> fb)" using * unfolding F_def by blast
  with g show s: "s = \<lparr>slotFallback = (fst (activeFreezeLocked now stc) > now \<and>
        quotaPreemptFallback a \<and> \<not> tailBurst \<and> tailBurstFallbackMaxConcurrency a \<le> 0),
      slotReleased = False\<rparr>"
    by (simp add: Let_def af fb_def)
  from g show "\<exists>start count. st' = clearSkip
        (stc\<lparr>currentConcurrency := currentConcurrency stc + 1,
             quotaPreemptFallbackInFlight := quotaPreemptFallbackInFlight stc + (if slotFallback s then 1 else 0),
             rateWindowStart := start, rateWindowCount := count\<rparr>) \<and>
        (if rateWindowStart stc = zeroTime \<or>
            time_sub now (rateWindowStart stc) \<ge> dur_mul (rateLimitWindowSeconds cfg) second
         then start = now \<and> count = 1
         else start = rateWindowStart stc \<and> count = rateWindowCount stc + 1)"
    unfolding w_def [symmetric]
    by (cases F; cases "rateWindowStart stc = zeroTime \<or> time_sub now (rateWindowStart stc) \<ge> w")
       (simp_all add: Let_def)
qed

text \<open>
  C34 (admission respects every cap). A granted slot raises the concurrency by one, to at most the
  limit of its lane; the window's count goes to at most the configured number of requests, and
  either the window stays and its count grows by one, or a new window opens with count one.
\<close>

theorem acquire_respects_caps:
  assumes "acquireRuntimeSlotForModel (Some a) now model tailBurst st = (Inr s, st')"
    and "cfg = runtimeLimitConfigForModel a model now st"
    and "stc = compactRuntimeWindowLocked now cfg st"
  shows "currentConcurrency st' = currentConcurrency st + 1 \<and>
    (case codexBurstConcurrencyLimit a cfg model now tailBurst stc of
       Some (limit, _) \<Rightarrow> currentConcurrency st' \<le> limit
     | None \<Rightarrow> let limit = codexNormalConcurrencyLimit stc (maxConcurrency cfg)
                            (tailBurstNormalConcurrencyAffinityBypass a)
               in 0 < limit \<longrightarrow> currentConcurrency st' \<le> limit) \<and>
    (0 < rateLimitMaxRequests cfg \<longrightarrow> rateWindowCount st' \<le> rateLimitMaxRequests cfg) \<and>
    (rateWindowStart st' = rateWindowStart stc \<and> rateWindowCount st' = rateWindowCount stc + 1 \<or>
     rateWindowStart st' = now \<and> rateWindowCount st' = 1)"
proof -
  note g = acquire_granted_state [OF assms]
  obtain start count where st': "st' = clearSkip
        (stc\<lparr>currentConcurrency := currentConcurrency stc + 1,
             quotaPreemptFallbackInFlight := quotaPreemptFallbackInFlight stc + (if slotFallback s then 1 else 0),
             rateWindowStart := start, rateWindowCount := count\<rparr>)"
    and w: "if rateWindowStart stc = zeroTime \<or>
            time_sub now (rateWindowStart stc) \<ge> dur_mul (rateLimitWindowSeconds cfg) second
         then start = now \<and> count = 1
         else start = rateWindowStart stc \<and> count = rateWindowCount stc + 1"
    using g(5) by blast
  have "currentConcurrency stc = currentConcurrency st" by (simp add: assms(3))
  then show ?thesis
    using g(2,3) w by (auto simp: st' Let_def split: option.splits if_splits)
qed

section \<open>Upstream rate limits\<close>

lemma doubleCooldown_power:
  "0 < c \<Longrightarrow> min M (doubleCooldown n c) = min M (c * 2 ^ n)" if "M = maximumUpstreamRateLimitBackoff"
proof (induction n arbitrary: c)
  case 0
  then show ?case by simp
next
  case (Suc n)
  show ?case
  proof (cases "c < maximumUpstreamRateLimitBackoff")
    case True
    with Suc.IH [of "c * 2"] Suc.prems show ?thesis by (simp add: mult.assoc)
  next
    case False
    have "c * 1 \<le> c * 2 ^ Suc n"
      using Suc.prems by (intro mult_left_mono one_le_power) auto
    with False that have "M \<le> c * 2 ^ Suc n" by linarith
    moreover have "M \<le> doubleCooldown (Suc n) c" using False that by simp
    ultimately show ?thesis by (simp only: min_absorb1)
  qed
qed

lemma backoff_base_le: "(15 * second :: int) \<le> 15 * second * 2 ^ n"
  using mult_left_mono [of 1 "2 ^ n" "15 * second :: int"] by simp

lemma upstreamCooldown_value:
  assumes "0 \<le> level"
  shows "upstreamCooldown level retryAfter =
    min maximumUpstreamRateLimitBackoff
      (max (15 * second * 2 ^ nat level) (case retryAfter of Some r \<Rightarrow> r | None \<Rightarrow> 0))"
proof -
  have eq: "min maximumUpstreamRateLimitBackoff (doubleCooldown (nat level) defaultUpstreamRateLimitBackoff) =
      min maximumUpstreamRateLimitBackoff (15 * second * 2 ^ nat level)"
    by (rule doubleCooldown_power) simp_all
  obtain P where P: "P = 15 * second * 2 ^ nat level" "15 * second \<le> P"
    using backoff_base_le by blast
  show ?thesis
    using eq P(2) unfolding upstreamCooldown_def Let_def P(1) [symmetric]
    by (cases retryAfter) (auto simp: min_def max_def split: if_splits)
qed

text \<open>
  Progressive upstream backoff. An upstream rate limit outside an active cooldown starts one
  of 15 seconds doubled per level, or the provider's longer retry hint, and at most five minutes;
  the level grows only while the cooldown is below the maximum. A rate limit that arrives during
  a cooldown neither extends it nor raises the level.
\<close>

theorem freezeUpstreamRateLimit_backoff:
  assumes "0 \<le> upstreamRateLimitBackoff st"
    and "cooldown = min maximumUpstreamRateLimitBackoff
      (max (15 * second * 2 ^ nat (upstreamRateLimitBackoff st))
        (case retryAfter of Some r \<Rightarrow> r | None \<Rightarrow> 0))"
  shows "case freezeUpstreamRateLimit now retryAfter st of
    (started, st') \<Rightarrow>
      started = (upstreamRateLimitedUntil st \<le> now) \<and>
      upstreamRateLimitedUntil st' =
        (if started then now + cooldown else upstreamRateLimitedUntil st) \<and>
      upstreamRateLimitBackoff st' = upstreamRateLimitBackoff st +
        (if started \<and> cooldown < maximumUpstreamRateLimitBackoff then 1 else 0) \<and>
      upstreamRateLimitLastSeen st' = max now (upstreamRateLimitLastSeen st) \<and>
      15 * second \<le> cooldown"
proof -
  have "15 * second \<le> cooldown"
    using backoff_base_le [of "nat (upstreamRateLimitBackoff st)"]
    unfolding assms(2) by (intro min.boundedI max.coboundedI1) simp_all
  moreover have "upstreamCooldown (upstreamRateLimitBackoff st) retryAfter = cooldown"
    using upstreamCooldown_value [OF assms(1)] assms(2) by simp
  ultimately show ?thesis
    using assms(1)
    by (auto simp: freezeUpstreamRateLimit_def Let_def recordSkipLocked_def max_def)
qed

lemma upstream_level_bound:
  assumes "0 \<le> upstreamRateLimitBackoff st" "upstreamRateLimitBackoff st \<le> 5"
    and "freezeUpstreamRateLimit now retryAfter st = (started, st')"
  shows "0 \<le> upstreamRateLimitBackoff st' \<and> upstreamRateLimitBackoff st' \<le> 5"
proof -
  let ?c = "min maximumUpstreamRateLimitBackoff
      (max (15 * second * 2 ^ nat (upstreamRateLimitBackoff st))
        (case retryAfter of Some r \<Rightarrow> r | None \<Rightarrow> 0))"
  have f: "upstreamRateLimitBackoff st' = upstreamRateLimitBackoff st +
        (if started \<and> ?c < maximumUpstreamRateLimitBackoff then 1 else 0)"
    using assms(3) upstreamCooldown_value [OF assms(1)] assms(1)
    by (auto simp: freezeUpstreamRateLimit_def Let_def recordSkipLocked_def split: if_splits)
  show ?thesis
  proof (cases "upstreamRateLimitBackoff st = 5")
    case True
    then show ?thesis using f by simp
  next
    case False
    then show ?thesis using f assms by (auto split: if_splits)
  qed
qed

lemma freezeUpstreamRateLimit_backoff_witness:
  "freezeUpstreamRateLimit 7 (Some (20 * second)) (newRuntimeLimits\<lparr>upstreamRateLimitBackoff := 2\<rparr>) =
     (True, snd (freezeUpstreamRateLimit 7 (Some (20 * second))
       (newRuntimeLimits\<lparr>upstreamRateLimitBackoff := 2\<rparr>)))"
  using freezeUpstreamRateLimit_backoff
    [of "newRuntimeLimits\<lparr>upstreamRateLimitBackoff := 2\<rparr>" "60 * second" "Some (20 * second)" 7]
  by (auto simp: newRuntimeLimits_def split: prod.splits)

section \<open>Reset and sticky bypass\<close>

text \<open>What a reset leaves: everything but the requests in flight and the affinity cap.\<close>

lemma clearIf_snd:
  "snd p = s \<Longrightarrow> (\<And>s. \<not> cond s \<Longrightarrow> f s = s) \<Longrightarrow> snd (clearIf cond f p) = f s"
  by (auto simp: clearIf_def)

definition unreported :: "authRuntimeLimits \<Rightarrow> bool \<times> authRuntimeLimits \<Rightarrow> bool" where
  "unreported st p \<longleftrightarrow> fst p \<or> snd p = st"

lemma unreported_start: "unreported st (False, st)"
  by (simp add: unreported_def)

lemma unreported_clearIf: "unreported st p \<Longrightarrow> unreported st (clearIf cond f p)"
  by (auto simp: unreported_def clearIf_def)

lemma clear_idle:
  "frozenUntil s = 0 \<Longrightarrow> s\<lparr>frozenUntil := 0\<rparr> = s"
  "usageLimitFreezeUntil s = 0 \<Longrightarrow> s\<lparr>usageLimitFreezeUntil := 0\<rparr> = s"
  "quotaPreemptFreezeUntil s = 0 \<Longrightarrow> s\<lparr>quotaPreemptFreezeUntil := 0\<rparr> = s"
  "rateLimitedUntil s = 0 \<Longrightarrow> s\<lparr>rateLimitedUntil := 0\<rparr> = s"
  "upstreamRateLimitedUntil s = 0 \<Longrightarrow> upstreamRateLimitBackoff s = 0 \<Longrightarrow> upstreamRateLimitLastSeen s = 0 \<Longrightarrow>
     s\<lparr>upstreamRateLimitedUntil := 0, upstreamRateLimitBackoff := 0, upstreamRateLimitLastSeen := 0\<rparr> = s"
  "rateWindowStart s = 0 \<Longrightarrow> rateWindowCount s = 0 \<Longrightarrow> s\<lparr>rateWindowStart := 0, rateWindowCount := 0\<rparr> = s"
  "\<not> stickyBypassNext s \<Longrightarrow> stickyBypassSessions s = [] \<Longrightarrow>
     s\<lparr>stickyBypassNext := False, stickyBypassSessions := []\<rparr> = s"
  "lastSkipReason s = '''' \<Longrightarrow> lastSkipRecordedAt s = 0 \<Longrightarrow> lastSkipRecoveryTarget s = 0 \<Longrightarrow> clearSkip s = s"
  by (cases s; simp add: clearSkip_def)+

lemma reset_state:
  "snd (resetQuotaRuntimeState st) =
     newRuntimeLimits
       \<lparr>currentConcurrency := currentConcurrency st,
        quotaPreemptFallbackInFlight :=
          (if currentConcurrency st = 0 then 0 else quotaPreemptFallbackInFlight st),
        codexQuotaSnapshots := map_option (\<lambda>_. []) (codexQuotaSnapshots st),
        codexCacheAffinityMaxConcurrency := codexCacheAffinityMaxConcurrency st\<rparr>"
proof -
  let ?s8 = "clearSkip (st\<lparr>frozenUntil := 0, usageLimitFreezeUntil := 0, quotaPreemptFreezeUntil := 0,
      rateLimitedUntil := 0, upstreamRateLimitedUntil := 0, upstreamRateLimitBackoff := 0,
      upstreamRateLimitLastSeen := 0, rateWindowStart := 0, rateWindowCount := 0,
      stickyBypassNext := False, stickyBypassSessions := []\<rparr>)"
  let ?c9 = "\<lambda>st. currentConcurrency st = 0 \<and> quotaPreemptFallbackInFlight st \<noteq> 0"
  let ?f9 = "\<lambda>st. st\<lparr>quotaPreemptFallbackInFlight := 0\<rparr>"
  let ?c10 = "\<lambda>st. codexQuotaSnapshots st \<noteq> None"
  let ?f10 = "\<lambda>st. st\<lparr>codexQuotaSnapshots := Some []\<rparr>"
  obtain p where p: "resetQuotaRuntimeState st = clearIf ?c10 ?f10 (clearIf ?c9 ?f9 p)"
    and s8: "snd p = ?s8"
  proof (rule that, unfold resetQuotaRuntimeState_def Let_def, rule refl)
    show "snd (clearIf (\<lambda>st. lastSkipReason st \<noteq> '''' \<or> lastSkipRecordedAt st \<noteq> zeroTime \<or>
                       lastSkipRecoveryTarget st \<noteq> zeroTime) clearSkip
        (clearIf (\<lambda>st. stickyBypassNext st \<or> length (stickyBypassSessions st) > 0)
                (\<lambda>st. st\<lparr>stickyBypassNext := False, stickyBypassSessions := []\<rparr>)
        (clearIf (\<lambda>st. rateWindowStart st \<noteq> zeroTime \<or> rateWindowCount st \<noteq> 0)
                (\<lambda>st. st\<lparr>rateWindowStart := zeroTime, rateWindowCount := 0\<rparr>)
        (clearIf (\<lambda>st. upstreamRateLimitedUntil st \<noteq> zeroTime \<or> upstreamRateLimitBackoff st \<noteq> 0 \<or>
                       upstreamRateLimitLastSeen st \<noteq> zeroTime)
                (\<lambda>st. st\<lparr>upstreamRateLimitedUntil := zeroTime, upstreamRateLimitBackoff := 0,
                       upstreamRateLimitLastSeen := zeroTime\<rparr>)
        (clearIf (\<lambda>st. rateLimitedUntil st \<noteq> zeroTime) (\<lambda>st. st\<lparr>rateLimitedUntil := zeroTime\<rparr>)
        (clearIf (\<lambda>st. quotaPreemptFreezeUntil st \<noteq> zeroTime)
                (\<lambda>st. st\<lparr>quotaPreemptFreezeUntil := zeroTime\<rparr>)
        (clearIf (\<lambda>st. usageLimitFreezeUntil st \<noteq> zeroTime)
                (\<lambda>st. st\<lparr>usageLimitFreezeUntil := zeroTime\<rparr>)
        (clearIf (\<lambda>st. frozenUntil st \<noteq> zeroTime) (\<lambda>st. st\<lparr>frozenUntil := zeroTime\<rparr>)
          (False, st))))))))) = ?s8"
      by (rule clearIf_snd)+ (auto simp: clear_idle)
  qed
  have "snd (clearIf ?c9 ?f9 p) = ?s8\<lparr>quotaPreemptFallbackInFlight :=
      (if currentConcurrency st = 0 then 0 else quotaPreemptFallbackInFlight st)\<rparr>"
    by (cases st) (simp add: clearIf_def s8 clearSkip_def)
  then have "snd (resetQuotaRuntimeState st) = ?s8\<lparr>quotaPreemptFallbackInFlight :=
      (if currentConcurrency st = 0 then 0 else quotaPreemptFallbackInFlight st),
      codexQuotaSnapshots := map_option (\<lambda>_. []) (codexQuotaSnapshots st)\<rparr>"
    unfolding p by (cases st; cases "codexQuotaSnapshots st") (simp_all add: clearIf_def clearSkip_def)
  then show ?thesis by (cases st) (simp add: newRuntimeLimits_def clearSkip_def)
qed

lemma reset_unchanged: "\<not> fst (resetQuotaRuntimeState st) \<Longrightarrow> snd (resetQuotaRuntimeState st) = st"
proof -
  have "unreported st (resetQuotaRuntimeState st)"
    unfolding resetQuotaRuntimeState_def Let_def
    by (intro unreported_clearIf unreported_start)
  then show "\<not> fst (resetQuotaRuntimeState st) \<Longrightarrow> snd (resetQuotaRuntimeState st) = st"
    by (simp add: unreported_def)
qed
lemma newRuntimeLimits_simps [simp]:
  "frozenUntil newRuntimeLimits = zeroTime" "usageLimitFreezeUntil newRuntimeLimits = zeroTime"
  "quotaPreemptFreezeUntil newRuntimeLimits = zeroTime" "rateLimitedUntil newRuntimeLimits = zeroTime"
  "upstreamRateLimitedUntil newRuntimeLimits = zeroTime" "rateWindowStart newRuntimeLimits = zeroTime"
  "rateWindowCount newRuntimeLimits = 0" "currentConcurrency newRuntimeLimits = 0"
  "quotaPreemptFallbackInFlight newRuntimeLimits = 0" "upstreamRateLimitBackoff newRuntimeLimits = 0"
  "stickyBypassSessions newRuntimeLimits = []" "codexCacheAffinityMaxConcurrency newRuntimeLimits = 0"
  by (simp_all add: newRuntimeLimits_def)

lemma idle_acquire:
  assumes idle: "currentConcurrency st = 0" "rateWindowStart st = 0"
    "frozenUntil st = 0" "usageLimitFreezeUntil st = 0" "quotaPreemptFreezeUntil st = 0"
    "upstreamRateLimitedUntil st = 0" and "0 \<le> now"
  shows "\<exists>s st'. acquireRuntimeSlotForModel (Some a) now model tailBurst st = (Inr s, st') \<and>
    currentConcurrency st' = 1"
proof -
  define cfg where "cfg = runtimeLimitConfigForModel a model now st"
  define stc where "stc = compactRuntimeWindowLocked now cfg st"
  have stc: "currentConcurrency stc = 0" "rateWindowCount stc \<le> 0"
    "frozenUntil stc = 0" "usageLimitFreezeUntil stc = 0" "quotaPreemptFreezeUntil stc = 0"
    "upstreamRateLimitedUntil stc = 0"
    using idle by (simp_all add: stc_def compactRuntimeWindowLocked_def Let_def)
  have af: "activeFreezeLocked now stc = (zeroTime, '''')"
    using assms(7) by (simp add: activeFreezeLocked_def stc Let_def)
  have burst: "\<not> (case codexBurstConcurrencyLimit a cfg model now tailBurst stc of
      Some (limit, _) \<Rightarrow> currentConcurrency stc \<ge> limit | None \<Rightarrow> False)"
    using burst_limit_pos [of a cfg model now tailBurst stc] by (auto simp: stc split: option.splits)
  have "\<exists>s st'. acquireRuntimeSlotForModel (Some a) now model tailBurst st = (Inr s, st')"
    unfolding acquireRuntimeSlotForModel_def option.case Let_def cfg_def [symmetric] stc_def [symmetric]
      af prod.case
    using burst assms(7) stc(1,2) by auto
  then obtain s st' where g: "acquireRuntimeSlotForModel (Some a) now model tailBurst st = (Inr s, st')"
    by blast
  from acquire_granted_state(5) [OF g cfg_def stc_def] have "currentConcurrency st' = 1"
    by (auto simp: stc)
  with g show ?thesis by blast
qed

text \<open>
  A reset frees the credential. After a quota reset a credential without requests in flight
  grants the next slot, whatever froze or throttled it before, for every model and lane.
\<close>

theorem reset_then_acquire:
  assumes "currentConcurrency st = 0" and "0 \<le> now"
  shows "\<exists>s st'. acquireRuntimeSlotForModel (Some a) now model tailBurst
      (snd (resetQuotaRuntimeState st)) = (Inr s, st') \<and> currentConcurrency st' = 1"
  by (rule idle_acquire) (simp_all add: assms reset_state)

lemma reset_then_acquire_witness:
  "\<exists>s st'. acquireRuntimeSlotForModel (Some (exampleAuth ''a'' [])) 5 ''m'' False
      (snd (resetQuotaRuntimeState (newRuntimeLimits\<lparr>frozenUntil := 100\<rparr>))) = (Inr s, st') \<and>
    currentConcurrency st' = 1"
  by (rule reset_then_acquire) simp_all
text \<open>
  Sticky bypass. A session marked for bypass takes it exactly once, at any time before the
  hour is over.
\<close>

theorem sticky_bypass_once:
  assumes "trim_space key \<noteq> ''''" and "gomap_ok (stickyBypassSessions st)"
    and "now < later" "later < now + runtimeStickyBypassTTL" and "\<not> stickyBypassNext st"
  shows "case consumeStickyBypass key later (markStickyBypassForSession key now st) of
    (first, st1) \<Rightarrow> first \<and> \<not> fst (consumeStickyBypass key later st1) \<and>
      gomap_ok (stickyBypassSessions st1)"
proof -
  let ?k = "trim_space key"
  define m where "m = filter (\<lambda>(k, until). \<not> (k = '''' \<or> (until \<noteq> zeroTime \<and> \<not> until > now)))
      (stickyBypassSessions st)"
  define m1 where "m1 = gput ?k (now + runtimeStickyBypassTTL) m"
  define m2 where "m2 = filter (\<lambda>(k, until). \<not> (k = '''' \<or> (until \<noteq> zeroTime \<and> \<not> until > later))) m1"
  have ok: "gomap_ok m" "gomap_ok m1" "gomap_ok m2"
    using assms(2) by (simp_all add: m_def m1_def m2_def)
  have look: "glookup m2 ?k = Some (now + runtimeStickyBypassTTL)"
    using assms ok by (simp add: m2_def glookup_filter m1_def glookup_put)
  have del: "glookup (filter Q (gdel ?k m2)) ?k = None" for Q
  proof -
    have "?k \<notin> fst ` set (gdel ?k m2)" by (metis delete_conv fun_upd_same glookup_in_keys)
    then have "?k \<notin> fst ` set (filter Q (gdel ?k m2))" by auto
    then show ?thesis by (metis glookup_in_keys)
  qed
  have prune: "pruneStickyBypassSessionsLocked later (st\<lparr>stickyBypassSessions := m1\<rparr>) =
      st\<lparr>stickyBypassSessions := m2\<rparr>"
    by (simp add: pruneStickyBypassSessionsLocked_def m2_def)
  have marked: "markStickyBypassForSession key now st = st\<lparr>stickyBypassSessions := m1\<rparr>"
    using assms(1) by (simp add: markStickyBypassForSession_def pruneStickyBypassSessionsLocked_def
        Let_def m1_def m_def)
  have first: "consumeStickyBypass key later (st\<lparr>stickyBypassSessions := m1\<rparr>) =
      (True, st\<lparr>stickyBypassSessions := gdel ?k m2\<rparr>)"
    using assms(1,3,4) look by (simp add: consumeStickyBypass_def Let_def prune)
  have "\<not> fst (consumeStickyBypass key later (st\<lparr>stickyBypassSessions := gdel ?k m2\<rparr>))"
    using assms(1,5) del
    by (simp add: consumeStickyBypass_def Let_def pruneStickyBypassSessionsLocked_def)
  then show ?thesis using ok by (simp add: marked first)
qed

lemma sticky_bypass_once_witness:
  "fst (consumeStickyBypass '' s1 '' 20 (markStickyBypassForSession '' s1 '' 10 newRuntimeLimits))"
proof -
  have t: "trim_space '' s1 '' \<noteq> ''''"
    by (simp add: trim_space_def is_space_def code_of_def)
  show ?thesis
    using sticky_bypass_once [OF t, of newRuntimeLimits 10 20]
    by (simp add: newRuntimeLimits_def split: prod.splits)
qed

lemma acquire_respects_caps_witness:
  "\<exists>st'. currentConcurrency st' = 1 \<and>
     snd (acquireRuntimeSlotForModel (Some (exampleAuth ''a'' [(''max_concurrency'', GInt KInt 2)]))
       5 ''m'' False newRuntimeLimits) = st'"
proof -
  let ?a = "exampleAuth ''a'' [(''max_concurrency'', GInt KInt 2)]"
  obtain s st' where "acquireRuntimeSlotForModel (Some ?a) 5 ''m'' False newRuntimeLimits = (Inr s, st')"
    using idle_acquire [of newRuntimeLimits 5 ?a "''m''" False] by auto
  from acquire_respects_caps [OF this refl refl] this show ?thesis by simp
qed

end
