(* ===== verification/RuntimeSlots.thy ===== *)
theory RuntimeSlots
  imports RuntimeLimits
begin

text \<open>
  One credential and the requests on it as a transition system: the request-time state of
  \<open>runtime_limits.go\<close> and the slots handed out so far. Requests acquire and release slots at any
  times and in any order, with any configuration of the credential, while the control plane and
  the result handling run every other operation of the state.
\<close>

record slot_system =
  limits :: authRuntimeLimits
  slots :: "slot list"

text \<open>The operations other than taking and returning a slot.\<close>

inductive limit_op :: "authRuntimeLimits \<Rightarrow> authRuntimeLimits \<Rightarrow> bool" where
  check: "limit_op st (snd (runtimeAuthBlockedForModelWithTailBurst auth model now tailBurst st))"
| snapshot: "limit_op st (snd (runtimeLimitSnapshot a now st))"
| has_reset: "limit_op st (snd (hasQuotaResetRuntimeState a now st))"
| reset: "limit_op st (snd (resetQuotaRuntimeState st))"
| set_affinity: "limit_op st (setCodexCacheAffinityMaxConcurrency limit st)"
| set_quota: "limit_op st (snd (setCodexQuotaSnapshot model sample st))"
| consume_sticky: "limit_op st (snd (consumeStickyBypass key now st))"
| mark_sticky: "limit_op st (markStickyBypassForSession key now st)"
| upstream_freeze: "limit_op st (snd (freezeUpstreamRateLimit now retryAfter st))"
| upstream_success: "limit_op st (observeUpstreamRateLimitSuccess now st)"
| clear_transient: "limit_op st (clearTransientRateLimitRecovery a now st)"
| fallback_state: "limit_op st (snd (runtimeQuotaPreemptFallbackState a now st))"
| result: "limit_op st (maybeFreezeRuntimeResult a success err now key st)"
| usage_freeze: "limit_op st (snd (freezeUsageLimit now retryAfter st))"
| preempt: "limit_op st (updateQuotaPreempt now until active st)"

inductive slot_step :: "slot_system \<Rightarrow> slot_system \<Rightarrow> bool" where
  granted:
    "acquireRuntimeSlotForModel auth now model tailBurst (limits sys) = (Inr s, st') \<Longrightarrow>
     slot_step sys \<lparr>limits = st', slots = slots sys @ [s]\<rparr>"
| refused:
    "acquireRuntimeSlotForModel auth now model tailBurst (limits sys) = (Inl e, st') \<Longrightarrow>
     slot_step sys (sys\<lparr>limits := st'\<rparr>)"
| release:
    "i < length (slots sys) \<Longrightarrow> releaseSlot (slots sys ! i) (limits sys) = (s', st') \<Longrightarrow>
     slot_step sys \<lparr>limits = st', slots = (slots sys)[i := s']\<rparr>"
| other: "limit_op (limits sys) st' \<Longrightarrow> slot_step sys (sys\<lparr>limits := st'\<rparr>)"

inductive_cases slot_stepE: "slot_step sys sys'"

definition slot_init :: "slot_system \<Rightarrow> bool" where
  "slot_init sys \<longleftrightarrow> sys = \<lparr>limits = newRuntimeLimits, slots = []\<rparr>"

section \<open>The invariant\<close>

abbreviation held :: "slot list \<Rightarrow> nat" where
  "held ss \<equiv> length (filter (\<lambda>s. \<not> slotReleased s) ss)"

abbreviation held_fallback :: "slot list \<Rightarrow> nat" where
  "held_fallback ss \<equiv> length (filter (\<lambda>s. \<not> slotReleased s \<and> slotFallback s) ss)"

definition slot_inv :: "slot_system \<Rightarrow> bool" where
  "slot_inv sys \<longleftrightarrow>
     currentConcurrency (limits sys) = int (held (slots sys)) \<and>
     quotaPreemptFallbackInFlight (limits sys) = int (held_fallback (slots sys)) \<and>
     held_fallback (slots sys) \<le> 1 \<and>
     0 \<le> upstreamRateLimitBackoff (limits sys) \<and> upstreamRateLimitBackoff (limits sys) \<le> 5 \<and>
     gomap_ok (stickyBypassSessions (limits sys))"

text \<open>What the other operations keep.\<close>

definition keeps_slots :: "authRuntimeLimits \<Rightarrow> authRuntimeLimits \<Rightarrow> bool" where
  "keeps_slots st st' \<longleftrightarrow>
     currentConcurrency st' = currentConcurrency st \<and>
     (quotaPreemptFallbackInFlight st' = quotaPreemptFallbackInFlight st \<or>
      quotaPreemptFallbackInFlight st' = 0 \<and> currentConcurrency st = 0) \<and>
     (0 \<le> upstreamRateLimitBackoff st \<and> upstreamRateLimitBackoff st \<le> 5 \<longrightarrow>
      0 \<le> upstreamRateLimitBackoff st' \<and> upstreamRateLimitBackoff st' \<le> 5) \<and>
     (gomap_ok (stickyBypassSessions st) \<longrightarrow> gomap_ok (stickyBypassSessions st'))"

lemma keeps_refl [simp]: "keeps_slots st st"
  by (simp add: keeps_slots_def)

lemma keeps_compact [simp]:
  "keeps_slots st (compactRuntimeWindowLocked now cfg st)"
  by (simp add: keeps_slots_def)

lemma keeps_skip [simp]: "keeps_slots st (recordSkipLocked r u now st') = keeps_slots st st'"
  by (simp add: keeps_slots_def)

lemma keeps_clearSkip [simp]: "keeps_slots st (clearSkip st') = keeps_slots st st'"
  by (simp add: keeps_slots_def)

lemma keeps_update [simp]:
  "keeps_slots st (st'\<lparr>frozenUntil := x\<rparr>) = keeps_slots st st'"
  "keeps_slots st (st'\<lparr>usageLimitFreezeUntil := x\<rparr>) = keeps_slots st st'"
  "keeps_slots st (st'\<lparr>quotaPreemptFreezeUntil := x\<rparr>) = keeps_slots st st'"
  "keeps_slots st (st'\<lparr>rateLimitedUntil := x\<rparr>) = keeps_slots st st'"
  "keeps_slots st (st'\<lparr>codexQuotaSnapshots := q\<rparr>) = keeps_slots st st'"
  "keeps_slots st (st'\<lparr>codexCacheAffinityMaxConcurrency := x\<rparr>) = keeps_slots st st'"
  "keeps_slots (st\<lparr>frozenUntil := x\<rparr>) st' = keeps_slots st st'"
  by (simp_all add: keeps_slots_def)

lemma keeps_trans: "keeps_slots a b \<Longrightarrow> keeps_slots b c \<Longrightarrow> keeps_slots a c"
  by (auto simp: keeps_slots_def)

lemma keeps_blocked: "keeps_slots st (snd (runtimeAuthBlockedForModelWithTailBurst auth model now tb st))"
proof -
  obtain b r t st1 where c: "runtimeAuthBlockedForModelWithTailBurst auth model now tb st = ((b, r, t), st1)"
    by (metis prod.collapse)
  obtain res st2 where q: "acquireRuntimeSlotForModel auth now model tb st = (res, st2)" by fastforce
  show ?thesis
  proof (cases b)
    case True
    then obtain e where "acquireRuntimeSlotForModel auth now model tb st = (Inl e, st1)"
      using blocked_iff_refused [of auth model now tb st] c q by auto
    from acquire_refused_state [OF this] show ?thesis by (auto simp: c)
  next
    case False
    then have "st1 = compactRuntimeWindowLocked now
        (runtimeLimitConfigForModel (the auth) model now st) st"
      using c by (auto simp: runtimeAuthBlockedForModelWithTailBurst_def Let_def
          split: option.splits prod.splits if_splits)
    then show ?thesis by (simp add: c)
  qed
qed

lemma keeps_prune: "keeps_slots st (pruneStickyBypassSessionsLocked now st)"
  by (simp add: keeps_slots_def pruneStickyBypassSessionsLocked_def)

lemma keeps_mark: "keeps_slots st (markStickyBypassForSession key now st)"
  by (simp add: keeps_slots_def markStickyBypassForSession_def Let_def pruneStickyBypassSessionsLocked_def)

lemma keeps_consume: "keeps_slots st (snd (consumeStickyBypass key now st))"
  by (auto simp: keeps_slots_def consumeStickyBypass_def Let_def pruneStickyBypassSessionsLocked_def
      split: option.splits)

lemma keeps_reset: "keeps_slots st (snd (resetQuotaRuntimeState st))"
  by (simp add: keeps_slots_def reset_state)

lemma keeps_upstream: "keeps_slots st (snd (freezeUpstreamRateLimit now retryAfter st))"
proof -
  obtain started st' where f: "freezeUpstreamRateLimit now retryAfter st = (started, st')" by fastforce
  have "currentConcurrency st' = currentConcurrency st"
    "quotaPreemptFallbackInFlight st' = quotaPreemptFallbackInFlight st"
    "stickyBypassSessions st' = stickyBypassSessions st"
    using f by (auto simp: freezeUpstreamRateLimit_def Let_def split: if_splits)
  with upstream_level_bound [OF _ _ f] show ?thesis by (simp add: keeps_slots_def f)
qed

lemma keeps_result: "keeps_slots st (maybeFreezeRuntimeResult a success err now key st)"
proof -
  have "keeps_slots st (markStickyBypassForSession key now
      (recordSkipLocked r u now (st\<lparr>frozenUntil := x\<rparr>)))" for r u x
    by (rule keeps_trans [OF _ keeps_mark]) simp
  then show ?thesis by (simp add: maybeFreezeRuntimeResult_def Let_def)
qed

lemma keeps_clear_transient: "keeps_slots st (clearTransientRateLimitRecovery a now st)"
proof -
  have "keeps_slots st (compactRuntimeWindowLocked now cfg (st\<lparr>frozenUntil := 0\<rparr>))" for cfg
    by (rule keeps_trans [OF _ keeps_compact]) simp
  then show ?thesis by (simp add: clearTransientRateLimitRecovery_def Let_def)
qed

lemma limit_op_keeps: "limit_op st st' \<Longrightarrow> keeps_slots st st'"
proof (induction rule: limit_op.induct)
  case (preempt st now until active)
  show ?case by (simp add: updateQuotaPreempt_def Let_def split: prod.splits)
next
  case (upstream_success st now)
  show ?case by (simp add: observeUpstreamRateLimitSuccess_def Let_def keeps_slots_def)
qed (simp_all add: keeps_blocked keeps_mark keeps_consume keeps_reset keeps_upstream keeps_result
    keeps_clear_transient runtimeLimitSnapshot_def hasQuotaResetRuntimeState_def Let_def
    setCodexCacheAffinityMaxConcurrency_def setCodexQuotaSnapshot_def
    runtimeQuotaPreemptFallbackState_def freezeUsageLimit_def split: prod.splits option.splits)

lemma inv_keeps: "slot_inv sys \<Longrightarrow> keeps_slots (limits sys) st' \<Longrightarrow> slot_inv (sys\<lparr>limits := st'\<rparr>)"
proof -
  assume inv: "slot_inv sys" and keeps: "keeps_slots (limits sys) st'"
  have "held_fallback ss \<le> held ss" for ss by (induction ss) auto
  then have "currentConcurrency (limits sys) = 0 \<Longrightarrow> held_fallback (slots sys) = 0"
    using inv by (auto simp: slot_inv_def) (metis le_zero_eq length_0_conv list.size(3))
  with inv keeps show ?thesis by (auto simp: slot_inv_def keeps_slots_def)
qed

lemma held_update:
  assumes "i < length ss" "\<not> slotReleased (ss ! i)"
  shows "held ss = Suc (held (ss[i := (ss ! i)\<lparr>slotReleased := True\<rparr>]))"
    and "held_fallback ss = held_fallback (ss[i := (ss ! i)\<lparr>slotReleased := True\<rparr>]) +
      (if slotFallback (ss ! i) then 1 else 0)"
  using assms by (induction ss arbitrary: i) (auto split: nat.splits simp: less_Suc_eq_0_disj)

lemma inv_release:
  assumes "slot_inv sys" "i < length (slots sys)" "releaseSlot (slots sys ! i) (limits sys) = (s', st')"
  shows "slot_inv \<lparr>limits = st', slots = (slots sys)[i := s']\<rparr>"
proof (cases "slotReleased (slots sys ! i)")
  case True
  with assms have "s' = slots sys ! i" "st' = limits sys" by (simp_all add: releaseSlot_def)
  with assms show ?thesis by (simp add: slot_inv_def)
next
  case False
  note h = held_update [OF assms(2) False]
  have s': "s' = (slots sys ! i)\<lparr>slotReleased := True\<rparr>"
    using assms(3) False by (auto simp: releaseSlot_def Let_def)
  define ss' where "ss' = (slots sys)[i := s']"
  note h' = h [folded s', folded ss'_def]
  have pos: "0 < currentConcurrency (limits sys)"
    "slotFallback (slots sys ! i) \<Longrightarrow> 0 < quotaPreemptFallbackInFlight (limits sys)"
    using assms(1) h' by (auto simp: slot_inv_def)
  have c: "currentConcurrency st' = currentConcurrency (limits sys) - 1"
    using assms(3) False pos by (auto simp: releaseSlot_def Let_def)
  have f: "quotaPreemptFallbackInFlight st' =
      quotaPreemptFallbackInFlight (limits sys) - (if slotFallback (slots sys ! i) then 1 else 0)"
    using assms(3) False pos by (auto simp: releaseSlot_def Let_def)
  have k: "upstreamRateLimitBackoff st' = upstreamRateLimitBackoff (limits sys)"
    "stickyBypassSessions st' = stickyBypassSessions (limits sys)"
    using assms(3) False by (auto simp: releaseSlot_def Let_def)
  show ?thesis
    using assms(1) h' c f k unfolding ss'_def [symmetric] by (auto simp: slot_inv_def split: if_splits)
qed

lemma inv_granted:
  assumes inv: "slot_inv sys"
    and acq: "acquireRuntimeSlotForModel auth now model tailBurst (limits sys) = (Inr s, st')"
  shows "slot_inv \<lparr>limits = st', slots = slots sys @ [s]\<rparr>"
proof -
  obtain a where auth: "auth = Some a"
    using acq by (cases auth) (auto simp: acquireRuntimeSlotForModel_def)
  define cfg where "cfg = runtimeLimitConfigForModel a model now (limits sys)"
  define stc where "stc = compactRuntimeWindowLocked now cfg (limits sys)"
  note g = acquire_granted_state [OF acq [unfolded auth] cfg_def stc_def]
  obtain start count where st': "st' = clearSkip
        (stc\<lparr>currentConcurrency := currentConcurrency stc + 1,
             quotaPreemptFallbackInFlight := quotaPreemptFallbackInFlight stc + (if slotFallback s then 1 else 0),
             rateWindowStart := start, rateWindowCount := count\<rparr>)"
    using g(5) by blast
  have released: "\<not> slotReleased s" using g(4) by simp
  have "slotFallback s \<Longrightarrow> quotaPreemptFallbackInFlight (limits sys) = 0"
    using g(1,4) by (auto simp: runtimeQuotaPreemptFreezeBypassed_def stc_def split: if_splits)
  with inv released show ?thesis by (auto simp: slot_inv_def st' stc_def)
qed

lemma slot_inv_step: "slot_inv sys \<Longrightarrow> slot_step sys sys' \<Longrightarrow> slot_inv sys'"
proof (erule slot_stepE)
  fix auth now model tailBurst e st'
  assume "slot_inv sys" "sys' = sys\<lparr>limits := st'\<rparr>"
    "acquireRuntimeSlotForModel auth now model tailBurst (limits sys) = (Inl e, st')"
  moreover from acquire_refused_state [OF this(3)] have "keeps_slots (limits sys) st'" by auto
  ultimately show ?thesis by (simp add: inv_keeps)
qed (auto intro: inv_granted inv_release inv_keeps limit_op_keeps)

lemma slot_inv_init: "slot_init sys \<Longrightarrow> slot_inv sys"
  by (simp add: slot_init_def slot_inv_def)

interpretation slots: invariant_system slot_init slot_step slot_inv
  by (rule invariant_system.intro) (rule slot_inv_init, assumption, rule slot_inv_step)

text \<open>
  C2 (slot accounting). In every reachable state, whatever interleaving of acquisitions, releases
  (repeated ones included), resets, freezes and results led there, the concurrency counter is the
  number of slots still held, the fallback counter the number of fallback slots still held, and
  at most one fallback slot is held; the backoff level stays within 0 and 5.
\<close>

theorem slot_accounting:
  assumes "reachable slot_init slot_step sys"
  shows "currentConcurrency (limits sys) = int (held (slots sys)) \<and>
    quotaPreemptFallbackInFlight (limits sys) = int (held_fallback (slots sys)) \<and>
    quotaPreemptFallbackInFlight (limits sys) \<le> 1 \<and>
    upstreamRateLimitBackoff (limits sys) \<in> {0..5}"
  using slots.reachable_inv [OF assms] by (simp add: slot_inv_def)

lemma slot_accounting_witness:
  "\<exists>sys :: slot_system. length (slots sys) = 1 \<and> quotaPreemptFallbackInFlight (limits sys) \<le> 1"
proof -
  let ?init = "\<lparr>limits = newRuntimeLimits, slots = []\<rparr>"
  obtain s st' where acq:
    "acquireRuntimeSlotForModel (Some (exampleAuth ''a'' [])) 5 ''m'' False (limits ?init) = (Inr s, st')"
    using idle_acquire [of newRuntimeLimits 5 "exampleAuth ''a'' []" "''m''" False] by auto
  have "reachable slot_init slot_step \<lparr>limits = st', slots = slots ?init @ [s]\<rparr>"
  proof (rule reachable_step)
    show "reachable slot_init slot_step ?init" by (rule reachable_init) (simp add: slot_init_def)
    show "slot_step ?init \<lparr>limits = st', slots = slots ?init @ [s]\<rparr>" by (rule granted [OF acq])
  qed
  from slot_accounting [OF this] show ?thesis
    by (intro exI [of _ "\<lparr>limits = st', slots = slots ?init @ [s]\<rparr>"]) simp_all
qed

end
