(* ===== verification/Availability.thy ===== *)
theory Availability
  imports RuntimeLimits
begin

text \<open>
  The availability rules of \<open>sdk/cliproxy/auth/selector.go\<close>: which credentials may serve a model
  now, and the candidate lists the selectors choose from.

  The checks also touch the request-time state of the credentials they look at (they close
  expired windows and record why a credential was skipped). That state is shared by all copies
  of a credential, so it is an environment from credential ids to states, passed along in the
  order the code visits the credentials. A candidate list may hold nil entries, hence options;
  the lists the checks return hold none.
\<close>

type_synonym limits_env = "string \<Rightarrow> authRuntimeLimits"

section \<open>One credential\<close>

definition availabilityBlock ::
  "bool \<Rightarrow> bool \<Rightarrow> gotime \<Rightarrow> gotime \<Rightarrow> gotime \<Rightarrow> bool \<times> blockReason \<times> gotime" where
  "availabilityBlock unavailable quotaExceeded nextRetryAfter nextRecoverAt now =
     (if \<not> unavailable \<and> \<not> quotaExceeded then (False, blockReasonNone, zeroTime)
      else let hasRecoveryTime = (nextRetryAfter \<noteq> zeroTime \<or> nextRecoverAt \<noteq> zeroTime);
               pick = (\<lambda>n candidate.
                 if candidate > now \<and> (n = zeroTime \<or> candidate > n) then candidate else n);
               upcoming = pick (pick zeroTime nextRetryAfter) nextRecoverAt
           in if upcoming \<noteq> zeroTime
              then (if quotaExceeded then (True, blockReasonCooldown, upcoming)
                    else (True, blockReasonOther, upcoming))
              else if hasRecoveryTime then (False, blockReasonNone, zeroTime)
              else (True, blockReasonOther, zeroTime))"

text \<open>The loop over the per-model states, with what it has seen so far.\<close>

fun modelStatesBlock ::
  "string \<Rightarrow> gotime \<Rightarrow> (string, ModelState option) gomap \<Rightarrow>
     bool \<Rightarrow> bool \<Rightarrow> blockReason \<Rightarrow> gotime \<Rightarrow> bool \<times> blockReason \<times> gotime" where
  "modelStatesBlock modelKey now [] matched blocked blockedReason nextRetry =
     (if matched then (blocked, blockedReason, nextRetry) else (False, blockReasonNone, zeroTime))"
| "modelStatesBlock modelKey now ((stateModel, state) # rest) matched blocked blockedReason nextRetry =
     (case state of
        None \<Rightarrow> modelStatesBlock modelKey now rest matched blocked blockedReason nextRetry
      | Some st \<Rightarrow>
          if canonicalModelKey stateModel \<noteq> modelKey
          then modelStatesBlock modelKey now rest matched blocked blockedReason nextRetry
          else if msStatus st = StatusDisabled then (True, blockReasonDisabled, zeroTime)
          else let (stateBlocked, reason, upcoming) =
                     availabilityBlock (msUnavailable st) (Exceeded (msQuota st))
                       (msNextRetryAfter st) (NextRecoverAt (msQuota st)) now
               in if \<not> stateBlocked
                  then modelStatesBlock modelKey now rest True blocked blockedReason nextRetry
                  else if upcoming = zeroTime then (True, reason, zeroTime)
                  else if \<not> blocked \<or> upcoming > nextRetry \<or>
                          (upcoming = nextRetry \<and> reason = blockReasonCooldown)
                  then modelStatesBlock modelKey now rest True True reason upcoming
                  else modelStatesBlock modelKey now rest True blocked blockedReason nextRetry)"

definition authModelAvailabilityBlock ::
  "Auth option \<Rightarrow> string \<Rightarrow> gotime \<Rightarrow> bool \<times> blockReason \<times> gotime" where
  "authModelAvailabilityBlock auth model now =
     (case auth of
        None \<Rightarrow> (True, blockReasonOther, zeroTime)
      | Some a \<Rightarrow>
          if model \<noteq> '''' \<and> length (ModelStates a) > 0
          then modelStatesBlock (canonicalModelKey model) now (ModelStates a)
                 False False blockReasonNone zeroTime
          else availabilityBlock (Unavailable a) (Exceeded (Quota a)) (NextRetryAfter a)
                 (NextRecoverAt (Quota a)) now)"

definition isAuthBlockedForModelWithTailBurst ::
  "Auth option \<Rightarrow> string \<Rightarrow> gotime \<Rightarrow> bool \<Rightarrow> limits_env \<Rightarrow>
     (bool \<times> blockReason \<times> gotime) \<times> limits_env" where
  "isAuthBlockedForModelWithTailBurst auth model now tailBurst env =
     (case auth of
        None \<Rightarrow> ((True, blockReasonOther, zeroTime), env)
      | Some a \<Rightarrow>
          if Disabled a \<or> authStatus a = StatusDisabled then ((True, blockReasonDisabled, zeroTime), env)
          else if IsAuthLifecycleBlocking auth then ((True, blockReasonOther, NextRetryAfter a), env)
          else if runtimeAvailable a = Some False then ((True, blockReasonOther, zeroTime), env)
          else let ((blocked, reason, upcoming), st) =
                     runtimeAuthBlockedForModelWithTailBurst auth model now tailBurst (env (ID a));
                   env' = env(ID a := st)
               in if blocked then ((True, reason, upcoming), env')
                  else (authModelAvailabilityBlock auth model now, env'))"

definition isAuthBlockedForModel ::
  "Auth option \<Rightarrow> string \<Rightarrow> gotime \<Rightarrow> limits_env \<Rightarrow> (bool \<times> blockReason \<times> gotime) \<times> limits_env" where
  "isAuthBlockedForModel auth model now env = isAuthBlockedForModelWithTailBurst auth model now False env"

section \<open>Candidate lists\<close>

text \<open>
  The buckets map a priority to its credentials in the order they were seen. The accumulator is
  the buckets, the number of cooling credentials and their earliest retry time.
\<close>

type_synonym priority_buckets = "(int, Auth list) gomap"

fun collectLoop ::
  "Auth option list \<Rightarrow> string \<Rightarrow> gotime \<Rightarrow> priority_buckets \<Rightarrow> int \<Rightarrow> gotime \<Rightarrow> limits_env \<Rightarrow>
     (priority_buckets \<times> int \<times> gotime) \<times> limits_env" where
  "collectLoop [] model now available cooldownCount earliest env =
     ((available, cooldownCount, earliest), env)"
| "collectLoop (candidate # rest) model now available cooldownCount earliest env =
     (let ((blocked, reason, upcoming), env') = isAuthBlockedForModel candidate model now env
      in if \<not> blocked
         then let priority = authPriority candidate;
                  bucket = (case glookup available priority of None \<Rightarrow> [] | Some b \<Rightarrow> b)
              in collectLoop rest model now (gput priority (bucket @ [the candidate]) available)
                   cooldownCount earliest env'
         else if reason = blockReasonCooldown
         then collectLoop rest model now available (cooldownCount + 1)
                (if upcoming \<noteq> zeroTime \<and> (earliest = zeroTime \<or> upcoming < earliest)
                 then upcoming else earliest) env'
         else collectLoop rest model now available cooldownCount earliest env')"

definition collectAvailableByPriority ::
  "Auth option list \<Rightarrow> string \<Rightarrow> gotime \<Rightarrow> limits_env \<Rightarrow>
     (priority_buckets \<times> int \<times> gotime) \<times> limits_env" where
  "collectAvailableByPriority auths model now env = collectLoop auths model now [] 0 zeroTime env"

text \<open>
  \<open>sort.Slice\<close> by id; where two entries share an id its order is not specified, and the facts
  below are about lists whose ids differ.
\<close>

fun bestPriority :: "int list \<Rightarrow> int \<Rightarrow> bool \<Rightarrow> int" where
  "bestPriority [] best found = best"
| "bestPriority (p # ps) best found =
     (if \<not> found \<or> p > best then bestPriority ps p True else bestPriority ps best found)"

definition availableAuthsFromPriorityBuckets :: "priority_buckets \<Rightarrow> bool \<Rightarrow> Auth list" where
  "availableAuthsFromPriorityBuckets availableByPriority allPriorities =
     (let candidates =
            (if allPriorities then concat (map snd availableByPriority)
             else (case glookup availableByPriority
                          (bestPriority (map fst availableByPriority) 0 False) of
                     None \<Rightarrow> [] | Some bucket \<Rightarrow> bucket))
      in if length candidates > 1 then sort_key ID candidates else candidates)"

datatype select_error =
    SelectorError string string
  | ModelCooldown string string duration

definition newModelCooldownError :: "string \<Rightarrow> string \<Rightarrow> duration \<Rightarrow> select_error" where
  "newModelCooldownError model provider resetIn =
     ModelCooldown model provider (if resetIn < 0 then 0 else resetIn)"

definition getAvailableAuthsWithPriorityMode ::
  "Auth option list \<Rightarrow> string \<Rightarrow> string \<Rightarrow> gotime \<Rightarrow> bool \<Rightarrow> limits_env \<Rightarrow>
     (select_error + Auth list) \<times> limits_env" where
  "getAvailableAuthsWithPriorityMode auths provider model now allPriorities env =
     (if auths = [] then (Inl (SelectorError ''auth_not_found'' ''no auth candidates''), env)
      else let ((availableByPriority, cooldownCount, earliest), env') =
                 collectAvailableByPriority auths model now env
           in if availableByPriority = []
              then (if cooldownCount = int (length auths) \<and> earliest \<noteq> zeroTime
                    then let providerForError = (if provider = ''mixed'' then '''' else provider);
                             resetIn = time_sub earliest now;
                             resetIn = (if resetIn < 0 then 0 else resetIn)
                         in (Inl (newModelCooldownError model providerForError resetIn), env')
                    else (Inl (SelectorError ''auth_unavailable'' ''no auth available''), env'))
              else (Inr (availableAuthsFromPriorityBuckets availableByPriority allPriorities), env'))"

definition getAvailableAuths ::
  "Auth option list \<Rightarrow> string \<Rightarrow> string \<Rightarrow> gotime \<Rightarrow> limits_env \<Rightarrow>
     (select_error + Auth list) \<times> limits_env" where
  "getAvailableAuths auths provider model now env =
     getAvailableAuthsWithPriorityMode auths provider model now False env"

definition getAvailableAuthsAcrossPriorities ::
  "Auth option list \<Rightarrow> string \<Rightarrow> string \<Rightarrow> gotime \<Rightarrow> limits_env \<Rightarrow>
     (select_error + Auth list) \<times> limits_env" where
  "getAvailableAuthsAcrossPriorities auths provider model now env =
     getAvailableAuthsWithPriorityMode auths provider model now True env"

text \<open>The loop finds the best priority and how many have it.\<close>

fun highestLoop :: "Auth list \<Rightarrow> int \<Rightarrow> nat \<Rightarrow> int \<times> nat" where
  "highestLoop [] best count = (best, count)"
| "highestLoop (a # rest) best count =
     (let priority = authPriority (Some a)
      in if count = 0 \<or> priority > best then highestLoop rest priority 1
         else if priority = best then highestLoop rest best (count + 1)
         else highestLoop rest best count)"

definition highestPriorityAuths :: "Auth list \<Rightarrow> Auth list" where
  "highestPriorityAuths auths =
     (if length auths \<le> 1 then auths
      else let (best, count) = highestLoop auths 0 0
           in if count = length auths then auths
              else filter (\<lambda>a. authPriority (Some a) = best) auths)"

text \<open>\<open>downstreamWebsocket\<close> is what the request's context says of the client's transport.\<close>

definition preferCodexWebsocketAuths :: "bool \<Rightarrow> string \<Rightarrow> bool \<Rightarrow> Auth list \<Rightarrow> Auth list" where
  "preferCodexWebsocketAuths downstreamWebsocket provider stream available =
     (if available = [] then available
      else if \<not> downstreamWebsocket \<and> \<not> (stream \<and> equal_fold (trim_space provider) ''codex'') then available
      else if \<not> equal_fold (trim_space provider) ''codex'' then available
      else let wsEnabled = filter (\<lambda>a. authWebsocketsEnabled (Some a)) available
           in if wsEnabled \<noteq> [] then wsEnabled else available)"

definition positiveWeightAuths :: "Auth option list \<Rightarrow> Auth option list" where
  "positiveWeightAuths auths = filter (\<lambda>a. authWeight a > 0) auths"

section \<open>Facts about one credential\<close>

lemma availabilityBlock_iff:
  assumes "0 \<le> now"
  shows "fst (availabilityBlock unavailable quotaExceeded nextRetryAfter nextRecoverAt now) \<longleftrightarrow>
    (unavailable \<or> quotaExceeded) \<and>
    (now < max nextRetryAfter nextRecoverAt \<or> nextRetryAfter = zeroTime \<and> nextRecoverAt = zeroTime)"
  using assms by (auto simp: availabilityBlock_def Let_def max_def)

lemma ex_states_Cons:
  "(\<exists>m st. (m, Some st) \<in> set ((m0, Some st0) # rest) \<and> P m st) \<longleftrightarrow>
     P m0 st0 \<or> (\<exists>m st. (m, Some st) \<in> set rest \<and> P m st)"
  by auto

lemma modelStatesBlock_iff:
  "(blocked \<longrightarrow> matched) \<Longrightarrow>
   fst (modelStatesBlock modelKey now states matched blocked reason upcoming) \<longleftrightarrow>
     blocked \<or> (\<exists>m st. (m, Some st) \<in> set states \<and> canonicalModelKey m = modelKey \<and>
       (msStatus st = StatusDisabled \<or>
        fst (availabilityBlock (msUnavailable st) (Exceeded (msQuota st)) (msNextRetryAfter st)
               (NextRecoverAt (msQuota st)) now)))"
proof (induction states arbitrary: matched blocked reason upcoming)
  case Nil
  then show ?case by auto
next
  case (Cons entry rest)
  obtain m s where entry: "entry = (m, s)" by fastforce
  show ?case
  proof (cases s)
    case None
    with Cons show ?thesis by (auto simp: entry)
  next
    case (Some st)
    obtain b r t where ab: "availabilityBlock (msUnavailable st) (Exceeded (msQuota st))
        (msNextRetryAfter st) (NextRecoverAt (msQuota st)) now = (b, r, t)"
      by (metis prod.collapse)
    show ?thesis
    proof (cases "canonicalModelKey m = modelKey \<and> msStatus st \<noteq> StatusDisabled")
      case False
      with Cons Some show ?thesis by (auto simp: entry)
    next
      case True
      then show ?thesis
        using Cons Some unfolding entry Some ex_states_Cons
        by (cases b) (simp_all add: ab)
    qed
  qed
qed

text \<open>
  Model availability. For a credential with per-model states, whether a model is blocked
  does not depend on the order in which the runtime iterates over the states: it is blocked
  exactly when a state of that model (in any spelling of its key) is disabled or unavailable with
  its retry time still to come or unknown; states of other models never block it.
\<close>

theorem authModelAvailabilityBlock_iff:
  assumes "model \<noteq> ''''" and "ModelStates a \<noteq> []" and "0 \<le> now"
  shows "fst (authModelAvailabilityBlock (Some a) model now) \<longleftrightarrow>
    (\<exists>m st. (m, Some st) \<in> set (ModelStates a) \<and> canonicalModelKey m = canonicalModelKey model \<and>
      (msStatus st = StatusDisabled \<or>
       (msUnavailable st \<or> Exceeded (msQuota st)) \<and>
       (now < max (msNextRetryAfter st) (NextRecoverAt (msQuota st)) \<or>
        msNextRetryAfter st = zeroTime \<and> NextRecoverAt (msQuota st) = zeroTime)))"
  using assms by (simp add: authModelAvailabilityBlock_def modelStatesBlock_iff availabilityBlock_iff)

lemma authModelAvailabilityBlock_iff_witness:
  "\<not> fst (authModelAvailabilityBlock
      (Some ((exampleAuth ''a'' [])\<lparr>ModelStates := [(''m'', None)]\<rparr>)) ''m'' 5)"
  using authModelAvailabilityBlock_iff [of "''m''" "(exampleAuth ''a'' [])\<lparr>ModelStates := [(''m'', None)]\<rparr>" 5]
  by simp

text \<open>The check reads and writes only the credential's own request-time state.\<close>

definition blocked_now :: "string \<Rightarrow> gotime \<Rightarrow> limits_env \<Rightarrow> Auth \<Rightarrow> bool" where
  "blocked_now model now env a = fst (fst (isAuthBlockedForModel (Some a) model now env))"

lemma blocked_env:
  "env1 (ID a) = env2 (ID a) \<Longrightarrow>
   fst (isAuthBlockedForModel (Some a) model now env1) = fst (isAuthBlockedForModel (Some a) model now env2)"
  by (simp add: isAuthBlockedForModel_def isAuthBlockedForModelWithTailBurst_def Let_def split: prod.splits)

lemma blocked_frame:
  "i \<noteq> ID a \<Longrightarrow> snd (isAuthBlockedForModel (Some a) model now env) i = env i"
  by (simp add: isAuthBlockedForModel_def isAuthBlockedForModelWithTailBurst_def Let_def split: prod.splits)

section \<open>Facts about candidate lists\<close>

definition bucket_of :: "priority_buckets \<Rightarrow> int \<Rightarrow> Auth list" where
  "bucket_of m p = (case glookup m p of None \<Rightarrow> [] | Some b \<Rightarrow> b)"

lemma bucket_of_put: "bucket_of (gput p b m) q = (if q = p then b else bucket_of m q)"
  by (simp add: bucket_of_def glookup_put)

definition buckets_ok :: "priority_buckets \<Rightarrow> bool" where
  "buckets_ok m \<longleftrightarrow> gomap_ok m \<and> (\<forall>(p, b) \<in> set m. b \<noteq> [])"

lemma buckets_ok_put: "buckets_ok m \<Longrightarrow> b \<noteq> [] \<Longrightarrow> buckets_ok (gput p b m)"
  by (auto simp: buckets_ok_def gomap_mem gomap_ok_put glookup_put split: if_splits)

lemma buckets_ok_key:
  "buckets_ok m \<Longrightarrow> p \<in> fst ` set m \<longleftrightarrow> bucket_of m p \<noteq> []"
  by (auto simp: buckets_ok_def bucket_of_def gomap_mem dest: map_of_SomeD split: option.splits)
    (metis glookup_in_keys option.distinct(1))+

lemma collectLoop_buckets:
  assumes "distinct (map ID as)" and "\<forall>a \<in> set as. env (ID a) = env0 (ID a)" and "buckets_ok av"
    and "collectLoop (map Some as) model now av cc e env = ((av', cc', e'), env')"
  shows "buckets_ok av' \<and>
    (\<forall>p. bucket_of av' p = bucket_of av p @
      filter (\<lambda>a. \<not> blocked_now model now env0 a \<and> authPriority (Some a) = p) as)"
  using assms
proof (induction as arbitrary: av cc e env)
  case Nil
  then show ?case by simp
next
  case (Cons a as)
  obtain b r t env1 where bl: "isAuthBlockedForModel (Some a) model now env = ((b, r, t), env1)"
    by (metis prod.collapse)
  have b: "b = blocked_now model now env0 a"
    using bl blocked_env [of env a env0 model now] Cons.prems(2)
    by (metis blocked_now_def fst_conv list.set_intros(1))
  have env1: "\<forall>x \<in> set as. env1 (ID x) = env0 (ID x)"
  proof
    fix x assume x: "x \<in> set as"
    with Cons.prems(1) have "ID x \<noteq> ID a" by (metis distinct.simps(2) imageI list.simps(9) set_map)
    with blocked_frame [of "ID x" a model now env] bl have "env1 (ID x) = env (ID x)" by simp
    with Cons.prems(2) x show "env1 (ID x) = env0 (ID x)" by simp
  qed
  have dist: "distinct (map ID as)" using Cons.prems(1) by simp
  show ?case
  proof (cases b)
    case True
    then show ?thesis
      using Cons.IH [OF dist env1] Cons.prems(3,4) bl b by (auto split: if_splits)
  next
    case False
    let ?p = "authPriority (Some a)"
    have "collectLoop (map Some as) model now (gput ?p (bucket_of av ?p @ [a]) av) cc e env1 =
        ((av', cc', e'), env')"
      using Cons.prems(4) bl False by (simp add: bucket_of_def Let_def)
    from Cons.IH [OF dist env1 buckets_ok_put [OF Cons.prems(3)] this]
    show ?thesis using False b by (auto simp: bucket_of_put)
  qed
qed

lemma bestPriority_max:
  "ps \<noteq> [] \<or> found \<Longrightarrow>
   bestPriority ps best found \<in> set ps \<union> (if found then {best} else {}) \<and>
   (\<forall>p \<in> set ps \<union> (if found then {best} else {}). p \<le> bestPriority ps best found)"
proof (induction ps arbitrary: best found)
  case Nil
  then show ?case by simp
next
  case (Cons p ps)
  show ?case
    using Cons.IH [of True p] Cons.IH [of found best] by (cases found) force+
qed

lemma available_candidates:
  assumes "distinct (map ID as)"
    and "ready = filter (\<lambda>a. \<not> blocked_now model now env a) as"
  shows "case fst (getAvailableAuths (map Some as) provider model now env) of
      Inl e \<Rightarrow> ready = []
    | Inr l \<Rightarrow> ready \<noteq> [] \<and> l \<noteq> [] \<and> sorted (map ID l) \<and> distinct l \<and>
        set l = {a \<in> set ready. \<forall>b \<in> set ready. authPriority (Some b) \<le> authPriority (Some a)}"
proof -
  obtain av c e env' where cl: "collectAvailableByPriority (map Some as) model now env = ((av, c, e), env')"
    by (metis prod.collapse)
  have "buckets_ok []" by (simp add: buckets_ok_def)
  note c = collectLoop_buckets [OF assms(1) _ this cl [unfolded collectAvailableByPriority_def],
      of env, simplified]
  have ok: "buckets_ok av"
    and b: "bucket_of av p = filter (\<lambda>a. authPriority (Some a) = p) ready" for p
    using c by (simp_all add: bucket_of_def assms(2) conj_commute)
  have ready_Nil: "av = [] \<longleftrightarrow> ready = []"
  proof
    assume "av = []"
    then show "ready = []" using b by (metis (mono_tags) bucket_of_def filter_empty_conv last_in_set map_of.simps(1) option.simps(4))
  next
    assume "ready = []"
    then have none: "p \<notin> fst ` set av" for p using buckets_ok_key [OF ok, of p] b [of p] by simp
    show "av = []"
    proof (cases av)
      case (Cons x xs)
      with none [of "fst x"] show ?thesis by simp
    qed
  qed
  show ?thesis
  proof (cases "ready = []")
    case True
    then show ?thesis
      using ready_Nil cl
      by (simp add: getAvailableAuths_def getAvailableAuthsWithPriorityMode_def Let_def)
  next
    case False
    then have av: "av \<noteq> []" "as \<noteq> []" using ready_Nil assms(2) by auto
    define best where "best = bestPriority (map fst av) 0 False"
    have best: "best \<in> fst ` set av" "\<forall>p \<in> fst ` set av. p \<le> best"
      using bestPriority_max [of "map fst av" False 0] av by (auto simp: best_def)
    define l where "l = filter (\<lambda>a. authPriority (Some a) = best) ready"
    have res: "fst (getAvailableAuths (map Some as) provider model now env) = Inr (sort_key ID l)"
      using av cl b [of best] by (auto simp: getAvailableAuths_def getAvailableAuthsWithPriorityMode_def
          Let_def availableAuthsFromPriorityBuckets_def best_def [symmetric] l_def bucket_of_def
          sort_key_short split: option.splits)
    have "authPriority (Some a) \<le> best" if "a \<in> set ready" for a
      using best(2) buckets_ok_key [OF ok, of "authPriority (Some a)"] b that
      by (metis (mono_tags, lifting) filter_empty_conv)
    moreover have l: "l \<noteq> []" using best(1) buckets_ok_key [OF ok] b by (simp add: l_def)
    ultimately have "set l = {a \<in> set ready. \<forall>b \<in> set ready. authPriority (Some b) \<le> authPriority (Some a)}"
      by (fastforce simp: l_def filter_empty_conv)
    moreover have "distinct l" using assms by (simp add: l_def distinct_map)
    moreover have "sort_key ID l \<noteq> []" using l by (metis length_0_conv length_sort)
    ultimately show ?thesis using False by (simp add: res)
  qed
qed

lemma example_free: "\<not> blocked_now '''' 5 (\<lambda>_. newRuntimeLimits) (exampleAuth i [])"
  by (simp add: blocked_now_def isAuthBlockedForModel_def isAuthBlockedForModelWithTailBurst_def
      exampleAuth_def IsAuthLifecycleBlocking_def IsAuthInitializationBlocking_def
      IsAuthRecoveryBlocking_def InitializationStateFromMetadata_def AuthRecoveryState_def Let_def
      runtimeAuthBlockedForModelWithTailBurst_def activeFreezeLocked_def compactRuntimeWindowLocked_def
      codexBurstConcurrencyLimit_def runtimeLimitConfigForModel_def runtimeLimitConfig_def
      runtimeLimitLookupAny_def runtimeLimitHasAny_def expiryPriorityConcurrencyLimit_def
      codexNormalConcurrencyLimit_def authModelAvailabilityBlock_def availabilityBlock_def)

text \<open>
  Candidates. With distinct ids, the candidates a selector may choose from are exactly the
  unblocked credentials of the highest priority that has one, in the order of their ids; an
  error means that every credential is blocked.
\<close>

theorem getAvailableAuths_best:
  assumes "distinct (map ID as)"
    and "ready = filter (\<lambda>a. \<not> blocked_now model now env a) as"
  shows "case fst (getAvailableAuths (map Some as) provider model now env) of
      Inl e \<Rightarrow> ready = []
    | Inr l \<Rightarrow> ready \<noteq> [] \<and> l \<noteq> [] \<and> sorted (map ID l) \<and> distinct l \<and>
        set l = {a \<in> set ready. \<forall>b \<in> set ready. authPriority (Some b) \<le> authPriority (Some a)}"
  using available_candidates [OF assms] .

lemma getAvailableAuths_best_witness:
  "\<exists>l. fst (getAvailableAuths [Some (exampleAuth ''b'' []), Some (exampleAuth ''a'' [])] ''codex'' '''' 5
      (\<lambda>_. newRuntimeLimits)) = Inr l \<and> set l \<noteq> {}"
proof -
  let ?as = "[exampleAuth ''b'' [], exampleAuth ''a'' []]"
  have ids: "distinct (map ID ?as)" by (simp add: exampleAuth_def)
  have prio: "authPriority (Some (exampleAuth i [])) = 0" for i
    by (simp add: authPriority_def exampleAuth_def)
  from getAvailableAuths_best [OF ids refl, of "''''" 5 "\<lambda>_. newRuntimeLimits" "''codex''"] show ?thesis
    by (auto simp: example_free prio split: sum.splits)
qed

end
