(* ===== verification/SmoothWeighted.thy ===== *)
theory SmoothWeighted
  imports Availability
begin

text \<open>
  Smooth weighted round robin, as \<open>pickSmoothWeightedAuth\<close> of \<open>sdk/cliproxy/auth/selector.go\<close> and
  \<open>pickSmoothWeightedScheduled\<close> of \<open>scheduler.go\<close> compute it. The loop over the entries is the
  same in both, so it is one function over the entries' id, weight and eligibility; the two
  differ in when they drop the ids that are no longer eligible.

  The second half proves what the algorithm is for: over any run on a fixed set of credentials
  no credential is ever a full turn ahead of its share, and a run as long as the sum of the
  weights serves every credential exactly as often as its weight.
\<close>

section \<open>State\<close>

definition saturatingAddInt64 :: "int \<Rightarrow> int \<Rightarrow> int" where
  "saturatingAddInt64 v delta =
     (if delta > 0 \<and> v > maxInt64 - delta then maxInt64
      else if delta < 0 \<and> v < minInt64 - delta then minInt64
      else v + delta)"

text \<open>A nil current map reads and resets like an empty one.\<close>

record smoothWeightedState =
  swCurrent :: "(string, int) gomap"
  swWeights :: "(string, int) gomap"

definition emptySmoothWeightedState :: smoothWeightedState where
  "emptySmoothWeightedState = \<lparr>swCurrent = [], swWeights = []\<rparr>"

definition weight_at :: "(string, int) gomap \<Rightarrow> string \<Rightarrow> int" where
  "weight_at m i = (case glookup m i of None \<Rightarrow> 0 | Some v \<Rightarrow> v)"

lemma weight_at_Nil [simp]: "weight_at [] i = 0"
  by (simp add: weight_at_def)

lemma weight_at_put [simp]: "weight_at (gput k v m) i = (if i = k then v else weight_at m i)"
  by (simp add: weight_at_def glookup_put)

definition weightVectorsEqual :: "(string, int) gomap \<Rightarrow> (string, int) gomap \<Rightarrow> bool" where
  "weightVectorsEqual left right \<longleftrightarrow>
     length left = length right \<and> list_all (\<lambda>(authID, weight). weight_at right authID = weight) left"

definition prepare :: "(string, int) gomap \<Rightarrow> smoothWeightedState \<Rightarrow> smoothWeightedState" where
  "prepare weights s =
     (let s = (if \<not> weightVectorsEqual (swWeights s) weights then s\<lparr>swCurrent := []\<rparr> else s)
      in s\<lparr>swWeights := weights\<rparr>)"

definition authWeightVector :: "Auth list \<Rightarrow> (string, int) gomap" where
  "authWeightVector auths =
     fold (\<lambda>a weights. let weight = authWeight (Some a)
                       in if weight > 0 then gput (ID a) weight weights else weights) auths []"

section \<open>The pick\<close>

text \<open>The accumulator is the current map, the entry picked so far with its value, and the tot.\<close>

fun smoothLoop ::
  "('e \<Rightarrow> string) \<Rightarrow> ('e \<Rightarrow> int) \<Rightarrow> ('e \<Rightarrow> bool) \<Rightarrow> 'e list \<Rightarrow>
     (string, int) gomap \<Rightarrow> ('e \<times> int) option \<Rightarrow> int \<Rightarrow>
     (string, int) gomap \<times> ('e \<times> int) option \<times> int" where
  "smoothLoop idf wt eligible [] current picked totalWeight = (current, picked, totalWeight)"
| "smoothLoop idf wt eligible (e # es) current picked totalWeight =
     (if \<not> eligible e then smoothLoop idf wt eligible es current picked totalWeight
      else let v = saturatingAddInt64 (weight_at current (idf e)) (wt e);
               current = gput (idf e) v current;
               totalWeight = saturatingAddInt64 totalWeight (wt e);
               picked = (case picked of
                           None \<Rightarrow> Some (e, v)
                         | Some (p, pickedCurrent) \<Rightarrow> if v > pickedCurrent then Some (e, v) else picked)
           in smoothLoop idf wt eligible es current picked totalWeight)"

definition dropInactive :: "string set \<Rightarrow> (string, int) gomap \<Rightarrow> (string, int) gomap" where
  "dropInactive active current = filter (\<lambda>(authID, _). authID \<in> active) current"

definition smoothFinish ::
  "('e \<Rightarrow> string) \<Rightarrow> (string, int) gomap \<Rightarrow> ('e \<times> int) option \<Rightarrow> int \<Rightarrow> 'e option \<times> (string, int) gomap" where
  "smoothFinish idf current picked totalWeight =
     (case picked of
        None \<Rightarrow> (None, current)
      | Some (p, _) \<Rightarrow>
          (Some p, gput (idf p) (saturatingAddInt64 (weight_at current (idf p)) (- totalWeight)) current))"

definition pickSmoothWeightedAuth ::
  "Auth list \<Rightarrow> (string, int) gomap \<Rightarrow> Auth option \<times> (string, int) gomap" where
  "pickSmoothWeightedAuth auths current =
     (let eligible = (\<lambda>a. authWeight (Some a) > 0);
          (current, picked, totalWeight) =
            smoothLoop ID (\<lambda>a. authWeight (Some a)) eligible auths current None 0;
          current = dropInactive (ID ` set (filter eligible auths)) current
      in smoothFinish ID current picked totalWeight)"

section \<open>Vectors\<close>

lemma saturating_exact:
  "minInt64 \<le> v + d \<Longrightarrow> v + d \<le> maxInt64 \<Longrightarrow> saturatingAddInt64 v d = v + d"
  by (simp add: saturatingAddInt64_def)

lemma saturating_bounds:
  "in_int64 v \<Longrightarrow> in_int64 d \<Longrightarrow> in_int64 (saturatingAddInt64 v d)"
  by (auto simp: saturatingAddInt64_def in_int64_def)

definition positive_vector :: "(string, int) gomap \<Rightarrow> bool" where
  "positive_vector m \<longleftrightarrow> gomap_ok m \<and> (\<forall>(i, w) \<in> set m. 0 < w)"

lemma weightVectorsEqual_iff:
  assumes "positive_vector l" "positive_vector r"
  shows "weightVectorsEqual l r \<longleftrightarrow> map_of l = map_of r"
proof
  assume eq: "weightVectorsEqual l r"
  have sub: "glookup r i = Some w" if "glookup l i = Some w" for i w
  proof -
    from that have "(i, w) \<in> set l" by (rule map_of_SomeD)
    with eq assms(1) have "weight_at r i = w" "0 < w"
      by (auto simp: weightVectorsEqual_def list_all_iff positive_vector_def)
    then show ?thesis by (auto simp: weight_at_def split: option.splits)
  qed
  have card: "card (fst ` set m) = length m" if "gomap_ok m" for m :: "(string, int) gomap"
    using that distinct_card [of "map fst m"] by (simp add: gomap_ok_def)
  have "fst ` set l \<subseteq> fst ` set r"
    using sub by (metis (no_types, lifting) glookup_in_keys option.exhaust option.distinct(1) subsetI)
  moreover have "card (fst ` set l) = card (fst ` set r)"
    using eq card assms by (simp add: positive_vector_def weightVectorsEqual_def)
  ultimately have keys: "fst ` set l = fst ` set r"
    by (intro card_subset_eq) auto
  show "map_of l = map_of r"
  proof
    fix i
    show "glookup l i = glookup r i"
    proof (cases "glookup l i")
      case None
      then have "i \<notin> fst ` set r" using keys glookup_in_keys [of l i] by simp
      then show ?thesis using None glookup_in_keys [of r i] by simp
    qed (simp add: sub)
  qed
next
  assume eq: "map_of l = map_of r"
  have "length l = length r"
    using assms eq distinct_card [of "map fst l"] distinct_card [of "map fst r"]
    by (simp add: positive_vector_def gomap_ok_def) (metis dom_map_of_conv_image_fst)
  moreover have "weight_at r i = w" if "(i, w) \<in> set l" for i w
    using that assms(1) eq gomap_mem [of l i w] by (simp add: positive_vector_def weight_at_def)
  ultimately show "weightVectorsEqual l r"
    by (auto simp: weightVectorsEqual_def list_all_iff)
qed

section \<open>One pick without saturation\<close>

text \<open>
  The eligible entries \<open>es\<close> have distinct ids; \<open>c\<close> reads the current value of an entry. One pick
  adds each weight, takes an entry with the largest result and charges it the tot.
\<close>

lemma smoothLoop_exact:
  assumes "distinct (map idf es)" and "\<forall>e \<in> set es. eligible e"
    and "\<forall>e \<in> set es. minInt64 \<le> weight_at m (idf e) + wt e \<and> weight_at m (idf e) + wt e \<le> maxInt64"
    and "\<forall>e \<in> set es. 0 < wt e" and "0 \<le> tot" and "tot + sum_list (map wt es) \<le> maxInt64"
    and "smoothLoop idf wt eligible es m picked tot = (m', picked', tot')"
  shows "tot' = tot + sum_list (map wt es) \<and>
    (\<forall>i. weight_at m' i = weight_at m i + sum_list (map wt (filter (\<lambda>e. idf e = i) es))) \<and>
    (es \<noteq> [] \<or> picked \<noteq> None \<longrightarrow> (\<exists>p v. picked' = Some (p, v) \<and>
       (picked = Some (p, v) \<or> p \<in> set es \<and> v = weight_at m (idf p) + wt p) \<and>
       (\<forall>e \<in> set es. weight_at m (idf e) + wt e \<le> v) \<and>
       (case picked of None \<Rightarrow> True | Some (_, u) \<Rightarrow> u \<le> v)))"
  using assms
proof (induction es arbitrary: m picked tot)
  case Nil
  then show ?case by (cases picked) auto
next
  case (Cons e es)
  define v where "v = weight_at m (idf e) + wt e"
  define m1 where "m1 = gput (idf e) v m"
  define picked1 where "picked1 = (case picked of None \<Rightarrow> Some (e, v)
      | Some (p, u) \<Rightarrow> if v > u then Some (e, v) else picked)"
  have v: "saturatingAddInt64 (weight_at m (idf e)) (wt e) = v"
    using Cons.prems(3) unfolding v_def by (intro saturating_exact) auto
  have tail: "0 \<le> sum_list (map wt es)"
    using Cons.prems(4) by (intro sum_list_nonneg) (auto intro: less_imp_le)
  have t: "saturatingAddInt64 tot (wt e) = tot + wt e"
    using Cons.prems(4,5,6) tail by (intro saturating_exact) auto
  have m1: "weight_at m1 i = (if i = idf e then v else weight_at m i)" for i
    by (simp add: m1_def)
  have other: "weight_at m1 (idf e') = weight_at m (idf e')" if "e' \<in> set es" for e'
    using that Cons.prems(1) unfolding m1 by (metis distinct.simps(2) imageI list.simps(9) set_map)
  have "smoothLoop idf wt eligible es m1 picked1 (tot + wt e) = (m', picked', tot')"
    using Cons.prems(2,7) by (simp add: v t Let_def m1_def picked1_def)
  from Cons.IH [OF _ _ _ _ _ _ this] have IH:
    "tot' = tot + wt e + sum_list (map wt es)"
    "\<forall>i. weight_at m' i = weight_at m1 i + sum_list (map wt (filter (\<lambda>e. idf e = i) es))"
    "es \<noteq> [] \<or> picked1 \<noteq> None \<longrightarrow> (\<exists>p v. picked' = Some (p, v) \<and>
       (picked1 = Some (p, v) \<or> p \<in> set es \<and> v = weight_at m1 (idf p) + wt p) \<and>
       (\<forall>e \<in> set es. weight_at m1 (idf e) + wt e \<le> v) \<and>
       (case picked1 of None \<Rightarrow> True | Some (_, u) \<Rightarrow> u \<le> v))"
    using Cons.prems(1-6) other tail by auto
  have none: "filter (\<lambda>x. idf x = idf e) es = []"
    using Cons.prems(1) by (auto simp: filter_empty_conv) (metis imageI)
  have p1: "picked1 \<noteq> None" by (simp add: picked1_def split: option.splits)
  then obtain p u where pick: "picked' = Some (p, u)"
    "picked1 = Some (p, u) \<or> p \<in> set es \<and> u = weight_at m1 (idf p) + wt p"
    "\<forall>e \<in> set es. weight_at m1 (idf e) + wt e \<le> u"
    "case picked1 of None \<Rightarrow> True | Some (_, x) \<Rightarrow> x \<le> u"
    using IH(3) by blast
  have vle: "v \<le> u" "case picked of None \<Rightarrow> True | Some (_, x) \<Rightarrow> x \<le> u"
    using pick(4) by (auto simp: picked1_def split: option.splits if_splits)
  have src: "picked = Some (p, u) \<or> p \<in> set (e # es) \<and> u = weight_at m (idf p) + wt p"
    using pick(2) other by (auto simp: picked1_def v_def split: option.splits if_splits)
  show ?case
    using IH(1,2) pick(1,3) vle src other none m1
    by (auto simp: v_def)
qed

lemma smoothPick_exact:
  assumes "distinct (map idf es)" and "\<forall>e \<in> set es. eligible e" and "es \<noteq> []"
    and "\<forall>e \<in> set es. minInt64 \<le> weight_at m (idf e) + wt e \<and> weight_at m (idf e) + wt e \<le> maxInt64"
    and "\<forall>e \<in> set es. 0 < wt e" and "W = sum_list (map wt es)" and "W \<le> maxInt64"
    and "\<exists>e \<in> set es. 0 \<le> weight_at m (idf e) + wt e"
    and "smoothLoop idf wt eligible es m None 0 = (m1, picked, tot)"
    and "\<forall>i \<in> idf ` set es. weight_at m2 i = weight_at m1 i"
    and "smoothFinish idf m2 picked tot = (r, m3)"
  shows "\<exists>p \<in> set es. r = Some p \<and>
    (\<forall>e \<in> set es. weight_at m (idf e) + wt e \<le> weight_at m (idf p) + wt p) \<and>
    (\<forall>e \<in> set es. weight_at m3 (idf e) = weight_at m (idf e) + wt e - (if e = p then W else 0))"
proof -
  have l: "tot = W"
    "\<And>i. weight_at m1 i = weight_at m i + sum_list (map wt (filter (\<lambda>e. idf e = i) es))"
    using smoothLoop_exact [OF assms(1,2,4,5) _ _ assms(9)] assms(6,7) by auto
  obtain p v where p: "picked = Some (p, v)" "p \<in> set es" "v = weight_at m (idf p) + wt p"
    "\<forall>e \<in> set es. weight_at m (idf e) + wt e \<le> v"
    using smoothLoop_exact [OF assms(1,2,4,5) _ _ assms(9)] assms(3,6,7) by auto
  have single: "filter (\<lambda>x. idf x = idf e) es = [e]" if "e \<in> set es" for e
    using that assms(1)
  proof (induction es)
    case (Cons x xs)
    then show ?case by (auto simp: filter_empty_conv) (metis imageI)
  qed simp
  have at: "weight_at m1 (idf e) = weight_at m (idf e) + wt e" if "e \<in> set es" for e
    using l(2) [of "idf e"] single [OF that] by simp
  have inj: "idf e = idf p \<longleftrightarrow> e = p" if "e \<in> set es" for e
    using that p(2) assms(1) by (auto simp: distinct_map inj_on_def)
  have "saturatingAddInt64 (weight_at m2 (idf p)) (- W) = weight_at m (idf p) + wt p - W"
  proof -
    have "weight_at m2 (idf p) = weight_at m (idf p) + wt p" using assms(10) at p(2) by auto
    moreover have "0 \<le> W" unfolding assms(6) using assms(5) by (intro sum_list_nonneg) (auto intro: less_imp_le)
    moreover have "0 \<le> weight_at m (idf p) + wt p" using assms(8) p(3,4) by fastforce
    ultimately show ?thesis
      using assms(4,7) p(2) by (subst saturating_exact) auto
  qed
  then have "r = Some p \<and> m3 = gput (idf p) (weight_at m (idf p) + wt p - W) m2"
    using assms(11) p(1) l(1) by (simp add: smoothFinish_def)
  then show ?thesis
    using p inj at assms(10) by (intro bexI [of _ p]) auto
qed

lemma member_le_sum_list_int:
  "x \<in> set xs \<Longrightarrow> \<forall>y \<in> set xs. (0::int) < f y \<Longrightarrow> f x \<le> sum_list (map f xs)"
proof (induction xs)
  case (Cons y ys)
  have "0 \<le> sum_list (map f ys)" using Cons.prems(2) by (intro sum_list_nonneg) (auto intro: less_imp_le)
  with Cons show ?case by (fastforce intro: add_increasing less_imp_le)
qed simp

lemma sum_list_lower:
  "a \<in> set xs \<Longrightarrow> \<forall>x \<in> set xs. (l::int) \<le> f x \<Longrightarrow> f a + l * int (length xs - 1) \<le> sum_list (map f xs)"
proof (induction xs)
  case (Cons y ys)
  have all: "l * int (length zs) \<le> sum_list (map f zs)" if "\<forall>x \<in> set zs. l \<le> f x" for zs
    using that by (induction zs) (auto simp: algebra_simps)
  show ?case
  proof (cases "a = y")
    case True
    with all [of ys] Cons.prems show ?thesis by simp
  next
    case False
    with Cons.prems have a: "a \<in> set ys" by simp
    then obtain k where k: "length ys = Suc k" by (cases ys) auto
    then have "l * int (length ys) = l * int (length ys - 1) + l" by (simp add: algebra_simps)
    moreover have "f a + l * int (length ys - 1) \<le> sum_list (map f ys)" "l \<le> f y"
      using Cons.IH [OF a] Cons.prems(2) by auto
    ultimately show ?thesis by simp
  qed
qed simp

lemma sum_list_affine:
  "(\<Sum>x\<leftarrow>xs. (A::int) * f x - B * int (g x)) = A * sum_list (map f xs) - B * int (sum_list (map g xs))"
  by (induction xs) (simp_all add: distrib_left)

lemma sum_list_member_nonneg:
  "a \<in> set xs \<Longrightarrow> \<forall>x \<in> set xs. (0::int) \<le> f x \<Longrightarrow> f a \<le> sum_list (map f xs)"
  using sum_list_lower [of a xs 0 f] by simp

lemma of_nat_sum_list_map: "(\<Sum>x\<leftarrow>xs. int (f x)) = int (\<Sum>x\<leftarrow>xs. f x)"
  by (induction xs) auto

section \<open>Runs\<close>

text \<open>\<open>n\<close> successive picks on the same credentials.\<close>

fun weightedRun :: "nat \<Rightarrow> Auth list \<Rightarrow> (string, int) gomap \<Rightarrow> Auth option list \<times> (string, int) gomap" where
  "weightedRun 0 auths current = ([], current)"
| "weightedRun (Suc n) auths current =
     (let (picks, current) = weightedRun n auths current;
          (picked, current) = pickSmoothWeightedAuth auths current
      in (picks @ [picked], current))"

abbreviation total_weight :: "Auth list \<Rightarrow> int" where
  "total_weight auths \<equiv> sum_list (map (\<lambda>a. authWeight (Some a)) auths)"

lemma sum_counts:
  assumes "distinct xs" "set ys \<subseteq> Some ` set xs"
  shows "(\<Sum>x\<leftarrow>xs. count_list ys (Some x)) = length ys"
proof -
  have "(\<Sum>x\<leftarrow>xs. count_list ys (Some x)) = (\<Sum>x\<in>set xs. count_list ys (Some x))"
    using assms(1) by (simp add: sum_list_distinct_conv_sum_set)
  also have "\<dots> = (\<Sum>y\<in>Some ` set xs. count_list ys y)"
    by (simp add: sum.reindex)
  also have "\<dots> = length ys" using assms(2) by (intro sum_count_set) auto
  finally show ?thesis .
qed

lemma total_weight_pos:
  assumes "\<forall>a \<in> set auths. 0 < authWeight (Some a)" and "auths \<noteq> []"
  shows "0 < total_weight auths"
proof -
  have "hd auths \<in> set auths" using assms(2) by simp
  with member_le_sum_list_int [OF this assms(1)] assms(1) show ?thesis by fastforce
qed

lemma weightedRun_inv:
  assumes "distinct (map ID auths)" and "\<forall>a \<in> set auths. 0 < authWeight (Some a)" and "auths \<noteq> []"
    and W: "W = total_weight auths" and cap: "int (length auths) * W \<le> maxInt64"
    and "weightedRun n auths [] = (picks, current)"
  shows "length picks = n \<and> set picks \<subseteq> Some ` set auths \<and>
    (\<forall>a \<in> set auths. weight_at current (ID a) =
       int n * authWeight (Some a) - W * int (count_list picks (Some a))) \<and>
    (\<forall>a \<in> set auths. - W < weight_at current (ID a))"
  using assms(6)
proof (induction n arbitrary: picks current)
  case 0
  with total_weight_pos [OF assms(2,3)] W show ?case by simp
next
  case (Suc n)
  let ?w = "\<lambda>a. authWeight (Some a)"
  obtain ps m where run: "weightedRun n auths [] = (ps, m)" by fastforce
  obtain r m3 where pk: "pickSmoothWeightedAuth auths m = (r, m3)" by fastforce
  have res: "picks = ps @ [r]" "current = m3" using Suc.prems run pk by simp_all
  from Suc.IH [OF run] have IH: "length ps = n" "set ps \<subseteq> Some ` set auths"
    "\<forall>a \<in> set auths. weight_at m (ID a) = int n * ?w a - W * int (count_list ps (Some a))"
    "\<forall>a \<in> set auths. - W < weight_at m (ID a)" by auto
  have dist: "distinct auths" using assms(1) by (simp add: distinct_map)
  have Wpos: "0 < W" using total_weight_pos [OF assms(2,3)] W by simp
  have wle: "?w a \<le> W" if "a \<in> set auths" for a
    using member_le_sum_list_int [OF that assms(2)] unfolding W .
  have zero: "(\<Sum>a\<leftarrow>auths. weight_at m (ID a)) = 0"
  proof -
    have "(\<Sum>a\<leftarrow>auths. weight_at m (ID a)) =
        (\<Sum>a\<leftarrow>auths. int n * ?w a - W * int (count_list ps (Some a)))"
      using IH(3) by (intro arg_cong [where f = sum_list] map_cong) auto
    also have "\<dots> = int n * W - W * int (\<Sum>a\<leftarrow>auths. count_list ps (Some a))"
      unfolding W by (rule sum_list_affine)
    also have "\<dots> = 0" using sum_counts [OF dist IH(2)] IH(1) by simp
    finally show ?thesis .
  qed
  have upper: "weight_at m (ID a) + ?w a \<le> int (length auths) * W" if a: "a \<in> set auths" for a
  proof -
    have "weight_at m (ID a) + - W * int (length auths - 1) \<le> (\<Sum>a\<leftarrow>auths. weight_at m (ID a))"
      using a IH(4) by (intro sum_list_lower) (auto intro: less_imp_le)
    then have "weight_at m (ID a) \<le> W * int (length auths - 1)" using zero by simp
    moreover obtain k where "length auths = Suc k" using a by (cases auths) auto
    ultimately show ?thesis using wle [OF a] by (simp add: algebra_simps)
  qed
  have len: "1 \<le> int (length auths)" using assms(3) by (cases auths) auto
  then have "1 * W \<le> int (length auths) * W" using Wpos by (intro mult_right_mono) auto
  with cap have Wmax: "W \<le> maxInt64" by simp
  obtain m1 picked tot where loop:
    "smoothLoop ID ?w (\<lambda>a. 0 < ?w a) auths m None 0 = (m1, picked, tot)" by (metis prod.collapse)
  define m2 where "m2 = dropInactive (ID ` set (filter (\<lambda>a. 0 < ?w a) auths)) m1"
  have fin: "smoothFinish ID m2 picked tot = (r, m3)"
    using pk loop by (simp add: pickSmoothWeightedAuth_def Let_def m2_def)
  have keep: "\<forall>i \<in> ID ` set auths. weight_at m2 i = weight_at m1 i"
    using assms(2) by (auto simp: m2_def dropInactive_def weight_at_def glookup_filter_key)
  have sumW: "(\<Sum>a\<leftarrow>auths. weight_at m (ID a) + ?w a) = W"
    using zero by (simp add: sum_list_addf W)
  have some_pos: "\<exists>a \<in> set auths. 0 < weight_at m (ID a) + ?w a"
  proof (rule ccontr)
    assume "\<not> (\<exists>a \<in> set auths. 0 < weight_at m (ID a) + ?w a)"
    then have "(\<Sum>a\<leftarrow>auths. weight_at m (ID a) + ?w a) \<le> 0"
      by (induction auths) auto
    then show False using Wpos sumW by simp
  qed
  have bounds: "\<forall>a \<in> set auths. minInt64 \<le> weight_at m (ID a) + ?w a \<and>
      weight_at m (ID a) + ?w a \<le> maxInt64"
    "\<exists>a \<in> set auths. 0 \<le> weight_at m (ID a) + ?w a"
  proof -
    have "- W < weight_at m (ID a)" "0 < ?w a" "weight_at m (ID a) + ?w a \<le> maxInt64" if "a \<in> set auths" for a
      using that upper [OF that] cap IH(4) assms(2) by auto
    then show "\<forall>a \<in> set auths. minInt64 \<le> weight_at m (ID a) + ?w a \<and>
        weight_at m (ID a) + ?w a \<le> maxInt64"
      using Wmax by fastforce
    show "\<exists>a \<in> set auths. 0 \<le> weight_at m (ID a) + ?w a"
      using some_pos by (auto intro: less_imp_le)
  qed
  obtain p where p: "p \<in> set auths" "r = Some p"
    "\<forall>a \<in> set auths. weight_at m (ID a) + ?w a \<le> weight_at m (ID p) + ?w p"
    "\<forall>a \<in> set auths. weight_at m3 (ID a) = weight_at m (ID a) + ?w a - (if a = p then W else 0)"
    using smoothPick_exact [OF assms(1) _ assms(3) bounds(1) assms(2) W Wmax bounds(2) loop keep fin]
      assms(2) by auto
  have pos: "0 < weight_at m (ID p) + ?w p"
    using some_pos p(3) by fastforce
  show ?case
  proof (intro conjI ballI)
    show "length picks = Suc n" "set picks \<subseteq> Some ` set auths"
      using IH(1,2) p(1,2) by (auto simp: res)
  next
    fix a assume a: "a \<in> set auths"
    have m3: "weight_at m3 (ID a) = weight_at m (ID a) + ?w a - (if a = p then W else 0)"
      using p(4) a by simp
    have "int (count_list picks (Some a)) = int (count_list ps (Some a)) + (if a = p then 1 else 0)"
      by (simp add: res p(2))
    then show "weight_at current (ID a) = int (Suc n) * ?w a - W * int (count_list picks (Some a))"
      using m3 bspec [OF IH(3) a] by (simp add: res distrib_left distrib_right)
    show "- W < weight_at current (ID a)"
      using m3 bspec [OF IH(4) a] bspec [OF assms(2) a] pos by (simp add: res)
  qed
qed

text \<open>
  C12 (weighted shares). On a fixed set of credentials with positive weights, smooth weighted
  round robin picks one of them each time, no credential ever gets more than its share of the
  picks plus one, and a run as long as the sum of the weights serves every credential exactly as
  often as its weight and ends in the state it started from. The hypothesis on the sum excludes
  saturation; with the largest weight it allows three million credentials.
\<close>

theorem weighted_shares:
  assumes "distinct (map ID auths)" and "\<forall>a \<in> set auths. 0 < authWeight (Some a)" and "auths \<noteq> []"
    and "int (length auths) * total_weight auths \<le> maxInt64"
    and run: "weightedRun n auths [] = (picks, current)"
  shows "set picks \<subseteq> Some ` set auths \<and>
    (\<forall>a \<in> set auths. total_weight auths * (int (count_list picks (Some a)) - 1) < int n * authWeight (Some a)) \<and>
    (int n = total_weight auths \<longrightarrow>
       (\<forall>a \<in> set auths. int (count_list picks (Some a)) = authWeight (Some a) \<and> weight_at current (ID a) = 0))"
proof -
  define W where "W = total_weight auths"
  let ?w = "\<lambda>a. authWeight (Some a)" and ?k = "\<lambda>a. int (count_list picks (Some a))"
  note inv = weightedRun_inv [OF assms(1-3) W_def _ run, folded W_def, OF assms(4) [folded W_def]]
  have Wpos: "0 < W" using total_weight_pos [OF assms(2,3)] by (simp add: W_def)
  have val: "weight_at current (ID a) = int n * ?w a - W * ?k a" "- W < weight_at current (ID a)"
    if "a \<in> set auths" for a
    using inv that by auto
  have ahead: "W * (?k a - 1) < int n * ?w a" if "a \<in> set auths" for a
    using val [OF that] by (simp add: algebra_simps)
  have exact: "?k a = ?w a \<and> weight_at current (ID a) = 0" if n: "int n = W" and a: "a \<in> set auths" for a
  proof -
    have le: "?k b \<le> ?w b" if "b \<in> set auths" for b
    proof -
      have "W * (?k b - 1) < W * ?w b" using ahead [OF that] n by simp
      then have "?k b - 1 < ?w b" using Wpos by (simp add: mult_less_cancel_left)
      then show ?thesis by simp
    qed
    have dist: "distinct auths" using assms(1) by (simp add: distinct_map)
    have "(\<Sum>b\<leftarrow>auths. count_list picks (Some b)) = n"
      using sum_counts [OF dist] inv by simp
    then have "(\<Sum>b\<leftarrow>auths. ?k b) = W"
      using n by (metis (no_types, lifting) map_eq_conv of_nat_sum_list_map)
    then have "(\<Sum>b\<leftarrow>auths. ?w b - ?k b) = 0" by (simp add: sum_list_subtractf W_def)
    then have "?w a - ?k a \<le> 0"
      using sum_list_member_nonneg [OF a, of "\<lambda>b. ?w b - ?k b"] le by simp
    with le [OF a] have eq: "?k a = ?w a" by simp
    with val(1) [OF a] n show ?thesis by simp
  qed
  show ?thesis using inv ahead exact unfolding W_def by auto
qed

definition weightAuth :: "string \<Rightarrow> int \<Rightarrow> Auth" where
  "weightAuth aid w = exampleAuth aid [(''weight'', GInt KInt64 w)]"

lemma weightAuth_weight [simp]: "0 \<le> w \<Longrightarrow> w \<le> MaxWeight \<Longrightarrow> authWeight (Some (weightAuth aid w)) = w"
  by (simp add: weightAuth_def exampleAuth_def authWeight_def Normalize_def)

lemma weightAuth_ID [simp]: "ID (weightAuth aid w) = aid"
  by (simp add: weightAuth_def exampleAuth_def)

lemma weighted_shares_witness:
  "\<exists>picks current. weightedRun 4 [weightAuth ''a'' 3, weightAuth ''b'' 1] [] = (picks, current) \<and>
     int (count_list picks (Some (weightAuth ''a'' 3))) = 3"
proof -
  have w: "(3::int) \<le> MaxWeight" "(1::int) \<le> MaxWeight" by (simp_all add: MaxWeight_def)
  obtain picks current where run: "weightedRun 4 [weightAuth ''a'' 3, weightAuth ''b'' 1] [] = (picks, current)"
    by fastforce
  from weighted_shares [OF _ _ _ _ run] w show ?thesis by (intro exI [of _ picks] exI [of _ current]) (simp add: run)
qed

end
