(* ===== verification/Selectors.thy ===== *)
theory Selectors
  imports SmoothWeighted "HOL-Library.Multiset"
begin

text \<open>
  The four built-in selectors of \<open>sdk/cliproxy/auth/selector.go\<close>. A selector is a state (cursors
  or smooth weights per provider and model) and a \<open>Pick\<close> that takes a request, the candidates
  and the request-time states. The contract of the Go interface \<open>Selector\<close> is the locale
  \<open>selector\<close>; it is interpreted on all four.

  The part of the request the selectors read is a record: the provider and model asked for, the
  time of the call (\<open>time.Now\<close>), whether the client is connected by websocket, whether it asked
  for a stream, and the route model the context may carry for the weighted state.
\<close>

record pick_request =
  reqProvider :: string
  reqModel :: string
  reqNow :: gotime
  reqDownstreamWebsocket :: bool
  reqStream :: bool
  reqStateModel :: string

definition selectorCandidates ::
  "pick_request \<Rightarrow> Auth option list \<Rightarrow> limits_env \<Rightarrow> (select_error + Auth list) \<times> limits_env" where
  "selectorCandidates req auths env =
     (case getAvailableAuths auths (reqProvider req) (reqModel req) (reqNow req) env of
        (Inl e, env') \<Rightarrow> (Inl e, env')
      | (Inr available, env') \<Rightarrow>
          (Inr (expiryPriorityAuths
                  (preferCodexWebsocketAuths (reqDownstreamWebsocket req) (reqProvider req)
                     (reqStream req) available)
                  (reqNow req)), env'))"

definition selectorLimit :: "int \<Rightarrow> int" where
  "selectorLimit maxKeys = (if maxKeys \<le> 0 then 4096 else maxKeys)"

definition cursorKeyFor :: "string \<Rightarrow> string \<Rightarrow> string" where
  "cursorKeyFor provider model = provider @ '':'' @ canonicalModelKey model"

text \<open>A key that is new to a full map resets the map.\<close>

definition ensureCursorKey :: "string \<Rightarrow> int \<Rightarrow> (string, 'v) gomap \<Rightarrow> (string, 'v) gomap" where
  "ensureCursorKey key limit m =
     (if glookup m key = None \<and> int (length m) \<ge> limit then [] else m)"

section \<open>Round robin\<close>

record cursor_selector =
  cursors :: "(string, int) gomap"
  maxKeys :: int

abbreviation cursor_at :: "(string, int) gomap \<Rightarrow> string \<Rightarrow> int" where
  "cursor_at \<equiv> weight_at"

definition nextCursor :: "string \<Rightarrow> cursor_selector \<Rightarrow> int \<times> cursor_selector" where
  "nextCursor key s =
     (let cs = ensureCursorKey key (selectorLimit (maxKeys s)) (cursors s);
          index = cursor_at cs key;
          index = (if index \<ge> 2147483640 then 0 else index)
      in (index, s\<lparr>cursors := gput key (index + 1) cs\<rparr>))"

definition RoundRobinPick ::
  "pick_request \<Rightarrow> Auth option list \<Rightarrow> cursor_selector \<times> limits_env \<Rightarrow>
     (select_error + Auth) \<times> cursor_selector \<times> limits_env" where
  "RoundRobinPick req auths = (\<lambda>(s, env).
     case selectorCandidates req auths env of
       (Inl e, env') \<Rightarrow> (Inl e, s, env')
     | (Inr available, env') \<Rightarrow>
         (let (index, s') = nextCursor (cursorKeyFor (reqProvider req) (reqModel req)) s
          in (Inr (available ! nat (go_mod index (int (length available)))), s', env')))"

section \<open>Fewest requests in flight\<close>

definition normalizeCursor :: "int \<Rightarrow> int \<Rightarrow> int" where
  "normalizeCursor cursor n =
     (if n \<le> 0 \<or> cursor \<le> 0 then 0
      else let c = go_mod cursor n in if c < 0 then c + n else c)"

text \<open>Reading the concurrency of a credential closes its expired windows.\<close>

definition concurrencyOf :: "gotime \<Rightarrow> Auth \<Rightarrow> limits_env \<Rightarrow> int \<times> limits_env" where
  "concurrencyOf now a env =
     (let (snap, st) = runtimeLimitSnapshot a now (env (ID a))
      in (CurrentConcurrency snap, env(ID a := st)))"

text \<open>The loop over the indices in visiting order, with the index and concurrency picked so far.\<close>

fun leastConcurrentLoop ::
  "gotime \<Rightarrow> ('e \<Rightarrow> Auth) \<Rightarrow> ('e \<Rightarrow> bool) \<Rightarrow> (nat \<times> 'e) list \<Rightarrow> (nat \<times> int) option \<Rightarrow> limits_env \<Rightarrow>
     (nat \<times> int) option \<times> limits_env" where
  "leastConcurrentLoop now authOf eligible [] picked env = (picked, env)"
| "leastConcurrentLoop now authOf eligible ((index, e) # rest) picked env =
     (if \<not> eligible e then leastConcurrentLoop now authOf eligible rest picked env
      else let (concurrency, env') = concurrencyOf now (authOf e) env
           in leastConcurrentLoop now authOf eligible rest
                (case picked of
                   None \<Rightarrow> Some (index, concurrency)
                 | Some (_, pickedConcurrency) \<Rightarrow>
                     if concurrency < pickedConcurrency then Some (index, concurrency) else picked)
                env')"

text \<open>The entries with their indices, starting at \<open>start\<close> and wrapping around.\<close>

definition rotation :: "nat \<Rightarrow> 'e list \<Rightarrow> (nat \<times> 'e) list" where
  "rotation start es =
     map (\<lambda>offset. let index = (start + offset) mod length es in (index, es ! index)) [0..<length es]"

definition ConcurrencyBalancedPick ::
  "pick_request \<Rightarrow> Auth option list \<Rightarrow> cursor_selector \<times> limits_env \<Rightarrow>
     (select_error + Auth) \<times> cursor_selector \<times> limits_env" where
  "ConcurrencyBalancedPick req auths = (\<lambda>(s, env).
     case selectorCandidates req auths env of
       (Inl e, env') \<Rightarrow> (Inl e, s, env')
     | (Inr available, env') \<Rightarrow>
         (let key = cursorKeyFor (reqProvider req) (reqModel req);
              cs = ensureCursorKey key (selectorLimit (maxKeys s)) (cursors s);
              start = nat (normalizeCursor (cursor_at cs key) (int (length available)));
              (picked, env'') = leastConcurrentLoop (reqNow req) (\<lambda>a. a) (\<lambda>_. True)
                                  (rotation start available) None env'
          in case picked of
               None \<Rightarrow> (Inl (SelectorError ''auth_unavailable'' ''no auth available''),
                        s\<lparr>cursors := cs\<rparr>, env'')
             | Some (pickedIndex, _) \<Rightarrow>
                 (Inr (available ! pickedIndex),
                  s\<lparr>cursors := gput key (int pickedIndex + 1) cs\<rparr>, env'')))"

section \<open>Smooth weights\<close>

record weighted_selector =
  states :: "(string, smoothWeightedState) gomap"
  maxStates :: int

definition weightedSelectorStateModel :: "pick_request \<Rightarrow> string" where
  "weightedSelectorStateModel req =
     (if trim_space (reqStateModel req) \<noteq> '''' then reqStateModel req else reqModel req)"

definition WeightedRoundRobinPick ::
  "pick_request \<Rightarrow> Auth option list \<Rightarrow> weighted_selector \<times> limits_env \<Rightarrow>
     (select_error + Auth) \<times> weighted_selector \<times> limits_env" where
  "WeightedRoundRobinPick req auths = (\<lambda>(s, env).
     case selectorCandidates req (positiveWeightAuths auths) env of
       (Inl e, env') \<Rightarrow> (Inl e, s, env')
     | (Inr available, env') \<Rightarrow>
         (let key = cursorKeyFor (reqProvider req) (weightedSelectorStateModel req);
              ss = ensureCursorKey key (selectorLimit (maxStates s)) (states s);
              state = (case glookup ss key of None \<Rightarrow> emptySmoothWeightedState | Some st \<Rightarrow> st);
              state = prepare (authWeightVector available) state;
              (picked, current) = pickSmoothWeightedAuth available (swCurrent state);
              s' = s\<lparr>states := gput key (state\<lparr>swCurrent := current\<rparr>) ss\<rparr>
          in case picked of
               None \<Rightarrow> (Inl (SelectorError ''auth_unavailable''
                               ''no auth available with positive weight''), s', env')
             | Some a \<Rightarrow> (Inr a, s', env')))"

section \<open>First available\<close>

definition FillFirstPick ::
  "pick_request \<Rightarrow> Auth option list \<Rightarrow> unit \<times> limits_env \<Rightarrow>
     (select_error + Auth) \<times> unit \<times> limits_env" where
  "FillFirstPick req auths = (\<lambda>(s, env).
     case selectorCandidates req auths env of
       (Inl e, env') \<Rightarrow> (Inl e, s, env')
     | (Inr available, env') \<Rightarrow> (Inr (available ! 0), s, env'))"

section \<open>The contract of a selector\<close>

lemma expiryPriorityAuths_subset: "set (expiryPriorityAuths auths now) \<subseteq> set auths"
proof (cases "sort_key (\<lambda>a. (remaining_of now a, ID a))
    (filter (\<lambda>a. authExpiryRemaining (Some a) now \<noteq> None) auths)")
  case Nil
  then show ?thesis by (simp add: expiryPriorityAuths_def Let_def)
next
  case (Cons b rest)
  then have "set (b # rest) \<subseteq> set auths"
    by (metis (no_types, lifting) filter_is_subset set_sort)
  moreover have "set (takeWhile P rest) \<subseteq> set rest" for P by (auto dest: set_takeWhileD)
  ultimately show ?thesis using Cons by (auto simp: expiryPriorityAuths_def Let_def)
qed

lemma expiryPriorityAuths_Nil: "expiryPriorityAuths auths now = [] \<longleftrightarrow> auths = []"
  by (auto simp: expiryPriorityAuths_def Let_def split: list.splits)

lemma preferCodexWebsocketAuths_subset:
  "set (preferCodexWebsocketAuths ws provider stream available) \<subseteq> set available"
  by (auto simp: preferCodexWebsocketAuths_def Let_def)

lemma preferCodexWebsocketAuths_Nil:
  "preferCodexWebsocketAuths ws provider stream available = [] \<longleftrightarrow> available = []"
  by (auto simp: preferCodexWebsocketAuths_def Let_def)

text \<open>What the candidates of a request are, for credentials with distinct ids.\<close>

definition ready_for :: "pick_request \<Rightarrow> limits_env \<Rightarrow> Auth list \<Rightarrow> Auth list" where
  "ready_for req env as = filter (\<lambda>a. \<not> blocked_now (reqModel req) (reqNow req) env a) as"

lemma getAvailableAuths_spec:
  assumes "distinct (map ID as)"
  shows "case fst (getAvailableAuths (map Some as) provider (reqModel req) (reqNow req) env) of
      Inl e \<Rightarrow> ready_for req env as = []
    | Inr l \<Rightarrow> ready_for req env as \<noteq> [] \<and> l \<noteq> [] \<and>
        set l = {a \<in> set (ready_for req env as).
                   \<forall>b \<in> set (ready_for req env as). authPriority (Some b) \<le> authPriority (Some a)}"
  using available_candidates [OF assms, of "ready_for req env as" "reqModel req" "reqNow req" env provider]
  by (auto simp: ready_for_def split: sum.splits)

lemma selectorCandidates_spec:
  assumes "distinct (map ID as)"
  shows "case fst (selectorCandidates req (map Some as) env) of
      Inl e \<Rightarrow> ready_for req env as = []
    | Inr l \<Rightarrow> l \<noteq> [] \<and>
        set l \<subseteq> {a \<in> set (ready_for req env as).
                   \<forall>b \<in> set (ready_for req env as). authPriority (Some b) \<le> authPriority (Some a)}"
proof -
  obtain r env' where g: "getAvailableAuths (map Some as) (reqProvider req) (reqModel req) (reqNow req) env =
      (r, env')" by fastforce
  note spec = getAvailableAuths_spec [OF assms, of req env "reqProvider req", unfolded g fst_conv]
  show ?thesis
  proof (cases r)
    case (Inl e)
    with spec g show ?thesis by (simp add: selectorCandidates_def)
  next
    case (Inr l)
    let ?l = "expiryPriorityAuths (preferCodexWebsocketAuths (reqDownstreamWebsocket req)
        (reqProvider req) (reqStream req) l) (reqNow req)"
    have "set ?l \<subseteq> set l"
      using expiryPriorityAuths_subset preferCodexWebsocketAuths_subset by (meson order_trans)
    moreover have "?l \<noteq> []"
      using spec Inr by (simp add: expiryPriorityAuths_Nil preferCodexWebsocketAuths_Nil)
    ultimately show ?thesis using spec Inr g by (auto simp: selectorCandidates_def)
  qed
qed

text \<open>
  \<open>admits\<close> is the filter a selector applies before it looks for candidates (only the weighted one
  has one). Its \<open>Pick\<close> fails when there are no candidates and otherwise returns one of them.
\<close>

locale selector =
  fixes pick :: "pick_request \<Rightarrow> Auth option list \<Rightarrow> 's \<times> limits_env \<Rightarrow>
      (select_error + Auth) \<times> 's \<times> limits_env"
    and admits :: "Auth option \<Rightarrow> bool"
  assumes pick_error: "fst (selectorCandidates req (filter admits auths) env) = Inl e \<Longrightarrow>
      fst (pick req auths (s, env)) = Inl e"
    and pick_candidate: "fst (selectorCandidates req (filter admits auths) env) = Inr l \<Longrightarrow> l \<noteq> [] \<Longrightarrow>
      (\<forall>a \<in> set l. admits (Some a)) \<Longrightarrow> \<exists>a. fst (pick req auths (s, env)) = Inr a \<and> a \<in> set l"
begin

lemma pick_best:
  assumes "distinct (map ID as)"
    and "ready = ready_for req env (filter (\<lambda>a. admits (Some a)) as)"
  shows "case fst (pick req (map Some as) (s, env)) of
      Inl e \<Rightarrow> ready = []
    | Inr a \<Rightarrow> a \<in> set ready \<and> (\<forall>b \<in> set ready. authPriority (Some b) \<le> authPriority (Some a))"
proof -
  let ?bs = "filter (\<lambda>a. admits (Some a)) as"
  have fm: "filter admits (map Some as) = map Some ?bs" by (simp add: filter_map comp_def)
  have dist: "distinct (map ID ?bs)" using assms(1) by (simp add: distinct_map_filter)
  note spec = selectorCandidates_spec [OF dist, of req env]
  show ?thesis
  proof (cases "fst (selectorCandidates req (map Some ?bs) env)")
    case (Inl e)
    with spec pick_error [of req "map Some as" env e s] show ?thesis by (simp add: fm assms(2))
  next
    case (Inr l)
    with spec have l: "l \<noteq> []" "set l \<subseteq> {a \<in> set ready. \<forall>b \<in> set ready.
        authPriority (Some b) \<le> authPriority (Some a)}" by (simp_all add: assms(2))
    have "\<forall>a \<in> set l. admits (Some a)" using l(2) by (auto simp: assms(2) ready_for_def)
    with pick_candidate [of req "map Some as" env l s] Inr l(1) fm
    obtain a where "fst (pick req (map Some as) (s, env)) = Inr a" "a \<in> set l" by auto
    with l(2) show ?thesis by auto
  qed
qed

end

section \<open>All four selectors meet it\<close>

lemma rotation_set: "i < length es \<Longrightarrow> (j, e) \<in> set (rotation i es) \<Longrightarrow> j < length es \<and> e = es ! j"
  by (cases es) (auto simp: rotation_def Let_def intro: mod_less_divisor)

lemma rotation_all: "es \<noteq> [] \<Longrightarrow> j < length es \<Longrightarrow> (j, es ! j) \<in> set (rotation i es)"
proof -
  assume es: "es \<noteq> []" and j: "j < length es"
  define n where "n = length es"
  define d where "d = (j + n - i mod n) mod n"
  have n: "0 < n" using es by (simp add: n_def)
  have le: "i mod n \<le> n" using n by (simp add: less_imp_le)
  have "(i + d) mod n = (i mod n + (j + n - i mod n)) mod n"
    unfolding d_def by (simp add: mod_simps)
  also have "\<dots> = (j + n) mod n" using le by simp
  also have "\<dots> = j" using j by (simp add: n_def)
  finally have "(i + d) mod n = j" .
  moreover have "d < n" using n by (simp add: d_def)
  ultimately show ?thesis by (force simp: rotation_def Let_def n_def)
qed

lemma leastConcurrentLoop_index:
  assumes "leastConcurrentLoop now authOf eligible xs picked env = (r, env')"
    and "\<forall>(j, e) \<in> set xs. j < n" and "case picked of None \<Rightarrow> True | Some (j, _) \<Rightarrow> j < n"
  shows "case r of None \<Rightarrow> picked = None \<and> (\<forall>(j, e) \<in> set xs. \<not> eligible e) | Some (j, _) \<Rightarrow> j < n"
  using assms
proof (induction now authOf eligible xs picked env rule: leastConcurrentLoop.induct)
  case (1 now authOf eligible picked env)
  then show ?case by (auto split: option.splits)
next
  case (2 now authOf eligible index e rest picked env)
  obtain c env1 where c: "concurrencyOf now (authOf e) env = (c, env1)" by fastforce
  show ?case
  proof (cases "eligible e")
    case False
    with 2 show ?thesis by (auto split: option.splits)
  next
    case True
    define picked1 where "picked1 = (case picked of None \<Rightarrow> Some (index, c)
        | Some (_, pc) \<Rightarrow> if c < pc then Some (index, c) else picked)"
    have run: "leastConcurrentLoop now authOf eligible rest picked1 env1 = (r, env')"
      using 2(3) True c by (simp add: picked1_def)
    have p1: "case picked1 of None \<Rightarrow> False | Some (j, _) \<Rightarrow> j < n"
      using 2(4,5) by (auto simp: picked1_def split: option.splits)
    have "case r of None \<Rightarrow> picked1 = None | Some (j, _) \<Rightarrow> j < n"
      using 2(2) [OF _ c [symmetric]] run True 2(4) p1
      by (auto simp: picked1_def split: option.splits)
    then show ?thesis using p1 by (auto split: option.splits)
  qed
qed

lemma smoothLoop_some:
  assumes "smoothLoop idf wt eligible es m picked tot = (m', r, tot')"
    and "\<exists>e \<in> set es. eligible e"
  shows "\<exists>p v. r = Some (p, v) \<and> (p \<in> set es \<or> (\<exists>u. picked = Some (p, u)))"
  using assms
proof (induction es arbitrary: m picked tot)
  case (Cons e es)
  show ?case
  proof (cases "eligible e")
    case False
    with Cons show ?thesis by fastforce
  next
    case True
    define v where "v = saturatingAddInt64 (weight_at m (idf e)) (wt e)"
    define picked1 where "picked1 = (case picked of None \<Rightarrow> Some (e, v)
        | Some (p, u) \<Rightarrow> if v > u then Some (e, v) else picked)"
    have p1: "\<exists>p u. picked1 = Some (p, u) \<and> (p = e \<or> (\<exists>u. picked = Some (p, u)))"
      by (auto simp: picked1_def split: option.splits)
    have run: "smoothLoop idf wt eligible es (gput (idf e) v m) picked1
        (saturatingAddInt64 tot (wt e)) = (m', r, tot')"
      unfolding picked1_def v_def using Cons.prems(1) True by (simp add: Let_def)
    show ?thesis
    proof (cases "\<exists>e \<in> set es. eligible e")
      case True
      from Cons.IH [OF run True] p1 show ?thesis by fastforce
    next
      case False
      then have "r = picked1" using run by (induction es arbitrary: m) (auto simp: False)
      with p1 show ?thesis by fastforce
    qed
  qed
qed simp

lemma smoothLoop_picked:
  "smoothLoop idf wt eligible es m picked tot = (m', r, tot') \<Longrightarrow> r = Some (p, v) \<Longrightarrow>
   picked = Some (p, v) \<or> p \<in> set es \<and> eligible p"
proof (induction es arbitrary: m picked tot)
  case (Cons e es)
  show ?case
  proof (cases "eligible e")
    case False
    with Cons show ?thesis by auto
  next
    case True
    define u where "u = saturatingAddInt64 (weight_at m (idf e)) (wt e)"
    define picked1 where "picked1 = (case picked of None \<Rightarrow> Some (e, u)
        | Some (p, x) \<Rightarrow> if u > x then Some (e, u) else picked)"
    have run: "smoothLoop idf wt eligible es (gput (idf e) u m) picked1
        (saturatingAddInt64 tot (wt e)) = (m', r, tot')"
      unfolding picked1_def u_def using Cons.prems(1) True by (simp add: Let_def)
    from Cons.IH [OF run Cons.prems(2)] True show ?thesis
      by (auto simp: picked1_def split: option.splits if_splits)
  qed
qed simp

lemma pickSmoothWeightedAuth_some:
  assumes "l \<noteq> []" and "\<forall>a \<in> set l. 0 < authWeight (Some a)"
  shows "\<exists>a m'. pickSmoothWeightedAuth l m = (Some a, m') \<and> a \<in> set l"
proof -
  let ?w = "\<lambda>a. authWeight (Some a)"
  obtain m1 r tot where loop: "smoothLoop ID ?w (\<lambda>a. 0 < ?w a) l m None 0 = (m1, r, tot)"
    by (metis prod.collapse)
  have "\<exists>e \<in> set l. 0 < ?w e" using assms by (cases l) auto
  from smoothLoop_some [OF loop this] obtain p v where "r = Some (p, v)" "p \<in> set l" by auto
  with loop show ?thesis by (auto simp: pickSmoothWeightedAuth_def Let_def smoothFinish_def)
qed

lemma round_robin_index: "0 < n \<Longrightarrow> nat (go_mod i (int n)) < n"
proof -
  assume n: "0 < n"
  define m where "m = \<bar>i\<bar> mod int n"
  have m: "0 \<le> m" "m < int n" using n by (simp_all add: m_def)
  have "go_mod i (int n) = sgn i * m" using n by (simp add: go_mod_def m_def)
  then have "go_mod i (int n) < int n" using m n by (cases "i < 0"; cases "i = 0") auto
  then show ?thesis using n by (simp add: nat_less_iff)
qed

lemma normalizeCursor_bounds: "0 < n \<Longrightarrow> 0 \<le> normalizeCursor c n \<and> normalizeCursor c n < n"
  using pos_mod_sign [of n c] pos_mod_bound [of n c]
  by (simp add: normalizeCursor_def Let_def go_mod_nonneg)

interpretation round_robin: selector RoundRobinPick "\<lambda>_. True"
proof
  fix req auths env e l and s :: cursor_selector
  show "fst (selectorCandidates req (filter (\<lambda>_. True) auths) env) = Inl e \<Longrightarrow>
      fst (RoundRobinPick req auths (s, env)) = Inl e"
    by (auto simp: RoundRobinPick_def split: prod.splits sum.splits)
  show "fst (selectorCandidates req (filter (\<lambda>_. True) auths) env) = Inr l \<Longrightarrow> l \<noteq> [] \<Longrightarrow>
      \<forall>a \<in> set l. True \<Longrightarrow> \<exists>a. fst (RoundRobinPick req auths (s, env)) = Inr a \<and> a \<in> set l"
    by (auto simp: RoundRobinPick_def Let_def round_robin_index split: prod.splits sum.splits)
qed

interpretation concurrency_balanced: selector ConcurrencyBalancedPick "\<lambda>_. True"
proof
  fix req auths env e l and s :: cursor_selector
  show "fst (selectorCandidates req (filter (\<lambda>_. True) auths) env) = Inl e \<Longrightarrow>
      fst (ConcurrencyBalancedPick req auths (s, env)) = Inl e"
    by (auto simp: ConcurrencyBalancedPick_def split: prod.splits sum.splits)
next
  fix req auths env l and s :: cursor_selector
  assume cand: "fst (selectorCandidates req (filter (\<lambda>_. True) auths) env) = Inr l" and l: "l \<noteq> []"
  obtain env1 where sc: "selectorCandidates req auths env = (Inr l, env1)"
    using cand by (metis filter_True prod.collapse)
  let ?key = "cursorKeyFor (reqProvider req) (reqModel req)"
  define cs where "cs = ensureCursorKey ?key (selectorLimit (maxKeys s)) (cursors s)"
  define start where "start = nat (normalizeCursor (cursor_at cs ?key) (int (length l)))"
  obtain r env2 where loop: "leastConcurrentLoop (reqNow req) (\<lambda>a. a) (\<lambda>_. True) (rotation start l) None env1 =
      (r, env2)" by fastforce
  have start: "start < length l"
    using l normalizeCursor_bounds [of "int (length l)" "cursor_at cs ?key"]
    by (simp add: start_def nat_less_iff)
  then have idx: "\<forall>(j, e) \<in> set (rotation start l). j < length l"
    by (auto dest: rotation_set)
  have ne: "rotation start l \<noteq> []" using l by (simp add: rotation_def)
  obtain j c where r: "r = Some (j, c)" "j < length l"
    using leastConcurrentLoop_index [OF loop idx] ne by (cases r; cases "rotation start l") auto
  then show "\<exists>a. fst (ConcurrencyBalancedPick req auths (s, env)) = Inr a \<and> a \<in> set l"
    using sc loop by (simp add: ConcurrencyBalancedPick_def Let_def cs_def start_def)
qed

interpretation weighted: selector WeightedRoundRobinPick "\<lambda>a. authWeight a > 0"
proof
  fix req auths env e l and s :: weighted_selector
  show "fst (selectorCandidates req (filter (\<lambda>a. authWeight a > 0) auths) env) = Inl e \<Longrightarrow>
      fst (WeightedRoundRobinPick req auths (s, env)) = Inl e"
    by (auto simp: WeightedRoundRobinPick_def positiveWeightAuths_def split: prod.splits sum.splits)
next
  fix req auths env l and s :: weighted_selector
  assume cand: "fst (selectorCandidates req (filter (\<lambda>a. authWeight a > 0) auths) env) = Inr l"
    and l: "l \<noteq> []" "\<forall>a \<in> set l. authWeight (Some a) > 0"
  obtain env1 where sc: "selectorCandidates req (positiveWeightAuths auths) env = (Inr l, env1)"
    using cand by (metis positiveWeightAuths_def prod.collapse)
  show "\<exists>a. fst (WeightedRoundRobinPick req auths (s, env)) = Inr a \<and> a \<in> set l"
    using sc pickSmoothWeightedAuth_some [OF l]
    by (auto simp: WeightedRoundRobinPick_def Let_def split: prod.splits option.splits) (metis fst_conv option.inject prod.inject option.distinct(1))+
qed

interpretation fill_first: selector FillFirstPick "\<lambda>_. True"
proof
  fix req auths env e l and s :: unit
  show "fst (selectorCandidates req (filter (\<lambda>_. True) auths) env) = Inl e \<Longrightarrow>
      fst (FillFirstPick req auths (s, env)) = Inl e"
    by (auto simp: FillFirstPick_def split: prod.splits sum.splits)
  show "fst (selectorCandidates req (filter (\<lambda>_. True) auths) env) = Inr l \<Longrightarrow> l \<noteq> [] \<Longrightarrow>
      \<forall>a \<in> set l. True \<Longrightarrow> \<exists>a. fst (FillFirstPick req auths (s, env)) = Inr a \<and> a \<in> set l"
    by (auto simp: FillFirstPick_def split: prod.splits sum.splits)
qed

section \<open>Properties\<close>

definition best_of :: "Auth list \<Rightarrow> select_error + Auth \<Rightarrow> bool" where
  "best_of ready result =
     (case result of
        Inl e \<Rightarrow> ready = []
      | Inr a \<Rightarrow> a \<in> set ready \<and> (\<forall>b \<in> set ready. authPriority (Some b) \<le> authPriority (Some a)))"

text \<open>
  C37 (every selector picks a best ready credential). With distinct ids, every built-in selector
  returns a credential that is unblocked for the model at the time of the request and has the
  highest priority among the unblocked ones, and fails only when every credential is blocked;
  the weighted selector considers only credentials of positive weight.
\<close>

theorem selectors_pick_best:
  assumes "distinct (map ID as)" and "ready = ready_for req env as"
    and "weighted_ready = ready_for req env (filter (\<lambda>a. 0 < authWeight (Some a)) as)"
  shows "best_of ready (fst (RoundRobinPick req (map Some as) (s1, env))) \<and>
    best_of ready (fst (ConcurrencyBalancedPick req (map Some as) (s2, env))) \<and>
    best_of weighted_ready (fst (WeightedRoundRobinPick req (map Some as) (s3, env))) \<and>
    best_of ready (fst (FillFirstPick req (map Some as) (s4, env)))"
  using round_robin.pick_best [OF assms(1), of ready req env s1]
    concurrency_balanced.pick_best [OF assms(1), of ready req env s2]
    weighted.pick_best [OF assms(1,3), of s3]
    fill_first.pick_best [OF assms(1), of ready req env s4]
  by (simp add: best_of_def assms(2) [symmetric])

text \<open>Successive round-robin picks of one key.\<close>

fun roundRobinRun :: "nat \<Rightarrow> string \<Rightarrow> cursor_selector \<Rightarrow> int list \<times> cursor_selector" where
  "roundRobinRun 0 key s = ([], s)"
| "roundRobinRun (Suc n) key s =
     (let (index, s') = nextCursor key s; (rest, s'') = roundRobinRun n key s' in (index # rest, s''))"

lemma roundRobinRun_known:
  "glookup (cursors s) key = Some c \<Longrightarrow> 0 \<le> c \<Longrightarrow> c + int n \<le> 2147483640 \<Longrightarrow>
   fst (roundRobinRun n key s) = map (\<lambda>i. c + int i) [0..<n]"
proof (induction n arbitrary: s c)
  case (Suc n)
  have next1: "nextCursor key s = (c, s\<lparr>cursors := gput key (c + 1) (cursors s)\<rparr>)"
    using Suc.prems by (simp add: nextCursor_def ensureCursorKey_def weight_at_def)
  have "fst (roundRobinRun n key (s\<lparr>cursors := gput key (c + 1) (cursors s)\<rparr>)) =
      map (\<lambda>i. c + 1 + int i) [0..<n]"
    by (rule Suc.IH) (use Suc.prems in \<open>simp_all add: glookup_put\<close>)
  moreover have "map (\<lambda>i. c + int i) [0..<Suc n] = c # map (\<lambda>i. c + 1 + int i) [0..<n]"
    by (simp add: upt_conv_Cons map_Suc_upt [symmetric] comp_def algebra_simps del: upt_Suc)
  ultimately show ?case using next1 by (simp add: split_beta del: upt_Suc)
qed simp

lemma mset_rotate: "mset (map (\<lambda>i. xs ! ((k + i) mod length xs)) [0..<length xs]) = mset xs"
proof -
  have "map (\<lambda>i. xs ! ((k + i) mod length xs)) [0..<length xs] = rotate k xs"
    by (rule nth_equalityI) (auto simp: nth_rotate add.commute)
  moreover have "mset (rotate k xs) = mset xs"
    unfolding rotate_drop_take
    by (metis add.commute append_take_drop_id mset_append)
  ultimately show ?thesis by simp
qed

lemma roundRobinRun_Suc:
  "nextCursor key s = (index, s') \<Longrightarrow>
   fst (roundRobinRun (Suc n) key s) = index # fst (roundRobinRun n key s')"
  by (simp split: prod.splits)

text \<open>
  Round robin is fair. While the candidates stay the same, as many successive picks of a key
  as there are candidates serve each of them exactly once, wherever the cursor stands; the
  hypothesis excludes the wrap of the cursor at 2147483640.
\<close>

theorem round_robin_fair:
  assumes "available \<noteq> []" and "0 \<le> cursor_at (cursors s) key"
    and "cursor_at (cursors s) key + int (length available) < 2147483640"
  shows "mset (map (\<lambda>index. available ! nat (go_mod index (int (length available))))
      (fst (roundRobinRun (length available) key s))) = mset available"
proof -
  let ?n = "length available"
  define cs where "cs = ensureCursorKey key (selectorLimit (maxKeys s)) (cursors s)"
  define c where "c = cursor_at cs key"
  have c: "0 \<le> c" "c + int ?n < 2147483640"
    using assms(2,3) by (auto simp: c_def cs_def ensureCursorKey_def)
  obtain m where m: "?n = Suc m" using assms(1) by (cases available) auto
  have first: "nextCursor key s = (c, s\<lparr>cursors := gput key (c + 1) cs\<rparr>)"
    using c unfolding nextCursor_def Let_def cs_def [symmetric] c_def [symmetric] by simp
  have "fst (roundRobinRun m key (s\<lparr>cursors := gput key (c + 1) cs\<rparr>)) = map (\<lambda>i. c + 1 + int i) [0..<m]"
    by (rule roundRobinRun_known) (use c m in \<open>simp_all add: glookup_put\<close>)
  moreover have "map (\<lambda>i. c + int i) [0..<Suc m] = c # map (\<lambda>i. c + 1 + int i) [0..<m]"
    by (simp add: upt_conv_Cons map_Suc_upt [symmetric] comp_def algebra_simps del: upt_Suc)
  ultimately have run: "fst (roundRobinRun ?n key s) = map (\<lambda>i. c + int i) [0..<?n]"
    unfolding m roundRobinRun_Suc [OF first] by simp
  have idx: "nat (go_mod (c + int i) (int ?n)) = (nat c + i) mod ?n" for i
    using c(1) m by (simp add: go_mod_nonneg nat_mod_distrib nat_add_distrib)
  show ?thesis
    unfolding run map_map comp_def idx by (rule mset_rotate)
qed

lemma round_robin_fair_witness:
  "mset (map (\<lambda>index. [exampleAuth ''a'' [], exampleAuth ''b'' []] ! nat (go_mod index 2))
     (fst (roundRobinRun 2 ''codex:m'' \<lparr>cursors = [(''codex:m'', 7)], maxKeys = 0\<rparr>))) =
   mset [exampleAuth ''a'' [], exampleAuth ''b'' []]"
  using round_robin_fair [of "[exampleAuth ''a'' [], exampleAuth ''b'' []]"
      "\<lparr>cursors = [(''codex:m'', 7)], maxKeys = 0\<rparr>" "''codex:m''"]
  by (simp add: weight_at_def numeral_2_eq_2)

lemma selectors_pick_best_witness:
  "\<exists>ready. best_of ready (fst (FillFirstPick
      \<lparr>reqProvider = ''codex'', reqModel = '''', reqNow = 5, reqDownstreamWebsocket = False,
       reqStream = False, reqStateModel = ''''\<rparr>
      (map Some [exampleAuth ''a'' [], exampleAuth ''b'' []]) ((), \<lambda>_. newRuntimeLimits)))"
proof -
  have ids: "distinct (map ID [exampleAuth ''a'' [], exampleAuth ''b'' []])"
    by (simp add: exampleAuth_def)
  from selectors_pick_best [OF ids refl refl] show ?thesis by blast
qed

section \<open>Fewest requests in flight, proved\<close>

lemma concurrencyOf_reads:
  "fst (concurrencyOf now a env) = currentConcurrency (env (ID a))"
  "currentConcurrency (snd (concurrencyOf now a env) i) = currentConcurrency (env i)"
  by (simp_all add: concurrencyOf_def runtimeLimitSnapshot_def Let_def split: prod.splits)

lemma leastConcurrentLoop_min:
  assumes "leastConcurrentLoop now authOf eligible xs picked env = (Some (j, c), env')"
    and "\<And>i. currentConcurrency (env i) = conc i"
  shows "(picked = Some (j, c) \<or>
      (\<exists>e. (j, e) \<in> set xs \<and> eligible e \<and> c = conc (ID (authOf e)))) \<and>
    (\<forall>(i, e) \<in> set xs. eligible e \<longrightarrow> c \<le> conc (ID (authOf e))) \<and>
    (case picked of None \<Rightarrow> True | Some (_, p) \<Rightarrow> c \<le> p)"
  using assms
proof (induction xs arbitrary: picked env)
  case Nil
  then show ?case by simp
next
  case (Cons x rest)
  obtain index e where x: "x = (index, e)" by fastforce
  show ?case
  proof (cases "eligible e")
    case False
    with Cons x show ?thesis by auto
  next
    case True
    obtain c1 env1 where c1: "concurrencyOf now (authOf e) env = (c1, env1)" by fastforce
    have read: "c1 = conc (ID (authOf e))" "\<And>i. currentConcurrency (env1 i) = conc i"
      using concurrencyOf_reads [of now "authOf e" env] c1 Cons.prems(2) by simp_all
    define picked1 where "picked1 = (case picked of None \<Rightarrow> Some (index, c1)
        | Some (_, pc) \<Rightarrow> if c1 < pc then Some (index, c1) else picked)"
    have run: "leastConcurrentLoop now authOf eligible rest picked1 env1 = (Some (j, c), env')"
      using Cons.prems(1) True c1 x by (simp add: picked1_def)
    from Cons.IH [OF run read(2)] read(1) True x show ?thesis
      by (auto simp: picked1_def split: option.splits if_splits)
  qed
qed

text \<open>
  Fewest requests in flight. The concurrency-balanced selector returns a candidate that no
  other candidate undercuts in requests in flight.
\<close>

theorem concurrency_balanced_least:
  assumes "selectorCandidates req auths env = (Inr available, env1)"
    and "fst (ConcurrencyBalancedPick req auths (s, env)) = Inr a"
  shows "a \<in> set available \<and>
    (\<forall>b \<in> set available. currentConcurrency (env1 (ID a)) \<le> currentConcurrency (env1 (ID b)))"
proof -
  let ?key = "cursorKeyFor (reqProvider req) (reqModel req)"
  define cs where "cs = ensureCursorKey ?key (selectorLimit (maxKeys s)) (cursors s)"
  define start where "start = nat (normalizeCursor (cursor_at cs ?key) (int (length available)))"
  obtain r env2 where loop: "leastConcurrentLoop (reqNow req) (\<lambda>a. a) (\<lambda>_. True)
      (rotation start available) None env1 = (r, env2)" by fastforce
  obtain j c where r: "r = Some (j, c)" and a: "a = available ! j"
    using assms loop by (cases r) (auto simp: ConcurrencyBalancedPick_def Let_def cs_def start_def)
  note min = leastConcurrentLoop_min [OF loop [unfolded r] refl, simplified]
  then have "available \<noteq> []" by (auto simp: rotation_def)
  then have start: "start < length available"
    using normalizeCursor_bounds [of "int (length available)" "cursor_at cs ?key"]
    by (simp add: start_def nat_less_iff)
  obtain e where e: "(j, e) \<in> set (rotation start available)" "c = currentConcurrency (env1 (ID e))"
    using min by auto
  have j: "j < length available" "e = available ! j" using rotation_set [OF start e(1)] by auto
  have "c \<le> currentConcurrency (env1 (ID b))" if b: "b \<in> set available" for b
  proof -
    obtain i where "i < length available" "b = available ! i" using b by (auto simp: in_set_conv_nth)
    then have "(i, b) \<in> set (rotation start available)"
      using rotation_all [of available i start] \<open>available \<noteq> []\<close> by simp
    with min show ?thesis by auto
  qed
  with e(2) j a show ?thesis by auto
qed

definition exampleRequest :: pick_request where
  "exampleRequest =
     \<lparr>reqProvider = ''codex'', reqModel = '''', reqNow = 5, reqDownstreamWebsocket = False,
      reqStream = False, reqStateModel = ''''\<rparr>"

lemma concurrency_balanced_least_witness:
  "\<exists>available env1 a. selectorCandidates exampleRequest [Some (exampleAuth ''a'' [])] (\<lambda>_. newRuntimeLimits) =
       (Inr available, env1) \<and> a \<in> set available"
proof -
  let ?as = "[exampleAuth ''a'' []]" and ?env = "\<lambda>_. newRuntimeLimits" and ?s = "\<lparr>cursors = [], maxKeys = 0\<rparr>"
  have ready: "ready_for exampleRequest ?env ?as \<noteq> []"
    by (simp add: ready_for_def exampleRequest_def example_free)
  obtain r env1 where sc: "selectorCandidates exampleRequest (map Some ?as) ?env = (r, env1)" by fastforce
  with selectorCandidates_spec [of ?as exampleRequest ?env] ready obtain l where r: "r = Inr l"
    by (cases r) auto
  obtain a where pick: "fst (ConcurrencyBalancedPick exampleRequest (map Some ?as) (?s, ?env)) = Inr a"
    using concurrency_balanced.pick_best [of ?as "ready_for exampleRequest ?env ?as" exampleRequest ?env ?s] ready
    by (auto split: sum.splits)
  from concurrency_balanced_least [OF sc [unfolded r] pick] sc r show ?thesis by auto
qed

end
