(* ===== verification/ReadyView.thy ===== *)
theory ReadyView
  imports Selectors
begin

text \<open>
  The ready views of \<open>sdk/cliproxy/auth/scheduler.go\<close>: lists of credentials ready for one model
  at one priority, with a cursor and smooth weights per view, and the picks on them.

  The scheduler shares pointers to its entries between the entry map of a shard and the views, and
  updates entries in place. An entry is identified by its credential's id (the key of the map),
  so a view holds ids and every pick reads the entries through the map. Entries are never nil and
  \<open>entry.auth\<close> is always \<open>entry.meta.auth\<close>. A nil predicate is the one that is always true.
\<close>

section \<open>Types\<close>

datatype schedulerStrategy = schedulerStrategyCurrent | schedulerStrategyCustom
  | schedulerStrategyRoundRobin | schedulerStrategyFillFirst
  | schedulerStrategyWeightedRoundRobin | schedulerStrategyConcurrencyBalanced

datatype scheduledState = scheduledStateReady | scheduledStateCooldown
  | scheduledStateBlocked | scheduledStateDisabled

fun scheduledStatePreference :: "scheduledState \<Rightarrow> int" where
  "scheduledStatePreference scheduledStateReady = 4"
| "scheduledStatePreference scheduledStateCooldown = 3"
| "scheduledStatePreference scheduledStateBlocked = 2"
| "scheduledStatePreference scheduledStateDisabled = 1"

text \<open>The preference orders the states, so the library's order facts apply to them.\<close>

instantiation scheduledState :: linorder
begin

definition less_eq_scheduledState :: "scheduledState \<Rightarrow> scheduledState \<Rightarrow> bool" where
  "less_eq_scheduledState a b \<longleftrightarrow> scheduledStatePreference a \<le> scheduledStatePreference b"

definition less_scheduledState :: "scheduledState \<Rightarrow> scheduledState \<Rightarrow> bool" where
  "less_scheduledState a b \<longleftrightarrow> scheduledStatePreference a < scheduledStatePreference b"

instance
proof
  fix x y z :: scheduledState
  show "(x < y) = (x \<le> y \<and> \<not> y \<le> x)"
    by (auto simp: less_eq_scheduledState_def less_scheduledState_def)
  show "x \<le> x" by (simp add: less_eq_scheduledState_def)
  show "x \<le> y \<Longrightarrow> y \<le> z \<Longrightarrow> x \<le> z" by (simp add: less_eq_scheduledState_def)
  show "x \<le> y \<Longrightarrow> y \<le> x \<Longrightarrow> x = y"
    by (cases x; cases y) (simp_all add: less_eq_scheduledState_def)
  show "x \<le> y \<or> y \<le> x" by (auto simp: less_eq_scheduledState_def)
qed

end

record scheduledAuthMeta =
  metaAuth :: Auth
  providerKey :: string
  metaPriority :: int
  metaWeight :: int
  websocketEnabled :: bool
  canonicalIdentity :: string
  canonicalScore :: int
  supportedModelSet :: "string list"
  selectionModelSet :: "(string, string) gomap"

record scheduledAuth =
  entryMeta :: scheduledAuthMeta
  entryExpiresAt :: gotime
  entryLeaseExpiresAt :: gotime
  entryState :: scheduledState
  entryNextRetryAt :: gotime

abbreviation entryAuth :: "scheduledAuth \<Rightarrow> Auth" where
  "entryAuth e \<equiv> metaAuth (entryMeta e)"

abbreviation entryID :: "scheduledAuth \<Rightarrow> string" where
  "entryID e \<equiv> ID (entryAuth e)"

type_synonym entry_store = "(string, scheduledAuth) gomap"

record readyView =
  flat :: "string list"
  viewCursor :: int
  weightedState :: smoothWeightedState
  expiryFlat :: "string list"
  expiryCursor :: int
  expiryWeightedState :: smoothWeightedState

definition entriesOf :: "entry_store \<Rightarrow> string list \<Rightarrow> scheduledAuth list" where
  "entriesOf store ids = List.map_filter (glookup store) ids"

section \<open>Building a view\<close>

definition buildReadyView :: "entry_store \<Rightarrow> string list \<Rightarrow> readyView" where
  "buildReadyView store ids =
     (let expiring = filter (\<lambda>e. entryExpiresAt e \<noteq> zeroTime) (entriesOf store ids)
      in \<lparr>flat = ids, viewCursor = 0, weightedState = emptySmoothWeightedState,
          expiryFlat = map entryID (sort_key (\<lambda>e. (entryExpiresAt e, entryID e)) expiring),
          expiryCursor = 0, expiryWeightedState = emptySmoothWeightedState\<rparr>)"

definition scheduledWeightVectorMatching ::
  "scheduledAuth list \<Rightarrow> (scheduledAuth \<Rightarrow> bool) \<Rightarrow> (string, int) gomap" where
  "scheduledWeightVectorMatching es predicate =
     fold (\<lambda>e weights. if metaWeight (entryMeta e) \<le> 0 \<or> \<not> predicate e then weights
                       else gput (entryID e) (metaWeight (entryMeta e)) weights) es []"

definition scheduledWeightVector :: "scheduledAuth list \<Rightarrow> (string, int) gomap" where
  "scheduledWeightVector es = scheduledWeightVectorMatching es (\<lambda>_. True)"

text \<open>The cursors of the view a rebuilt one replaces are carried over.\<close>

record readyViewCursorState =
  savedCursor :: int
  savedWeighted :: smoothWeightedState
  savedExpiryCursor :: int
  savedExpiryWeighted :: smoothWeightedState

definition snapshotReadyViewCursors :: "readyView \<Rightarrow> readyViewCursorState" where
  "snapshotReadyViewCursors v =
     \<lparr>savedCursor = viewCursor v, savedWeighted = weightedState v,
      savedExpiryCursor = expiryCursor v, savedExpiryWeighted = expiryWeightedState v\<rparr>"

definition restoreReadyViewCursors ::
  "entry_store \<Rightarrow> readyViewCursorState \<Rightarrow> readyView \<Rightarrow> readyView" where
  "restoreReadyViewCursors store state v =
     (let v = (if length (flat v) > 0
               then v\<lparr>viewCursor := normalizeCursor (savedCursor state) (int (length (flat v)))\<rparr> else v);
          v = v\<lparr>expiryCursor := normalizeCursor (savedExpiryCursor state) (int (length (expiryFlat v)))\<rparr>;
          weights = scheduledWeightVector (entriesOf store (flat v));
          v = (if length (swCurrent (savedWeighted state)) > 0 \<and>
                  weightVectorsEqual (swWeights (savedWeighted state)) weights
               then v\<lparr>weightedState := savedWeighted state\<rparr>
               else v\<lparr>weightedState := emptySmoothWeightedState\<rparr>)
      in v\<lparr>expiryWeightedState := savedExpiryWeighted state\<rparr>)"

section \<open>Picks\<close>

definition pickFirst ::
  "entry_store \<Rightarrow> (scheduledAuth \<Rightarrow> bool) \<Rightarrow> readyView \<Rightarrow> scheduledAuth option" where
  "pickFirst store predicate v = find predicate (entriesOf store (flat v))"

definition roundRobinEntries ::
  "scheduledAuth list \<Rightarrow> int \<Rightarrow> (scheduledAuth \<Rightarrow> bool) \<Rightarrow> scheduledAuth option \<times> int" where
  "roundRobinEntries es cursor predicate =
     (if es = [] then (None, cursor)
      else let start = nat (go_mod cursor (int (length es)))
           in case find (\<lambda>(index, e). predicate e) (rotation start es) of
                None \<Rightarrow> (None, cursor)
              | Some (index, e) \<Rightarrow> (Some e, int index + 1))"

definition pickRoundRobin ::
  "entry_store \<Rightarrow> (scheduledAuth \<Rightarrow> bool) \<Rightarrow> readyView \<Rightarrow> scheduledAuth option \<times> readyView" where
  "pickRoundRobin store predicate v =
     (let (picked, cursor) = roundRobinEntries (entriesOf store (flat v)) (viewCursor v) predicate
      in (picked, v\<lparr>viewCursor := cursor\<rparr>))"

text \<open>Unlike the selector, the scheduler drops the ineligible ids before the loop.\<close>

definition pickSmoothWeightedScheduled ::
  "scheduledAuth list \<Rightarrow> (string, int) gomap \<Rightarrow> (scheduledAuth \<Rightarrow> bool) \<Rightarrow>
     scheduledAuth option \<times> (string, int) gomap" where
  "pickSmoothWeightedScheduled es current predicate =
     (let eligible = (\<lambda>e. metaWeight (entryMeta e) > 0 \<and> predicate e);
          current = dropInactive (entryID ` set (filter eligible es)) current;
          (current, picked, totalWeight) =
            smoothLoop entryID (\<lambda>e. metaWeight (entryMeta e)) eligible es current None 0
      in smoothFinish entryID current picked totalWeight)"

definition pickWeightedEntries ::
  "scheduledAuth list \<Rightarrow> (scheduledAuth \<Rightarrow> bool) \<Rightarrow> smoothWeightedState \<Rightarrow>
     scheduledAuth option \<times> smoothWeightedState" where
  "pickWeightedEntries es predicate state =
     (let state = prepare (scheduledWeightVectorMatching es predicate) state;
          (picked, current) = pickSmoothWeightedScheduled es (swCurrent state) predicate
      in (picked, state\<lparr>swCurrent := current\<rparr>))"

definition pickWeighted ::
  "entry_store \<Rightarrow> (scheduledAuth \<Rightarrow> bool) \<Rightarrow> readyView \<Rightarrow> scheduledAuth option \<times> readyView" where
  "pickWeighted store predicate v =
     (if flat v = [] then (None, v)
      else let (picked, state) = pickWeightedEntries (entriesOf store (flat v)) predicate (weightedState v)
           in (picked, v\<lparr>weightedState := state\<rparr>))"

definition pickLeastConcurrentScheduled ::
  "scheduledAuth list \<Rightarrow> int \<Rightarrow> (scheduledAuth \<Rightarrow> bool) \<Rightarrow> gotime \<Rightarrow> limits_env \<Rightarrow>
     (scheduledAuth option \<times> int) \<times> limits_env" where
  "pickLeastConcurrentScheduled es cursor predicate now env =
     (if es = [] then ((None, cursor), env)
      else let start = nat (normalizeCursor cursor (int (length es)));
               (picked, env') = leastConcurrentLoop now entryAuth predicate (rotation start es) None env
           in case picked of
                None \<Rightarrow> ((None, cursor), env')
              | Some (pickedIndex, _) \<Rightarrow> ((Some (es ! pickedIndex), int pickedIndex + 1), env'))"

definition pickLeastConcurrent ::
  "entry_store \<Rightarrow> (scheduledAuth \<Rightarrow> bool) \<Rightarrow> gotime \<Rightarrow> readyView \<Rightarrow> limits_env \<Rightarrow>
     (scheduledAuth option \<times> readyView) \<times> limits_env" where
  "pickLeastConcurrent store predicate now v env =
     (if flat v = [] then ((None, v), env)
      else let ((picked, cursor'), env') =
                 pickLeastConcurrentScheduled (entriesOf store (flat v)) (viewCursor v) predicate now env
           in ((picked, if picked = None then v else v\<lparr>viewCursor := cursor'\<rparr>), env'))"

section \<open>The expiry lane of a view\<close>

definition expiryEligible :: "gotime \<Rightarrow> scheduledAuth \<Rightarrow> bool" where
  "expiryEligible now e \<longleftrightarrow>
     \<not> (entryExpiresAt e = zeroTime \<or> entryExpiresAt e > now + authExpiryPriorityWindow \<or>
        (\<not> entryExpiresAt e > now \<and> entryLeaseExpiresAt e = zeroTime))"

definition scheduledAuthExpiryPriorityEligible :: "scheduledAuth \<Rightarrow> gotime \<Rightarrow> bool" where
  "scheduledAuthExpiryPriorityEligible e now =
     (if entryExpiresAt e = zeroTime \<or> entryExpiresAt e > now + authExpiryPriorityWindow then False
      else entryExpiresAt e > now \<or> entryLeaseExpiresAt e \<noteq> zeroTime)"

definition appendExpiringScheduledEntries ::
  "scheduledAuth list \<Rightarrow> scheduledAuth list \<Rightarrow> (scheduledAuth \<Rightarrow> bool) \<Rightarrow> gotime \<Rightarrow> scheduledAuth list" where
  "appendExpiringScheduledEntries out es predicate now =
     out @ filter (\<lambda>e. scheduledAuthExpiryPriorityEligible e now \<and> predicate e) es"

definition narrowScheduledExpiryLane :: "scheduledAuth list \<Rightarrow> scheduledAuth list" where
  "narrowScheduledExpiryLane es =
     (if length es \<le> 1 then es
      else case sort_key (\<lambda>e. (entryExpiresAt e, entryID e)) es of
             [] \<Rightarrow> []
           | boundary # rest \<Rightarrow>
               boundary # takeWhile
                 (\<lambda>e. \<not> entryExpiresAt e > entryExpiresAt boundary + authExpiryCohortWindow) rest)"

text \<open>
  The boundary is the first eligible entry of the expiry order: the minimum number of candidates
  is one. \<open>None\<close> when no entry is eligible, so there is no lane.
\<close>

definition expiringLane ::
  "scheduledAuth list \<Rightarrow> (scheduledAuth \<Rightarrow> bool) \<Rightarrow> gotime \<Rightarrow> (scheduledAuth \<Rightarrow> bool) option" where
  "expiringLane es predicate now =
     (let isEligible = (\<lambda>e. expiryEligible now e \<and> predicate e)
      in case find isEligible es of
           None \<Rightarrow> None
         | Some boundary \<Rightarrow>
             Some (\<lambda>e. isEligible e \<and>
                     \<not> entryExpiresAt e > entryExpiresAt boundary + authExpiryCohortWindow))"

definition pickExpiring ::
  "entry_store \<Rightarrow> (scheduledAuth \<Rightarrow> bool) \<Rightarrow> schedulerStrategy \<Rightarrow> gotime \<Rightarrow> readyView \<Rightarrow> limits_env \<Rightarrow>
     (scheduledAuth option \<times> readyView) \<times> limits_env" where
  "pickExpiring store predicate strategy now v env =
     (let es = entriesOf store (expiryFlat v)
      in if expiryFlat v = [] then ((None, v), env)
         else case expiringLane es predicate now of
                None \<Rightarrow> ((None, v), env)
              | Some isExpiring \<Rightarrow>
                  (case strategy of
                     schedulerStrategyFillFirst \<Rightarrow> ((find isExpiring es, v), env)
                   | schedulerStrategyWeightedRoundRobin \<Rightarrow>
                       (let (picked, state) = pickWeightedEntries es isExpiring (expiryWeightedState v)
                        in ((picked, v\<lparr>expiryWeightedState := state\<rparr>), env))
                   | schedulerStrategyConcurrencyBalanced \<Rightarrow>
                       (let ((picked, cursor'), env') =
                              pickLeastConcurrentScheduled es (expiryCursor v) isExpiring now env
                        in ((picked, v\<lparr>expiryCursor := cursor'\<rparr>), env'))
                   | _ \<Rightarrow>
                       (let (picked, cursor) = roundRobinEntries es (expiryCursor v) isExpiring
                        in ((picked, v\<lparr>expiryCursor := cursor\<rparr>), env))))"

text \<open>
  A pick of a view: the expiry lane first, then the strategy over all entries. The clock is read
  again for the second pick.
\<close>

definition pickView ::
  "entry_store \<Rightarrow> (scheduledAuth \<Rightarrow> bool) \<Rightarrow> schedulerStrategy \<Rightarrow> gotime \<Rightarrow> gotime \<Rightarrow> readyView \<Rightarrow> limits_env \<Rightarrow>
     (scheduledAuth option \<times> readyView) \<times> limits_env" where
  "pickView store predicate strategy now later v env =
     (case pickExpiring store predicate strategy now v env of
        ((Some e, v'), env') \<Rightarrow> ((Some e, v'), env')
      | ((None, v'), env') \<Rightarrow>
          (case strategy of
             schedulerStrategyFillFirst \<Rightarrow> ((pickFirst store predicate v', v'), env')
           | schedulerStrategyWeightedRoundRobin \<Rightarrow> (pickWeighted store predicate v', env')
           | schedulerStrategyConcurrencyBalanced \<Rightarrow> pickLeastConcurrent store predicate later v' env'
           | _ \<Rightarrow> (pickRoundRobin store predicate v', env')))"

section \<open>The contract of a pick\<close>

text \<open>
  A pick over a list of entries returns an entry that satisfies the predicate (and, for the
  weighted picks, has positive weight), and returns one whenever there is one. The state is what
  the pick keeps between calls.
\<close>

locale entry_picker =
  fixes pick :: "scheduledAuth list \<Rightarrow> (scheduledAuth \<Rightarrow> bool) \<Rightarrow> 's \<Rightarrow> scheduledAuth option \<times> 's"
    and admits :: "scheduledAuth \<Rightarrow> bool"
  assumes pick_sound: "fst (pick es predicate s) = Some e \<Longrightarrow> e \<in> set es \<and> predicate e \<and> admits e"
    and pick_complete: "fst (pick es predicate s) = None \<Longrightarrow> e \<in> set es \<Longrightarrow> predicate e \<Longrightarrow> \<not> admits e"
begin

lemma pick_iff: "fst (pick es predicate s) = None \<longleftrightarrow> (\<forall>e \<in> set es. predicate e \<longrightarrow> \<not> admits e)"
  using pick_sound pick_complete by (metis not_None_eq)

text \<open>Successive picks stay within the predicate.\<close>

lemma pick_lane:
  assumes "\<forall>e. lane e \<longrightarrow> predicate e" and "fst (pick es lane s) = Some e"
  shows "predicate e \<and> lane e"
  using assms pick_sound by blast

end

text \<open>
  The four picks in this shape; the state of the last one is the cursor with the request-time
  states.
\<close>

abbreviation first_entry ::
  "scheduledAuth list \<Rightarrow> (scheduledAuth \<Rightarrow> bool) \<Rightarrow> unit \<Rightarrow> scheduledAuth option \<times> unit" where
  "first_entry \<equiv> \<lambda>es predicate s. (find predicate es, s)"

abbreviation round_robin_entry ::
  "scheduledAuth list \<Rightarrow> (scheduledAuth \<Rightarrow> bool) \<Rightarrow> int \<Rightarrow> scheduledAuth option \<times> int" where
  "round_robin_entry \<equiv> \<lambda>es predicate cursor. roundRobinEntries es cursor predicate"

abbreviation least_entry ::
  "gotime \<Rightarrow> scheduledAuth list \<Rightarrow> (scheduledAuth \<Rightarrow> bool) \<Rightarrow> int \<times> limits_env \<Rightarrow>
     scheduledAuth option \<times> int \<times> limits_env" where
  "least_entry now \<equiv> \<lambda>es predicate (cursor, env).
     case pickLeastConcurrentScheduled es cursor predicate now env of
       ((picked, cursor'), env') \<Rightarrow> (picked, cursor', env')"

interpretation first: entry_picker first_entry "\<lambda>_. True"
  by unfold_locales (auto simp: find_Some_iff find_None_iff)

lemma rotation_entries: "es \<noteq> [] \<Longrightarrow> i < length es \<Longrightarrow> snd ` set (rotation i es) = set es"
proof
  assume "es \<noteq> []" "i < length es"
  then show "snd ` set (rotation i es) \<subseteq> set es" by (auto dest: rotation_set)
  show "set es \<subseteq> snd ` set (rotation i es)"
    using rotation_all [OF \<open>es \<noteq> []\<close>, of _ i] by (force simp: in_set_conv_nth)
qed

interpretation round_robin_pick: entry_picker round_robin_entry "\<lambda>_. True"
proof
  fix es :: "scheduledAuth list" and predicate cursor e
  have start: "es \<noteq> [] \<Longrightarrow> nat (go_mod cursor (int (length es))) < length es"
    by (rule round_robin_index) simp
  show "fst (roundRobinEntries es cursor predicate) = Some e \<Longrightarrow> e \<in> set es \<and> predicate e \<and> True"
    using rotation_set [OF start]
    by (auto simp: roundRobinEntries_def Let_def find_Some_iff split: if_splits option.splits)
      (metis nth_mem)+
  show "fst (roundRobinEntries es cursor predicate) = None \<Longrightarrow> e \<in> set es \<Longrightarrow> predicate e \<Longrightarrow> \<not> True"
    using rotation_entries [OF _ start]
    by (auto simp: roundRobinEntries_def Let_def find_None_iff split: if_splits option.splits) force
qed

interpretation weighted_pick: entry_picker pickWeightedEntries "\<lambda>e. metaWeight (entryMeta e) > 0"
proof
  fix es :: "scheduledAuth list" and predicate e and s :: smoothWeightedState
  let ?wt = "\<lambda>e :: scheduledAuth. metaWeight (entryMeta e)"
  let ?el = "\<lambda>e :: scheduledAuth. metaWeight (entryMeta e) > 0 \<and> predicate e"
  define m where "m = dropInactive (entryID ` set (filter ?el es))
      (swCurrent (prepare (scheduledWeightVectorMatching es predicate) s))"
  obtain m1 r tot where loop: "smoothLoop entryID ?wt ?el es m None 0 = (m1, r, tot)" by (metis prod.collapse)
  have res: "fst (pickWeightedEntries es predicate s) = map_option fst r"
    unfolding pickWeightedEntries_def pickSmoothWeightedScheduled_def Let_def m_def [symmetric] loop prod.case
    by (cases r) (auto simp: smoothFinish_def)
  have el: "\<exists>e \<in> set es. ?el e" if "r \<noteq> None"
  proof (rule ccontr)
    assume none: "\<not> (\<exists>e \<in> set es. ?el e)"
    have "\<lbrakk>\<not> (\<exists>e \<in> set xs. ?el e); smoothLoop entryID ?wt ?el xs m p t = (m1, r, tot)\<rbrakk> \<Longrightarrow> r = p"
      for xs m p t by (induction xs arbitrary: m p t) auto
    from this [OF none loop] that show False by simp
  qed
  show "fst (pickWeightedEntries es predicate s) = Some e \<Longrightarrow> e \<in> set es \<and> predicate e \<and> ?wt e > 0"
    using smoothLoop_picked [OF loop] res by auto
  show "fst (pickWeightedEntries es predicate s) = None \<Longrightarrow> e \<in> set es \<Longrightarrow> predicate e \<Longrightarrow> \<not> ?wt e > 0"
    using smoothLoop_some [OF loop] res by auto
qed

interpretation least_pick: entry_picker "least_entry now" "\<lambda>_. True" for now
proof
  fix es :: "scheduledAuth list" and predicate e and s :: "int \<times> limits_env"
  obtain cursor env where s: "s = (cursor, env)" by fastforce
  define start where "start = nat (normalizeCursor cursor (int (length es)))"
  obtain r env' where loop: "leastConcurrentLoop now entryAuth predicate (rotation start es) None env = (r, env')"
    by fastforce
  have start: "start < length es" if "es \<noteq> []"
    using normalizeCursor_bounds [of "int (length es)" cursor] that by (simp add: start_def nat_less_iff)
  have res: "fst (least_entry now es predicate s) =
      (if es = [] then None else map_option (\<lambda>(j, c). es ! j) r)"
    using loop by (auto simp: s pickLeastConcurrentScheduled_def Let_def start_def split: option.splits)
  show "fst (least_entry now es predicate s) = Some e \<Longrightarrow> e \<in> set es \<and> predicate e \<and> True"
  proof -
    assume some: "fst (least_entry now es predicate s) = Some e"
    with res have es: "es \<noteq> []" by (auto split: if_splits)
    from some res es obtain j c where r: "r = Some (j, c)" "e = es ! j" by auto
    from leastConcurrentLoop_min [OF loop [unfolded r] refl]
    obtain x where "(j, x) \<in> set (rotation start es)" "predicate x" by auto
    with rotation_set [OF start [OF es], of j x] r(2) show ?thesis by (metis nth_mem)
  qed
  show "fst (least_entry now es predicate s) = None \<Longrightarrow> e \<in> set es \<Longrightarrow> predicate e \<Longrightarrow> \<not> True"
  proof -
    assume none: "fst (least_entry now es predicate s) = None" and e: "e \<in> set es" "predicate e"
    from e have es: "es \<noteq> []" by auto
    with none res have r: "r = None" by simp
    have idx: "\<forall>(j, x) \<in> set (rotation start es). j < length es"
      using rotation_set [OF start [OF es]] by auto
    have "\<forall>(j, x) \<in> set (rotation start es). \<not> predicate x"
      using leastConcurrentLoop_index [OF loop idx] r by simp
    moreover have "e \<in> snd ` set (rotation start es)"
      using rotation_entries [OF es start [OF es]] e by simp
    ultimately show "\<not> True" using e by auto
  qed
qed

section \<open>A pick of a view\<close>

text \<open>What the strategy itself asks of an entry, beside the predicate.\<close>

definition strategy_admits :: "schedulerStrategy \<Rightarrow> scheduledAuth \<Rightarrow> bool" where
  "strategy_admits strategy e \<longleftrightarrow>
     (strategy = schedulerStrategyWeightedRoundRobin \<longrightarrow> metaWeight (entryMeta e) > 0)"

definition store_ok :: "entry_store \<Rightarrow> bool" where
  "store_ok store \<longleftrightarrow> (\<forall>i e. glookup store i = Some e \<longrightarrow> entryID e = i)"

definition view_ok :: "entry_store \<Rightarrow> readyView \<Rightarrow> bool" where
  "view_ok store v \<longleftrightarrow> expiryFlat v = expiryFlat (buildReadyView store (flat v))"

abbreviation view_entries :: "entry_store \<Rightarrow> readyView \<Rightarrow> scheduledAuth list" where
  "view_entries store v \<equiv> entriesOf store (flat v)"

lemma set_entriesOf: "set (entriesOf store ids) = {e. \<exists>i \<in> set ids. glookup store i = Some e}"
  by (force simp: entriesOf_def List.map_filter_def)

lemma entriesOf_Nil [simp]: "entriesOf store [] = []"
  by (simp add: entriesOf_def map_filter_simps)

lemma entriesOf_ids:
  "\<forall>e \<in> set es. glookup store (entryID e) = Some e \<Longrightarrow> entriesOf store (map entryID es) = es"
  by (induction es) (simp_all add: entriesOf_def map_filter_simps)

lemma entriesOf_store:
  "store_ok store \<Longrightarrow> e \<in> set (entriesOf store ids) \<Longrightarrow> glookup store (entryID e) = Some e"
  by (auto simp: set_entriesOf store_ok_def)

lemma expiry_entries:
  assumes "store_ok store" "view_ok store v"
  shows "entriesOf store (expiryFlat v) =
    sort_key (\<lambda>e. (entryExpiresAt e, entryID e))
      (filter (\<lambda>e. entryExpiresAt e \<noteq> zeroTime) (view_entries store v))"
  using assms by (auto simp: view_ok_def buildReadyView_def intro!: entriesOf_ids dest: entriesOf_store)

lemma pickExpiring_frame:
  "flat (snd (fst (pickExpiring store predicate strategy now v env))) = flat v"
  "expiryFlat (snd (fst (pickExpiring store predicate strategy now v env))) = expiryFlat v"
  by (auto simp: pickExpiring_def Let_def split: option.splits schedulerStrategy.splits prod.splits)

lemma pickView_frame:
  "flat (snd (fst (pickView store predicate strategy now later v env))) = flat v \<and>
   expiryFlat (snd (fst (pickView store predicate strategy now later v env))) = expiryFlat v"
  using pickExpiring_frame [of store predicate strategy now v env]
  by (auto simp: pickView_def pickRoundRobin_def pickWeighted_def pickLeastConcurrent_def Let_def
        split: option.splits schedulerStrategy.splits prod.splits)

text \<open>The lane's pick is the strategy's pick with the lane as its predicate.\<close>

lemma pickExpiring_sound:
  assumes "fst (fst (pickExpiring store predicate strategy now v env)) = Some e"
  obtains lane where "expiringLane (entriesOf store (expiryFlat v)) predicate now = Some lane"
    "e \<in> set (entriesOf store (expiryFlat v))" "lane e" "strategy_admits strategy e"
proof -
  let ?es = "entriesOf store (expiryFlat v)"
  from assms obtain lane where lane: "expiringLane ?es predicate now = Some lane"
    by (auto simp: pickExpiring_def Let_def split: if_splits option.splits)
  have ne: "expiryFlat v \<noteq> []" using assms by (auto simp: pickExpiring_def)
  have "e \<in> set ?es \<and> lane e \<and> strategy_admits strategy e"
  proof (cases strategy)
    case schedulerStrategyFillFirst
    then show ?thesis using assms lane ne first.pick_sound [where es = ?es and predicate = lane and e = e]
      by (auto simp: pickExpiring_def strategy_admits_def)
  next
    case schedulerStrategyWeightedRoundRobin
    then show ?thesis using assms lane ne weighted_pick.pick_sound [of ?es lane "expiryWeightedState v" e]
      by (auto simp: pickExpiring_def strategy_admits_def split: prod.splits)
  next
    case schedulerStrategyConcurrencyBalanced
    then show ?thesis using assms lane ne least_pick.pick_sound [where now = now and es = ?es and predicate = lane and s = "(expiryCursor v, env)" and e = e]
      by (auto simp: pickExpiring_def strategy_admits_def split: prod.splits)
  qed (use assms lane ne round_robin_pick.pick_sound [where es = ?es and predicate = lane and s = "expiryCursor v" and e = e] in
      \<open>auto simp: pickExpiring_def strategy_admits_def split: prod.splits\<close>)
  with lane show thesis by (auto intro: that)
qed

lemma pickExpiring_none:
  assumes "fst (fst (pickExpiring store predicate strategy now v env)) = None"
    and "expiringLane (entriesOf store (expiryFlat v)) predicate now = Some lane"
    and "e \<in> set (entriesOf store (expiryFlat v))" "lane e"
  shows "\<not> strategy_admits strategy e"
proof -
  let ?es = "entriesOf store (expiryFlat v)"
  have ne: "expiryFlat v \<noteq> []" using assms(3) by auto
  show ?thesis
  proof (cases strategy)
    case schedulerStrategyFillFirst
    then show ?thesis using assms ne first.pick_complete [where es = ?es and predicate = lane and e = e]
      by (auto simp: pickExpiring_def)
  next
    case schedulerStrategyWeightedRoundRobin
    then show ?thesis using assms ne weighted_pick.pick_complete [of ?es lane "expiryWeightedState v" e]
      by (auto simp: pickExpiring_def strategy_admits_def split: prod.splits)
  next
    case schedulerStrategyConcurrencyBalanced
    then show ?thesis using assms ne least_pick.pick_complete [where now = now and es = ?es and predicate = lane and s = "(expiryCursor v, env)" and e = e]
      by (auto simp: pickExpiring_def split: prod.splits)
  qed (use assms ne round_robin_pick.pick_complete [where es = ?es and predicate = lane and s = "expiryCursor v" and e = e] in
      \<open>auto simp: pickExpiring_def split: prod.splits\<close>)
qed

text \<open>The second pick of a view, on what the first left.\<close>

lemma pickView_second:
  assumes "pickExpiring store predicate strategy now v env = ((None, v'), env')"
  shows "fst (fst (pickView store predicate strategy now later v env)) = Some e \<Longrightarrow>
           e \<in> set (view_entries store v) \<and> predicate e \<and> strategy_admits strategy e"
    and "fst (fst (pickView store predicate strategy now later v env)) = None \<Longrightarrow>
           e \<in> set (view_entries store v) \<Longrightarrow> predicate e \<Longrightarrow> \<not> strategy_admits strategy e"
proof -
  let ?es = "entriesOf store (flat v)"
  have fl: "flat v' = flat v"
    using pickExpiring_frame(1) [of store predicate strategy now v env] assms by simp
  have second: "fst (fst (pickView store predicate strategy now later v env)) =
      (case strategy of
         schedulerStrategyFillFirst \<Rightarrow> find predicate ?es
       | schedulerStrategyWeightedRoundRobin \<Rightarrow>
           if flat v = [] then None else fst (pickWeightedEntries ?es predicate (weightedState v'))
       | schedulerStrategyConcurrencyBalanced \<Rightarrow>
           if flat v = [] then None else fst (least_entry later ?es predicate (viewCursor v', env'))
       | _ \<Rightarrow> fst (roundRobinEntries ?es (viewCursor v') predicate))"
    using assms fl
    by (auto simp: pickView_def pickFirst_def pickWeighted_def pickLeastConcurrent_def pickRoundRobin_def Let_def
          split: schedulerStrategy.splits prod.splits)
  show "fst (fst (pickView store predicate strategy now later v env)) = Some e \<Longrightarrow>
      e \<in> set ?es \<and> predicate e \<and> strategy_admits strategy e"
    unfolding second strategy_admits_def
    using first.pick_sound [where es = ?es and predicate = predicate and e = e]
      weighted_pick.pick_sound [where es = ?es and predicate = predicate and s = "weightedState v'" and e = e]
      least_pick.pick_sound [where now = later and es = ?es and predicate = predicate and s = "(viewCursor v', env')" and e = e]
      round_robin_pick.pick_sound [where es = ?es and predicate = predicate and s = "viewCursor v'" and e = e]
    by (auto split: schedulerStrategy.splits if_splits)
  show "fst (fst (pickView store predicate strategy now later v env)) = None \<Longrightarrow>
      e \<in> set ?es \<Longrightarrow> predicate e \<Longrightarrow> \<not> strategy_admits strategy e"
    unfolding second strategy_admits_def
    using first.pick_complete [where es = ?es and predicate = predicate and e = e]
      weighted_pick.pick_complete [where es = ?es and predicate = predicate and s = "weightedState v'" and e = e]
      least_pick.pick_complete [where now = later and es = ?es and predicate = predicate and s = "(viewCursor v', env')" and e = e]
      round_robin_pick.pick_complete [where es = ?es and predicate = predicate and s = "viewCursor v'" and e = e]
    by (auto split: schedulerStrategy.splits if_splits)
qed

lemma pickView_first:
  assumes "pickExpiring store predicate strategy now v env = ((Some e, v'), env')"
  shows "pickView store predicate strategy now later v env = ((Some e, v'), env')"
  using assms by (simp add: pickView_def)

lemma expiringLane_predicate: "expiringLane es predicate now = Some lane \<Longrightarrow> lane e \<Longrightarrow> predicate e \<and> expiryEligible now e"
  by (auto simp: expiringLane_def Let_def split: option.splits)

lemma pickView_sound:
  assumes "store_ok store" "view_ok store v"
    and "fst (fst (pickView store predicate strategy now later v env)) = Some e"
  shows "e \<in> set (view_entries store v) \<and> predicate e \<and> strategy_admits strategy e"
proof (cases "fst (fst (pickExpiring store predicate strategy now v env))")
  case None
  then obtain v' env' where "pickExpiring store predicate strategy now v env = ((None, v'), env')"
    by (metis prod.collapse)
  from pickView_second(1) [OF this assms(3)] show ?thesis .
next
  case (Some x)
  then obtain v' env' where px: "pickExpiring store predicate strategy now v env = ((Some x, v'), env')"
    by (metis prod.collapse)
  with pickView_first [OF px] assms(3) have x: "x = e" by simp
  from pickExpiring_sound [OF Some] obtain lane where
    "expiringLane (entriesOf store (expiryFlat v)) predicate now = Some lane"
    "x \<in> set (entriesOf store (expiryFlat v))" "lane x" "strategy_admits strategy x" .
  with expiringLane_predicate [of _ predicate now lane x] expiry_entries [OF assms(1,2)] x
  show ?thesis by auto
qed

lemma pickView_complete:
  assumes "fst (fst (pickView store predicate strategy now later v env)) = None"
    and "e \<in> set (view_entries store v)" "predicate e"
  shows "\<not> strategy_admits strategy e"
proof (cases "fst (fst (pickExpiring store predicate strategy now v env))")
  case None
  then obtain v' env' where "pickExpiring store predicate strategy now v env = ((None, v'), env')"
    by (metis prod.collapse)
  from pickView_second(2) [OF this assms] show ?thesis .
next
  case (Some x)
  then obtain v' env' where "pickExpiring store predicate strategy now v env = ((Some x, v'), env')"
    by (metis prod.collapse)
  with pickView_first [OF this] assms(1) show ?thesis by simp
qed

text \<open>The lane of a sorted expiry order: the eligible entries within a minute of the earliest.\<close>

lemma expiringLane_sorted:
  assumes "sorted (map entryExpiresAt es)"
    and "expiringLane es predicate now = Some lane" and "lane e"
    and "x \<in> set es" "expiryEligible now x" "predicate x"
  shows "entryExpiresAt e \<le> entryExpiresAt x + authExpiryCohortWindow"
proof -
  from assms(2) obtain b where b: "find (\<lambda>e. expiryEligible now e \<and> predicate e) es = Some b"
    and lane: "lane = (\<lambda>e. (expiryEligible now e \<and> predicate e) \<and>
        \<not> entryExpiresAt e > entryExpiresAt b + authExpiryCohortWindow)"
    by (auto simp: expiringLane_def Let_def split: option.splits)
  have "entryExpiresAt b \<le> entryExpiresAt x"
    using b assms(1,4,5,6) by (induction es) (auto split: if_splits)
  with assms(3) lane show ?thesis by auto
qed

lemma expiringLane_None:
  "expiringLane es predicate now = None \<longleftrightarrow> (\<forall>x \<in> set es. expiryEligible now x \<longrightarrow> \<not> predicate x)"
  by (auto simp: expiringLane_def Let_def find_None_iff find_Some_iff split: option.splits)

lemma expiringLane_boundary:
  assumes "expiringLane es predicate now = Some lane"
  obtains b where "b \<in> set es" "lane b"
proof -
  from assms obtain b where b: "find (\<lambda>e. expiryEligible now e \<and> predicate e) es = Some b"
    and lane: "lane = (\<lambda>e. (expiryEligible now e \<and> predicate e) \<and>
        \<not> entryExpiresAt e > entryExpiresAt b + authExpiryCohortWindow)"
    by (auto simp: expiringLane_def Let_def split: option.splits)
  from b obtain i where "i < length es" "es ! i = b" "expiryEligible now b" "predicate b"
    by (auto simp: find_Some_iff)
  then have "b \<in> set es" and "lane b" by (auto simp: lane)
  then show thesis by (rule that)
qed

text \<open>
  Near-expiry entries go first. If some entry of a view is eligible for the near-expiry lane
  and satisfies the request's predicate, then a pick of the view, whatever the strategy, returns
  an entry of the lane: eligible, satisfying the predicate and expiring at most a minute after
  any other such entry.
\<close>

theorem pickView_expiry_first:
  assumes "store_ok store" "view_ok store v"
    and "\<forall>y. predicate y \<longrightarrow> strategy_admits strategy y"
    and "x \<in> set (view_entries store v)" "expiryEligible now x" "predicate x"
  shows "\<exists>e. fst (fst (pickView store predicate strategy now later v env)) = Some e \<and>
           predicate e \<and> expiryEligible now e \<and>
           entryExpiresAt e \<le> entryExpiresAt x + authExpiryCohortWindow"
proof -
  let ?es = "entriesOf store (expiryFlat v)"
  have x: "x \<in> set ?es"
    using assms(4,5) by (auto simp: expiry_entries [OF assms(1,2)] expiryEligible_def)
  have sorted: "sorted (map entryExpiresAt ?es)"
  proof (rule sorted_map_mono)
    show "sorted (map (\<lambda>e. (entryExpiresAt e, entryID e)) ?es)"
      by (simp only: expiry_entries [OF assms(1,2)] sorted_sort_key)
  qed (auto simp: less_eq_prod_def)
  obtain lane where lane: "expiringLane ?es predicate now = Some lane"
    using expiringLane_None [of ?es predicate now] x assms(5,6) by (cases "expiringLane ?es predicate now") auto
  obtain b where b: "b \<in> set ?es" "lane b"
    by (rule expiringLane_boundary [OF lane])
  obtain e where e: "fst (fst (pickExpiring store predicate strategy now v env)) = Some e"
    using pickExpiring_none [OF _ lane b] assms(3) expiringLane_predicate [OF lane b(2)]
    by (cases "fst (fst (pickExpiring store predicate strategy now v env))") auto
  then obtain v' env' where "pickExpiring store predicate strategy now v env = ((Some e, v'), env')"
    by (metis prod.collapse)
  from pickView_first [OF this] have "fst (fst (pickView store predicate strategy now later v env)) = Some e"
    by simp
  moreover from pickExpiring_sound [OF e] lane have le: "lane e" by (metis option.inject)
  ultimately show ?thesis
    using expiringLane_predicate [OF lane le] expiringLane_sorted [OF sorted lane le x assms(5,6)] by auto
qed

definition exampleEntry :: "string \<Rightarrow> gotime \<Rightarrow> int \<Rightarrow> scheduledAuth" where
  "exampleEntry i expires priority =
     \<lparr>entryMeta = \<lparr>metaAuth = exampleAuth i [], providerKey = ''codex'', metaPriority = priority,
        metaWeight = 1, websocketEnabled = False, canonicalIdentity = '''', canonicalScore = 100,
        supportedModelSet = [''''], selectionModelSet = [('''', '''')]\<rparr>,
      entryExpiresAt = expires, entryLeaseExpiresAt = zeroTime, entryState = scheduledStateReady,
      entryNextRetryAt = zeroTime\<rparr>"

lemma exampleEntry_simps [simp]:
  "entryID (exampleEntry i t p) = i" "entryExpiresAt (exampleEntry i t p) = t"
  "metaWeight (entryMeta (exampleEntry i t p)) = 1" "metaPriority (entryMeta (exampleEntry i t p)) = p"
  "entryLeaseExpiresAt (exampleEntry i t p) = zeroTime"
  by (simp_all add: exampleEntry_def exampleAuth_def)

lemma pickView_expiry_first_witness:
  "\<exists>e. fst (fst (pickView [(''a'', exampleEntry ''a'' 0 0), (''b'', exampleEntry ''b'' 9 0)] (\<lambda>_. True)
          schedulerStrategyRoundRobin 5 6
          (buildReadyView [(''a'', exampleEntry ''a'' 0 0), (''b'', exampleEntry ''b'' 9 0)] [''a'', ''b''])
          (\<lambda>_. newRuntimeLimits))) = Some e \<and>
     True \<and> expiryEligible 5 e \<and> entryExpiresAt e \<le> entryExpiresAt (exampleEntry ''b'' 9 0) + authExpiryCohortWindow"
  by (rule pickView_expiry_first)
    (auto simp: store_ok_def view_ok_def buildReadyView_def strategy_admits_def expiryEligible_def
      set_entriesOf split: if_splits)

end
