(* ===== verification/Eligibility.thy ===== *)
theory Eligibility
  imports AuthModel
begin

text \<open>
  Which credentials a request may use at all: the classification of a credential
  (\<open>sdk/cliproxy/auth/classification.go\<close>, \<open>executorKeyFromAuth\<close> of
  \<open>conductor_execution.go\<close>), the credential policy (\<open>credential_policy.go\<close>), the account groups
  of API keys (\<open>account_groups.go\<close>, \<open>account_group_policy.go\<close>) and the eligibility test of
  \<open>conductor_selection.go\<close> that combines them.

  The functions of this theory check for a nil credential first and then return their zero
  value (an empty text, false); the model takes credentials that are not nil. The metadata of a
  request is a map of dynamically typed values, as in \<open>Options.Metadata\<close>.
\<close>

section \<open>Classification\<close>

definition authAttribute :: "Auth \<Rightarrow> string \<Rightarrow> string" where
  "authAttribute auth key = trim_space (case glookup (Attributes auth) key of None \<Rightarrow> '''' | Some s \<Rightarrow> s)"

definition authMetadataString :: "Auth \<Rightarrow> string \<Rightarrow> string" where
  "authMetadataString auth key =
     (case glookup (Metadata auth) key of Some (GStr s) \<Rightarrow> trim_space s | _ \<Rightarrow> '''')"

definition normalizeAuthKind :: "string \<Rightarrow> string" where
  "normalizeAuthKind kind =
     (let k = to_lower (trim_space kind)
      in if k \<in> {''apikey'', ''api_key'', ''api-key''} then ''apikey''
         else if k \<in> {''oauth'', ''oauth2''} then ''oauth''
         else '''')"

definition authHasOAuthMetadata :: "Auth \<Rightarrow> bool" where
  "authHasOAuthMetadata auth \<longleftrightarrow>
     Metadata auth \<noteq> [] \<and>
     (list_ex (\<lambda>key. authMetadataString auth key \<noteq> '''')
        [''access_token'', ''refresh_token'', ''id_token'', ''email'', ''token_type'', ''expires_at'', ''expired''] \<or>
      (case glookup (Metadata auth) ''token'' of Some (GMap token) \<Rightarrow> token \<noteq> [] | _ \<Rightarrow> False))"

definition AuthKind :: "Auth \<Rightarrow> string" where
  "AuthKind a =
     (if normalizeAuthKind (authAttribute a ''auth_kind'') \<noteq> ''''
      then normalizeAuthKind (authAttribute a ''auth_kind'')
      else if normalizeAuthKind (authMetadataString a ''auth_kind'') \<noteq> ''''
      then normalizeAuthKind (authMetadataString a ''auth_kind'')
      else if authAttribute a ''api_key'' \<noteq> '''' then ''apikey''
      else if authHasOAuthMetadata a then ''oauth''
      else '''')"

definition normalizeAuthSourceKind :: "string \<Rightarrow> string" where
  "normalizeAuthSourceKind source =
     (let s = to_lower (trim_space source)
      in if s = ''config'' then ''config''
         else if s \<in> {''file'', ''filesystem''} then ''file''
         else if s = ''git'' then ''git''
         else if s \<in> {''memory'', ''runtime'', ''runtime_only''} then ''memory''
         else if s \<in> {''objectstore'', ''object-store''} then ''objectstore''
         else if s \<in> {''postgres'', ''postgresql'', ''database'', ''db''} then ''postgres''
         else '''')"

definition AuthSourceKind :: "Auth \<Rightarrow> string" where
  "AuthSourceKind a =
     (if equal_fold (authAttribute a ''runtime_only'') ''true'' then ''memory''
      else if normalizeAuthSourceKind (authAttribute a ''source_backend'') \<noteq> ''''
      then normalizeAuthSourceKind (authAttribute a ''source_backend'')
      else let source = authAttribute a ''source''
           in if source \<noteq> ''''
              then (if has_prefix (to_lower source) ''config:'' then ''config''
                    else if normalizeAuthSourceKind source \<noteq> '''' then normalizeAuthSourceKind source
                    else ''file'')
              else if authAttribute a ''path'' \<noteq> '''' then ''file''
              else if trim_space (FileName a) \<noteq> '''' then ''file''
              else '''')"

definition OpenAICompatibleProviderKey :: "string \<Rightarrow> string" where
  "OpenAICompatibleProviderKey name0 =
     (let name = to_lower (trim_space name0)
      in if name = '''' \<or> name = ''openai-compatibility'' \<or> has_prefix name ''openai-compatible-''
         then (if name = '''' then ''openai-compatibility'' else name)
         else ''openai-compatible-'' @ name)"

definition executorKeyFromAuth :: "Auth \<Rightarrow> string" where
  "executorKeyFromAuth auth =
     (let providerKey = authAttribute auth ''provider_key'';
          compatName = authAttribute auth ''compat_name''
      in if compatName \<noteq> ''''
         then OpenAICompatibleProviderKey (if providerKey = '''' then compatName else providerKey)
         else if equal_fold (trim_space (Provider auth)) ''openai-compatibility''
         then OpenAICompatibleProviderKey
                (if trim_space (Label auth) = '''' then ''openai-compatibility'' else trim_space (Label auth))
         else to_lower (trim_space (Provider auth)))"

definition isFreeCodexAuth :: "Auth \<Rightarrow> bool" where
  "isFreeCodexAuth auth \<longleftrightarrow>
     equal_fold (trim_space (Provider auth)) ''codex'' \<and>
     equal_fold (authAttribute auth ''plan_type'') ''free''"

section \<open>Credential policies\<close>

abbreviation CredentialPolicyCodexAlphaSearchV1 :: string where
  "CredentialPolicyCodexAlphaSearchV1 \<equiv> ''codex_alpha_search_v1''"

definition normalizeCredentialPolicy :: "string \<Rightarrow> string" where
  "normalizeCredentialPolicy policy =
     (if to_lower (trim_space policy) = CredentialPolicyCodexAlphaSearchV1
      then CredentialPolicyCodexAlphaSearchV1 else '''')"

definition credentialPolicyAllows :: "string \<Rightarrow> Auth \<Rightarrow> bool" where
  "credentialPolicyAllows policy auth =
     (if policy = CredentialPolicyCodexAlphaSearchV1
      then if \<not> equal_fold (trim_space (Provider auth)) ''codex'' then False
           else if AuthKind auth = ''oauth'' then True
           else if AuthKind auth = ''apikey'' then equal_fold (authAttribute auth ''codex_alpha_search'') ''true''
           else False
      else False)"

text \<open>A missing metadata entry reads as nil, on which the test is false.\<close>

definition codexClientRestrictionEnabledForAuth :: "Auth \<Rightarrow> bool" where
  "codexClientRestrictionEnabledForAuth auth =
     (if \<not> equal_fold (trim_space (executorKeyFromAuth auth)) ''codex'' \<or> AuthKind auth \<noteq> ''oauth'' then False
      else case glookup (Metadata auth) ''codex_cli_only'' of
             None \<Rightarrow> False
           | Some v \<Rightarrow> parseBoolAny v = Some True)"

definition codexClientRestrictionAppServerEnabledForAuth :: "Auth \<Rightarrow> bool" where
  "codexClientRestrictionAppServerEnabledForAuth auth =
     (if \<not> codexClientRestrictionEnabledForAuth auth then False
      else case glookup (Metadata auth) ''codex_cli_only_allow_app_server'' of
             None \<Rightarrow> False
           | Some v \<Rightarrow> parseBoolAny v = Some True)"

section \<open>Account groups\<close>

text \<open>The loop keeps the first occurrence of each positive id.\<close>

fun dedupPositive :: "int list \<Rightarrow> int list \<Rightarrow> int list \<Rightarrow> int list" where
  "dedupPositive [] seen out = out"
| "dedupPositive (i # ids) seen out =
     (if i \<le> 0 \<or> i \<in> set seen then dedupPositive ids seen out
      else dedupPositive ids (i # seen) (out @ [i]))"

definition normalizePositiveGroupIDs :: "int list \<Rightarrow> int list" where
  "normalizePositiveGroupIDs ids = sort (dedupPositive ids [] [])"

definition NormalizeAccountGroupIDs :: "int list \<Rightarrow> int list" where
  "NormalizeAccountGroupIDs ids = sort (dedupPositive ids [] [])"

abbreviation float_is_int :: "gofloat \<Rightarrow> bool" where
  "float_is_int f \<equiv> f = Fin (of_int (flt_to_int64 f))"

text \<open>A NaN differs from every float, itself included, so it is never integral.\<close>

definition runtimeGroupID :: "gov \<Rightarrow> int option" where
  "runtimeGroupID value =
     (case value of
        GInt KInt i \<Rightarrow> if i > 0 then Some i else None
      | GInt KInt64 i \<Rightarrow> if i > 0 then Some i else None
      | GFloat64 f \<Rightarrow> if float_is_int f \<and> flt_to_int64 f > 0 then Some (flt_to_int64 f) else None
      | GNumber s \<Rightarrow> (case parse_int64 s of Some i \<Rightarrow> if i > 0 then Some i else None | None \<Rightarrow> None)
      | GStr s \<Rightarrow> (case parse_int64 (trim_space s) of Some i \<Rightarrow> if i > 0 then Some i else None | None \<Rightarrow> None)
      | _ \<Rightarrow> None)"

definition normalizeRuntimeGroupIDs :: "gov \<Rightarrow> int list" where
  "normalizeRuntimeGroupIDs value =
     (case value of
        GList values \<Rightarrow> normalizePositiveGroupIDs (List.map_filter runtimeGroupID values)
      | GInt64s ids \<Rightarrow> normalizePositiveGroupIDs ids
      | GInts ids \<Rightarrow> normalizePositiveGroupIDs ids
      | GFloats fs \<Rightarrow> normalizePositiveGroupIDs (map flt_to_int64 (filter (\<lambda>f. float_is_int f) fs))
      | _ \<Rightarrow> [])"

record accountGroupSelection =
  selectionKey :: string
  selectionIDs :: "int list"

fun accountGroupSelectionKey :: "int list \<Rightarrow> string" where
  "accountGroupSelectionKey [] = ''''"
| "accountGroupSelectionKey [i] = format_int i"
| "accountGroupSelectionKey (i # j # ids) = format_int i @ '','' @ accountGroupSelectionKey (j # ids)"

record APIKeyGroupPolicy =
  APIKeyHash :: string
  AllowedGroupIDs :: "int list"

definition compileAPIKeyGroupPolicySnapshot ::
  "APIKeyGroupPolicy list \<Rightarrow> (string, accountGroupSelection) gomap" where
  "compileAPIKeyGroupPolicySnapshot policies =
     fold (\<lambda>policy byHash.
        let hash = to_lower (trim_space (APIKeyHash policy));
            ids = NormalizeAccountGroupIDs (AllowedGroupIDs policy)
        in if hash = '''' \<or> ids = [] then byHash
           else gput hash \<lparr>selectionKey = accountGroupSelectionKey ids, selectionIDs = ids\<rparr> byHash)
       policies []"

type_synonym request_metadata = "(string, gov) gomap"

abbreviation "DownstreamAPIKeyHashMetadataKey \<equiv> ''downstream_api_key_hash''"
abbreviation "AccountGroupPolicyEvaluatedMetadataKey \<equiv> ''account_group_policy_evaluated''"
abbreviation "AllowedAccountGroupIDsMetadataKey \<equiv> ''allowed_account_group_ids''"
abbreviation "AccountGroupPolicyKeyMetadataKey \<equiv> ''account_group_policy_key''"

text \<open>The snapshot is \<open>None\<close> until the configuration was first compiled.\<close>

definition withAccountGroupPolicy ::
  "(string, accountGroupSelection) gomap option \<Rightarrow> request_metadata \<Rightarrow> request_metadata" where
  "withAccountGroupPolicy snapshot md =
     (if md = [] then md
      else let hash = to_lower (trim_space (metadataString md DownstreamAPIKeyHashMetadataKey))
           in if hash = '''' then md
              else case snapshot of
                     None \<Rightarrow> md
                   | Some byHash \<Rightarrow>
                       (case glookup byHash hash of
                          None \<Rightarrow> md
                        | Some selection \<Rightarrow>
                            if selectionIDs selection = [] then md
                            else gput AccountGroupPolicyKeyMetadataKey (GStr (selectionKey selection))
                                   (gput AllowedAccountGroupIDsMetadataKey (GInt64s (selectionIDs selection))
                                     (gput AccountGroupPolicyEvaluatedMetadataKey (GBool True) md))))"

section \<open>Eligibility of a credential for a request\<close>

record authSelectionEligibility =
  requiredKind :: string
  credentialPolicy :: string
  disallowFreeAuth :: bool
  accountGroupPolicyEvaluated :: bool
  allowedAccountGroupIDs :: "int list"
  accountGroupPolicyKey :: string
  codexClientRestrictionEvaluated :: bool
  codexClientAllowed :: bool
  codexAppServerAllowed :: bool

definition disallowFreeAuthFromMetadata :: "request_metadata \<Rightarrow> bool" where
  "disallowFreeAuthFromMetadata md =
     (case glookup md ''disallow_free_auth'' of
        Some (GBool b) \<Rightarrow> b
      | Some (GStr s) \<Rightarrow> parse_bool (trim_space s) = Some True
      | Some (GBytes s) \<Rightarrow> parse_bool (trim_space s) = Some True
      | _ \<Rightarrow> False)"

definition pinnedAuthIDFromMetadata :: "request_metadata \<Rightarrow> string" where
  "pinnedAuthIDFromMetadata md =
     (case glookup md ''pinned_auth_id'' of
        Some (GStr s) \<Rightarrow> trim_space s
      | Some (GBytes s) \<Rightarrow> trim_space s
      | _ \<Rightarrow> '''')"

abbreviation metadataBool :: "request_metadata \<Rightarrow> string \<Rightarrow> bool" where
  "metadataBool md key \<equiv> glookup md key = Some (GBool True)"

text \<open>The two values the request's context may carry are the first arguments.\<close>

definition authSelectionEligibilityForRequest ::
  "string \<Rightarrow> string \<Rightarrow> request_metadata \<Rightarrow> authSelectionEligibility" where
  "authSelectionEligibilityForRequest kind policy md =
     (let evaluated = metadataBool md AccountGroupPolicyEvaluatedMetadataKey;
          ids = (if evaluated
                 then (case glookup md AllowedAccountGroupIDsMetadataKey of
                         None \<Rightarrow> [] | Some v \<Rightarrow> normalizeRuntimeGroupIDs v)
                 else [])
      in \<lparr>requiredKind = kind, credentialPolicy = policy,
          disallowFreeAuth = disallowFreeAuthFromMetadata md,
          accountGroupPolicyEvaluated = evaluated, allowedAccountGroupIDs = ids,
          accountGroupPolicyKey = accountGroupSelectionKey ids,
          codexClientRestrictionEvaluated =
            metadataBool md ''__cliproxy_codex_client_restriction_evaluated'',
          codexClientAllowed = metadataBool md ''__cliproxy_codex_client_restriction_allowed'',
          codexAppServerAllowed =
            metadataBool md ''__cliproxy_codex_client_restriction_app_server_allowed''\<rparr>)"

definition eligibilityAllows :: "authSelectionEligibility \<Rightarrow> Auth \<Rightarrow> bool" where
  "eligibilityAllows e auth =
     (if requiredKind e \<noteq> '''' \<and> AuthKind auth \<noteq> requiredKind e then False
      else if credentialPolicy e \<noteq> '''' \<and> \<not> credentialPolicyAllows (credentialPolicy e) auth then False
      else if accountGroupPolicyEvaluated e \<and> \<not> matchesAnyGroup (Some auth) (allowedAccountGroupIDs e) then False
      else if codexClientRestrictionEvaluated e \<and> codexClientRestrictionEnabledForAuth auth \<and>
              (if codexClientRestrictionAppServerEnabledForAuth auth
               then \<not> codexAppServerAllowed e else \<not> codexClientAllowed e)
      then False
      else \<not> disallowFreeAuth e \<or> \<not> isFreeCodexAuth auth)"

definition accountGroups :: "authSelectionEligibility \<Rightarrow> accountGroupSelection option" where
  "accountGroups e =
     (if \<not> accountGroupPolicyEvaluated e \<or> allowedAccountGroupIDs e = [] then None
      else Some \<lparr>selectionKey = accountGroupPolicyKey e, selectionIDs = allowedAccountGroupIDs e\<rparr>)"

section \<open>Group ids\<close>

abbreviation increasing :: "int list \<Rightarrow> bool" where
  "increasing xs \<equiv> sorted_wrt (<) xs"

lemma dedupPositive_spec:
  "distinct out \<Longrightarrow> set out \<subseteq> set seen \<Longrightarrow> set seen = set out \<Longrightarrow>
   distinct (dedupPositive ids seen out) \<and>
   set (dedupPositive ids seen out) = set out \<union> {i \<in> set ids. i > 0}"
  by (induction ids seen out rule: dedupPositive.induct) (auto simp: insert_absorb)

lemma normalizePositiveGroupIDs_spec:
  "increasing (normalizePositiveGroupIDs ids) \<and> set (normalizePositiveGroupIDs ids) = {i \<in> set ids. i > 0}"
  using dedupPositive_spec [of "[]" "[]" ids]
  by (auto simp: normalizePositiveGroupIDs_def strict_sorted_iff)

lemma normalize_agree: "NormalizeAccountGroupIDs ids = normalizePositiveGroupIDs ids"
  by (simp add: NormalizeAccountGroupIDs_def normalizePositiveGroupIDs_def)

lemma normalize_unique:
  "increasing xs \<Longrightarrow> \<forall>i \<in> set xs. i > 0 \<Longrightarrow> normalizePositiveGroupIDs xs = xs"
proof -
  assume a: "increasing xs" "\<forall>i \<in> set xs. i > 0"
  have "set (normalizePositiveGroupIDs xs) = set xs" "increasing (normalizePositiveGroupIDs xs)"
    using normalizePositiveGroupIDs_spec [of xs] a by auto
  with a(1) show ?thesis by (metis strict_sorted_equal)
qed

lemma normalize_idem: "normalizePositiveGroupIDs (NormalizeAccountGroupIDs ids) = NormalizeAccountGroupIDs ids"
  by (rule normalize_unique) (simp_all add: normalize_agree normalizePositiveGroupIDs_spec)

lemma matchSorted_iff:
  "sorted gs \<Longrightarrow> sorted xs \<Longrightarrow> matchSorted gs xs \<longleftrightarrow> set gs \<inter> set xs \<noteq> {}"
proof (induction gs xs rule: matchSorted.induct)
  case (1 g gs x xs)
  consider "g = x" | "g < x" | "x < g" by fastforce
  then show ?case
  proof cases
    case 2
    then have "g \<notin> set (x # xs)" using 1(4) by auto
    with 2 1 show ?thesis by auto
  next
    case 3
    then have "x \<notin> set (g # gs)" using 1(3) by auto
    with 3 1 show ?thesis by auto
  qed simp
qed auto

lemma matchesAnyGroup_iff:
  "sorted (groupIDs a) \<Longrightarrow> sorted xs \<Longrightarrow> matchesAnyGroup (Some a) xs \<longleftrightarrow> set (groupIDs a) \<inter> set xs \<noteq> {}"
  by (auto simp: matchesAnyGroup_def matchSorted_iff)

section \<open>The cache key of a group selection\<close>

lemma nat_digits_chars: "c \<in> set (nat_digits n) \<Longrightarrow> digit_val c \<noteq> None"
proof (induction n rule: nat_digits.induct)
  case (1 n)
  show ?case
  proof (cases "n < 10")
    case True
    with 1(2) show ?thesis by (subst (asm) nat_digits.simps) (auto simp: digit_val_char_of)
  next
    case False
    with 1 show ?thesis
      by (subst (asm) nat_digits.simps) (auto simp: digit_val_char_of)
  qed
qed

lemma format_int_no_comma: "CHR '','' \<notin> set (format_int i)"
proof -
  have "CHR '','' \<notin> set (nat_digits n)" for n
    using nat_digits_chars [of "CHR '',''" n] by (auto simp: digit_val_def code_of_def)
  then show ?thesis by (auto simp: format_int_def)
qed

lemma nat_digits_inj: "nat_digits m = nat_digits n \<Longrightarrow> m = n"
  by (metis nat_int option.inject parse_digits_nat_digits)

lemma format_int_inj: "format_int i = format_int j \<Longrightarrow> i = j"
proof -
  assume eq: "format_int i = format_int j"
  have hd: "format_int k = CHR ''-'' # cs \<Longrightarrow> k < 0" for k cs
    using nat_digits_hd [of "nat k"] nat_digits_nonempty [of "nat k"]
    by (auto simp: format_int_def split: if_splits)
  show ?thesis
  proof (cases "i < 0")
    case True
    then have "format_int i = CHR ''-'' # nat_digits (nat (- i))" by (simp add: format_int_def)
    then have "j < 0" using eq hd [of j "nat_digits (nat (- i))"] by simp
    with True eq nat_digits_inj [of "nat (- i)" "nat (- j)"] show ?thesis by (simp add: format_int_def)
  next
    case False
    have nj: "\<not> j < 0"
    proof
      assume "j < 0"
      then have "format_int j = CHR ''-'' # nat_digits (nat (- j))" by (simp add: format_int_def)
      with eq hd [of i "nat_digits (nat (- j))"] False show False by simp
    qed
    with False eq have "nat_digits (nat i) = nat_digits (nat j)" by (simp add: format_int_def)
    then have "nat i = nat j" by (rule nat_digits_inj)
    with False nj show ?thesis by linarith
  qed
qed


lemma selectionKey_parts:
  "takeWhile (\<lambda>c. c \<noteq> CHR '','') (accountGroupSelectionKey (i # ids)) = format_int i"
  "dropWhile (\<lambda>c. c \<noteq> CHR '','') (accountGroupSelectionKey (i # ids)) =
     (if ids = [] then '''' else CHR '','' # accountGroupSelectionKey ids)"
proof -
  have all: "\<forall>c \<in> set (format_int i). c \<noteq> CHR '',''" using format_int_no_comma by metis
  show "takeWhile (\<lambda>c. c \<noteq> CHR '','') (accountGroupSelectionKey (i # ids)) = format_int i"
    using all by (cases ids) (auto simp: takeWhile_append2 takeWhile_eq_all_conv)
  show "dropWhile (\<lambda>c. c \<noteq> CHR '','') (accountGroupSelectionKey (i # ids)) =
     (if ids = [] then '''' else CHR '','' # accountGroupSelectionKey ids)"
    using all by (cases ids) (auto simp: dropWhile_append2)
qed

lemma selectionKey_empty: "accountGroupSelectionKey ids = '''' \<longleftrightarrow> ids = []"
  by (cases ids rule: accountGroupSelectionKey.cases) (simp_all add: format_int_nonempty)

text \<open>
  The cache key determines the groups. Two group selections with the same key are the same
  list of groups, so a view cached under the key is the view of those groups.
\<close>

theorem accountGroupSelectionKey_inj:
  "accountGroupSelectionKey ids = accountGroupSelectionKey js \<longleftrightarrow> ids = js"
proof
  assume "accountGroupSelectionKey ids = accountGroupSelectionKey js"
  then show "ids = js"
  proof (induction ids arbitrary: js)
    case Nil
    then show ?case using selectionKey_empty [of js] by simp
  next
    case (Cons i ids)
    then obtain j js' where js: "js = j # js'"
      using selectionKey_empty [of "i # ids"] selectionKey_empty [of js] by (cases js) auto
    from Cons.prems have "format_int i = format_int j"
      by (metis js selectionKey_parts(1))
    moreover have "(if ids = [] then '''' else CHR '','' # accountGroupSelectionKey ids) =
        (if js' = [] then '''' else CHR '','' # accountGroupSelectionKey js')"
      by (metis Cons.prems js selectionKey_parts(2))
    ultimately show ?case using Cons.IH [of js'] format_int_inj [of i j] js by (auto split: if_splits)
  qed
qed simp

section \<open>Group policies of API keys\<close>

text \<open>The policy that counts for a key: the last one with its hash and at least one group.\<close>

definition policy_groups :: "APIKeyGroupPolicy list \<Rightarrow> string \<Rightarrow> int set option" where
  "policy_groups policies hash =
     map_option (\<lambda>p. {i \<in> set (AllowedGroupIDs p). i > 0})
       (find (\<lambda>p. to_lower (trim_space (APIKeyHash p)) = hash \<and> (\<exists>i \<in> set (AllowedGroupIDs p). i > 0))
         (rev policies))"

lemma NormalizeAccountGroupIDs_spec:
  "increasing (NormalizeAccountGroupIDs ids)" "set (NormalizeAccountGroupIDs ids) = {i \<in> set ids. i > 0}"
  using normalizePositiveGroupIDs_spec [of ids] by (simp_all add: normalize_agree)

lemma NormalizeAccountGroupIDs_Nil: "NormalizeAccountGroupIDs ids = [] \<longleftrightarrow> \<not> (\<exists>i \<in> set ids. i > 0)"
  using NormalizeAccountGroupIDs_spec(2) [of ids] by (metis (no_types, lifting) empty_Collect_eq set_empty)

lemma compile_lookup:
  assumes "hash \<noteq> ''''"
  shows "glookup (compileAPIKeyGroupPolicySnapshot policies) hash =
    map_option (\<lambda>p. \<lparr>selectionKey = accountGroupSelectionKey (NormalizeAccountGroupIDs (AllowedGroupIDs p)),
                      selectionIDs = NormalizeAccountGroupIDs (AllowedGroupIDs p)\<rparr>)
      (find (\<lambda>p. to_lower (trim_space (APIKeyHash p)) = hash \<and> (\<exists>i \<in> set (AllowedGroupIDs p). i > 0))
        (rev policies))"
proof (induction policies rule: rev_induct)
  case Nil
  then show ?case by (simp add: compileAPIKeyGroupPolicySnapshot_def)
next
  case (snoc p ps)
  let ?h = "to_lower (trim_space (APIKeyHash p))"
  have step: "compileAPIKeyGroupPolicySnapshot (ps @ [p]) =
      (if ?h = '''' \<or> NormalizeAccountGroupIDs (AllowedGroupIDs p) = []
       then compileAPIKeyGroupPolicySnapshot ps
       else gput ?h \<lparr>selectionKey = accountGroupSelectionKey (NormalizeAccountGroupIDs (AllowedGroupIDs p)),
              selectionIDs = NormalizeAccountGroupIDs (AllowedGroupIDs p)\<rparr>
              (compileAPIKeyGroupPolicySnapshot ps))"
    by (simp add: compileAPIKeyGroupPolicySnapshot_def Let_def)
  show ?case
    using snoc assms by (auto simp: step glookup_put NormalizeAccountGroupIDs_Nil)
qed

lemma eligibility_restricted:
  assumes "md \<noteq> []" and "glookup byHash (to_lower (trim_space (metadataString md DownstreamAPIKeyHashMetadataKey))) = Some sel"
    and "to_lower (trim_space (metadataString md DownstreamAPIKeyHashMetadataKey)) \<noteq> ''''"
    and "selectionIDs sel = NormalizeAccountGroupIDs ids" "selectionIDs sel \<noteq> []"
  shows "authSelectionEligibilityForRequest kind policy (withAccountGroupPolicy (Some byHash) md) =
    (authSelectionEligibilityForRequest kind policy md)
      \<lparr>accountGroupPolicyEvaluated := True, allowedAccountGroupIDs := selectionIDs sel,
       accountGroupPolicyKey := accountGroupSelectionKey (selectionIDs sel)\<rparr>"
  using assms normalize_idem [of ids]
  by (simp add: withAccountGroupPolicy_def Let_def authSelectionEligibilityForRequest_def glookup_put
      normalizeRuntimeGroupIDs_def disallowFreeAuthFromMetadata_def)

text \<open>
  C33 (group policies are enforced). A request that carries the hash of an API key with a
  compiled group policy is eligible for exactly those credentials that share a group with the
  policy and that the request's other conditions allow.
\<close>

theorem group_policy_enforced:
  assumes "hash = to_lower (trim_space (metadataString md DownstreamAPIKeyHashMetadataKey))"
    and "hash \<noteq> ''''" and "policy_groups policies hash = Some groups"
    and "sorted (groupIDs a)"
    and "e0 = (authSelectionEligibilityForRequest kind policy md)\<lparr>accountGroupPolicyEvaluated := False\<rparr>"
    and "e = authSelectionEligibilityForRequest kind policy
               (withAccountGroupPolicy (Some (compileAPIKeyGroupPolicySnapshot policies)) md)"
  shows "eligibilityAllows e a \<longleftrightarrow> eligibilityAllows e0 a \<and> set (groupIDs a) \<inter> groups \<noteq> {}"
proof -
  from assms(3) obtain p where
    p: "find (\<lambda>p. to_lower (trim_space (APIKeyHash p)) = hash \<and> (\<exists>i \<in> set (AllowedGroupIDs p). i > 0))
          (rev policies) = Some p"
    and groups: "groups = {i \<in> set (AllowedGroupIDs p). i > 0}"
    by (auto simp: policy_groups_def)
  have some: "\<exists>i \<in> set (AllowedGroupIDs p). i > 0" using p by (auto simp: find_Some_iff)
  let ?ids = "NormalizeAccountGroupIDs (AllowedGroupIDs p)"
  let ?sel = "\<lparr>selectionKey = accountGroupSelectionKey ?ids, selectionIDs = ?ids\<rparr>"
  have md: "md \<noteq> []" using assms(1,2) by auto
  have ids: "?ids \<noteq> []" "set ?ids = groups" "sorted ?ids"
    using some NormalizeAccountGroupIDs_spec [of "AllowedGroupIDs p"]
    by (simp_all add: NormalizeAccountGroupIDs_Nil groups strict_sorted_iff)
  have e: "e = (authSelectionEligibilityForRequest kind policy md)
      \<lparr>accountGroupPolicyEvaluated := True, allowedAccountGroupIDs := ?ids,
       accountGroupPolicyKey := accountGroupSelectionKey ?ids\<rparr>"
    using eligibility_restricted [OF md, of "compileAPIKeyGroupPolicySnapshot policies" ?sel "AllowedGroupIDs p" kind policy]
      compile_lookup [OF assms(2), of policies] p ids(1) assms(1,2,6) by simp
  show ?thesis
    using matchesAnyGroup_iff [OF assms(4) ids(3)]
    by (simp add: eligibilityAllows_def e assms(5) ids(2))
qed

lemma group_policy_enforced_witness:
  "let md = [(DownstreamAPIKeyHashMetadataKey, GStr ''ab'')];
       policies = [\<lparr>APIKeyHash = '' ab'', AllowedGroupIDs = [3, 3, 0]\<rparr>];
       a = (exampleAuth ''x'' [])\<lparr>groupIDs := [3]\<rparr>
   in eligibilityAllows (authSelectionEligibilityForRequest '''' ''''
        (withAccountGroupPolicy (Some (compileAPIKeyGroupPolicySnapshot policies)) md)) a \<longleftrightarrow>
      eligibilityAllows ((authSelectionEligibilityForRequest '''' '''' md)\<lparr>accountGroupPolicyEvaluated := False\<rparr>) a \<and>
      set (groupIDs a) \<inter> {3} \<noteq> {}"
  unfolding Let_def
  by (rule group_policy_enforced [where hash = "''ab''"])
    (auto simp: policy_groups_def to_lower_def lower_char_def trim_space_def is_space_def code_of_def)

end
