(* ===== verification/CodexIdentity.thy ===== *)
theory CodexIdentity
  imports Eligibility
begin

text \<open>
  The member identities of \<open>sdk/cliproxy/auth/codex_identity.go\<close>: which credential files belong
  to the same account, which of them represents it, and the fingerprint persisted with a
  credential.

  The hexadecimal SHA-256 of a text (\<open>crypto/sha256\<close>, \<open>encoding/hex\<close>) is the argument
  \<open>digest\<close>; a fact that needs more of it than being a function says so. The functions take
  credentials that are not nil, as in \<open>Eligibility\<close>.
\<close>

section \<open>Identity values\<close>

fun firstAuthIdentityString :: "Auth \<Rightarrow> string list \<Rightarrow> string" where
  "firstAuthIdentityString auth [] = ''''"
| "firstAuthIdentityString auth (key # keys) =
     (if authMetadataString auth key \<noteq> '''' then trim_space (authMetadataString auth key)
      else if authAttribute auth key \<noteq> '''' then trim_space (authAttribute auth key)
      else firstAuthIdentityString auth keys)"

abbreviation "MetadataCodexIdentityFingerprint \<equiv> ''codex_identity_fingerprint''"

definition hashedIdentityKey :: "(string \<Rightarrow> string) \<Rightarrow> string \<Rightarrow> string list \<Rightarrow> string" where
  "hashedIdentityKey digest kind values =
     kind @ '':'' @ digest (kind @ concat (map (\<lambda>v. CHR 0x00 # trim_space v) values))"

definition codexWorkspaceIdentityValue :: "Auth \<Rightarrow> string" where
  "codexWorkspaceIdentityValue auth =
     to_lower (firstAuthIdentityString auth
       [''chatgpt_account_id'', ''account_id'', ''workspace_id'', ''organization_id''])"

definition codexIdentityFingerprintValue :: "Auth \<Rightarrow> string" where
  "codexIdentityFingerprintValue auth =
     to_lower (firstAuthIdentityString auth
       [MetadataCodexIdentityFingerprint, ''codex-identity-fingerprint'', ''codexIdentityFingerprint''])"

definition codexMember :: "Auth \<Rightarrow> string" where
  "codexMember auth =
     to_lower (trim_space (firstAuthIdentityString auth
       [''chatgpt_user_id'', ''user_id'', ''email'', ''outlook_email'']))"

definition codexToken :: "Auth \<Rightarrow> string" where
  "codexToken auth =
     firstAuthIdentityString auth [''refresh_token'', ''refreshToken'', ''access_token'', ''accessToken'']"

definition codexCanonicalIdentityKey :: "(string \<Rightarrow> string) \<Rightarrow> Auth \<Rightarrow> string" where
  "codexCanonicalIdentityKey digest auth =
     (if \<not> equal_fold (executorKeyFromAuth auth) ''codex'' then ''''
      else if codexMember auth \<noteq> ''''
      then hashedIdentityKey digest ''codex-member'' [codexWorkspaceIdentityValue auth, codexMember auth]
      else if codexIdentityFingerprintValue auth \<noteq> ''''
      then hashedIdentityKey digest ''codex-fingerprint'' [codexIdentityFingerprintValue auth]
      else if codexToken auth \<noteq> ''''
      then hashedIdentityKey digest ''codex-token'' [codexToken auth]
      else '''')"

definition codexSameMemberIdentity :: "(string \<Rightarrow> string) \<Rightarrow> Auth \<Rightarrow> Auth \<Rightarrow> bool" where
  "codexSameMemberIdentity digest left right =
     (if \<not> equal_fold (executorKeyFromAuth left) ''codex'' \<or>
         \<not> equal_fold (executorKeyFromAuth right) ''codex'' then False
      else if codexIdentityFingerprintValue left \<noteq> '''' \<and> codexIdentityFingerprintValue right \<noteq> ''''
      then codexIdentityFingerprintValue left = codexIdentityFingerprintValue right
      else codexCanonicalIdentityKey digest left \<noteq> '''' \<and>
           codexCanonicalIdentityKey digest left = codexCanonicalIdentityKey digest right)"

section \<open>The persisted fingerprint\<close>

definition isCodexIdentityAuth :: "Auth \<Rightarrow> bool" where
  "isCodexIdentityAuth auth \<longleftrightarrow>
     (let provider = executorKeyFromAuth auth;
          provider = (if provider = '''' then to_lower (trim_space (metadataString (Metadata auth) ''type''))
                      else provider)
      in provider = ''codex'' \<or> provider = ''openai-codex'')"

text \<open>The functions that write the metadata return whether they did, and the credential.\<close>

definition setCodexIdentityFingerprint :: "string \<Rightarrow> Auth \<Rightarrow> bool \<times> Auth" where
  "setCodexIdentityFingerprint fingerprint0 auth =
     (if trim_space fingerprint0 = '''' then (False, auth)
      else let fingerprint = to_lower (trim_space fingerprint0)
           in if trim_space (metadataString (Metadata auth) MetadataCodexIdentityFingerprint) = fingerprint
              then (False, auth)
              else (True, auth\<lparr>Metadata :=
                     gput MetadataCodexIdentityFingerprint (GStr fingerprint) (Metadata auth)\<rparr>))"

text \<open>The fingerprint a credential without one is given, from the claims it has.\<close>

definition freshFingerprint :: "(string \<Rightarrow> string) \<Rightarrow> string \<Rightarrow> Auth \<Rightarrow> string option" where
  "freshFingerprint digest fallbackIdentity auth =
     (let workspace = codexWorkspaceIdentityValue auth;
          member = to_lower (firstAuthIdentityString auth
            [''chatgpt_user_id'', ''user_id'', ''chatgpt_account_user_id'', ''email'', ''outlook_email'']);
          runtime = firstAuthIdentityString auth [''agent_runtime_id'', ''agentRuntimeId'']
      in if member \<noteq> ''''
         then Some (hashedIdentityKey digest ''codex-persisted-fingerprint'' [workspace, member])
         else if runtime \<noteq> ''''
         then Some (hashedIdentityKey digest ''codex-persisted-runtime'' [runtime])
         else if trim_space fallbackIdentity \<noteq> ''''
         then Some (hashedIdentityKey digest ''codex-persisted-file'' [fallbackIdentity])
         else None)"

definition EnsureCodexIdentityFingerprint ::
  "(string \<Rightarrow> string) \<Rightarrow> string \<Rightarrow> Auth \<Rightarrow> (string \<times> bool) \<times> Auth" where
  "EnsureCodexIdentityFingerprint digest fallbackIdentity auth =
     (if \<not> isCodexIdentityAuth auth then (('''', False), auth)
      else if codexIdentityFingerprintValue auth \<noteq> ''''
      then let (changed, auth') = setCodexIdentityFingerprint (codexIdentityFingerprintValue auth) auth
           in ((codexIdentityFingerprintValue auth, changed), auth')
      else case freshFingerprint digest fallbackIdentity auth of
             None \<Rightarrow> (('''', False), auth)
           | Some fp \<Rightarrow>
               let (changed, auth') = setCodexIdentityFingerprint fp auth in ((fp, changed), auth'))"

text \<open>The existing credential is also written; both are returned.\<close>

definition InheritCodexIdentityFingerprint ::
  "(string \<Rightarrow> string) \<Rightarrow> Auth option \<Rightarrow> string \<Rightarrow> Auth \<Rightarrow> ((string \<times> bool) \<times> Auth) \<times> Auth option" where
  "InheritCodexIdentityFingerprint digest existing fallbackIdentity auth =
     (if \<not> isCodexIdentityAuth auth then ((('''', False), auth), existing)
      else case existing of
             Some ex \<Rightarrow>
               if isCodexIdentityAuth ex
               then let ((fingerprint, _), ex') = EnsureCodexIdentityFingerprint digest fallbackIdentity ex
                    in if fingerprint \<noteq> ''''
                       then let (changed, auth') = setCodexIdentityFingerprint fingerprint auth
                            in (((fingerprint, changed), auth'), Some ex')
                       else (EnsureCodexIdentityFingerprint digest fallbackIdentity auth, Some ex')
               else (EnsureCodexIdentityFingerprint digest fallbackIdentity auth, existing)
           | None \<Rightarrow> (EnsureCodexIdentityFingerprint digest fallbackIdentity auth, existing))"

section \<open>The representative of an account\<close>

definition authIdentityBool :: "Auth \<Rightarrow> string \<Rightarrow> bool" where
  "authIdentityBool auth key =
     (case parse_bool (authAttribute auth key) of
        Some parsed \<Rightarrow> parsed
      | None \<Rightarrow>
          (case glookup (Metadata auth) key of
             Some (GBool value) \<Rightarrow> value
           | Some (GStr value) \<Rightarrow> parse_bool (trim_space value) = Some True
           | _ \<Rightarrow> False))"

definition canonicalAuthPreferenceScore :: "Auth \<Rightarrow> int" where
  "canonicalAuthPreferenceScore auth =
     (if \<not> Disabled auth \<and> authStatus auth \<noteq> StatusDisabled then 100 else 0) +
     (if firstAuthIdentityString auth
           [MetadataCodexIdentityFingerprint, ''codex-identity-fingerprint'', ''codexIdentityFingerprint''] \<noteq> ''''
      then 20 else 0) +
     (if authIdentityBool auth ''codex_cli_only'' then 10 else 0) +
     (if equal_fold (firstAuthIdentityString auth [''import_format'']) ''sub2api'' then 5 else 0)"

definition preferredCanonicalAuth :: "Auth option \<Rightarrow> Auth option \<Rightarrow> Auth option" where
  "preferredCanonicalAuth left right =
     (case (left, right) of
        (None, _) \<Rightarrow> right
      | (_, None) \<Rightarrow> left
      | (Some l, Some r) \<Rightarrow>
          if canonicalAuthPreferenceScore l \<noteq> canonicalAuthPreferenceScore r
          then (if canonicalAuthPreferenceScore l > canonicalAuthPreferenceScore r then left else right)
          else if ID l \<le> ID r then left else right)"

section \<open>Case and spaces\<close>

lemma is_space_lower [simp]: "is_space (lower_char c) = is_space c"
  by (auto simp: lower_char_def is_space_def code_of_char_of)

lemma lower_char_idem [simp]: "lower_char (lower_char c) = lower_char c"
  by (auto simp: lower_char_def code_of_char_of)

lemma to_lower_idem [simp]: "to_lower (to_lower s) = to_lower s"
  by (simp add: to_lower_def)

lemma to_lower_eq_Nil [simp]: "to_lower s = '''' \<longleftrightarrow> s = ''''"
  by (simp add: to_lower_def)

lemma dropWhile_space_lower: "dropWhile is_space (map lower_char s) = map lower_char (dropWhile is_space s)"
  by (induction s) simp_all

lemma trim_space_lower: "trim_space (to_lower s) = to_lower (trim_space s)"
  by (simp add: trim_space_def to_lower_def dropWhile_space_lower rev_map)

lemma trim_space_ends:
  "trim_space s = '''' \<or> (\<not> is_space (hd (trim_space s)) \<and> \<not> is_space (last (trim_space s)))"
proof -
  define d where "d = dropWhile is_space s"
  have e: "trim_space s = rev (dropWhile is_space (rev d))"
    by (simp add: trim_space_def d_def)
  obtain b where b: "d = trim_space s @ b"
    using takeWhile_dropWhile_id [of is_space "rev d"] by (metis e rev_append rev_rev_ident)
  show ?thesis
  proof (cases "trim_space s = ''''")
    case False
    then have "hd d = hd (trim_space s)" "d \<noteq> ''''" using b by (cases "trim_space s"; auto)+
    moreover have "d \<noteq> '''' \<Longrightarrow> \<not> is_space (hd d)" unfolding d_def by (rule hd_dropWhile) simp
    moreover have "\<not> is_space (last (trim_space s))"
      using False hd_dropWhile [of is_space "rev d"] by (simp add: e last_rev)
    ultimately show ?thesis by simp
  qed simp
qed

lemma trim_space_fixed: "\<not> is_space (hd s) \<Longrightarrow> \<not> is_space (last s) \<Longrightarrow> trim_space s = s"
proof (cases "s = ''''")
  case False
  assume h: "\<not> is_space (hd s)" "\<not> is_space (last s)"
  then have "dropWhile is_space s = s" using False by (cases s) auto
  moreover have "dropWhile is_space (rev s) = rev s"
    using h False by (cases "rev s") (auto simp: last_rev hd_rev simp flip: hd_rev)
  ultimately show ?thesis by (simp add: trim_space_def)
qed simp

lemma trim_space_idem [simp]: "trim_space (trim_space s) = trim_space s"
  using trim_space_ends [of s] trim_space_fixed [of "trim_space s"] by auto

lemma authMetadataString_trim [simp]: "trim_space (authMetadataString a k) = authMetadataString a k"
  by (simp add: authMetadataString_def split: option.splits gov.splits)

lemma metadataString_trim: "authMetadataString a k = trim_space (metadataString (Metadata a) k)"
  by (simp add: authMetadataString_def split: option.splits gov.splits)

lemma authAttribute_trim [simp]: "trim_space (authAttribute a k) = authAttribute a k"
  by (simp add: authAttribute_def)

lemma firstAuthIdentityString_trim [simp]:
  "trim_space (firstAuthIdentityString a ks) = firstAuthIdentityString a ks"
  by (induction ks) simp_all

section \<open>Identities\<close>



section \<open>The persisted fingerprint\<close>

lemma executorKey_metadata [simp]: "executorKeyFromAuth (a\<lparr>Metadata := m\<rparr>) = executorKeyFromAuth a"
  by (simp add: executorKeyFromAuth_def authAttribute_def Let_def)

lemma isCodexIdentityAuth_set:
  "isCodexIdentityAuth (a\<lparr>Metadata := gput MetadataCodexIdentityFingerprint v (Metadata a)\<rparr>) = isCodexIdentityAuth a"
  by (simp add: isCodexIdentityAuth_def glookup_put)

text \<open>After a write, the fingerprint reads back and a second write changes nothing.\<close>

lemma setCodexIdentityFingerprint_read:
  assumes "fp \<noteq> ''''" "to_lower fp = fp" "trim_space fp = fp"
    and "setCodexIdentityFingerprint fp a = (changed, a')"
  shows "codexIdentityFingerprintValue a' = fp" and "setCodexIdentityFingerprint fp a' = (False, a')"
    and "isCodexIdentityAuth a' = isCodexIdentityAuth a"
proof -
  have md: "authMetadataString a' MetadataCodexIdentityFingerprint = fp"
    using assms by (auto simp: setCodexIdentityFingerprint_def metadataString_trim glookup_put split: if_splits)
  then show "codexIdentityFingerprintValue a' = fp"
    using assms by (simp add: codexIdentityFingerprintValue_def)
  have "trim_space (metadataString (Metadata a') MetadataCodexIdentityFingerprint) = fp"
    using md by (simp add: metadataString_trim)
  then show "setCodexIdentityFingerprint fp a' = (False, a')"
    using assms(1-3) by (simp add: setCodexIdentityFingerprint_def)
  show "isCodexIdentityAuth a' = isCodexIdentityAuth a"
    using assms(4) by (auto simp: setCodexIdentityFingerprint_def Let_def isCodexIdentityAuth_set split: if_splits)
qed

definition hex_digits :: "char set" where
  "hex_digits = set ''0123456789abcdef''"

lemma hex_digits_plain: "c \<in> hex_digits \<Longrightarrow> lower_char c = c" "c \<in> hex_digits \<Longrightarrow> \<not> is_space c"
  by (auto simp: hex_digits_def lower_char_def is_space_def code_of_def)

lemma hashedIdentityKey_plain:
  assumes "\<forall>s. digest s \<noteq> '''' \<and> set (digest s) \<subseteq> hex_digits"
    and "kind \<noteq> ''''" "to_lower kind = kind" "\<not> is_space (hd kind)"
  shows "hashedIdentityKey digest kind vs \<noteq> ''''"
    "to_lower (hashedIdentityKey digest kind vs) = hashedIdentityKey digest kind vs"
    "trim_space (hashedIdentityKey digest kind vs) = hashedIdentityKey digest kind vs"
proof -
  define d where "d = digest (kind @ concat (map (\<lambda>v. CHR 0x00 # trim_space v) vs))"
  have key: "hashedIdentityKey digest kind vs = kind @ '':'' @ d"
    by (simp add: hashedIdentityKey_def d_def)
  have d: "d \<noteq> ''''" "set d \<subseteq> hex_digits" using assms(1) unfolding d_def by blast+
  have "to_lower d = d"
    using d(2) hex_digits_plain(1) unfolding to_lower_def by (intro map_idI) blast
  moreover have "\<not> is_space (last d)" using d hex_digits_plain(2) last_in_set by blast
  ultimately show "hashedIdentityKey digest kind vs \<noteq> ''''"
    "to_lower (hashedIdentityKey digest kind vs) = hashedIdentityKey digest kind vs"
    "trim_space (hashedIdentityKey digest kind vs) = hashedIdentityKey digest kind vs"
    using assms(2-4) d(1)
    by (auto simp: key to_lower_def lower_char_def code_of_def intro!: trim_space_fixed)
qed

lemma freshFingerprint_plain:
  assumes "\<forall>s. digest s \<noteq> '''' \<and> set (digest s) \<subseteq> hex_digits"
    and "freshFingerprint digest fallback a = Some fp"
  shows "fp \<noteq> ''''" "to_lower fp = fp" "trim_space fp = fp"
proof -
  note h = hashedIdentityKey_plain [OF assms(1)]
  have kinds: "to_lower ''codex-persisted-fingerprint'' = ''codex-persisted-fingerprint''"
    "to_lower ''codex-persisted-runtime'' = ''codex-persisted-runtime''"
    "to_lower ''codex-persisted-file'' = ''codex-persisted-file''" "\<not> is_space (CHR ''c'')"
    by (simp_all add: is_space_def code_of_def to_lower_def lower_char_def)
  obtain kind vs where fp: "fp = hashedIdentityKey digest kind vs"
    and kind: "kind = ''codex-persisted-fingerprint'' \<or> kind = ''codex-persisted-runtime'' \<or> kind = ''codex-persisted-file''"
    using assms(2) by (auto simp: freshFingerprint_def Let_def split: if_splits)
  have "kind \<noteq> ''''" "to_lower kind = kind" "\<not> is_space (hd kind)"
    using kind kinds by (elim disjE; simp)+
  from h [OF this, of vs] show "fp \<noteq> ''''" "to_lower fp = fp" "trim_space fp = fp"
    by (auto simp: fp)
qed

text \<open>
  The fingerprint sticks. Once a credential has been given a fingerprint, asking again,
  with any other fallback, returns the same one and changes nothing. (The digest is non-empty
  lower-case hexadecimal.)
\<close>

theorem EnsureCodexIdentityFingerprint_stable:
  assumes "\<forall>s. digest s \<noteq> '''' \<and> set (digest s) \<subseteq> hex_digits"
    and "EnsureCodexIdentityFingerprint digest fallback a = ((fp, changed), a')" and "fp \<noteq> ''''"
  shows "EnsureCodexIdentityFingerprint digest fallback' a' = ((fp, False), a') \<and>
         codexIdentityFingerprintValue a' = fp"
proof -
  have codex: "isCodexIdentityAuth a" using assms(2,3) by (auto simp: EnsureCodexIdentityFingerprint_def split: if_splits)
  have old: "trim_space (codexIdentityFingerprintValue a) = codexIdentityFingerprintValue a"
    "to_lower (codexIdentityFingerprintValue a) = codexIdentityFingerprintValue a"
    by (simp_all add: codexIdentityFingerprintValue_def trim_space_lower)
  have set: "setCodexIdentityFingerprint fp a = (changed, a')"
    using assms(2,3) codex
    by (auto simp: EnsureCodexIdentityFingerprint_def split: if_splits prod.splits option.splits)
  have "fp = codexIdentityFingerprintValue a \<or> freshFingerprint digest fallback a = Some fp"
    using assms(2,3) codex
    by (auto simp: EnsureCodexIdentityFingerprint_def split: if_splits prod.splits option.splits)
  with old freshFingerprint_plain [OF assms(1)] assms(3)
  have plain: "fp \<noteq> ''''" "to_lower fp = fp" "trim_space fp = fp" by metis+
  note read = setCodexIdentityFingerprint_read [OF plain set]
  then show ?thesis using codex plain(1) by (simp add: EnsureCodexIdentityFingerprint_def)
qed

lemma EnsureCodexIdentityFingerprint_stable_witness:
  "let digest = \<lambda>_. ''0f'';
       r = EnsureCodexIdentityFingerprint digest '''' (exampleAuth ''x'' [(''email'', GStr ''m'')])
   in EnsureCodexIdentityFingerprint digest ''other'' (snd r) = ((fst (fst r), False), snd r) \<and>
      codexIdentityFingerprintValue (snd r) = fst (fst r)"
proof -
  let ?a = "exampleAuth ''x'' [(''email'', GStr ''m'')]"
  let ?r = "EnsureCodexIdentityFingerprint (\<lambda>_. ''0f'') '''' ?a"
  have vals: "executorKeyFromAuth ?a = ''codex''" "codexIdentityFingerprintValue ?a = ''''"
    "authMetadataString ?a ''email'' = ''m''" "authMetadataString ?a ''user_id'' = ''''"
    "authMetadataString ?a ''chatgpt_user_id'' = ''''" "authMetadataString ?a ''chatgpt_account_user_id'' = ''''"
    "authAttribute ?a k = ''''" "trim_space ''m'' = ''m''" for k
    by (simp_all add: exampleAuth_def executorKeyFromAuth_def authAttribute_def authMetadataString_def
      codexIdentityFingerprintValue_def equal_fold_def to_lower_def lower_char_def
      trim_space_def is_space_def code_of_def)
  have "freshFingerprint (\<lambda>_. ''0f'') '''' ?a \<noteq> None" "isCodexIdentityAuth ?a"
    by (simp_all add: freshFingerprint_def Let_def vals isCodexIdentityAuth_def)
  then have ne: "fst (fst ?r) \<noteq> ''''"
    by (auto simp: EnsureCodexIdentityFingerprint_def vals hashedIdentityKey_def freshFingerprint_def Let_def
        split: prod.splits option.splits if_splits)
  show ?thesis unfolding Let_def
    by (rule EnsureCodexIdentityFingerprint_stable [where fallback = "''''" and a = ?a and changed = "snd (fst ?r)"])
      (use ne in \<open>auto simp: hex_digits_def\<close>)
qed

end
