(* ===== verification/ModelShard.thy ===== *)
theory ModelShard
  imports ReadyView CodexIdentity
begin

text \<open>
  The model shards of \<open>sdk/cliproxy/auth/scheduler.go\<close>: the entries of one provider and model,
  indexed by priority, with the queue of blocked entries.

  Entries are shared by pointer between the entry map and the views; as in \<open>ReadyView\<close> the views
  and the queue hold ids. The views a bucket hands out are shared too, so the code's pointer to a
  view is a reference into its bucket. Where the code reads the clock the instant is an argument.
  The order in which a Go map is walked is the order of the association list; the facts at the
  end show that the index does not depend on it.
\<close>

section \<open>State\<close>

record readyBucket =
  bucketAll :: readyView
  bucketWs :: readyView
  groupViews :: "(string, readyView) gomap"
  websocketGroups :: "(string, readyView) gomap"
  groupViewOrder :: "string list"
  websocketOrder :: "string list"

type_synonym ready_buckets = "(int, readyBucket) gomap"

record modelScheduler =
  modelKey :: string
  entries :: entry_store
  priorityOrder :: "int list"
  readyByPriority :: ready_buckets
  blockedQueue :: "string list"

definition emptyShard :: "string \<Rightarrow> modelScheduler" where
  "emptyShard key =
     \<lparr>modelKey = key, entries = [], priorityOrder = [], readyByPriority = [], blockedQueue = []\<rparr>"

section \<open>One entry per account\<close>

definition preferScheduledCanonicalEntry ::
  "scheduledAuth option \<Rightarrow> scheduledAuth option \<Rightarrow> scheduledAuth option" where
  "preferScheduledCanonicalEntry left right =
     (case (left, right) of
        (None, _) \<Rightarrow> right
      | (_, None) \<Rightarrow> left
      | (Some l, Some r) \<Rightarrow>
          if entryState l \<noteq> entryState r
          then (if scheduledStatePreference (entryState l) > scheduledStatePreference (entryState r)
                then left else right)
          else if preferredCanonicalAuth (Some (entryAuth l)) (Some (entryAuth r)) = Some (entryAuth l)
          then left else right)"

definition uniqueStep ::
  "(string \<Rightarrow> string) \<Rightarrow> (scheduledAuth \<Rightarrow> bool) \<Rightarrow> scheduledAuth \<Rightarrow>
     scheduledAuth list \<times> (string, scheduledAuth option) gomap \<Rightarrow>
     scheduledAuth list \<times> (string, scheduledAuth option) gomap" where
  "uniqueStep digest predicate entry acc =
     (let (out, canonical) = acc;
          identityKey = codexCanonicalIdentityKey digest (entryAuth entry)
      in if \<not> predicate entry then (out, canonical)
         else if identityKey = '''' then (out @ [entry], canonical)
         else let current = (case glookup canonical identityKey of None \<Rightarrow> None | Some c \<Rightarrow> c)
              in (out, gput identityKey (preferScheduledCanonicalEntry current (Some entry)) canonical))"

definition uniqueCandidateEntries ::
  "(string \<Rightarrow> string) \<Rightarrow> (scheduledAuth \<Rightarrow> bool) \<Rightarrow> entry_store \<Rightarrow> scheduledAuth list" where
  "uniqueCandidateEntries digest predicate store =
     (let (out, canonical) = fold (\<lambda>(_, entry). uniqueStep digest predicate entry) store ([], [])
      in out @ List.map_filter snd canonical)"

definition candidateAuths ::
  "(string \<Rightarrow> string) \<Rightarrow> (scheduledAuth \<Rightarrow> bool) \<Rightarrow> modelScheduler \<Rightarrow> Auth list" where
  "candidateAuths digest predicate m = map entryAuth (uniqueCandidateEntries digest predicate (entries m))"

section \<open>Building the index\<close>

definition entryWebsocket :: "entry_store \<Rightarrow> string \<Rightarrow> bool" where
  "entryWebsocket store i \<longleftrightarrow>
     (case glookup store i of None \<Rightarrow> False | Some e \<Rightarrow> websocketEnabled (entryMeta e))"

definition buildReadyBucket :: "entry_store \<Rightarrow> string list \<Rightarrow> readyBucket" where
  "buildReadyBucket store ids =
     \<lparr>bucketAll = buildReadyView store ids,
      bucketWs = buildReadyView store (filter (entryWebsocket store) ids),
      groupViews = [], websocketGroups = [], groupViewOrder = [], websocketOrder = []\<rparr>"

abbreviation bucket_at :: "(int, scheduledAuth list) gomap \<Rightarrow> int \<Rightarrow> scheduledAuth list" where
  "bucket_at buckets p \<equiv> (case glookup buckets p of None \<Rightarrow> [] | Some es \<Rightarrow> es)"

definition groupByPriority :: "scheduledAuth list \<Rightarrow> (int, scheduledAuth list) gomap" where
  "groupByPriority es =
     fold (\<lambda>e buckets. gput (metaPriority (entryMeta e))
                         (bucket_at buckets (metaPriority (entryMeta e)) @ [e]) buckets) es []"

definition rebuildBucket :: "entry_store \<Rightarrow> ready_buckets \<Rightarrow> int \<Rightarrow> scheduledAuth list \<Rightarrow> readyBucket" where
  "rebuildBucket store old priority es =
     (let bucket = buildReadyBucket store (map entryID (sort_key entryID es))
      in case glookup old priority of
           None \<Rightarrow> bucket
         | Some b \<Rightarrow>
             bucket\<lparr>bucketAll := restoreReadyViewCursors store (snapshotReadyViewCursors (bucketAll b)) (bucketAll bucket),
                    bucketWs := restoreReadyViewCursors store (snapshotReadyViewCursors (bucketWs b)) (bucketWs bucket)\<rparr>)"

definition queueKey :: "scheduledAuth \<Rightarrow> bool \<times> gotime \<times> string" where
  "queueKey e = (entryNextRetryAt e = zeroTime, entryNextRetryAt e, entryID e)"

definition rebuildIndexes :: "(string \<Rightarrow> string) \<Rightarrow> modelScheduler \<Rightarrow> modelScheduler" where
  "rebuildIndexes digest m =
     (let store = entries m;
          unique = uniqueCandidateEntries digest (\<lambda>_. True) store;
          priorityBuckets = groupByPriority (filter (\<lambda>e. entryState e = scheduledStateReady) unique);
          queued = filter (\<lambda>e. entryState e \<in> {scheduledStateCooldown, scheduledStateBlocked}) unique
      in m\<lparr>readyByPriority :=
             map (\<lambda>(p, es). (p, rebuildBucket store (readyByPriority m) p es)) priorityBuckets,
           priorityOrder := rev (sort (map fst priorityBuckets)),
           blockedQueue := map entryID (sort_key queueKey queued)\<rparr>)"

section \<open>Keeping the entries\<close>

definition supportsModel :: "scheduledAuthMeta \<Rightarrow> string \<Rightarrow> bool" where
  "supportsModel meta key0 =
     (let key = canonicalModelKey key0
      in if key = '''' then True
         else if supportedModelSet meta = [] \<and> selectionModelSet meta = [] then False
         else key \<in> set (supportedModelSet meta) \<or> glookup (selectionModelSet meta) key \<noteq> None)"

definition selectionModelForRoute :: "scheduledAuthMeta \<Rightarrow> string \<Rightarrow> string" where
  "selectionModelForRoute meta routeModel0 =
     (let routeModel = canonicalModelKey routeModel0;
          selectionModel = trim_space (case glookup (selectionModelSet meta) routeModel of None \<Rightarrow> '''' | Some s \<Rightarrow> s)
      in if selectionModel \<noteq> '''' then selectionModel else routeModel)"

fun entryStateOf :: "bool \<times> blockReason \<times> gotime \<Rightarrow> scheduledState \<times> gotime" where
  "entryStateOf (blocked, reason, upcoming) =
     (if \<not> blocked then (scheduledStateReady, zeroTime)
      else if reason = blockReasonCooldown then (scheduledStateCooldown, upcoming)
      else if reason = blockReasonDisabled then (scheduledStateDisabled, zeroTime)
      else (scheduledStateBlocked, upcoming))"

definition sameIndexFields :: "scheduledAuth \<Rightarrow> scheduledAuth \<Rightarrow> bool" where
  "sameIndexFields previous entry \<longleftrightarrow>
     entryState previous = entryState entry \<and> entryNextRetryAt previous = entryNextRetryAt entry \<and>
     metaPriority (entryMeta previous) = metaPriority (entryMeta entry) \<and>
     websocketEnabled (entryMeta previous) = websocketEnabled (entryMeta entry) \<and>
     canonicalIdentity (entryMeta previous) = canonicalIdentity (entryMeta entry) \<and>
     canonicalScore (entryMeta previous) = canonicalScore (entryMeta entry) \<and>
     entryExpiresAt previous = entryExpiresAt entry \<and>
     entryLeaseExpiresAt previous = entryLeaseExpiresAt entry \<and>
     groupIDs (entryAuth previous) = groupIDs (entryAuth entry)"

definition evaluatedEntry :: "scheduledAuthMeta \<Rightarrow> bool \<times> blockReason \<times> gotime \<Rightarrow> scheduledAuth" where
  "evaluatedEntry meta result =
     (let auth = metaAuth meta;
          lease = authSupplyLeaseExpirationTime (Some auth);
          (state, retry) = entryStateOf result
      in \<lparr>entryMeta = meta,
          entryExpiresAt = (case lease of Some t \<Rightarrow> t
                            | None \<Rightarrow> (case ExpirationTime auth of Some t \<Rightarrow> t | None \<Rightarrow> zeroTime)),
          entryLeaseExpiresAt = (case lease of Some t \<Rightarrow> t | None \<Rightarrow> zeroTime),
          entryState = state, entryNextRetryAt = retry\<rparr>)"

text \<open>The indexes are rebuilt unless the entry was there and none of their inputs changed.\<close>

definition placeEntry :: "(string \<Rightarrow> string) \<Rightarrow> scheduledAuth \<Rightarrow> modelScheduler \<Rightarrow> modelScheduler" where
  "placeEntry digest entry m =
     (let m' = m\<lparr>entries := gput (entryID entry) entry (entries m)\<rparr>
      in case glookup (entries m) (entryID entry) of
           None \<Rightarrow> rebuildIndexes digest m'
         | Some previous \<Rightarrow> if sameIndexFields previous entry then m' else rebuildIndexes digest m')"

definition upsertEntry ::
  "(string \<Rightarrow> string) \<Rightarrow> scheduledAuthMeta \<Rightarrow> gotime \<Rightarrow> modelScheduler \<Rightarrow> limits_env \<Rightarrow>
     modelScheduler \<times> limits_env" where
  "upsertEntry digest meta now m env =
     (let (result, env') =
            isAuthBlockedForModel (Some (metaAuth meta)) (selectionModelForRoute meta (modelKey m)) now env
      in (placeEntry digest (evaluatedEntry meta result) m, env'))"
definition removeEntry :: "(string \<Rightarrow> string) \<Rightarrow> string \<Rightarrow> modelScheduler \<Rightarrow> modelScheduler" where
  "removeEntry digest authID m =
     (if authID = '''' then m
      else case glookup (entries m) authID of
             None \<Rightarrow> m
           | Some _ \<Rightarrow> rebuildIndexes digest (m\<lparr>entries := gdel authID (entries m)\<rparr>))"

text \<open>The loop over the queue: the entries whose retry time has come are evaluated again.\<close>

fun promoteLoop ::
  "string \<Rightarrow> gotime \<Rightarrow> string list \<Rightarrow> entry_store \<Rightarrow> bool \<Rightarrow> limits_env \<Rightarrow>
     (entry_store \<times> bool) \<times> limits_env" where
  "promoteLoop key now [] store changed env = ((store, changed), env)"
| "promoteLoop key now (i # ids) store changed env =
     (case glookup store i of
        None \<Rightarrow> promoteLoop key now ids store changed env
      | Some e \<Rightarrow>
          if entryNextRetryAt e = zeroTime \<or> entryNextRetryAt e > now
          then promoteLoop key now ids store changed env
          else let (result, env') =
                     isAuthBlockedForModel (Some (entryAuth e)) (selectionModelForRoute (entryMeta e) key) now env;
                   (state, retry) = entryStateOf result
               in promoteLoop key now ids
                    (gput i (e\<lparr>entryState := state, entryNextRetryAt := retry\<rparr>) store) True env')"

definition promoteExpired ::
  "(string \<Rightarrow> string) \<Rightarrow> gotime \<Rightarrow> modelScheduler \<Rightarrow> limits_env \<Rightarrow> modelScheduler \<times> limits_env" where
  "promoteExpired digest now m env =
     (let ((store, changed), env') = promoteLoop (modelKey m) now (blockedQueue m) (entries m) False env;
          m' = m\<lparr>entries := store\<rparr>
      in (if changed then rebuildIndexes digest m' else m', env'))"

section \<open>The views of a bucket\<close>

text \<open>
  A reference to a view of a bucket: the view of all entries or of the websocket ones, or a
  cached view of a group selection.
\<close>

datatype view_ref = BaseView bool | GroupView bool string

definition emptyView :: readyView where
  "emptyView = \<lparr>flat = [], viewCursor = 0, weightedState = emptySmoothWeightedState,
                expiryFlat = [], expiryCursor = 0, expiryWeightedState = emptySmoothWeightedState\<rparr>"

abbreviation baseView :: "bool \<Rightarrow> readyBucket \<Rightarrow> readyView" where
  "baseView websocketOnly b \<equiv> (if websocketOnly then bucketWs b else bucketAll b)"

abbreviation groupCache :: "bool \<Rightarrow> readyBucket \<Rightarrow> (string, readyView) gomap" where
  "groupCache websocketOnly b \<equiv> (if websocketOnly then websocketGroups b else groupViews b)"

abbreviation groupOrder :: "bool \<Rightarrow> readyBucket \<Rightarrow> string list" where
  "groupOrder websocketOnly b \<equiv> (if websocketOnly then websocketOrder b else groupViewOrder b)"

fun viewAt :: "view_ref \<Rightarrow> readyBucket \<Rightarrow> readyView" where
  "viewAt (BaseView websocketOnly) b = baseView websocketOnly b"
| "viewAt (GroupView websocketOnly key) b =
     (case glookup (groupCache websocketOnly b) key of None \<Rightarrow> emptyView | Some v \<Rightarrow> v)"

fun storeView :: "view_ref \<Rightarrow> readyView \<Rightarrow> readyBucket \<Rightarrow> readyBucket" where
  "storeView (BaseView websocketOnly) v b = (if websocketOnly then b\<lparr>bucketWs := v\<rparr> else b\<lparr>bucketAll := v\<rparr>)"
| "storeView (GroupView websocketOnly key) v b =
     (if websocketOnly then b\<lparr>websocketGroups := gput key v (websocketGroups b)\<rparr>
      else b\<lparr>groupViews := gput key v (groupViews b)\<rparr>)"

definition maxAccountGroupReadyViewCacheEntries :: nat where
  "maxAccountGroupReadyViewCacheEntries = 64"

definition entryInGroups :: "entry_store \<Rightarrow> int list \<Rightarrow> string \<Rightarrow> bool" where
  "entryInGroups store ids i \<longleftrightarrow>
     (case glookup store i of None \<Rightarrow> False | Some e \<Rightarrow> matchesAnyGroup (Some (entryAuth e)) ids)"

definition cacheView ::
  "string \<Rightarrow> readyView \<Rightarrow> (string, readyView) gomap \<times> string list \<Rightarrow> (string, readyView) gomap \<times> string list" where
  "cacheView key v co =
     (let (cache, order) = co;
          (cache, order) = (if length cache \<ge> maxAccountGroupReadyViewCacheEntries \<and> length order > 0
                            then (gdel (hd order) cache, tl order) else (cache, order))
      in (gput key v cache, order @ [key]))"

definition bucketView ::
  "entry_store \<Rightarrow> bool \<Rightarrow> accountGroupSelection option \<Rightarrow> readyBucket \<Rightarrow> view_ref \<times> readyBucket" where
  "bucketView store websocketOnly groups b =
     (case groups of
        None \<Rightarrow> (BaseView websocketOnly, b)
      | Some sel \<Rightarrow>
          if selectionIDs sel = [] then (BaseView websocketOnly, b)
          else let key = trim_space (selectionKey sel);
                   key = (if key = '''' then accountGroupSelectionKey (selectionIDs sel) else key)
               in case glookup (groupCache websocketOnly b) key of
                    Some _ \<Rightarrow> (GroupView websocketOnly key, b)
                  | None \<Rightarrow>
                      let ids = filter (entryInGroups store (selectionIDs sel)) (flat (baseView websocketOnly b));
                          (cache, order) =
                            cacheView key (buildReadyView store ids)
                              (groupCache websocketOnly b, groupOrder websocketOnly b)
                      in (GroupView websocketOnly key,
                          if websocketOnly then b\<lparr>websocketGroups := cache, websocketOrder := order\<rparr>
                          else b\<lparr>groupViews := cache, groupViewOrder := order\<rparr>))"

section \<open>Picks\<close>

fun highestReadyLoop ::
  "entry_store \<Rightarrow> bool \<Rightarrow> (scheduledAuth \<Rightarrow> bool) \<Rightarrow> accountGroupSelection option \<Rightarrow> int list \<Rightarrow>
     ready_buckets \<Rightarrow> int option \<times> ready_buckets" where
  "highestReadyLoop store websocketOnly predicate groups [] buckets = (None, buckets)"
| "highestReadyLoop store websocketOnly predicate groups (p # ps) buckets =
     (case glookup buckets p of
        None \<Rightarrow> highestReadyLoop store websocketOnly predicate groups ps buckets
      | Some b \<Rightarrow>
          let (ref, b') = bucketView store websocketOnly groups b;
              buckets' = gput p b' buckets
          in if pickFirst store predicate (viewAt ref b') \<noteq> None then (Some p, buckets')
             else highestReadyLoop store websocketOnly predicate groups ps buckets')"

definition highestReadyPriority ::
  "bool \<Rightarrow> (scheduledAuth \<Rightarrow> bool) \<Rightarrow> accountGroupSelection option \<Rightarrow> modelScheduler \<Rightarrow>
     int option \<times> modelScheduler" where
  "highestReadyPriority preferWebsocket predicate groups m =
     (let (found, buckets) =
            (if preferWebsocket
             then highestReadyLoop (entries m) True predicate groups (priorityOrder m) (readyByPriority m)
             else (None, readyByPriority m))
      in case found of
           Some p \<Rightarrow> (Some p, m\<lparr>readyByPriority := buckets\<rparr>)
         | None \<Rightarrow>
             let (found, buckets) = highestReadyLoop (entries m) False predicate groups (priorityOrder m) buckets
             in (found, m\<lparr>readyByPriority := buckets\<rparr>))"

text \<open>The view a pick at one priority uses: the websocket one when preferred and of any use.\<close>

definition chooseView ::
  "entry_store \<Rightarrow> bool \<Rightarrow> (scheduledAuth \<Rightarrow> bool) \<Rightarrow> accountGroupSelection option \<Rightarrow> readyBucket \<Rightarrow>
     view_ref \<times> readyBucket" where
  "chooseView store preferWebsocket predicate groups b0 =
     (let (ref, b) = bucketView store False groups b0
      in if preferWebsocket
         then let (ws, b) = bucketView store True groups b
              in if pickFirst store predicate (viewAt ws b) \<noteq> None then (ws, b) else (ref, b)
         else (ref, b))"

definition pickReadyAtPriority ::
  "bool \<Rightarrow> int \<Rightarrow> schedulerStrategy \<Rightarrow> (scheduledAuth \<Rightarrow> bool) \<Rightarrow> accountGroupSelection option \<Rightarrow>
     gotime \<Rightarrow> gotime \<Rightarrow> modelScheduler \<Rightarrow> limits_env \<Rightarrow> (Auth option \<times> modelScheduler) \<times> limits_env" where
  "pickReadyAtPriority preferWebsocket priority strategy predicate groups now later m env =
     (case glookup (readyByPriority m) priority of
        None \<Rightarrow> ((None, m), env)
      | Some b0 \<Rightarrow>
          let (ref, b) = chooseView (entries m) preferWebsocket predicate groups b0;
              ((picked, v), env') = pickView (entries m) predicate strategy now later (viewAt ref b) env
          in ((map_option entryAuth picked,
               m\<lparr>readyByPriority := gput priority (storeView ref v b) (readyByPriority m)\<rparr>), env'))"

definition pickReady ::
  "(string \<Rightarrow> string) \<Rightarrow> bool \<Rightarrow> schedulerStrategy \<Rightarrow> (scheduledAuth \<Rightarrow> bool) \<Rightarrow>
     accountGroupSelection option \<Rightarrow> gotime \<Rightarrow> gotime \<Rightarrow> gotime \<Rightarrow> modelScheduler \<Rightarrow> limits_env \<Rightarrow>
     (Auth option \<times> modelScheduler) \<times> limits_env" where
  "pickReady digest preferWebsocket strategy predicate groups now0 now later m0 env0 =
     (let (m1, env) = promoteExpired digest now0 m0 env0;
          (found, m) = highestReadyPriority preferWebsocket predicate groups m1
      in case found of
           None \<Rightarrow> ((None, m), env)
         | Some p \<Rightarrow> pickReadyAtPriority preferWebsocket p strategy predicate groups now later m env)"

definition readyCountAtPriority ::
  "bool \<Rightarrow> int \<Rightarrow> (scheduledAuth \<Rightarrow> bool) \<Rightarrow> accountGroupSelection option \<Rightarrow> modelScheduler \<Rightarrow>
     nat \<times> modelScheduler" where
  "readyCountAtPriority preferWebsocket priority predicate groups m =
     (case glookup (readyByPriority m) priority of
        None \<Rightarrow> (0, m)
      | Some b0 \<Rightarrow>
          let (ref, b) = chooseView (entries m) preferWebsocket predicate groups b0
          in (length (filter predicate (entriesOf (entries m) (flat (viewAt ref b)))),
              m\<lparr>readyByPriority := gput priority b (readyByPriority m)\<rparr>))"

section \<open>Unavailability\<close>

text \<open>The number of candidates, how many of them are cooling down, and the earliest retry time.\<close>

definition summaryStep :: "scheduledAuth \<Rightarrow> int \<times> int \<times> gotime \<Rightarrow> int \<times> int \<times> gotime" where
  "summaryStep e acc =
     (let (n, cooldownCount, earliest) = acc
      in if entryState e \<noteq> scheduledStateCooldown then (n + 1, cooldownCount, earliest)
         else (n + 1, cooldownCount + 1,
               if entryNextRetryAt e \<noteq> zeroTime \<and> (earliest = zeroTime \<or> entryNextRetryAt e < earliest)
               then entryNextRetryAt e else earliest))"

definition availabilitySummary ::
  "(string \<Rightarrow> string) \<Rightarrow> (scheduledAuth \<Rightarrow> bool) \<Rightarrow> modelScheduler \<Rightarrow> int \<times> int \<times> gotime" where
  "availabilitySummary digest predicate m =
     fold summaryStep (uniqueCandidateEntries digest predicate (entries m)) (0, 0, zeroTime)"

definition unavailableError ::
  "(string \<Rightarrow> string) \<Rightarrow> string \<Rightarrow> string \<Rightarrow> (scheduledAuth \<Rightarrow> bool) \<Rightarrow> gotime \<Rightarrow> modelScheduler \<Rightarrow>
     select_error" where
  "unavailableError digest provider model predicate now m =
     (let (n, cooldownCount, earliest) = availabilitySummary digest predicate m
      in if n = 0 then SelectorError ''auth_not_found'' ''no auth available''
         else if cooldownCount = n \<and> earliest \<noteq> zeroTime
         then let providerForError = (if provider = ''mixed'' then '''' else provider);
                  resetIn = time_sub earliest now;
                  resetIn = (if resetIn < 0 then 0 else resetIn)
              in newModelCooldownError model providerForError resetIn
         else SelectorError ''auth_unavailable'' ''no auth available'')"

end
