(* ===== verification/ShardIndex.thy ===== *)
theory ShardIndex
  imports ModelShard
begin

text \<open>
  What the index of a model shard is: a function of the entries' summaries, whatever the order
  in which the entries are walked or the operations that led to them. Each operation of
  \<open>ModelShard\<close> keeps the index equal to that function, so a pick reads the index the entries
  define.
\<close>

section \<open>The abstract index\<close>

text \<open>What the index depends on of an entry. Its id is the key of the map.\<close>

record entrySummary =
  sumState :: scheduledState
  sumRetry :: gotime
  sumPriority :: int
  sumWebsocket :: bool
  sumIdentity :: string
  sumScore :: int
  sumExpires :: gotime
  sumGroups :: "int list"

type_synonym summaries = "string \<Rightarrow> entrySummary option"

definition summary :: "(string \<Rightarrow> string) \<Rightarrow> scheduledAuth \<Rightarrow> entrySummary" where
  "summary digest e =
     \<lparr>sumState = entryState e, sumRetry = entryNextRetryAt e, sumPriority = metaPriority (entryMeta e),
      sumWebsocket = websocketEnabled (entryMeta e),
      sumIdentity = codexCanonicalIdentityKey digest (entryAuth e),
      sumScore = canonicalAuthPreferenceScore (entryAuth e),
      sumExpires = entryExpiresAt e, sumGroups = groupIDs (entryAuth e)\<rparr>"

lemma summary_simps [simp]:
  "sumState (summary digest e) = entryState e" "sumRetry (summary digest e) = entryNextRetryAt e"
  "sumPriority (summary digest e) = metaPriority (entryMeta e)"
  "sumWebsocket (summary digest e) = websocketEnabled (entryMeta e)"
  "sumIdentity (summary digest e) = codexCanonicalIdentityKey digest (entryAuth e)"
  "sumScore (summary digest e) = canonicalAuthPreferenceScore (entryAuth e)"
  "sumExpires (summary digest e) = entryExpiresAt e" "sumGroups (summary digest e) = groupIDs (entryAuth e)"
  by (simp_all add: summary_def)

definition summaries :: "(string \<Rightarrow> string) \<Rightarrow> entry_store \<Rightarrow> summaries" where
  "summaries digest store i = map_option (summary digest) (glookup store i)"

text \<open>Of two files of one account the one in the better state is kept, then the better score.\<close>

definition prefers :: "string \<Rightarrow> entrySummary \<Rightarrow> string \<Rightarrow> entrySummary \<Rightarrow> bool" where
  "prefers i x j y \<longleftrightarrow>
     sumState y < sumState x \<or>
     (sumState x = sumState y \<and>
       (sumScore y < sumScore x \<or> (sumScore x = sumScore y \<and> i \<le> j)))"

definition represents :: "summaries \<Rightarrow> string \<Rightarrow> bool" where
  "represents s i \<longleftrightarrow>
     (\<exists>x. s i = Some x \<and>
        (sumIdentity x = '''' \<or>
         (\<forall>j y. s j = Some y \<longrightarrow> sumIdentity y = sumIdentity x \<longrightarrow> prefers i x j y)))"

definition ready_set :: "summaries \<Rightarrow> int \<Rightarrow> string set" where
  "ready_set s p =
     {i. represents s i \<and> (\<exists>x. s i = Some x \<and> sumState x = scheduledStateReady \<and> sumPriority x = p)}"

definition blocked_set :: "summaries \<Rightarrow> string set" where
  "blocked_set s =
     {i. represents s i \<and>
         (\<exists>x. s i = Some x \<and> sumState x \<in> {scheduledStateCooldown, scheduledStateBlocked})}"

definition retry_key :: "summaries \<Rightarrow> string \<Rightarrow> bool \<times> gotime \<times> string" where
  "retry_key s i = (case s i of None \<Rightarrow> (True, zeroTime, i) | Some x \<Rightarrow> (sumRetry x = zeroTime, sumRetry x, i))"

definition expiry_key :: "summaries \<Rightarrow> string \<Rightarrow> gotime \<times> string" where
  "expiry_key s i = (case s i of None \<Rightarrow> (zeroTime, i) | Some x \<Rightarrow> (sumExpires x, i))"

text \<open>The index: strictly sorted lists with the right members.\<close>

definition view_of :: "summaries \<Rightarrow> string list \<Rightarrow> readyView \<Rightarrow> bool" where
  "view_of s ids v \<longleftrightarrow>
     flat v = ids \<and>
     sorted_wrt (\<lambda>i j. expiry_key s i < expiry_key s j) (expiryFlat v) \<and>
     set (expiryFlat v) = {i \<in> set ids. \<exists>x. s i = Some x \<and> sumExpires x \<noteq> zeroTime}"

definition ws_ids :: "summaries \<Rightarrow> string list \<Rightarrow> string list" where
  "ws_ids s ids = filter (\<lambda>i. \<exists>x. s i = Some x \<and> sumWebsocket x) ids"

definition group_ids :: "summaries \<Rightarrow> int list \<Rightarrow> string list \<Rightarrow> string list" where
  "group_ids s groups ids =
     filter (\<lambda>i. \<exists>x. s i = Some x \<and> sumGroups x \<noteq> [] \<and> groups \<noteq> [] \<and> matchSorted (sumGroups x) groups) ids"

text \<open>
  A cache holds, under the key of a group selection, the view of that selection; it stays within
  its bound and its queue of keys lists exactly the keys it holds.
\<close>

definition cache_of ::
  "summaries \<Rightarrow> string list \<Rightarrow> (string, readyView) gomap \<Rightarrow> string list \<Rightarrow> bool" where
  "cache_of s ids cache order \<longleftrightarrow>
     gomap_ok cache \<and> distinct order \<and> set order = fst ` set cache \<and>
     length cache \<le> maxAccountGroupReadyViewCacheEntries \<and>
     (\<forall>groups v. groups \<noteq> [] \<longrightarrow> glookup cache (accountGroupSelectionKey groups) = Some v \<longrightarrow>
        view_of s (group_ids s groups ids) v)"

definition bucket_of_ids :: "summaries \<Rightarrow> string list \<Rightarrow> readyBucket \<Rightarrow> bool" where
  "bucket_of_ids s ids b \<longleftrightarrow>
     view_of s ids (bucketAll b) \<and> view_of s (ws_ids s ids) (bucketWs b) \<and>
     cache_of s ids (groupViews b) (groupViewOrder b) \<and>
     cache_of s (ws_ids s ids) (websocketGroups b) (websocketOrder b)"

definition index_of :: "summaries \<Rightarrow> modelScheduler \<Rightarrow> bool" where
  "index_of s m \<longleftrightarrow>
     sorted_wrt (>) (priorityOrder m) \<and> set (priorityOrder m) = {p. ready_set s p \<noteq> {}} \<and>
     fst ` set (readyByPriority m) = set (priorityOrder m) \<and>
     (\<forall>p b. glookup (readyByPriority m) p = Some b \<longrightarrow>
        (\<exists>ids. sorted_wrt (<) ids \<and> set ids = ready_set s p \<and> bucket_of_ids s ids b)) \<and>
     sorted_wrt (\<lambda>i j. retry_key s i < retry_key s j) (blockedQueue m) \<and>
     set (blockedQueue m) = blocked_set s"

text \<open>The metadata of an entry was computed from its credential.\<close>

definition meta_ok :: "(string \<Rightarrow> string) \<Rightarrow> scheduledAuthMeta \<Rightarrow> bool" where
  "meta_ok digest meta \<longleftrightarrow>
     canonicalIdentity meta = codexCanonicalIdentityKey digest (metaAuth meta) \<and>
     canonicalScore meta = canonicalAuthPreferenceScore (metaAuth meta)"

definition entries_ok :: "(string \<Rightarrow> string) \<Rightarrow> entry_store \<Rightarrow> bool" where
  "entries_ok digest store \<longleftrightarrow>
     gomap_ok store \<and> (\<forall>i e. glookup store i = Some e \<longrightarrow> entryID e = i \<and> meta_ok digest (entryMeta e))"

definition shard_ok :: "(string \<Rightarrow> string) \<Rightarrow> modelScheduler \<Rightarrow> bool" where
  "shard_ok digest m \<longleftrightarrow> entries_ok digest (entries m) \<and> index_of (summaries digest (entries m)) m"

section \<open>One entry per account\<close>

lemma prefers_total: "prefers i x j y \<or> prefers j y i x"
  by (auto simp: prefers_def)

lemma prefers_trans: "prefers i x j y \<Longrightarrow> prefers j y k z \<Longrightarrow> prefers i x k z"
  by (auto simp: prefers_def)

lemma prefers_refl [simp]: "prefers i x i x"
  by (simp add: prefers_def)

lemma prefers_antisym: "prefers i x j y \<Longrightarrow> prefers j y i x \<Longrightarrow> i = j"
  by (auto simp: prefers_def)

lemma state_preference:
  "scheduledStatePreference a > scheduledStatePreference b \<longleftrightarrow> (b :: scheduledState) < a"
  by (simp add: less_scheduledState_def)

lemma preferScheduled_Some:
  "preferScheduledCanonicalEntry (Some l) (Some r) =
     Some (if prefers (entryID l) (summary digest l) (entryID r) (summary digest r) then l else r)"
  if "entryID l \<noteq> entryID r"
  using that
  by (auto simp: preferScheduledCanonicalEntry_def preferredCanonicalAuth_def prefers_def summary_def
        state_preference)

lemma preferScheduled_None [simp]: "preferScheduledCanonicalEntry None (Some r) = Some r"
  by (simp add: preferScheduledCanonicalEntry_def)

abbreviation identity_of :: "(string \<Rightarrow> string) \<Rightarrow> scheduledAuth \<Rightarrow> string" where
  "identity_of digest e \<equiv> codexCanonicalIdentityKey digest (entryAuth e)"

definition better :: "(string \<Rightarrow> string) \<Rightarrow> scheduledAuth \<Rightarrow> scheduledAuth \<Rightarrow> bool" where
  "better digest e f \<longleftrightarrow> prefers (entryID e) (summary digest e) (entryID f) (summary digest f)"

lemma better_refl [simp]: "better digest e e"
  by (simp add: better_def)

lemma better_trans: "better digest e f \<Longrightarrow> better digest f g \<Longrightarrow> better digest e g"
  by (auto simp: better_def intro: prefers_trans)

lemma better_total: "better digest e f \<or> better digest f e"
  by (auto simp: better_def prefers_total)

text \<open>What the walk has kept of a set of entries: the best one of every account.\<close>

fun kept_at :: "(string \<Rightarrow> string) \<Rightarrow> scheduledAuth set \<Rightarrow> string \<Rightarrow> scheduledAuth option option \<Rightarrow> bool" where
  "kept_at digest E k None = (\<forall>e \<in> E. identity_of digest e = k \<longrightarrow> k = '''')"
| "kept_at digest E k (Some kept) =
     (k \<noteq> '''' \<and> (\<exists>e \<in> E. kept = Some e \<and> identity_of digest e = k \<and>
        (\<forall>f \<in> E. identity_of digest f = k \<longrightarrow> better digest e f)))"

definition kept_of ::
  "(string \<Rightarrow> string) \<Rightarrow> scheduledAuth set \<Rightarrow> (string, scheduledAuth option) gomap \<Rightarrow> bool" where
  "kept_of digest E canonical \<longleftrightarrow>
     gomap_ok canonical \<and> (\<forall>k. kept_at digest E k (glookup canonical k))"

lemma kept_at_other:
  "kept_at digest E k v \<Longrightarrow> identity_of digest e = '''' \<or> identity_of digest e \<noteq> k \<Longrightarrow>
   kept_at digest (insert e E) k v"
  by (cases v) auto

lemma kept_of_anonymous:
  "kept_of digest E canonical \<Longrightarrow> identity_of digest e = '''' \<Longrightarrow> kept_of digest (insert e E) canonical"
  by (auto simp: kept_of_def intro: kept_at_other)

lemma kept_at_step:
  assumes kept: "kept_at digest E k v" and k: "identity_of digest e = k" "k \<noteq> ''''"
    and new: "entryID e \<notin> entryID ` E"
  shows "kept_at digest (insert e E) k
    (Some (preferScheduledCanonicalEntry (case v of None \<Rightarrow> None | Some c \<Rightarrow> c) (Some e)))"
proof (cases v)
  case None
  then show ?thesis using kept k by auto
next
  case (Some c)
  then obtain a where a: "a \<in> E" "c = Some a" "identity_of digest a = k"
      "\<forall>f \<in> E. identity_of digest f = k \<longrightarrow> better digest a f" using kept by auto
  have ne: "entryID a \<noteq> entryID e" using new a(1) by (metis imageI)
  show ?thesis
  proof (cases "better digest a e")
    case True
    then show ?thesis using a Some k preferScheduled_Some [OF ne, of digest] by (auto simp: better_def)
  next
    case False
    then have "better digest e a" using better_total by blast
    then have "\<forall>f \<in> E. identity_of digest f = k \<longrightarrow> better digest e f"
      using a(4) better_trans by blast
    then show ?thesis using a Some False k preferScheduled_Some [OF ne, of digest]
      by (auto simp: better_def)
  qed
qed

lemma kept_of_step:
  assumes "kept_of digest E canonical" "identity_of digest e = k" "k \<noteq> ''''" "entryID e \<notin> entryID ` E"
  shows "kept_of digest (insert e E)
    (gput k (preferScheduledCanonicalEntry
       (case glookup canonical k of None \<Rightarrow> None | Some c \<Rightarrow> c) (Some e)) canonical)"
proof -
  have "kept_at digest (insert e E) k' (glookup (gput k (preferScheduledCanonicalEntry
       (case glookup canonical k of None \<Rightarrow> None | Some c \<Rightarrow> c) (Some e)) canonical) k')" for k'
  proof (cases "k' = k")
    case True
    then show ?thesis using assms kept_at_step [of digest E k "glookup canonical k" e]
      by (simp add: glookup_put kept_of_def)
  next
    case False
    then show ?thesis using assms kept_at_other [of digest E k' "glookup canonical k'" e]
      by (simp add: glookup_put kept_of_def)
  qed
  then show ?thesis using assms(1) by (simp add: kept_of_def)
qed
lemma uniqueStep_eq:
  "uniqueStep digest predicate e (out, canonical) =
     (if \<not> predicate e then (out, canonical)
      else if identity_of digest e = '''' then (out @ [e], canonical)
      else (out, gput (identity_of digest e) (preferScheduledCanonicalEntry
              (case glookup canonical (identity_of digest e) of None \<Rightarrow> None | Some c \<Rightarrow> c) (Some e)) canonical))"
  by (simp add: uniqueStep_def Let_def)

text \<open>The walk over the entries, from any point.\<close>

lemma uniqueStep_fold:
  assumes "fold (\<lambda>(_, entry). uniqueStep digest predicate entry) xs (out, canonical) = (out', canonical')"
    and "kept_of digest E canonical" and "distinct (map entryID out)"
    and "set out = {e \<in> E. identity_of digest e = ''''}"
    and "distinct (map (entryID \<circ> snd) xs)" "entryID ` E \<inter> (entryID \<circ> snd) ` set xs = {}"
  shows "kept_of digest (E \<union> {e \<in> snd ` set xs. predicate e}) canonical' \<and>
     distinct (map entryID out') \<and>
     set out' = {e \<in> E \<union> {e \<in> snd ` set xs. predicate e}. identity_of digest e = ''''}"
  using assms
proof (induction xs arbitrary: out canonical E)
  case Nil
  then show ?case by simp
next
  case (Cons x xs)
  obtain i e where x: "x = (i, e)" by fastforce
  let ?k = "identity_of digest e"
  have new: "entryID e \<notin> entryID ` E" using Cons.prems(6) x by auto
  have dist: "distinct (map (entryID \<circ> snd) xs)" using Cons.prems(5) by (simp add: comp_def)
  have fresh: "entryID e \<notin> (entryID \<circ> snd) ` set xs" using Cons.prems(5) x by auto
  note run = Cons.prems(1)[simplified x]
  show ?case
  proof (cases "predicate e")
    case False
    then have "fold (\<lambda>(_, entry). uniqueStep digest predicate entry) xs (out, canonical) = (out', canonical')"
      using run by (simp add: uniqueStep_eq)
    from Cons.IH [OF this Cons.prems(2,3,4) dist] Cons.prems(6) x False
    have "kept_of digest (E \<union> {e \<in> snd ` set xs. predicate e}) canonical' \<and>
     distinct (map entryID out') \<and>
     set out' = {e \<in> E \<union> {e \<in> snd ` set xs. predicate e}. identity_of digest e = ''''}" by auto
    moreover have "{e \<in> snd ` set (x # xs). predicate e} = {e \<in> snd ` set xs. predicate e}"
      using False x by auto
    ultimately show ?thesis by simp
  next
    case True
    have E: "E \<union> {f \<in> snd ` set (x # xs). predicate f} = insert e E \<union> {f \<in> snd ` set xs. predicate f}"
      using True x by auto
    have disj: "entryID ` insert e E \<inter> (entryID \<circ> snd) ` set xs = {}"
      using Cons.prems(6) x fresh by auto
    show ?thesis
    proof (cases "?k = ''''")
      case anon: True
      have "fold (\<lambda>(_, entry). uniqueStep digest predicate entry) xs (out @ [e], canonical) = (out', canonical')"
        using run True anon by (simp add: uniqueStep_eq)
      from Cons.IH [OF this kept_of_anonymous [OF Cons.prems(2) anon] _ _ dist disj]
      show ?thesis using Cons.prems(3,4) new anon unfolding E by auto
    next
      case named: False
      have "fold (\<lambda>(_, entry). uniqueStep digest predicate entry) xs
         (out, gput ?k (preferScheduledCanonicalEntry
           (case glookup canonical ?k of None \<Rightarrow> None | Some c \<Rightarrow> c) (Some e)) canonical) = (out', canonical')"
        using run True named by (simp add: uniqueStep_eq)
      from Cons.IH [OF this kept_of_step [OF Cons.prems(2) refl named new] Cons.prems(3) _ dist disj]
      show ?thesis using Cons.prems(4) named unfolding E by auto
    qed
  qed
qed

definition keeps_best :: "(string \<Rightarrow> string) \<Rightarrow> scheduledAuth set \<Rightarrow> scheduledAuth \<Rightarrow> bool" where
  "keeps_best digest E e \<longleftrightarrow>
     e \<in> E \<and> (identity_of digest e = '''' \<or>
       (\<forall>f \<in> E. identity_of digest f = identity_of digest e \<longrightarrow> better digest e f))"

lemma kept_of_entry:
  assumes "kept_of digest E canonical" "(k, v) \<in> set canonical"
  obtains e where "v = Some e" "e \<in> E" "identity_of digest e = k" "k \<noteq> ''''"
    "\<forall>f \<in> E. identity_of digest f = k \<longrightarrow> better digest e f"
proof -
  have "glookup canonical k = Some v"
    using assms by (simp add: kept_of_def gomap_mem)
  with assms(1) have "kept_at digest E k (Some v)" by (metis kept_of_def)
  then show thesis using that by auto
qed

lemma kept_of_values:
  assumes "kept_of digest E canonical" and "inj_on entryID E"
  shows "set (List.map_filter snd canonical) = {e. keeps_best digest E e \<and> identity_of digest e \<noteq> ''''}"
proof
  show "set (List.map_filter snd canonical) \<subseteq> {e. keeps_best digest E e \<and> identity_of digest e \<noteq> ''''}"
  proof
    fix e
    assume "e \<in> set (List.map_filter snd canonical)"
    then obtain k where "(k, Some e) \<in> set canonical" by (auto simp: List.map_filter_def)
    from kept_of_entry [OF assms(1) this]
    show "e \<in> {e. keeps_best digest E e \<and> identity_of digest e \<noteq> ''''}"
      by (auto simp: keeps_best_def)
  qed
  show "{e. keeps_best digest E e \<and> identity_of digest e \<noteq> ''''} \<subseteq> set (List.map_filter snd canonical)"
  proof
    fix e
    assume "e \<in> {e. keeps_best digest E e \<and> identity_of digest e \<noteq> ''''}"
    then have e: "e \<in> E" "identity_of digest e \<noteq> ''''"
      and best: "\<forall>f \<in> E. identity_of digest f = identity_of digest e \<longrightarrow> better digest e f"
      by (auto simp: keeps_best_def)
    have at: "kept_at digest E (identity_of digest e) (glookup canonical (identity_of digest e))"
      using assms(1) by (simp add: kept_of_def)
    with e obtain v where v: "glookup canonical (identity_of digest e) = Some v"
      by (cases "glookup canonical (identity_of digest e)") auto
    with at obtain b where b: "v = Some b" "b \<in> E" "identity_of digest b = identity_of digest e" "better digest b e"
      using e by auto
    have "entryID b = entryID e"
      using b best by (auto simp: better_def intro: prefers_antisym)
    then have "b = e" using assms(2) b(2) e(1) by (auto dest: inj_onD)
    with v b(1) have "(identity_of digest e, Some e) \<in> set canonical" by (auto dest: map_of_SomeD)
    then show "e \<in> set (List.map_filter snd canonical)" by (force simp: List.map_filter_def)
  qed
qed

lemma kept_of_distinct:
  assumes "kept_of digest E canonical" and "inj_on entryID E"
  shows "distinct (map entryID (List.map_filter snd canonical))"
proof -
  have "distinct (map entryID (List.map_filter snd cs))" if "set cs \<subseteq> set canonical" "distinct (map fst cs)" for cs
    using that
  proof (induction cs)
    case (Cons c cs)
    obtain k v where c: "c = (k, v)" by fastforce
    with Cons.prems obtain e where e: "v = Some e" "e \<in> E" "identity_of digest e = k"
      using kept_of_entry [OF assms(1), of k v] by auto
    have "entryID e \<notin> entryID ` set (List.map_filter snd cs)"
    proof
      assume "entryID e \<in> entryID ` set (List.map_filter snd cs)"
      then obtain f k' where f: "(k', Some f) \<in> set cs" "entryID f = entryID e"
        by (auto simp: List.map_filter_def)
      with Cons.prems(1) have "(k', Some f) \<in> set canonical" by auto
      from kept_of_entry [OF assms(1) this] have "f \<in> E" "identity_of digest f = k'" by auto
      with f(2) e assms(2) have "k' = k" by (auto dest: inj_onD)
      with f(1) Cons.prems(2) c show False by force
    qed
    with Cons c e show ?case by (simp add: map_filter_simps)
  qed (simp add: map_filter_simps)
  then show ?thesis using assms(1) by (simp add: kept_of_def gomap_ok_def)
qed

text \<open>The candidates: one entry per account, the best of those that satisfy the predicate.\<close>

lemma entries_ok_ids:
  assumes "entries_ok digest store"
  shows "inj_on entryID (snd ` set store)" "distinct (map (entryID \<circ> snd) store)"
proof -
  have id: "entryID e = i" if "(i, e) \<in> set store" for i e
    using assms that by (auto simp: entries_ok_def gomap_mem)
  then have "map (entryID \<circ> snd) store = map fst store" by auto
  moreover have "distinct (map fst store)"
    using assms by (simp add: entries_ok_def gomap_ok_def)
  ultimately show "distinct (map (entryID \<circ> snd) store)" by (simp only:)
  show "inj_on entryID (snd ` set store)"
    using id assms by (auto simp: inj_on_def entries_ok_def gomap_ok_def) (metis eq_key_imp_eq_value)
qed

lemma uniqueCandidateEntries_spec:
  fixes predicate :: "scheduledAuth \<Rightarrow> bool"
  assumes ok: "entries_ok digest store"
  defines "E \<equiv> {e \<in> snd ` set store. predicate e}"
  shows "set (uniqueCandidateEntries digest predicate store) = {e. keeps_best digest E e}"
    and "distinct (map entryID (uniqueCandidateEntries digest predicate store))"
proof -
  obtain out canonical where run:
    "fold (\<lambda>(_, entry). uniqueStep digest predicate entry) store ([], []) = (out, canonical)" by fastforce
  have E: "{} \<union> {e \<in> snd ` set store. predicate e} = E" by (simp add: E_def)
  have "kept_of digest {} []" by (simp add: kept_of_def)
  from uniqueStep_fold [OF run this _ _ entries_ok_ids(2) [OF ok]]
  have kept: "kept_of digest E canonical" and out: "distinct (map entryID out)"
    "set out = {e \<in> E. identity_of digest e = ''''}" unfolding E by auto
  have inj: "inj_on entryID E"
    using entries_ok_ids(1) [OF ok] by (auto simp: E_def intro: inj_on_subset)
  note vals = kept_of_values [OF kept inj]
  have res: "uniqueCandidateEntries digest predicate store = out @ List.map_filter snd canonical"
    by (simp add: uniqueCandidateEntries_def run)
  show "set (uniqueCandidateEntries digest predicate store) = {e. keeps_best digest E e}"
    by (auto simp: res out(2) vals keeps_best_def)
  have "entryID ` set out \<inter> entryID ` set (List.map_filter snd canonical) = {}"
  proof (rule ccontr)
    assume "entryID ` set out \<inter> entryID ` set (List.map_filter snd canonical) \<noteq> {}"
    then obtain a b where ab: "a \<in> set out" "b \<in> set (List.map_filter snd canonical)" "entryID a = entryID b"
      by auto
    then have "a \<in> E" "b \<in> E" "identity_of digest a = ''''" "identity_of digest b \<noteq> ''''"
      using out(2) vals by (auto simp: keeps_best_def)
    with ab(3) inj show False by (auto dest: inj_onD)
  qed
  then show "distinct (map entryID (uniqueCandidateEntries digest predicate store))"
    using out(1) kept_of_distinct [OF kept inj] by (simp add: res)
qed

section \<open>A rebuilt index\<close>

lemma entries_ok_lookup: "entries_ok digest store \<Longrightarrow> glookup store i = Some e \<Longrightarrow> entryID e = i"
  by (simp add: entries_ok_def)

lemma entries_ok_store: "entries_ok digest store \<Longrightarrow> store_ok store"
  by (auto simp: store_ok_def entries_ok_def)

lemma entries_ok_mem:
  assumes "entries_ok digest store"
  shows "e \<in> snd ` set store \<longleftrightarrow> glookup store (entryID e) = Some e"
proof
  assume "e \<in> snd ` set store"
  then obtain i where "(i, e) \<in> set store" by auto
  moreover have "gomap_ok store" using assms by (simp add: entries_ok_def)
  ultimately have "glookup store i = Some e" by (simp add: gomap_mem)
  with entries_ok_lookup [OF assms] show "glookup store (entryID e) = Some e" by blast
next
  assume "glookup store (entryID e) = Some e"
  from imageI [OF map_of_SomeD [OF this], of snd] show "e \<in> snd ` set store" by simp
qed

lemma keeps_best_represents:
  assumes "entries_ok digest store"
  shows "keeps_best digest (snd ` set store) e \<longleftrightarrow>
    glookup store (entryID e) = Some e \<and> represents (summaries digest store) (entryID e)"
proof (cases "glookup store (entryID e) = Some e")
  case True
  have "(\<forall>f \<in> snd ` set store. identity_of digest f = identity_of digest e \<longrightarrow> better digest e f) \<longleftrightarrow>
      (\<forall>j y. summaries digest store j = Some y \<longrightarrow> sumIdentity y = identity_of digest e \<longrightarrow>
         prefers (entryID e) (summary digest e) j y)"
    (is "?L = ?R")
  proof
    assume L: ?L
    show ?R
    proof (intro allI impI)
      fix j y assume y: "summaries digest store j = Some y" "sumIdentity y = identity_of digest e"
      then obtain f where f: "glookup store j = Some f" "y = summary digest f"
        by (auto simp: summaries_def)
      have "entryID f = j" by (rule entries_ok_lookup [OF assms f(1)])
      with f have "f \<in> snd ` set store" using entries_ok_mem [OF assms, of f] by simp
      moreover from f(2) y(2) have "identity_of digest f = identity_of digest e" by simp
      ultimately have "better digest e f" using L by blast
      with f(2) \<open>entryID f = j\<close> show "prefers (entryID e) (summary digest e) j y"
        by (simp add: better_def)
    qed
  next
    assume R: ?R
    show ?L
    proof (intro ballI impI)
      fix f assume f: "f \<in> snd ` set store" "identity_of digest f = identity_of digest e"
      then have "summaries digest store (entryID f) = Some (summary digest f)"
        using entries_ok_mem [OF assms, of f] by (simp add: summaries_def)
      with R f(2) show "better digest e f" by (simp add: better_def)
    qed
  qed
  with True entries_ok_mem [OF assms, of e] show ?thesis
    by (auto simp: keeps_best_def represents_def summaries_def)
next
  case False
  then show ?thesis using entries_ok_mem [OF assms, of e] by (auto simp: keeps_best_def)
qed

lemma sort_key_strict:
  assumes "distinct (map f xs)"
  shows "sorted_wrt (<) (map f (sort_key f xs))"
proof -
  have "distinct xs" and inj: "inj_on f (set xs)" using assms by (simp_all add: distinct_map)
  then have "distinct (map f (sort_key f xs))"
    by (simp add: distinct_map)
  then show ?thesis by (simp add: strict_sorted_iff)
qed

lemma groupByPriority_snoc:
  "groupByPriority (es @ [e]) =
     gput (metaPriority (entryMeta e))
       (bucket_at (groupByPriority es) (metaPriority (entryMeta e)) @ [e]) (groupByPriority es)"
  by (simp add: groupByPriority_def)

lemma groupByPriority_spec:
  "gomap_ok (groupByPriority es) \<and>
   (\<forall>p. glookup (groupByPriority es) p =
      (if filter (\<lambda>e. metaPriority (entryMeta e) = p) es = [] then None
       else Some (filter (\<lambda>e. metaPriority (entryMeta e) = p) es)))"
proof (induction es rule: rev_induct)
  case Nil
  then show ?case by (simp add: groupByPriority_def)
next
  case (snoc e es)
  then show ?case by (auto simp: groupByPriority_snoc glookup_put)
qed

lemma buildReadyView_of:
  assumes ok: "entries_ok digest store" and "distinct ids" "\<forall>i \<in> set ids. glookup store i \<noteq> None"
  shows "view_of (summaries digest store) ids (buildReadyView store ids)"
proof -
  let ?es = "entriesOf store ids"
  let ?key = "\<lambda>e. (entryExpiresAt e, entryID e)"
  let ?exp = "filter (\<lambda>e. entryExpiresAt e \<noteq> zeroTime) ?es"
  have ids: "map entryID ?es = ids"
    using assms(3) by (induction ids) (auto simp: entriesOf_def map_filter_simps entries_ok_lookup [OF ok])
  have mem: "glookup store (entryID e) = Some e" if "e \<in> set ?es" for e
    using that entriesOf_store entries_ok_store [OF ok] by blast
  have key: "expiry_key (summaries digest store) (entryID e) = ?key e" if "e \<in> set ?es" for e
    using mem [OF that] by (simp add: expiry_key_def summaries_def)
  have "distinct (map ?key ?exp)"
  proof -
    have "distinct (map entryID ?exp)" using ids assms(2) by (metis distinct_map_filter)
    then show ?thesis by (auto simp: distinct_map inj_on_def)
  qed
  from sort_key_strict [OF this]
  have strict: "sorted_wrt (\<lambda>a b. ?key a < ?key b) (sort_key ?key ?exp)"
    by (simp add: sorted_wrt_map)
  have "sorted_wrt (\<lambda>a b. expiry_key (summaries digest store) (entryID a) < expiry_key (summaries digest store) (entryID b))
      (sort_key ?key ?exp)"
    by (rule sorted_wrt_mono_rel [OF _ strict]) (auto simp: key)
  moreover have "set (map entryID (sort_key ?key ?exp)) =
      {i \<in> set ids. \<exists>x. summaries digest store i = Some x \<and> sumExpires x \<noteq> zeroTime}"
  proof -
    have "set (map entryID (sort_key ?key ?exp)) = {entryID e | e. e \<in> set ?es \<and> entryExpiresAt e \<noteq> zeroTime}"
      by auto
    also have "\<dots> = {i \<in> set ids. \<exists>x. summaries digest store i = Some x \<and> sumExpires x \<noteq> zeroTime}"
      using mem entries_ok_lookup [OF ok]
      by (auto simp: set_entriesOf summaries_def) blast+
    finally show ?thesis .
  qed
  ultimately show ?thesis
    by (simp add: view_of_def buildReadyView_def sorted_wrt_map)
qed

lemma restore_frame [simp]:
  "flat (restoreReadyViewCursors store st v) = flat v"
  "expiryFlat (restoreReadyViewCursors store st v) = expiryFlat v"
  by (simp_all add: restoreReadyViewCursors_def Let_def)

lemma view_of_frame:
  "flat v' = flat v \<Longrightarrow> expiryFlat v' = expiryFlat v \<Longrightarrow> view_of s ids v' = view_of s ids v"
  by (simp add: view_of_def)

lemma cache_of_empty: "cache_of s ids [] []"
  by (simp add: cache_of_def)

lemma rebuildBucket_of:
  assumes ok: "entries_ok digest store" and "distinct (map entryID es)"
    and "\<forall>e \<in> set es. glookup store (entryID e) = Some e"
  shows "bucket_of_ids (summaries digest store) (map entryID (sort_key entryID es)) (rebuildBucket store old p es)"
proof -
  let ?s = "summaries digest store"
  let ?ids = "map entryID (sort_key entryID es)"
  have dist: "distinct ?ids" using assms(2) by (simp add: distinct_map)
  have known: "\<forall>i \<in> set ?ids. glookup store i \<noteq> None" using assms(3) by auto
  have ws: "filter (entryWebsocket store) ?ids = ws_ids ?s ?ids"
    unfolding ws_ids_def
    by (rule filter_cong) (auto simp: entryWebsocket_def summaries_def split: option.splits)
  have views: "view_of ?s ?ids (buildReadyView store ?ids)"
    "view_of ?s (ws_ids ?s ?ids) (buildReadyView store (ws_ids ?s ?ids))"
    using dist known by (auto intro!: buildReadyView_of [OF ok] simp: ws_ids_def)
  have "flat (bucketAll (rebuildBucket store old p es)) = flat (buildReadyView store ?ids)"
    "expiryFlat (bucketAll (rebuildBucket store old p es)) = expiryFlat (buildReadyView store ?ids)"
    "flat (bucketWs (rebuildBucket store old p es)) = flat (buildReadyView store (ws_ids ?s ?ids))"
    "expiryFlat (bucketWs (rebuildBucket store old p es)) = expiryFlat (buildReadyView store (ws_ids ?s ?ids))"
    "groupViews (rebuildBucket store old p es) = []" "websocketGroups (rebuildBucket store old p es) = []"
    "groupViewOrder (rebuildBucket store old p es) = []" "websocketOrder (rebuildBucket store old p es) = []"
    by (auto simp: rebuildBucket_def Let_def buildReadyBucket_def ws split: option.splits)
  with views show ?thesis
    by (simp add: bucket_of_ids_def view_of_def cache_of_empty)
qed

lemma rebuild_entries [simp]: "entries (rebuildIndexes digest m) = entries m" "modelKey (rebuildIndexes digest m) = modelKey m"
  by (simp_all add: rebuildIndexes_def Let_def)

lemma unique_represents:
  assumes "entries_ok digest store"
  shows "e \<in> set (uniqueCandidateEntries digest (\<lambda>_. True) store) \<longleftrightarrow>
    glookup store (entryID e) = Some e \<and> represents (summaries digest store) (entryID e)"
proof -
  have "{e \<in> snd ` set store. True} = snd ` set store" by simp
  with uniqueCandidateEntries_spec(1) [OF assms, of "\<lambda>_. True"] keeps_best_represents [OF assms, of e]
  show ?thesis by simp
qed

lemma represents_entry:
  assumes "entries_ok digest store" "represents (summaries digest store) i"
  obtains e where "glookup store i = Some e" "entryID e = i" "e \<in> set (uniqueCandidateEntries digest (\<lambda>_. True) store)"
proof -
  from assms(2) obtain e where e: "glookup store i = Some e" by (auto simp: represents_def summaries_def)
  moreover from entries_ok_lookup [OF assms(1) e] have "entryID e = i" .
  ultimately show thesis using that [of e] unique_represents [OF assms(1), of e] assms(2) by simp
qed

lemma glookup_map_key: "glookup (map (\<lambda>(p, es). (p, f p es)) xs) p = map_option (f p) (glookup xs p)"
  by (induction xs) auto

lemma rebuildIndexes_index:
  assumes ok: "entries_ok digest (entries m)"
  shows "index_of (summaries digest (entries m)) (rebuildIndexes digest m)"
proof -
  let ?store = "entries m"
  let ?s = "summaries digest ?store"
  let ?u = "uniqueCandidateEntries digest (\<lambda>_. True) ?store"
  let ?ready = "filter (\<lambda>e. entryState e = scheduledStateReady) ?u"
  let ?queued = "filter (\<lambda>e. entryState e \<in> {scheduledStateCooldown, scheduledStateBlocked}) ?u"
  let ?at = "\<lambda>p. filter (\<lambda>e. metaPriority (entryMeta e) = p) ?ready"
  let ?b = "groupByPriority ?ready"
  have known: "glookup ?store (entryID e) = Some e" if "e \<in> set ?u" for e
    using that unique_represents [OF ok] by blast
  have sum: "?s (entryID e) = Some (summary digest e)" if "e \<in> set ?u" for e
    using known [OF that] by (simp add: summaries_def)
  note dist = uniqueCandidateEntries_spec(2) [OF ok, of "\<lambda>_. True"]
  have ready: "entryID ` set (?at p) = ready_set ?s p" for p
  proof
    show "entryID ` set (?at p) \<subseteq> ready_set ?s p"
      using sum unique_represents [OF ok] by (auto simp: ready_set_def)
    show "ready_set ?s p \<subseteq> entryID ` set (?at p)"
    proof
      fix i assume i: "i \<in> ready_set ?s p"
      then obtain e where "glookup ?store i = Some e" "entryID e = i" "e \<in> set ?u"
        using represents_entry [OF ok, of i] by (auto simp: ready_set_def)
      with i sum [of e] show "i \<in> entryID ` set (?at p)" by (auto simp: ready_set_def)
    qed
  qed
  have queued: "entryID ` set ?queued = blocked_set ?s"
  proof
    show "entryID ` set ?queued \<subseteq> blocked_set ?s"
      using sum unique_represents [OF ok] by (auto simp: blocked_set_def)
    show "blocked_set ?s \<subseteq> entryID ` set ?queued"
    proof
      fix i assume i: "i \<in> blocked_set ?s"
      then obtain e where "glookup ?store i = Some e" "entryID e = i" "e \<in> set ?u"
        using represents_entry [OF ok, of i] by (auto simp: blocked_set_def)
      with i sum [of e] show "i \<in> entryID ` set ?queued" by (auto simp: blocked_set_def)
    qed
  qed
  have keys: "set (map fst ?b) = {p. ready_set ?s p \<noteq> {}}"
  proof -
    have "p \<in> set (map fst ?b) \<longleftrightarrow> ?at p \<noteq> []" for p
    proof -
      have "p \<in> set (map fst ?b) \<longleftrightarrow> glookup ?b p \<noteq> None" by (simp only: glookup_in_keys set_map)
      also have "\<dots> \<longleftrightarrow> ?at p \<noteq> []"
        by (subst conjunct2 [OF groupByPriority_spec, rule_format]) simp
      finally show ?thesis .
    qed
    moreover have "?at p \<noteq> [] \<longleftrightarrow> ready_set ?s p \<noteq> {}" for p
      using ready [of p] by (metis image_is_empty set_empty)
    ultimately show ?thesis by blast
  qed
  have okb: "distinct (map fst ?b)" using groupByPriority_spec [of ?ready] by (simp add: gomap_ok_def)
  have buckets: "\<exists>ids. sorted_wrt (<) ids \<and> set ids = ready_set ?s p \<and> bucket_of_ids ?s ids b"
    if "glookup (map (\<lambda>(p, es). (p, rebuildBucket ?store (readyByPriority m) p es)) ?b) p = Some b" for p b
  proof -
    have "glookup (map (\<lambda>(p, es). (p, rebuildBucket ?store (readyByPriority m) p es)) ?b) p =
        map_option (rebuildBucket ?store (readyByPriority m) p) (glookup ?b p)"
      by (rule glookup_map_key)
    with that have b: "b = rebuildBucket ?store (readyByPriority m) p (?at p)"
      using conjunct2 [OF groupByPriority_spec [of ?ready], rule_format, of p] by (auto split: if_splits)
    have d: "distinct (map entryID (?at p))" using dist by (simp add: distinct_map_filter)
    have "sorted_wrt (<) (map entryID (sort_key entryID (?at p)))" by (rule sort_key_strict [OF d])
    moreover have "bucket_of_ids ?s (map entryID (sort_key entryID (?at p))) b"
      unfolding b by (rule rebuildBucket_of [OF ok d]) (use known in auto)
    moreover have "set (map entryID (sort_key entryID (?at p))) = ready_set ?s p"
      using ready [of p] by (simp only: set_map set_sort)
    ultimately show ?thesis by blast
  qed
  have "sorted_wrt (<) (map queueKey (sort_key queueKey ?queued))"
  proof (rule sort_key_strict)
    have "distinct (map entryID ?queued)" using dist by (simp add: distinct_map_filter)
    then show "distinct (map queueKey ?queued)"
      unfolding distinct_map by (auto simp: queueKey_def inj_on_def)
  qed
  then have "sorted_wrt (\<lambda>a b. queueKey a < queueKey b) (sort_key queueKey ?queued)"
    by (simp add: sorted_wrt_map)
  then have "sorted_wrt (\<lambda>a b. retry_key ?s (entryID a) < retry_key ?s (entryID b)) (sort_key queueKey ?queued)"
    by (rule sorted_wrt_mono_rel [rotated]) (auto simp: retry_key_def sum queueKey_def)
  then have queue: "sorted_wrt (\<lambda>i j. retry_key ?s i < retry_key ?s j) (map entryID (sort_key queueKey ?queued))"
    by (simp add: sorted_wrt_map)
  have order: "sorted_wrt (>) (rev (sort (map fst ?b)))"
    using okb by (simp add: sorted_wrt_rev strict_sorted_iff)
  have "fst ` set (map (\<lambda>(p, es). (p, rebuildBucket ?store (readyByPriority m) p es)) ?b) = set (map fst ?b)"
    by (force simp: image_iff)
  with buckets queue order keys queued show ?thesis
    unfolding index_of_def rebuildIndexes_def Let_def by simp
qed

section \<open>The operations keep the index\<close>

lemma index_of_frame:
  "priorityOrder m' = priorityOrder m \<Longrightarrow> readyByPriority m' = readyByPriority m \<Longrightarrow>
   blockedQueue m' = blockedQueue m \<Longrightarrow> index_of s m' = index_of s m"
  by (simp add: index_of_def)

lemma rebuild_ok: "entries_ok digest (entries m) \<Longrightarrow> shard_ok digest (rebuildIndexes digest m)"
  by (simp add: shard_ok_def rebuildIndexes_index)

lemma shard_ok_empty: "shard_ok digest (emptyShard key)"
  by (simp add: shard_ok_def emptyShard_def entries_ok_def index_of_def summaries_def ready_set_def
      blocked_set_def represents_def)

lemma entries_ok_put:
  "entries_ok digest store \<Longrightarrow> meta_ok digest (entryMeta e) \<Longrightarrow> entries_ok digest (gput (entryID e) e store)"
  by (auto simp: entries_ok_def glookup_put)

lemma entries_ok_put_id:
  "entries_ok digest store \<Longrightarrow> meta_ok digest (entryMeta e) \<Longrightarrow> entryID e = i \<Longrightarrow> entries_ok digest (gput i e store)"
  using entries_ok_put by blast

lemma entries_ok_del: "entries_ok digest store \<Longrightarrow> entries_ok digest (gdel i store)"
  by (auto simp: entries_ok_def glookup_del)

lemma sameIndexFields_summary:
  "sameIndexFields p e \<Longrightarrow> meta_ok digest (entryMeta p) \<Longrightarrow> meta_ok digest (entryMeta e) \<Longrightarrow>
   summary digest p = summary digest e"
  by (simp add: sameIndexFields_def summary_def meta_ok_def)

lemma summaries_put:
  "summaries digest (gput i e store) = (summaries digest store)(i \<mapsto> summary digest e)"
  by (auto simp: summaries_def glookup_put)

lemma placeEntry_ok:
  assumes "shard_ok digest m" "meta_ok digest (entryMeta e)"
  shows "shard_ok digest (placeEntry digest e m)"
proof -
  let ?m = "m\<lparr>entries := gput (entryID e) e (entries m)\<rparr>"
  have ok: "entries_ok digest (entries ?m)"
    using assms by (auto simp: shard_ok_def intro: entries_ok_put)
  show ?thesis
  proof (cases "\<exists>p. glookup (entries m) (entryID e) = Some p \<and> sameIndexFields p e")
    case True
    then obtain p where p: "glookup (entries m) (entryID e) = Some p" "sameIndexFields p e" by blast
    then have "meta_ok digest (entryMeta p)" using assms(1) by (auto simp: shard_ok_def entries_ok_def)
    with p(2) assms(2) have "summary digest p = summary digest e" by (auto intro: sameIndexFields_summary)
    with p(1) have "summaries digest (entries ?m) = summaries digest (entries m)"
      by (auto simp: summaries_put summaries_def fun_eq_iff)
    then have "shard_ok digest ?m"
      using ok assms(1) index_of_frame [of ?m m] by (simp add: shard_ok_def)
    with p show ?thesis by (simp add: placeEntry_def)
  next
    case False
    then have "placeEntry digest e m = rebuildIndexes digest ?m"
      by (auto simp: placeEntry_def Let_def split: option.splits)
    with rebuild_ok [OF ok] show ?thesis by simp
  qed
qed

lemma evaluatedEntry_meta [simp]: "entryMeta (evaluatedEntry meta result) = meta"
  by (simp add: evaluatedEntry_def Let_def split: prod.splits)

lemma upsertEntry_ok:
  "shard_ok digest m \<Longrightarrow> meta_ok digest meta \<Longrightarrow> shard_ok digest (fst (upsertEntry digest meta now m env))"
  by (auto simp: upsertEntry_def split: prod.splits intro!: placeEntry_ok)

lemma removeEntry_ok: "shard_ok digest m \<Longrightarrow> shard_ok digest (removeEntry digest i m)"
proof -
  assume ok: "shard_ok digest m"
  then have "shard_ok digest (rebuildIndexes digest (m\<lparr>entries := gdel i (entries m)\<rparr>))"
    by (intro rebuild_ok) (simp add: shard_ok_def entries_ok_del)
  with ok show ?thesis by (simp add: removeEntry_def split: option.splits)
qed
lemma promoteLoop_ok:
  "promoteLoop key now ids store changed env = ((store', changed'), env') \<Longrightarrow> entries_ok digest store \<Longrightarrow>
   entries_ok digest store' \<and> (\<not> changed' \<longrightarrow> \<not> changed \<and> store' = store)"
proof (induction key now ids store changed env rule: promoteLoop.induct)
  case (1 key now store changed env)
  then show ?case by simp
next
  case (2 key now i ids store changed env)
  show ?case
  proof (cases "glookup store i")
    case None
    then show ?thesis using 2 by simp
  next
    case (Some e)
    show ?thesis
    proof (cases "entryNextRetryAt e = zeroTime \<or> entryNextRetryAt e > now")
      case True
      then show ?thesis using 2(1,2,4,5) Some by auto
    next
      case False
      obtain res env1 where r: "isAuthBlockedForModel (Some (entryAuth e))
          (selectionModelForRoute (entryMeta e) key) now env = (res, env1)" by fastforce
      obtain state retry where s: "entryStateOf res = (state, retry)" by fastforce
      let ?e = "e\<lparr>entryState := state, entryNextRetryAt := retry\<rparr>"
      have "entries_ok digest (gput i ?e store)"
        using 2(5) Some by (intro entries_ok_put_id) (auto simp: entries_ok_def)
      moreover have "promoteLoop key now ids (gput i ?e store) True env1 = ((store', changed'), env')"
        using 2(4) Some False r s by simp
      ultimately show ?thesis using 2(3) [OF Some False] r s by auto
    qed
  qed
qed

lemma promoteExpired_ok: "shard_ok digest m \<Longrightarrow> shard_ok digest (fst (promoteExpired digest now m env))"
proof -
  assume ok: "shard_ok digest m"
  obtain store changed env' where run:
    "promoteLoop (modelKey m) now (blockedQueue m) (entries m) False env = ((store, changed), env')"
    by (metis prod.collapse)
  from promoteLoop_ok [OF run, of digest] ok
  have "entries_ok digest store" "\<not> changed \<longrightarrow> store = entries m" by (auto simp: shard_ok_def)
  then show ?thesis using ok rebuild_ok [of digest "m\<lparr>entries := store\<rparr>"]
    by (auto simp: promoteExpired_def run)
qed

section \<open>The views a bucket hands out\<close>

definition groups_ok :: "accountGroupSelection option \<Rightarrow> bool" where
  "groups_ok groups \<longleftrightarrow>
     (case groups of None \<Rightarrow> True
      | Some sel \<Rightarrow> selectionKey sel = accountGroupSelectionKey (selectionIDs sel))"

definition selected_ids ::
  "summaries \<Rightarrow> bool \<Rightarrow> accountGroupSelection option \<Rightarrow> string list \<Rightarrow> string list" where
  "selected_ids s websocketOnly groups ids =
     (let base = (if websocketOnly then ws_ids s ids else ids)
      in case groups of None \<Rightarrow> base
         | Some sel \<Rightarrow> if selectionIDs sel = [] then base else group_ids s (selectionIDs sel) base)"

lemma keys_gdel: "fst ` set (gdel k c) = fst ` set c - {k}"
proof -
  have "set (map fst (gdel k c)) = set (map fst c) - {k}" by (simp only: delete_keys set_removeAll)
  then show ?thesis by simp
qed

lemma length_gdel: "gomap_ok c \<Longrightarrow> k \<in> fst ` set c \<Longrightarrow> length (gdel k c) = length c - 1"
proof -
  assume "gomap_ok c" and k: "k \<in> fst ` set c"
  then have "removeAll k (map fst c) = remove1 k (map fst c)"
    by (simp add: gomap_ok_def distinct_remove1_removeAll)
  then have "length (map fst (gdel k c)) = length (map fst c) - 1"
    using k by (simp only: delete_keys) (simp add: length_remove1)
  then show ?thesis by simp
qed
lemma cacheView_ok:
  assumes ok: "cache_of s ids cache order" and new: "glookup cache (accountGroupSelectionKey groups) = None"
    and v: "view_of s (group_ids s groups ids) v"
    and res: "cacheView (accountGroupSelectionKey groups) v (cache, order) = (cache', order')"
  shows "cache_of s ids cache' order'" and "glookup cache' (accountGroupSelectionKey groups) = Some v"
proof -
  let ?key = "accountGroupSelectionKey groups"
  obtain c o1 where co: "c = cache \<and> o1 = order \<and> length cache < maxAccountGroupReadyViewCacheEntries \<or>
      (\<exists>k. order = k # o1 \<and> c = gdel k cache)"
    and res': "cache' = gput ?key v c" "order' = o1 @ [?key]"
  proof (cases "length cache \<ge> maxAccountGroupReadyViewCacheEntries \<and> length order > 0")
    case True
    then show thesis using that [of "gdel (hd order) cache" "tl order"] res
      by (cases order) (auto simp: cacheView_def)
  next
    case False
    have "length cache < maxAccountGroupReadyViewCacheEntries"
    proof (rule ccontr)
      assume "\<not> length cache < maxAccountGroupReadyViewCacheEntries"
      with False have "order = []" by simp
      with ok have "cache = []" by (auto simp: cache_of_def)
      with \<open>\<not> length cache < maxAccountGroupReadyViewCacheEntries\<close> show False
        by (simp add: maxAccountGroupReadyViewCacheEntries_def)
    qed
    with False show thesis using that [of cache order] res by (auto simp: cacheView_def)
  qed
  have nk: "?key \<notin> set order" using ok new glookup_in_keys by (metis cache_of_def)
  have c: "gomap_ok c" "distinct o1" "set o1 = fst ` set c" "length c < maxAccountGroupReadyViewCacheEntries"
    "?key \<notin> set o1" "\<forall>k x. glookup c k = Some x \<longrightarrow> glookup cache k = Some x"
  proof -
    consider "c = cache" "o1 = order" "length cache < maxAccountGroupReadyViewCacheEntries"
      | k where "order = k # o1" "c = gdel k cache" using co by blast
    then have "gomap_ok c \<and> distinct o1 \<and> set o1 = fst ` set c \<and> length c < maxAccountGroupReadyViewCacheEntries \<and>
      ?key \<notin> set o1 \<and> (\<forall>k x. glookup c k = Some x \<longrightarrow> glookup cache k = Some x)"
    proof cases
      case 1
      then show ?thesis using ok nk by (simp add: cache_of_def)
    next
      case (2 k)
      have k: "k \<in> fst ` set cache" "gomap_ok cache" "length cache \<le> maxAccountGroupReadyViewCacheEntries"
        using ok 2 by (auto simp: cache_of_def)
      have "fst ` set c = fst ` set cache - {k}" by (simp only: 2 keys_gdel)
      moreover have "set order = fst ` set cache" "distinct order" using ok by (auto simp: cache_of_def)
      ultimately have "set o1 = fst ` set c" "distinct o1" using 2 by auto
      moreover have "length c < maxAccountGroupReadyViewCacheEntries"
      proof -
        from k(1) have "length cache > 0" by (cases cache) auto
        moreover have "length c = length cache - 1" using length_gdel [OF k(2,1)] by (simp only: 2)
        ultimately show ?thesis using k(3) by linarith
      qed
      ultimately show ?thesis using k nk 2 by (auto simp: glookup_del split: if_splits)
    qed
    then show "gomap_ok c" "distinct o1" "set o1 = fst ` set c" "length c < maxAccountGroupReadyViewCacheEntries"
      "?key \<notin> set o1" "\<forall>k x. glookup c k = Some x \<longrightarrow> glookup cache k = Some x" by blast+
  qed
  have none: "glookup c ?key = None" using c(3,5) glookup_in_keys by metis
  show "glookup cache' ?key = Some v" by (simp add: res' glookup_put)
  have views: "view_of s (group_ids s gs ids) x"
    if "gs \<noteq> []" "glookup cache' (accountGroupSelectionKey gs) = Some x" for gs x
  proof (cases "gs = groups")
    case True
    then show ?thesis using that v by (simp add: res' glookup_put)
  next
    case False
    then have "glookup cache (accountGroupSelectionKey gs) = Some x"
      using that(2) c(6) by (simp add: res' glookup_put accountGroupSelectionKey_inj)
    then show ?thesis using ok that(1) by (auto simp: cache_of_def)
  qed
  have "fst ` set cache' = insert ?key (fst ` set c)"
    using update_keys [of ?key v c] by (auto simp: res' dom_update)
  then show "cache_of s ids cache' order'"
    using c none views by (auto simp: cache_of_def res' length_put)
qed

lemma trim_selectionKey: "trim_space (accountGroupSelectionKey ids) = accountGroupSelectionKey ids"
proof (rule trim_space_id)
  have comma: "\<not> is_space (CHR '','')" by (simp add: is_space_def code_of_def)
  show "c \<in> set (accountGroupSelectionKey ids) \<Longrightarrow> \<not> is_space c" for c
    using comma by (induction ids rule: accountGroupSelectionKey.induct) (auto dest: format_int_no_space)
qed

lemma group_ids_entries:
  assumes "set ids \<subseteq> dom (glookup store)"
  shows "filter (entryInGroups store groups) ids = group_ids (summaries digest store) groups ids"
  unfolding group_ids_def
  by (rule filter_cong) (auto simp: entryInGroups_def summaries_def matchesAnyGroup_def split: option.splits)

lemma bucketView_ok:
  assumes ok: "entries_ok digest store" and s: "s = summaries digest store"
    and ids: "distinct ids" "\<forall>i \<in> set ids. glookup store i \<noteq> None"
    and b: "bucket_of_ids s ids b" and groups: "groups_ok groups"
    and res: "bucketView store ws groups b = (ref, b')"
  shows "bucket_of_ids s ids b'" and "view_of s (selected_ids s ws groups ids) (viewAt ref b')"
proof -
  let ?base = "if ws then ws_ids s ids else ids"
  have base: "view_of s ?base (baseView ws b)" "cache_of s ?base (groupCache ws b) (groupOrder ws b)"
    using b by (auto simp: bucket_of_ids_def)
  have both: "bucket_of_ids s ids b' \<and> view_of s (selected_ids s ws groups ids) (viewAt ref b')"
  proof (cases "groups = None \<or> (\<exists>sel. groups = Some sel \<and> selectionIDs sel = [])")
    case True
    then have "ref = BaseView ws" "b' = b" using res by (auto simp: bucketView_def)
    then show ?thesis using True b base by (auto simp: selected_ids_def)
  next
    case False
    then obtain sel where sel: "groups = Some sel" "selectionIDs sel \<noteq> []" by auto
    let ?key = "accountGroupSelectionKey (selectionIDs sel)"
    have key: "(let key = trim_space (selectionKey sel) in if key = '''' then ?key else key) = ?key"
      using groups sel by (simp add: groups_ok_def trim_selectionKey Let_def)
    have want: "selected_ids s ws groups ids = group_ids s (selectionIDs sel) ?base"
      using sel by (simp add: selected_ids_def)
    show ?thesis
    proof (cases "glookup (groupCache ws b) ?key")
      case (Some v)
      then have "ref = GroupView ws ?key" "b' = b" using res sel key by (auto simp: bucketView_def Let_def)
      then show ?thesis using Some base(2) sel(2) b by (auto simp: want cache_of_def)
    next
      case None
      let ?ids = "filter (entryInGroups store (selectionIDs sel)) (flat (baseView ws b))"
      obtain cache order where co:
        "cacheView ?key (buildReadyView store ?ids) (groupCache ws b, groupOrder ws b) = (cache, order)"
        by fastforce
      have flat: "flat (baseView ws b) = ?base" using base(1) by (simp add: view_of_def)
      have sub: "set ?base \<subseteq> dom (glookup store)" using ids(2) by (auto simp: ws_ids_def)
      have fids: "?ids = group_ids s (selectionIDs sel) ?base"
        using group_ids_entries [OF sub, of "selectionIDs sel" digest] by (simp only: flat s)
      have "view_of s ?ids (buildReadyView store ?ids)"
        unfolding s
        by (rule buildReadyView_of [OF ok]) (use ids sub flat in \<open>auto simp: ws_ids_def\<close>)
      then have v: "view_of s (group_ids s (selectionIDs sel) ?base) (buildReadyView store ?ids)"
        by (simp only: fids)
      note new = cacheView_ok [OF base(2) None v co]
      have "ref = GroupView ws ?key"
        "b' = (if ws then b\<lparr>websocketGroups := cache, websocketOrder := order\<rparr>
               else b\<lparr>groupViews := cache, groupViewOrder := order\<rparr>)"
        using res sel key None co by (auto simp: bucketView_def Let_def split: prod.splits)
      then show ?thesis using new v b unfolding want by (cases ws) (auto simp: bucket_of_ids_def)
    qed
  qed
  then show "bucket_of_ids s ids b'" and "view_of s (selected_ids s ws groups ids) (viewAt ref b')" by blast+
qed

section \<open>What a pick sees\<close>

definition buckets_of :: "summaries \<Rightarrow> ready_buckets \<Rightarrow> bool" where
  "buckets_of s bs \<longleftrightarrow>
     (\<forall>p b. glookup bs p = Some b \<longrightarrow>
        (\<exists>ids. sorted_wrt (<) ids \<and> set ids = ready_set s p \<and> bucket_of_ids s ids b))"

definition pick_set :: "summaries \<Rightarrow> bool \<Rightarrow> accountGroupSelection option \<Rightarrow> int \<Rightarrow> string set" where
  "pick_set s websocketOnly groups p =
     {i \<in> ready_set s p. \<exists>x. s i = Some x \<and> (websocketOnly \<longrightarrow> sumWebsocket x) \<and>
        (case groups of None \<Rightarrow> True
         | Some sel \<Rightarrow> selectionIDs sel = [] \<or> (sumGroups x \<noteq> [] \<and> matchSorted (sumGroups x) (selectionIDs sel)))}"

definition satisfied :: "entry_store \<Rightarrow> (scheduledAuth \<Rightarrow> bool) \<Rightarrow> string set \<Rightarrow> bool" where
  "satisfied store predicate A \<longleftrightarrow> (\<exists>i \<in> A. \<exists>e. glookup store i = Some e \<and> predicate e)"

lemma ready_set_known: "i \<in> ready_set (summaries digest store) p \<Longrightarrow> glookup store i \<noteq> None"
  by (auto simp: ready_set_def summaries_def)

lemma selected_ids_set: "set ids = ready_set s p \<Longrightarrow> set (selected_ids s ws groups ids) = pick_set s ws groups p"
  by (auto simp: selected_ids_def pick_set_def ws_ids_def group_ids_def ready_set_def split: option.splits)

lemma pickFirst_satisfied:
  "view_of s ids v \<Longrightarrow> pickFirst store predicate v \<noteq> None \<longleftrightarrow> satisfied store predicate (set ids)"
  unfolding pickFirst_def satisfied_def view_of_def
  using find_None_iff [of predicate "entriesOf store (flat v)"] set_entriesOf [of store "flat v"] by auto

lemma buckets_put:
  assumes "buckets_of s bs" "sorted_wrt (<) ids" "set ids = ready_set s p" "bucket_of_ids s ids b"
  shows "buckets_of s (gput p b bs)"
  using assms by (auto simp: buckets_of_def glookup_put split: if_splits)

lemma index_of_buckets:
  assumes "index_of s m" "buckets_of s bs" "fst ` set bs = fst ` set (readyByPriority m)"
  shows "index_of s (m\<lparr>readyByPriority := bs\<rparr>)"
  using assms by (simp add: index_of_def buckets_of_def)

lemma index_of_keeps: "index_of s m \<Longrightarrow> buckets_of s (readyByPriority m)"
  by (simp add: index_of_def buckets_of_def)

lemma keys_put_same: "glookup bs p = Some b \<Longrightarrow> fst ` set (gput p b' bs) = fst ` set bs"
  by (auto simp: dom_update dest: map_of_SomeD intro: image_eqI [rotated])

text \<open>The view of a bucket at one priority, with what it holds.\<close>

lemma bucketView_at:
  assumes ok: "entries_ok digest store" and s: "s = summaries digest store"
    and bs: "buckets_of s bs" "glookup bs p = Some b" and groups: "groups_ok groups"
    and res: "bucketView store ws groups b = (ref, b')"
  obtains ids where "sorted_wrt (<) ids" "set ids = ready_set s p" "bucket_of_ids s ids b'"
    "view_of s (selected_ids s ws groups ids) (viewAt ref b')"
proof -
  from bs obtain ids where ids: "sorted_wrt (<) ids" "set ids = ready_set s p" "bucket_of_ids s ids b"
    unfolding buckets_of_def by blast
  have "distinct ids" using ids(1) by (simp add: strict_sorted_iff)
  moreover have "\<forall>i \<in> set ids. glookup store i \<noteq> None" using ids(2) ready_set_known unfolding s by blast
  ultimately show thesis
    using bucketView_ok [OF ok s _ _ ids(3) groups res] ids(1,2) that by blast
qed

lemma highestReadyLoop_ok:
  assumes "entries_ok digest store" "s = summaries digest store" "groups_ok groups"
    and "buckets_of s bs" "highestReadyLoop store ws predicate groups ps bs = (found, bs')"
    and "set ps \<subseteq> fst ` set bs"
  shows "buckets_of s bs' \<and> fst ` set bs' = fst ` set bs \<and>
    (case found of
       None \<Rightarrow> \<forall>p \<in> set ps. \<not> satisfied store predicate (pick_set s ws groups p)
     | Some p \<Rightarrow> satisfied store predicate (pick_set s ws groups p) \<and>
         (\<exists>qs rs. ps = qs @ p # rs \<and> (\<forall>q \<in> set qs. \<not> satisfied store predicate (pick_set s ws groups q))))"
  using assms(4-6)
proof (induction ps arbitrary: bs)
  case Nil
  then show ?case by auto
next
  case (Cons p ps)
  obtain b where b: "glookup bs p = Some b" using Cons.prems(3) glookup_in_keys [of bs p] by auto
  obtain ref b1 where bv: "bucketView store ws groups b = (ref, b1)" by fastforce
  obtain ids where ids: "sorted_wrt (<) ids" "set ids = ready_set s p" "bucket_of_ids s ids b1"
    "view_of s (selected_ids s ws groups ids) (viewAt ref b1)"
    by (rule bucketView_at [OF assms(1,2) Cons.prems(1) b assms(3) bv])
  have sat: "pickFirst store predicate (viewAt ref b1) \<noteq> None \<longleftrightarrow> satisfied store predicate (pick_set s ws groups p)"
    using pickFirst_satisfied [OF ids(4)] selected_ids_set [OF ids(2)] by simp
  let ?bs = "gput p b1 bs"
  have bs: "buckets_of s ?bs" "fst ` set ?bs = fst ` set bs"
    using buckets_put [OF Cons.prems(1) ids(1-3)] keys_put_same [OF b] by simp_all
  show ?case
  proof (cases "pickFirst store predicate (viewAt ref b1) = None")
    case False
    then have "found = Some p" "bs' = ?bs" using Cons.prems(2) b bv by auto
    moreover have "\<exists>qs rs. p # ps = qs @ p # rs \<and> (\<forall>q \<in> set qs. \<not> satisfied store predicate (pick_set s ws groups q))"
      by (rule exI [of _ "[]"]) simp
    ultimately show ?thesis using sat False bs by simp
  next
    case True
    then have run: "highestReadyLoop store ws predicate groups ps ?bs = (found, bs')"
      using Cons.prems(2) b bv by simp
    have "set ps \<subseteq> fst ` set ?bs" using Cons.prems(3) bs(2) by simp
    note IH = Cons.IH [OF bs(1) run this]
    show ?thesis
    proof (cases found)
      case None
      then show ?thesis using IH sat True bs(2) by simp
    next
      case (Some q)
      then obtain qs rs where "ps = qs @ q # rs" "\<forall>q \<in> set qs. \<not> satisfied store predicate (pick_set s ws groups q)"
        using IH by auto
      then have "p # ps = (p # qs) @ q # rs"
        "\<forall>q \<in> set (p # qs). \<not> satisfied store predicate (pick_set s ws groups q)"
        using sat True by auto
      then have "\<exists>qs rs. p # ps = qs @ q # rs \<and> (\<forall>q \<in> set qs. \<not> satisfied store predicate (pick_set s ws groups q))"
        by blast
      then show ?thesis using IH Some bs(2) by simp
    qed
  qed
qed

text \<open>The best priority with an entry that satisfies the predicate.\<close>

definition best_ready ::
  "summaries \<Rightarrow> entry_store \<Rightarrow> (scheduledAuth \<Rightarrow> bool) \<Rightarrow> bool \<Rightarrow> accountGroupSelection option \<Rightarrow> int \<Rightarrow> bool" where
  "best_ready s store predicate ws groups p \<longleftrightarrow>
     satisfied store predicate (pick_set s ws groups p) \<and>
     (\<forall>q. satisfied store predicate (pick_set s ws groups q) \<longrightarrow> q \<le> p)"

lemma highestReadyLoop_best:
  assumes ok: "shard_ok digest m" and groups: "groups_ok groups" and s: "s = summaries digest (entries m)"
    and bs: "buckets_of s bs" "fst ` set bs = fst ` set (readyByPriority m)"
    and run: "highestReadyLoop (entries m) ws predicate groups (priorityOrder m) bs = (found, bs')"
  shows "buckets_of s bs'" "fst ` set bs' = fst ` set (readyByPriority m)"
    "case found of
       None \<Rightarrow> \<forall>p. \<not> satisfied (entries m) predicate (pick_set s ws groups p)
     | Some p \<Rightarrow> best_ready s (entries m) predicate ws groups p"
proof -
  let ?sat = "\<lambda>p. satisfied (entries m) predicate (pick_set s ws groups p)"
  have idx: "index_of s m" and eok: "entries_ok digest (entries m)" using ok s by (simp_all add: shard_ok_def)
  have "set (priorityOrder m) \<subseteq> fst ` set bs" using idx bs(2) by (simp add: index_of_def)
  note loop = highestReadyLoop_ok [OF eok s groups bs(1) run this]
  show "buckets_of s bs'" "fst ` set bs' = fst ` set (readyByPriority m)" using loop bs(2) by simp_all
  have dom: "p \<in> set (priorityOrder m)" if "?sat p" for p
    using that idx by (auto simp: satisfied_def pick_set_def index_of_def)
  show "case found of None \<Rightarrow> \<forall>p. \<not> ?sat p | Some p \<Rightarrow> best_ready s (entries m) predicate ws groups p"
  proof (cases found)
    case None
    then show ?thesis using loop dom by auto
  next
    case (Some p)
    then obtain qs rs where split: "priorityOrder m = qs @ p # rs" "\<forall>q \<in> set qs. \<not> ?sat q" and p: "?sat p"
      using loop by auto
    have "q \<le> p" if "?sat q" for q
    proof -
      have "q \<in> set (p # rs)" using dom [OF that] that split by auto
      moreover have "sorted_wrt (>) (p # rs)" using idx split(1) by (simp add: index_of_def sorted_wrt_append)
      ultimately show ?thesis by auto
    qed
    then show ?thesis using Some p by (simp add: best_ready_def)
  qed
qed

lemma highestReadyPriority_ok:
  assumes ok: "shard_ok digest m" and groups: "groups_ok groups" and s: "s = summaries digest (entries m)"
    and run: "highestReadyPriority pref predicate groups m = (found, m')"
  shows "shard_ok digest m'" "entries m' = entries m" "modelKey m' = modelKey m"
    "case found of
       None \<Rightarrow> \<forall>p. \<not> satisfied (entries m) predicate (pick_set s False groups p)
     | Some p \<Rightarrow>
         if pref \<and> (\<exists>q. satisfied (entries m) predicate (pick_set s True groups q))
         then best_ready s (entries m) predicate True groups p
         else best_ready s (entries m) predicate False groups p"
proof -
  have idx: "index_of s m" and eok: "entries_ok digest (entries m)" using ok s by (simp_all add: shard_ok_def)
  obtain f1 bs1 where one: "(if pref then highestReadyLoop (entries m) True predicate groups (priorityOrder m) (readyByPriority m)
      else (None, readyByPriority m)) = (f1, bs1)" by fastforce
  have bs1: "buckets_of s bs1" "fst ` set bs1 = fst ` set (readyByPriority m)"
    and f1: "case f1 of None \<Rightarrow> pref \<longrightarrow> (\<forall>p. \<not> satisfied (entries m) predicate (pick_set s True groups p))
        | Some p \<Rightarrow> pref \<and> best_ready s (entries m) predicate True groups p"
    using one highestReadyLoop_best [OF ok groups s index_of_keeps [OF idx] refl, of True predicate f1 bs1]
      index_of_keeps [OF idx] by (auto split: if_splits option.splits)
  have mono: "satisfied (entries m) predicate (pick_set s False groups p)"
    if "satisfied (entries m) predicate (pick_set s True groups p)" for p
    using that by (fastforce simp: satisfied_def pick_set_def)
  show "entries m' = entries m" "modelKey m' = modelKey m"
    using run one by (auto simp: highestReadyPriority_def Let_def split: option.splits prod.splits)
  have both: "shard_ok digest m' \<and> (case found of
       None \<Rightarrow> \<forall>p. \<not> satisfied (entries m) predicate (pick_set s False groups p)
     | Some p \<Rightarrow>
         if pref \<and> (\<exists>q. satisfied (entries m) predicate (pick_set s True groups q))
         then best_ready s (entries m) predicate True groups p
         else best_ready s (entries m) predicate False groups p)"
  proof (cases f1)
    case (Some p)
    then have "found = Some p" "m' = m\<lparr>readyByPriority := bs1\<rparr>"
      using run one by (auto simp: highestReadyPriority_def)
    then show ?thesis using Some f1 eok s index_of_buckets [OF idx bs1]
      by (auto simp: shard_ok_def best_ready_def)
  next
    case None
    obtain bs2 where two: "highestReadyLoop (entries m) False predicate groups (priorityOrder m) bs1 = (found, bs2)"
      and m': "m' = m\<lparr>readyByPriority := bs2\<rparr>"
      using run one None by (auto simp: highestReadyPriority_def split: prod.splits)
    note best = highestReadyLoop_best [OF ok groups s bs1 two]
    show ?thesis using None f1 best(3) eok s index_of_buckets [OF idx best(1,2)]
      by (auto simp: shard_ok_def m' split: option.splits)
  qed
  then show "shard_ok digest m'" and "case found of
       None \<Rightarrow> \<forall>p. \<not> satisfied (entries m) predicate (pick_set s False groups p)
     | Some p \<Rightarrow>
         if pref \<and> (\<exists>q. satisfied (entries m) predicate (pick_set s True groups q))
         then best_ready s (entries m) predicate True groups p
         else best_ready s (entries m) predicate False groups p" by blast+
qed

section \<open>A pick at one priority\<close>

lemma chooseView_ok:
  assumes ok: "entries_ok digest store" and s: "s = summaries digest store" and groups: "groups_ok groups"
    and bs: "buckets_of s bs" "glookup bs p = Some b0"
    and res: "chooseView store pref predicate groups b0 = (ref, b)"
  obtains ids ws where "sorted_wrt (<) ids" "set ids = ready_set s p" "bucket_of_ids s ids b"
    "view_of s (selected_ids s ws groups ids) (viewAt ref b)"
    "ws \<longleftrightarrow> pref \<and> satisfied store predicate (pick_set s True groups p)"
proof -
  obtain r1 b1 where one: "bucketView store False groups b0 = (r1, b1)" by fastforce
  obtain ids where ids: "sorted_wrt (<) ids" "set ids = ready_set s p" "bucket_of_ids s ids b1"
    "view_of s (selected_ids s False groups ids) (viewAt r1 b1)"
    by (rule bucketView_at [OF ok s bs groups one])
  show thesis
  proof (cases pref)
    case False
    then have "ref = r1" "b = b1" using res one by (auto simp: chooseView_def)
    then show thesis using that [of ids False] ids False by simp
  next
    case True
    obtain r2 b2 where two: "bucketView store True groups b1 = (r2, b2)" by fastforce
    have d: "distinct ids" "\<forall>i \<in> set ids. glookup store i \<noteq> None"
      using ids(1,2) ready_set_known s by (auto simp: strict_sorted_iff)
    note ws = bucketView_ok [OF ok s d ids(3) groups two]
    have again: "view_of s (selected_ids s False groups ids) (viewAt r1 b2)"
    proof -
      have "viewAt r1 b2 = viewAt r1 b1"
      proof -
        have "\<exists>key. r1 = BaseView False \<or> r1 = GroupView False key"
          using one by (auto simp: bucketView_def Let_def split: option.splits if_splits prod.splits)
        moreover have "bucketAll b2 = bucketAll b1" "groupViews b2 = groupViews b1"
          using two by (auto simp: bucketView_def Let_def split: option.splits if_splits prod.splits)
        ultimately show ?thesis by auto
      qed
      then show ?thesis using ids(4) by simp
    qed
    have sat: "pickFirst store predicate (viewAt r2 b2) \<noteq> None \<longleftrightarrow> satisfied store predicate (pick_set s True groups p)"
      using pickFirst_satisfied [OF ws(2)] selected_ids_set [OF ids(2)] by simp
    show thesis
    proof (cases "pickFirst store predicate (viewAt r2 b2) = None")
      case none: True
      then have "ref = r1" "b = b2" using res one two True by (auto simp: chooseView_def)
      then show thesis using that [of ids False] ids ws(1) again sat none by simp
    next
      case some: False
      then have "ref = r2" "b = b2" using res one two True by (auto simp: chooseView_def)
      then show thesis using that [of ids True] ids ws sat some True by simp
    qed
  qed
qed

lemma expiry_flat_unique:
  assumes "view_of s ids v" "view_of s ids w"
  shows "expiryFlat v = expiryFlat w"
proof -
  let ?k = "expiry_key s"
  have snds: "map snd (map ?k xs) = xs" for xs
    by (induction xs) (simp_all add: expiry_key_def split: option.splits)
  have "sorted_wrt (<) (map ?k (expiryFlat v))" "sorted_wrt (<) (map ?k (expiryFlat w))"
    "set (map ?k (expiryFlat w)) = set (map ?k (expiryFlat v))"
    using assms by (simp_all add: view_of_def sorted_wrt_map)
  then have "map ?k (expiryFlat v) = map ?k (expiryFlat w)" by (metis strict_sorted_equal)
  then show ?thesis by (metis snds)
qed

lemma view_of_ok:
  assumes "entries_ok digest store" "view_of (summaries digest store) ids v"
    and "distinct ids" "\<forall>i \<in> set ids. glookup store i \<noteq> None"
  shows "view_ok store v"
  using expiry_flat_unique [OF assms(2) buildReadyView_of [OF assms(1,3,4)]] assms(2)
  by (simp add: view_ok_def view_of_def)

lemma storeView_ok:
  assumes "bucket_of_ids s ids b" "flat v = flat (viewAt ref b)" "expiryFlat v = expiryFlat (viewAt ref b)"
    and "\<And>ws k. ref = GroupView ws k \<Longrightarrow> glookup (groupCache ws b) k \<noteq> None"
  shows "bucket_of_ids s ids (storeView ref v b)"
proof (cases ref)
  case (BaseView ws)
  then show ?thesis using assms by (auto simp: bucket_of_ids_def view_of_def)
next
  case (GroupView ws k)
  then obtain old where old: "glookup (groupCache ws b) k = Some old" using assms(4) by auto
  have keep: "cache_of s js (gput k v c) order"
    if c: "cache_of s js c order" "glookup c k = Some old" for js c order
  proof -
    have "gomap_ok (gput k v c)" "length (gput k v c) = length c" "fst ` set (gput k v c) = fst ` set c"
      using c length_put [of c k v] keys_put_same [OF c(2)] by (simp_all add: cache_of_def)
    moreover have "view_of s (group_ids s gs js) x"
      if "gs \<noteq> []" "glookup (gput k v c) (accountGroupSelectionKey gs) = Some x" for gs x
    proof (cases "k = accountGroupSelectionKey gs")
      case True
      then have "view_of s (group_ids s gs js) old" using c that(1) by (auto simp: cache_of_def)
      moreover have "x = v" using True that(2) by (simp add: glookup_put)
      ultimately show ?thesis using assms(2,3) GroupView old by (simp add: view_of_def)
    next
      case False
      then show ?thesis using c that by (auto simp: cache_of_def glookup_put)
    qed
    ultimately show ?thesis using c by (auto simp: cache_of_def)
  qed
  show ?thesis using assms(1) GroupView old keep
    by (cases ws) (auto simp: bucket_of_ids_def)
qed

lemma bucketView_known:
  "bucketView store ws groups b = (ref, b') \<Longrightarrow> ref = GroupView w k \<Longrightarrow> w = ws \<and> glookup (groupCache ws b') k \<noteq> None"
  by (auto simp: bucketView_def cacheView_def Let_def glookup_put split: option.splits if_splits prod.splits)

lemma bucketView_other:
  "bucketView store ws groups b = (ref, b') \<Longrightarrow> groupCache (\<not> ws) b' = groupCache (\<not> ws) b"
  by (auto simp: bucketView_def Let_def split: option.splits if_splits prod.splits)

lemma chooseView_known:
  assumes "chooseView store pref predicate groups b0 = (ref, b)" "ref = GroupView w k"
  shows "glookup (groupCache w b) k \<noteq> None"
proof -
  obtain r1 b1 where one: "bucketView store False groups b0 = (r1, b1)" by fastforce
  obtain r2 b2 where two: "bucketView store True groups b1 = (r2, b2)" by fastforce
  consider "ref = r1" "b = b1" | "ref = r1" "b = b2" | "ref = r2" "b = b2"
    using assms one two by (auto simp: chooseView_def split: if_splits)
  then show ?thesis
    using bucketView_known [OF one, of w k] bucketView_known [OF two, of w k] bucketView_other [OF two] assms(2)
    by cases auto
qed

definition pick_result ::
  "entry_store \<Rightarrow> (scheduledAuth \<Rightarrow> bool) \<Rightarrow> schedulerStrategy \<Rightarrow> string set \<Rightarrow> Auth option \<Rightarrow> bool" where
  "pick_result store predicate strategy A picked \<longleftrightarrow>
     (case picked of
        None \<Rightarrow> \<forall>i \<in> A. \<forall>e. glookup store i = Some e \<longrightarrow> predicate e \<longrightarrow> \<not> strategy_admits strategy e
      | Some a \<Rightarrow> \<exists>i \<in> A. \<exists>e. glookup store i = Some e \<and> a = entryAuth e \<and> predicate e \<and>
                    strategy_admits strategy e)"

lemma pickReadyAtPriority_ok:
  assumes ok: "shard_ok digest m" and groups: "groups_ok groups" and s: "s = summaries digest (entries m)"
    and p: "p \<in> fst ` set (readyByPriority m)"
    and run: "pickReadyAtPriority pref p strategy predicate groups now later m env = ((picked, m'), env')"
  shows "shard_ok digest m'" "entries m' = entries m"
    "pick_result (entries m) predicate strategy
       (pick_set s (pref \<and> satisfied (entries m) predicate (pick_set s True groups p)) groups p) picked"
proof -
  have idx: "index_of s m" and eok: "entries_ok digest (entries m)" using ok s by (simp_all add: shard_ok_def)
  obtain b0 where b0: "glookup (readyByPriority m) p = Some b0" using p glookup_in_keys [of "readyByPriority m" p] by auto
  obtain ref b where cv: "chooseView (entries m) pref predicate groups b0 = (ref, b)" by fastforce
  obtain ids ws where ids: "sorted_wrt (<) ids" "set ids = ready_set s p" "bucket_of_ids s ids b"
    "view_of s (selected_ids s ws groups ids) (viewAt ref b)"
    and ws: "ws \<longleftrightarrow> pref \<and> satisfied (entries m) predicate (pick_set s True groups p)"
    by (rule chooseView_ok [OF eok s groups index_of_keeps [OF idx] b0 cv])
  obtain e v where pv: "pickView (entries m) predicate strategy now later (viewAt ref b) env = ((e, v), env')"
    and res: "picked = map_option entryAuth e"
      "m' = m\<lparr>readyByPriority := gput p (storeView ref v b) (readyByPriority m)\<rparr>"
    using run b0 cv by (auto simp: pickReadyAtPriority_def split: prod.splits)
  have set: "set (selected_ids s ws groups ids) = pick_set s ws groups p" by (rule selected_ids_set [OF ids(2)])
  have known: "\<forall>i \<in> set (selected_ids s ws groups ids). glookup (entries m) i \<noteq> None"
    unfolding set using ready_set_known s by (fastforce simp: pick_set_def)
  have dist: "distinct (selected_ids s ws groups ids)"
    using ids(1) by (auto simp: strict_sorted_iff selected_ids_def ws_ids_def group_ids_def split: option.splits)
  have vok: "view_ok (entries m) (viewAt ref b)"
    using view_of_ok [OF eok _ dist known] ids(4) s by simp
  have ents: "set (view_entries (entries m) (viewAt ref b)) = {e. \<exists>i \<in> pick_set s ws groups p. glookup (entries m) i = Some e}"
    using ids(4) by (simp add: set_entriesOf view_of_def set)
  have frame: "flat v = flat (viewAt ref b)" "expiryFlat v = expiryFlat (viewAt ref b)"
    using pickView_frame [of "entries m" predicate strategy now later "viewAt ref b" env] pv by simp_all
  have "bucket_of_ids s ids (storeView ref v b)"
    by (rule storeView_ok [OF ids(3) frame]) (use chooseView_known [OF cv] in blast)
  then have "buckets_of s (gput p (storeView ref v b) (readyByPriority m))"
    using buckets_put index_of_keeps [OF idx] ids(1,2) by blast
  then show "shard_ok digest m'" "entries m' = entries m"
    using eok s index_of_buckets [OF idx] keys_put_same [OF b0] by (simp_all add: shard_ok_def res)
  show "pick_result (entries m) predicate strategy
       (pick_set s (pref \<and> satisfied (entries m) predicate (pick_set s True groups p)) groups p) picked"
  proof (cases e)
    case None
    have "\<not> strategy_admits strategy x"
      if "i \<in> pick_set s ws groups p" "glookup (entries m) i = Some x" "predicate x" for i x
      by (rule pickView_complete [where store = "entries m" and v = "viewAt ref b" and env = env
            and predicate = predicate and now = now and later = later])
        (use pv None ents that in auto)
    then show ?thesis using None by (auto simp: pick_result_def res ws)
  next
    case (Some x)
    have "fst (fst (pickView (entries m) predicate strategy now later (viewAt ref b) env)) = Some x"
      using pv Some by simp
    from pickView_sound [OF entries_ok_store [OF eok] vok this]
    show ?thesis using ents Some by (auto simp: pick_result_def res ws)
  qed
qed

section \<open>Sequences of operations\<close>

text \<open>The operations the scheduler performs on a shard, as one step each.\<close>

inductive shard_step :: "(string \<Rightarrow> string) \<Rightarrow> modelScheduler \<Rightarrow> modelScheduler \<Rightarrow> bool" for digest where
  upsert: "meta_ok digest meta \<Longrightarrow> shard_step digest m (fst (upsertEntry digest meta now m env))"
| remove: "shard_step digest m (removeEntry digest i m)"
| promote: "shard_step digest m (fst (promoteExpired digest now m env))"
| highest: "groups_ok groups \<Longrightarrow> shard_step digest m (snd (highestReadyPriority pref predicate groups m))"
| count: "groups_ok groups \<Longrightarrow> shard_step digest m (snd (readyCountAtPriority pref p predicate groups m))"
| pick_at: "groups_ok groups \<Longrightarrow>
    shard_step digest m (snd (fst (pickReadyAtPriority pref p strategy predicate groups now later m env)))"
| pick: "groups_ok groups \<Longrightarrow>
    shard_step digest m (snd (fst (pickReady digest pref strategy predicate groups now0 now later m env)))"

inductive_cases shard_stepE: "shard_step digest m m'"

lemma readyCountAtPriority_ok:
  assumes ok: "shard_ok digest m" and groups: "groups_ok groups" and s: "s = summaries digest (entries m)"
    and run: "readyCountAtPriority pref p predicate groups m = (n, m')"
  shows "shard_ok digest m'" "entries m' = entries m"
    "n = card {i \<in> pick_set s (pref \<and> satisfied (entries m) predicate (pick_set s True groups p)) groups p.
           \<exists>e. glookup (entries m) i = Some e \<and> predicate e}"
proof -
  have idx: "index_of s m" and eok: "entries_ok digest (entries m)" using ok s by (simp_all add: shard_ok_def)
  let ?A = "pick_set s (pref \<and> satisfied (entries m) predicate (pick_set s True groups p)) groups p"
  have all: "shard_ok digest m' \<and> entries m' = entries m \<and>
      n = card {i \<in> ?A. \<exists>e. glookup (entries m) i = Some e \<and> predicate e}"
  proof (cases "glookup (readyByPriority m) p")
    case None
    then have "p \<notin> set (priorityOrder m)"
      using idx glookup_in_keys [of "readyByPriority m" p] by (simp add: index_of_def)
    then have "?A = {}" using idx by (auto simp: index_of_def pick_set_def)
    then show ?thesis using run ok None by (simp add: readyCountAtPriority_def)
  next
    case (Some b0)
    obtain ref b where cv: "chooseView (entries m) pref predicate groups b0 = (ref, b)" by fastforce
    obtain ids ws where ids: "sorted_wrt (<) ids" "set ids = ready_set s p" "bucket_of_ids s ids b"
      "view_of s (selected_ids s ws groups ids) (viewAt ref b)"
      and ws: "ws \<longleftrightarrow> pref \<and> satisfied (entries m) predicate (pick_set s True groups p)"
      by (rule chooseView_ok [OF eok s groups index_of_keeps [OF idx] Some cv])
    have set: "set (selected_ids s ws groups ids) = ?A" by (simp only: selected_ids_set [OF ids(2)] ws)
    have dist: "distinct (selected_ids s ws groups ids)"
      using ids(1) by (auto simp: strict_sorted_iff selected_ids_def ws_ids_def group_ids_def split: option.splits)
    have m': "m' = m\<lparr>readyByPriority := gput p b (readyByPriority m)\<rparr>"
      and n: "n = length (filter predicate (entriesOf (entries m) (selected_ids s ws groups ids)))"
      using run Some cv ids(4) by (auto simp: readyCountAtPriority_def view_of_def)
    have "buckets_of s (gput p b (readyByPriority m))"
      using buckets_put index_of_keeps [OF idx] ids(1-3) by blast
    then have "shard_ok digest m'"
      using eok s index_of_buckets [OF idx] keys_put_same [OF Some] by (simp add: shard_ok_def m')
    moreover have "length (filter predicate (entriesOf (entries m) xs)) =
        card {i \<in> set xs. \<exists>e. glookup (entries m) i = Some e \<and> predicate e}" if "distinct xs" for xs
      using that
    proof (induction xs)
      case (Cons x xs)
      have "{i \<in> set (x # xs). \<exists>e. glookup (entries m) i = Some e \<and> predicate e} =
          (if \<exists>e. glookup (entries m) x = Some e \<and> predicate e
           then insert x {i \<in> set xs. \<exists>e. glookup (entries m) i = Some e \<and> predicate e}
           else {i \<in> set xs. \<exists>e. glookup (entries m) i = Some e \<and> predicate e})" by auto
      with Cons show ?case
        by (auto simp: entriesOf_def map_filter_simps split: option.splits)
    qed simp
    ultimately show ?thesis using n dist set m' by simp
  qed
  then show "shard_ok digest m'" "entries m' = entries m"
    "n = card {i \<in> ?A. \<exists>e. glookup (entries m) i = Some e \<and> predicate e}" by blast+
qed

lemma pickReadyAtPriority_keeps:
  assumes "shard_ok digest m" "groups_ok groups"
  shows "shard_ok digest (snd (fst (pickReadyAtPriority pref p strategy predicate groups now later m env)))"
proof (cases "glookup (readyByPriority m) p")
  case None
  then show ?thesis using assms by (simp add: pickReadyAtPriority_def)
next
  case (Some b)
  then have "p \<in> fst ` set (readyByPriority m)" using glookup_in_keys [of "readyByPriority m" p] by simp
  moreover obtain picked m' env' where
    "pickReadyAtPriority pref p strategy predicate groups now later m env = ((picked, m'), env')"
    by (metis prod.collapse)
  ultimately show ?thesis using pickReadyAtPriority_ok(1) [OF assms refl] by simp
qed

lemma shard_ok_step: "shard_step digest m m' \<Longrightarrow> shard_ok digest m \<Longrightarrow> shard_ok digest m'"
proof (induction rule: shard_step.induct)
  case (highest groups m pref predicate)
  obtain f m' where "highestReadyPriority pref predicate groups m = (f, m')" by fastforce
  with highestReadyPriority_ok(1) [OF highest(2,1) refl] show ?case by simp
next
  case (count groups m pref p predicate)
  obtain f m' where "readyCountAtPriority pref p predicate groups m = (f, m')" by fastforce
  with readyCountAtPriority_ok(1) [OF count(2,1) refl] show ?case by simp
next
  case (pick groups m pref strategy predicate now0 now later env)
  obtain m1 env1 where m1: "promoteExpired digest now0 m env = (m1, env1)" by fastforce
  obtain f m2 where m2: "highestReadyPriority pref predicate groups m1 = (f, m2)" by fastforce
  have "shard_ok digest m2"
    using highestReadyPriority_ok(1) [OF _ pick(1) refl m2] promoteExpired_ok [OF pick(2), of now0 env] m1 by simp
  then show ?case
    using pickReadyAtPriority_keeps [OF _ pick(1)] by (cases f) (simp_all add: pickReady_def m1 m2)
qed (simp_all add: upsertEntry_ok removeEntry_ok promoteExpired_ok pickReadyAtPriority_keeps)

interpretation shards: invariant_system "\<lambda>m. \<exists>key. m = emptyShard key" "shard_step digest" "shard_ok digest"
  for digest
  by unfold_locales (auto simp: shard_ok_empty intro: shard_ok_step)

section \<open>Properties\<close>

definition exampleMeta :: "(string \<Rightarrow> string) \<Rightarrow> Auth \<Rightarrow> scheduledAuthMeta" where
  "exampleMeta digest a =
     \<lparr>metaAuth = a, providerKey = ''codex'', metaPriority = 0, metaWeight = 1, websocketEnabled = False,
      canonicalIdentity = codexCanonicalIdentityKey digest a,
      canonicalScore = canonicalAuthPreferenceScore a,
      supportedModelSet = [''''], selectionModelSet = [('''', '''')]\<rparr>"

lemma exampleMeta_ok: "meta_ok digest (exampleMeta digest a)"
  by (simp add: meta_ok_def exampleMeta_def)

text \<open>
  C14 (the index is the one the entries define). Whatever sequence of insertions, removals,
  promotions and picks a shard has gone through, its priorities are exactly those of the ready
  entries that represent an account, its views list exactly those entries in id order (the
  near-expiry view in expiry order), every cached group view is the view of its groups and the
  cache is within its bound, and the queue of blocked entries is in retry order.
\<close>

theorem shard_index:
  assumes "reachable (\<lambda>m. \<exists>key. m = emptyShard key) (shard_step digest) m"
  shows "shard_ok digest m"
  using assms by (rule shards.reachable_inv)

lemma shard_index_witness:
  "shard_ok (\<lambda>s. s) (removeEntry (\<lambda>s. s) ''x''
     (fst (upsertEntry (\<lambda>s. s) (exampleMeta (\<lambda>s. s) (exampleAuth ''x'' [])) 5 (emptyShard '''') (\<lambda>_. newRuntimeLimits))))"
proof -
  have "reachable (\<lambda>m. \<exists>key. m = emptyShard key) (shard_step (\<lambda>s. s)) (emptyShard '''')"
    by (rule reachable_init) blast
  from reachable_step [OF this shard_step.upsert [OF exampleMeta_ok]]
  have "reachable (\<lambda>m. \<exists>key. m = emptyShard key) (shard_step (\<lambda>s. s)) (removeEntry (\<lambda>s. s) ''x''
     (fst (upsertEntry (\<lambda>s. s) (exampleMeta (\<lambda>s. s) (exampleAuth ''x'' [])) 5 (emptyShard '''') (\<lambda>_. newRuntimeLimits))))"
    by (rule reachable_step) (rule shard_step.remove)
  then show ?thesis by (rule shard_index)
qed

text \<open>What an index lists: the priorities, the queue, and the entries of every view by priority.\<close>

definition indexLists :: "modelScheduler \<Rightarrow> int list \<times> string list \<times> (int \<Rightarrow> (string list \<times> string list \<times> string list \<times> string list) option)" where
  "indexLists m =
     (priorityOrder m, blockedQueue m,
      \<lambda>p. map_option (\<lambda>b. (flat (bucketAll b), flat (bucketWs b), expiryFlat (bucketAll b), expiryFlat (bucketWs b)))
            (glookup (readyByPriority m) p))"

text \<open>
  The order of the entry map does not matter. Two shards in that state whose entry maps
  agree, however the maps are laid out and whatever led to them, have the same priorities, the
  same queue and, at every priority, views of the same entries in the same order.
\<close>

theorem shard_index_canonical:
  assumes "shard_ok digest m" "shard_ok digest m'" "glookup (entries m) = glookup (entries m')"
  shows "indexLists m = indexLists m'"
proof -
  define s where "s = summaries digest (entries m)"
  have "summaries digest (entries m') = s" using assms(3) by (simp add: s_def summaries_def fun_eq_iff)
  with assms(1,2) have idx: "index_of s m" "index_of s m'"
    by (simp_all add: shard_ok_def s_def)
  have "sorted_wrt (<) (rev (priorityOrder m))" "sorted_wrt (<) (rev (priorityOrder m'))"
    "set (rev (priorityOrder m')) = set (rev (priorityOrder m))"
    using idx by (simp_all add: index_of_def sorted_wrt_rev)
  then have order: "priorityOrder m = priorityOrder m'" by (metis strict_sorted_equal rev_rev_ident)
  have thirds: "map (snd \<circ> snd) (map (retry_key s) xs) = xs" for xs
    by (induction xs) (simp_all add: retry_key_def split: option.splits)
  have "sorted_wrt (<) (map (retry_key s) (blockedQueue m))" "sorted_wrt (<) (map (retry_key s) (blockedQueue m'))"
    "set (map (retry_key s) (blockedQueue m')) = set (map (retry_key s) (blockedQueue m))"
    using idx by (simp_all add: index_of_def sorted_wrt_map)
  then have queue: "blockedQueue m = blockedQueue m'" by (metis strict_sorted_equal thirds)
  have views: "flat (bucketAll b) = flat (bucketAll b') \<and> flat (bucketWs b) = flat (bucketWs b') \<and>
       expiryFlat (bucketAll b) = expiryFlat (bucketAll b') \<and> expiryFlat (bucketWs b) = expiryFlat (bucketWs b')"
    if at: "glookup (readyByPriority m) p = Some b" "glookup (readyByPriority m') p = Some b'" for p b b'
  proof -
    obtain ids where ids: "sorted_wrt (<) ids" "set ids = ready_set s p" "bucket_of_ids s ids b"
      using index_of_keeps [OF idx(1)] at(1) unfolding buckets_of_def by blast
    obtain ids' where ids': "sorted_wrt (<) ids'" "set ids' = ready_set s p" "bucket_of_ids s ids' b'"
      using index_of_keeps [OF idx(2)] at(2) unfolding buckets_of_def by blast
    have "ids' = ids" by (rule strict_sorted_equal [OF ids(1) ids'(1)]) (simp add: ids(2) ids'(2))
    note b = ids(3) ids'(3)
    from b \<open>ids' = ids\<close> have v: "view_of s ids (bucketAll b)" "view_of s ids (bucketAll b')"
      "view_of s (ws_ids s ids) (bucketWs b)" "view_of s (ws_ids s ids) (bucketWs b')"
      by (simp_all add: bucket_of_ids_def)
    have "flat x = flat y" if "view_of s js x" "view_of s js y" for js x y
      using that by (simp add: view_of_def)
    then show ?thesis
      using v expiry_flat_unique [OF v(1,2)] expiry_flat_unique [OF v(3,4)] by metis
  qed
  have bdom: "fst ` set (readyByPriority m) = fst ` set (readyByPriority m')"
    using idx order by (simp add: index_of_def)
  have "glookup (readyByPriority m) p = None \<longleftrightarrow> glookup (readyByPriority m') p = None" for p
    using bdom by (simp add: map_of_eq_None_iff)
  then have none: "glookup (readyByPriority m) p = None \<longleftrightarrow> glookup (readyByPriority m') p = None" for p .
  have "snd (snd (indexLists m)) p = snd (snd (indexLists m')) p" for p
  proof (cases "glookup (readyByPriority m) p")
    case None
    with none [of p] show ?thesis by (simp add: indexLists_def)
  next
    case (Some b)
    with none [of p] obtain b' where b': "glookup (readyByPriority m') p = Some b'" by auto
    note v = views [OF Some b']
    show ?thesis by (simp add: indexLists_def Some b' v [THEN conjunct1] v [THEN conjunct2, THEN conjunct1]
          v [THEN conjunct2, THEN conjunct2, THEN conjunct1] v [THEN conjunct2, THEN conjunct2, THEN conjunct2])
  qed
  then show ?thesis
    using order queue by (simp add: indexLists_def fun_eq_iff)
qed

text \<open>The result of a pick, from the two steps it consists of.\<close>

lemma pickReady_spec:
  assumes "shard_ok digest m" "groups_ok groups"
    and "\<forall>e. predicate e \<longrightarrow> strategy_admits strategy e"
    and "store = entries (fst (promoteExpired digest now0 m env))" "s = summaries digest store"
    and "ws = (pref \<and> (\<exists>q. satisfied store predicate (pick_set s True groups q)))"
    and "pickReady digest pref strategy predicate groups now0 now later m env = ((picked, m'), env')"
  shows "case picked of
      None \<Rightarrow> \<forall>p. \<not> satisfied store predicate (pick_set s False groups p)
    | Some a \<Rightarrow> \<exists>p. best_ready s store predicate ws groups p \<and>
        (\<exists>i \<in> pick_set s ws groups p. \<exists>e. glookup store i = Some e \<and> predicate e \<and> a = entryAuth e)"
proof -
  obtain m1 env1 where m1: "promoteExpired digest now0 m env = (m1, env1)" by fastforce
  obtain found m2 where m2: "highestReadyPriority pref predicate groups m1 = (found, m2)" by fastforce
  have ok1: "shard_ok digest m1" using promoteExpired_ok [OF assms(1), of now0 env] m1 by simp
  have store: "entries m1 = store" using assms(4) m1 by simp
  have s: "s = summaries digest (entries m1)" using assms(5) store by simp
  note high = highestReadyPriority_ok [OF ok1 assms(2) s m2, unfolded store]
  show ?thesis
  proof (cases found)
    case None
    then have "picked = None" using assms(7) by (simp add: pickReady_def m1 m2)
    then show ?thesis using None high(4) by simp
  next
    case (Some p)
    have best: "best_ready s store predicate ws groups p"
      using high(4) Some unfolding assms(6) by (cases "pref \<and> (\<exists>q. satisfied store predicate (pick_set s True groups q))") auto
    have run: "pickReadyAtPriority pref p strategy predicate groups now later m2 env1 = ((picked, m'), env')"
      using assms(7) Some by (simp add: pickReady_def m1 m2)
    have dom: "p \<in> fst ` set (readyByPriority m2)"
      using best high(1,2) assms(5)
      by (auto simp: best_ready_def satisfied_def pick_set_def shard_ok_def index_of_def)
    have flag: "(pref \<and> satisfied store predicate (pick_set s True groups p)) = ws"
    proof (cases ws)
      case True
      with best have "satisfied store predicate (pick_set s True groups p)" by (simp add: best_ready_def)
      with True assms(6) show ?thesis by blast
    next
      case False
      with assms(6) show ?thesis by blast
    qed
    have s2: "s = summaries digest (entries m2)" using high(2) assms(5) by simp
    have "pick_result store predicate strategy (pick_set s ws groups p) picked"
      using pickReadyAtPriority_ok(3) [OF high(1) assms(2) s2 dom run] flag high(2) by simp
    then show ?thesis
      using best assms(3) by (cases picked) (auto simp: pick_result_def best_ready_def satisfied_def)
  qed
qed

text \<open>
  C21 (a pick takes the best ready entry). On a shard in that state, with a predicate that covers
  what the strategy needs, a pick finds an entry whenever some ready entry of an account's
  representative in the request's groups satisfies the predicate. The entry it returns satisfies
  the predicate and has the highest priority among those; when the client prefers websockets and
  any such entry has them, the choice is among the websocket entries only.
\<close>

theorem pickReady_best:
  assumes "shard_ok digest m" "groups_ok groups"
    and "\<forall>e. predicate e \<longrightarrow> strategy_admits strategy e"
    and "store = entries (fst (promoteExpired digest now0 m env))" "s = summaries digest store"
    and "ws = (pref \<and> (\<exists>q. satisfied store predicate (pick_set s True groups q)))"
    and "pickReady digest pref strategy predicate groups now0 now later m env = ((picked, m'), env')"
  shows "case picked of
      None \<Rightarrow> \<forall>p. \<not> satisfied store predicate (pick_set s False groups p)
    | Some a \<Rightarrow> \<exists>p. best_ready s store predicate ws groups p \<and>
        (\<exists>i \<in> pick_set s ws groups p. \<exists>e. glookup store i = Some e \<and> predicate e \<and> a = entryAuth e)"
  by (rule pickReady_spec [OF assms])

definition exampleReady :: "string \<Rightarrow> scheduledAuth" where
  "exampleReady i = evaluatedEntry (exampleMeta (\<lambda>s. s) (exampleAuth i [])) (False, blockReasonNone, zeroTime)"

lemma exampleReady_simps [simp]:
  "entryID (exampleReady i) = i" "meta_ok (\<lambda>s. s) (entryMeta (exampleReady i))"
  "metaWeight (entryMeta (exampleReady i)) = 1"
  by (simp_all add: exampleReady_def exampleMeta_def exampleAuth_def meta_ok_def)

definition exampleShard :: "string list \<Rightarrow> modelScheduler" where
  "exampleShard ids = rebuildIndexes (\<lambda>s. s) ((emptyShard '''')\<lparr>entries := map (\<lambda>i. (i, exampleReady i)) ids\<rparr>)"

lemma exampleShard_ok: "distinct ids \<Longrightarrow> shard_ok (\<lambda>s. s) (exampleShard ids)"
  unfolding exampleShard_def
  by (rule rebuild_ok) (auto simp: entries_ok_def gomap_ok_def comp_def map_of_map_restrict restrict_map_def
      map_of_eq_Some_iff [unfolded comp_def] dest!: map_of_SomeD split: if_splits)

lemma shard_index_canonical_witness:
  "indexLists (exampleShard [''a'', ''b'']) = indexLists (exampleShard [''b'', ''a''])"
  by (rule shard_index_canonical [OF exampleShard_ok exampleShard_ok])
    (auto simp: exampleShard_def fun_eq_iff)

lemma pickReady_best_witness:
  "let m = exampleShard [''a''];
       store = entries (fst (promoteExpired (\<lambda>s. s) 5 m (\<lambda>_. newRuntimeLimits)));
       s = summaries (\<lambda>s. s) store
   in case fst (fst (pickReady (\<lambda>s. s) False schedulerStrategyRoundRobin (\<lambda>_. True) None 5 5 5 m (\<lambda>_. newRuntimeLimits))) of
        None \<Rightarrow> \<forall>p. \<not> satisfied store (\<lambda>_. True) (pick_set s False None p)
      | Some a \<Rightarrow> \<exists>p. best_ready s store (\<lambda>_. True) False None p \<and>
          (\<exists>i \<in> pick_set s False None p. \<exists>e. glookup store i = Some e \<and> True \<and> a = entryAuth e)"
proof -
  obtain picked m' env' where run: "pickReady (\<lambda>s. s) False schedulerStrategyRoundRobin (\<lambda>_. True) None 5 5 5
      (exampleShard [''a'']) (\<lambda>_. newRuntimeLimits) = ((picked, m'), env')" by (metis prod.collapse)
  show ?thesis unfolding Let_def run fst_conv
    by (rule pickReady_best [OF exampleShard_ok _ _ refl refl _ run]) (auto simp: groups_ok_def strategy_admits_def)
qed

end
