(* ===== verification/Scheduler.thy ===== *)
theory Scheduler
  imports ShardIndex
begin

text \<open>
  The scheduler of \<open>sdk/cliproxy/auth/scheduler.go\<close>: the credentials by provider, the model shards
  built from them on demand, and the picks for a request over one or several providers.

  The mutex of the scheduler makes every operation atomic, so an operation is a function of the
  state. The model registry (which models a credential's client is registered for), the manager's
  alias resolution, its quota fallback and the digest are parameters. Where an operation reads the
  clock several times the readings are given by a function of their index, with no relation
  assumed between them.
\<close>

section \<open>State\<close>

record providerScheduler =
  provKey :: string
  provAuths :: "(string, scheduledAuthMeta) gomap"
  modelShards :: "(string, modelScheduler) gomap"

type_synonym selection_resolver = "Auth \<Rightarrow> string \<Rightarrow> string"
type_synonym quota_fallback = "Auth list \<Rightarrow> string \<Rightarrow> gotime \<Rightarrow> limits_env \<Rightarrow> Auth option \<times> limits_env"

record authScheduler =
  schedStrategy :: schedulerStrategy
  schedProviders :: "(string, providerScheduler) gomap"
  authProviders :: "(string, string) gomap"
  mixedCursors :: "(string, int) gomap"
  mixedWeightedStates :: "(string, smoothWeightedState) gomap"
  mixedExpiryCursors :: "(string, int) gomap"
  mixedExpiryWeighted :: "(string, smoothWeightedState) gomap"
  mixedGroupStateKeys :: "string list"
  mixedGroupStateOrder :: "string list"
  selectionModelForAuth :: "selection_resolver option"
  quotaFallback :: "quota_fallback option"

datatype selector_kind = NoSelector | RoundRobinSelector | FillFirstSelector
  | WeightedRoundRobinSelector | ConcurrencyBalancedSelector | OtherSelector

fun selectorStrategy :: "selector_kind \<Rightarrow> schedulerStrategy" where
  "selectorStrategy ConcurrencyBalancedSelector = schedulerStrategyConcurrencyBalanced"
| "selectorStrategy FillFirstSelector = schedulerStrategyFillFirst"
| "selectorStrategy WeightedRoundRobinSelector = schedulerStrategyWeightedRoundRobin"
| "selectorStrategy NoSelector = schedulerStrategyRoundRobin"
| "selectorStrategy RoundRobinSelector = schedulerStrategyRoundRobin"
| "selectorStrategy OtherSelector = schedulerStrategyCustom"

definition newAuthScheduler :: "selector_kind \<Rightarrow> authScheduler" where
  "newAuthScheduler sel =
     \<lparr>schedStrategy = selectorStrategy sel, schedProviders = [], authProviders = [],
      mixedCursors = [], mixedWeightedStates = [], mixedExpiryCursors = [], mixedExpiryWeighted = [],
      mixedGroupStateKeys = [], mixedGroupStateOrder = [],
      selectionModelForAuth = None, quotaFallback = None\<rparr>"

text \<open>The state kept for requests over several providers is dropped as one.\<close>

definition clearMixed :: "authScheduler \<Rightarrow> authScheduler" where
  "clearMixed s =
     s\<lparr>mixedCursors := [], mixedWeightedStates := [], mixedExpiryCursors := [], mixedExpiryWeighted := [],
       mixedGroupStateKeys := [], mixedGroupStateOrder := []\<rparr>"

definition setSelector :: "selector_kind \<Rightarrow> authScheduler \<Rightarrow> authScheduler" where
  "setSelector sel s = clearMixed (s\<lparr>schedStrategy := selectorStrategy sel\<rparr>)"

definition setSelectionModelResolver :: "selection_resolver option \<Rightarrow> authScheduler \<Rightarrow> authScheduler" where
  "setSelectionModelResolver resolve s = s\<lparr>selectionModelForAuth := resolve\<rparr>"

definition setQuotaFallback :: "quota_fallback option \<Rightarrow> authScheduler \<Rightarrow> authScheduler" where
  "setQuotaFallback resolve s = s\<lparr>quotaFallback := resolve\<rparr>"

definition schedulerEmpty :: "authScheduler \<Rightarrow> bool" where
  "schedulerEmpty s \<longleftrightarrow> length (authProviders s) = 0"

section \<open>The metadata of a credential\<close>

text \<open>The models a client is registered for, as the set of their canonical keys.\<close>

definition supportedModelSetForAuth :: "(string \<Rightarrow> string list) \<Rightarrow> string \<Rightarrow> string list" where
  "supportedModelSetForAuth models authID =
     (if trim_space authID = '''' then []
      else remdups (filter (\<lambda>k. k \<noteq> '''') (map canonicalModelKey (models (trim_space authID)))))"

definition selectionModelsForAuth ::
  "(string \<Rightarrow> string list) \<Rightarrow> selection_resolver option \<Rightarrow> Auth \<Rightarrow> (string, string) gomap option" where
  "selectionModelsForAuth models resolve auth =
     (let registered = supportedModelSetForAuth models (ID auth)
      in if registered = [] then None
         else Some (map (\<lambda>routeModel.
                let selectionModel =
                      (case resolve of None \<Rightarrow> routeModel | Some f \<Rightarrow> canonicalModelKey (f auth routeModel))
                in (routeModel, if selectionModel = '''' then routeModel else selectionModel)) registered))"

definition canonicalSelection :: "(string, string) gomap \<Rightarrow> (string, string) gomap" where
  "canonicalSelection selectionModels =
     fold (\<lambda>(routeModel, selectionModel) out.
             let routeKey = canonicalModelKey routeModel; selectionKey = canonicalModelKey selectionModel
             in if routeKey \<noteq> '''' \<and> selectionKey \<noteq> '''' then gput routeKey selectionKey out else out)
       selectionModels []"

definition buildScheduledAuthMetaWithSelectionModels ::
  "(string \<Rightarrow> string) \<Rightarrow> (string \<Rightarrow> string list) \<Rightarrow> (string, string) gomap option \<Rightarrow> Auth \<Rightarrow> scheduledAuthMeta" where
  "buildScheduledAuthMetaWithSelectionModels digest models selectionModels auth =
     (let selection = (case selectionModels of
                         None \<Rightarrow> map (\<lambda>k. (k, k)) (supportedModelSetForAuth models (ID auth))
                       | Some sm \<Rightarrow> canonicalSelection sm);
          selection = (if length selection = 0 then [('''', '''')] else selection)
      in \<lparr>metaAuth = auth, providerKey = executorKeyFromAuth auth,
          metaPriority = authPriority (Some auth), metaWeight = authWeight (Some auth),
          websocketEnabled = authWebsocketsEnabled (Some auth),
          canonicalIdentity = codexCanonicalIdentityKey digest auth,
          canonicalScore = canonicalAuthPreferenceScore auth,
          supportedModelSet = map fst selection, selectionModelSet = selection\<rparr>)"

section \<open>One provider\<close>

definition newProvider :: "string \<Rightarrow> providerScheduler" where
  "newProvider key = \<lparr>provKey = key, provAuths = [], modelShards = []\<rparr>"

text \<open>The walk over the shards, each of which gains, updates or loses the entry.\<close>

fun upsertShards ::
  "(string \<Rightarrow> string) \<Rightarrow> scheduledAuthMeta \<Rightarrow> gotime \<Rightarrow> (string, modelScheduler) gomap \<Rightarrow> limits_env \<Rightarrow>
     (string, modelScheduler) gomap \<times> limits_env" where
  "upsertShards digest meta now [] env = ([], env)"
| "upsertShards digest meta now ((key, shard) # shards) env =
     (let (shard', env) =
            (if supportsModel meta key then upsertEntry digest meta now shard env
             else (removeEntry digest (ID (metaAuth meta)) shard, env));
          (shards', env) = upsertShards digest meta now shards env
      in ((key, shard') # shards', env))"

definition providerUpsertAuth ::
  "(string \<Rightarrow> string) \<Rightarrow> scheduledAuthMeta \<Rightarrow> gotime \<Rightarrow> providerScheduler \<Rightarrow> limits_env \<Rightarrow>
     providerScheduler \<times> limits_env" where
  "providerUpsertAuth digest meta now p env =
     (let (shards, env') = upsertShards digest meta now (modelShards p) env
      in (p\<lparr>provAuths := gput (ID (metaAuth meta)) meta (provAuths p), modelShards := shards\<rparr>, env'))"

definition providerRemoveAuth :: "(string \<Rightarrow> string) \<Rightarrow> string \<Rightarrow> providerScheduler \<Rightarrow> providerScheduler" where
  "providerRemoveAuth digest authID p =
     (if authID = '''' then p
      else p\<lparr>provAuths := gdel authID (provAuths p),
             modelShards := map (\<lambda>(key, shard). (key, removeEntry digest authID shard)) (modelShards p)\<rparr>)"

text \<open>A shard is built from the provider's credentials the first time its model is asked for.\<close>

fun fillShard ::
  "(string \<Rightarrow> string) \<Rightarrow> string \<Rightarrow> gotime \<Rightarrow> (string, scheduledAuthMeta) gomap \<Rightarrow> modelScheduler \<Rightarrow> limits_env \<Rightarrow>
     modelScheduler \<times> limits_env" where
  "fillShard digest key now [] shard env = (shard, env)"
| "fillShard digest key now ((i, meta) # metas) shard env =
     (if \<not> supportsModel meta key then fillShard digest key now metas shard env
      else let (shard, env) = upsertEntry digest meta now shard env
           in fillShard digest key now metas shard env)"

definition ensureModel ::
  "(string \<Rightarrow> string) \<Rightarrow> string \<Rightarrow> gotime \<Rightarrow> providerScheduler \<Rightarrow> limits_env \<Rightarrow>
     (modelScheduler \<times> providerScheduler) \<times> limits_env" where
  "ensureModel digest model now p env =
     (let key = canonicalModelKey model;
          (shard, env') =
            (case glookup (modelShards p) key of
               Some shard \<Rightarrow> promoteExpired digest now shard env
             | None \<Rightarrow> fillShard digest key now (provAuths p) (emptyShard key) env)
      in ((shard, p\<lparr>modelShards := gput key shard (modelShards p)\<rparr>), env'))"

section \<open>Keeping the credentials\<close>

type_synonym model_registry = "string \<Rightarrow> string list"

definition providerAt :: "authScheduler \<Rightarrow> string \<Rightarrow> providerScheduler" where
  "providerAt s key = (case glookup (schedProviders s) key of None \<Rightarrow> newProvider key | Some p \<Rightarrow> p)"

abbreviation registered_provider :: "authScheduler \<Rightarrow> string \<Rightarrow> string" where
  "registered_provider s i \<equiv> (case glookup (authProviders s) i of None \<Rightarrow> '''' | Some p \<Rightarrow> p)"

text \<open>The provider's credentials and shards without one credential, where the provider is known.\<close>

definition removeFromProvider :: "(string \<Rightarrow> string) \<Rightarrow> string \<Rightarrow> string \<Rightarrow> authScheduler \<Rightarrow> authScheduler" where
  "removeFromProvider digest key authID s =
     (case glookup (schedProviders s) key of
        None \<Rightarrow> s
      | Some p \<Rightarrow> s\<lparr>schedProviders := gput key (providerRemoveAuth digest authID p) (schedProviders s)\<rparr>)"

definition removeAuthLocked :: "(string \<Rightarrow> string) \<Rightarrow> string \<Rightarrow> authScheduler \<Rightarrow> authScheduler" where
  "removeAuthLocked digest authID s =
     (if authID = '''' then s
      else let key = registered_provider s authID
           in if key = '''' then s
              else (removeFromProvider digest key authID s)\<lparr>authProviders := gdel authID (authProviders s)\<rparr>)"

definition removeAuth :: "(string \<Rightarrow> string) \<Rightarrow> string \<Rightarrow> authScheduler \<Rightarrow> authScheduler" where
  "removeAuth digest authID s =
     (if trim_space authID = '''' then s else removeAuthLocked digest (trim_space authID) s)"

definition upsertAuth ::
  "(string \<Rightarrow> string) \<Rightarrow> model_registry \<Rightarrow> Auth option \<Rightarrow> gotime \<Rightarrow> (string, string) gomap option \<Rightarrow>
     authScheduler \<Rightarrow> limits_env \<Rightarrow> authScheduler \<times> limits_env" where
  "upsertAuth digest models auth0 now selectionModels s env =
     (case auth0 of
        None \<Rightarrow> (s, env)
      | Some auth \<Rightarrow>
          let authID = trim_space (ID auth);
              key = executorKeyFromAuth auth
          in if authID = '''' \<or> key = '''' \<or> Disabled auth then (removeAuthLocked digest authID s, env)
             else let previous = registered_provider s authID;
                      s = (if previous \<noteq> '''' \<and> previous \<noteq> key
                           then removeFromProvider digest previous authID s else s);
                      selection = (case selectionModels of
                                     None \<Rightarrow> selectionModelsForAuth models (selectionModelForAuth s) auth
                                   | Some m \<Rightarrow> Some m);
                      meta = buildScheduledAuthMetaWithSelectionModels digest models selection auth;
                      (p, env') = providerUpsertAuth digest meta now (providerAt s key) env
                  in (s\<lparr>authProviders := gput authID key (authProviders s),
                        schedProviders := gput key p (schedProviders s)\<rparr>, env'))"

fun upsertAll ::
  "(string \<Rightarrow> string) \<Rightarrow> model_registry \<Rightarrow> (string, (string, string) gomap) gomap option \<Rightarrow> gotime \<Rightarrow>
     Auth option list \<Rightarrow> authScheduler \<Rightarrow> limits_env \<Rightarrow> authScheduler \<times> limits_env" where
  "upsertAll digest models selectionModels now [] s env = (s, env)"
| "upsertAll digest models selectionModels now (auth # auths) s env =
     (let modelSet = (case (selectionModels, auth) of
                        (Some m, Some a) \<Rightarrow> glookup m (ID a) | _ \<Rightarrow> None);
          (s, env) = upsertAuth digest models auth now modelSet s env
      in upsertAll digest models selectionModels now auths s env)"

definition schedulerRebuild ::
  "(string \<Rightarrow> string) \<Rightarrow> model_registry \<Rightarrow> (string, (string, string) gomap) gomap option \<Rightarrow> gotime \<Rightarrow>
     Auth option list \<Rightarrow> authScheduler \<Rightarrow> limits_env \<Rightarrow> authScheduler \<times> limits_env" where
  "schedulerRebuild digest models selectionModels now auths s env =
     upsertAll digest models selectionModels now auths
       (clearMixed (s\<lparr>schedProviders := [], authProviders := []\<rparr>)) env"

definition snapshotAuth :: "authScheduler \<Rightarrow> string \<Rightarrow> Auth option" where
  "snapshotAuth s authID0 =
     (let authID = trim_space authID0
      in if authID = '''' then None
         else case glookup (schedProviders s) (registered_provider s authID) of
                None \<Rightarrow> None
              | Some p \<Rightarrow> map_option metaAuth (glookup (provAuths p) authID))"

section \<open>Provider lists\<close>

definition normalizeProviderKeys :: "string list \<Rightarrow> string list" where
  "normalizeProviderKeys providers =
     fold (\<lambda>provider out. let key = to_lower (trim_space provider)
                           in if key = '''' \<or> key \<in> set out then out else out @ [key]) providers []"

definition containsProvider :: "string list \<Rightarrow> string \<Rightarrow> bool" where
  "containsProvider providers provider \<longleftrightarrow> list_ex (\<lambda>candidate. candidate = provider) providers"

definition providerPrefersWebsocketTransport :: "string \<Rightarrow> bool" where
  "providerPrefersWebsocketTransport key \<longleftrightarrow> to_lower (trim_space key) \<in> {''codex'', ''xai''}"

text \<open>
  The shard of a model at one provider, where the provider is known. A request's model key is
  reduced once more when the shard is looked up, so the key of the shard is the reduced one.
\<close>

definition ensureShard ::
  "(string \<Rightarrow> string) \<Rightarrow> string \<Rightarrow> string \<Rightarrow> gotime \<Rightarrow> authScheduler \<Rightarrow> limits_env \<Rightarrow>
     (modelScheduler option \<times> authScheduler) \<times> limits_env" where
  "ensureShard digest key model now s env =
     (case glookup (schedProviders s) key of
        None \<Rightarrow> ((None, s), env)
      | Some p \<Rightarrow>
          let ((shard, p), env) = ensureModel digest model now p env
          in ((Some shard, s\<lparr>schedProviders := gput key p (schedProviders s)\<rparr>), env))"

definition shardAt :: "authScheduler \<Rightarrow> string \<Rightarrow> string \<Rightarrow> modelScheduler option" where
  "shardAt s key mkey =
     (case glookup (schedProviders s) key of None \<Rightarrow> None | Some p \<Rightarrow> glookup (modelShards p) mkey)"

definition putShard :: "string \<Rightarrow> string \<Rightarrow> modelScheduler \<Rightarrow> authScheduler \<Rightarrow> authScheduler" where
  "putShard key mkey shard s =
     (case glookup (schedProviders s) key of
        None \<Rightarrow> s
      | Some p \<Rightarrow>
          s\<lparr>schedProviders :=
              gput key (p\<lparr>modelShards := gput mkey shard (modelShards p)\<rparr>) (schedProviders s)\<rparr>)"

text \<open>The candidates of a request, one per account, in id order.\<close>

fun snapshotEntries ::
  "(string \<Rightarrow> string) \<Rightarrow> entry_store \<Rightarrow>
     (string list \<times> (string, scheduledAuth option) gomap) \<times> Auth list \<Rightarrow>
     (string list \<times> (string, scheduledAuth option) gomap) \<times> Auth list" where
  "snapshotEntries digest [] acc = acc"
| "snapshotEntries digest ((authID, entry) # es) ((seen, canonical), out) =
     (if authID \<in> set seen then snapshotEntries digest es ((seen, canonical), out)
      else let identityKey = codexCanonicalIdentityKey digest (entryAuth entry)
           in if identityKey = ''''
              then snapshotEntries digest es ((seen @ [authID], canonical), out @ [entryAuth entry])
              else let current = (case glookup canonical identityKey of None \<Rightarrow> None | Some c \<Rightarrow> c)
                   in snapshotEntries digest es
                        ((seen @ [authID],
                          gput identityKey (preferScheduledCanonicalEntry current (Some entry)) canonical), out))"

fun snapshotProviders ::
  "(string \<Rightarrow> string) \<Rightarrow> string \<Rightarrow> gotime \<Rightarrow> string list \<Rightarrow>
     (string list \<times> (string, scheduledAuth option) gomap) \<times> Auth list \<Rightarrow> authScheduler \<Rightarrow> limits_env \<Rightarrow>
     (((string list \<times> (string, scheduledAuth option) gomap) \<times> Auth list) \<times> authScheduler) \<times> limits_env" where
  "snapshotProviders digest model now [] acc s env = ((acc, s), env)"
| "snapshotProviders digest model now (key # keys) acc s env =
     (let ((shard, s), env) = ensureShard digest key model now s env
      in snapshotProviders digest model now keys
           (case shard of None \<Rightarrow> acc | Some m \<Rightarrow> snapshotEntries digest (entries m) acc) s env)"

definition snapshotCandidates ::
  "(string \<Rightarrow> string) \<Rightarrow> string list \<Rightarrow> string \<Rightarrow> gotime \<Rightarrow> authScheduler \<Rightarrow> limits_env \<Rightarrow>
     (Auth list \<times> authScheduler) \<times> limits_env" where
  "snapshotCandidates digest provs model now s env =
     (let ((((_, canonical), out), s), env) =
            snapshotProviders digest (canonicalModelKey model) now (normalizeProviderKeys provs)
              (([], []), []) s env
      in ((sort_key ID (out @ map entryAuth (List.map_filter snd canonical)), s), env))"

section \<open>Requests\<close>

text \<open>What a pick reads of the request: its context, its options and the credentials tried before.\<close>

record schedRequest =
  ctxAuthKind :: string
  ctxCredentialPolicy :: string
  ctxDownstreamWebsocket :: bool
  optStream :: bool
  optMetadata :: request_metadata
  triedAuths :: "string list"

abbreviation request_eligibility :: "schedRequest \<Rightarrow> authSelectionEligibility" where
  "request_eligibility req \<equiv>
     authSelectionEligibilityForRequest (ctxAuthKind req) (ctxCredentialPolicy req) (optMetadata req)"

definition scheduledAuthPredicate ::
  "authSelectionEligibility \<Rightarrow> string list \<Rightarrow> string \<Rightarrow> bool \<Rightarrow> scheduledAuth \<Rightarrow> bool" where
  "scheduledAuthPredicate eligibility tried pinnedAuthID requirePositiveWeight e =
     (if \<not> eligibilityAllows eligibility (entryAuth e) then False
      else if requirePositiveWeight \<and> metaWeight (entryMeta e) \<le> 0 then False
      else if pinnedAuthID \<noteq> '''' \<and> entryID e \<noteq> pinnedAuthID then False
      else if length tried > 0 \<and> entryID e \<in> set tried then False
      else True)"

abbreviation request_predicate :: "schedRequest \<Rightarrow> string \<Rightarrow> schedulerStrategy \<Rightarrow> scheduledAuth \<Rightarrow> bool" where
  "request_predicate req pinned strategy \<equiv>
     scheduledAuthPredicate (request_eligibility req) (triedAuths req) pinned
       (strategy = schedulerStrategyWeightedRoundRobin)"

abbreviation auth_not_found :: select_error where
  "auth_not_found \<equiv> SelectorError ''auth_not_found'' ''no auth available''"

abbreviation auth_unavailable :: select_error where
  "auth_unavailable \<equiv> SelectorError ''auth_unavailable'' ''no auth available''"

section \<open>A pick at one provider\<close>

text \<open>
  The clock is read for the shard (0), for the promotion in the pick (1), for the two steps of the
  pick (2, 3) and for the error (4).
\<close>

definition pickSingleWithStrategy ::
  "(string \<Rightarrow> string) \<Rightarrow> string \<Rightarrow> string \<Rightarrow> schedRequest \<Rightarrow> schedulerStrategy \<Rightarrow> (nat \<Rightarrow> gotime) \<Rightarrow>
     authScheduler \<Rightarrow> limits_env \<Rightarrow> ((select_error + Auth) \<times> authScheduler) \<times> limits_env" where
  "pickSingleWithStrategy digest provider model req strategy0 clock s env =
     (let key = to_lower (trim_space provider);
          mkey = canonicalModelKey model;
          pinned = pinnedAuthIDFromMetadata (optMetadata req);
          preferWebsocket = (pinned = '''' \<and> providerPrefersWebsocketTransport key \<and>
            (ctxDownstreamWebsocket req \<or> (optStream req \<and> equal_fold key ''codex'')));
          strategy = (if strategy0 = schedulerStrategyCurrent then schedStrategy s else strategy0)
      in case ensureShard digest key mkey (clock 0) s env of
           ((None, s), env) \<Rightarrow> ((Inl auth_not_found, s), env)
         | ((Some shard, s), env) \<Rightarrow>
             let predicate = request_predicate req pinned strategy;
                 groups = accountGroups (request_eligibility req);
                 ((picked, shard), env) =
                   pickReady digest preferWebsocket strategy predicate groups
                     (clock 1) (clock 2) (clock 3) shard env;
                 s = putShard key (canonicalModelKey mkey) shard s
             in case picked of
                  Some a \<Rightarrow> ((Inr a, s), env)
                | None \<Rightarrow>
                    let (fallback, env) =
                          (case quotaFallback s of
                             Some f \<Rightarrow> if key = ''codex''
                                       then f (candidateAuths digest predicate shard) model (clock 0) env
                                       else (None, env)
                           | None \<Rightarrow> (None, env))
                    in case fallback of
                         Some a \<Rightarrow> ((Inr a, s), env)
                       | None \<Rightarrow> ((Inl (unavailableError digest provider model predicate (clock 4) shard), s), env))"

section \<open>A pick over several providers\<close>

text \<open>Every provider's shard is brought up to date, and the best ready priority is found.\<close>

fun mixedBest ::
  "(string \<Rightarrow> string) \<Rightarrow> string \<Rightarrow> gotime \<Rightarrow> (scheduledAuth \<Rightarrow> bool) \<Rightarrow> accountGroupSelection option \<Rightarrow>
     string list \<Rightarrow> int option \<Rightarrow> authScheduler \<Rightarrow> limits_env \<Rightarrow> (int option \<times> authScheduler) \<times> limits_env" where
  "mixedBest digest mkey now predicate groups [] best s env = ((best, s), env)"
| "mixedBest digest mkey now predicate groups (key # keys) best s env =
     (case ensureShard digest key mkey now s env of
        ((None, s), env) \<Rightarrow> mixedBest digest mkey now predicate groups keys best s env
      | ((Some shard, s), env) \<Rightarrow>
          let (found, shard) = highestReadyPriority False predicate groups shard;
              s = putShard key (canonicalModelKey mkey) shard s;
              best = (case found of
                        None \<Rightarrow> best
                      | Some p \<Rightarrow> (case best of None \<Rightarrow> Some p | Some b \<Rightarrow> Some (if p > b then p else b)))
          in mixedBest digest mkey now predicate groups keys best s env)"

text \<open>The entries of the providers' views at one priority, in the order of the providers.\<close>

fun mixedEntries ::
  "string \<Rightarrow> int \<Rightarrow> accountGroupSelection option \<Rightarrow> (scheduledAuth list \<Rightarrow> scheduledAuth list \<Rightarrow> scheduledAuth list) \<Rightarrow>
     string list \<Rightarrow> scheduledAuth list \<Rightarrow> authScheduler \<Rightarrow> scheduledAuth list \<times> authScheduler" where
  "mixedEntries mkey priority groups collect [] out s = (out, s)"
| "mixedEntries mkey priority groups collect (key # keys) out s =
     (case shardAt s key mkey of
        None \<Rightarrow> mixedEntries mkey priority groups collect keys out s
      | Some shard \<Rightarrow>
          (case glookup (readyByPriority shard) priority of
             None \<Rightarrow> mixedEntries mkey priority groups collect keys out s
           | Some b \<Rightarrow>
               let (ref, b) = bucketView (entries shard) False groups b;
                   es = entriesOf (entries shard) (flat (viewAt ref b));
                   shard = shard\<lparr>readyByPriority := gput priority b (readyByPriority shard)\<rparr>
               in mixedEntries mkey priority groups collect keys (collect out es) (putShard key mkey shard s)))"

fun mixedCandidates ::
  "(string \<Rightarrow> string) \<Rightarrow> string \<Rightarrow> (scheduledAuth \<Rightarrow> bool) \<Rightarrow> string list \<Rightarrow> authScheduler \<Rightarrow> Auth list" where
  "mixedCandidates digest mkey predicate [] s = []"
| "mixedCandidates digest mkey predicate (key # keys) s =
     (case shardAt s key mkey of None \<Rightarrow> [] | Some shard \<Rightarrow> candidateAuths digest predicate shard) @
     mixedCandidates digest mkey predicate keys s"

text \<open>The summaries of all providers, each brought up to date first.\<close>

fun mixedSummary ::
  "(string \<Rightarrow> string) \<Rightarrow> string \<Rightarrow> gotime \<Rightarrow> (scheduledAuth \<Rightarrow> bool) \<Rightarrow> string list \<Rightarrow> int \<times> int \<times> gotime \<Rightarrow>
     authScheduler \<Rightarrow> limits_env \<Rightarrow> ((int \<times> int \<times> gotime) \<times> authScheduler) \<times> limits_env" where
  "mixedSummary digest mkey now predicate [] acc s env = ((acc, s), env)"
| "mixedSummary digest mkey now predicate (key # keys) (n, cooldownCount, earliest) s env =
     (case ensureShard digest key mkey now s env of
        ((None, s), env) \<Rightarrow> mixedSummary digest mkey now predicate keys (n, cooldownCount, earliest) s env
      | ((Some shard, s), env) \<Rightarrow>
          let (localTotal, localCooldown, localEarliest) = availabilitySummary digest predicate shard
          in mixedSummary digest mkey now predicate keys
               (n + localTotal, cooldownCount + localCooldown,
                if localEarliest \<noteq> zeroTime \<and> (earliest = zeroTime \<or> localEarliest < earliest)
                then localEarliest else earliest) s env)"

definition mixedUnavailableError ::
  "(string \<Rightarrow> string) \<Rightarrow> string list \<Rightarrow> string \<Rightarrow> (scheduledAuth \<Rightarrow> bool) \<Rightarrow> gotime \<Rightarrow> authScheduler \<Rightarrow> limits_env \<Rightarrow>
     (select_error \<times> authScheduler) \<times> limits_env" where
  "mixedUnavailableError digest keys model predicate now s env =
     (let (((n, cooldownCount, earliest), s), env) =
            mixedSummary digest (canonicalModelKey model) now predicate keys (0, 0, zeroTime) s env
      in if n = 0 then ((auth_not_found, s), env)
         else if cooldownCount = n \<and> earliest \<noteq> zeroTime
         then let resetIn = time_sub earliest now; resetIn = (if resetIn < 0 then 0 else resetIn)
              in ((newModelCooldownError model '''' resetIn, s), env)
         else ((auth_unavailable, s), env))"

text \<open>At most \<open>maxAccountGroupMixedStateEntries\<close> group selections keep state; the oldest goes first.\<close>

definition maxAccountGroupMixedStateEntries :: nat where
  "maxAccountGroupMixedStateEntries = 256"

definition retainMixedGroupStateKey :: "string \<Rightarrow> authScheduler \<Rightarrow> authScheduler" where
  "retainMixedGroupStateKey key s =
     (if key = '''' then s
      else if key \<in> set (mixedGroupStateKeys s) then s
      else let s = (if length (mixedGroupStateOrder s) \<ge> maxAccountGroupMixedStateEntries
                    then let oldest = hd (mixedGroupStateOrder s)
                         in s\<lparr>mixedGroupStateOrder := tl (mixedGroupStateOrder s),
                              mixedGroupStateKeys := removeAll oldest (mixedGroupStateKeys s),
                              mixedCursors := gdel oldest (mixedCursors s),
                              mixedWeightedStates := gdel oldest (mixedWeightedStates s),
                              mixedExpiryCursors := gdel oldest (mixedExpiryCursors s),
                              mixedExpiryWeighted := gdel oldest (mixedExpiryWeighted s)\<rparr>
                    else s)
           in s\<lparr>mixedGroupStateKeys := mixedGroupStateKeys s @ [key],
                mixedGroupStateOrder := mixedGroupStateOrder s @ [key]\<rparr>)"

text \<open>\<open>strings.Join\<close>.\<close>

fun join_with :: "string \<Rightarrow> string list \<Rightarrow> string" where
  "join_with sep [] = ''''"
| "join_with sep [x] = x"
| "join_with sep (x # y # xs) = x @ sep @ join_with sep (y # xs)"

definition mixedCursorKey :: "string list \<Rightarrow> string \<Rightarrow> accountGroupSelection option \<Rightarrow> string" where
  "mixedCursorKey keys mkey groups =
     (let cursorKey = join_with '','' keys @ '':'' @ mkey
      in case groups of
           None \<Rightarrow> cursorKey
         | Some g \<Rightarrow> if selectionKey g \<noteq> '''' then cursorKey @ '':groups='' @ selectionKey g else cursorKey)"

abbreviation picked_entry :: "scheduledAuth \<Rightarrow> Auth \<times> string" where
  "picked_entry e \<equiv> (entryAuth e, providerKey (entryMeta e))"

abbreviation saved_weights :: "(string, smoothWeightedState) gomap \<Rightarrow> string \<Rightarrow> smoothWeightedState" where
  "saved_weights m key \<equiv> (case glookup m key of None \<Rightarrow> emptySmoothWeightedState | Some w \<Rightarrow> w)"

abbreviation saved_cursor :: "(string, int) gomap \<Rightarrow> string \<Rightarrow> int" where
  "saved_cursor m key \<equiv> (case glookup m key of None \<Rightarrow> 0 | Some c \<Rightarrow> c)"

text \<open>The near-expiry entries of all providers, narrowed to the first cohort, go first.\<close>

definition mixedExpiring ::
  "schedulerStrategy \<Rightarrow> string \<Rightarrow> (scheduledAuth \<Rightarrow> bool) \<Rightarrow> gotime \<Rightarrow> scheduledAuth list \<Rightarrow>
     authScheduler \<Rightarrow> limits_env \<Rightarrow> ((Auth \<times> string) option \<times> authScheduler) \<times> limits_env" where
  "mixedExpiring strategy cursorKey predicate now expiring s env =
     (if length expiring = 0 then ((None, s), env)
      else let es = narrowScheduledExpiryLane expiring
           in case strategy of
                schedulerStrategyFillFirst \<Rightarrow> ((Some (picked_entry (hd es)), s), env)
              | schedulerStrategyWeightedRoundRobin \<Rightarrow>
                  let (picked, st) = pickWeightedEntries es predicate (saved_weights (mixedExpiryWeighted s) cursorKey)
                  in ((map_option picked_entry picked,
                       s\<lparr>mixedExpiryWeighted := gput cursorKey st (mixedExpiryWeighted s)\<rparr>), env)
              | schedulerStrategyConcurrencyBalanced \<Rightarrow>
                  let ((picked, cursor), env) =
                        pickLeastConcurrentScheduled es (saved_cursor (mixedExpiryCursors s) cursorKey) predicate now env
                  in (case picked of
                        None \<Rightarrow> ((None, s), env)
                      | Some e \<Rightarrow>
                          ((Some (picked_entry e),
                            s\<lparr>mixedExpiryCursors := gput cursorKey cursor (mixedExpiryCursors s)\<rparr>), env))
              | _ \<Rightarrow>
                  let start = nat (go_mod (saved_cursor (mixedExpiryCursors s) cursorKey) (int (length es)))
                  in ((Some (picked_entry (es ! start)),
                       s\<lparr>mixedExpiryCursors := gput cursorKey (int start + 1) (mixedExpiryCursors s)\<rparr>), env))"

text \<open>The first provider with a pick wins; the i-th provider reads the clock at 2i + 1 and 2i + 2.\<close>

fun mixedFillFirst ::
  "string \<Rightarrow> int \<Rightarrow> (scheduledAuth \<Rightarrow> bool) \<Rightarrow> accountGroupSelection option \<Rightarrow> (nat \<Rightarrow> gotime) \<Rightarrow> nat \<Rightarrow>
     string list \<Rightarrow> authScheduler \<Rightarrow> limits_env \<Rightarrow> ((Auth \<times> string) option \<times> authScheduler) \<times> limits_env" where
  "mixedFillFirst mkey best predicate groups clock i [] s env = ((None, s), env)"
| "mixedFillFirst mkey best predicate groups clock i (key # keys) s env =
     (case shardAt s key mkey of
        None \<Rightarrow> mixedFillFirst mkey best predicate groups clock (Suc i) keys s env
      | Some shard \<Rightarrow>
          let ((picked, shard), env) =
                pickReadyAtPriority False best schedulerStrategyFillFirst predicate groups
                  (clock (2 * i + 1)) (clock (2 * i + 2)) shard env;
              s = putShard key mkey shard s
          in case picked of
               Some a \<Rightarrow> ((Some (a, key), s), env)
             | None \<Rightarrow> mixedFillFirst mkey best predicate groups clock (Suc i) keys s env)"

text \<open>The number of ready candidates of each provider is its weight in the rotation.\<close>

fun mixedWeights ::
  "string \<Rightarrow> int \<Rightarrow> (scheduledAuth \<Rightarrow> bool) \<Rightarrow> accountGroupSelection option \<Rightarrow> string list \<Rightarrow> authScheduler \<Rightarrow>
     nat list \<times> authScheduler" where
  "mixedWeights mkey best predicate groups [] s = ([], s)"
| "mixedWeights mkey best predicate groups (key # keys) s =
     (case shardAt s key mkey of
        None \<Rightarrow> let (ws, s) = mixedWeights mkey best predicate groups keys s in (0 # ws, s)
      | Some shard \<Rightarrow>
          let (w, shard) = readyCountAtPriority False best predicate groups shard;
              (ws, s) = mixedWeights mkey best predicate groups keys (putShard key mkey shard s)
          in (w # ws, s))"

definition startProvider :: "nat list \<Rightarrow> nat \<Rightarrow> nat option" where
  "startProvider weights startSlot =
     find (\<lambda>i. weights ! i \<noteq> 0 \<and> startSlot < sum_list (take (Suc i) weights)) [0..<length weights]"

text \<open>The walk from the start provider, over the offsets still to try.\<close>

fun mixedRotate ::
  "string \<Rightarrow> int \<Rightarrow> (scheduledAuth \<Rightarrow> bool) \<Rightarrow> accountGroupSelection option \<Rightarrow> (nat \<Rightarrow> gotime) \<Rightarrow> string \<Rightarrow>
     string list \<Rightarrow> nat list \<Rightarrow> nat \<Rightarrow> nat \<Rightarrow> nat list \<Rightarrow> authScheduler \<Rightarrow> limits_env \<Rightarrow>
     ((Auth \<times> string) option \<times> authScheduler) \<times> limits_env" where
  "mixedRotate mkey best predicate groups clock cursorKey keys weights start slot [] s env = ((None, s), env)"
| "mixedRotate mkey best predicate groups clock cursorKey keys weights start slot (offset # offsets) s env =
     (let i = (start + offset) mod length keys
      in if weights ! i = 0
         then mixedRotate mkey best predicate groups clock cursorKey keys weights start slot offsets s env
         else let slot = (if i \<noteq> start then sum_list (take i weights) else slot)
              in case shardAt s (keys ! i) mkey of
                   None \<Rightarrow> mixedRotate mkey best predicate groups clock cursorKey keys weights start slot offsets s env
                 | Some shard \<Rightarrow>
                     let ((picked, shard), env) =
                           pickReadyAtPriority False best schedulerStrategyRoundRobin predicate groups
                             (clock (2 * offset + 1)) (clock (2 * offset + 2)) shard env;
                         s = putShard (keys ! i) mkey shard s
                     in case picked of
                          None \<Rightarrow> mixedRotate mkey best predicate groups clock cursorKey keys weights start slot offsets s env
                        | Some a \<Rightarrow>
                            ((Some (a, keys ! i),
                              s\<lparr>mixedCursors := gput cursorKey (int slot + 1) (mixedCursors s)\<rparr>), env))"

definition mixedRoundRobin ::
  "string \<Rightarrow> int \<Rightarrow> (scheduledAuth \<Rightarrow> bool) \<Rightarrow> accountGroupSelection option \<Rightarrow> (nat \<Rightarrow> gotime) \<Rightarrow> string \<Rightarrow>
     string list \<Rightarrow> authScheduler \<Rightarrow> limits_env \<Rightarrow> ((Auth \<times> string) option \<times> authScheduler) \<times> limits_env" where
  "mixedRoundRobin mkey best predicate groups clock cursorKey keys s env =
     (let (weights, s) = mixedWeights mkey best predicate groups keys s;
          totalWeight = sum_list weights
      in if totalWeight = 0 then ((None, s), env)
         else let startSlot = nat (go_mod (saved_cursor (mixedCursors s) cursorKey) (int totalWeight))
              in case startProvider weights startSlot of
                   None \<Rightarrow> ((None, s), env)
                 | Some start \<Rightarrow>
                     mixedRotate mkey best predicate groups clock cursorKey keys weights start startSlot
                       [0..<length keys] s env)"

text \<open>The strategies that pick from the entries of all providers, sorted by id.\<close>

definition mixedBalanced ::
  "string \<Rightarrow> int \<Rightarrow> (scheduledAuth \<Rightarrow> bool) \<Rightarrow> accountGroupSelection option \<Rightarrow> gotime \<Rightarrow> string \<Rightarrow> string list \<Rightarrow>
     authScheduler \<Rightarrow> limits_env \<Rightarrow> ((Auth \<times> string) option \<times> authScheduler) \<times> limits_env" where
  "mixedBalanced mkey best predicate groups now cursorKey keys s env =
     (let (es, s) = mixedEntries mkey best groups (@) keys [] s;
          ((picked, cursor), env) =
            pickLeastConcurrentScheduled (sort_key entryID es) (saved_cursor (mixedCursors s) cursorKey) predicate now env
      in case picked of
           None \<Rightarrow> ((None, s), env)
         | Some e \<Rightarrow>
             ((Some (picked_entry e), s\<lparr>mixedCursors := gput cursorKey cursor (mixedCursors s)\<rparr>), env))"

definition mixedWeighted ::
  "string \<Rightarrow> int \<Rightarrow> (scheduledAuth \<Rightarrow> bool) \<Rightarrow> accountGroupSelection option \<Rightarrow> string \<Rightarrow> string list \<Rightarrow>
     authScheduler \<Rightarrow> (Auth \<times> string) option \<times> authScheduler" where
  "mixedWeighted mkey best predicate groups cursorKey keys s =
     (let (es, s) = mixedEntries mkey best groups (@) keys [] s;
          (picked, st) =
            pickWeightedEntries (sort_key entryID es) predicate (saved_weights (mixedWeightedStates s) cursorKey)
      in (map_option picked_entry picked,
          s\<lparr>mixedWeightedStates := gput cursorKey st (mixedWeightedStates s)\<rparr>))"

text \<open>
  One provider is a single pick. A pinned credential is looked for at its own provider only.
  Otherwise the near-expiry entries of the best priority go first, then the strategy over all
  providers; the error is computed when nothing was picked.
\<close>

definition pickPinned ::
  "(string \<Rightarrow> string) \<Rightarrow> string list \<Rightarrow> string \<Rightarrow> schedRequest \<Rightarrow> string \<Rightarrow> schedulerStrategy \<Rightarrow> (nat \<Rightarrow> gotime) \<Rightarrow>
     authScheduler \<Rightarrow> limits_env \<Rightarrow> ((select_error + Auth \<times> string) \<times> authScheduler) \<times> limits_env" where
  "pickPinned digest keys model req pinned strategy clock s env =
     (let key = registered_provider s pinned;
          mkey = canonicalModelKey model
      in if key = '''' \<or> \<not> containsProvider keys key then ((Inl auth_not_found, s), env)
         else case ensureShard digest key mkey (clock 0) s env of
                ((None, s), env) \<Rightarrow> ((Inl auth_not_found, s), env)
              | ((Some shard, s), env) \<Rightarrow>
                  let predicate = request_predicate req pinned strategy;
                      ((picked, shard), env) =
                        pickReady digest False strategy predicate (accountGroups (request_eligibility req))
                          (clock 1) (clock 2) (clock 3) shard env;
                      s = putShard key (canonicalModelKey mkey) shard s
                  in case picked of
                       Some a \<Rightarrow> ((Inr (a, key), s), env)
                     | None \<Rightarrow>
                         ((Inl (unavailableError digest ''mixed'' model predicate (clock 4) shard), s), env))"

definition mixedStrategyPick ::
  "schedulerStrategy \<Rightarrow> string \<Rightarrow> int \<Rightarrow> (scheduledAuth \<Rightarrow> bool) \<Rightarrow> accountGroupSelection option \<Rightarrow>
     (nat \<Rightarrow> gotime) \<Rightarrow> string \<Rightarrow> string list \<Rightarrow> authScheduler \<Rightarrow> limits_env \<Rightarrow>
     ((Auth \<times> string) option \<times> authScheduler) \<times> limits_env" where
  "mixedStrategyPick strategy mkey best predicate groups clock cursorKey keys s env =
     (case strategy of
        schedulerStrategyConcurrencyBalanced \<Rightarrow>
          mixedBalanced mkey best predicate groups (clock 0) cursorKey keys s env
      | schedulerStrategyFillFirst \<Rightarrow> mixedFillFirst mkey best predicate groups clock 0 keys s env
      | schedulerStrategyWeightedRoundRobin \<Rightarrow> (mixedWeighted mkey best predicate groups cursorKey keys s, env)
      | _ \<Rightarrow> mixedRoundRobin mkey best predicate groups clock cursorKey keys s env)"

definition pickMixedWithStrategy ::
  "(string \<Rightarrow> string) \<Rightarrow> string list \<Rightarrow> string \<Rightarrow> schedRequest \<Rightarrow> schedulerStrategy \<Rightarrow> (nat \<Rightarrow> gotime) \<Rightarrow>
     authScheduler \<Rightarrow> limits_env \<Rightarrow> ((select_error + Auth \<times> string) \<times> authScheduler) \<times> limits_env" where
  "pickMixedWithStrategy digest provs model req strategy0 clock s env =
     (let keys = normalizeProviderKeys provs;
          mkey = canonicalModelKey model;
          skey = canonicalModelKey mkey;
          pinned = pinnedAuthIDFromMetadata (optMetadata req);
          strategy = (if strategy0 = schedulerStrategyCurrent then schedStrategy s else strategy0);
          predicate = request_predicate req '''' strategy;
          groups = accountGroups (request_eligibility req);
          unavailable = (\<lambda>s env.
            let ((e, s), env) =
                  mixedUnavailableError digest keys model predicate (clock (2 * length keys + 1)) s env
            in ((Inl e, s), env))
      in if length keys = 0 then ((Inl (SelectorError ''provider_not_found'' ''no provider supplied''), s), env)
         else if length keys = 1
         then (case pickSingleWithStrategy digest (hd keys) model req strategy0 clock s env of
                 ((Inl e, s), env) \<Rightarrow> ((Inl e, s), env)
               | ((Inr a, s), env) \<Rightarrow> ((Inr (a, hd keys), s), env))
         else if pinned \<noteq> '''' then pickPinned digest keys model req pinned strategy clock s env
         else case mixedBest digest mkey (clock 0) predicate groups keys None s env of
                ((None, s), env) \<Rightarrow>
                  let (fallback, env) =
                        (case quotaFallback s of
                           Some f \<Rightarrow> if containsProvider keys ''codex''
                                     then f (mixedCandidates digest skey predicate keys s) model (clock 0) env
                                     else (None, env)
                         | None \<Rightarrow> (None, env))
                  in (case fallback of
                        Some a \<Rightarrow> ((Inr (a, executorKeyFromAuth a), s), env)
                      | None \<Rightarrow> unavailable s env)
              | ((Some best, s), env) \<Rightarrow>
                  let cursorKey = mixedCursorKey keys mkey groups;
                      s = (case groups of
                             Some g \<Rightarrow> if selectionKey g \<noteq> '''' \<and> strategy \<noteq> schedulerStrategyFillFirst
                                       then retainMixedGroupStateKey cursorKey s else s
                           | None \<Rightarrow> s);
                      (expiring, s) =
                        mixedEntries skey best groups
                          (\<lambda>out es. appendExpiringScheduledEntries out es predicate (clock 0)) keys [] s;
                      ((picked, s), env) = mixedExpiring strategy cursorKey predicate (clock 0) expiring s env
                  in case picked of
                       Some r \<Rightarrow> ((Inr r, s), env)
                     | None \<Rightarrow>
                         let ((picked, s), env) =
                               mixedStrategyPick strategy skey best predicate groups clock cursorKey keys s env
                         in case picked of
                              Some r \<Rightarrow> ((Inr r, s), env)
                            | None \<Rightarrow> unavailable s env)"

definition pickSingle ::
  "(string \<Rightarrow> string) \<Rightarrow> string \<Rightarrow> string \<Rightarrow> schedRequest \<Rightarrow> (nat \<Rightarrow> gotime) \<Rightarrow> authScheduler \<Rightarrow> limits_env \<Rightarrow>
     ((select_error + Auth) \<times> authScheduler) \<times> limits_env" where
  "pickSingle digest provider model req = pickSingleWithStrategy digest provider model req schedulerStrategyCurrent"

definition pickMixed ::
  "(string \<Rightarrow> string) \<Rightarrow> string list \<Rightarrow> string \<Rightarrow> schedRequest \<Rightarrow> (nat \<Rightarrow> gotime) \<Rightarrow> authScheduler \<Rightarrow> limits_env \<Rightarrow>
     ((select_error + Auth \<times> string) \<times> authScheduler) \<times> limits_env" where
  "pickMixed digest provs model req = pickMixedWithStrategy digest provs model req schedulerStrategyCurrent"

end
