(* ===== verification/SchedulerIndex.thy ===== *)
theory SchedulerIndex
  imports Scheduler
begin

text \<open>
  What the scheduler stores, seen from outside: one map from credential ids to metadata. The
  per-provider tables, the shards built on demand and their indexes are determined by it, up to the
  evaluated states of the entries, and every operation keeps them so.
\<close>

section \<open>The metadata in a shard\<close>

definition shard_metas :: "modelScheduler \<Rightarrow> string \<Rightarrow> scheduledAuthMeta option" where
  "shard_metas m i = map_option entryMeta (glookup (entries m) i)"

text \<open>A shard operation that only changes states, cursors and cached views.\<close>

definition same_shard :: "(string \<Rightarrow> string) \<Rightarrow> modelScheduler \<Rightarrow> modelScheduler \<Rightarrow> bool" where
  "same_shard digest m m' \<longleftrightarrow>
     shard_ok digest m' \<and> modelKey m' = modelKey m \<and> shard_metas m' = shard_metas m"

lemma same_shard_refl: "shard_ok digest m \<Longrightarrow> same_shard digest m m"
  by (simp add: same_shard_def)

lemma same_shard_trans: "same_shard digest a b \<Longrightarrow> same_shard digest b c \<Longrightarrow> same_shard digest a c"
  by (simp add: same_shard_def)

lemma same_shardI:
  "shard_ok digest m' \<Longrightarrow> modelKey m' = modelKey m \<Longrightarrow> entries m' = entries m \<Longrightarrow> same_shard digest m m'"
  by (simp add: same_shard_def shard_metas_def fun_eq_iff)

lemma same_shard_ok: "same_shard digest m m' \<Longrightarrow> shard_ok digest m'"
  by (simp add: same_shard_def)

lemma placeEntry_metas:
  "shard_metas (placeEntry digest e m) = (shard_metas m)(entryID e \<mapsto> entryMeta e)"
  "modelKey (placeEntry digest e m) = modelKey m"
  by (auto simp: shard_metas_def placeEntry_def Let_def glookup_put fun_eq_iff split: option.splits)

lemma upsertEntry_metas:
  assumes "upsertEntry digest meta now m env = (m', env')"
  shows "shard_metas m' = (shard_metas m)(ID (metaAuth meta) \<mapsto> meta)" "modelKey m' = modelKey m"
  using assms placeEntry_metas by (auto simp: upsertEntry_def split: prod.splits)

lemma removeEntry_metas:
  "i \<noteq> '''' \<Longrightarrow> shard_metas (removeEntry digest i m) = (shard_metas m)(i := None)"
  "modelKey (removeEntry digest i m) = modelKey m"
  by (auto simp: shard_metas_def removeEntry_def glookup_del fun_eq_iff split: option.splits)

lemma promoteLoop_metas:
  "promoteLoop key now ids store changed env = ((store', changed'), env') \<Longrightarrow>
   map_option entryMeta (glookup store' i) = map_option entryMeta (glookup store i)"
proof (induction key now ids store changed env rule: promoteLoop.induct)
  case (2 key now j ids store changed env)
  show ?case
  proof (cases "glookup store j")
    case (Some e)
    show ?thesis
    proof (cases "entryNextRetryAt e = zeroTime \<or> entryNextRetryAt e > now")
      case True
      then show ?thesis using 2(1,2,4) Some by auto
    next
      case False
      obtain res env1 where r: "isAuthBlockedForModel (Some (entryAuth e))
          (selectionModelForRoute (entryMeta e) key) now env = (res, env1)" by fastforce
      obtain state retry where s: "entryStateOf res = (state, retry)" by fastforce
      have "promoteLoop key now ids (gput j (e\<lparr>entryState := state, entryNextRetryAt := retry\<rparr>) store) True env1 =
          ((store', changed'), env')"
        using 2(4) Some False r s by simp
      then show ?thesis using 2(3) [OF Some False] r s Some by (auto simp: glookup_put)
    qed
  qed (use 2 in simp)
qed simp

lemma promoteExpired_same: "shard_ok digest m \<Longrightarrow> same_shard digest m (fst (promoteExpired digest now m env))"
proof -
  assume ok: "shard_ok digest m"
  obtain store changed env' where run:
    "promoteLoop (modelKey m) now (blockedQueue m) (entries m) False env = ((store, changed), env')"
    by (metis prod.collapse)
  have "shard_metas (fst (promoteExpired digest now m env)) = shard_metas m"
    using promoteLoop_metas [OF run] by (cases changed) (simp_all add: promoteExpired_def run shard_metas_def fun_eq_iff Let_def)
  moreover have "modelKey (fst (promoteExpired digest now m env)) = modelKey m"
    by (simp add: promoteExpired_def run Let_def)
  ultimately show ?thesis using promoteExpired_ok [OF ok] by (simp add: same_shard_def)
qed

lemma highestReadyPriority_same:
  assumes "shard_ok digest m" "groups_ok groups" "highestReadyPriority pref predicate groups m = (found, m')"
  shows "same_shard digest m m'"
  by (rule same_shardI) (use highestReadyPriority_ok(1-3) [OF assms(1,2) refl assms(3)] in simp_all)

lemma pickReadyAtPriority_same:
  assumes ok: "shard_ok digest m" "groups_ok groups"
    and run: "pickReadyAtPriority pref p strategy predicate groups now later m env = ((picked, m'), env')"
  shows "same_shard digest m m'" "entries m' = entries m"
proof -
  have "modelKey m' = modelKey m" "entries m' = entries m"
    using run by (auto simp: pickReadyAtPriority_def Let_def split: option.splits prod.splits)
  moreover have "shard_ok digest m'" using pickReadyAtPriority_keeps [OF ok] run by (metis fst_conv snd_conv)
  ultimately show "same_shard digest m m'" "entries m' = entries m" by (blast intro: same_shardI)+
qed

lemma readyCountAtPriority_same:
  assumes ok: "shard_ok digest m" "groups_ok groups"
    and run: "readyCountAtPriority pref p predicate groups m = (n, m')"
  shows "same_shard digest m m'" "entries m' = entries m"
proof -
  have "modelKey m' = modelKey m"
    using run by (auto simp: readyCountAtPriority_def Let_def split: option.splits prod.splits)
  then show "same_shard digest m m'" "entries m' = entries m"
    using readyCountAtPriority_ok(1,2) [OF ok refl run] by (blast intro: same_shardI)+
qed

lemma pickReady_same:
  assumes ok: "shard_ok digest m" "groups_ok groups"
    and run: "pickReady digest pref strategy predicate groups now0 now later m env = ((picked, m'), env')"
  shows "same_shard digest m m'" "entries m' = entries (fst (promoteExpired digest now0 m env))"
proof -
  obtain m1 env1 where m1: "promoteExpired digest now0 m env = (m1, env1)" by fastforce
  obtain found m2 where m2: "highestReadyPriority pref predicate groups m1 = (found, m2)" by fastforce
  have one: "same_shard digest m m1" using promoteExpired_same [OF ok(1), of now0 env] m1 by simp
  then have ok1: "shard_ok digest m1" by (rule same_shard_ok)
  have two: "same_shard digest m1 m2" "entries m2 = entries m1"
    using highestReadyPriority_same [OF ok1 ok(2) m2] highestReadyPriority_ok(2) [OF ok1 ok(2) refl m2] by simp_all
  have "same_shard digest m m' \<and> entries m' = entries m1"
  proof (cases found)
    case None
    then show ?thesis using run two same_shard_trans [OF one two(1)] by (simp add: pickReady_def m1 m2)
  next
    case (Some p)
    then have "pickReadyAtPriority pref p strategy predicate groups now later m2 env1 = ((picked, m'), env')"
      using run by (simp add: pickReady_def m1 m2)
    from pickReadyAtPriority_same [OF same_shard_ok [OF two(1)] ok(2) this] show ?thesis
      using two same_shard_trans [OF one two(1)] same_shard_trans by metis
  qed
  then show "same_shard digest m m'" "entries m' = entries (fst (promoteExpired digest now0 m env))"
    by (simp_all add: m1)
qed

lemma bucketView_same:
  assumes ok: "shard_ok digest m" "groups_ok groups"
    and b: "glookup (readyByPriority m) p = Some b" "bucketView (entries m) ws groups b = (ref, b')"
  shows "same_shard digest m (m\<lparr>readyByPriority := gput p b' (readyByPriority m)\<rparr>)"
proof -
  have idx: "index_of (summaries digest (entries m)) m" and eok: "entries_ok digest (entries m)"
    using ok by (simp_all add: shard_ok_def)
  obtain ids where ids: "sorted_wrt (<) ids" "set ids = ready_set (summaries digest (entries m)) p"
    "bucket_of_ids (summaries digest (entries m)) ids b'"
    by (rule bucketView_at [OF eok refl index_of_keeps [OF idx] b(1) ok(2) b(2)])
  have "buckets_of (summaries digest (entries m)) (gput p b' (readyByPriority m))"
    using buckets_put index_of_keeps [OF idx] ids by blast
  then have "shard_ok digest (m\<lparr>readyByPriority := gput p b' (readyByPriority m)\<rparr>)"
    using eok index_of_buckets [OF idx] keys_put_same [OF b(1)] by (simp add: shard_ok_def)
  then show ?thesis by (rule same_shardI) simp_all
qed

section \<open>The state of a scheduler\<close>

text \<open>The metadata of a credential of a provider, computed from the credential.\<close>

definition sched_meta :: "(string \<Rightarrow> string) \<Rightarrow> string \<Rightarrow> string \<Rightarrow> scheduledAuthMeta \<Rightarrow> bool" where
  "sched_meta digest key i meta \<longleftrightarrow>
     ID (metaAuth meta) = i \<and> i \<noteq> '''' \<and> trim_space i = i \<and> meta_ok digest meta \<and>
     providerKey meta = key \<and> executorKeyFromAuth (metaAuth meta) = key \<and>
     metaPriority meta = authPriority (Some (metaAuth meta)) \<and>
     metaWeight meta = authWeight (Some (metaAuth meta))"

definition supporting :: "string \<Rightarrow> (string \<Rightarrow> scheduledAuthMeta option) \<Rightarrow> string \<Rightarrow> scheduledAuthMeta option" where
  "supporting mkey metas i =
     (case metas i of None \<Rightarrow> None | Some meta \<Rightarrow> if supportsModel meta mkey then Some meta else None)"

definition provider_ok :: "(string \<Rightarrow> string) \<Rightarrow> string \<Rightarrow> providerScheduler \<Rightarrow> bool" where
  "provider_ok digest key p \<longleftrightarrow>
     gomap_ok (provAuths p) \<and> gomap_ok (modelShards p) \<and>
     (\<forall>i meta. glookup (provAuths p) i = Some meta \<longrightarrow> sched_meta digest key i meta) \<and>
     (\<forall>k m. glookup (modelShards p) k = Some m \<longrightarrow>
        shard_ok digest m \<and> modelKey m = k \<and> shard_metas m = supporting k (glookup (provAuths p)))"

text \<open>Every credential is at exactly the provider it is registered for.\<close>

definition sched_ok :: "(string \<Rightarrow> string) \<Rightarrow> authScheduler \<Rightarrow> bool" where
  "sched_ok digest s \<longleftrightarrow>
     gomap_ok (schedProviders s) \<and>
     (\<forall>key p. glookup (schedProviders s) key = Some p \<longrightarrow>
        provider_ok digest key p \<and>
        (\<forall>i. glookup (provAuths p) i \<noteq> None \<longleftrightarrow> glookup (authProviders s) i = Some key)) \<and>
     (\<forall>i key. glookup (authProviders s) i = Some key \<longrightarrow> key \<noteq> '''' \<and> glookup (schedProviders s) key \<noteq> None)"

definition credentials :: "authScheduler \<Rightarrow> string \<Rightarrow> scheduledAuthMeta option" where
  "credentials s i =
     (case glookup (authProviders s) i of
        None \<Rightarrow> None
      | Some key \<Rightarrow> (case glookup (schedProviders s) key of None \<Rightarrow> None | Some p \<Rightarrow> glookup (provAuths p) i))"

definition credentials_at :: "authScheduler \<Rightarrow> string \<Rightarrow> string \<Rightarrow> scheduledAuthMeta option" where
  "credentials_at s key i =
     (if glookup (authProviders s) i = Some key then credentials s i else None)"

lemma sched_okD:
  assumes "sched_ok digest s" "glookup (schedProviders s) key = Some p"
  shows "provider_ok digest key p" "glookup (provAuths p) i \<noteq> None \<longleftrightarrow> glookup (authProviders s) i = Some key"
  using assms by (auto simp: sched_ok_def)

lemma sched_ok_registered:
  assumes "sched_ok digest s" "glookup (authProviders s) i = Some key"
  obtains p where "glookup (schedProviders s) key = Some p" "key \<noteq> ''''"
  using assms unfolding sched_ok_def by blast

lemma credentials_at_provider:
  assumes "sched_ok digest s" "glookup (schedProviders s) key = Some p"
  shows "credentials_at s key = glookup (provAuths p)"
proof (rule ext)
  show "credentials_at s key i = glookup (provAuths p) i" for i
    using sched_okD(2) [OF assms, of i] assms(2)
    by (cases "glookup (provAuths p) i") (auto simp: credentials_at_def credentials_def)
qed

lemma credentials_registered: "sched_ok digest s \<Longrightarrow> credentials s i = None \<longleftrightarrow> glookup (authProviders s) i = None"
proof (cases "glookup (authProviders s) i")
  case (Some key)
  assume ok: "sched_ok digest s"
  obtain p where p: "glookup (schedProviders s) key = Some p" by (rule sched_ok_registered [OF ok Some])
  then have "glookup (provAuths p) i \<noteq> None" using sched_okD(2) [OF ok p] Some by blast
  then show ?thesis using Some p by (simp add: credentials_def)
qed (simp add: credentials_def)

lemma credentials_meta:
  assumes "sched_ok digest s" "credentials_at s key i = Some meta"
  shows "sched_meta digest key i meta" "credentials s i = Some meta"
proof -
  have reg: "glookup (authProviders s) i = Some key" "credentials s i = Some meta"
    using assms(2) by (auto simp: credentials_at_def split: if_splits)
  then obtain p where p: "glookup (schedProviders s) key = Some p" "glookup (provAuths p) i = Some meta"
    by (auto simp: credentials_def split: option.splits)
  show "sched_meta digest key i meta" "credentials s i = Some meta"
    using sched_okD(1) [OF assms(1) p(1)] p(2) reg(2) by (auto simp: provider_ok_def)
qed

lemma provider_ok_new [simp]: "provider_ok digest key (newProvider key)"
  by (simp add: provider_ok_def newProvider_def)

lemma sched_ok_new [simp]: "sched_ok digest (newAuthScheduler sel)"
  by (simp add: sched_ok_def newAuthScheduler_def)

lemma sched_ok_frame:
  assumes "sched_ok digest s" "schedProviders s' = schedProviders s" "authProviders s' = authProviders s"
  shows "sched_ok digest s'" "credentials s' = credentials s" "credentials_at s' = credentials_at s" "shardAt s' = shardAt s"
proof -
  show "sched_ok digest s'" using assms by (simp add: sched_ok_def)
  show c: "credentials s' = credentials s" by (rule ext) (simp only: credentials_def assms(2,3))
  show "shardAt s' = shardAt s" by (rule ext, rule ext) (simp only: shardAt_def assms(2))
  show "credentials_at s' = credentials_at s"
    by (rule ext, rule ext) (simp only: credentials_at_def assms(3) c)
qed

section \<open>One provider\<close>

lemma upsertShards_spec:
  assumes "upsertShards digest meta now shards env = (shards', env')" "meta_ok digest meta" "ID (metaAuth meta) \<noteq> ''''"
  shows "map fst shards' = map fst shards \<and>
    (\<forall>k m'. glookup shards' k = Some m' \<longrightarrow>
       (\<exists>m. glookup shards k = Some m \<and> modelKey m' = modelKey m \<and> (shard_ok digest m \<longrightarrow> shard_ok digest m') \<and>
          shard_metas m' = (shard_metas m)(ID (metaAuth meta) := if supportsModel meta k then Some meta else None)))"
  using assms(1)
proof (induction shards arbitrary: env env' shards')
  case Nil
  then show ?case by simp
next
  case (Cons x shards)
  obtain k m where x: "x = (k, m)" by fastforce
  obtain m1 env1 where one: "(if supportsModel meta k then upsertEntry digest meta now m env
      else (removeEntry digest (ID (metaAuth meta)) m, env)) = (m1, env1)" by fastforce
  obtain rest env2 where rest: "upsertShards digest meta now shards env1 = (rest, env2)" by fastforce
  have s': "shards' = (k, m1) # rest" using Cons.prems x one rest by simp
  have m1: "modelKey m1 = modelKey m" "shard_ok digest m \<longrightarrow> shard_ok digest m1"
    "shard_metas m1 = (shard_metas m)(ID (metaAuth meta) := if supportsModel meta k then Some meta else None)"
    using one upsertEntry_metas [of digest meta now m env m1 env1] removeEntry_metas(1) [OF assms(3), of digest m]
      upsertEntry_ok [of digest m meta now env] removeEntry_ok [of digest m "ID (metaAuth meta)"] assms(2)
    by (auto split: if_splits simp: removeEntry_metas(2))
  show ?case using Cons.IH [OF rest] m1 by (auto simp: s' x)
qed

lemma supporting_put:
  "supporting k (m(i \<mapsto> meta)) = (supporting k m)(i := if supportsModel meta k then Some meta else None)"
  by (auto simp: supporting_def fun_eq_iff)

lemma supporting_del: "supporting k (m(i := None)) = (supporting k m)(i := None)"
  by (auto simp: supporting_def fun_eq_iff)

lemma glookup_put_fun: "glookup (gput k v m) = (glookup m)(k \<mapsto> v)"
  by (auto simp: glookup_put fun_eq_iff)

lemma glookup_del_fun: "glookup (gdel k m) = (glookup m)(k := None)"
  by (auto simp: glookup_del fun_eq_iff)

lemma providerUpsertAuth_ok:
  assumes ok: "provider_ok digest key p" and meta: "sched_meta digest key (ID (metaAuth meta)) meta"
    and run: "providerUpsertAuth digest meta now p env = (p', env')"
  shows "provider_ok digest key p'" "provAuths p' = gput (ID (metaAuth meta)) meta (provAuths p)"
proof -
  obtain shards where up: "upsertShards digest meta now (modelShards p) env = (shards, env')"
    and p': "p' = p\<lparr>provAuths := gput (ID (metaAuth meta)) meta (provAuths p), modelShards := shards\<rparr>"
    using run by (auto simp: providerUpsertAuth_def split: prod.splits)
  have mok: "meta_ok digest meta" "ID (metaAuth meta) \<noteq> ''''" using meta by (auto simp: sched_meta_def)
  note spec = upsertShards_spec [OF up mok]
  show "provAuths p' = gput (ID (metaAuth meta)) meta (provAuths p)" by (simp add: p')
  have "gomap_ok shards" using ok spec by (simp add: provider_ok_def gomap_ok_def)
  moreover have "shard_ok digest m \<and> modelKey m = k \<and>
      shard_metas m = supporting k (glookup (gput (ID (metaAuth meta)) meta (provAuths p)))"
    if at: "glookup shards k = Some m" for k m
  proof -
    let ?i = "ID (metaAuth meta)"
    obtain m0 where m0: "glookup (modelShards p) k = Some m0" "modelKey m = modelKey m0"
      "shard_ok digest m0 \<longrightarrow> shard_ok digest m"
      "shard_metas m = (shard_metas m0)(?i := if supportsModel meta k then Some meta else None)"
      using spec [THEN conjunct2, rule_format, OF at] by blast
    then have "shard_ok digest m0" "modelKey m0 = k" "shard_metas m0 = supporting k (glookup (provAuths p))"
      using ok by (auto simp: provider_ok_def)
    then show ?thesis using m0 by (simp only: glookup_put_fun supporting_put)
  qed
  moreover have "sched_meta digest key j x" if "glookup (gput (ID (metaAuth meta)) meta (provAuths p)) j = Some x" for j x
    using that ok meta by (auto simp: provider_ok_def glookup_put split: if_splits)
  ultimately show "provider_ok digest key p'" using ok by (simp add: provider_ok_def p')
qed

lemma providerRemoveAuth_ok:
  assumes ok: "provider_ok digest key p" and i: "i \<noteq> ''''"
  shows "provider_ok digest key (providerRemoveAuth digest i p)"
    "provAuths (providerRemoveAuth digest i p) = gdel i (provAuths p)"
proof -
  let ?shards = "map (\<lambda>(k, m). (k, removeEntry digest i m)) (modelShards p)"
  have look: "glookup ?shards k = map_option (removeEntry digest i) (glookup (modelShards p) k)" for k
    by (induction "modelShards p") (auto simp: map_of_map [where f = "removeEntry digest i"])
  have keys: "map fst ?shards = map fst (modelShards p)" by (simp add: comp_def case_prod_unfold)
  have gok: "gomap_ok ?shards" using ok unfolding gomap_ok_def keys by (simp add: provider_ok_def gomap_ok_def)
  have sup: "supporting k (glookup (gdel i (provAuths p))) = (supporting k (glookup (provAuths p)))(i := None)" for k
    by (simp only: glookup_del_fun supporting_del)
  have shards: "shard_ok digest m \<and> modelKey m = k \<and> shard_metas m = supporting k (glookup (gdel i (provAuths p)))"
    if at: "glookup ?shards k = Some m" for k m
  proof -
    obtain m0 where m0: "glookup (modelShards p) k = Some m0" "m = removeEntry digest i m0"
      using at by (auto simp: look)
    then have "shard_ok digest m0" "modelKey m0 = k" "shard_metas m0 = supporting k (glookup (provAuths p))"
      using ok by (auto simp: provider_ok_def)
    then show ?thesis using removeEntry_metas(1) [OF i, of digest m0] removeEntry_ok
      by (simp only: m0(2) sup removeEntry_metas(2))
  qed
  have "sched_meta digest key j meta" if "glookup (gdel i (provAuths p)) j = Some meta" for j meta
    using that ok by (auto simp: provider_ok_def glookup_del split: if_splits)
  then show "provider_ok digest key (providerRemoveAuth digest i p)"
    using ok i gok shards unfolding provider_ok_def providerRemoveAuth_def by simp
  show "provAuths (providerRemoveAuth digest i p) = gdel i (provAuths p)" by (simp add: providerRemoveAuth_def i)
qed

section \<open>Insertion and removal\<close>

lemma sched_ok_cong:
  assumes "schedProviders s' = schedProviders s" "glookup (authProviders s') = glookup (authProviders s)"
  shows "sched_ok digest s' = sched_ok digest s" "credentials s' = credentials s"
proof -
  show "sched_ok digest s' = sched_ok digest s" by (simp only: sched_ok_def assms)
  show "credentials s' = credentials s" by (rule ext) (simp only: credentials_def assms)
qed

lemma credentials_at_all: "credentials s i = (case glookup (authProviders s) i of None \<Rightarrow> None | Some key \<Rightarrow> credentials_at s key i)"
  by (simp add: credentials_at_def credentials_def split: option.splits)

lemma provider_at_ok:
  assumes "sched_ok digest s"
  shows "provider_ok digest key (providerAt s key)" "glookup (provAuths (providerAt s key)) = credentials_at s key"
proof -
  have "provider_ok digest key (providerAt s key) \<and> glookup (provAuths (providerAt s key)) = credentials_at s key"
  proof (cases "glookup (schedProviders s) key")
    case None
    then have "credentials_at s key = (\<lambda>_. None)" using assms
      by (auto simp: credentials_at_def fun_eq_iff elim: sched_ok_registered)
    then show ?thesis using None by (simp add: providerAt_def newProvider_def provider_ok_def)
  next
    case (Some p)
    then show ?thesis using sched_okD(1) [OF assms Some] credentials_at_provider [OF assms Some]
      by (simp add: providerAt_def)
  qed
  then show "provider_ok digest key (providerAt s key)" "glookup (provAuths (providerAt s key)) = credentials_at s key"
    by blast+
qed

text \<open>One provider's table and the registrations of its credentials are replaced together.\<close>

lemma sched_put_provider:
  assumes ok: "sched_ok digest s" and p: "provider_ok digest key p" and key: "key \<noteq> ''''"
    and reg: "\<And>i. glookup A i = Some key \<longleftrightarrow> glookup (provAuths p) i \<noteq> None"
    and other: "\<And>i k. k \<noteq> key \<Longrightarrow> glookup A i = Some k \<longleftrightarrow> glookup (authProviders s) i = Some k"
    and s': "schedProviders s' = gput key p (schedProviders s)" "authProviders s' = A"
  shows "sched_ok digest s'"
    "credentials s' i = (if glookup A i = Some key then glookup (provAuths p) i
                         else if glookup (authProviders s) i = Some key then None else credentials s i)"
proof -
  have look: "glookup (schedProviders s') k = (if k = key then Some p else glookup (schedProviders s) k)" for k
    by (simp add: s' glookup_put)
  show "sched_ok digest s'"
    unfolding sched_ok_def look s'(2)
  proof (intro conjI allI impI)
    show "gomap_ok (schedProviders s')" using ok by (simp add: s' sched_ok_def)
    show "provider_ok digest k q" if "(if k = key then Some p else glookup (schedProviders s) k) = Some q" for k q
      using that p sched_okD(1) [OF ok] by (auto split: if_splits)
    show "glookup (provAuths q) i \<noteq> None \<longleftrightarrow> glookup A i = Some k"
      if "(if k = key then Some p else glookup (schedProviders s) k) = Some q" for k q i
      using that reg [of i] other [of k i] sched_okD(2) [OF ok, of k q i] by (auto split: if_splits)
    show "k \<noteq> ''''" "(if k = key then Some p else glookup (schedProviders s) k) \<noteq> None"
      if "glookup A i = Some k" for i k
      using that key other [of k i] by (auto elim: sched_ok_registered [OF ok])
  qed
  show "credentials s' i = (if glookup A i = Some key then glookup (provAuths p) i
                         else if glookup (authProviders s) i = Some key then None else credentials s i)"
  proof (cases "glookup A i")
    case None
    then have "glookup (authProviders s) i = None \<or> glookup (authProviders s) i = Some key"
      using other [of _ i] by (cases "glookup (authProviders s) i") auto
    then show ?thesis using None by (auto simp: credentials_def s'(2))
  next
    case (Some k)
    then show ?thesis
      using other [of k i] by (cases "k = key") (auto simp: credentials_def s'(2) look)
  qed
qed

lemma removeAuthLocked_ok:
  assumes ok: "sched_ok digest s" and i: "i \<noteq> ''''"
  shows "sched_ok digest (removeAuthLocked digest i s)"
    "credentials (removeAuthLocked digest i s) = (credentials s)(i := None)"
    "glookup (authProviders (removeAuthLocked digest i s)) i = None"
proof -
  let ?s = "removeAuthLocked digest i s"
  have all: "sched_ok digest ?s \<and> credentials ?s = (credentials s)(i := None) \<and> glookup (authProviders ?s) i = None"
  proof (cases "glookup (authProviders s) i")
    case None
    then have "?s = s" "credentials s i = None" using i by (simp_all add: removeAuthLocked_def credentials_def)
    then show ?thesis using ok None by (auto simp: fun_eq_iff)
  next
    case (Some key)
    obtain p where p: "glookup (schedProviders s) key = Some p" "key \<noteq> ''''"
      by (rule sched_ok_registered [OF ok Some])
    let ?p = "providerRemoveAuth digest i p" and ?A = "gdel i (authProviders s)"
    note rem = providerRemoveAuth_ok [OF sched_okD(1) [OF ok p(1)] i]
    have s': "schedProviders ?s = gput key ?p (schedProviders s)" "authProviders ?s = ?A"
      using i Some p by (simp_all add: removeAuthLocked_def removeFromProvider_def)
    have reg: "glookup ?A j = Some key \<longleftrightarrow> glookup (provAuths ?p) j \<noteq> None" for j
      using sched_okD(2) [OF ok p(1), of j] by (auto simp: rem(2) glookup_del)
    have other: "glookup ?A j = Some k \<longleftrightarrow> glookup (authProviders s) j = Some k" if "k \<noteq> key" for j k
      using that Some by (auto simp: glookup_del)
    note put = sched_put_provider [OF ok rem(1) p(2) reg other s']
    have "credentials ?s j = ((credentials s)(i := None)) j" for j
      using put(2) [of j] p(1) Some by (auto simp: glookup_del rem(2) credentials_def)
    then show ?thesis using put(1) s' by (auto simp: glookup_del fun_eq_iff)
  qed
  then show "sched_ok digest ?s" "credentials ?s = (credentials s)(i := None)" "glookup (authProviders ?s) i = None"
    by blast+
qed

lemma upsert_core:
  assumes ok: "sched_ok digest s" and meta: "sched_meta digest key (ID (metaAuth meta)) meta" and key: "key \<noteq> ''''"
    and reg: "glookup (authProviders s) (ID (metaAuth meta)) \<in> {None, Some key}"
    and run: "providerUpsertAuth digest meta now (providerAt s key) env = (p, env')"
    and s': "schedProviders s' = gput key p (schedProviders s)"
      "glookup (authProviders s') = (glookup (authProviders s))(ID (metaAuth meta) \<mapsto> key)"
  shows "sched_ok digest s'" "credentials s' = (credentials s)(ID (metaAuth meta) \<mapsto> meta)"
proof -
  let ?i = "ID (metaAuth meta)"
  note at = provider_at_ok [OF ok, of key]
  note up = providerUpsertAuth_ok [OF at(1) meta run]
  have r: "glookup (authProviders s') j = Some key \<longleftrightarrow> glookup (provAuths p) j \<noteq> None" for j
    using credentials_registered [OF ok, of j]
    by (auto simp: s'(2) up(2) glookup_put_fun at(2) credentials_at_def)
  have o: "glookup (authProviders s') j = Some k \<longleftrightarrow> glookup (authProviders s) j = Some k" if "k \<noteq> key" for j k
    using that reg by (auto simp: s'(2))
  note put = sched_put_provider [OF ok up(1) key r o s'(1) refl]
  show "sched_ok digest s'" by (rule put(1))
  have "credentials s' j = ((credentials s)(?i \<mapsto> meta)) j" for j
    using put(2) [of j] by (auto simp: s'(2) up(2) glookup_put_fun at(2) credentials_at_def)
  then show "credentials s' = (credentials s)(?i \<mapsto> meta)" by (rule ext)
qed

text \<open>What an insertion does to the map of credentials.\<close>

definition upserted_meta ::
  "(string \<Rightarrow> string) \<Rightarrow> model_registry \<Rightarrow> selection_resolver option \<Rightarrow> (string, string) gomap option \<Rightarrow> Auth \<Rightarrow>
     scheduledAuthMeta" where
  "upserted_meta digest models resolve selection auth =
     buildScheduledAuthMetaWithSelectionModels digest models
       (case selection of None \<Rightarrow> selectionModelsForAuth models resolve auth | Some m \<Rightarrow> Some m) auth"

definition spec_upsert ::
  "(string \<Rightarrow> string) \<Rightarrow> model_registry \<Rightarrow> selection_resolver option \<Rightarrow> (string, string) gomap option \<Rightarrow>
     Auth option \<Rightarrow> (string \<Rightarrow> scheduledAuthMeta option) \<Rightarrow> string \<Rightarrow> scheduledAuthMeta option" where
  "spec_upsert digest models resolve selection auth M =
     (case auth of
        None \<Rightarrow> M
      | Some a \<Rightarrow> M(ID a := if executorKeyFromAuth a = '''' \<or> Disabled a \<or> ID a = '''' then None
                             else Some (upserted_meta digest models resolve selection a)))"

definition trimmed_id :: "Auth option \<Rightarrow> bool" where
  "trimmed_id auth \<longleftrightarrow> (case auth of None \<Rightarrow> True | Some a \<Rightarrow> trim_space (ID a) = ID a)"

lemma upserted_meta_ok:
  assumes "ID a \<noteq> ''''" "trim_space (ID a) = ID a"
  shows "ID (metaAuth (upserted_meta digest models resolve selection a)) = ID a"
    "metaAuth (upserted_meta digest models resolve selection a) = a"
    "sched_meta digest (executorKeyFromAuth a) (ID a) (upserted_meta digest models resolve selection a)"
  using assms
  by (simp_all add: sched_meta_def upserted_meta_def buildScheduledAuthMetaWithSelectionModels_def meta_ok_def Let_def)

lemma credentials_empty_id: "sched_ok digest s \<Longrightarrow> credentials s '''' = None"
proof (rule ccontr)
  assume ok: "sched_ok digest s" and "credentials s '''' \<noteq> None"
  then obtain key where key: "glookup (authProviders s) '''' = Some key" by (auto simp: credentials_def split: option.splits)
  obtain p where p: "glookup (schedProviders s) key = Some p" by (rule sched_ok_registered [OF ok key])
  then obtain meta where "glookup (provAuths p) '''' = Some meta" using sched_okD(2) [OF ok p, of "''''"] key by auto
  then show False using sched_okD(1) [OF ok p] by (auto simp: provider_ok_def sched_meta_def)
qed

lemma removeAuthLocked_empty [simp]: "removeAuthLocked digest '''' s = s"
  by (simp add: removeAuthLocked_def)

lemma removeFromProvider_removed:
  assumes "registered_provider s i \<noteq> ''''" "i \<noteq> ''''"
  shows "schedProviders (removeFromProvider digest (registered_provider s i) i s) = schedProviders (removeAuthLocked digest i s)"
    "authProviders (removeFromProvider digest key i s) = authProviders s"
    "authProviders (removeAuthLocked digest i s) = gdel i (authProviders s)"
    "selectionModelForAuth (removeFromProvider digest key i s) = selectionModelForAuth s"
    "selectionModelForAuth (removeAuthLocked digest i s) = selectionModelForAuth s"
  using assms by (auto simp: removeAuthLocked_def removeFromProvider_def Let_def split: option.splits)

lemma removeFromProvider_resolver [simp]: "selectionModelForAuth (removeFromProvider digest key i s) = selectionModelForAuth s"
  by (simp add: removeFromProvider_def split: option.splits)

lemma removeAuthLocked_resolver [simp]: "selectionModelForAuth (removeAuthLocked digest i s) = selectionModelForAuth s"
  by (auto simp: removeAuthLocked_def removeFromProvider_def Let_def split: option.splits)

lemma upsertAuth_ok:
  assumes ok: "sched_ok digest s" and trimmed: "trimmed_id auth"
    and run: "upsertAuth digest models auth now selection s env = (s', env')"
  shows "sched_ok digest s'"
    "credentials s' = spec_upsert digest models (selectionModelForAuth s) selection auth (credentials s)"
    "selectionModelForAuth s' = selectionModelForAuth s"
proof -
  have all: "sched_ok digest s' \<and>
    credentials s' = spec_upsert digest models (selectionModelForAuth s) selection auth (credentials s) \<and>
    selectionModelForAuth s' = selectionModelForAuth s"
  proof (cases auth)
    case None
    then show ?thesis using run ok by (simp add: upsertAuth_def spec_upsert_def)
  next
    case (Some a)
    let ?i = "ID a" and ?key = "executorKeyFromAuth a"
    have trim: "trim_space ?i = ?i" using trimmed Some by (simp add: trimmed_id_def)
    show ?thesis
    proof (cases "?i = '''' \<or> ?key = '''' \<or> Disabled a")
      case True
      then have s': "s' = removeAuthLocked digest ?i s" using run Some trim by (simp add: upsertAuth_def Let_def)
      show ?thesis
      proof (cases "?i = ''''")
        case True
        then show ?thesis using s' ok credentials_empty_id [OF ok] Some by (auto simp: spec_upsert_def fun_eq_iff)
      next
        case False
        then show ?thesis using s' removeAuthLocked_ok [OF ok False] Some True by (auto simp: spec_upsert_def)
      qed
    next
      case False
      then have ne: "?i \<noteq> ''''" "?key \<noteq> ''''" by simp_all
      let ?meta = "upserted_meta digest models (selectionModelForAuth s) selection a"
      let ?prev = "registered_provider s ?i"
      let ?moved = "?prev \<noteq> '''' \<and> ?prev \<noteq> ?key"
      define s1 where "s1 = (if ?moved then removeFromProvider digest ?prev ?i s else s)"
      define s2 where "s2 = (if ?moved then removeAuthLocked digest ?i s else s)"

      have s12: "schedProviders s1 = schedProviders s2" "authProviders s1 = authProviders s"
        "selectionModelForAuth s1 = selectionModelForAuth s"
        using removeFromProvider_removed [OF _ ne(1)] by (simp_all add: s1_def s2_def)
      have run': "upsertAuth digest models auth now selection s env =
          (let (p, env') = providerUpsertAuth digest ?meta now (providerAt s1 ?key) env
           in (s1\<lparr>authProviders := gput ?i ?key (authProviders s1), schedProviders := gput ?key p (schedProviders s1)\<rparr>, env'))"
        using False trim Some
        by (cases ?moved; cases selection) (auto simp: upsertAuth_def upserted_meta_def s1_def Let_def)
      obtain p where p: "providerUpsertAuth digest ?meta now (providerAt s1 ?key) env = (p, env')"
        and s': "s' = s1\<lparr>authProviders := gput ?i ?key (authProviders s1), schedProviders := gput ?key p (schedProviders s1)\<rparr>"
        using run unfolding run' by (auto split: prod.splits)
      have p2: "providerUpsertAuth digest ?meta now (providerAt s2 ?key) env = (p, env')"
        using p s12(1) by (simp add: providerAt_def)
      note m = upserted_meta_ok [OF ne(1) trim, of digest models "selectionModelForAuth s" selection]
      have ok2: "sched_ok digest s2" "credentials s2 = (if ?moved then (credentials s)(?i := None) else credentials s)"
        using removeAuthLocked_ok [OF ok ne(1)] ok by (simp_all add: s2_def)
      have reg: "glookup (authProviders s2) (ID (metaAuth ?meta)) \<in> {None, Some ?key}"
      proof (cases ?moved)
        case True
        then show ?thesis using removeAuthLocked_ok(3) [OF ok ne(1)] m(1) by (simp add: s2_def)
      next
        case False
        have "?prev \<noteq> ''''" if "glookup (authProviders s) ?i = Some k" for k
          using sched_ok_registered [OF ok that] that by auto
        with False show ?thesis using m(1) by (cases "glookup (authProviders s) ?i") (auto simp: s2_def)
      qed
      have lk: "glookup (authProviders s') = (glookup (authProviders s2))(ID (metaAuth ?meta) \<mapsto> ?key)"
        using removeFromProvider_removed(3) [OF _ ne(1)] m(1)
        by (auto simp: s' s12(2) s2_def glookup_put_fun glookup_del_fun fun_eq_iff)
      note core = upsert_core [OF ok2(1) m(3) [folded m(1)] ne(2) reg p2 _ lk]
      have "schedProviders s' = gput ?key p (schedProviders s2)" by (simp add: s' s12(1))
      from core [OF this] show ?thesis
        using ok2(2) Some ne m(1) s12(3) False by (auto simp: spec_upsert_def s')
    qed
  qed
  then show "sched_ok digest s'"
    "credentials s' = spec_upsert digest models (selectionModelForAuth s) selection auth (credentials s)"
    "selectionModelForAuth s' = selectionModelForAuth s" by blast+
qed

section \<open>Shards on demand\<close>

lemma supporting_Cons:
  "supporting k (glookup ((i, meta) # metas)) =
     (supporting k (glookup metas))(i := if supportsModel meta k then Some meta else None)"
  by (auto simp: supporting_def fun_eq_iff)

lemma fillShard_ok:
  assumes "fillShard digest k now metas shard env = (m, env')" "gomap_ok metas"
    and "\<forall>i meta. glookup metas i = Some meta \<longrightarrow> sched_meta digest key i meta" and "shard_ok digest shard"
  shows "shard_ok digest m" "modelKey m = modelKey shard"
    "shard_metas m i = (case supporting k (glookup metas) i of Some x \<Rightarrow> Some x | None \<Rightarrow> shard_metas shard i)"
proof -
  have "shard_ok digest m \<and> modelKey m = modelKey shard \<and>
    (\<forall>i. shard_metas m i = (case supporting k (glookup metas) i of Some x \<Rightarrow> Some x | None \<Rightarrow> shard_metas shard i))"
    using assms
  proof (induction metas arbitrary: shard env)
    case Nil
    then show ?case by (simp add: supporting_def)
  next
    case (Cons x metas)
    obtain i meta where x: "x = (i, meta)" by fastforce
    have new: "glookup metas i = None" and gok: "gomap_ok metas"
      using Cons.prems(2) by (auto simp: gomap_ok_def x map_of_eq_None_iff)
    have metas: "\<forall>j mm. glookup metas j = Some mm \<longrightarrow> sched_meta digest key j mm"
    proof (intro allI impI)
      fix j mm assume j: "glookup metas j = Some mm"
      then have "glookup (x # metas) j = Some mm" using new by (auto simp: x)
      then show "sched_meta digest key j mm" using Cons.prems(3) by blast
    qed
    have meta: "sched_meta digest key i meta" using Cons.prems(3) by (simp add: x)
    show ?case
    proof (cases "supportsModel meta k")
      case False
      then have run: "fillShard digest k now metas shard env = (m, env')" using Cons.prems(1) by (simp add: x)
      from Cons.IH [OF run gok metas Cons.prems(4)] False new show ?thesis
        by (auto simp: x supporting_Cons supporting_def split: option.splits)
    next
      case True
      obtain s1 env1 where up: "upsertEntry digest meta now shard env = (s1, env1)" by fastforce
      have run: "fillShard digest k now metas s1 env1 = (m, env')" using Cons.prems(1) True up by (simp add: x)
      have i: "ID (metaAuth meta) = i" "meta_ok digest meta" using meta by (simp_all add: sched_meta_def)
      have s1: "shard_ok digest s1" using upsertEntry_ok [OF Cons.prems(4) i(2), of now env] up by simp
      note um = upsertEntry_metas [OF up, unfolded i(1)]
      from Cons.IH [OF run gok metas s1] True new um show ?thesis
        by (auto simp: x supporting_Cons supporting_def split: option.splits)
    qed
  qed
  then show "shard_ok digest m" "modelKey m = modelKey shard"
    "shard_metas m i = (case supporting k (glookup metas) i of Some x \<Rightarrow> Some x | None \<Rightarrow> shard_metas shard i)"
    by blast+
qed

lemma ensureModel_ok:
  assumes ok: "provider_ok digest key p" and run: "ensureModel digest model now p env = ((m, p'), env')"
  shows "provider_ok digest key p'" "provAuths p' = provAuths p"
    "glookup (modelShards p') (canonicalModelKey model) = Some m"
proof -
  let ?k = "canonicalModelKey model"
  have p': "p' = p\<lparr>modelShards := gput ?k m (modelShards p)\<rparr>"
    and m: "(case glookup (modelShards p) ?k of Some shard \<Rightarrow> promoteExpired digest now shard env
       | None \<Rightarrow> fillShard digest ?k now (provAuths p) (emptyShard ?k) env) = (m, env')"
    using run by (auto simp: ensureModel_def Let_def split: prod.splits)
  have new: "shard_ok digest m \<and> modelKey m = ?k \<and> shard_metas m = supporting ?k (glookup (provAuths p))"
  proof (cases "glookup (modelShards p) ?k")
    case None
    then have run: "fillShard digest ?k now (provAuths p) (emptyShard ?k) env = (m, env')" using m by simp
    have "gomap_ok (provAuths p)" "\<forall>i meta. glookup (provAuths p) i = Some meta \<longrightarrow> sched_meta digest key i meta"
      using ok by (auto simp: provider_ok_def)
    note fill = fillShard_ok [OF run this shard_ok_empty]
    have "shard_metas m i = supporting ?k (glookup (provAuths p)) i" for i
      using fill(3) [of i] by (simp add: shard_metas_def emptyShard_def split: option.splits)
    then show ?thesis using fill(1,2) by (simp add: fun_eq_iff emptyShard_def)
  next
    case (Some shard)
    then have "shard_ok digest shard" "modelKey shard = ?k" "shard_metas shard = supporting ?k (glookup (provAuths p))"
      using ok by (auto simp: provider_ok_def)
    then show ?thesis using promoteExpired_same [of digest shard now env] Some m by (simp add: same_shard_def)
  qed
  show "provAuths p' = provAuths p" "glookup (modelShards p') ?k = Some m" by (simp_all add: p' glookup_put)
  show "provider_ok digest key p'"
    using ok new by (auto simp: provider_ok_def p' glookup_put split: if_splits)
qed

text \<open>An operation on the scheduler that leaves the credentials alone.\<close>

definition same_sched :: "(string \<Rightarrow> string) \<Rightarrow> authScheduler \<Rightarrow> authScheduler \<Rightarrow> bool" where
  "same_sched digest s s' \<longleftrightarrow>
     sched_ok digest s' \<and> authProviders s' = authProviders s \<and> credentials s' = credentials s \<and>
     fst ` set (schedProviders s') = fst ` set (schedProviders s)"

lemma same_sched_refl: "sched_ok digest s \<Longrightarrow> same_sched digest s s"
  by (simp add: same_sched_def)

lemma same_sched_trans: "same_sched digest a b \<Longrightarrow> same_sched digest b c \<Longrightarrow> same_sched digest a c"
  by (simp add: same_sched_def)

lemma same_sched_ok: "same_sched digest s s' \<Longrightarrow> sched_ok digest s'"
  by (simp add: same_sched_def)

lemma same_sched_at: "same_sched digest s s' \<Longrightarrow> credentials_at s' = credentials_at s"
  by (rule ext, rule ext) (simp add: same_sched_def credentials_at_def)

lemma same_sched_known:
  "same_sched digest s s' \<Longrightarrow> glookup (schedProviders s') key = None \<longleftrightarrow> glookup (schedProviders s) key = None"
  by (simp add: same_sched_def map_of_eq_None_iff)

lemma same_sched_provider:
  assumes ok: "sched_ok digest s" and p: "glookup (schedProviders s) key = Some p"
    and new: "provider_ok digest key p'" "glookup (provAuths p') = glookup (provAuths p)"
    and s': "schedProviders s' = gput key p' (schedProviders s)" "authProviders s' = authProviders s"
  shows "same_sched digest s s'"
proof -
  have ne: "key \<noteq> ''''" if "glookup (authProviders s) i = Some key" for i
    by (rule sched_ok_registered [OF ok that]) simp
  have look: "glookup (schedProviders s') k = (if k = key then Some p' else glookup (schedProviders s) k)" for k
    by (simp add: s' glookup_put)
  have ok': "sched_ok digest s'"
    unfolding sched_ok_def look s'(2)
  proof (intro conjI allI impI)
    show "gomap_ok (schedProviders s')" using ok by (simp add: s' sched_ok_def)
    show "provider_ok digest k q" if "(if k = key then Some p' else glookup (schedProviders s) k) = Some q" for k q
      using that new sched_okD(1) [OF ok] by (auto split: if_splits)
    show "glookup (provAuths q) i \<noteq> None \<longleftrightarrow> glookup (authProviders s) i = Some k"
      if "(if k = key then Some p' else glookup (schedProviders s) k) = Some q" for k q i
      using that new(2) sched_okD(2) [OF ok p, of i] sched_okD(2) [OF ok, of k q i] by (auto split: if_splits)
    show "k \<noteq> ''''" "(if k = key then Some p' else glookup (schedProviders s) k) \<noteq> None"
      if "glookup (authProviders s) i = Some k" for i k
      using that by (auto elim: sched_ok_registered [OF ok])
  qed
  have "credentials s' i = credentials s i" for i
    using p new(2) by (auto simp: credentials_def s'(2) look split: option.splits)
  then have "credentials s' = credentials s" by (rule ext)
  moreover have "fst ` set (schedProviders s') = fst ` set (schedProviders s)"
    using keys_put_same [OF p] by (simp add: s')
  ultimately show ?thesis using ok' s'(2) by (simp add: same_sched_def)
qed

lemma ensureShard_ok:
  assumes ok: "sched_ok digest s" and run: "ensureShard digest key model now s env = ((found, s'), env')"
  shows "same_sched digest s s'"
    "case found of None \<Rightarrow> glookup (schedProviders s) key = None
     | Some m \<Rightarrow> shard_ok digest m \<and> shardAt s' key (canonicalModelKey model) = Some m \<and>
         modelKey m = canonicalModelKey model \<and>
         shard_metas m = supporting (canonicalModelKey model) (credentials_at s key)"
proof -
  have both: "same_sched digest s s' \<and> (case found of None \<Rightarrow> glookup (schedProviders s) key = None
     | Some m \<Rightarrow> shard_ok digest m \<and> shardAt s' key (canonicalModelKey model) = Some m \<and>
         modelKey m = canonicalModelKey model \<and>
         shard_metas m = supporting (canonicalModelKey model) (credentials_at s key))"
  proof (cases "glookup (schedProviders s) key")
    case None
    then show ?thesis using run ok by (simp add: ensureShard_def same_sched_refl)
  next
    case (Some p)
    obtain m p' where em: "ensureModel digest model now p env = ((m, p'), env')"
      and f: "found = Some m" and s': "s' = s\<lparr>schedProviders := gput key p' (schedProviders s)\<rparr>"
      using run Some by (auto simp: ensureShard_def split: prod.splits)
    note e = ensureModel_ok [OF sched_okD(1) [OF ok Some] em]
    have "same_sched digest s s'"
      by (rule same_sched_provider [OF ok Some e(1)]) (simp_all add: e(2) s')
    moreover have "shardAt s' key (canonicalModelKey model) = Some m"
      by (simp add: shardAt_def s' glookup_put e(3))
    moreover have "shard_ok digest m" "modelKey m = canonicalModelKey model"
      "shard_metas m = supporting (canonicalModelKey model) (glookup (provAuths p'))"
      using e(1,3) by (auto simp: provider_ok_def)
    ultimately show ?thesis using credentials_at_provider [OF ok Some] by (simp add: f e(2))
  qed
  then show "same_sched digest s s'" "case found of None \<Rightarrow> glookup (schedProviders s) key = None
     | Some m \<Rightarrow> shard_ok digest m \<and> shardAt s' key (canonicalModelKey model) = Some m \<and>
         modelKey m = canonicalModelKey model \<and>
         shard_metas m = supporting (canonicalModelKey model) (credentials_at s key)" by blast+
qed

lemma putShard_ok:
  assumes ok: "sched_ok digest s" and m: "shardAt s key k = Some m" and m': "same_shard digest m m'"
  shows "same_sched digest s (putShard key k m' s)" "shardAt (putShard key k m' s) key k = Some m'"
proof -
  obtain p where p: "glookup (schedProviders s) key = Some p" "glookup (modelShards p) k = Some m"
    using m by (auto simp: shardAt_def split: option.splits)
  let ?p = "p\<lparr>modelShards := gput k m' (modelShards p)\<rparr>"
  have "provider_ok digest key ?p"
    using sched_okD(1) [OF ok p(1)] p(2) m' by (auto simp: provider_ok_def glookup_put same_shard_def split: if_splits)
  then show "same_sched digest s (putShard key k m' s)"
    by (rule same_sched_provider [OF ok p(1)]) (simp_all add: putShard_def p(1))
  show "shardAt (putShard key k m' s) key k = Some m'"
    by (simp add: shardAt_def putShard_def p(1) glookup_put)
qed

lemma shardAt_ok:
  assumes "sched_ok digest s" "shardAt s key k = Some m"
  shows "shard_ok digest m" "modelKey m = k" "shard_metas m = supporting k (credentials_at s key)"
proof -
  obtain p where p: "glookup (schedProviders s) key = Some p" "glookup (modelShards p) k = Some m"
    using assms(2) by (auto simp: shardAt_def split: option.splits)
  then show "shard_ok digest m" "modelKey m = k" "shard_metas m = supporting k (credentials_at s key)"
    using sched_okD(1) [OF assms(1) p(1)] credentials_at_provider [OF assms(1) p(1)] by (auto simp: provider_ok_def)
qed

lemma shardAt_put_other:
  "(key', k') \<noteq> (key, k) \<Longrightarrow> shardAt (putShard key k m s) key' k' = shardAt s key' k'"
  by (auto simp: shardAt_def putShard_def glookup_put split: option.splits)

section \<open>Requests\<close>

lemma request_groups_ok: "groups_ok (accountGroups (authSelectionEligibilityForRequest kind policy md))"
  by (simp add: groups_ok_def accountGroups_def authSelectionEligibilityForRequest_def Let_def)

text \<open>What a request allows, as a condition on the metadata of a credential.\<close>

definition request_allows :: "schedRequest \<Rightarrow> string \<Rightarrow> schedulerStrategy \<Rightarrow> scheduledAuthMeta \<Rightarrow> bool" where
  "request_allows req pinned strategy meta \<longleftrightarrow>
     eligibilityAllows (request_eligibility req) (metaAuth meta) \<and>
     (strategy = schedulerStrategyWeightedRoundRobin \<longrightarrow> metaWeight meta > 0) \<and>
     (pinned \<noteq> '''' \<longrightarrow> ID (metaAuth meta) = pinned) \<and>
     ID (metaAuth meta) \<notin> set (triedAuths req)"

lemma request_predicate_iff: "request_predicate req pinned strategy e \<longleftrightarrow> request_allows req pinned strategy (entryMeta e)"
  by (auto simp: scheduledAuthPredicate_def request_allows_def)

lemma request_predicate_admits: "request_predicate req pinned strategy e \<longrightarrow> strategy_admits strategy e"
  by (simp add: request_predicate_iff request_allows_def strategy_admits_def)

text \<open>The credentials of one provider a request may use for a model.\<close>

definition request_candidates ::
  "authScheduler \<Rightarrow> string \<Rightarrow> string \<Rightarrow> (scheduledAuthMeta \<Rightarrow> bool) \<Rightarrow> scheduledAuthMeta set" where
  "request_candidates s key k allowed =
     {meta. credentials_at s key (ID (metaAuth meta)) = Some meta \<and> supportsModel meta k \<and> allowed meta}"

lemma request_candidates_same: "same_sched digest s s' \<Longrightarrow> request_candidates s' = request_candidates s"
  by (rule ext, rule ext, rule ext) (simp add: request_candidates_def same_sched_at)

lemma shard_entry:
  assumes "shard_ok digest m" "shard_metas m = supporting k (credentials_at s key)"
    "glookup (entries m) i = Some e" "allowed (entryMeta e)"
  shows "entryMeta e \<in> request_candidates s key k allowed"
proof -
  have "shard_metas m i = Some (entryMeta e)" using assms(3) by (simp add: shard_metas_def)
  then have "credentials_at s key i = Some (entryMeta e)" "supportsModel (entryMeta e) k"
    using assms(2) by (auto simp: supporting_def split: option.splits if_splits)
  moreover have "entryID e = i" using assms(1,3) entries_ok_lookup by (auto simp: shard_ok_def)
  ultimately show ?thesis using assms(4) by (simp add: request_candidates_def)
qed

lemma candidate_entry:
  assumes "shard_metas m = supporting k (credentials_at s key)" "meta \<in> request_candidates s key k allowed"
  obtains e where "glookup (entries m) (ID (metaAuth meta)) = Some e" "entryMeta e = meta"
proof -
  have "shard_metas m (ID (metaAuth meta)) = Some meta"
    using assms by (simp add: request_candidates_def supporting_def)
  then show thesis using that by (auto simp: shard_metas_def)
qed

lemma candidateAuths_sound:
  assumes ok: "shard_ok digest m" "shard_metas m = supporting k (credentials_at s key)"
    and a: "a \<in> set (candidateAuths digest predicate m)" and pred: "\<And>e. predicate e \<longleftrightarrow> allowed (entryMeta e)"
  shows "\<exists>meta \<in> request_candidates s key k allowed. metaAuth meta = a"
proof -
  have eok: "entries_ok digest (entries m)" using ok(1) by (simp add: shard_ok_def)
  obtain e where e: "e \<in> set (uniqueCandidateEntries digest predicate (entries m))" "a = entryAuth e"
    using a by (auto simp: candidateAuths_def)
  have "e \<in> snd ` set (entries m)" "predicate e"
    using e(1) uniqueCandidateEntries_spec(1) [OF eok, of predicate] by (auto simp: keeps_best_def)
  then have "glookup (entries m) (entryID e) = Some e" "predicate e" using entries_ok_mem [OF eok] by blast+
  then show ?thesis using shard_entry [OF ok, of "entryID e" e allowed] pred e(2) by blast
qed

lemma summary_count:
  assumes ok: "entries_ok digest (entries m)"
    and sum: "availabilitySummary digest predicate m = (n, cooling, earliest)"
  shows "n = int (length (uniqueCandidateEntries digest predicate (entries m)))"
    "cooling = int (length (filter (\<lambda>e. entryState e = scheduledStateCooldown)
                 (uniqueCandidateEntries digest predicate (entries m))))"
proof -
  have "fst (fold summaryStep es (a, b, c)) = a + int (length es) \<and>
      fst (snd (fold summaryStep es (a, b, c))) =
        b + int (length (filter (\<lambda>e. entryState e = scheduledStateCooldown) es))" for es a b c
    by (induction es arbitrary: a b c) (simp_all add: summaryStep_def)
  from this [of "uniqueCandidateEntries digest predicate (entries m)" 0 0 zeroTime] sum
  show "n = int (length (uniqueCandidateEntries digest predicate (entries m)))"
    "cooling = int (length (filter (\<lambda>e. entryState e = scheduledStateCooldown)
                 (uniqueCandidateEntries digest predicate (entries m))))"
    by (simp_all add: availabilitySummary_def)
qed

lemma best_exists: "finite F \<Longrightarrow> F \<noteq> {} \<Longrightarrow> \<exists>g \<in> F. \<forall>f \<in> F. better digest g f"
proof (induction F rule: finite_ne_induct)
  case (insert x F)
  then obtain g where g: "g \<in> F" "\<forall>f \<in> F. better digest g f" by blast
  show ?case
  proof (cases "better digest x g")
    case True
    then show ?thesis using g better_trans [OF True] by auto
  next
    case False
    then have "better digest g x" using better_total by blast
    then show ?thesis using g by auto
  qed
qed simp

lemma unique_nonempty:
  assumes ok: "entries_ok digest store"
  shows "uniqueCandidateEntries digest predicate store = [] \<longleftrightarrow> (\<forall>i e. glookup store i = Some e \<longrightarrow> \<not> predicate e)"
proof -
  let ?E = "{e \<in> snd ` set store. predicate e}"
  have spec: "set (uniqueCandidateEntries digest predicate store) = {e. keeps_best digest ?E e}"
    by (rule uniqueCandidateEntries_spec(1) [OF ok])
  have some: "\<exists>e. keeps_best digest ?E e" if e: "e \<in> ?E" for e
  proof -
    let ?F = "{f \<in> ?E. identity_of digest f = identity_of digest e}"
    have "finite ?F" "?F \<noteq> {}" using e by auto
    from best_exists [OF this] obtain g where "g \<in> ?F" "\<forall>f \<in> ?F. better digest g f" by blast
    then have "keeps_best digest ?E g" unfolding keeps_best_def by auto
    then show ?thesis by blast
  qed
  have "uniqueCandidateEntries digest predicate store = [] \<longleftrightarrow> ?E = {}"
  proof
    assume "uniqueCandidateEntries digest predicate store = []"
    then have "\<not> keeps_best digest ?E e" for e using spec by auto
    then show "?E = {}" using some by blast
  next
    assume "?E = {}"
    then have "set (uniqueCandidateEntries digest predicate store) = {}" using spec by (simp add: keeps_best_def)
    then show "uniqueCandidateEntries digest predicate store = []" by simp
  qed
  also have "?E = {} \<longleftrightarrow> (\<forall>i e. glookup store i = Some e \<longrightarrow> \<not> predicate e)"
  proof
    assume none: "?E = {}"
    show "\<forall>i e. glookup store i = Some e \<longrightarrow> \<not> predicate e"
    proof (intro allI impI notI)
      fix i e assume "glookup store i = Some e" "predicate e"
      then have "(i, e) \<in> set store" by (simp add: map_of_SomeD)
      then show False using none \<open>predicate e\<close> by force
    qed
  next
    assume "\<forall>i e. glookup store i = Some e \<longrightarrow> \<not> predicate e"
    then show "?E = {}" using entries_ok_mem [OF ok] by blast
  qed
  finally show ?thesis .
qed

section \<open>Picks at one provider\<close>

abbreviation shard_of :: "modelScheduler \<Rightarrow> authScheduler \<Rightarrow> string \<Rightarrow> string \<Rightarrow> bool" where
  "shard_of m s key k \<equiv> shard_metas m = supporting k (credentials_at s key)"

lemma pickReady_candidate:
  assumes ok: "shard_ok digest m" and m: "shard_of m s key k" and groups: "groups_ok groups"
    and pred: "\<And>e. predicate e \<longleftrightarrow> allowed (entryMeta e)" and admits: "\<forall>e. predicate e \<longrightarrow> strategy_admits strategy e"
    and run: "pickReady digest pref strategy predicate groups now0 now later m env = ((Some a, m'), env')"
  shows "\<exists>meta \<in> request_candidates s key k allowed. metaAuth meta = a"
proof -
  let ?m1 = "fst (promoteExpired digest now0 m env)"
  from pickReady_spec [OF ok groups admits refl refl refl run]
  obtain i e where e: "glookup (entries ?m1) i = Some e" "predicate e" "a = entryAuth e" by auto
  have same: "same_shard digest m ?m1" by (rule promoteExpired_same [OF ok])
  then have "shard_of ?m1 s key k" using m by (simp add: same_shard_def)
  from shard_entry [OF same_shard_ok [OF same] this e(1), of allowed] show ?thesis
    using e(2,3) pred by blast
qed

lemma pickReadyAtPriority_candidate:
  assumes ok: "shard_ok digest m" and m: "shard_of m s key k" and groups: "groups_ok groups"
    and pred: "\<And>e. predicate e \<longleftrightarrow> allowed (entryMeta e)"
    and run: "pickReadyAtPriority pref p strategy predicate groups now later m env = ((Some a, m'), env')"
  shows "\<exists>meta \<in> request_candidates s key k allowed. metaAuth meta = a \<and> metaPriority meta = p"
proof (cases "glookup (readyByPriority m) p")
  case None
  then show ?thesis using run by (simp add: pickReadyAtPriority_def)
next
  case (Some b)
  then have p: "p \<in> fst ` set (readyByPriority m)" using glookup_in_keys [of "readyByPriority m" p] by simp
  from pickReadyAtPriority_ok(3) [OF ok groups refl p run] obtain i e where
    i: "i \<in> ready_set (summaries digest (entries m)) p"
    and e: "glookup (entries m) i = Some e" "predicate e" "a = entryAuth e"
    by (auto simp: pick_result_def pick_set_def)
  have "metaPriority (entryMeta e) = p" using i e(1) by (auto simp: ready_set_def summaries_def)
  then show ?thesis using shard_entry [OF ok m e(1), of allowed] e(2,3) pred by blast
qed

lemma unavailableError_kind:
  assumes ok: "entries_ok digest (entries m)"
  shows "unavailableError digest provider model predicate now m = auth_not_found \<longleftrightarrow>
     (\<forall>i e. glookup (entries m) i = Some e \<longrightarrow> \<not> predicate e)"
proof -
  obtain n cooling earliest where sum: "availabilitySummary digest predicate m = (n, cooling, earliest)"
    by (metis prod.collapse)
  have "n = 0 \<longleftrightarrow> (\<forall>i e. glookup (entries m) i = Some e \<longrightarrow> \<not> predicate e)"
    using summary_count(1) [OF ok sum] unique_nonempty [OF ok, of predicate] by simp
  then show ?thesis
    by (simp add: unavailableError_def sum newModelCooldownError_def Let_def)
qed

lemma no_candidates_iff:
  assumes ok: "shard_ok digest m" and m: "shard_of m s key k"
    and pred: "\<And>e. predicate e \<longleftrightarrow> allowed (entryMeta e)"
  shows "(\<forall>i e. glookup (entries m) i = Some e \<longrightarrow> \<not> predicate e) \<longleftrightarrow> request_candidates s key k allowed = {}"
proof
  assume none: "\<forall>i e. glookup (entries m) i = Some e \<longrightarrow> \<not> predicate e"
  show "request_candidates s key k allowed = {}"
  proof (rule ccontr)
    assume "request_candidates s key k allowed \<noteq> {}"
    then obtain meta where meta: "meta \<in> request_candidates s key k allowed" by blast
    then obtain e where "glookup (entries m) (ID (metaAuth meta)) = Some e" "entryMeta e = meta"
      by (rule candidate_entry [OF m])
    then show False using none pred meta unfolding request_candidates_def by blast
  qed
next
  assume none: "request_candidates s key k allowed = {}"
  show "\<forall>i e. glookup (entries m) i = Some e \<longrightarrow> \<not> predicate e"
  proof (intro allI impI notI)
    fix i e assume "glookup (entries m) i = Some e" "predicate e"
    then show False using shard_entry [OF ok m, of i e allowed] none pred by simp
  qed
qed

text \<open>
  The manager's quota fallback chooses among the candidates it is given; the copy it returns is
  marked for the one slot it may take beyond the freeze.
\<close>

definition served_as :: "Auth \<Rightarrow> Auth \<Rightarrow> bool" where
  "served_as c a \<longleftrightarrow> a = c \<or> a = c\<lparr>quotaPreemptFallback := True\<rparr>"

lemma served_as_refl [simp]: "served_as a a"
  by (simp add: served_as_def)

lemma served_as_same: "served_as c a \<Longrightarrow> ID a = ID c \<and> executorKeyFromAuth a = executorKeyFromAuth c"
  by (auto simp: served_as_def executorKeyFromAuth_def authAttribute_def Let_def)

definition fallback_ok :: "authScheduler \<Rightarrow> bool" where
  "fallback_ok s \<longleftrightarrow>
     (\<forall>f auths model now env a env'. quotaFallback s = Some f \<longrightarrow> f auths model now env = (Some a, env') \<longrightarrow>
       (\<exists>c \<in> set auths. served_as c a))"

lemma ensureShard_fallback: "quotaFallback (snd (fst (ensureShard digest key model now s env))) = quotaFallback s"
  by (auto simp: ensureShard_def split: option.splits prod.splits)

lemma putShard_fallback [simp]: "quotaFallback (putShard key k m s) = quotaFallback s"
  by (simp add: putShard_def split: option.splits)

abbreviation resolved :: "authScheduler \<Rightarrow> schedulerStrategy \<Rightarrow> schedulerStrategy" where
  "resolved s strategy \<equiv> (if strategy = schedulerStrategyCurrent then schedStrategy s else strategy)"

abbreviation single_candidates :: "authScheduler \<Rightarrow> string \<Rightarrow> string \<Rightarrow> schedRequest \<Rightarrow> schedulerStrategy \<Rightarrow> scheduledAuthMeta set" where
  "single_candidates s key model req strategy \<equiv>
     request_candidates s key (canonicalModelKey (canonicalModelKey model))
       (request_allows req (pinnedAuthIDFromMetadata (optMetadata req)) strategy)"

lemma pickSingle_spec:
  assumes ok: "sched_ok digest s" and fallback: "fallback_ok s"
    and run: "pickSingleWithStrategy digest provider model req strategy clock s env = ((r, s'), env')"
    and C: "C = single_candidates s (to_lower (trim_space provider)) model req (resolved s strategy)"
  shows "same_sched digest s s'"
    "case r of Inr a \<Rightarrow> \<exists>meta \<in> C. served_as (metaAuth meta) a | Inl e \<Rightarrow> e = auth_not_found \<longleftrightarrow> C = {}"
proof -
  let ?key = "to_lower (trim_space provider)" and ?mkey = "canonicalModelKey model"
  let ?k = "canonicalModelKey ?mkey" and ?pinned = "pinnedAuthIDFromMetadata (optMetadata req)"
  define strat where "strat = resolved s strategy"
  define predicate where "predicate = request_predicate req ?pinned strat"
  define pref where "pref = (?pinned = [] \<and> providerPrefersWebsocketTransport ?key \<and>
        (ctxDownstreamWebsocket req \<or> (optStream req \<and> equal_fold ?key ''codex'')))"
  note run' = run [unfolded pickSingleWithStrategy_def Let_def, folded strat_def, folded predicate_def pref_def]
  note C' = C [folded strat_def]
  have pred: "predicate e \<longleftrightarrow> request_allows req ?pinned strat (entryMeta e)" for e
    unfolding predicate_def by (rule request_predicate_iff)
  let ?groups = "accountGroups (request_eligibility req)"
  obtain found s1 env1 where es: "ensureShard digest ?key ?mkey (clock 0) s env = ((found, s1), env1)"
    by (metis prod.collapse)
  note e = ensureShard_ok [OF ok es]
  have both: "same_sched digest s s' \<and>
    (case r of Inr a \<Rightarrow> \<exists>meta \<in> C. served_as (metaAuth meta) a | Inl e \<Rightarrow> e = auth_not_found \<longleftrightarrow> C = {})"
  proof (cases found)
    case None
    then have r: "r = Inl auth_not_found" "s' = s1" using run' es by simp_all
    have "credentials_at s ?key i = None" for i
      using e(2) None by (auto simp: credentials_at_def elim: sched_ok_registered [OF ok])
    then have "C = {}" by (simp add: C' request_candidates_def)
    then show ?thesis using r e(1) by simp
  next
    case (Some m)
    have m: "shard_ok digest m" "shardAt s1 ?key ?k = Some m" "shard_of m s ?key ?k" using e(2) Some by simp_all
    obtain picked m2 env2 where pr: "pickReady digest pref strat predicate ?groups
        (clock 1) (clock 2) (clock 3) m env1 = ((picked, m2), env2)" by (metis prod.collapse)
    define s2 where "s2 = putShard ?key ?k m2 s1"
    note same = pickReady_same(1) [OF m(1) request_groups_ok pr]
    have s2: "same_sched digest s s2"
      using same_sched_trans [OF e(1) putShard_ok(1) [OF same_sched_ok [OF e(1)] m(2) same]] by (simp add: s2_def)
    have m2: "shard_ok digest m2" "shard_of m2 s ?key ?k" using same m(3) by (simp_all add: same_shard_def)
    have fb: "quotaFallback s2 = quotaFallback s"
      using ensureShard_fallback [of digest ?key ?mkey "clock 0" s env] by (simp add: s2_def es)
    obtain fallback env3 where f: "(case quotaFallback s2 of
          Some f \<Rightarrow> if ?key = ''codex'' then f (candidateAuths digest predicate m2) model (clock 0) env2 else (None, env2)
        | None \<Rightarrow> (None, env2)) = (fallback, env3)" by (metis prod.collapse)
    have result: "s' = s2 \<and> r = (case picked of Some a \<Rightarrow> Inr a | None \<Rightarrow>
        (case fallback of Some a \<Rightarrow> Inr a | None \<Rightarrow> Inl (unavailableError digest provider model predicate (clock 4) m2)))"
      using run' es Some pr f by (auto simp: s2_def [symmetric] split: option.splits)
    show ?thesis
    proof (cases picked)
      case (Some a)
      have "\<exists>meta \<in> C. metaAuth meta = a"
        unfolding C' by (rule pickReady_candidate [OF m(1,3) request_groups_ok pred _ pr [unfolded Some]])
          (simp add: predicate_def request_predicate_admits)
      then obtain meta where "meta \<in> C" "served_as (metaAuth meta) a" using served_as_refl by blast
      then show ?thesis using result s2 Some by auto
    next
      case None
      show ?thesis
      proof (cases fallback)
        case (Some a)
        then obtain q where "quotaFallback s = Some q"
          "q (candidateAuths digest predicate m2) model (clock 0) env2 = (Some a, env3)"
          using f fb by (auto split: option.splits if_splits)
        then obtain c where c: "c \<in> set (candidateAuths digest predicate m2)" "served_as c a"
          using fallback unfolding fallback_ok_def by blast
        from candidateAuths_sound [OF m2 c(1) pred] c(2) obtain meta where "meta \<in> C" "served_as (metaAuth meta) a"
          unfolding C' by blast
        then show ?thesis using result s2 None Some by auto
      next
        case none: None
        have "unavailableError digest provider model predicate (clock 4) m2 = auth_not_found \<longleftrightarrow> C = {}"
          using unavailableError_kind [of digest m2 provider model predicate "clock 4"]
            no_candidates_iff [where predicate = predicate and allowed = "request_allows req ?pinned strat", OF m2 pred] m2(1) by (simp add: C' shard_ok_def)
        then show ?thesis using result s2 None none by simp
      qed
    qed
  qed
  then show "same_sched digest s s'"
    "case r of Inr a \<Rightarrow> \<exists>meta \<in> C. served_as (metaAuth meta) a | Inl e \<Rightarrow> e = auth_not_found \<longleftrightarrow> C = {}" by blast+
qed

end
