(* ===== verification/MixedPick.thy ===== *)
theory MixedPick
  imports SchedulerIndex
begin

text \<open>
  Requests over several providers: the credential a mixed pick returns is a candidate of the
  provider it names, of the best ready priority of all providers, and one is returned whenever
  one is ready.
\<close>

section \<open>The stores of the shards\<close>

definition store_at :: "authScheduler \<Rightarrow> string \<Rightarrow> string \<Rightarrow> entry_store option" where
  "store_at s key k = map_option entries (shardAt s key k)"

text \<open>An operation that leaves the credentials and the entries of the shards alone.\<close>

definition same_stores :: "(string \<Rightarrow> string) \<Rightarrow> authScheduler \<Rightarrow> authScheduler \<Rightarrow> bool" where
  "same_stores digest s s' \<longleftrightarrow> same_sched digest s s' \<and> store_at s' = store_at s"

lemma same_stores_refl: "sched_ok digest s \<Longrightarrow> same_stores digest s s"
  by (simp add: same_stores_def same_sched_refl)

lemma same_stores_trans: "same_stores digest a b \<Longrightarrow> same_stores digest b c \<Longrightarrow> same_stores digest a c"
  by (auto simp: same_stores_def intro: same_sched_trans)

lemma same_storesD:
  assumes "same_stores digest s s'"
  shows "sched_ok digest s'" "same_sched digest s s'" "store_at s' = store_at s"
    "request_candidates s' = request_candidates s" "credentials_at s' = credentials_at s"
  using assms request_candidates_same same_sched_at by (auto simp: same_stores_def same_sched_def)

lemma putShard_stores:
  assumes ok: "sched_ok digest s" and m: "shardAt s key k = Some m" and m': "same_shard digest m m'" "entries m' = entries m"
  shows "same_stores digest s (putShard key k m' s)"
proof -
  note p = putShard_ok [OF ok m m'(1)]
  have "store_at (putShard key k m' s) key' k' = store_at s key' k'" for key' k'
    using p(2) m m'(2) shardAt_put_other [of key' k' key k m' s]
    by (cases "(key', k') = (key, k)") (simp_all add: store_at_def)
  then have "store_at (putShard key k m' s) = store_at s" by (intro ext)
  then show ?thesis using p(1) by (simp add: same_stores_def)
qed

text \<open>The state that only mixed picks keep is not part of any of this.\<close>

lemma same_stores_frame:
  assumes "sched_ok digest s" "schedProviders s' = schedProviders s" "authProviders s' = authProviders s"
  shows "same_stores digest s s'"
proof -
  note f = sched_ok_frame [OF assms]
  have "store_at s' = store_at s" by (rule ext, rule ext) (simp only: store_at_def f(4))
  then show ?thesis using f assms(2,3) by (simp add: same_stores_def same_sched_def)
qed

text \<open>The ready entries of one provider that a predicate admits at one priority.\<close>

definition ready_at ::
  "(string \<Rightarrow> string) \<Rightarrow> authScheduler \<Rightarrow> (scheduledAuth \<Rightarrow> bool) \<Rightarrow> accountGroupSelection option \<Rightarrow> string \<Rightarrow>
     string \<Rightarrow> int \<Rightarrow> scheduledAuth set" where
  "ready_at digest s predicate groups k key p =
     {e. \<exists>store i. store_at s key k = Some store \<and> i \<in> pick_set (summaries digest store) False groups p \<and>
         glookup store i = Some e \<and> predicate e}"

lemma ready_at_stores: "same_stores digest s s' \<Longrightarrow> ready_at digest s' = ready_at digest s"
  by (intro ext) (simp add: ready_at_def same_stores_def)

lemma ready_at_shard:
  "shardAt s key k = Some m \<Longrightarrow>
   ready_at digest s predicate groups k key p \<noteq> {} \<longleftrightarrow>
     satisfied (entries m) predicate (pick_set (summaries digest (entries m)) False groups p)"
  by (auto simp: ready_at_def store_at_def satisfied_def)

lemma ready_at_none: "shardAt s key k = None \<Longrightarrow> ready_at digest s predicate groups k key p = {}"
  by (simp add: ready_at_def store_at_def)

lemma ready_at_candidate:
  assumes ok: "sched_ok digest s" and e: "e \<in> ready_at digest s predicate groups k key p"
    and pred: "\<And>e. predicate e \<longleftrightarrow> allowed (entryMeta e)"
  shows "entryMeta e \<in> request_candidates s key k allowed" "metaPriority (entryMeta e) = p"
    "providerKey (entryMeta e) = key" "predicate e"
proof -
  obtain m i where m: "shardAt s key k = Some m" "i \<in> pick_set (summaries digest (entries m)) False groups p"
    "glookup (entries m) i = Some e" "predicate e"
    using e by (auto simp: ready_at_def store_at_def)
  note at = shardAt_ok [OF ok m(1)]
  show "metaPriority (entryMeta e) = p" using m(2,3) by (auto simp: pick_set_def ready_set_def summaries_def)
  show cand: "entryMeta e \<in> request_candidates s key k allowed"
    by (rule shard_entry [OF at(1,3) m(3)]) (use m(4) pred in blast)
  then show "providerKey (entryMeta e) = key"
    using credentials_meta [OF ok, of key] by (auto simp: request_candidates_def sched_meta_def)
  show "predicate e" by (rule m(4))
qed

section \<open>The best priority\<close>

lemma ensureShard_stores:
  assumes "sched_ok digest s" "ensureShard digest key model now s env = ((found, s'), env')" "key' \<noteq> key"
  shows "store_at s' key' k = store_at s key' k"
  using assms by (auto simp: ensureShard_def store_at_def shardAt_def glookup_put split: option.splits prod.splits)

lemma mixedBest_ok:
  assumes "mixedBest digest mkey now predicate groups keys best s env = ((best', s'), env')"
    and "sched_ok digest s" "groups_ok groups" "distinct keys" "k = canonicalModelKey mkey"
  shows "same_sched digest s s' \<and>
    (\<forall>key. key \<notin> set keys \<longrightarrow> store_at s' key k = store_at s key k) \<and>
    (\<forall>key \<in> set keys. shardAt s' key k = None \<longleftrightarrow> glookup (schedProviders s) key = None) \<and>
    (case best' of
       None \<Rightarrow> best = None \<and> (\<forall>key \<in> set keys. \<forall>p. ready_at digest s' predicate groups k key p = {})
     | Some b \<Rightarrow> (best = Some b \<or> (\<exists>key \<in> set keys. ready_at digest s' predicate groups k key b \<noteq> {})) \<and>
         (\<forall>a. best = Some a \<longrightarrow> a \<le> b) \<and>
         (\<forall>key \<in> set keys. \<forall>p. ready_at digest s' predicate groups k key p \<noteq> {} \<longrightarrow> p \<le> b))"
  using assms(1,2,4)
proof (induction keys arbitrary: best s env)
  case Nil
  then show ?case by (auto simp: same_sched_refl split: option.splits)
next
  case (Cons key keys)
  obtain found s1 env1 where es: "ensureShard digest key mkey now s env = ((found, s1), env1)" by (metis prod.collapse)
  note e = ensureShard_ok [OF Cons.prems(2) es, folded assms(5)]
  have dist: "distinct keys" "key \<notin> set keys" using Cons.prems(3) by simp_all
  have kept: "store_at s1 key' k = store_at s key' k" if "key' \<noteq> key" for key'
    by (rule ensureShard_stores [OF Cons.prems(2) es that])
  show ?case
  proof (cases found)
    case None
    then have run: "mixedBest digest mkey now predicate groups keys best s1 env1 = ((best', s'), env')"
      using Cons.prems(1) es by simp
    note IH = Cons.IH [OF run same_sched_ok [OF e(1)] dist(1)]
    have frame: "same_sched digest s1 s'" using IH by blast
    have frame': "same_sched digest s s'" by (rule same_sched_trans [OF e(1) frame])
    have gone: "glookup (schedProviders s) key = None" using e(2) None by simp
    then have unknown: "glookup (schedProviders s') key = None"
      using same_sched_known [OF frame'] by simp
    then have none: "shardAt s' key k = None" by (simp add: shardAt_def)
    have others: "\<forall>key' \<in> set keys. shardAt s' key' k = None \<longleftrightarrow> glookup (schedProviders s) key' = None"
      using IH same_sched_known [OF e(1)] by blast
    have stores: "\<forall>key'. key' \<notin> set (key # keys) \<longrightarrow> store_at s' key' k = store_at s key' k"
      using IH kept by auto
    have empty: "ready_at digest s' predicate groups k key p = {}" for p by (rule ready_at_none [OF none])
    show ?thesis
      using IH frame' others stores none gone empty by (cases best') auto
  next
    case (Some m)
    have m: "shard_ok digest m" "shardAt s1 key k = Some m" using e(2) Some by simp_all
    obtain f m1 where hp: "highestReadyPriority False predicate groups m = (f, m1)" by fastforce
    note h = highestReadyPriority_ok [OF m(1) assms(3) refl hp] and hs = highestReadyPriority_same [OF m(1) assms(3) hp]
    define s2 where "s2 = putShard key k m1 s1"
    define best1 where "best1 = (case f of None \<Rightarrow> best
        | Some p \<Rightarrow> (case best of None \<Rightarrow> Some p | Some b \<Rightarrow> Some (if p > b then p else b)))"
    have run: "mixedBest digest mkey now predicate groups keys best1 s2 env1 = ((best', s'), env')"
      using Cons.prems(1) es Some hp by (simp add: s2_def best1_def assms(5))
    have s2: "same_stores digest s1 s2"
      unfolding s2_def by (rule putShard_stores [OF same_sched_ok [OF e(1)] m(2) hs h(2)])
    note IH = Cons.IH [OF run same_storesD(1) [OF s2] dist(1)]
    have frame: "same_sched digest s s'"
      using same_sched_trans [OF same_sched_trans [OF e(1) same_storesD(2) [OF s2]]] IH by blast
    have "store_at s' key k = store_at s2 key k" using IH dist(2) by blast
    then have st: "store_at s' key k = Some (entries m)"
      using same_storesD(3) [OF s2] m(2) by (simp add: store_at_def)
    have ready: "ready_at digest s' predicate groups k key p \<noteq> {} \<longleftrightarrow>
        satisfied (entries m) predicate (pick_set (summaries digest (entries m)) False groups p)" for p
      using st by (auto simp: ready_at_def satisfied_def)
    have f: "case f of None \<Rightarrow> \<forall>p. ready_at digest s' predicate groups k key p = {}
       | Some p \<Rightarrow> ready_at digest s' predicate groups k key p \<noteq> {} \<and>
           (\<forall>q. ready_at digest s' predicate groups k key q \<noteq> {} \<longrightarrow> q \<le> p)"
      using h(4) ready by (auto simp: best_ready_def split: option.splits)
    have known: "shardAt s' key k \<noteq> None" "glookup (schedProviders s) key \<noteq> None"
      using st m(2) same_sched_known [OF e(1), of key] by (auto simp: store_at_def shardAt_def split: option.splits)
    have others: "\<forall>key' \<in> set keys. shardAt s' key' k = None \<longleftrightarrow> glookup (schedProviders s) key' = None"
      using IH same_sched_known [OF e(1)] same_sched_known [OF same_storesD(2) [OF s2]] by blast
    have stores: "\<forall>key'. key' \<notin> set (key # keys) \<longrightarrow> store_at s' key' k = store_at s key' k"
      using IH kept same_storesD(3) [OF s2] by auto
    show ?thesis
      using IH f known others frame stores unfolding best1_def
      by (cases best'; cases f; cases best) (auto split: if_splits)
  qed
qed

section \<open>The entries of all providers\<close>

lemma bucketView_entries:
  assumes ok: "shard_ok digest m" "groups_ok groups" and b: "glookup (readyByPriority m) p = Some b"
    and bv: "bucketView (entries m) False groups b = (ref, b')"
  shows "set (entriesOf (entries m) (flat (viewAt ref b'))) =
     {e. \<exists>i \<in> pick_set (summaries digest (entries m)) False groups p. glookup (entries m) i = Some e}"
proof -
  have idx: "index_of (summaries digest (entries m)) m" and eok: "entries_ok digest (entries m)"
    using ok by (simp_all add: shard_ok_def)
  obtain ids where ids: "set ids = ready_set (summaries digest (entries m)) p"
    "view_of (summaries digest (entries m)) (selected_ids (summaries digest (entries m)) False groups ids) (viewAt ref b')"
    by (rule bucketView_at [OF eok refl index_of_keeps [OF idx] b ok(2) bv])
  show ?thesis using ids(2) selected_ids_set [OF ids(1), of False groups] by (simp add: set_entriesOf view_of_def)
qed

lemma no_bucket:
  assumes "shard_ok digest m" "glookup (readyByPriority m) p = None"
  shows "pick_set (summaries digest (entries m)) ws groups p = {}"
proof -
  have idx: "index_of (summaries digest (entries m)) m" using assms by (simp add: shard_ok_def)
  have "p \<notin> set (priorityOrder m)" using idx assms(2) glookup_in_keys [of "readyByPriority m" p] by (simp add: index_of_def)
  then show ?thesis using idx by (auto simp: index_of_def pick_set_def)
qed

lemma mixedEntries_ok:
  assumes "mixedEntries k p groups collect keys out s = (res, s')"
    and "sched_ok digest s" "groups_ok groups" and "collect = (\<lambda>out es. out @ filter P es)"
  shows "same_stores digest s s' \<and> set res = set out \<union> (\<Union>key \<in> set keys. ready_at digest s P groups k key p)"
  using assms(1,2)
proof (induction keys arbitrary: out s)
  case Nil
  then show ?case by (simp add: same_stores_refl)
next
  case (Cons key keys)
  show ?case
  proof (cases "shardAt s key k")
    case None
    then show ?thesis using Cons ready_at_none [OF None] by simp
  next
    case (Some m)
    note at = shardAt_ok [OF Cons.prems(2) Some]
    have ready: "ready_at digest s P groups k key p =
        {e. \<exists>i \<in> pick_set (summaries digest (entries m)) False groups p. glookup (entries m) i = Some e \<and> P e}"
      using Some by (auto simp: ready_at_def store_at_def)
    show ?thesis
    proof (cases "glookup (readyByPriority m) p")
      case None
      then have "ready_at digest s P groups k key p = {}" using no_bucket [OF at(1) None] ready by simp
      then show ?thesis using Cons Some None by simp
    next
      case b: (Some b)
      obtain ref b' where bv: "bucketView (entries m) False groups b = (ref, b')" by fastforce
      let ?es = "entriesOf (entries m) (flat (viewAt ref b'))"
      define s1 where "s1 = putShard key k (m\<lparr>readyByPriority := gput p b' (readyByPriority m)\<rparr>) s"
      have run: "mixedEntries k p groups collect keys (out @ filter P ?es) s1 = (res, s')"
        using Cons.prems(1) Some b bv by (simp add: s1_def assms(4))
      have s1: "same_stores digest s s1"
        unfolding s1_def
        by (rule putShard_stores [OF Cons.prems(2) Some bucketView_same [OF at(1) assms(3) b bv]]) simp
      have "set (filter P ?es) = ready_at digest s P groups k key p"
        using bucketView_entries [OF at(1) assms(3) b bv] ready by auto
      with Cons.IH [OF run same_storesD(1) [OF s1]] show ?thesis
        using same_stores_trans [OF s1] ready_at_stores [OF s1] by auto
    qed
  qed
qed

section \<open>The strategies\<close>

text \<open>
  The outcome of a pick over the ready entries of a set of providers: none when there are none,
  and otherwise one of them with its provider.
\<close>

definition mixed_outcome ::
  "(string \<Rightarrow> string) \<Rightarrow> authScheduler \<Rightarrow> (scheduledAuth \<Rightarrow> bool) \<Rightarrow> accountGroupSelection option \<Rightarrow> string \<Rightarrow>
     string list \<Rightarrow> int \<Rightarrow> (Auth \<times> string) option \<Rightarrow> bool" where
  "mixed_outcome digest s predicate groups k keys p picked \<longleftrightarrow>
     (case picked of
        None \<Rightarrow> \<forall>key \<in> set keys. ready_at digest s predicate groups k key p = {}
      | Some (a, key) \<Rightarrow> key \<in> set keys \<and> (\<exists>e \<in> ready_at digest s predicate groups k key p. a = entryAuth e))"

lemma mixed_outcome_entry:
  assumes ok: "sched_ok digest s" and e: "e \<in> (\<Union>key \<in> set keys. ready_at digest s predicate groups k key p)"
  shows "mixed_outcome digest s predicate groups k keys p (Some (picked_entry e))"
proof -
  obtain key where key: "key \<in> set keys" "e \<in> ready_at digest s predicate groups k key p" using e by blast
  obtain m i where m: "shardAt s key k = Some m" "glookup (entries m) i = Some e"
    using key(2) by (auto simp: ready_at_def store_at_def)
  note at = shardAt_ok [OF ok m(1)]
  have "entryMeta e \<in> request_candidates s key k (\<lambda>_. True)" by (rule shard_entry [OF at(1,3) m(2)]) simp
  then have "providerKey (entryMeta e) = key"
    using credentials_meta [OF ok, of key] by (auto simp: request_candidates_def sched_meta_def)
  then show ?thesis using key by (auto simp: mixed_outcome_def)
qed

lemma ready_at_filter:
  "ready_at digest s (\<lambda>e. P e \<and> Q e) groups k key p = {e \<in> ready_at digest s P groups k key p. Q e}"
  by (auto simp: ready_at_def)

lemma ready_at_True:
  "ready_at digest s predicate groups k key p = {e \<in> ready_at digest s (\<lambda>_. True) groups k key p. predicate e}"
  by (auto simp: ready_at_def)

text \<open>A picker over a list with the right members gives such an outcome.\<close>

lemma picked_outcome:
  assumes ok: "sched_ok digest s"
    and es: "set es = (\<Union>key \<in> set keys. ready_at digest s (\<lambda>_. True) groups k key p)"
    and sound: "\<And>e. picked = Some e \<Longrightarrow> e \<in> set es \<and> predicate e"
    and complete: "\<And>e. picked = None \<Longrightarrow> e \<in> set es \<Longrightarrow> \<not> predicate e"
  shows "mixed_outcome digest s predicate groups k keys p (map_option picked_entry picked)"
proof (cases picked)
  case None
  then show ?thesis using complete es by (auto simp: mixed_outcome_def ready_at_True [of digest s predicate])
next
  case (Some e)
  then have "e \<in> (\<Union>key \<in> set keys. ready_at digest s predicate groups k key p)"
    using sound es by (auto simp: ready_at_True [of digest s predicate])
  from mixed_outcome_entry [OF ok this] show ?thesis using Some by simp
qed

lemma sort_key_Nil [simp]: "sort_key f xs = [] \<longleftrightarrow> xs = []"
  by (metis length_0_conv length_sort)

lemma narrow_subset: "set (narrowScheduledExpiryLane es) \<subseteq> set es"
proof (cases "length es \<le> 1")
  case False
  then obtain b rest where sorted: "sort_key (\<lambda>e. (entryExpiresAt e, entryID e)) es = b # rest"
    by (cases "sort_key (\<lambda>e. (entryExpiresAt e, entryID e)) es") force+
  have "set es = set (b # rest)" using sorted by (metis set_sort)
  then show ?thesis using False sorted set_takeWhileD by (fastforce simp: narrowScheduledExpiryLane_def)
qed (simp add: narrowScheduledExpiryLane_def)

lemma narrow_nonempty: "es \<noteq> [] \<Longrightarrow> narrowScheduledExpiryLane es \<noteq> []"
proof (cases "length es \<le> 1")
  case False
  assume "es \<noteq> []"
  then obtain b rest where "sort_key (\<lambda>e. (entryExpiresAt e, entryID e)) es = b # rest"
    by (cases "sort_key (\<lambda>e. (entryExpiresAt e, entryID e)) es") simp_all
  then show ?thesis using False by (simp add: narrowScheduledExpiryLane_def)
qed (simp add: narrowScheduledExpiryLane_def)

lemma least_scheduled:
  assumes "pickLeastConcurrentScheduled es cursor predicate now env = ((picked, cursor'), env')"
  shows "picked = Some e \<Longrightarrow> e \<in> set es \<and> predicate e" "picked = None \<Longrightarrow> e \<in> set es \<Longrightarrow> \<not> predicate e"
proof -
  have run: "fst (least_entry now es predicate (cursor, env)) = picked" by (simp add: assms)
  show "picked = Some e \<Longrightarrow> e \<in> set es \<and> predicate e" using least_pick.pick_sound [where s = "(cursor, env)"] run by blast
  show "picked = None \<Longrightarrow> e \<in> set es \<Longrightarrow> \<not> predicate e" using least_pick.pick_complete [where s = "(cursor, env)"] run by blast
qed

lemma weighted_scheduled:
  assumes "pickWeightedEntries es predicate st = (picked, st')" and "\<forall>e. predicate e \<longrightarrow> metaWeight (entryMeta e) > 0"
  shows "picked = Some e \<Longrightarrow> e \<in> set es \<and> predicate e" "picked = None \<Longrightarrow> e \<in> set es \<Longrightarrow> \<not> predicate e"
  using weighted_pick.pick_sound [of es predicate st e] weighted_pick.pick_complete [of es predicate st e] assms
  by auto

lemma go_mod_index: "n > 0 \<Longrightarrow> nat (go_mod c (int n)) < n"
proof -
  assume n: "n > 0"
  have "go_mod c (int n) < int n"
  proof (cases "0 \<le> c")
    case True
    then show ?thesis using n by (simp add: go_mod_nonneg)
  next
    case False
    have "0 \<le> (- c) mod int n" using n by simp
    moreover have "go_mod c (int n) = - ((- c) mod int n)" using False by (simp add: go_mod_def)
    ultimately show ?thesis using n by linarith
  qed
  then show ?thesis using n by linarith
qed

lemma mixedExpiring_ok:
  assumes run: "mixedExpiring strategy cursorKey predicate now expiring s env = ((picked, s'), env')"
    and ok: "sched_ok digest s"
    and es: "set expiring \<subseteq> (\<Union>key \<in> set keys. ready_at digest s predicate groups k key p)"
    and admits: "\<forall>e. predicate e \<longrightarrow> strategy_admits strategy e"
  shows "same_stores digest s s'"
    "picked \<noteq> None \<Longrightarrow> mixed_outcome digest s predicate groups k keys p picked"
    "picked = None \<Longrightarrow> expiring = []"
proof -
  let ?es = "narrowScheduledExpiryLane expiring"
  note sub = subset_trans [OF narrow_subset es]
  have entry: "mixed_outcome digest s predicate groups k keys p (Some (picked_entry e))" if "e \<in> set ?es" for e
    by (rule mixed_outcome_entry [OF ok subsetD [OF sub that]])
  have pred: "predicate e" if "e \<in> set ?es" for e
    using subsetD [OF sub that] by (auto simp: ready_at_def)
  have all: "same_stores digest s s' \<and>
    (case picked of None \<Rightarrow> expiring = [] | Some r \<Rightarrow> mixed_outcome digest s predicate groups k keys p (Some r))"
  proof (cases "expiring = []")
    case True
    then show ?thesis using run same_stores_refl [OF ok] by (simp add: mixedExpiring_def)
  next
    case False
    have ne: "?es \<noteq> []" by (rule narrow_nonempty [OF False])
    then have e0: "hd ?es \<in> set ?es" by (rule hd_in_set)
    have frame: "same_stores digest s s'"
      by (rule same_stores_frame [OF ok])
        (use run False in \<open>auto simp: mixedExpiring_def Let_def split: schedulerStrategy.splits option.splits prod.splits\<close>)
    consider "strategy = schedulerStrategyFillFirst" | "strategy = schedulerStrategyWeightedRoundRobin"
      | "strategy = schedulerStrategyConcurrencyBalanced"
      | "strategy \<notin> {schedulerStrategyFillFirst, schedulerStrategyWeightedRoundRobin, schedulerStrategyConcurrencyBalanced}"
      by blast
    then show ?thesis
    proof cases
      case 1
      then have "picked = Some (picked_entry (hd ?es))" using run False by (auto simp: mixedExpiring_def Let_def)
      then show ?thesis using frame entry [OF e0] by simp
    next
      case 2
      obtain x st where w: "pickWeightedEntries ?es predicate (saved_weights (mixedExpiryWeighted s) cursorKey) = (x, st)"
        by fastforce
      have "\<forall>e. predicate e \<longrightarrow> metaWeight (entryMeta e) > 0" using admits 2 by (simp add: strategy_admits_def)
      note ws = weighted_scheduled [OF w this]
      from ws(2) [OF _ e0] pred [OF e0] obtain e where e: "x = Some e" by (cases x) auto
      have "picked = Some (picked_entry e)" using run False 2 w e by (simp add: mixedExpiring_def)
      then show ?thesis using frame entry ws(1) [OF e] by simp
    next
      case 3
      obtain x c env1 where w: "pickLeastConcurrentScheduled ?es (saved_cursor (mixedExpiryCursors s) cursorKey) predicate now env =
          ((x, c), env1)" by (metis prod.collapse)
      note ws = least_scheduled [OF w]
      from ws(2) [OF _ e0] pred [OF e0] obtain e where e: "x = Some e" by (cases x) auto
      have "picked = Some (picked_entry e)" using run False 3 w e by (simp add: mixedExpiring_def)
      then show ?thesis using frame entry ws(1) [OF e] by simp
    next
      case 4
      let ?start = "nat (go_mod (saved_cursor (mixedExpiryCursors s) cursorKey) (int (length ?es)))"
      have "?start < length ?es" using ne by (intro go_mod_index) simp
      moreover have "picked = Some (picked_entry (?es ! ?start))"
        using run False 4 by (cases strategy) (auto simp: mixedExpiring_def Let_def)
      ultimately show ?thesis using frame entry nth_mem by simp
    qed
  qed
  then show "same_stores digest s s'"
    "picked \<noteq> None \<Longrightarrow> mixed_outcome digest s predicate groups k keys p picked"
    "picked = None \<Longrightarrow> expiring = []" by (auto split: option.splits)
qed

lemma ready_at_id: "filter (\<lambda>_. True) es = es"
  by simp

lemma mixedBalanced_ok:
  assumes run: "mixedBalanced k p predicate groups now cursorKey keys s env = ((picked, s'), env')"
    and ok: "sched_ok digest s" "groups_ok groups"
  shows "same_stores digest s s' \<and> mixed_outcome digest s predicate groups k keys p picked"
proof -
  obtain es s1 where me: "mixedEntries k p groups (@) keys [] s = (es, s1)" by fastforce
  obtain x c env1 where pl: "pickLeastConcurrentScheduled (sort_key entryID es) (saved_cursor (mixedCursors s1) cursorKey)
      predicate now env = ((x, c), env1)" by (metis prod.collapse)
  have id: "(@) = (\<lambda>out es. out @ filter (\<lambda>_. True) es)" by simp
  from mixedEntries_ok [OF me ok id]
  have e: "same_stores digest s s1" "set (sort_key entryID es) = (\<Union>key \<in> set keys. ready_at digest s (\<lambda>_. True) groups k key p)"
    by simp_all
  have res: "picked = map_option picked_entry x"
    "schedProviders s' = schedProviders s1" "authProviders s' = authProviders s1"
    using run me pl by (auto simp: mixedBalanced_def split: option.splits)
  note ls = least_scheduled [OF pl]
  have "mixed_outcome digest s predicate groups k keys p (map_option picked_entry x)"
    by (rule picked_outcome [OF ok(1) e(2)]) (use ls in blast)+
  then show ?thesis
    using same_stores_trans [OF e(1) same_stores_frame [OF same_storesD(1) [OF e(1)] res(2,3)]] res(1) by simp
qed

lemma mixedWeighted_ok:
  assumes run: "mixedWeighted k p predicate groups cursorKey keys s = (picked, s')"
    and ok: "sched_ok digest s" "groups_ok groups"
    and admits: "\<forall>e. predicate e \<longrightarrow> metaWeight (entryMeta e) > 0"
  shows "same_stores digest s s' \<and> mixed_outcome digest s predicate groups k keys p picked"
proof -
  obtain es s1 where me: "mixedEntries k p groups (@) keys [] s = (es, s1)" by fastforce
  obtain x st where pw: "pickWeightedEntries (sort_key entryID es) predicate (saved_weights (mixedWeightedStates s1) cursorKey) =
      (x, st)" by fastforce
  have id: "(@) = (\<lambda>out es. out @ filter (\<lambda>_. True) es)" by simp
  from mixedEntries_ok [OF me ok id]
  have e: "same_stores digest s s1" "set (sort_key entryID es) = (\<Union>key \<in> set keys. ready_at digest s (\<lambda>_. True) groups k key p)"
    by simp_all
  have res: "picked = map_option picked_entry x"
    "schedProviders s' = schedProviders s1" "authProviders s' = authProviders s1"
    using run me pw by (auto simp: mixedWeighted_def)
  note ls = weighted_scheduled [OF pw admits]
  have "mixed_outcome digest s predicate groups k keys p (map_option picked_entry x)"
    by (rule picked_outcome [OF ok(1) e(2)]) (use ls in blast)+
  then show ?thesis
    using same_stores_trans [OF e(1) same_stores_frame [OF same_storesD(1) [OF e(1)] res(2,3)]] res(1) by simp
qed

text \<open>A pick at one provider, in the terms of the ready entries.\<close>

lemma pickReadyAtPriority_ready:
  assumes ok: "sched_ok digest s" "groups_ok groups" and m: "shardAt s key k = Some m"
    and admits: "\<forall>e. predicate e \<longrightarrow> strategy_admits strategy e"
    and run: "pickReadyAtPriority False p strategy predicate groups now later m env = ((picked, m'), env')"
  shows "same_stores digest s (putShard key k m' s)"
    "case picked of None \<Rightarrow> ready_at digest s predicate groups k key p = {}
     | Some a \<Rightarrow> \<exists>e \<in> ready_at digest s predicate groups k key p. a = entryAuth e"
proof -
  note at = shardAt_ok [OF ok(1) m]
  note same = pickReadyAtPriority_same [OF at(1) ok(2) run]
  show "same_stores digest s (putShard key k m' s)" by (rule putShard_stores [OF ok(1) m same])
  have ready: "ready_at digest s predicate groups k key p =
      {e. \<exists>i \<in> pick_set (summaries digest (entries m)) False groups p. glookup (entries m) i = Some e \<and> predicate e}"
    using m by (auto simp: ready_at_def store_at_def)
  show "case picked of None \<Rightarrow> ready_at digest s predicate groups k key p = {}
     | Some a \<Rightarrow> \<exists>e \<in> ready_at digest s predicate groups k key p. a = entryAuth e"
  proof (cases "glookup (readyByPriority m) p")
    case None
    then show ?thesis using run no_bucket [OF at(1) None] ready by (auto simp: pickReadyAtPriority_def)
  next
    case (Some b)
    then have p: "p \<in> fst ` set (readyByPriority m)" using glookup_in_keys [of "readyByPriority m" p] by simp
    from pickReadyAtPriority_ok(3) [OF at(1) ok(2) refl p run] show ?thesis
      using ready admits by (auto simp: pick_result_def split: option.splits)
  qed
qed

lemma mixedFillFirst_ok:
  assumes "mixedFillFirst k p predicate groups clock i keys s env = ((picked, s'), env')"
    and "sched_ok digest s" "groups_ok groups"
    and "\<forall>e. predicate e \<longrightarrow> strategy_admits schedulerStrategyFillFirst e"
  shows "same_stores digest s s' \<and> mixed_outcome digest s predicate groups k keys p picked"
  using assms(1,2)
proof (induction keys arbitrary: i s env)
  case Nil
  then show ?case by (simp add: same_stores_refl mixed_outcome_def)
next
  case (Cons key keys)
  show ?case
  proof (cases "shardAt s key k")
    case None
    then have "mixedFillFirst k p predicate groups clock (Suc i) keys s env = ((picked, s'), env')"
      using Cons.prems(1) by simp
    from Cons.IH [OF this Cons.prems(2)] show ?thesis
      using ready_at_none [OF None] by (auto simp: mixed_outcome_def split: option.splits)
  next
    case (Some m)
    obtain x m1 env1 where pr: "pickReadyAtPriority False p schedulerStrategyFillFirst predicate groups
        (clock (2 * i + 1)) (clock (2 * i + 2)) m env = ((x, m1), env1)" by (metis prod.collapse)
    note r = pickReadyAtPriority_ready [OF Cons.prems(2) assms(3) Some assms(4) pr]
    show ?thesis
    proof (cases x)
      case none: None
      then have run: "mixedFillFirst k p predicate groups clock (Suc i) keys (putShard key k m1 s) env1 = ((picked, s'), env')"
        using Cons.prems(1) Some pr by simp
      from Cons.IH [OF run same_storesD(1) [OF r(1)]] show ?thesis
        using same_stores_trans [OF r(1)] ready_at_stores [OF r(1)] r(2) none
        by (auto simp: mixed_outcome_def split: option.splits)
    next
      case (Some a)
      then have "picked = Some (a, key)" "s' = putShard key k m1 s"
        using Cons.prems(1) \<open>shardAt s key k = Some m\<close> pr by simp_all
      then show ?thesis using r Some by (auto simp: mixed_outcome_def)
    qed
  qed
qed

text \<open>The weights of the rotation are the numbers of ready entries.\<close>

lemma mixedWeights_ok:
  assumes "mixedWeights k p predicate groups keys s = (ws, s')" and "sched_ok digest s" "groups_ok groups"
  shows "same_stores digest s s' \<and> length ws = length keys \<and>
    (\<forall>i < length keys. ws ! i = 0 \<longleftrightarrow> ready_at digest s predicate groups k (keys ! i) p = {})"
  using assms(1,2)
proof (induction keys arbitrary: s s' ws)
  case Nil
  then show ?case by (simp add: same_stores_refl)
next
  case (Cons key keys)
  show ?case
  proof (cases "shardAt s key k")
    case None
    obtain rest s1 where rest: "mixedWeights k p predicate groups keys s = (rest, s1)" by fastforce
    have "ws = 0 # rest" "s' = s1" using Cons.prems(1) None rest by simp_all
    with Cons.IH [OF rest Cons.prems(2)] show ?thesis
      using ready_at_none [OF None] by (auto simp: nth_Cons split: nat.splits)
  next
    case (Some m)
    note at = shardAt_ok [OF Cons.prems(2) Some]
    obtain w m1 where rc: "readyCountAtPriority False p predicate groups m = (w, m1)" by fastforce
    note same = readyCountAtPriority_same [OF at(1) assms(3) rc]
    have st: "same_stores digest s (putShard key k m1 s)" by (rule putShard_stores [OF Cons.prems(2) Some same])
    obtain rest s1 where rest: "mixedWeights k p predicate groups keys (putShard key k m1 s) = (rest, s1)" by fastforce
    have res: "ws = w # rest" "s' = s1" using Cons.prems(1) Some rc rest by simp_all
    let ?A = "{i \<in> pick_set (summaries digest (entries m)) False groups p. \<exists>e. glookup (entries m) i = Some e \<and> predicate e}"
    have w: "w = card ?A" using readyCountAtPriority_ok(3) [OF at(1) assms(3) refl rc] by simp
    have "?A \<subseteq> fst ` set (entries m)" by (auto dest: map_of_SomeD intro: rev_image_eqI)
    then have "finite ?A" by (rule finite_subset) simp
    then have "w = 0 \<longleftrightarrow> ready_at digest s predicate groups k key p = {}"
      using w Some by (auto simp: ready_at_def store_at_def)
    then show ?thesis
      using Cons.IH [OF rest same_storesD(1) [OF st]] res same_stores_trans [OF st] ready_at_stores [OF st]
      by (auto simp: nth_Cons split: nat.splits)
  qed
qed

lemma startProvider_some:
  assumes "startSlot < sum_list ws"
  shows "\<exists>i < length ws. startProvider ws startSlot = Some i \<and> ws ! i \<noteq> 0"
proof -
  let ?P = "\<lambda>i. ws ! i \<noteq> 0 \<and> startSlot < sum_list (take (Suc i) ws)"
  have "\<exists>i < length ws. startSlot < sum_list (take (Suc i) ws)"
    using assms by (intro exI [of _ "length ws - 1"]) (cases ws, simp_all)
  then obtain i where i: "i < length ws" "startSlot < sum_list (take (Suc i) ws)"
    "\<And>j. j < i \<Longrightarrow> \<not> startSlot < sum_list (take (Suc j) ws)"
    using exists_least_iff [of "\<lambda>i. i < length ws \<and> startSlot < sum_list (take (Suc i) ws)"] by (metis less_trans)
  have "\<not> startSlot < sum_list (take i ws)" using i(3) [of "i - 1"] by (cases i) simp_all
  then have "?P i" using i(1,2) by (auto simp: take_Suc_conv_app_nth)
  then have "find ?P [0..<length ws] \<noteq> None" using i(1) by (auto simp: find_None_iff)
  then obtain j where j: "find ?P [0..<length ws] = Some j" by blast
  then have "j < length ws \<and> ?P j" by (auto simp: find_Some_iff)
  then show ?thesis using j unfolding startProvider_def by blast
qed

lemma mixedRotate_ok:
  assumes "mixedRotate k p predicate groups clock cursorKey keys ws start slot offsets s env = ((picked, s'), env')"
    and "sched_ok digest s" "groups_ok groups" "length ws = length keys" "keys \<noteq> []"
    and "\<forall>e. predicate e \<longrightarrow> strategy_admits schedulerStrategyRoundRobin e"
    and "\<forall>i < length keys. ws ! i = 0 \<longleftrightarrow> ready_at digest s predicate groups k (keys ! i) p = {}"
  shows "same_stores digest s s' \<and>
    (case picked of
       None \<Rightarrow> \<forall>offset \<in> set offsets. ready_at digest s predicate groups k (keys ! ((start + offset) mod length keys)) p = {}
     | Some (a, key) \<Rightarrow> key \<in> set keys \<and> (\<exists>e \<in> ready_at digest s predicate groups k key p. a = entryAuth e))"
  using assms(1,2,7)
proof (induction offsets arbitrary: slot s env)
  case Nil
  then show ?case by (simp add: same_stores_refl)
next
  case (Cons offset offsets)
  let ?i = "(start + offset) mod length keys"
  have i: "?i < length keys" using assms(5) by simp
  show ?case
  proof (cases "ws ! ?i = 0")
    case True
    then have "mixedRotate k p predicate groups clock cursorKey keys ws start slot offsets s env = ((picked, s'), env')"
      using Cons.prems(1) by (simp add: Let_def)
    from Cons.IH [OF this Cons.prems(2,3)] show ?thesis using True Cons.prems(3) i by (auto split: option.splits)
  next
    case False
    then have some: "ready_at digest s predicate groups k (keys ! ?i) p \<noteq> {}"
      using Cons.prems(3) [rule_format, OF i] by simp
    obtain m where m: "shardAt s (keys ! ?i) k = Some m"
    proof (cases "shardAt s (keys ! ?i) k")
      case None
      then show ?thesis using ready_at_none [OF None] some by blast
    next
      case (Some m)
      then show ?thesis by (rule that)
    qed
    obtain x m1 env1 where pr: "pickReadyAtPriority False p schedulerStrategyRoundRobin predicate groups
        (clock (2 * offset + 1)) (clock (2 * offset + 2)) m env = ((x, m1), env1)" by (metis prod.collapse)
    note r = pickReadyAtPriority_ready [OF Cons.prems(2) assms(3) m assms(6) pr]
    obtain a where a: "x = Some a" "\<exists>e \<in> ready_at digest s predicate groups k (keys ! ?i) p. a = entryAuth e"
    proof (cases x)
      case None
      then show ?thesis using r(2) some by simp
    next
      case (Some a)
      then show ?thesis using r(2) that by simp
    qed
    have res: "picked = Some (a, keys ! ?i)"
      "schedProviders s' = schedProviders (putShard (keys ! ?i) k m1 s)" "authProviders s' = authProviders (putShard (keys ! ?i) k m1 s)"
      using Cons.prems(1) False m pr a(1) by (auto simp: Let_def)
    then show ?thesis
      using same_stores_trans [OF r(1) same_stores_frame [OF same_storesD(1) [OF r(1)] res(2,3)]] a(2) i by simp
  qed
qed

lemma mixedRoundRobin_ok:
  assumes run: "mixedRoundRobin k p predicate groups clock cursorKey keys s env = ((picked, s'), env')"
    and ok: "sched_ok digest s" "groups_ok groups"
    and admits: "\<forall>e. predicate e \<longrightarrow> strategy_admits schedulerStrategyRoundRobin e"
  shows "same_stores digest s s' \<and> mixed_outcome digest s predicate groups k keys p picked"
proof -
  obtain ws s1 where mw: "mixedWeights k p predicate groups keys s = (ws, s1)" by fastforce
  have s1: "same_stores digest s s1" and len: "length ws = length keys"
    and ws: "\<forall>i < length keys. ws ! i = 0 \<longleftrightarrow> ready_at digest s1 predicate groups k (keys ! i) p = {}"
    using mixedWeights_ok [OF mw ok] ready_at_stores by (blast, blast, metis)
  show ?thesis
  proof (cases "sum_list ws = 0")
    case True
    then have "picked = None" "s' = s1" using run mw by (simp_all add: mixedRoundRobin_def)
    moreover have "\<forall>key \<in> set keys. ready_at digest s1 predicate groups k key p = {}"
    proof
      fix key assume "key \<in> set keys"
      then obtain i where i: "i < length keys" "key = keys ! i" by (auto simp: in_set_conv_nth)
      then have "ws ! i \<in> set ws" using len by (intro nth_mem) simp
      then have "ws ! i = 0" using True by simp
      then show "ready_at digest s1 predicate groups k key p = {}" using ws i by blast
    qed
    ultimately show ?thesis using s1 ready_at_stores [OF s1] by (simp add: mixed_outcome_def)
  next
    case False
    let ?slot = "nat (go_mod (saved_cursor (mixedCursors s1) cursorKey) (int (sum_list ws)))"
    have "?slot < sum_list ws" using False by (intro go_mod_index) linarith
    then obtain start where start: "start < length ws" "startProvider ws ?slot = Some start" "ws ! start \<noteq> 0"
      using startProvider_some by blast
    have ne: "keys \<noteq> []" using start(1) len by auto
    have rot: "mixedRotate k p predicate groups clock cursorKey keys ws start ?slot [0..<length keys] s1 env = ((picked, s'), env')"
      using run mw False start(2) by (simp add: mixedRoundRobin_def Let_def del: sum_list_eq_0_iff)
    note r = mixedRotate_ok [OF rot same_storesD(1) [OF s1] ok(2) len ne admits ws]
    have "ready_at digest s1 predicate groups k (keys ! start) p \<noteq> {}" using ws start(1,3) len by auto
    moreover have "0 \<in> set [0..<length keys]" "(start + 0) mod length keys = start" using start(1) len ne by simp_all
    ultimately have "picked \<noteq> None" using r by (cases picked) force+
    then show ?thesis
      using r same_stores_trans [OF s1] ready_at_stores [OF s1] by (auto simp: mixed_outcome_def)
  qed
qed

lemma mixedStrategyPick_ok:
  assumes run: "mixedStrategyPick strategy k p predicate groups clock cursorKey keys s env = ((picked, s'), env')"
    and ok: "sched_ok digest s" "groups_ok groups"
    and admits: "\<forall>e. predicate e \<longrightarrow> strategy_admits strategy e"
  shows "same_stores digest s s'" "mixed_outcome digest s predicate groups k keys p picked"
proof -
  have none: "\<forall>e. predicate e \<longrightarrow> strategy_admits st e" if "st \<noteq> schedulerStrategyWeightedRoundRobin" for st
    using that by (simp add: strategy_admits_def)
  consider "strategy = schedulerStrategyFillFirst" | "strategy = schedulerStrategyWeightedRoundRobin"
    | "strategy = schedulerStrategyConcurrencyBalanced"
    | "strategy \<notin> {schedulerStrategyFillFirst, schedulerStrategyWeightedRoundRobin, schedulerStrategyConcurrencyBalanced}"
    by blast
  then have "same_stores digest s s' \<and> mixed_outcome digest s predicate groups k keys p picked"
  proof cases
    case 1
    then have "mixedFillFirst k p predicate groups clock 0 keys s env = ((picked, s'), env')"
      using run by (simp add: mixedStrategyPick_def)
    from mixedFillFirst_ok [OF this ok none] show ?thesis by simp
  next
    case 2
    then have "mixedWeighted k p predicate groups cursorKey keys s = (picked, s')"
      using run by (auto simp: mixedStrategyPick_def prod_eq_iff)
    from mixedWeighted_ok [OF this ok] show ?thesis using admits 2 by (simp add: strategy_admits_def)
  next
    case 3
    then have "mixedBalanced k p predicate groups (clock 0) cursorKey keys s env = ((picked, s'), env')"
      using run by (simp add: mixedStrategyPick_def)
    from mixedBalanced_ok [OF this ok] show ?thesis .
  next
    case 4
    then have "mixedRoundRobin k p predicate groups clock cursorKey keys s env = ((picked, s'), env')"
      using run by (cases strategy) (simp_all add: mixedStrategyPick_def)
    from mixedRoundRobin_ok [OF this ok none] show ?thesis by simp
  qed
  then show "same_stores digest s s'" "mixed_outcome digest s predicate groups k keys p picked" by blast+
qed

section \<open>The state kept for group selections\<close>

lemma retain_frame:
  "schedProviders (retainMixedGroupStateKey key s) = schedProviders s"
  "authProviders (retainMixedGroupStateKey key s) = authProviders s"
  by (simp_all add: retainMixedGroupStateKey_def Let_def)

section \<open>Errors\<close>

lemma mixedSummary_ok:
  assumes "mixedSummary digest mkey now predicate keys acc s env = (((n, cooling, earliest), s'), env')"
    and "sched_ok digest s" "0 \<le> fst acc" and pred: "\<And>e. predicate e \<longleftrightarrow> allowed (entryMeta e)"
    and k: "k = canonicalModelKey mkey"
  shows "same_sched digest s s' \<and> 0 \<le> n \<and>
    (n = 0 \<longleftrightarrow> fst acc = 0 \<and> (\<forall>key \<in> set keys. request_candidates s key k allowed = {}))"
  using assms(1-3)
proof (induction keys arbitrary: acc s env)
  case Nil
  then show ?case by (cases acc) (auto simp: same_sched_refl)
next
  case (Cons key keys)
  obtain a b c where acc: "acc = (a, b, c)" by (metis prod.collapse)
  obtain found s1 env1 where es: "ensureShard digest key mkey now s env = ((found, s1), env1)" by (metis prod.collapse)
  note e = ensureShard_ok [OF Cons.prems(2) es, folded k]
  note same = request_candidates_same [OF e(1)]
  show ?case
  proof (cases found)
    case None
    then have run: "mixedSummary digest mkey now predicate keys (a, b, c) s1 env1 = (((n, cooling, earliest), s'), env')"
      using Cons.prems(1) es by (simp add: acc)
    have "credentials_at s key i = None" for i
      using e(2) None by (auto simp: credentials_at_def elim: sched_ok_registered [OF Cons.prems(2)])
    then have "request_candidates s key k allowed = {}" by (simp add: request_candidates_def)
    then show ?thesis
      using Cons.IH [OF run same_sched_ok [OF e(1)]] Cons.prems(3) same_sched_trans [OF e(1)] same by (simp add: acc)
  next
    case (Some m)
    obtain ln lc le where sum: "availabilitySummary digest predicate m = (ln, lc, le)" by (metis prod.collapse)
    obtain c' where run: "mixedSummary digest mkey now predicate keys (a + ln, b + lc, c') s1 env1 =
        (((n, cooling, earliest), s'), env')"
      using Cons.prems(1) es Some sum by (auto simp: acc)
    have m: "shard_ok digest m" "shard_of m s key k" using e(2) Some by simp_all
    then have eok: "entries_ok digest (entries m)" by (simp add: shard_ok_def)
    have ln: "0 \<le> ln" "ln = 0 \<longleftrightarrow> request_candidates s key k allowed = {}"
      using summary_count(1) [OF eok sum] unique_nonempty [OF eok, of predicate]
        no_candidates_iff [where predicate = predicate and allowed = allowed, OF m pred] by simp_all
    have "0 \<le> fst (a + ln, b + lc, c')" using Cons.prems(3) ln(1) by (simp add: acc)
    from Cons.IH [OF run same_sched_ok [OF e(1)] this] show ?thesis
      using ln Cons.prems(3) same_sched_trans [OF e(1)] same by (auto simp: acc)
  qed
qed

lemma mixedUnavailableError_ok:
  assumes run: "mixedUnavailableError digest keys model predicate now s env = ((e, s'), env')"
    and ok: "sched_ok digest s" and pred: "\<And>e. predicate e \<longleftrightarrow> allowed (entryMeta e)"
    and k: "k = canonicalModelKey (canonicalModelKey model)"
  shows "same_sched digest s s'"
    "e = auth_not_found \<longleftrightarrow> (\<forall>key \<in> set keys. request_candidates s key k allowed = {})"
proof -
  obtain n c t s1 env1 where sum: "mixedSummary digest (canonicalModelKey model) now predicate keys (0, 0, zeroTime) s env =
      (((n, c, t), s1), env1)" by (metis prod.collapse)
  have "0 \<le> fst (0 :: int, 0 :: int, zeroTime)" by simp
  note m = mixedSummary_ok [where allowed = allowed, OF sum ok this pred k]
  have "s' = s1" "e = auth_not_found \<longleftrightarrow> n = 0"
    using run by (auto simp: mixedUnavailableError_def sum newModelCooldownError_def Let_def split: if_splits)
  then show "same_sched digest s s'"
    "e = auth_not_found \<longleftrightarrow> (\<forall>key \<in> set keys. request_candidates s key k allowed = {})"
    using m by simp_all
qed

lemma mixedCandidates_sound:
  assumes ok: "sched_ok digest s" and a: "a \<in> set (mixedCandidates digest k predicate keys s)"
    and pred: "\<And>e. predicate e \<longleftrightarrow> allowed (entryMeta e)"
  shows "\<exists>key \<in> set keys. \<exists>meta \<in> request_candidates s key k allowed. metaAuth meta = a"
  using a
proof (induction keys)
  case (Cons key keys)
  show ?case
  proof (cases "\<exists>m. shardAt s key k = Some m \<and> a \<in> set (candidateAuths digest predicate m)")
    case True
    then obtain m where m: "shardAt s key k = Some m" "a \<in> set (candidateAuths digest predicate m)" by blast
    from candidateAuths_sound [where allowed = allowed, OF shardAt_ok(1,3) [OF ok m(1)] m(2) pred] show ?thesis by auto
  next
    case False
    then show ?thesis using Cons by (auto split: option.splits)
  qed
qed simp

section \<open>A pick over several providers\<close>

lemma normalizeProviderKeys_distinct: "distinct (normalizeProviderKeys provs)"
proof -
  have "distinct (fold (\<lambda>provider out. let key = to_lower (trim_space provider)
          in if key = '''' \<or> key \<in> set out then out else out @ [key]) provs out)" if "distinct out" for out
    using that by (induction provs arbitrary: out) (auto simp: Let_def)
  then show ?thesis by (simp add: normalizeProviderKeys_def)
qed

abbreviation mixed_candidates ::
  "authScheduler \<Rightarrow> string \<Rightarrow> string \<Rightarrow> schedRequest \<Rightarrow> string \<Rightarrow> schedulerStrategy \<Rightarrow> scheduledAuthMeta set" where
  "mixed_candidates s model key req pinned strategy \<equiv>
     request_candidates s key (canonicalModelKey (canonicalModelKey model)) (request_allows req pinned strategy)"

lemma mixedBest_fallback:
  "mixedBest digest mkey now predicate groups keys best s env = ((best', s'), env') \<Longrightarrow> quotaFallback s' = quotaFallback s"
proof (induction keys arbitrary: best s env)
  case (Cons key keys)
  obtain found s1 env1 where es: "ensureShard digest key mkey now s env = ((found, s1), env1)" by (metis prod.collapse)
  have "quotaFallback s1 = quotaFallback s" using ensureShard_fallback [of digest key mkey now s env] es by simp
  then show ?case using Cons es by (cases found) (auto split: prod.splits)
qed simp

text \<open>
  The result of a mixed pick: a candidate of the provider it names, at no lower priority than any
  ready entry of the providers, or an error when none of them has a ready entry. The state \<open>s1\<close>
  is the one after the shards were brought up to date.
\<close>

definition mixed_result ::
  "(string \<Rightarrow> string) \<Rightarrow> authScheduler \<Rightarrow> authScheduler \<Rightarrow> (scheduledAuth \<Rightarrow> bool) \<Rightarrow> (scheduledAuthMeta \<Rightarrow> bool) \<Rightarrow>
     accountGroupSelection option \<Rightarrow> string \<Rightarrow> string list \<Rightarrow> select_error + Auth \<times> string \<Rightarrow> bool" where
  "mixed_result digest s s1 predicate allowed groups k keys r \<longleftrightarrow>
     (case r of
        Inl e \<Rightarrow> (\<forall>key \<in> set keys. \<forall>p. ready_at digest s1 predicate groups k key p = {}) \<and>
          (e = auth_not_found \<longleftrightarrow> (\<forall>key \<in> set keys. request_candidates s key k allowed = {}))
      | Inr (a, key) \<Rightarrow> key \<in> set keys \<and>
          (\<exists>meta \<in> request_candidates s key k allowed. served_as (metaAuth meta) a \<and>
             (\<forall>key' \<in> set keys. \<forall>p. ready_at digest s1 predicate groups k key' p \<noteq> {} \<longrightarrow> p \<le> metaPriority meta)))"

lemma mixed_outcome_result:
  assumes ok: "sched_ok digest s1" and same: "request_candidates s1 = request_candidates s"
    and out: "mixed_outcome digest s1 predicate groups k keys best (Some (a, key))"
    and pred: "\<And>e. predicate e \<longleftrightarrow> allowed (entryMeta e)"
    and best: "\<forall>key \<in> set keys. \<forall>p. ready_at digest s1 predicate groups k key p \<noteq> {} \<longrightarrow> p \<le> best"
  shows "mixed_result digest s s1 predicate allowed groups k keys (Inr (a, key))"
proof -
  obtain e where e: "key \<in> set keys" "e \<in> ready_at digest s1 predicate groups k key best" "a = entryAuth e"
    using out by (auto simp: mixed_outcome_def)
  note c = ready_at_candidate [where allowed = allowed, OF ok e(2) pred]
  have "entryMeta e \<in> request_candidates s key k allowed" "metaPriority (entryMeta e) = best"
    using c(1,2) same by auto
  then show ?thesis using e best unfolding mixed_result_def sum.case prod.case
    by (intro conjI bexI [where x = "entryMeta e"]) simp_all
qed

lemma pickMixed_spec:
  assumes ok: "sched_ok digest s" and fallback: "fallback_ok s"
    and run: "pickMixedWithStrategy digest provs model req strategy clock s env = ((r, s'), env')"
    and keys: "keys = normalizeProviderKeys provs" "length keys \<ge> 2"
    and free: "pinnedAuthIDFromMetadata (optMetadata req) = ''''"
    and predicate: "predicate = request_predicate req '''' (resolved s strategy)"
    and groups: "groups = accountGroups (request_eligibility req)"
    and k: "k = canonicalModelKey (canonicalModelKey model)"
    and best: "mixedBest digest (canonicalModelKey model) (clock 0) predicate groups keys None s env = ((best, s1), env1)"
  shows "same_sched digest s s'"
    "mixed_result digest s s1 predicate (request_allows req '''' (resolved s strategy)) groups k keys r"
proof -
  let ?strat = "resolved s strategy" and ?mkey = "canonicalModelKey model"
  let ?allowed = "request_allows req '''' ?strat"
  have pred: "predicate e \<longleftrightarrow> ?allowed (entryMeta e)" for e unfolding predicate by (rule request_predicate_iff)
  have admits: "\<forall>e. predicate e \<longrightarrow> strategy_admits ?strat e" unfolding predicate by (simp add: request_predicate_admits)
  have gok: "groups_ok groups" unfolding groups by (rule request_groups_ok)
  have dist: "distinct keys" by (simp add: keys normalizeProviderKeys_distinct)
  note mb = mixedBest_ok [OF best ok gok dist k]
  have s1: "same_sched digest s s1" using mb by blast
  note ok1 = same_sched_ok [OF s1] and same1 = request_candidates_same [OF s1]
  define unavailable where "unavailable = (\<lambda>s env.
      let ((e, s), env) = mixedUnavailableError digest keys model predicate (clock (2 * length keys + 1)) s env
      in ((Inl e, s), env :: limits_env) :: ((select_error + Auth \<times> string) \<times> authScheduler) \<times> limits_env)"
  have unav: "same_sched digest s2 s3 \<and> (\<exists>e. r = Inl e \<and>
      (e = auth_not_found \<longleftrightarrow> (\<forall>key \<in> set keys. request_candidates s2 key k ?allowed = {})))"
    if "unavailable s2 env2 = ((r, s3), env3)" "sched_ok digest s2" for s2 s3 env2 env3 r
  proof -
    obtain e s4 env4 where run: "mixedUnavailableError digest keys model predicate (clock (2 * length keys + 1)) s2 env2 =
        ((e, s4), env4)" by (metis prod.collapse)
    from mixedUnavailableError_ok [where allowed = ?allowed, OF run that(2) pred k] show ?thesis
      using that(1) run by (auto simp: unavailable_def)
  qed
  note fb = mixedBest_fallback [OF best]
  have len: "length keys \<noteq> 0" "length keys \<noteq> 1" using keys(2) by linarith+
  note run' = run [unfolded pickMixedWithStrategy_def, folded keys(1)]
  have main: "same_sched digest s s' \<and> mixed_result digest s s1 predicate ?allowed groups k keys r"
  proof (cases best)
    case None
    then have empty: "\<forall>key \<in> set keys. \<forall>p. ready_at digest s1 predicate groups k key p = {}" using mb by simp
    obtain found env2 where f: "(case quotaFallback s1 of
          Some f \<Rightarrow> if containsProvider keys ''codex'' then f (mixedCandidates digest k predicate keys s1) model (clock 0) env1
                    else (None, env1)
        | None \<Rightarrow> (None, env1)) = (found, env2)" by (metis prod.collapse)
    have res: "((r, s'), env') = (case found of Some a \<Rightarrow> ((Inr (a, executorKeyFromAuth a), s1), env2) | None \<Rightarrow> unavailable s1 env2)"
      using run' free None best f len
      unfolding Let_def predicate [symmetric] groups [symmetric] k [symmetric] unavailable_def
      by simp
    show ?thesis
    proof (cases found)
      case none: None
      have "unavailable s1 env2 = ((r, s'), env')" using res none by simp
      from unav [OF this ok1, unfolded same1] obtain e where
        e: "same_sched digest s1 s'" "r = Inl e"
          "e = auth_not_found \<longleftrightarrow> (\<forall>key \<in> set keys. request_candidates s key k ?allowed = {})" by blast
      show ?thesis using same_sched_trans [OF s1 e(1)] empty e(3) unfolding mixed_result_def e(2) sum.case by blast
    next
      case (Some a)
      then have r: "r = Inr (a, executorKeyFromAuth a)" "s' = s1" using res by simp_all
      obtain q where "quotaFallback s = Some q" "q (mixedCandidates digest k predicate keys s1) model (clock 0) env1 = (Some a, env2)"
        using f fb Some by (auto split: option.splits if_splits)
      then obtain b where b: "b \<in> set (mixedCandidates digest k predicate keys s1)" "served_as b a"
        using fallback unfolding fallback_ok_def by blast
      from mixedCandidates_sound [where allowed = ?allowed, OF ok1 b(1) pred] obtain key meta where
        c: "key \<in> set keys" "meta \<in> request_candidates s key k ?allowed" "served_as (metaAuth meta) a"
        using same1 b(2) by auto
      have "executorKeyFromAuth a = key"
        using c(2) served_as_same [OF c(3)] credentials_meta(1) [OF ok, of key "ID (metaAuth meta)" meta]
        by (simp add: request_candidates_def sched_meta_def)
      then show ?thesis using r s1 c empty unfolding mixed_result_def by auto
    qed
  next
    case (Some b)
    let ?cursor = "mixedCursorKey keys ?mkey groups"
    have top: "\<forall>key \<in> set keys. \<forall>p. ready_at digest s1 predicate groups k key p \<noteq> {} \<longrightarrow> p \<le> b"
      and some: "\<exists>key \<in> set keys. ready_at digest s1 predicate groups k key b \<noteq> {}"
      using mb Some by simp_all
    define s2 where "s2 = (case groups of
        Some g \<Rightarrow> if selectionKey g \<noteq> '''' \<and> ?strat \<noteq> schedulerStrategyFillFirst then retainMixedGroupStateKey ?cursor s1 else s1
      | None \<Rightarrow> s1)"
    have "schedProviders s2 = schedProviders s1" "authProviders s2 = authProviders s1"
      by (auto simp: s2_def retain_frame split: option.splits)
    then have s2: "same_stores digest s1 s2" by (rule same_stores_frame [OF ok1])
    let ?collect = "\<lambda>out es. appendExpiringScheduledEntries out es predicate (clock 0)"
    obtain expiring s3 where me: "mixedEntries k b groups ?collect keys [] s2 = (expiring, s3)" by fastforce
    obtain x s4 env2 where mx: "mixedExpiring ?strat ?cursor predicate (clock 0) expiring s3 env1 = ((x, s4), env2)"
      by (metis prod.collapse)
    obtain y s5 env3 where my: "mixedStrategyPick ?strat k b predicate groups clock ?cursor keys s4 env2 = ((y, s5), env3)"
      by (metis prod.collapse)
    have res: "((r, s'), env') = (case x of Some z \<Rightarrow> ((Inr z, s4), env2)
        | None \<Rightarrow> (case y of Some z \<Rightarrow> ((Inr z, s5), env3) | None \<Rightarrow> unavailable s5 env3))"
      using run' free Some best me mx my len
      unfolding Let_def predicate [symmetric] groups [symmetric] k [symmetric] unavailable_def
      by (cases x; cases y) (simp_all add: s2_def [symmetric])
    have collect: "?collect = (\<lambda>out es. out @ filter (\<lambda>e. scheduledAuthExpiryPriorityEligible e (clock 0) \<and> predicate e) es)"
      by (simp add: appendExpiringScheduledEntries_def fun_eq_iff)
    note e = mixedEntries_ok [OF me same_storesD(1) [OF s2] gok collect]
    have s3: "same_stores digest s1 s3" using same_stores_trans [OF s2] e by blast
    have "set expiring \<subseteq> (\<Union>key \<in> set keys. ready_at digest s3 predicate groups k key b)"
      using e ready_at_stores [OF s2] ready_at_stores [OF s3] by (auto simp: ready_at_def)
    note ex = mixedExpiring_ok [OF mx same_storesD(1) [OF s3] this admits]
    have s4: "same_stores digest s1 s4" by (rule same_stores_trans [OF s3 ex(1)])
    note sp = mixedStrategyPick_ok [OF my same_storesD(1) [OF s4] gok admits]
    have s5: "same_stores digest s1 s5" by (rule same_stores_trans [OF s4 sp(1)])
    have out: "mixed_result digest s s1 predicate ?allowed groups k keys (Inr (a, key))"
      if "mixed_outcome digest s1 predicate groups k keys b (Some (a, key))" for a key
      by (rule mixed_outcome_result [OF ok1 same1 that pred top])
    show ?thesis
    proof (cases x)
      case (Some z)
      then have "mixed_outcome digest s1 predicate groups k keys b (Some z)"
        using ex(2) unfolding mixed_outcome_def ready_at_stores [OF s3] by simp
      then show ?thesis using res Some out same_sched_trans [OF s1 same_storesD(2) [OF s4]] by (cases z) simp
    next
      case none: None
      have o: "mixed_outcome digest s1 predicate groups k keys b y"
        using sp(2) unfolding mixed_outcome_def ready_at_stores [OF s4] .
      then obtain z where z: "y = Some z" using some by (cases y) (auto simp: mixed_outcome_def)
      then show ?thesis using res none o out same_sched_trans [OF s1 same_storesD(2) [OF s5]] by (cases z) simp
    qed
  qed
  then show "same_sched digest s s'"
    "mixed_result digest s s1 predicate (request_allows req '''' (resolved s strategy)) groups k keys r" by blast+
qed

end
