(* ===== verification/SchedulerProps.thy ===== *)
theory SchedulerProps
  imports MixedPick
begin

text \<open>
  The properties of the scheduler: its tables agree with one map of credentials whatever
  operations it has gone through, and what a pick returns.
\<close>

section \<open>Pinned requests\<close>

lemma credentials_at_key:
  assumes "sched_ok digest s"
  shows "credentials_at s key i = (case credentials s i of None \<Rightarrow> None
     | Some meta \<Rightarrow> if providerKey meta = key then Some meta else None)"
proof (cases "glookup (authProviders s) i")
  case None
  then show ?thesis by (simp add: credentials_at_def credentials_def)
next
  case (Some k)
  then obtain meta where m: "credentials s i = Some meta"
    using credentials_registered [OF assms, of i] by (cases "credentials s i") auto
  then have "credentials_at s k i = Some meta" using Some by (simp add: credentials_at_def)
  then have "providerKey meta = k" using credentials_meta(1) [OF assms] by (auto simp: sched_meta_def)
  then show ?thesis using Some m by (simp add: credentials_at_def)
qed

lemma pickPinned_spec:
  assumes ok: "sched_ok digest s" and pinned: "pinned \<noteq> ''''"
    and run: "pickPinned digest keys model req pinned strategy clock s env = ((r, s'), env')"
  shows "same_sched digest s s' \<and>
    (case r of
       Inl e \<Rightarrow> e = auth_not_found \<longleftrightarrow> (\<forall>key \<in> set keys. mixed_candidates s model key req pinned strategy = {})
     | Inr (a, key) \<Rightarrow> key \<in> set keys \<and> (\<exists>meta \<in> mixed_candidates s model key req pinned strategy. served_as (metaAuth meta) a))"
proof -
  let ?key = "registered_provider s pinned"
  let ?mkey = "canonicalModelKey model" and ?C = "\<lambda>key. mixed_candidates s model key req pinned strategy"
  have only: "?C key = {}" if "glookup (authProviders s) pinned \<noteq> Some key" for key
    using that pinned by (auto simp: request_candidates_def request_allows_def credentials_at_def split: if_splits)
  show ?thesis
  proof (cases "?key = '''' \<or> \<not> containsProvider keys ?key")
    case True
    then have r: "r = Inl auth_not_found" "s' = s" using run by (simp_all add: pickPinned_def Let_def)
    have "?C key = {}" if "key \<in> set keys" for key
    proof (rule only)
      show "glookup (authProviders s) pinned \<noteq> Some key"
        using True that by (auto simp: containsProvider_def list_ex_iff elim: sched_ok_registered [OF ok])
    qed
    then show ?thesis using r same_sched_refl [OF ok] by simp
  next
    case False
    then have reg: "glookup (authProviders s) pinned = Some ?key" "?key \<in> set keys"
      by (auto simp: containsProvider_def list_ex_iff split: option.splits)
    have all: "(\<forall>key \<in> set keys. ?C key = {}) \<longleftrightarrow> ?C ?key = {}"
      using only reg by (metis option.inject)
    obtain found s1 env1 where es: "ensureShard digest ?key ?mkey (clock 0) s env = ((found, s1), env1)"
      by (metis prod.collapse)
    note e = ensureShard_ok [OF ok es]
    obtain p where "glookup (schedProviders s) ?key = Some p" by (rule sched_ok_registered [OF ok reg(1)])
    then obtain m where found: "found = Some m" using e(2) by (cases found) auto
    then have m: "shard_ok digest m" "shardAt s1 ?key (canonicalModelKey ?mkey) = Some m"
      "shard_of m s ?key (canonicalModelKey ?mkey)" using e(2) by simp_all
    define predicate where "predicate = request_predicate req pinned strategy"
    have pred: "predicate e \<longleftrightarrow> request_allows req pinned strategy (entryMeta e)" for e
      unfolding predicate_def by (rule request_predicate_iff)
    obtain picked m2 env2 where pr: "pickReady digest False strategy predicate (accountGroups (request_eligibility req))
        (clock 1) (clock 2) (clock 3) m env1 = ((picked, m2), env2)" by (metis prod.collapse)
    note same = pickReady_same(1) [OF m(1) request_groups_ok pr]
    have frame: "same_sched digest s (putShard ?key (canonicalModelKey ?mkey) m2 s1)"
      by (rule same_sched_trans [OF e(1) putShard_ok(1) [OF same_sched_ok [OF e(1)] m(2) same]])
    have m2: "shard_ok digest m2" "shard_of m2 s ?key (canonicalModelKey ?mkey)"
      using same m(3) by (simp_all add: same_shard_def)
    have res: "s' = putShard ?key (canonicalModelKey ?mkey) m2 s1"
      "r = (case picked of Some a \<Rightarrow> Inr (a, ?key)
            | None \<Rightarrow> Inl (unavailableError digest ''mixed'' model predicate (clock 4) m2))"
      using run [unfolded pickPinned_def Let_def, folded predicate_def] False es found pr
      by (auto split: option.splits)
    show ?thesis
    proof (cases picked)
      case (Some a)
      have "\<exists>meta \<in> ?C ?key. metaAuth meta = a"
        by (rule pickReady_candidate [OF m(1,3) request_groups_ok pred _ pr [unfolded Some]])
          (simp add: predicate_def request_predicate_admits)
      then have "\<exists>meta \<in> ?C ?key. served_as (metaAuth meta) a" using served_as_refl by blast
      then show ?thesis using res frame Some reg(2) by simp
    next
      case None
      have "unavailableError digest ''mixed'' model predicate (clock 4) m2 = auth_not_found \<longleftrightarrow> ?C ?key = {}"
        using unavailableError_kind [of digest m2 "''mixed''" model predicate "clock 4"]
          no_candidates_iff [where predicate = predicate and allowed = "request_allows req pinned strategy", OF m2 pred] m2(1)
        by (simp add: shard_ok_def)
      then show ?thesis using res frame None all by simp
    qed
  qed
qed

lemma normalize_fold_fixed:
  "\<forall>k \<in> set out. to_lower (trim_space k) = k \<Longrightarrow>
   \<forall>k \<in> set (fold (\<lambda>provider out. let key = to_lower (trim_space provider)
        in if key = '''' \<or> key \<in> set out then out else out @ [key]) provs out). to_lower (trim_space k) = k"
proof (induction provs arbitrary: out)
  case (Cons p provs)
  let ?key = "to_lower (trim_space p)"
  let ?out = "if ?key = '''' \<or> ?key \<in> set out then out else out @ [?key]"
  have "to_lower (trim_space ?key) = ?key" by (simp add: trim_space_lower)
  then have "to_lower (trim_space k) = k" if "k \<in> set ?out" for k
  proof (cases "k \<in> set out")
    case False
    then have "k = ?key" using that by (auto split: if_splits)
    then show ?thesis using \<open>to_lower (trim_space ?key) = ?key\<close> by (simp only:)
  qed (use Cons.prems in blast)
  then have "\<forall>k \<in> set ?out. to_lower (trim_space k) = k" by blast
  from Cons.IH [OF this] show ?case unfolding fold_simps Let_def .
qed simp

lemma to_lower_trim_normalized: "key \<in> set (normalizeProviderKeys provs) \<Longrightarrow> to_lower (trim_space key) = key"
proof -
  have "\<forall>k \<in> set []. to_lower (trim_space k) = k" by simp
  from normalize_fold_fixed [OF this] show "key \<in> set (normalizeProviderKeys provs) \<Longrightarrow> to_lower (trim_space key) = key"
    unfolding normalizeProviderKeys_def by (rule bspec)
qed
text \<open>Every mixed pick, whatever the number of providers.\<close>

lemma pickMixed_all:
  assumes ok: "sched_ok digest s" and fallback: "fallback_ok s"
    and run: "pickMixedWithStrategy digest provs model req strategy clock s env = ((r, s'), env')"
    and keys: "keys = normalizeProviderKeys provs"
    and C: "C = (\<lambda>key. mixed_candidates s model key req (pinnedAuthIDFromMetadata (optMetadata req)) (resolved s strategy))"
  shows "same_sched digest s s' \<and>
    (case r of
       Inl e \<Rightarrow> if keys = [] then e = SelectorError ''provider_not_found'' ''no provider supplied''
               else e = auth_not_found \<longleftrightarrow> (\<forall>key \<in> set keys. C key = {})
     | Inr (a, key) \<Rightarrow> key \<in> set keys \<and> (\<exists>meta \<in> C key. served_as (metaAuth meta) a))"
proof -
  let ?pinned = "pinnedAuthIDFromMetadata (optMetadata req)"
  note run' = run [unfolded pickMixedWithStrategy_def Let_def, folded keys]
  consider "keys = []" | key where "keys = [key]" | "length keys \<ge> 2" by (cases keys rule: remdups_adj.cases) auto
  then show ?thesis
  proof cases
    case 1
    then show ?thesis using run' same_sched_refl [OF ok] by auto
  next
    case (2 key)
    obtain r1 s1 env1 where single: "pickSingleWithStrategy digest key model req strategy clock s env = ((r1, s1), env1)"
      by (metis prod.collapse)
    have k: "to_lower (trim_space key) = key" using to_lower_trim_normalized [of key provs] 2 keys by simp
    have res: "s' = s1" "r = (case r1 of Inl e \<Rightarrow> Inl e | Inr a \<Rightarrow> Inr (a, key))"
      using run' 2 single by (auto split: sum.splits)
    note sp = pickSingle_spec [OF ok fallback single refl, unfolded k]
    show ?thesis using sp res 2 by (cases r1) (simp_all add: C)
  next
    case 3
    then have len: "length keys \<noteq> 0" "length keys \<noteq> 1" "keys \<noteq> []" by auto
    show ?thesis
    proof (cases "?pinned = ''''")
      case False
      then have "pickPinned digest keys model req ?pinned (resolved s strategy) clock s env = ((r, s'), env')"
        using run' len by simp
      from pickPinned_spec [OF ok False this] show ?thesis using len(3) unfolding C by (cases r) simp_all
    next
      case True
      obtain best s1 env1 where mb: "mixedBest digest (canonicalModelKey model) (clock 0)
          (request_predicate req '''' (resolved s strategy)) (accountGroups (request_eligibility req)) keys None s env =
          ((best, s1), env1)" by (metis prod.collapse)
      note sp = pickMixed_spec [OF ok fallback run keys 3 True refl refl refl mb]
      show ?thesis
        using sp True len(3) unfolding mixed_result_def C
        by (auto split: sum.splits prod.splits)
    qed
  qed
qed

section \<open>Sequences of operations\<close>

lemma upsertAll_ok:
  assumes "upsertAll digest models sel now auths s env = (s', env')" "sched_ok digest s" "\<forall>a \<in> set auths. trimmed_id a"
  shows "sched_ok digest s' \<and> selectionModelForAuth s' = selectionModelForAuth s \<and>
    credentials s' = fold (\<lambda>a. spec_upsert digest models (selectionModelForAuth s)
        (case (sel, a) of (Some m, Some x) \<Rightarrow> glookup m (ID x) | _ \<Rightarrow> None) a) auths (credentials s)"
  using assms
proof (induction auths arbitrary: s env)
  case (Cons a auths)
  let ?set = "case (sel, a) of (Some m, Some x) \<Rightarrow> glookup m (ID x) | _ \<Rightarrow> None"
  obtain s1 env1 where up: "upsertAuth digest models a now ?set s env = (s1, env1)" by fastforce
  have run: "upsertAll digest models sel now auths s1 env1 = (s', env')" using Cons.prems(1) up by simp
  have "trimmed_id a" using Cons.prems(3) by simp
  note u = upsertAuth_ok [OF Cons.prems(2) this up]
  show ?case using Cons.IH [OF run u(1)] Cons.prems(3) u(2,3) by simp
qed simp

lemma clearMixed_same: "sched_ok digest s \<Longrightarrow> same_sched digest s (clearMixed s)"
  using same_storesD(2) [OF same_stores_frame [of digest s "clearMixed s"]] by (simp add: clearMixed_def)

lemma schedulerRebuild_ok:
  assumes "schedulerRebuild digest models sel now auths s env = (s', env')" "\<forall>a \<in> set auths. trimmed_id a"
  shows "sched_ok digest s'"
    "credentials s' = fold (\<lambda>a. spec_upsert digest models (selectionModelForAuth s)
        (case (sel, a) of (Some m, Some x) \<Rightarrow> glookup m (ID x) | _ \<Rightarrow> None) a) auths (\<lambda>_. None)"
    "selectionModelForAuth s' = selectionModelForAuth s"
proof -
  let ?s = "clearMixed (s\<lparr>schedProviders := [], authProviders := []\<rparr>)"
  have "sched_ok digest ?s" "credentials ?s = (\<lambda>_. None)" "selectionModelForAuth ?s = selectionModelForAuth s"
    by (simp_all add: clearMixed_def sched_ok_def credentials_def fun_eq_iff)
  with upsertAll_ok [OF assms(1) [unfolded schedulerRebuild_def] _ assms(2)]
  show "sched_ok digest s'"
    "credentials s' = fold (\<lambda>a. spec_upsert digest models (selectionModelForAuth s)
        (case (sel, a) of (Some m, Some x) \<Rightarrow> glookup m (ID x) | _ \<Rightarrow> None) a) auths (\<lambda>_. None)"
    "selectionModelForAuth s' = selectionModelForAuth s" by simp_all
qed

lemma removeAuth_ok:
  assumes "sched_ok digest s"
  shows "sched_ok digest (removeAuth digest i s)" "credentials (removeAuth digest i s) = (credentials s)(trim_space i := None)"
proof -
  have "sched_ok digest (removeAuth digest i s) \<and> credentials (removeAuth digest i s) = (credentials s)(trim_space i := None)"
  proof (cases "trim_space i = ''''")
    case True
    then show ?thesis using assms credentials_empty_id [OF assms] by (simp add: removeAuth_def fun_eq_iff)
  next
    case False
    then show ?thesis using removeAuthLocked_ok [OF assms False] by (simp add: removeAuth_def)
  qed
  then show "sched_ok digest (removeAuth digest i s)" "credentials (removeAuth digest i s) = (credentials s)(trim_space i := None)"
    by blast+
qed

lemma snapshotProviders_same:
  "snapshotProviders digest model now keys acc s env = ((acc', s'), env') \<Longrightarrow> sched_ok digest s \<Longrightarrow> same_sched digest s s'"
proof (induction keys arbitrary: acc s env)
  case (Cons key keys)
  obtain found s1 env1 where es: "ensureShard digest key model now s env = ((found, s1), env1)" by (metis prod.collapse)
  note e = ensureShard_ok(1) [OF Cons.prems(2) es]
  show ?case using Cons.IH [OF _ same_sched_ok [OF e]] Cons.prems(1) es same_sched_trans [OF e] by (auto split: prod.splits)
qed (simp add: same_sched_refl)

lemma snapshotCandidates_same:
  assumes "sched_ok digest s"
  shows "same_sched digest s (snd (fst (snapshotCandidates digest provs model now s env)))"
proof -
  obtain seen canonical out s1 env1 where run: "snapshotProviders digest (canonicalModelKey model) now
      (normalizeProviderKeys provs) (([], []), []) s env = ((((seen, canonical), out), s1), env1)" by (metis prod.collapse)
  from snapshotProviders_same [OF run assms] show ?thesis by (simp add: snapshotCandidates_def run)
qed

text \<open>The operations of the scheduler as steps. The fallback is one that keeps its contract.\<close>

inductive sched_step :: "(string \<Rightarrow> string) \<Rightarrow> model_registry \<Rightarrow> authScheduler \<Rightarrow> authScheduler \<Rightarrow> bool"
  for digest models where
  upsert: "trimmed_id auth \<Longrightarrow> sched_step digest models s (fst (upsertAuth digest models auth now selection s env))"
| remove: "sched_step digest models s (removeAuth digest i s)"
| rebuild: "\<forall>a \<in> set auths. trimmed_id a \<Longrightarrow>
    sched_step digest models s (fst (schedulerRebuild digest models selections now auths s env))"
| set_selector: "sched_step digest models s (setSelector sel s)"
| resolver: "sched_step digest models s (setSelectionModelResolver resolve s)"
| fallback: "sched_step digest models s (setQuotaFallback f s)"
| candidates: "sched_step digest models s (snd (fst (snapshotCandidates digest provs model now s env)))"
| single: "fallback_ok s \<Longrightarrow>
    sched_step digest models s (snd (fst (pickSingleWithStrategy digest provider model req strategy clock s env)))"
| mixed: "fallback_ok s \<Longrightarrow>
    sched_step digest models s (snd (fst (pickMixedWithStrategy digest provs model req strategy clock s env)))"

lemma sched_step_ok: "sched_step digest models s s' \<Longrightarrow> sched_ok digest s \<Longrightarrow> sched_ok digest s'"
proof (induction rule: sched_step.induct)
  case (upsert auth s now selection env)
  obtain s1 env1 where "upsertAuth digest models auth now selection s env = (s1, env1)" by fastforce
  with upsertAuth_ok(1) [OF upsert(2,1)] show ?case by simp
next
  case (remove s i)
  then show ?case by (rule removeAuth_ok(1))
next
  case (rebuild auths s selections now env)
  obtain s1 env1 where "schedulerRebuild digest models selections now auths s env = (s1, env1)" by fastforce
  with schedulerRebuild_ok(1) [OF _ rebuild(1)] show ?case by simp
next
  case (set_selector s sel)
  have "sched_ok digest (s\<lparr>schedStrategy := selectorStrategy sel\<rparr>)"
    by (rule sched_ok_frame(1) [OF set_selector(1)]) simp_all
  then show ?case using same_sched_ok [OF clearMixed_same] by (simp add: setSelector_def)
next
  case (resolver s resolve)
  show ?case by (rule sched_ok_frame(1) [OF resolver(1)]) (simp_all add: setSelectionModelResolver_def)
next
  case (fallback s f)
  show ?case by (rule sched_ok_frame(1) [OF fallback(1)]) (simp_all add: setQuotaFallback_def)
next
  case (candidates s provs model now env)
  then show ?case by (rule same_sched_ok [OF snapshotCandidates_same])
next
  case (single s provider model req strategy clock env)
  obtain r s1 env1 where "pickSingleWithStrategy digest provider model req strategy clock s env = ((r, s1), env1)"
    by (metis prod.collapse)
  with same_sched_ok [OF pickSingle_spec(1) [OF single(2,1) _ refl]] show ?case by simp
next
  case (mixed s provs model req strategy clock env)
  obtain r s1 env1 where "pickMixedWithStrategy digest provs model req strategy clock s env = ((r, s1), env1)"
    by (metis prod.collapse)
  with pickMixed_all [OF mixed(2,1) _ refl refl] same_sched_ok show ?case by fastforce
qed

interpretation scheduler: invariant_system "\<lambda>s. \<exists>sel. s = newAuthScheduler sel" "sched_step digest models" "sched_ok digest"
  for digest models
  by unfold_locales (auto intro: sched_step_ok)

section \<open>The state kept for group selections\<close>

definition group_state_ok :: "authScheduler \<Rightarrow> bool" where
  "group_state_ok s \<longleftrightarrow>
     distinct (mixedGroupStateOrder s) \<and> distinct (mixedGroupStateKeys s) \<and>
     set (mixedGroupStateKeys s) = set (mixedGroupStateOrder s) \<and>
     length (mixedGroupStateOrder s) \<le> maxAccountGroupMixedStateEntries"

lemma retain_ok:
  assumes "group_state_ok s"
  shows "group_state_ok (retainMixedGroupStateKey key s)"
proof (cases "key = '''' \<or> key \<in> set (mixedGroupStateKeys s)")
  case True
  then show ?thesis using assms by (auto simp: retainMixedGroupStateKey_def)
next
  case False
  show ?thesis
  proof (cases "mixedGroupStateOrder s")
    case Nil
    then show ?thesis using assms False
      by (auto simp: retainMixedGroupStateKey_def group_state_ok_def Let_def maxAccountGroupMixedStateEntries_def)
  next
    case (Cons x xs)
    then show ?thesis using assms False
      by (auto simp: retainMixedGroupStateKey_def group_state_ok_def Let_def distinct_removeAll)
  qed
qed

definition forgotten :: "string \<Rightarrow> authScheduler \<Rightarrow> bool" where
  "forgotten k s \<longleftrightarrow> glookup (mixedCursors s) k = None \<and> glookup (mixedWeightedStates s) k = None \<and>
     glookup (mixedExpiryCursors s) k = None \<and> glookup (mixedExpiryWeighted s) k = None"

lemma retain_forgets:
  assumes "group_state_ok s" and "k \<in> set (mixedGroupStateOrder s) \<or> forgotten k s"
  shows "k \<in> set (mixedGroupStateOrder (retainMixedGroupStateKey x s)) \<or> forgotten k (retainMixedGroupStateKey x s)"
proof (cases "mixedGroupStateOrder s")
  case Nil
  then show ?thesis using assms(2)
    by (auto simp: retainMixedGroupStateKey_def Let_def forgotten_def maxAccountGroupMixedStateEntries_def)
next
  case (Cons y ys)
  then show ?thesis using assms(2)
    by (auto simp: retainMixedGroupStateKey_def Let_def forgotten_def glookup_del)
qed

section \<open>The unavailability error\<close>

definition retry_times :: "scheduledAuth set \<Rightarrow> gotime set" where
  "retry_times E = {entryNextRetryAt e | e. e \<in> E \<and> entryState e = scheduledStateCooldown \<and> entryNextRetryAt e \<noteq> zeroTime}"

lemma retry_times_finite: "finite E \<Longrightarrow> finite (retry_times E)"
  unfolding retry_times_def by (rule finite_subset [of _ "entryNextRetryAt ` E"]) auto

lemma summary_earliest:
  "snd (snd (fold summaryStep es (a, b, earliest_of (retry_times E)))) = earliest_of (retry_times (E \<union> set es))"
  if "finite E" for es a b E
  using that
proof (induction es arbitrary: a b E)
  case (Cons e es)
  let ?T = "retry_times E"
  have T: "finite ?T" "zeroTime \<notin> ?T" using retry_times_finite [OF Cons.prems] by (auto simp: retry_times_def)
  have new: "retry_times (insert e E) =
      (if entryState e = scheduledStateCooldown \<and> entryNextRetryAt e \<noteq> zeroTime then insert (entryNextRetryAt e) ?T else ?T)"
    by (auto simp: retry_times_def)
  have "snd (snd (summaryStep e (a, b, earliest_of ?T))) = earliest_of (retry_times (insert e E))"
  proof (cases "entryState e = scheduledStateCooldown \<and> entryNextRetryAt e \<noteq> zeroTime")
    case True
    then show ?thesis using earliest_insert [OF T, of "entryNextRetryAt e"] by (simp add: summaryStep_def new)
  next
    case False
    then show ?thesis by (auto simp: summaryStep_def new)
  qed
  then have "\<exists>a' b'. summaryStep e (a, b, earliest_of ?T) = (a', b', earliest_of (retry_times (insert e E)))"
    by (metis prod.collapse)
  then obtain a' b' where "summaryStep e (a, b, earliest_of ?T) = (a', b', earliest_of (retry_times (insert e E)))" by blast
  moreover have "finite (insert e E)" using Cons.prems by simp
  moreover have "insert e E \<union> set es = E \<union> set (e # es)" by simp
  ultimately show ?case using Cons.IH [of "insert e E" a' b'] by (simp only: fold_simps)
qed simp

lemma unavailableError_spec:
  assumes ok: "entries_ok digest (entries m)"
    and E: "E = set (uniqueCandidateEntries digest predicate (entries m))"
  shows "unavailableError digest provider model predicate now m =
    (if E = {} then auth_not_found
     else if (\<forall>e \<in> E. entryState e = scheduledStateCooldown) \<and> retry_times E \<noteq> {}
     then ModelCooldown model (if provider = ''mixed'' then '''' else provider) (max 0 (time_sub (linorder_class.Min (retry_times E)) now))
     else auth_unavailable)"
proof -
  let ?es = "uniqueCandidateEntries digest predicate (entries m)"
  obtain n c t where sum: "availabilitySummary digest predicate m = (n, c, t)" by (metis prod.collapse)
  note count = summary_count [OF ok sum]
  have none: "retry_times {} = {}" by (simp add: retry_times_def)
  then have start: "zeroTime = earliest_of (retry_times {})" by (simp add: earliest_of_def)
  have t: "t = earliest_of (retry_times E)"
    using summary_earliest [of "{}" ?es 0 0] sum start by (simp add: availabilitySummary_def E)
  have "c = n \<longleftrightarrow> (\<forall>e \<in> E. entryState e = scheduledStateCooldown)"
    unfolding count E by (metis (mono_tags, lifting) filter_True length_filter_less of_nat_eq_iff order_less_irrefl)
  moreover have "n = 0 \<longleftrightarrow> E = {}" by (simp add: count(1) E)
  moreover have "t \<noteq> zeroTime \<longleftrightarrow> retry_times E \<noteq> {}"
  proof (cases "retry_times E = {}")
    case False
    have "finite (retry_times E)" by (rule retry_times_finite) (simp add: E)
    then have "linorder_class.Min (retry_times E) \<in> retry_times E" using False by simp
    then show ?thesis using False by (auto simp: t earliest_of_def retry_times_def)
  qed (simp add: t earliest_of_def)
  ultimately show ?thesis
    by (auto simp: unavailableError_def sum newModelCooldownError_def Let_def t earliest_of_def max_def)
qed

section \<open>Properties\<close>

text \<open>
  C1 (the tables agree). Whatever insertions, removals, rebuilds, picks and configuration changes
  a scheduler has gone through, every credential is in the table of exactly the provider it is
  registered for, every shard holds exactly the credentials of its provider that support its
  model, and every shard's index is the one its entries define.
\<close>

theorem scheduler_consistent:
  assumes "reachable (\<lambda>s. \<exists>sel. s = newAuthScheduler sel) (sched_step digest models) s"
  shows "sched_ok digest s"
  using assms by (rule scheduler.reachable_inv)

lemma scheduler_consistent_witness:
  "sched_ok (\<lambda>s. s) (removeAuth (\<lambda>s. s) ''a''
     (fst (upsertAuth (\<lambda>s. s) (\<lambda>_. [''m'']) (Some (exampleAuth ''a'' [])) 5 None
        (newAuthScheduler RoundRobinSelector) (\<lambda>_. newRuntimeLimits))))"
proof -
  let ?step = "sched_step (\<lambda>s. s) (\<lambda>_. [''m''])"
  have start: "reachable (\<lambda>s. \<exists>sel. s = newAuthScheduler sel) ?step (newAuthScheduler RoundRobinSelector)"
    by (rule reachable_init) blast
  have "trimmed_id (Some (exampleAuth ''a'' []))"
    by (simp add: trimmed_id_def exampleAuth_def trim_space_def is_space_def code_of_def)
  from reachable_step [OF start sched_step.upsert [OF this]]
  have "reachable (\<lambda>s. \<exists>sel. s = newAuthScheduler sel) ?step (removeAuth (\<lambda>s. s) ''a''
     (fst (upsertAuth (\<lambda>s. s) (\<lambda>_. [''m'']) (Some (exampleAuth ''a'' [])) 5 None
        (newAuthScheduler RoundRobinSelector) (\<lambda>_. newRuntimeLimits))))"
    by (rule reachable_step) (rule sched_step.remove)
  then show ?thesis by (rule scheduler_consistent)
qed

lemma snapshotAuth_credentials:
  assumes "sched_ok digest s"
  shows "snapshotAuth s i = map_option metaAuth (credentials s (trim_space i))"
proof (cases "trim_space i = ''''")
  case True
  then show ?thesis using credentials_empty_id [OF assms] by (simp add: snapshotAuth_def)
next
  case False
  show ?thesis
  proof (cases "glookup (authProviders s) (trim_space i)")
    case None
    then have "credentials s (trim_space i) = None" by (simp add: credentials_def)
    moreover have "glookup (provAuths p) (trim_space i) = None" if "glookup (schedProviders s) '''' = Some p" for p
      using sched_okD(2) [OF assms that, of "trim_space i"] None by simp
    ultimately show ?thesis using False None by (simp add: snapshotAuth_def Let_def split: option.splits)
  next
    case (Some key)
    then show ?thesis using False by (simp add: snapshotAuth_def credentials_def Let_def split: option.splits)
  qed
qed

lemma scheduler_map_facts:
  assumes "sched_ok digest s" "trimmed_id auth"
  shows "credentials (fst (upsertAuth digest models auth now selection s env)) =
           spec_upsert digest models (selectionModelForAuth s) selection auth (credentials s)"
    "credentials (removeAuth digest i s) = (credentials s)(trim_space i := None)"
    "snapshotAuth (fst (upsertAuth digest models auth now selection s env)) i =
       map_option metaAuth
         (spec_upsert digest models (selectionModelForAuth s) selection auth (credentials s) (trim_space i))"
proof -
  obtain s' env' where up: "upsertAuth digest models auth now selection s env = (s', env')" by fastforce
  note u = upsertAuth_ok [OF assms up]
  show "credentials (fst (upsertAuth digest models auth now selection s env)) =
           spec_upsert digest models (selectionModelForAuth s) selection auth (credentials s)"
    by (simp add: up u(2))
  show "credentials (removeAuth digest i s) = (credentials s)(trim_space i := None)"
    by (rule removeAuth_ok(2) [OF assms(1)])
  show "snapshotAuth (fst (upsertAuth digest models auth now selection s env)) i =
       map_option metaAuth
         (spec_upsert digest models (selectionModelForAuth s) selection auth (credentials s) (trim_space i))"
    by (simp add: up snapshotAuth_credentials [OF u(1)] u(2))
qed

abbreviation exampleModels :: model_registry where
  "exampleModels \<equiv> \<lambda>_. [''m'']"

abbreviation exampleUpsert :: "string \<Rightarrow> authScheduler \<Rightarrow> authScheduler" where
  "exampleUpsert i s \<equiv> fst (upsertAuth (\<lambda>s. s) exampleModels (Some (exampleAuth i [])) 5 None s (\<lambda>_. newRuntimeLimits))"


lemma example_trimmed: "trimmed_id (Some (exampleAuth ''a'' []))"
  by (simp add: trimmed_id_def exampleAuth_def trim_space_def is_space_def code_of_def)

lemma example_key: "executorKeyFromAuth (exampleAuth i []) = ''codex''"
  by (simp add: executorKeyFromAuth_def exampleAuth_def authAttribute_def to_lower_def lower_char_def code_of_def
      trim_space_def is_space_def equal_fold_def)




text \<open>
  C19 (a pick at one provider is sound). The credential a pick returns is registered for the
  provider (and returned as it is stored, but for the mark of the quota fallback), supports the model and satisfies every condition of the request (eligibility, the pin,
  the credentials already tried, a positive weight where the strategy needs one). The error says
  that no credential was found exactly when no registered credential is a candidate. A pick
  changes nothing of what the scheduler stores.
\<close>

theorem pickSingle_sound:
  assumes "sched_ok digest s" "fallback_ok s"
    and "pickSingleWithStrategy digest provider model req strategy clock s env = ((r, s'), env')"
    and "C = single_candidates s (to_lower (trim_space provider)) model req (resolved s strategy)"
  shows "sched_ok digest s' \<and> credentials s' = credentials s \<and>
    (case r of Inr a \<Rightarrow> \<exists>meta \<in> C. served_as (metaAuth meta) a | Inl e \<Rightarrow> e = auth_not_found \<longleftrightarrow> C = {})"
  using pickSingle_spec [OF assms] by (simp_all add: same_sched_def)

lemma no_request_candidates: "request_candidates (newAuthScheduler sel) key k allowed = {}"
  by (simp add: request_candidates_def credentials_at_def newAuthScheduler_def)

lemma pickSingle_sound_witness:
  "fst (fst (pickSingleWithStrategy (\<lambda>s. s) ''codex'' ''m''
     \<lparr>ctxAuthKind = '''', ctxCredentialPolicy = '''', ctxDownstreamWebsocket = False, optStream = False,
      optMetadata = [], triedAuths = []\<rparr>
     schedulerStrategyCurrent (\<lambda>_. 5) (newAuthScheduler NoSelector) (\<lambda>_. newRuntimeLimits))) = Inl auth_not_found"
proof -
  let ?req = "\<lparr>ctxAuthKind = '''', ctxCredentialPolicy = '''', ctxDownstreamWebsocket = False, optStream = False,
      optMetadata = [], triedAuths = []\<rparr>"
  let ?s = "newAuthScheduler NoSelector"
  obtain r s' env' where run: "pickSingleWithStrategy (\<lambda>s. s) ''codex'' ''m'' ?req schedulerStrategyCurrent (\<lambda>_. 5) ?s
      (\<lambda>_. newRuntimeLimits) = ((r, s'), env')" by (metis prod.collapse)
  have "fallback_ok ?s" by (simp add: fallback_ok_def newAuthScheduler_def)
  note p = conjunct2 [OF conjunct2 [OF pickSingle_sound [OF sched_ok_new this run refl]]]
  then show ?thesis using run by (cases r) (simp_all add: no_request_candidates)
qed

text \<open>
  C15 (a mixed pick is sound). A pick over several providers returns a credential with the
  provider it is registered for, one of the providers of the request, and the credential satisfies
  the request's conditions; it is returned as it is stored, but for the mark of the quota fallback. Without providers the error says so; otherwise it says that no
  credential was found exactly when none of the providers has a candidate.
\<close>

theorem pickMixed_sound:
  assumes "sched_ok digest s" "fallback_ok s"
    and "pickMixedWithStrategy digest provs model req strategy clock s env = ((r, s'), env')"
    and "keys = normalizeProviderKeys provs"
    and "C = (\<lambda>key. mixed_candidates s model key req (pinnedAuthIDFromMetadata (optMetadata req)) (resolved s strategy))"
  shows "sched_ok digest s' \<and> credentials s' = credentials s \<and>
    (case r of
       Inl e \<Rightarrow> if keys = [] then e = SelectorError ''provider_not_found'' ''no provider supplied''
               else e = auth_not_found \<longleftrightarrow> (\<forall>key \<in> set keys. C key = {})
     | Inr (a, key) \<Rightarrow> key \<in> set keys \<and> (\<exists>meta \<in> C key. served_as (metaAuth meta) a))"
  using pickMixed_all [OF assms] by (simp_all add: same_sched_def)

abbreviation exampleRequest :: schedRequest where
  "exampleRequest \<equiv> \<lparr>ctxAuthKind = '''', ctxCredentialPolicy = '''', ctxDownstreamWebsocket = False, optStream = False,
      optMetadata = [], triedAuths = []\<rparr>"

lemma exampleKeys: "normalizeProviderKeys ['' Codex'', ''xai''] = [''codex'', ''xai'']"
  by code_simp

lemma fallback_ok_new: "fallback_ok (newAuthScheduler sel)"
  by (simp add: fallback_ok_def newAuthScheduler_def)

lemma pickMixed_sound_witness:
  "fst (fst (pickMixedWithStrategy (\<lambda>s. s) ['' Codex'', ''xai''] ''m'' exampleRequest schedulerStrategyCurrent
     (\<lambda>_. 5) (newAuthScheduler NoSelector) (\<lambda>_. newRuntimeLimits))) = Inl auth_not_found"
proof -
  let ?s = "newAuthScheduler NoSelector"
  obtain r s' env' where run: "pickMixedWithStrategy (\<lambda>s. s) ['' Codex'', ''xai''] ''m'' exampleRequest schedulerStrategyCurrent
      (\<lambda>_. 5) ?s (\<lambda>_. newRuntimeLimits) = ((r, s'), env')" by (metis prod.collapse)
  note p = conjunct2 [OF conjunct2 [OF pickMixed_sound [OF sched_ok_new fallback_ok_new run refl refl]]]
  then show ?thesis using run by (cases r) (simp_all add: no_request_candidates exampleKeys)
qed

text \<open>
  C13 (a mixed pick takes the best priority). With two or more providers and no pinned credential,
  the credential returned has at least the priority of every ready entry of any of the providers
  that the request may use, whatever the strategy; and an error is returned only when none of
  the providers has such a ready entry. The ready entries are those of the shards once their
  expired entries were promoted.
\<close>

theorem pickMixed_best:
  assumes "sched_ok digest s" "fallback_ok s"
    and "pickMixedWithStrategy digest provs model req strategy clock s env = ((r, s'), env')"
    and "keys = normalizeProviderKeys provs" "length keys \<ge> 2"
    and "pinnedAuthIDFromMetadata (optMetadata req) = ''''"
    and "predicate = request_predicate req '''' (resolved s strategy)"
    and "groups = accountGroups (request_eligibility req)"
    and "k = canonicalModelKey (canonicalModelKey model)"
    and "mixedBest digest (canonicalModelKey model) (clock 0) predicate groups keys None s env = ((best, s1), env1)"
  shows "case r of
      Inl e \<Rightarrow> \<forall>key \<in> set keys. \<forall>p. ready_at digest s1 predicate groups k key p = {}
    | Inr (a, key) \<Rightarrow> \<exists>meta \<in> mixed_candidates s model key req '''' (resolved s strategy). served_as (metaAuth meta) a \<and>
        (\<forall>key' \<in> set keys. \<forall>p. ready_at digest s1 predicate groups k key' p \<noteq> {} \<longrightarrow> p \<le> metaPriority meta)"
  using pickMixed_spec(2) [OF assms] unfolding mixed_result_def assms(9) by (cases r) auto

lemma removeFromProvider_fallback: "quotaFallback (removeFromProvider digest key i s) = quotaFallback s"
  by (simp add: removeFromProvider_def split: option.splits)

lemma removeAuthLocked_fallback: "quotaFallback (removeAuthLocked digest i s) = quotaFallback s"
  by (simp add: removeAuthLocked_def removeFromProvider_fallback Let_def)

lemma upsertAuth_fallback: "quotaFallback (fst (upsertAuth digest models auth now selection s env)) = quotaFallback s"
proof (cases auth)
  case (Some a)
  then show ?thesis
    by (simp add: upsertAuth_def Let_def case_prod_beta removeAuthLocked_fallback removeFromProvider_fallback)
qed (simp add: upsertAuth_def)

lemma nested_pair: "\<exists>a b c. x = ((a, b), c)"
  by (metis prod.collapse)

lemma pickMixed_best_witness:
  "case (pickMixedWithStrategy (\<lambda>s. s) ['' Codex'', ''xai''] ''m'' exampleRequest schedulerStrategyFillFirst (\<lambda>_. 5)
           (exampleUpsert ''a'' (newAuthScheduler NoSelector)) (\<lambda>_. newRuntimeLimits),
         mixedBest (\<lambda>s. s) (canonicalModelKey ''m'') 5 (request_predicate exampleRequest '''' schedulerStrategyFillFirst)
           (accountGroups (request_eligibility exampleRequest)) [''codex'', ''xai''] None
           (exampleUpsert ''a'' (newAuthScheduler NoSelector)) (\<lambda>_. newRuntimeLimits)) of
     (((r, s'), env'), ((best, s1), env1)) \<Rightarrow>
       (case r of
          Inl e \<Rightarrow> \<forall>key \<in> {''codex'', ''xai''}. \<forall>p.
            ready_at (\<lambda>s. s) s1 (request_predicate exampleRequest '''' schedulerStrategyFillFirst)
              (accountGroups (request_eligibility exampleRequest)) (canonicalModelKey (canonicalModelKey ''m'')) key p = {}
        | Inr (a, key) \<Rightarrow> served_as (exampleAuth ''a'' []) a)"
proof -
  let ?init = "newAuthScheduler NoSelector" and ?s = "exampleUpsert ''a'' (newAuthScheduler NoSelector)"
  have ok: "sched_ok (\<lambda>s. s) ?s" by (rule upsertAuth_ok(1) [OF sched_ok_new example_trimmed surjective_pairing])
  have cred: "credentials ?s = spec_upsert (\<lambda>s. s) exampleModels (selectionModelForAuth ?init) None
      (Some (exampleAuth ''a'' [])) (credentials ?init)"
    by (rule upsertAuth_ok(2) [OF sched_ok_new example_trimmed surjective_pairing])
  have fb: "fallback_ok ?s"
    unfolding fallback_ok_def upsertAuth_fallback by (simp add: newAuthScheduler_def)
  obtain r s' env' where run: "pickMixedWithStrategy (\<lambda>s. s) ['' Codex'', ''xai''] ''m'' exampleRequest schedulerStrategyFillFirst
      (\<lambda>_. 5) ?s (\<lambda>_. newRuntimeLimits) = ((r, s'), env')"
    using nested_pair [of "pickMixedWithStrategy (\<lambda>s. s) ['' Codex'', ''xai''] ''m'' exampleRequest schedulerStrategyFillFirst
      (\<lambda>_. 5) ?s (\<lambda>_. newRuntimeLimits)"] by blast
  obtain best s1 env1 where mb: "mixedBest (\<lambda>s. s) (canonicalModelKey ''m'') 5
      (request_predicate exampleRequest '''' schedulerStrategyFillFirst)
      (accountGroups (request_eligibility exampleRequest)) [''codex'', ''xai''] None ?s (\<lambda>_. newRuntimeLimits) =
      ((best, s1), env1)"
    using nested_pair [of "mixedBest (\<lambda>s. s) (canonicalModelKey ''m'') 5
      (request_predicate exampleRequest '''' schedulerStrategyFillFirst)
      (accountGroups (request_eligibility exampleRequest)) [''codex'', ''xai''] None ?s (\<lambda>_. newRuntimeLimits)"] by blast
  have free: "pinnedAuthIDFromMetadata (optMetadata exampleRequest) = ''''" by (simp add: pinnedAuthIDFromMetadata_def)
  have only: "metaAuth meta = exampleAuth ''a'' []" if "meta \<in> request_candidates ?s key k allowed" for meta key k allowed
  proof -
    have "credentials ?s (ID (metaAuth meta)) = Some meta"
      using that credentials_meta(2) [OF ok] by (auto simp: request_candidates_def)
    then show ?thesis unfolding cred
      by (auto simp: spec_upsert_def credentials_def newAuthScheduler_def upserted_meta_def
          buildScheduledAuthMetaWithSelectionModels_def Let_def exampleAuth_def split: if_splits)
  qed
  note p = pickMixed_best [OF ok fb run exampleKeys [symmetric] _ free _ _ refl]
  have rs: "resolved ?s schedulerStrategyFillFirst = schedulerStrategyFillFirst" by simp
  have two: "2 \<le> length [''codex'', ''xai'']" by simp
  note q = p [OF two refl refl, unfolded rs, OF mb]
  show ?thesis
  proof (cases r)
    case (Inl e)
    show ?thesis unfolding run mb Inl prod.case sum.case using q [unfolded Inl] by simp
  next
    case (Inr w)
    obtain a key where w: "w = (a, key)" by fastforce
    obtain meta where meta: "meta \<in> mixed_candidates ?s ''m'' key exampleRequest '''' schedulerStrategyFillFirst"
      "served_as (metaAuth meta) a" using q by (auto simp: Inr w)
    then have "served_as (exampleAuth ''a'' []) a" using only by metis
    then show ?thesis unfolding run mb Inr w prod.case sum.case .
  qed
qed

lemma group_state_facts:
  assumes "group_state_ok s" "s' = fold retainMixedGroupStateKey ks s"
  shows "length (mixedGroupStateOrder s') \<le> 256"
    "distinct (mixedGroupStateOrder s')" "set (mixedGroupStateKeys s') = set (mixedGroupStateOrder s')"
    "ks \<noteq> [] \<Longrightarrow> last ks \<noteq> '''' \<Longrightarrow> last ks \<in> set (mixedGroupStateOrder s')"
    "k \<in> set (mixedGroupStateOrder s) \<Longrightarrow> k \<notin> set (mixedGroupStateOrder s') \<Longrightarrow>
       glookup (mixedCursors s') k = None \<and> glookup (mixedWeightedStates s') k = None \<and>
       glookup (mixedExpiryCursors s') k = None \<and> glookup (mixedExpiryWeighted s') k = None"
proof -
  have all: "group_state_ok s' \<and> (k \<in> set (mixedGroupStateOrder s) \<or> forgotten k s \<longrightarrow>
      k \<in> set (mixedGroupStateOrder s') \<or> forgotten k s')" for k
    using assms
  proof (induction ks arbitrary: s)
    case (Cons x ks)
    show ?case using Cons.IH [OF retain_ok [OF Cons.prems(1)], of x] retain_forgets [OF Cons.prems(1), of k x] Cons.prems(2)
      by auto
  qed simp
  then have ok: "group_state_ok s'" by blast
  then show "length (mixedGroupStateOrder s') \<le> 256" "distinct (mixedGroupStateOrder s')"
    "set (mixedGroupStateKeys s') = set (mixedGroupStateOrder s')"
    by (simp_all add: group_state_ok_def maxAccountGroupMixedStateEntries_def)
  show "last ks \<in> set (mixedGroupStateOrder s')" if "ks \<noteq> []" "last ks \<noteq> ''''"
  proof -
    obtain us where "ks = us @ [last ks]" using \<open>ks \<noteq> []\<close> by (metis append_butlast_last_id)
    then have s': "s' = retainMixedGroupStateKey (last ks) (fold retainMixedGroupStateKey us s)"
      using assms(2) by (metis fold_append fold_simps comp_apply)
    have "group_state_ok (fold retainMixedGroupStateKey us s)"
      using assms(1) by (induction us arbitrary: s) (simp_all add: retain_ok)
    then show ?thesis unfolding s' using that(2)
      by (auto simp: retainMixedGroupStateKey_def Let_def group_state_ok_def)
  qed
  show "glookup (mixedCursors s') k = None \<and> glookup (mixedWeightedStates s') k = None \<and>
       glookup (mixedExpiryCursors s') k = None \<and> glookup (mixedExpiryWeighted s') k = None"
    if "k \<in> set (mixedGroupStateOrder s)" "k \<notin> set (mixedGroupStateOrder s')"
    using all [of k] that by (simp add: forgotten_def)
qed



text \<open>
  C22 (the reason a shard gives when it can serve nobody). When no account matches the request the
  error says so; when every matching account is cooling down and at least one has a retry
  time, the error is a cooldown that ends when the first of them may be tried again, and never
  in the past; otherwise the accounts are reported as unavailable. One entry counts per account.
\<close>

theorem unavailableError_exact:
  assumes "entries_ok digest (entries m)" "E = set (uniqueCandidateEntries digest predicate (entries m))"
  shows "unavailableError digest provider model predicate now m =
    (if E = {} then auth_not_found
     else if (\<forall>e \<in> E. entryState e = scheduledStateCooldown) \<and> retry_times E \<noteq> {}
     then ModelCooldown model (if provider = ''mixed'' then '''' else provider)
       (max 0 (time_sub (linorder_class.Min (retry_times E)) now))
     else auth_unavailable)"
  by (rule unavailableError_spec [OF assms])

abbreviation exampleCooling :: "string \<Rightarrow> gotime \<Rightarrow> scheduledAuth" where
  "exampleCooling i t \<equiv> \<lparr>entryMeta = exampleMeta (\<lambda>s. s) (exampleAuth i []), entryExpiresAt = zeroTime, entryLeaseExpiresAt = zeroTime,
     entryState = scheduledStateCooldown, entryNextRetryAt = t\<rparr>"

lemma unavailableError_exact_witness:
  "unavailableError (\<lambda>s. s) ''mixed'' ''m'' (\<lambda>_. True) 5 ((emptyShard ''m'')\<lparr>entries := [(''x'', exampleCooling ''x'' 9)]\<rparr>) =
   ModelCooldown ''m'' '''' 4"
proof -
  let ?e = "exampleCooling ''x'' 9"
  let ?m = "(emptyShard ''m'')\<lparr>entries := [(''x'', ?e)]\<rparr>"
  have ok: "entries_ok (\<lambda>s. s) (entries ?m)"
    by (simp add: entries_ok_def gomap_ok_def exampleMeta_ok) (simp add: exampleMeta_def exampleAuth_def)
  have E: "{?e} = set (uniqueCandidateEntries (\<lambda>s. s) (\<lambda>_. True) (entries ?m))"
    by (simp add: uniqueCandidateEntries_def uniqueStep_def preferScheduledCanonicalEntry_def Let_def map_filter_simps)
  have T: "retry_times {?e} = {9}" by (auto simp: retry_times_def)
  show ?thesis unfolding unavailableError_exact [OF ok E] by (simp add: T time_sub_def)
qed

end
