(* ===== verification/Failures.thy ===== *)
theory Failures
  imports Availability CodexIdentity
begin

text \<open>
  The classification of upstream failures: \<open>sdk/cliproxy/auth/failure_classification.go\<close>,
  \<open>errors.go\<close> and the predicates over result errors of \<open>conductor_cooldown.go\<close>.

  The code keeps the kind and the evidence of an error in a table keyed by its address. Here they
  travel with the error: a \<open>failure\<close> is an error with the kind it was given, if any, and
  its evidence, if any. The table holds 4096 entries; the model is the code as long as the entry
  of the error at hand has not been pushed out. A JSON body is read by a library, which is the
  parameter \<open>gjson_reader\<close>.
\<close>

section \<open>Failures and their evidence\<close>

datatype FailureKind = FailureKindUnknownTransient | FailureKindRequestFault | FailureKindAuth
  | FailureKindQuota | FailureKindEdgeGateway | FailureKindCapacity | FailureKindTransport
  | FailureKindStreamQuality

type_synonym http_header = "(string, string list) gomap"

record FailureEvidence =
  evHeaders :: http_header
  evBody :: string
  evOutputStarted :: bool

record failure =
  failureError :: ResultError
  failureKind :: "FailureKind option"
  failureEvidence :: "FailureEvidence option"

record gjson_reader =
  gjsonValid :: "string \<Rightarrow> bool"
  gjsonGet :: "string \<Rightarrow> string \<Rightarrow> string"

abbreviation requestScopedErrorCode :: string where "requestScopedErrorCode \<equiv> ''request_scoped''"
abbreviation terminalCredentialErrorCode :: string where "terminalCredentialErrorCode \<equiv> ''credential_invalidated''"
abbreviation connectionLifecycleErrorCode :: string where "connectionLifecycleErrorCode \<equiv> ''connection_lifecycle''"

text \<open>\<open>http.Header.Get\<close>: the first value under the canonical spelling of the name.\<close>

definition upper_char :: "char \<Rightarrow> char" where
  "upper_char c = (if 97 \<le> code_of c \<and> code_of c \<le> 122 then char_of (code_of c - 32) else c)"

fun canonical_header :: "bool \<Rightarrow> string \<Rightarrow> string" where
  "canonical_header upper [] = []"
| "canonical_header upper (c # cs) =
     (if upper then upper_char c else lower_char c) # canonical_header (c = CHR ''-'') cs"

definition header_get :: "http_header \<Rightarrow> string \<Rightarrow> string" where
  "header_get headers name =
     (case glookup headers (canonical_header True name) of Some (v # _) \<Rightarrow> v | _ \<Rightarrow> '''')"

fun header_fold :: "http_header \<Rightarrow> string \<Rightarrow> string" where
  "header_fold [] name = ''''"
| "header_fold ((key, values) # rest) name =
     (if \<not> equal_fold key name \<or> values = [] then header_fold rest name else hd values)"

definition responseHeaderValue :: "http_header \<Rightarrow> string \<Rightarrow> string" where
  "responseHeaderValue headers name =
     (if headers = [] then ''''
      else if header_get headers name \<noteq> '''' then header_get headers name
      else header_fold headers name)"

abbreviation contains_any :: "string \<Rightarrow> string list \<Rightarrow> bool" where
  "contains_any s ps \<equiv> list_ex (str_contains s) ps"

section \<open>Predicates over result errors\<close>

definition isTerminalCredentialResultError :: "ResultError option \<Rightarrow> bool" where
  "isTerminalCredentialResultError err \<longleftrightarrow>
     (case err of None \<Rightarrow> False
      | Some e \<Rightarrow> equal_fold (trim_space (errCode e)) terminalCredentialErrorCode)"

definition isRequestScopedResultError :: "ResultError option \<Rightarrow> bool" where
  "isRequestScopedResultError err \<longleftrightarrow>
     (case err of None \<Rightarrow> False
      | Some e \<Rightarrow> errCode e = requestScopedErrorCode \<or> isRequestScopedNotFoundResultError err)"

definition isConnectionLifecycleMessage :: "string \<Rightarrow> bool" where
  "isConnectionLifecycleMessage message =
     (let lower = to_lower (trim_space message)
      in if lower = '''' then False
         else if lower \<in> {''context canceled'', ''context deadline exceeded'', ''eof'', ''unexpected eof''}
         then True
         else contains_any lower [''websocket: close 1000'', ''websocket: close 1001'',
                ''websocket: close 1006'', ''unexpected eof''])"

definition isConnectionLifecycleResultError :: "ResultError option \<Rightarrow> bool" where
  "isConnectionLifecycleResultError err =
     (case err of
        None \<Rightarrow> False
      | Some e \<Rightarrow> if errCode e = connectionLifecycleErrorCode then True
                  else if statusCodeFromResult err \<noteq> 0 then False
                  else isConnectionLifecycleMessage (errMessage e))"

definition isInvalidGrantErrorMessage :: "string \<Rightarrow> bool" where
  "isInvalidGrantErrorMessage message = str_contains (to_lower message) ''invalid_grant''"

definition isInvalidGrantResultError :: "ResultError option \<Rightarrow> bool" where
  "isInvalidGrantResultError err =
     (case err of
        None \<Rightarrow> False
      | Some e \<Rightarrow> if statusCodeFromResult err \<notin> {400, 401} then False
                  else isInvalidGrantErrorMessage (errCode e) \<or> isInvalidGrantErrorMessage (errMessage e))"

definition shouldSkipCredentialCooldown :: "ResultError option \<Rightarrow> bool" where
  "shouldSkipCredentialCooldown err \<longleftrightarrow> isRequestScopedResultError err \<or> isConnectionLifecycleResultError err"

section \<open>Classification\<close>

definition errorTextForClassification :: "failure \<Rightarrow> string" where
  "errorTextForClassification f =
     (let message = errMessage (failureError f)
      in case failureEvidence f of
           None \<Rightarrow> message
         | Some ev \<Rightarrow> if evBody ev = '''' then message
                      else if trim_space message = '''' then evBody ev
                      else message @ [char_of (10 :: nat)] @ evBody ev)"

definition clientRequestBody :: "gjson_reader \<Rightarrow> string \<Rightarrow> bool" where
  "clientRequestBody gj message =
     (let trimmed = trim_space message
      in if trimmed = '''' then False
         else (gjsonValid gj trimmed \<and>
               list_ex (\<lambda>path. to_lower (trim_space (gjsonGet gj trimmed path)) \<in>
                   {''invalid_encrypted_content'', ''cyber_policy'', ''context_length_exceeded'',
                    ''invalid_request_error'', ''previous_response_not_found'', ''invalid_request''})
                 [''error.code'', ''code'', ''error.type'', ''type'']) \<or>
              contains_any (to_lower trimmed)
                [''missing required parameter'', ''invalid type for input content'',
                 ''invalid_encrypted_content'', ''response item not found'', ''cyber_policy'',
                 ''context length exceeded''])"

text \<open>What the headers and the text say of the credential, whatever the status.\<close>

definition credentialSignal :: "failure \<Rightarrow> bool" where
  "credentialSignal f \<longleftrightarrow>
     (case failureEvidence f of
        None \<Rightarrow> False
      | Some ev \<Rightarrow> list_ex (\<lambda>name. trim_space (responseHeaderValue (evHeaders ev) name) \<noteq> '''')
                     [''WWW-Authenticate'', ''X-Auth-Error'', ''X-Authentication-Error'']) \<or>
     contains_any (to_lower (errCode (failureError f) @ '' '' @ errorTextForClassification f))
       [''invalid token'', ''invalid grant'', ''authentication_error'', ''bad-credentials'',
        ''insufficient balance'', ''balance insufficient'']"

definition isCredentialFailureResult :: "failure \<Rightarrow> bool" where
  "isCredentialFailureResult f =
     (let err = Some (failureError f); status = statusCodeFromResult err
      in if isTerminalCredentialResultError err then True
         else if status = 401 \<or> status = 402 then True
         else if status = 403 \<and> \<not> isCloudflareChallengeResultError err then True
         else credentialSignal f)"

definition hasExplicitCredentialAuthSignal :: "failure \<Rightarrow> bool" where
  "hasExplicitCredentialAuthSignal f =
     (if statusCodeFromResult (Some (failureError f)) \<in> {401, 402, 403} then True else credentialSignal f)"

definition isQuotaMessage :: "string \<Rightarrow> bool" where
  "isQuotaMessage message =
     contains_any (to_lower message) [''quota'', ''usage_limit'', ''rate limit'', ''rate_limit'']"

text \<open>After the guards every path of the code returns true.\<close>

definition isEdgeGatewayError :: "failure \<Rightarrow> bool" where
  "isEdgeGatewayError f =
     (if statusCodeFromResult (Some (failureError f)) \<noteq> 502 then False
      else \<not> (isCredentialFailureResult f \<or> isRequestScopedResultError (Some (failureError f))))"

definition isCapacityError :: "failure \<Rightarrow> bool" where
  "isCapacityError f \<longleftrightarrow> statusCodeFromResult (Some (failureError f)) \<in> {503, 529}"

definition isTransportErrorMessage :: "string \<Rightarrow> bool" where
  "isTransportErrorMessage message =
     (let lower = to_lower message
      in contains_any lower
           [''unexpected eof'', ''connection reset'', ''connection refused'', ''network is unreachable'',
            ''no route to host'', ''broken pipe'', ''use of closed network connection'', ''i/o timeout'',
            ''tls handshake timeout'', ''timeout awaiting response headers'', ''stream reset'',
            ''http2: stream closed'', ''temporary failure in name resolution''] \<or>
         str_contains lower ''context canceled'' \<or> str_contains lower ''context deadline exceeded'' \<or>
         lower = ''eof'')"

definition classifyFailure :: "gjson_reader \<Rightarrow> failure option \<Rightarrow> FailureKind" where
  "classifyFailure gj err =
     (case err of
        None \<Rightarrow> FailureKindUnknownTransient
      | Some f \<Rightarrow>
          let status = statusCodeFromResult (Some (failureError f));
              message = errorTextForClassification f
          in if isRequestScopedResultError (Some (failureError f)) \<or> clientRequestBody gj message
             then FailureKindRequestFault
             else if isCredentialFailureResult f
             then (if \<not> hasExplicitCredentialAuthSignal f \<and> (status = 429 \<or> isQuotaMessage message)
                   then FailureKindQuota else FailureKindAuth)
             else if status = 429 then FailureKindQuota
             else if isEdgeGatewayError f then FailureKindEdgeGateway
             else if isCapacityError f then FailureKindCapacity
             else if isTransportErrorMessage message then FailureKindTransport
             else if (case failureEvidence f of Some ev \<Rightarrow> evOutputStarted ev | None \<Rightarrow> False)
             then FailureKindStreamQuality
             else FailureKindUnknownTransient)"

text \<open>The kind an error was given stays; otherwise it is classified now.\<close>

definition temporaryFailureKind :: "gjson_reader \<Rightarrow> failure option \<Rightarrow> FailureKind" where
  "temporaryFailureKind gj err =
     (case err of
        None \<Rightarrow> FailureKindUnknownTransient
      | Some f \<Rightarrow> (case failureKind f of None \<Rightarrow> classifyFailure gj err | Some k \<Rightarrow> k))"

definition isTemporaryFailureKind :: "FailureKind \<Rightarrow> bool" where
  "isTemporaryFailureKind kind \<longleftrightarrow>
     kind \<in> {FailureKindEdgeGateway, FailureKindCapacity, FailureKindTransport, FailureKindStreamQuality,
             FailureKindUnknownTransient}"

abbreviation result_error :: "failure option \<Rightarrow> ResultError option" where
  "result_error err \<equiv> map_option failureError err"

definition isTemporaryFailureResult :: "gjson_reader \<Rightarrow> failure option \<Rightarrow> bool" where
  "isTemporaryFailureResult gj err =
     (if err = None \<or> isModelSupportResultError (result_error err) \<or>
         isRequestScopedResultError (result_error err) then False
      else isTemporaryFailureKind (temporaryFailureKind gj err))"

text \<open>
  \<open>keepActive\<close> is \<open>TransientErrorsKeepAccountActive\<close> of the policy in force: true, except
  under a configuration whose error-handling section is empty.
\<close>

definition keepsTransientAccountActive :: "gjson_reader \<Rightarrow> bool \<Rightarrow> failure option \<Rightarrow> bool" where
  "keepsTransientAccountActive gj keepActive err =
     (if err = None then False
      else if temporaryFailureKind gj err \<in> {FailureKindEdgeGateway, FailureKindCapacity,
                FailureKindTransport, FailureKindStreamQuality}
      then keepActive else False)"

definition managerSkipsCooldown :: "gjson_reader \<Rightarrow> bool \<Rightarrow> failure option \<Rightarrow> bool" where
  "managerSkipsCooldown gj keepActive err \<longleftrightarrow>
     shouldSkipCredentialCooldown (result_error err) \<or> keepsTransientAccountActive gj keepActive err"

section \<open>Retrying after a temporary failure\<close>

datatype TemporaryErrorStrategy = TemporaryErrorWaitThenSwitch | TemporaryErrorImmediateSwitch
  | TemporaryErrorNoSwitch

record ErrorHandlingConfig =
  temporaryErrorStrategy :: TemporaryErrorStrategy
  TemporaryErrorMaxWaitSeconds :: int
  RetryBeforeFirstOutputOnly :: bool
  TransientErrorsKeepAccountActive :: bool

definition DefaultErrorHandlingConfig :: ErrorHandlingConfig where
  "DefaultErrorHandlingConfig =
     \<lparr>temporaryErrorStrategy = TemporaryErrorWaitThenSwitch, TemporaryErrorMaxWaitSeconds = 3,
      RetryBeforeFirstOutputOnly = True, TransientErrorsKeepAccountActive = True\<rparr>"

text \<open>
  The policy in force: the defaults, except that a configuration whose error-handling section
  is the zero value (\<open>zeroSection\<close>) does not keep accounts active.
\<close>

definition errorHandlingConfig :: "bool \<Rightarrow> ErrorHandlingConfig" where
  "errorHandlingConfig zeroSection =
     (if zeroSection then DefaultErrorHandlingConfig\<lparr>TransientErrorsKeepAccountActive := False\<rparr>
      else DefaultErrorHandlingConfig)"

text \<open>
  How long a request waits before it tries another credential. An \<open>*Error\<close> has no
  \<open>RetryAfter\<close> method, so the hint can only come from the header; \<open>until raw\<close> is the
  time left to a date in it, a parameter with \<open>http.ParseTime\<close> and the clock.
\<close>

definition clampWait :: "duration \<Rightarrow> duration \<Rightarrow> duration" where
  "clampWait wait maxWait = (if wait < maxWait then wait else maxWait)"

definition dateWait :: "(string \<Rightarrow> duration option) \<Rightarrow> string \<Rightarrow> duration \<Rightarrow> duration" where
  "dateWait until raw maxWait =
     (case until raw of Some w \<Rightarrow> if w > 0 then clampWait w maxWait else 0 | None \<Rightarrow> 0)"

definition temporaryErrorWait ::
  "(string \<Rightarrow> duration option) \<Rightarrow> failure option \<Rightarrow> duration \<Rightarrow> duration" where
  "temporaryErrorWait until err maxWait =
     (case err of
        None \<Rightarrow> 0
      | Some f \<Rightarrow>
          if maxWait \<le> 0 then 0
          else case failureEvidence f of
            None \<Rightarrow> 0
          | Some ev \<Rightarrow>
              let raw = trim_space (responseHeaderValue (evHeaders ev) ''Retry-After'')
              in if raw = '''' then 0
                 else case parse_int64 raw of
                   Some seconds \<Rightarrow>
                     if seconds > 0 then clampWait (dur_mul seconds second) maxWait
                     else dateWait until raw maxWait
                 | None \<Rightarrow> dateWait until raw maxWait)"

text \<open>
  The decision whether another credential may be tried. \<open>switches\<close> counts the switches of the
  request; \<open>waited d\<close> tells whether a wait of \<open>d\<close> ended before the request was cancelled. The
  result is the decision, whether it is an error of the context, and the counter.
\<close>

definition transientRetryAction ::
  "gjson_reader \<Rightarrow> (string \<Rightarrow> duration option) \<Rightarrow> (duration \<Rightarrow> bool) \<Rightarrow> ErrorHandlingConfig \<Rightarrow>
     failure option \<Rightarrow> int \<Rightarrow> (bool \<times> bool) \<times> int" where
  "transientRetryAction gj until waited cfg err switches =
     (if \<not> isTemporaryFailureResult gj err then ((True, False), switches)
      else if RetryBeforeFirstOutputOnly cfg \<and>
              (case failureEvidence (the err) of Some ev \<Rightarrow> evOutputStarted ev | None \<Rightarrow> False)
      then ((False, False), switches)
      else if temporaryErrorStrategy cfg = TemporaryErrorNoSwitch then ((False, False), switches)
      else if switches \<ge> 1 then ((False, False), switches)
      else let switches = switches + 1
           in if temporaryErrorStrategy cfg = TemporaryErrorWaitThenSwitch
              then (let wait = temporaryErrorWait until err
                                 (dur_mul (TemporaryErrorMaxWaitSeconds cfg) second)
                    in if wait > 0 \<and> \<not> waited wait then ((False, True), switches)
                       else ((True, False), switches))
              else ((True, False), switches))"

end
