(* ===== verification/Cooldown.thy ===== *)
theory Cooldown
  imports Failures
begin

text \<open>
  What a failure or a success does to one credential: the per-model states, the aggregated
  availability and the backoff ladders of \<open>sdk/cliproxy/auth/conductor_cooldown.go\<close>.

  The code works on pointers into the credential; each definition here returns the changed
  credential or state. A function that returns nothing in the source returns the credential.
\<close>

abbreviation quotaBackoffBase :: duration where "quotaBackoffBase \<equiv> second"
abbreviation quotaBackoffMax :: duration where "quotaBackoffMax \<equiv> 30 * minute"
abbreviation transientErrorCooldown :: duration where "transientErrorCooldown \<equiv> minute"

abbreviation zeroQuota :: QuotaState where
  "zeroQuota \<equiv> \<lparr>Exceeded = False, quotaReason = '''', NextRecoverAt = zeroTime, BackoffLevel = 0\<rparr>"

section \<open>Backoff\<close>

text \<open>\<open>1<<level\<close> on a 64-bit integer: \<open>0\<close> once every bit is shifted out.\<close>

definition nextQuotaCooldown :: "int \<Rightarrow> bool \<Rightarrow> duration \<times> int" where
  "nextQuotaCooldown prevLevel0 disableCooling =
     (let prevLevel = (if prevLevel0 < 0 then 0 else prevLevel0)
      in if disableCooling then (0, prevLevel)
         else let cooldown = dur_mul quotaBackoffBase (wrap64 (2 ^ nat prevLevel));
                  cooldown = (if cooldown < quotaBackoffBase then quotaBackoffBase else cooldown)
              in if cooldown \<ge> quotaBackoffMax then (quotaBackoffMax, prevLevel)
                 else (cooldown, wrap64 (prevLevel + 1)))"

definition quotaCooldownAfterFailure :: "QuotaState \<Rightarrow> gotime \<Rightarrow> gotime \<times> int" where
  "quotaCooldownAfterFailure quota now =
     (if NextRecoverAt quota > now then (NextRecoverAt quota, BackoffLevel quota)
      else let (cooldown, nextLevel) = nextQuotaCooldown (BackoffLevel quota) False
           in (if cooldown > 0 then now + cooldown else zeroTime, nextLevel))"

definition nextCloudflareCooldown :: "int \<Rightarrow> bool \<Rightarrow> gotime \<Rightarrow> gotime \<times> int" where
  "nextCloudflareCooldown backoffLevel disableCooling now =
     (if disableCooling then (zeroTime, backoffLevel)
      else let (cooldown, nextLevel) = nextQuotaCooldown backoffLevel disableCooling;
               cooldown = (if cooldown < 10 * second then 10 * second else cooldown)
           in (if cooldown > 0 then now + cooldown else zeroTime, nextLevel))"

text \<open>\<open>seconds\<close> is the configured cooldown of transient errors.\<close>

definition nextTransientErrorRetryAfter :: "int \<Rightarrow> gotime \<Rightarrow> gotime" where
  "nextTransientErrorRetryAfter seconds now =
     (if seconds < 0 then zeroTime
      else if seconds = 0 then now + transientErrorCooldown
      else now + dur_mul seconds second)"

definition recoverableFailureRetryAfter :: "int \<Rightarrow> gotime \<Rightarrow> bool \<Rightarrow> gotime" where
  "recoverableFailureRetryAfter seconds now disableCooling =
     (if disableCooling then zeroTime else nextTransientErrorRetryAfter seconds now)"

section \<open>Whether a credential cools down\<close>

record OpenAICompatibility =
  compatName :: string
  compatDisabled :: bool
  compatDisableCooling :: bool

text \<open>The parts of the configuration these functions read.\<close>

record coolingConfig =
  cfgDisableCooling :: bool
  cfgOpenAICompatibility :: "OpenAICompatibility list"

definition DisableCoolingOverride :: "Auth \<Rightarrow> bool option" where
  "DisableCoolingOverride a =
     (let reading = (\<lambda>key. case glookup (Metadata a) key of Some v \<Rightarrow> parseBoolAny v | None \<Rightarrow> None)
      in case reading ''disable_cooling'' of
           Some parsed \<Rightarrow> if parsed then Some True else None
         | None \<Rightarrow>
             (case reading ''disable-cooling'' of
                Some parsed \<Rightarrow> if parsed then Some True else None
              | None \<Rightarrow> None))"

definition resolveOpenAICompatConfig ::
  "coolingConfig \<Rightarrow> string \<Rightarrow> string \<Rightarrow> string \<Rightarrow> OpenAICompatibility option" where
  "resolveOpenAICompatConfig cfg providerKey compatName0 authProvider =
     (let candidates = filter (\<lambda>v. v \<noteq> '''') [trim_space compatName0, trim_space providerKey, trim_space authProvider]
      in find (\<lambda>compat. \<not> compatDisabled compat \<and>
                 list_ex (\<lambda>candidate. candidate \<noteq> '''' \<and> equal_fold (trim_space candidate) (compatName compat)) candidates)
           (cfgOpenAICompatibility cfg))"

definition providerCoolingDisabledForAuth :: "Auth option \<Rightarrow> coolingConfig option \<Rightarrow> bool" where
  "providerCoolingDisabledForAuth auth cfg =
     (case (auth, cfg) of
        (Some a, Some c) \<Rightarrow>
          let provider = to_lower (trim_space (Provider a));
              providerKey = authAttribute a ''provider_key'';
              compat = authAttribute a ''compat_name''
          in if provider = '''' then False
             else if providerKey = '''' \<and> compat = '''' \<and> provider \<noteq> ''openai-compatibility'' then False
             else let providerKey = (if providerKey = '''' then provider else providerKey)
                  in (case resolveOpenAICompatConfig c providerKey compat provider of
                        None \<Rightarrow> False | Some entry \<Rightarrow> compatDisableCooling entry)
      | _ \<Rightarrow> False)"

definition quotaCooldownDisabledForAuthWithConfig :: "bool \<Rightarrow> Auth option \<Rightarrow> coolingConfig option \<Rightarrow> bool" where
  "quotaCooldownDisabledForAuthWithConfig globallyDisabled auth cfg =
     (case (case auth of Some a \<Rightarrow> DisableCoolingOverride a | None \<Rightarrow> None) of
        Some override \<Rightarrow> override
      | None \<Rightarrow> if providerCoolingDisabledForAuth auth cfg then True
                else if (case cfg of Some c \<Rightarrow> cfgDisableCooling c | None \<Rightarrow> False) then True
                else globallyDisabled)"

section \<open>Model states\<close>

definition resetModelState :: "gotime \<Rightarrow> ModelState \<Rightarrow> ModelState" where
  "resetModelState now st =
     st\<lparr>msUnavailable := False, msStatus := StatusActive, msStatusMessage := '''',
        msNextRetryAfter := zeroTime, msLastError := None, msQuota := zeroQuota, msUpdatedAt := now\<rparr>"

definition modelStateIsClean :: "ModelState option \<Rightarrow> bool" where
  "modelStateIsClean state =
     (case state of
        None \<Rightarrow> True
      | Some st \<Rightarrow>
          if msStatus st \<noteq> StatusActive then False
          else if msUnavailable st \<or> msStatusMessage st \<noteq> '''' \<or> msNextRetryAfter st \<noteq> zeroTime \<or>
                  msLastError st \<noteq> None then False
          else if Exceeded (msQuota st) \<or> quotaReason (msQuota st) \<noteq> '''' \<or>
                  NextRecoverAt (msQuota st) \<noteq> zeroTime \<or> BackoffLevel (msQuota st) \<noteq> 0 then False
          else True)"

definition mergeStates :: "ModelState \<Rightarrow> ModelState \<Rightarrow> ModelState" where
  "mergeStates target source =
     (let (preferred, fallback) = (if msUpdatedAt source > msUpdatedAt target then (source, target)
                                   else (target, source));
          tq = msQuota target; sq = msQuota source;
          unavailable = (msUnavailable target \<or> msUnavailable source);
          exceeded = (Exceeded tq \<or> Exceeded sq)
      in \<lparr>msStatus = (if msStatus target = StatusDisabled \<or> msStatus source = StatusDisabled then StatusDisabled
                      else if unavailable \<or> exceeded then StatusError else msStatus preferred),
          msStatusMessage = (if msStatusMessage preferred = '''' then msStatusMessage fallback
                             else msStatusMessage preferred),
          msUnavailable = unavailable,
          msNextRetryAfter = (if msNextRetryAfter source > msNextRetryAfter target
                              then msNextRetryAfter source else msNextRetryAfter target),
          msLastError = (case msLastError preferred of None \<Rightarrow> msLastError fallback | Some e \<Rightarrow> Some e),
          msQuota = \<lparr>Exceeded = exceeded,
                     quotaReason = (if quotaReason (msQuota preferred) = '''' then quotaReason (msQuota fallback)
                                    else quotaReason (msQuota preferred)),
                     NextRecoverAt = (if NextRecoverAt sq > NextRecoverAt tq then NextRecoverAt sq
                                      else NextRecoverAt tq),
                     BackoffLevel = (if BackoffLevel sq > BackoffLevel tq then BackoffLevel sq
                                     else BackoffLevel tq)\<rparr>,
          msUpdatedAt = (if msUpdatedAt source > msUpdatedAt target then msUpdatedAt source
                         else msUpdatedAt target)\<rparr>)"

definition mergeModelState :: "ModelState option \<Rightarrow> ModelState option \<Rightarrow> ModelState option" where
  "mergeModelState target source =
     (case (target, source) of
        (None, _) \<Rightarrow> source
      | (_, None) \<Rightarrow> target
      | (Some t, Some s) \<Rightarrow> Some (mergeStates t s))"

type_synonym model_states = "(string, ModelState option) gomap"

text \<open>The loop over the states, with the states normalised so far and whether anything changed.\<close>

fun normalizeLoop :: "model_states \<Rightarrow> model_states \<Rightarrow> bool \<Rightarrow> model_states \<times> bool" where
  "normalizeLoop [] normalized changed = (normalized, changed)"
| "normalizeLoop ((model, state) # rest) normalized changed =
     (let modelKey = canonicalModelKey model;
          modelKey = (if modelKey = '''' then trim_space model else modelKey);
          changed = (changed \<or> modelKey \<noteq> model)
      in case glookup normalized modelKey of
           Some existing \<Rightarrow>
             normalizeLoop rest (gput modelKey (mergeModelState existing state) normalized) True
         | None \<Rightarrow> normalizeLoop rest (gput modelKey state normalized) changed)"

definition normalizeModelStates :: "model_states \<Rightarrow> model_states" where
  "normalizeModelStates states =
     (let (normalized, changed) = normalizeLoop states [] False
      in if changed then normalized else states)"

definition activeState :: ModelState where
  "activeState = \<lparr>msStatus = StatusActive, msStatusMessage = '''', msUnavailable = False,
     msNextRetryAfter = zeroTime, msLastError = None, msQuota = zeroQuota, msUpdatedAt = zeroTime\<rparr>"

text \<open>
  \<open>ensureModelState\<close> returns a pointer into the map; here the key it stands for, the state
  there and the credential that has it. The key is never empty in the calls of the code.
\<close>

definition ensureModelState :: "Auth \<Rightarrow> string \<Rightarrow> (string \<times> ModelState) \<times> Auth" where
  "ensureModelState a model =
     (let key = canonicalModelKey model;
          states = normalizeModelStates (ModelStates a)
      in case glookup states key of
           Some (Some st) \<Rightarrow> ((key, st), a\<lparr>ModelStates := states\<rparr>)
         | _ \<Rightarrow> ((key, activeState), a\<lparr>ModelStates := gput key (Some activeState) states\<rparr>))"

definition setModelState :: "string \<Rightarrow> ModelState \<Rightarrow> Auth \<Rightarrow> Auth" where
  "setModelState key st a = a\<lparr>ModelStates := gput key (Some st) (ModelStates a)\<rparr>"

section \<open>Aggregated availability\<close>

definition clearAggregatedAvailability :: "Auth \<Rightarrow> Auth" where
  "clearAggregatedAvailability a = a\<lparr>Unavailable := False, NextRetryAfter := zeroTime, Quota := zeroQuota\<rparr>"

record aggregate =
  allUnavailable :: bool
  earliestRetry :: gotime
  quotaExceeded :: bool
  quotaRecover :: gotime
  maxBackoffLevel :: int
  hasState :: bool

definition emptyAggregate :: aggregate where
  "emptyAggregate = \<lparr>allUnavailable = True, earliestRetry = zeroTime, quotaExceeded = False,
     quotaRecover = zeroTime, maxBackoffLevel = 0, hasState = False\<rparr>"

text \<open>One state of the loop: an expired state is made available again.\<close>

definition aggregateStep :: "gotime \<Rightarrow> ModelState \<Rightarrow> aggregate \<Rightarrow> ModelState \<times> aggregate" where
  "aggregateStep now st g =
     (let g = g\<lparr>hasState := True\<rparr>;
          (st, unavailable, g) =
            (if msStatus st = StatusDisabled then (st, True, g)
             else if \<not> msUnavailable st then (st, False, g)
             else if msNextRetryAfter st = zeroTime then (st, False, g)
             else if msNextRetryAfter st > now
             then (st, True,
                   if earliestRetry g = zeroTime \<or> msNextRetryAfter st < earliestRetry g
                   then g\<lparr>earliestRetry := msNextRetryAfter st\<rparr> else g)
             else (st\<lparr>msUnavailable := False, msNextRetryAfter := zeroTime\<rparr>, False, g));
          g = (if unavailable then g else g\<lparr>allUnavailable := False\<rparr>);
          q = msQuota st;
          g = (if \<not> Exceeded q then g
               else g\<lparr>quotaExceeded := True,
                      quotaRecover := (if quotaRecover g = zeroTime \<or>
                                          (NextRecoverAt q \<noteq> zeroTime \<and> NextRecoverAt q < quotaRecover g)
                                       then NextRecoverAt q else quotaRecover g),
                      maxBackoffLevel := (if BackoffLevel q > maxBackoffLevel g
                                          then BackoffLevel q else maxBackoffLevel g)\<rparr>)
      in (st, g))"

fun aggregateLoop :: "gotime \<Rightarrow> model_states \<Rightarrow> aggregate \<Rightarrow> model_states \<times> aggregate" where
  "aggregateLoop now [] g = ([], g)"
| "aggregateLoop now ((model, None) # rest) g =
     (let (rest', g') = aggregateLoop now rest g in ((model, None) # rest', g'))"
| "aggregateLoop now ((model, Some st) # rest) g =
     (let (st', g1) = aggregateStep now st g;
          (rest', g') = aggregateLoop now rest g1
      in ((model, Some st') # rest', g'))"

definition updateAggregatedAvailability :: "gotime \<Rightarrow> Auth \<Rightarrow> Auth" where
  "updateAggregatedAvailability now a =
     (if ModelStates a = [] then clearAggregatedAvailability a
      else let (states, g) = aggregateLoop now (ModelStates a) emptyAggregate;
               a = a\<lparr>ModelStates := states\<rparr>
           in if \<not> hasState g then clearAggregatedAvailability a
              else a\<lparr>Unavailable := allUnavailable g,
                     NextRetryAfter := (if allUnavailable g then earliestRetry g else zeroTime),
                     Quota := (if quotaExceeded g
                               then \<lparr>Exceeded = True, quotaReason = ''quota'', NextRecoverAt = quotaRecover g,
                                     BackoffLevel = maxBackoffLevel g\<rparr>
                               else zeroQuota)\<rparr>)"

definition hasModelError :: "Auth \<Rightarrow> gotime \<Rightarrow> bool" where
  "hasModelError a now \<longleftrightarrow>
     list_ex (\<lambda>(_, state). case state of
         None \<Rightarrow> False
       | Some st \<Rightarrow> msLastError st \<noteq> None \<or>
                    (msStatus st = StatusError \<and> msUnavailable st \<and>
                     (msNextRetryAfter st = zeroTime \<or> msNextRetryAfter st > now)))
       (ModelStates a)"

definition clearAuthStateOnSuccess :: "gotime \<Rightarrow> Auth \<Rightarrow> Auth" where
  "clearAuthStateOnSuccess now a =
     a\<lparr>Unavailable := False, authStatus := StatusActive, StatusMessage := '''', Quota := zeroQuota,
       LastError := None, NextRetryAfter := zeroTime, UpdatedAt := now\<rparr>"

text \<open>Clearing a state that holds a cooldown; the flag tells whether there was one.\<close>

abbreviation cooling :: "bool \<Rightarrow> gotime \<Rightarrow> QuotaState \<Rightarrow> bool" where
  "cooling unavailable upcoming q \<equiv> unavailable \<or> upcoming \<noteq> zeroTime \<or> Exceeded q \<or> NextRecoverAt q \<noteq> zeroTime"

definition clearCooldownStateForAuth :: "gotime \<Rightarrow> Auth \<Rightarrow> bool \<times> Auth" where
  "clearCooldownStateForAuth now a =
     (let own = cooling (Unavailable a) (NextRetryAfter a) (Quota a);
          a = (if own then a\<lparr>Unavailable := False, NextRetryAfter := zeroTime, Quota := zeroQuota, UpdatedAt := now\<rparr>
               else a);
          held = (\<lambda>state. case state of None \<Rightarrow> False
                    | Some st \<Rightarrow> cooling (msUnavailable st) (msNextRetryAfter st) (msQuota st));
          models = list_ex (\<lambda>(_, state). held state) (ModelStates a);
          a = a\<lparr>ModelStates := map (\<lambda>(model, state). (model,
                if held state
                then map_option (\<lambda>st. st\<lparr>msUnavailable := False, msNextRetryAfter := zeroTime,
                       msQuota := zeroQuota, msUpdatedAt := now\<rparr>) state
                else state)) (ModelStates a)\<rparr>;
          a = (if ModelStates a \<noteq> [] then updateAggregatedAvailability now a else a)
      in (own \<or> models, a))"

section \<open>A failure of one model\<close>

text \<open>
  The branches on the kind of failure, over the state of the model: the new state, the reason
  the model is suspended for, if it is, and whether its quota is marked as exceeded.
\<close>

definition cooldownState ::
  "int \<Rightarrow> ResultError option \<Rightarrow> duration option \<Rightarrow> gotime \<Rightarrow> bool \<Rightarrow> ModelState \<Rightarrow>
     ModelState \<times> string option \<times> bool" where
  "cooldownState seconds err retryAfter now disableCooling st =
     (let retryAt = (\<lambda>t. st\<lparr>msNextRetryAfter := t\<rparr>);
          suspend = (\<lambda>d reason. if disableCooling then (retryAt zeroTime, None, False)
                                else (retryAt (now + d), Some reason, False));
          transient = (let next = recoverableFailureRetryAfter seconds now disableCooling
                       in (st\<lparr>msNextRetryAfter := next, msUnavailable := (next \<noteq> zeroTime)\<rparr>, None, False));
          statusCode = statusCodeFromResult err
      in if isTransientCredentialContextResultError err
         then (retryAt (now + 30 * minute), Some ''transient_credential_context'', False)
         else if isModelSupportResultError err
         then (retryAt (now + 12 * hour), Some ''model_not_supported'', False)
         else if isCloudflareChallengeResultError err
         then (let (next, backoffLevel) = nextCloudflareCooldown (BackoffLevel (msQuota st)) disableCooling now
               in ((retryAt next)\<lparr>msStatusMessage := ''cloudflare challenge'',
                     msQuota := \<lparr>Exceeded = True, quotaReason = ''cloudflare challenge'',
                       NextRecoverAt = next, BackoffLevel = backoffLevel\<rparr>\<rparr>, None, False))
         else if isInvalidGrantResultError err then suspend (30 * minute) ''invalid_grant''
         else if statusCode = 401 then suspend (30 * minute) ''unauthorized''
         else if statusCode = 402 \<or> statusCode = 403 then suspend (30 * minute) ''payment_required''
         else if statusCode = 404 then suspend (12 * hour) ''not_found''
         else if statusCode = 429
         then (let (next, backoffLevel) =
                     (if disableCooling then (zeroTime, BackoffLevel (msQuota st))
                      else case retryAfter of
                             Some r \<Rightarrow> (now + r, BackoffLevel (msQuota st))
                           | None \<Rightarrow> quotaCooldownAfterFailure (msQuota st) now)
               in ((retryAt next)\<lparr>msQuota := \<lparr>Exceeded = True, quotaReason = ''quota'',
                       NextRecoverAt = next, BackoffLevel = backoffLevel\<rparr>\<rparr>,
                   if disableCooling then None else Some ''quota'', \<not> disableCooling))
         else transient)"

definition applyModelFailure ::
  "int \<Rightarrow> ResultError option \<Rightarrow> duration option \<Rightarrow> gotime \<Rightarrow> bool \<Rightarrow> string \<Rightarrow> Auth \<Rightarrow>
     Auth \<times> string option \<times> bool" where
  "applyModelFailure seconds err retryAfter now disableCooling model a0 =
     (let ((key, st0), a) = ensureModelState a0 model;
          st = st0\<lparr>msUnavailable := True, msStatus := StatusError, msUpdatedAt := now\<rparr>;
          st = (case err of None \<Rightarrow> st | Some e \<Rightarrow> st\<lparr>msLastError := err, msStatusMessage := errMessage e\<rparr>);
          a = (case err of None \<Rightarrow> a | Some e \<Rightarrow> a\<lparr>LastError := err, StatusMessage := errMessage e\<rparr>);
          (st, suspendReason, setModelQuota) = cooldownState seconds err retryAfter now disableCooling st;
          a = (if \<not> isTransientCredentialContextResultError err \<and> \<not> isModelSupportResultError err \<and>
                  isCloudflareChallengeResultError err \<and> LastError a \<noteq> None
               then a\<lparr>StatusMessage := ''cloudflare challenge''\<rparr> else a);
          st = (if disableCooling \<and> msNextRetryAfter st = zeroTime \<and> NextRecoverAt (msQuota st) = zeroTime
                then st\<lparr>msUnavailable := False, msQuota := (msQuota st)\<lparr>Exceeded := False\<rparr>\<rparr> else st);
          a = (setModelState key st a)\<lparr>authStatus := StatusError, UpdatedAt := now\<rparr>
      in (updateAggregatedAvailability now a, suspendReason, setModelQuota))"

section \<open>A failure of the credential\<close>

definition authFailureBranch ::
  "int \<Rightarrow> ResultError option \<Rightarrow> duration option \<Rightarrow> gotime \<Rightarrow> bool \<Rightarrow> Auth \<Rightarrow> Auth" where
  "authFailureBranch seconds err retryAfter now disableCooling a =
     (let cooldown = (\<lambda>d reason. a\<lparr>StatusMessage := reason,
            NextRetryAfter := (if disableCooling then zeroTime else now + d)\<rparr>);
          transient = (\<lambda>message. let next = recoverableFailureRetryAfter seconds now disableCooling
            in a\<lparr>StatusMessage := message, NextRetryAfter := next, Unavailable := (next \<noteq> zeroTime)\<rparr>);
          statusCode = statusCodeFromResult err
      in if isCloudflareChallengeResultError err
         then (let (next, backoffLevel) = nextCloudflareCooldown (BackoffLevel (Quota a)) disableCooling now
               in a\<lparr>StatusMessage := ''cloudflare challenge'',
                    Quota := \<lparr>Exceeded = True, quotaReason = ''cloudflare challenge'',
                      NextRecoverAt = next, BackoffLevel = backoffLevel\<rparr>, NextRetryAfter := next\<rparr>)
         else if isInvalidGrantResultError err then cooldown (30 * minute) ''invalid_grant''
         else if statusCode = 401 then cooldown (30 * minute) ''unauthorized''
         else if statusCode = 402 \<or> statusCode = 403 then cooldown (30 * minute) ''payment_required''
         else if statusCode = 404 then cooldown (12 * hour) ''not_found''
         else if statusCode = 429
         then (let (next, backoffLevel) =
                     (if disableCooling then (zeroTime, BackoffLevel (Quota a))
                      else case retryAfter of
                             Some r \<Rightarrow> (now + r, BackoffLevel (Quota a))
                           | None \<Rightarrow> quotaCooldownAfterFailure ((Quota a)\<lparr>Exceeded := True, quotaReason := ''quota''\<rparr>) now)
               in a\<lparr>StatusMessage := ''quota exhausted'',
                    Quota := \<lparr>Exceeded = True, quotaReason = ''quota'', NextRecoverAt = next,
                      BackoffLevel = backoffLevel\<rparr>, NextRetryAfter := next\<rparr>)
         else if statusCode \<in> {408, 500, 502, 503, 504} then transient ''transient upstream error''
         else transient (if StatusMessage a = '''' then ''request failed'' else StatusMessage a))"

definition applyAuthFailureState ::
  "int \<Rightarrow> ResultError option \<Rightarrow> duration option \<Rightarrow> gotime \<Rightarrow> bool \<Rightarrow> Auth \<Rightarrow> Auth" where
  "applyAuthFailureState seconds err retryAfter now disableCooling a =
     (if shouldSkipCredentialCooldown err then a
      else let a = a\<lparr>Unavailable := True, authStatus := StatusError, UpdatedAt := now\<rparr>;
               a = (case err of
                      None \<Rightarrow> a
                    | Some e \<Rightarrow> a\<lparr>LastError := err,
                                  StatusMessage := (if errMessage e \<noteq> '''' then errMessage e else StatusMessage a)\<rparr>);
               a = authFailureBranch seconds err retryAfter now disableCooling a
           in if disableCooling \<and> NextRetryAfter a = zeroTime \<and> NextRecoverAt (Quota a) = zeroTime
              then a\<lparr>Unavailable := False, Quota := (Quota a)\<lparr>Exceeded := False\<rparr>\<rparr> else a)"

definition applyAuthFailureStateWithTransientPolicy ::
  "gjson_reader \<Rightarrow> int \<Rightarrow> failure option \<Rightarrow> duration option \<Rightarrow> gotime \<Rightarrow> bool \<Rightarrow> bool \<Rightarrow> Auth \<Rightarrow> Auth" where
  "applyAuthFailureStateWithTransientPolicy gj seconds err retryAfter now disableCooling keepTransientActive a =
     (if shouldSkipCredentialCooldown (result_error err) then a
      else if keepTransientActive \<and> isTemporaryFailureKind (temporaryFailureKind gj err) then a
      else applyAuthFailureState seconds (result_error err) retryAfter now disableCooling a)"

end
