(* ===== verification/CooldownRecords.thy ===== *)
theory CooldownRecords
  imports Cooldown
begin

text \<open>
  The cooldown records of \<open>conductor_cooldown.go\<close>: what is written to the cooldown store, when two
  snapshots of it differ, and how a record is restored into a credential after a restart.
\<close>

record CooldownStateRecord =
  recProvider :: string
  recAuthID :: string
  recAuthFile :: string
  recModel :: string
  recStatus :: string
  recNextRetryAfter :: gotime
  recReason :: string
  recQuota :: QuotaState
  recLastError :: "ResultError option"
  recUpdatedAt :: gotime

definition cooldownAuthFile :: "Auth \<Rightarrow> string" where
  "cooldownAuthFile a =
     (if authAttribute a ''path'' \<noteq> '''' then authAttribute a ''path'' else trim_space (FileName a))"

definition cooldownReason :: "string \<Rightarrow> QuotaState \<Rightarrow> ResultError option \<Rightarrow> string" where
  "cooldownReason statusMessage quota lastErr =
     (if trim_space (quotaReason quota) \<noteq> '''' then trim_space (quotaReason quota)
      else if trim_space statusMessage \<noteq> '''' then trim_space statusMessage
      else case lastErr of
             None \<Rightarrow> ''''
           | Some e \<Rightarrow> if trim_space (errCode e) \<noteq> '''' then trim_space (errCode e)
                       else trim_space (errMessage e))"

definition authCooldownStateRecord :: "Auth \<Rightarrow> gotime \<Rightarrow> CooldownStateRecord option" where
  "authCooldownStateRecord a now =
     (if \<not> Unavailable a \<or> NextRetryAfter a = zeroTime \<or> \<not> NextRetryAfter a > now then None
      else Some \<lparr>recProvider = trim_space (Provider a), recAuthID = ID a, recAuthFile = cooldownAuthFile a,
             recModel = '''', recStatus = ''cooling'', recNextRetryAfter = NextRetryAfter a,
             recReason = cooldownReason (StatusMessage a) (Quota a) (LastError a),
             recQuota = Quota a, recLastError = LastError a, recUpdatedAt = UpdatedAt a\<rparr>)"

definition modelCooldownStateRecord ::
  "Auth \<Rightarrow> string \<Rightarrow> ModelState option \<Rightarrow> gotime \<Rightarrow> CooldownStateRecord option" where
  "modelCooldownStateRecord a model0 state now =
     (case state of
        None \<Rightarrow> None
      | Some st \<Rightarrow>
          let model = trim_space model0
          in if model = '''' \<or> \<not> msUnavailable st \<or> msNextRetryAfter st = zeroTime \<or> \<not> msNextRetryAfter st > now
             then None
             else Some \<lparr>recProvider = trim_space (Provider a), recAuthID = ID a,
                    recAuthFile = cooldownAuthFile a, recModel = model, recStatus = ''cooling'',
                    recNextRetryAfter = msNextRetryAfter st,
                    recReason = cooldownReason (msStatusMessage st) (msQuota st) (msLastError st),
                    recQuota = msQuota st, recLastError = msLastError st, recUpdatedAt = msUpdatedAt st\<rparr>)"

text \<open>
  The records of one credential, sorted by model; \<open>disabledCooling\<close> is
  \<open>cooldownDisabledForAuth\<close>. Where two keys have the same trimmed model the order of their
  records is not specified by the source.
\<close>

definition cooldownStateRecordsForAuth :: "(Auth \<Rightarrow> bool) \<Rightarrow> Auth option \<Rightarrow> gotime \<Rightarrow> CooldownStateRecord list" where
  "cooldownStateRecordsForAuth disabledCooling auth now =
     (case auth of
        None \<Rightarrow> []
      | Some a \<Rightarrow>
          if ID a = '''' \<or> Disabled a \<or> authStatus a = StatusDisabled \<or> disabledCooling a then []
          else sort_key recModel
                 ((case authCooldownStateRecord a now of None \<Rightarrow> [] | Some r \<Rightarrow> [r]) @
                  List.map_filter (\<lambda>(model, state). modelCooldownStateRecord a model state now) (ModelStates a)))"

text \<open>The records of all credentials, by provider, credential and model.\<close>

definition cooldownStateRecordsSnapshot ::
  "(Auth \<Rightarrow> bool) \<Rightarrow> (string, Auth option) gomap \<Rightarrow> gotime \<Rightarrow> CooldownStateRecord list" where
  "cooldownStateRecordsSnapshot disabledCooling auths now =
     sort_key (\<lambda>r. (recProvider r, recAuthID r, recModel r))
       (concat (map (\<lambda>(_, auth). cooldownStateRecordsForAuth disabledCooling auth now) auths))"

text \<open>Field by field; the status of every record is the same text.\<close>

definition cooldownStateRecordsEqual :: "CooldownStateRecord list \<Rightarrow> CooldownStateRecord list \<Rightarrow> bool" where
  "cooldownStateRecordsEqual xs ys \<longleftrightarrow>
     length xs = length ys \<and>
     list_all2 (\<lambda>a b. recProvider a = recProvider b \<and> recAuthID a = recAuthID b \<and> recAuthFile a = recAuthFile b \<and>
         recModel a = recModel b \<and> recStatus a = recStatus b \<and> recReason a = recReason b \<and>
         recNextRetryAfter a = recNextRetryAfter b \<and> recUpdatedAt a = recUpdatedAt b \<and>
         recQuota a = recQuota b \<and> recLastError a = recLastError b) xs ys"

section \<open>Restoring\<close>

text \<open>\<open>None\<close> when the record changes nothing.\<close>

definition restoreCooldownRecord ::
  "(Auth \<Rightarrow> bool) \<Rightarrow> CooldownStateRecord \<Rightarrow> gotime \<Rightarrow> (string, Auth option) gomap \<Rightarrow>
     (string, Auth option) gomap option" where
  "restoreCooldownRecord disabledCooling r now auths =
     (let authID = trim_space (recAuthID r)
      in if authID = '''' \<or> recNextRetryAfter r = zeroTime \<or> \<not> recNextRetryAfter r > now then None
         else case glookup auths authID of
           Some (Some a) \<Rightarrow>
             if Disabled a \<or> authStatus a = StatusDisabled \<or> disabledCooling a then None
             else let updatedAt = (if recUpdatedAt r = zeroTime then now else recUpdatedAt r);
                      reason = trim_space (recReason r);
                      model = trim_space (recModel r);
                      quota = (if Exceeded (recQuota r) \<and> NextRecoverAt (recQuota r) = zeroTime
                               then (recQuota r)\<lparr>NextRecoverAt := recNextRetryAfter r\<rparr> else recQuota r);
                      restored =
                        (if model = ''''
                         then a\<lparr>Unavailable := True, authStatus := StatusError,
                                NextRetryAfter := recNextRetryAfter r, Quota := quota, UpdatedAt := updatedAt,
                                StatusMessage := (if reason \<noteq> '''' then reason else StatusMessage a),
                                LastError := recLastError r\<rparr>
                         else let ((key, st), a) = ensureModelState a model;
                                  st = mergeStates st \<lparr>msStatus = StatusError, msStatusMessage = reason,
                                         msUnavailable = True, msNextRetryAfter = recNextRetryAfter r,
                                         msLastError = recLastError r, msQuota = quota, msUpdatedAt = updatedAt\<rparr>
                              in updateAggregatedAvailability now (setModelState key st a))
                  in Some (gput authID (Some restored) auths)
         | _ \<Rightarrow> None)"

text \<open>\<open>RestoreCooldownStates\<close>: the records of models first, then those of whole credentials.\<close>

definition restoreAll ::
  "(Auth \<Rightarrow> bool) \<Rightarrow> gotime \<Rightarrow> CooldownStateRecord list \<Rightarrow> (string, Auth option) gomap \<Rightarrow>
     (string, Auth option) gomap" where
  "restoreAll disabledCooling now rs auths =
     fold (\<lambda>r auths. case restoreCooldownRecord disabledCooling r now auths of None \<Rightarrow> auths | Some m \<Rightarrow> m)
       rs auths"

definition RestoreCooldownStates ::
  "(Auth \<Rightarrow> bool) \<Rightarrow> gotime \<Rightarrow> CooldownStateRecord list \<Rightarrow> (string, Auth option) gomap \<Rightarrow>
     (string, Auth option) gomap" where
  "RestoreCooldownStates disabledCooling now records auths =
     restoreAll disabledCooling now (filter (\<lambda>r. trim_space (recModel r) = '''') records)
       (restoreAll disabledCooling now (filter (\<lambda>r. trim_space (recModel r) \<noteq> '''') records) auths)"

end
