(* ===== verification/Results.thy ===== *)
theory Results
  imports CooldownRecords
begin

text \<open>
  \<open>Manager.MarkResult\<close> of \<open>conductor_cooldown.go\<close>: what the outcome of a request does to the
  credential that served it, to the other files of the same account, to the request-time
  limits and to the rest of the system, with the recovery bookkeeping of \<open>recovery.go\<close>.

  The manager's credentials and the request-time limits are the state. Calls that leave the
  manager - to the store, the scheduler, the model registry, the hooks, the recovery loop - are
  \<open>effects\<close>, listed in the order the code makes them. The mutex covers everything up to the
  first effect on the scheduler, so the state part is one atomic step.
\<close>

section \<open>Recovery from rate limits\<close>

definition metadataHasNonEmptyString :: "(string, gov) gomap \<Rightarrow> string list \<Rightarrow> bool" where
  "metadataHasNonEmptyString metadata ks \<longleftrightarrow> list_ex (\<lambda>key. trim_space (metadataString metadata key) \<noteq> '''') ks"

definition isAgentIdentityAuth :: "Auth \<Rightarrow> bool" where
  "isAgentIdentityAuth a =
     (let keys = [''agent_runtime_id'', ''agentRuntimeId'', ''agent_private_key'', ''agentPrivateKey'']
      in list_ex (\<lambda>key. equal_fold (trim_space (metadataString (Metadata a) key)) ''agentIdentity'') [''auth_mode'', ''authMode''] \<or>
         metadataHasNonEmptyString (Metadata a) keys \<or>
         list_ex (\<lambda>key. case glookup (Metadata a) key of
                          Some (GMap nested) \<Rightarrow> metadataHasNonEmptyString nested keys | _ \<Rightarrow> False)
           [''agent_identity'', ''agentIdentity''])"

text \<open>The markers that are looked for last do not change the answer.\<close>

definition shouldQueueRateLimitRecovery :: "Auth \<Rightarrow> bool \<Rightarrow> ResultError option \<Rightarrow> bool" where
  "shouldQueueRateLimitRecovery a success err =
     (case err of
        None \<Rightarrow> False
      | Some e \<Rightarrow>
          if success \<or> statusCodeFromResult err \<noteq> 429 then False
          else if \<not> equal_fold (trim_space (executorKeyFromAuth a)) ''codex'' \<or> isAgentIdentityAuth a then False
          else \<not> contains_any (to_lower (errCode e @ '' '' @ errMessage e))
                 [''usage_limit_reached'', ''usage limit'', ''weekly quota'', ''quota reached'',
                  [CHR 0x22] @ ''error'' @ [CHR 0x22] @ '':'' @ [CHR 0x22] @ ''quota'' @ [CHR 0x22],
                  [CHR 0x22] @ ''error'' @ [CHR 0x22] @ '': '' @ [CHR 0x22] @ ''quota'' @ [CHR 0x22],
                  ''websocket_connection_limit_reached'', ''too many websocket'', ''model_capacity'',
                  ''model at capacity'', ''selected model is at capacity''])"

definition AuthRecoveryGeneration :: "Auth \<Rightarrow> string" where
  "AuthRecoveryGeneration a = trim_space (metadataString (Metadata a) ''recovery_generation'')"

text \<open>
  \<open>fresh\<close> is the identifier a new recovery would be given and \<open>stamp\<close> the formatted time.
  \<open>None\<close> when no recovery is queued.
\<close>

definition markRateLimitRecoveryQueued :: "string \<Rightarrow> string \<Rightarrow> gotime \<Rightarrow> Auth \<Rightarrow> string option \<times> Auth" where
  "markRateLimitRecoveryQueued fresh stamp now a =
     (if Disabled a \<or> authStatus a = StatusDisabled then (None, a)
      else let old = AuthRecoveryGeneration a;
               renew = (old = '''' \<or> \<not> IsAuthRecoveryBlocking (Some a));
               generation = (if renew then fresh else old);
               md = (if renew then gput ''recovery_attempts'' (GInt KInt64 0) (Metadata a) else Metadata a);
               md = gput ''recovery_state'' (GStr ''probing_usage'') md;
               md = gput ''recovery_generation'' (GStr generation) md;
               md = gput ''recovery_reason'' (GStr ''rate_limit_exceeded'') md;
               md = gput ''recovery_updated_at'' (GStr stamp) md;
               md = gdel ''recovery_next_retry_at'' (gdel ''recovery_error'' md)
           in (if generation = '''' then None else Some generation,
               a\<lparr>Metadata := md, authStatus := StatusProbingUsage,
                 StatusMessage := ''rate limit exceeded; usage probe queued'',
                 Unavailable := True, NextRetryAfter := now, UpdatedAt := now\<rparr>))"

abbreviation authRecoveryPeerCooldown :: duration where "authRecoveryPeerCooldown \<equiv> 30 * minute"

definition coordinateRateLimitPeer ::
  "string \<Rightarrow> gotime \<Rightarrow> duration option \<Rightarrow> Auth \<Rightarrow> limits_env \<Rightarrow> Auth \<times> limits_env" where
  "coordinateRateLimitPeer model0 now retryAfter a env =
     (if Disabled a \<or> authStatus a = StatusDisabled then (a, env)
      else let env = env(ID a := snd (freezeUpstreamRateLimit now retryAfter (env (ID a))));
               a = a\<lparr>authStatus := StatusError, StatusMessage := ''rate limit exceeded; recovery coordinated'',
                     Unavailable := True, UpdatedAt := now\<rparr>;
               model = canonicalModelKey model0;
               until = now + authRecoveryPeerCooldown
           in if model = '''' then (a\<lparr>NextRetryAfter := until\<rparr>, env)
              else let ((key, st), a) = ensureModelState a model;
                       st = st\<lparr>msStatus := StatusError, msStatusMessage := StatusMessage a,
                               msUnavailable := True, msNextRetryAfter := until,
                               msQuota := (msQuota st)\<lparr>Exceeded := True, quotaReason := ''rate_limit_recovery'',
                                 NextRecoverAt := until\<rparr>, msUpdatedAt := now\<rparr>
                   in (updateAggregatedAvailability now (setModelState key st a), env))"

definition cacheAffinityUsageLimitResult :: "ResultError option \<Rightarrow> bool" where
  "cacheAffinityUsageLimitResult err =
     (case err of
        None \<Rightarrow> False
      | Some e \<Rightarrow> HTTPStatus e = 429 \<and>
          contains_any (to_lower (errCode e @ '' '' @ errMessage e)) [''usage_limit_reached'', ''usage limit''])"

section \<open>Peers: other files of the same account\<close>

abbreviation invalidated :: "ResultError option \<Rightarrow> gotime \<Rightarrow> Auth \<Rightarrow> Auth" where
  "invalidated err now a \<equiv>
     a\<lparr>Disabled := True, Unavailable := True, authStatus := StatusDisabled,
       StatusMessage := ''credential invalidated'', LastError := err, NextRefreshAfter := zeroTime,
       NextRetryAfter := zeroTime, UpdatedAt := now, Metadata := gput ''disabled'' (GBool True) (Metadata a)\<rparr>"

type_synonym auth_table = "(string, Auth option) gomap"

text \<open>A pass over the table that changes the entries a guard selects and collects them.\<close>

fun changePeers :: "(string \<Rightarrow> Auth \<Rightarrow> Auth option) \<Rightarrow> auth_table \<Rightarrow> auth_table \<times> Auth list" where
  "changePeers change [] = ([], [])"
| "changePeers change ((authID, candidate) # rest) =
     (let (rest', peers) = changePeers change rest
      in case (case candidate of None \<Rightarrow> None | Some c \<Rightarrow> change authID c) of
           None \<Rightarrow> ((authID, candidate) # rest', peers)
         | Some c' \<Rightarrow> ((authID, Some c') # rest', c' # peers))"

definition propagateTerminalCredential ::
  "(string \<Rightarrow> string) \<Rightarrow> Auth \<Rightarrow> ResultError option \<Rightarrow> gotime \<Rightarrow> auth_table \<Rightarrow> auth_table \<times> Auth list" where
  "propagateTerminalCredential digest source err now auths =
     (if err = None \<or> codexCanonicalIdentityKey digest source = '''' then (auths, [])
      else changePeers (\<lambda>authID candidate.
             if authID = ID source \<or> \<not> codexSameMemberIdentity digest source candidate then None
             else Some (invalidated err now candidate)) auths)"

definition shouldPropagateCanonicalCooldown :: "ResultError option \<Rightarrow> bool" where
  "shouldPropagateCanonicalCooldown err =
     (if err = None then False
      else if statusCodeFromResult err \<in> {401, 402, 403, 429} then True
      else isInvalidGrantResultError err)"

definition propagateCanonicalCooldown ::
  "(string \<Rightarrow> string) \<Rightarrow> Auth \<Rightarrow> string \<Rightarrow> gotime \<Rightarrow> auth_table \<Rightarrow> auth_table \<times> Auth list" where
  "propagateCanonicalCooldown digest source modelKey0 now auths =
     (let identityKey = codexCanonicalIdentityKey digest source;
          modelKey = canonicalModelKey modelKey0
      in if identityKey = '''' then (auths, [])
         else changePeers (\<lambda>authID candidate.
             if authID = ID source \<or> Disabled candidate \<or> authStatus candidate = StatusDisabled \<or>
                codexCanonicalIdentityKey digest candidate \<noteq> identityKey then None
             else if modelKey \<noteq> ''''
             then (case glookup (ModelStates source) modelKey of
                     Some (Some sourceState) \<Rightarrow>
                       Some ((updateAggregatedAvailability now
                         ((setModelState modelKey sourceState candidate)
                            \<lparr>authStatus := authStatus source, LastError := LastError source,
                             StatusMessage := StatusMessage source\<rparr>))\<lparr>UpdatedAt := now\<rparr>)
                   | _ \<Rightarrow> None)
             else Some (candidate\<lparr>Unavailable := Unavailable source, authStatus := authStatus source,
                    StatusMessage := StatusMessage source, LastError := LastError source,
                    NextRetryAfter := NextRetryAfter source, Quota := Quota source, UpdatedAt := now\<rparr>)) auths)"

section \<open>Marking a result\<close>

record execution_result =
  resAuthID :: string
  resModel :: string
  resSuccess :: bool
  resRetryAfter :: "duration option"
  resError :: "failure option"

text \<open>
  What the function reads of its surroundings: the policies, whether the optional parts are
  there, and the parameters for the JSON reader, the hash and a fresh identifier.
\<close>

record manager_config =
  mcGjson :: gjson_reader
  mcDigest :: "string \<Rightarrow> string"
  mcKeepActive :: bool
  mcTransientSeconds :: int
  mcCoolingDisabled :: "Auth \<Rightarrow> bool"
  mcTrackCooldowns :: bool
  mcAffinityActive :: bool
  mcOverdraftInjected :: bool
  mcStickySession :: string
  mcFresh :: string
  mcStamp :: string

datatype effect =
    RecordTemporaryFailure FailureKind
  | RecordUsageLimitFreeze bool
  | Persist Auth
  | UpsertScheduler Auth
  | InvalidateSessionAffinity string
  | OnAuthUpdated Auth
  | SetModelQuotaExceeded string string
  | ClearModelQuotaExceeded string string
  | SuspendClientModel string string string
  | ResumeClientModel string string
  | PersistCooldownStates
  | QueueLifecycleRecovery string
  | OverdraftBusinessSuccess
  | OverdraftBusinessQuotaFailure
  | HandleCodexQuotaResult
  | OnResult
  | PublishErrorEvent "Auth option"
  | RefreshTailBurstCandidates

record mark_flags =
  resumeModel :: bool
  suspendModel :: "string option"
  setQuota :: bool
  skipPersist :: bool

abbreviation noFlags :: mark_flags where
  "noFlags \<equiv> \<lparr>resumeModel = False, suspendModel = None, setQuota = False, skipPersist = False\<rparr>"

text \<open>The change of the credential itself. \<open>modelKey\<close> is the canonical key of the result's model.\<close>

definition markCredential ::
  "manager_config \<Rightarrow> execution_result \<Rightarrow> string \<Rightarrow> gotime \<Rightarrow> Auth \<Rightarrow> limits_env \<Rightarrow> (Auth \<times> limits_env) \<times> mark_flags" where
  "markCredential mc res modelKey now a env =
     (let err = result_error (resError res);
          keep = keepsTransientAccountActive (mcGjson mc) (mcKeepActive mc) (resError res);
          fl = noFlags\<lparr>skipPersist := \<not> resSuccess res \<and> keep\<rparr>
      in if \<not> resSuccess res \<and> isTerminalCredentialResultError err then ((invalidated err now a, env), fl)
         else if resSuccess res
         then (let a = a\<lparr>successCount := wrap64 (successCount a + 1)\<rparr>;
                   env = env(ID a := observeUpstreamRateLimitSuccess now (env (ID a)))
               in if modelKey = '''' then ((clearAuthStateOnSuccess now a, env), fl)
                  else let ((key, st), a) = ensureModelState a modelKey;
                           a = updateAggregatedAvailability now (setModelState key (resetModelState now st) a);
                           a = (if hasModelError a now then a
                                else a\<lparr>LastError := None, StatusMessage := '''', authStatus := StatusActive\<rparr>)
                       in ((a\<lparr>UpdatedAt := now\<rparr>, env), fl\<lparr>resumeModel := True\<rparr>))
         else let a = a\<lparr>failedCount := wrap64 (failedCount a + 1)\<rparr>
              in if modelKey \<noteq> ''''
                 then (if managerSkipsCooldown (mcGjson mc) (mcKeepActive mc) (resError res) then ((a, env), fl)
                       else let (a, suspend, quota) = applyModelFailure (mcTransientSeconds mc) err
                                  (resRetryAfter res) now (mcCoolingDisabled mc a) modelKey a
                            in ((a, env), fl\<lparr>suspendModel := suspend, setQuota := quota\<rparr>))
                 else ((applyAuthFailureStateWithTransientPolicy (mcGjson mc) (mcTransientSeconds mc) (resError res)
                          (resRetryAfter res) now (mcCoolingDisabled mc a) keep a, env),
                       fl\<lparr>skipPersist := skipPersist fl \<or> keep\<rparr>))"

text \<open>The request-time freezes that follow, and whether a recovery from a rate limit is due.\<close>

definition markLimits ::
  "manager_config \<Rightarrow> execution_result \<Rightarrow> gotime \<Rightarrow> Auth \<Rightarrow> limits_env \<Rightarrow> bool \<times> limits_env" where
  "markLimits mc res now a env =
     (let err = result_error (resError res);
          recovery = shouldQueueRateLimitRecovery a (resSuccess res) err;
          env = (if recovery then env(ID a := snd (freezeUpstreamRateLimit now (resRetryAfter res) (env (ID a))))
                 else env);
          env = (if keepsTransientAccountActive (mcGjson mc) (mcKeepActive mc) (resError res) then env
                 else env(ID a := maybeFreezeRuntimeResult a (resSuccess res) err now (mcStickySession mc) (env (ID a))))
      in (recovery, env))"

text \<open>The peers of a queued recovery wait for it, each read again from the table.\<close>

fun coordinatePeers ::
  "string \<Rightarrow> gotime \<Rightarrow> duration option \<Rightarrow> Auth list \<Rightarrow> auth_table \<Rightarrow> limits_env \<Rightarrow>
     (Auth list \<times> auth_table) \<times> limits_env" where
  "coordinatePeers modelKey now retryAfter [] auths env = (([], auths), env)"
| "coordinatePeers modelKey now retryAfter (peer # peers) auths env =
     (case glookup auths (ID peer) of
        Some (Some live) \<Rightarrow>
          let (live, env) = coordinateRateLimitPeer modelKey now retryAfter live env;
              ((rest, auths), env) = coordinatePeers modelKey now retryAfter peers
                                       (gput (ID peer) (Some live) auths) env
          in ((live # rest, auths), env)
      | _ \<Rightarrow> coordinatePeers modelKey now retryAfter peers auths env)"

text \<open>What the locked part leaves for the calls after it.\<close>

record mark_outcome =
  moSnapshot :: "Auth option"
  moFlags :: mark_flags
  moTerminalPeers :: "Auth list"
  moCooldownPeers :: "Auth list"
  moRecovery :: "string list"
  moCooldownsChanged :: bool
  moEffects :: "effect list"

definition emptyOutcome :: mark_outcome where
  "emptyOutcome = \<lparr>moSnapshot = None, moFlags = noFlags, moTerminalPeers = [], moCooldownPeers = [],
     moRecovery = [], moCooldownsChanged = False, moEffects = []\<rparr>"

definition markLocked ::
  "manager_config \<Rightarrow> execution_result \<Rightarrow> string \<Rightarrow> gotime \<Rightarrow> auth_table \<Rightarrow> limits_env \<Rightarrow>
     (auth_table \<times> limits_env) \<times> mark_outcome" where
  "markLocked mc res modelKey now auths env =
     (case glookup auths (resAuthID res) of
        Some (Some a0) \<Rightarrow>
          let err = result_error (resError res);
              key = resAuthID res;
              metric = (if \<not> resSuccess res \<and> isTemporaryFailureResult (mcGjson mc) (resError res)
                        then [RecordTemporaryFailure (temporaryFailureKind (mcGjson mc) (resError res))] else []);
              freeze = mcAffinityActive mc \<and> cacheAffinityUsageLimitResult err;
              (extended, env) = (if freeze
                then (let (x, st) = freezeUsageLimit now (resRetryAfter res) (env (ID a0)) in (x, env(ID a0 := st)))
                else (False, env));
              before = cooldownStateRecordsForAuth (mcCoolingDisabled mc) (Some a0) now;
              terminal = \<not> resSuccess res \<and> isTerminalCredentialResultError err;
              ((a, env), fl) = markCredential mc res modelKey now (recordRecentRequest now (resSuccess res) a0) env;
              (recovery, env) = markLimits mc res now a env;
              auths = gput key (Some a) auths;
              (auths, terminalPeers) =
                (if terminal then propagateTerminalCredential (mcDigest mc) a err now auths else (auths, []));
              (auths, cooldownPeers) =
                (if \<not> terminal \<and> \<not> resSuccess res \<and> shouldPropagateCanonicalCooldown err
                 then propagateCanonicalCooldown (mcDigest mc) a modelKey now auths else (auths, []));
              (generation, a) = (if recovery then markRateLimitRecoveryQueued (mcFresh mc) (mcStamp mc) now a
                                 else (None, a));
              auths = gput key (Some a) auths;
              ((cooldownPeers, auths), env) =
                (if recovery then coordinatePeers modelKey now (resRetryAfter res) cooldownPeers auths env
                 else ((cooldownPeers, auths), env));
              after = cooldownStateRecordsForAuth (mcCoolingDisabled mc) (Some a) now
          in ((auths, env),
              \<lparr>moSnapshot = Some a, moFlags = fl, moTerminalPeers = terminalPeers, moCooldownPeers = cooldownPeers,
               moRecovery = (case generation of None \<Rightarrow> [] | Some _ \<Rightarrow> [ID a]),
               moCooldownsChanged = mcTrackCooldowns mc \<and>
                 (\<not> cooldownStateRecordsEqual before after \<or> cooldownPeers \<noteq> []),
               moEffects = metric @ (if freeze then [RecordUsageLimitFreeze extended] else []) @
                 (if skipPersist fl then [] else [Persist a])\<rparr>)
      | _ \<Rightarrow> ((auths, env), emptyOutcome))"

text \<open>The calls after the lock, in order.\<close>

definition markEffects :: "manager_config \<Rightarrow> execution_result \<Rightarrow> string \<Rightarrow> mark_outcome \<Rightarrow> effect list" where
  "markEffects mc res modelKey mo =
     (let fl = moFlags mo; err = result_error (resError res);
          peer = (\<lambda>p. [UpsertScheduler p, Persist p, InvalidateSessionAffinity (ID p), OnAuthUpdated p]);
          registry = (\<lambda>i. (if setQuota fl then [SetModelQuotaExceeded i modelKey] else []) @
                          (case suspendModel fl of Some reason \<Rightarrow> [SuspendClientModel i modelKey reason] | None \<Rightarrow> []))
      in moEffects mo @
         (case moSnapshot mo of
            None \<Rightarrow> []
          | Some a \<Rightarrow> [UpsertScheduler a] @
                      (if isTerminalCredentialResultError err then [InvalidateSessionAffinity (ID a)] else [])) @
         concat (map peer (moTerminalPeers mo)) @
         concat (map (\<lambda>p. peer p @ (if modelKey \<noteq> '''' then registry (ID p) else [])) (moCooldownPeers mo)) @
         (if moSnapshot mo \<noteq> None \<and> moCooldownsChanged mo then [PersistCooldownStates] else []) @
         (if resumeModel fl \<and> modelKey \<noteq> '''' then [ClearModelQuotaExceeded (resAuthID res) modelKey] else []) @
         (if setQuota fl \<and> modelKey \<noteq> '''' then [SetModelQuotaExceeded (resAuthID res) modelKey] else []) @
         (if resumeModel fl then [ResumeClientModel (resAuthID res) modelKey]
          else case suspendModel fl of
                 Some reason \<Rightarrow> [SuspendClientModel (resAuthID res) modelKey reason] | None \<Rightarrow> []) @
         concat (map (\<lambda>i. [InvalidateSessionAffinity i, QueueLifecycleRecovery i]) (moRecovery mo)) @
         (if mcOverdraftInjected mc
          then [if resSuccess res then OverdraftBusinessSuccess else OverdraftBusinessQuotaFailure]
          else [HandleCodexQuotaResult]) @
         [OnResult, PublishErrorEvent (moSnapshot mo)])"

definition MarkResult ::
  "manager_config \<Rightarrow> execution_result \<Rightarrow> gotime \<Rightarrow> auth_table \<Rightarrow> limits_env \<Rightarrow>
     (auth_table \<times> limits_env) \<times> effect list" where
  "MarkResult mc res now auths env =
     (if resAuthID res = '''' then ((auths, env), [])
      else let modelKey = canonicalModelKey (resModel res);
               (state, mo) = markLocked mc res modelKey now auths env
           in (state, markEffects mc res modelKey mo))"

end
