(* ===== verification/CooldownProps.thy ===== *)
theory CooldownProps
  imports Results
begin

text \<open>
  Facts about failures and cooldowns: the aggregated availability is a function of the set of model
  states, the backoff ladder stays within its bounds, a failure of one model blocks that model
  until its deadline and no other, a success makes it available again, and the bookkeeping
  invariants of the states survive every result.
\<close>

section \<open>Aggregated availability as a function of the states\<close>

definition blocked_state :: "gotime \<Rightarrow> ModelState \<Rightarrow> bool" where
  "blocked_state now st \<longleftrightarrow> msStatus st = StatusDisabled \<or> (msUnavailable st \<and> msNextRetryAfter st > now)"

definition settled :: "gotime \<Rightarrow> ModelState \<Rightarrow> ModelState" where
  "settled now st =
     (if msStatus st \<noteq> StatusDisabled \<and> msUnavailable st \<and> msNextRetryAfter st \<noteq> zeroTime \<and> \<not> msNextRetryAfter st > now
      then st\<lparr>msUnavailable := False, msNextRetryAfter := zeroTime\<rparr> else st)"

definition retries :: "gotime \<Rightarrow> ModelState set \<Rightarrow> gotime set" where
  "retries now S = {msNextRetryAfter st | st. st \<in> S \<and> msStatus st \<noteq> StatusDisabled \<and> blocked_state now st}"

definition recoveries :: "ModelState set \<Rightarrow> gotime set" where
  "recoveries S = {NextRecoverAt (msQuota st) | st. st \<in> S \<and> Exceeded (msQuota st) \<and> NextRecoverAt (msQuota st) \<noteq> zeroTime}"

definition levels :: "ModelState set \<Rightarrow> int set" where
  "levels S = {BackoffLevel (msQuota st) | st. st \<in> S \<and> Exceeded (msQuota st)}"

definition aggregate_of :: "gotime \<Rightarrow> ModelState set \<Rightarrow> aggregate" where
  "aggregate_of now S =
     \<lparr>allUnavailable = (\<forall>st \<in> S. blocked_state now st), earliestRetry = earliest_of (retries now S),
      quotaExceeded = (\<exists>st \<in> S. Exceeded (msQuota st)), quotaRecover = earliest_of (recoveries S),
      maxBackoffLevel = linorder_class.Max (insert 0 (levels S)), hasState = (S \<noteq> {})\<rparr>"

lemma retries_insert:
  "retries now (insert st S) =
     (if msStatus st \<noteq> StatusDisabled \<and> blocked_state now st then insert (msNextRetryAfter st) (retries now S)
      else retries now S)"
  by (auto simp: retries_def)

lemma recoveries_insert:
  "recoveries (insert st S) =
     (if Exceeded (msQuota st) \<and> NextRecoverAt (msQuota st) \<noteq> zeroTime
      then insert (NextRecoverAt (msQuota st)) (recoveries S) else recoveries S)"
  by (auto simp: recoveries_def)

lemma levels_insert:
  "levels (insert st S) = (if Exceeded (msQuota st) then insert (BackoffLevel (msQuota st)) (levels S) else levels S)"
  by (auto simp: levels_def)

lemma aggregate_sets_finite:
  assumes "finite S"
  shows "finite (retries now S)" "finite (recoveries S)" "finite (levels S)"
proof -
  show "finite (retries now S)" by (rule finite_subset [OF _ finite_imageI [OF assms, of msNextRetryAfter]]) (auto simp: retries_def)
  show "finite (recoveries S)"
    by (rule finite_subset [OF _ finite_imageI [OF assms, of "\<lambda>st. NextRecoverAt (msQuota st)"]]) (auto simp: recoveries_def)
  show "finite (levels S)"
    by (rule finite_subset [OF _ finite_imageI [OF assms, of "\<lambda>st. BackoffLevel (msQuota st)"]]) (auto simp: levels_def)
qed

lemma max_insert_level:
  assumes "finite L"
  shows "linorder_class.Max (insert 0 (insert l L)) =
    (if l > linorder_class.Max (insert 0 L) then l else linorder_class.Max (insert (0 :: int) L))"
proof -
  have "linorder_class.Max (insert l (insert 0 L)) = max l (linorder_class.Max (insert 0 L))"
    by (rule linorder_class.Max_insert) (use assms in auto)
  then show ?thesis by (metis insert_commute max_def not_le)
qed

lemma aggregateStep_of:
  assumes "finite S" "0 \<le> now"
  shows "aggregateStep now st (aggregate_of now S) = (settled now st, aggregate_of now (insert st S))"
proof -
  note fin = aggregate_sets_finite [OF assms(1)]
  have z: "zeroTime \<notin> retries now S" "zeroTime \<notin> recoveries S"
    using assms(2) by (auto simp: retries_def recoveries_def blocked_state_def)
  note er = earliest_insert [OF fin(1) z(1)] and eq = earliest_insert [OF fin(2) z(2)]
  have quota: "earliest_of (recoveries (insert st S)) =
      (if \<not> Exceeded (msQuota st) then earliest_of (recoveries S)
       else if earliest_of (recoveries S) = zeroTime \<or>
           (NextRecoverAt (msQuota st) \<noteq> zeroTime \<and> NextRecoverAt (msQuota st) < earliest_of (recoveries S))
       then NextRecoverAt (msQuota st) else earliest_of (recoveries S))"
    using eq [of "NextRecoverAt (msQuota st)"] by (auto simp: recoveries_insert)
  have retry: "earliest_of (retries now (insert st S)) =
      (if msStatus st \<noteq> StatusDisabled \<and> blocked_state now st \<and>
          (earliest_of (retries now S) = zeroTime \<or> msNextRetryAfter st < earliest_of (retries now S))
       then msNextRetryAfter st else earliest_of (retries now S))"
    using er [of "msNextRetryAfter st"] assms(2) by (auto simp: retries_insert blocked_state_def)
  have level: "linorder_class.Max (insert 0 (levels (insert st S))) =
      (if Exceeded (msQuota st) \<and> BackoffLevel (msQuota st) > linorder_class.Max (insert 0 (levels S))
       then BackoffLevel (msQuota st) else linorder_class.Max (insert 0 (levels S)))"
    using max_insert_level [OF fin(3), of "BackoffLevel (msQuota st)"] by (auto simp: levels_insert)
  show ?thesis
    using assms(2)
    by (auto simp: aggregateStep_def aggregate_of_def settled_def Let_def quota retry level blocked_state_def
        simp del: earliest_of_def)
qed

definition state_set :: "model_states \<Rightarrow> ModelState set" where
  "state_set states = {st. Some st \<in> snd ` set states}"

lemma state_set_simps [simp]:
  "state_set [] = {}" "state_set ((k, None) # states) = state_set states"
  "state_set ((k, Some st) # states) = insert st (state_set states)"
  by (auto simp: state_set_def)

lemma state_set_finite: "finite (state_set states)"
proof -
  have "Some ` state_set states \<subseteq> snd ` set states" by (auto simp: state_set_def)
  then have "finite (Some ` state_set states)" by (rule finite_subset) simp
  then show ?thesis by (simp add: finite_image_iff)
qed

abbreviation settle_all :: "gotime \<Rightarrow> model_states \<Rightarrow> model_states" where
  "settle_all now \<equiv> map (\<lambda>(k, s). (k, map_option (settled now) s))"

lemma aggregateLoop_of:
  assumes "0 \<le> now" "finite S"
  shows "aggregateLoop now states (aggregate_of now S) =
    (settle_all now states, aggregate_of now (S \<union> state_set states))"
  using assms(2)
proof (induction states arbitrary: S)
  case (Cons ks states)
  obtain k s where ks: "ks = (k, s)" by fastforce
  show ?case
  proof (cases s)
    case None
    then show ?thesis using Cons by (simp add: ks)
  next
    case (Some st)
    then show ?thesis using Cons.IH [of "insert st S"] Cons.prems aggregateStep_of [OF Cons.prems assms(1), of st]
      by (simp add: ks)
  qed
qed simp

lemma emptyAggregate_of: "emptyAggregate = aggregate_of now {}"
  by (simp add: emptyAggregate_def aggregate_of_def retries_def recoveries_def levels_def earliest_of_def)

lemma settle_none: "state_set states = {} \<Longrightarrow> settle_all now states = states"
proof (induction states)
  case (Cons ks states)
  then show ?case by (cases ks; cases "snd ks") auto
qed simp

lemma aggregate_spec:
  assumes "0 \<le> now"
  shows "updateAggregatedAvailability now a =
    (if state_set (ModelStates a) = {} then clearAggregatedAvailability a
     else let S = state_set (ModelStates a); free = (\<exists>st \<in> S. \<not> blocked_state now st) in
       a\<lparr>ModelStates := settle_all now (ModelStates a), Unavailable := \<not> free,
         NextRetryAfter := (if free then zeroTime else earliest_of (retries now S)),
         Quota := (if \<exists>st \<in> S. Exceeded (msQuota st)
                   then \<lparr>Exceeded = True, quotaReason = ''quota'', NextRecoverAt = earliest_of (recoveries S),
                         BackoffLevel = linorder_class.Max (insert 0 (levels S))\<rparr>
                   else zeroQuota)\<rparr>)"
proof (cases "state_set (ModelStates a) = {}")
  case True
  then have "settle_all now (ModelStates a) = ModelStates a" by (rule settle_none)
  then show ?thesis
    using True aggregateLoop_of [OF assms finite.emptyI, of "ModelStates a"]
    by (simp add: updateAggregatedAvailability_def emptyAggregate_of [of now] aggregate_of_def)
next
  case False
  then have "ModelStates a \<noteq> []" by auto
  then show ?thesis
    using False aggregateLoop_of [OF assms finite.emptyI, of "ModelStates a"]
    by (auto simp: updateAggregatedAvailability_def emptyAggregate_of [of now] aggregate_of_def Let_def)
qed

section \<open>The backoff ladder\<close>

lemma nextQuotaCooldown_value:
  assumes "0 \<le> l" "l \<le> 33"
  shows "nextQuotaCooldown l False =
    (if 2 ^ nat l * second < quotaBackoffMax then (2 ^ nat l * second, l + 1) else (quotaBackoffMax, l))"
proof -
  define p where "p = (2 :: int) ^ nat l"
  have "p \<le> 2 ^ 33" unfolding p_def using assms by (intro power_increasing) simp_all
  moreover have p1: "1 \<le> p" by (simp add: p_def)
  ultimately have "wrap64 p = p" "wrap64 (p * second) = p * second" by (simp_all add: in_int64_def)
  moreover have "wrap64 (l + 1) = l + 1" using assms by (simp add: in_int64_def)
  ultimately show ?thesis using p1 assms(1)
    by (simp add: nextQuotaCooldown_def dur_mul_def Let_def mult.commute [of second] p_def [symmetric])
qed

lemma nextQuotaCooldown_range:
  "nextQuotaCooldown l False = (d, l') \<Longrightarrow> quotaBackoffBase \<le> d \<and> d \<le> quotaBackoffMax"
  by (auto simp: nextQuotaCooldown_def Let_def split: if_splits)

lemma nextQuotaCooldown_level:
  assumes "0 \<le> l" "l \<le> 11"
  shows "0 \<le> snd (nextQuotaCooldown l False) \<and> snd (nextQuotaCooldown l False) \<le> 11"
proof (cases "l = 11")
  case False
  then show ?thesis using assms nextQuotaCooldown_value [of l] by simp
qed (use nextQuotaCooldown_value [of 11] in simp)

text \<open>
  The quota backoff. A quota failure within the window of an earlier one changes neither the
  deadline nor the level. Outside a window, with a level that backoff itself produces, the
  credential rests for one second doubled per level, at most half an hour, and the level
  goes up by one until the half hour is reached; whatever the level read from a stored state,
  even one whose shift overflows, the rest is between a second and half an hour.
\<close>

theorem quota_backoff:
  assumes "0 \<le> BackoffLevel q" "BackoffLevel q \<le> 11" "0 < now"
  shows "quotaCooldownAfterFailure q now =
    (if NextRecoverAt q > now then (NextRecoverAt q, BackoffLevel q)
     else (now + min (2 ^ nat (BackoffLevel q) * second) quotaBackoffMax,
           if BackoffLevel q < 11 then BackoffLevel q + 1 else 11)) \<and>
    (\<forall>l. quotaBackoffBase \<le> fst (nextQuotaCooldown l False) \<and> fst (nextQuotaCooldown l False) \<le> quotaBackoffMax)"
proof
  have "quotaBackoffMax \<le> 2 ^ nat (BackoffLevel q) * second" if "BackoffLevel q = 11" using that by simp
  moreover have "2 ^ nat (BackoffLevel q) * second < quotaBackoffMax" if "BackoffLevel q < 11"
  proof -
    have "(2 :: int) ^ nat (BackoffLevel q) \<le> 2 ^ 10" using that assms by (intro power_increasing) simp_all
    then show ?thesis by simp
  qed
  ultimately show "quotaCooldownAfterFailure q now =
    (if NextRecoverAt q > now then (NextRecoverAt q, BackoffLevel q)
     else (now + min (2 ^ nat (BackoffLevel q) * second) quotaBackoffMax,
           if BackoffLevel q < 11 then BackoffLevel q + 1 else 11))"
    using assms nextQuotaCooldown_value [of "BackoffLevel q"]
    by (cases "BackoffLevel q = 11") (simp_all add: quotaCooldownAfterFailure_def min_def)
  show "\<forall>l. quotaBackoffBase \<le> fst (nextQuotaCooldown l False) \<and> fst (nextQuotaCooldown l False) \<le> quotaBackoffMax"
    using nextQuotaCooldown_range by (metis prod.collapse)
qed

lemma quota_backoff_witness:
  "quotaCooldownAfterFailure (zeroQuota\<lparr>BackoffLevel := 4\<rparr>) 7 = (7 + 16 * second, 5) \<and>
   fst (nextQuotaCooldown 63 False) = quotaBackoffBase"
  using quota_backoff [of "zeroQuota\<lparr>BackoffLevel := 4\<rparr>" 7] by (simp add: nextQuotaCooldown_def dur_mul_def wrap64_def Let_def)

section \<open>The states of a credential\<close>

text \<open>
  A model key is plain when it is its own canonical key. The quota part of a state is consistent
  when it is exceeded exactly as long as it names a recovery time; its level is one the
  ladder reaches.
\<close>

definition plain_key :: "string \<Rightarrow> bool" where
  "plain_key k \<longleftrightarrow> k \<noteq> '''' \<and> canonicalModelKey k = k"

definition state_ok :: "ModelState \<Rightarrow> bool" where
  "state_ok st \<longleftrightarrow> (Exceeded (msQuota st) \<longleftrightarrow> NextRecoverAt (msQuota st) \<noteq> zeroTime) \<and>
     0 \<le> BackoffLevel (msQuota st) \<and> BackoffLevel (msQuota st) \<le> 11 \<and> 0 \<le> NextRecoverAt (msQuota st)"

definition states_ok :: "model_states \<Rightarrow> bool" where
  "states_ok states \<longleftrightarrow> gomap_ok states \<and> (\<forall>k \<in> fst ` set states. plain_key k) \<and> (\<forall>st \<in> state_set states. state_ok st)"

lemma normalizeLoop_plain:
  assumes "gomap_ok (acc @ states)" "\<forall>k \<in> fst ` set states. plain_key k"
  shows "normalizeLoop states acc b = (acc @ states, b)"
  using assms
proof (induction states arbitrary: acc)
  case (Cons ks states)
  obtain k s where ks: "ks = (k, s)" by fastforce
  have k: "plain_key k" and new: "k \<notin> fst ` set acc" using Cons.prems by (auto simp: ks gomap_ok_def)
  then have "map_of acc k = None" by (simp add: map_of_eq_None_iff)
  moreover have "AList.update k s acc = acc @ [(k, s)]" using new by (induction acc) auto
  ultimately show ?case using Cons.IH [of "acc @ [(k, s)]"] Cons.prems k by (simp add: ks plain_key_def Let_def)
qed simp

lemma normalize_plain: "states_ok states \<Longrightarrow> normalizeModelStates states = states"
  using normalizeLoop_plain [of "[]" states False] by (simp add: normalizeModelStates_def states_ok_def)

section \<open>Availability of a model\<close>

definition model_block :: "ModelState \<Rightarrow> gotime \<Rightarrow> bool \<times> blockReason \<times> gotime" where
  "model_block st t =
     (if msStatus st = StatusDisabled then (True, blockReasonDisabled, zeroTime)
      else availabilityBlock (msUnavailable st) (Exceeded (msQuota st)) (msNextRetryAfter st) (NextRecoverAt (msQuota st)) t)"

abbreviation open_model :: "bool \<times> blockReason \<times> gotime" where
  "open_model \<equiv> (False, blockReasonNone, zeroTime)"

lemma modelStatesBlock_other:
  "\<forall>k \<in> fst ` set states. canonicalModelKey k \<noteq> key \<Longrightarrow>
   modelStatesBlock key t states matched b r n = (if matched then (b, r, n) else open_model)"
proof (induction states)
  case (Cons ks states)
  then show ?case by (cases ks) (auto split: option.splits)
qed simp

lemma availabilityBlock_shape:
  "availabilityBlock u e n q t = (b, r, x) \<Longrightarrow> \<not> b \<Longrightarrow> r = blockReasonNone \<and> x = zeroTime"
  by (auto simp: availabilityBlock_def Let_def split: if_splits)

lemma modelStatesBlock_plain:
  assumes "gomap_ok states" "\<forall>k \<in> fst ` set states. plain_key k"
  shows "modelStatesBlock key t states False False blockReasonNone zeroTime =
    (case glookup states key of Some (Some st) \<Rightarrow> model_block st t | _ \<Rightarrow> open_model)"
  using assms
proof (induction states)
  case (Cons ks states)
  obtain k s where ks: "ks = (k, s)" by fastforce
  have k: "canonicalModelKey k = k" and ok: "gomap_ok states" "\<forall>k \<in> fst ` set states. plain_key k" and new: "k \<notin> fst ` set states"
    using Cons.prems by (auto simp: ks gomap_ok_def plain_key_def)
  show ?case
  proof (cases "k = key \<and> s \<noteq> None")
    case True
    then obtain st where s: "s = Some st" by blast
    obtain b r x where blk: "availabilityBlock (msUnavailable st) (Exceeded (msQuota st)) (msNextRetryAfter st)
        (NextRecoverAt (msQuota st)) t = (b, r, x)" by (metis prod.collapse)
    have rest: "\<forall>k' \<in> fst ` set states. canonicalModelKey k' \<noteq> key"
      using ok(2) new True by (auto simp: plain_key_def)
    note others = modelStatesBlock_other [OF rest]
    show ?thesis using True k s availabilityBlock_shape [OF blk] others
      by (auto simp: ks blk model_block_def)
  next
    case False
    then show ?thesis
    proof (cases s)
      case None
      have "glookup states key = None" if "k = key" using new that by (simp add: map_of_eq_None_iff)
      then show ?thesis using Cons.IH [OF ok] None by (auto simp: ks)
    next
      case (Some st)
      then have "k \<noteq> key" using False by simp
      then show ?thesis using Cons.IH [OF ok] Some k by (simp add: ks)
    qed
  qed
qed simp

lemma model_availability:
  assumes "states_ok (ModelStates a)" "ModelStates a \<noteq> []" "model \<noteq> ''''"
  shows "authModelAvailabilityBlock (Some a) model t =
    (case glookup (ModelStates a) (canonicalModelKey model) of Some (Some st) \<Rightarrow> model_block st t | _ \<Rightarrow> open_model)"
  using assms modelStatesBlock_plain [of "ModelStates a"]
  by (simp add: authModelAvailabilityBlock_def states_ok_def)

lemma model_block_settled:
  assumes "state_ok st" "now \<le> t" "0 \<le> now"
  shows "model_block (settled now st) t = model_block st t"
  using assms
  by (auto simp: model_block_def settled_def state_ok_def availabilityBlock_def Let_def)

lemma state_ok_settled: "state_ok st \<Longrightarrow> state_ok (settled now st)"
  by (auto simp: settled_def state_ok_def)

lemma lookup_settle: "glookup (settle_all now states) k = map_option (map_option (settled now)) (glookup states k)"
  by (induction states) auto

lemma state_set_mem: "st \<in> state_set states \<longleftrightarrow> (\<exists>k. (k, Some st) \<in> set states)"
  by (force simp: state_set_def)

lemma state_set_settle: "state_set (settle_all now states) = settled now ` state_set states"
proof (induction states)
  case (Cons ks states)
  then show ?case by (cases ks; cases "snd ks") auto
qed simp

lemma states_ok_settle: "states_ok states \<Longrightarrow> states_ok (settle_all now states)"
proof -
  assume ok: "states_ok states"
  have keys: "map fst (settle_all now states) = map fst states" by (induction states) auto
  have states: "\<forall>st \<in> state_set (settle_all now states). state_ok st"
  proof
    fix st assume "st \<in> state_set (settle_all now states)"
    then obtain st0 where "st0 \<in> state_set states" "st = settled now st0" unfolding state_set_settle by blast
    then show "state_ok st" using ok state_ok_settled by (auto simp: states_ok_def)
  qed
  show ?thesis using ok states unfolding states_ok_def gomap_ok_def set_map [symmetric] keys by blast
qed

lemma state_set_lookup: "gomap_ok states \<Longrightarrow> st \<in> state_set states \<longleftrightarrow> (\<exists>k. glookup states k = Some (Some st))"
  by (simp add: state_set_mem gomap_mem)

lemma states_ok_put:
  assumes "states_ok states" "plain_key k" "state_ok st"
  shows "states_ok (gput k (Some st) states)"
proof -
  have "gomap_ok (gput k (Some st) states)" using assms by (simp add: states_ok_def)
  moreover have "\<forall>k' \<in> fst ` set (gput k (Some st) states). plain_key k'"
    using assms by (auto simp: states_ok_def dom_update)
  moreover have "state_ok st'" if "st' \<in> state_set (gput k (Some st) states)" for st'
    using that assms state_set_lookup [OF \<open>gomap_ok (gput k (Some st) states)\<close>] state_set_lookup [of states]
    by (auto simp: states_ok_def glookup_put split: if_splits)
  ultimately show ?thesis by (simp add: states_ok_def)
qed

section \<open>What a result does to the model states\<close>

text \<open>The states after a change of one model: the new state there, the others settled.\<close>

lemma ensureModelState_plain:
  assumes "states_ok (ModelStates a)" "plain_key key"
  shows "\<exists>st. ensureModelState a key = ((key, st), a\<lparr>ModelStates :=
      (case glookup (ModelStates a) key of Some (Some _) \<Rightarrow> ModelStates a | _ \<Rightarrow> gput key (Some activeState) (ModelStates a))\<rparr>) \<and>
    st = (case glookup (ModelStates a) key of Some (Some st) \<Rightarrow> st | _ \<Rightarrow> activeState) \<and> state_ok st"
proof -
  have "state_ok activeState" by (simp add: state_ok_def activeState_def)
  moreover have "state_ok st" if "glookup (ModelStates a) key = Some (Some st)" for st
    using assms(1) that state_set_lookup [of "ModelStates a" st] by (auto simp: states_ok_def)
  ultimately show ?thesis using assms(2) normalize_plain [OF assms(1)]
    by (auto simp: ensureModelState_def plain_key_def Let_def split: option.splits)
qed

abbreviation old_state :: "Auth \<Rightarrow> string \<Rightarrow> ModelState" where
  "old_state a key \<equiv> (case glookup (ModelStates a) key of Some (Some st) \<Rightarrow> st | _ \<Rightarrow> activeState)"

lemma put_ensured:
  "glookup (gput key (Some st) (case glookup states key of Some (Some _) \<Rightarrow> states | _ \<Rightarrow> gput key (Some st') states)) =
   (glookup states)(key := Some (Some st))"
  by (auto simp: glookup_put fun_eq_iff split: option.splits)

lemma update_states:
  assumes "0 \<le> now" "state_set (ModelStates a) \<noteq> {}"
  shows "ModelStates (updateAggregatedAvailability now a) = settle_all now (ModelStates a)"
  using assms by (simp add: aggregate_spec Let_def)

lemma update_frame [simp]:
  assumes "0 \<le> now"
  shows "ID (updateAggregatedAvailability now a) = ID a" "Disabled (updateAggregatedAvailability now a) = Disabled a"
    "authStatus (updateAggregatedAvailability now a) = authStatus a" "Metadata (updateAggregatedAvailability now a) = Metadata a"
    "Attributes (updateAggregatedAvailability now a) = Attributes a" "Provider (updateAggregatedAvailability now a) = Provider a"
  using assms by (auto simp: aggregate_spec clearAggregatedAvailability_def Let_def)

text \<open>\<open>changed a a' key st now\<close>: the model states of \<open>a'\<close> are those of \<open>a\<close> with one new state.\<close>

definition changed :: "Auth \<Rightarrow> Auth \<Rightarrow> string \<Rightarrow> ModelState \<Rightarrow> gotime \<Rightarrow> bool" where
  "changed a a' key st now \<longleftrightarrow> states_ok (ModelStates a') \<and> ModelStates a' \<noteq> [] \<and>
     glookup (ModelStates a') = map_option (map_option (settled now)) \<circ> (glookup (ModelStates a))(key := Some (Some st))"

lemma changed_put:
  assumes "states_ok (ModelStates a)" "plain_key key" "state_ok st" "0 \<le> now"
    and "ensureModelState a key = ((key', st0), a1)"
    and "ModelStates a2 = ModelStates (setModelState key' st a1)"
  shows "changed a (updateAggregatedAvailability now a2) key st now"
proof -
  have a1: "key' = key" "ModelStates a1 = (case glookup (ModelStates a) key of Some (Some _) \<Rightarrow> ModelStates a
      | _ \<Rightarrow> gput key (Some activeState) (ModelStates a))"
    using ensureModelState_plain [OF assms(1,2)] assms(5) by auto
  have "state_ok activeState" by (simp add: state_ok_def activeState_def)
  then have "states_ok (ModelStates a1)"
    using a1(2) assms(1,2) by (auto simp: states_ok_put split: option.splits)
  then have ok: "states_ok (gput key (Some st) (ModelStates a1))" using assms(2,3) by (rule states_ok_put)
  have ms: "ModelStates a2 = gput key (Some st) (ModelStates a1)" using assms(6) by (simp add: setModelState_def a1(1))
  have lookup: "glookup (ModelStates a2) = (glookup (ModelStates a))(key := Some (Some st))"
    unfolding ms a1(2) by (rule put_ensured)
  then have "st \<in> state_set (ModelStates a2)" using ok ms state_set_lookup [of "ModelStates a2" st]
    by (auto simp: states_ok_def)
  then have "state_set (ModelStates a2) \<noteq> {}" "ModelStates a2 \<noteq> []" by auto
  with update_states [OF assms(4) this(1)] show ?thesis
    using states_ok_settle [OF ok] lookup by (auto simp: changed_def ms fun_eq_iff lookup_settle)
qed

lemma changed_availability:
  assumes "changed a a' key st now" "plain_key key" "state_ok st" "0 \<le> now" "now \<le> t" "model \<noteq> ''''"
  shows "authModelAvailabilityBlock (Some a') model t =
    (if canonicalModelKey model = key then model_block st t
     else case glookup (ModelStates a) (canonicalModelKey model) of
            Some (Some st') \<Rightarrow> model_block (settled now st') t | _ \<Rightarrow> open_model)"
  using assms model_block_settled [OF assms(3,5,4)]
  by (auto simp: model_availability changed_def split: option.splits)

lemma changed_isolated:
  assumes "changed a a' key st now" "states_ok (ModelStates a)" "ModelStates a \<noteq> []" "plain_key key" "state_ok st"
    and "0 \<le> now" "now \<le> t" "model \<noteq> ''''" "canonicalModelKey model \<noteq> key"
  shows "authModelAvailabilityBlock (Some a') model t = authModelAvailabilityBlock (Some a) model t"
proof -
  have "state_ok st'" if "glookup (ModelStates a) (canonicalModelKey model) = Some (Some st')" for st'
    using assms(2) that state_set_lookup [of "ModelStates a" st'] by (auto simp: states_ok_def)
  then show ?thesis
    using changed_availability [OF assms(1,4,5,6,7,8)] model_availability [OF assms(2,3,8)] assms(6,7,9)
    by (auto simp: model_block_settled split: option.splits)
qed

section \<open>A failure of one model\<close>

abbreviation failing :: "ResultError option \<Rightarrow> gotime \<Rightarrow> ModelState \<Rightarrow> ModelState" where
  "failing err now st0 \<equiv>
     (let st = st0\<lparr>msUnavailable := True, msStatus := StatusError, msUpdatedAt := now\<rparr>
      in case err of None \<Rightarrow> st | Some e \<Rightarrow> st\<lparr>msLastError := err, msStatusMessage := errMessage e\<rparr>)"

definition failed_state ::
  "int \<Rightarrow> ResultError option \<Rightarrow> duration option \<Rightarrow> gotime \<Rightarrow> bool \<Rightarrow> ModelState \<Rightarrow> ModelState" where
  "failed_state seconds err retryAfter now disableCooling st0 =
     (let st = fst (cooldownState seconds err retryAfter now disableCooling (failing err now st0))
      in if disableCooling \<and> msNextRetryAfter st = zeroTime \<and> NextRecoverAt (msQuota st) = zeroTime
         then st\<lparr>msUnavailable := False, msQuota := (msQuota st)\<lparr>Exceeded := False\<rparr>\<rparr> else st)"

lemma quotaCooldownAfterFailure_ok:
  assumes "quotaCooldownAfterFailure q now = (t, l)" "0 \<le> BackoffLevel q" "BackoffLevel q \<le> 11" "0 < now"
  shows "0 < t" "0 \<le> l" "l \<le> 11" "now < t"
proof -
  obtain d l' where n: "nextQuotaCooldown (BackoffLevel q) False = (d, l')" by fastforce
  have "quotaBackoffBase \<le> d" "0 \<le> l'" "l' \<le> 11"
    using nextQuotaCooldown_range [OF n] nextQuotaCooldown_level [OF assms(2,3)] by (simp_all add: n)
  then show "0 < t" "0 \<le> l" "l \<le> 11" "now < t"
    using assms by (auto simp: quotaCooldownAfterFailure_def n split: if_splits)
qed

lemma nextCloudflareCooldown_ok:
  assumes "nextCloudflareCooldown l disable now = (t, l')" "0 \<le> l" "l \<le> 11" "0 < now"
  shows "0 \<le> t" "0 \<le> l'" "l' \<le> 11" "t = zeroTime \<longleftrightarrow> disable"
proof -
  obtain d m where n: "nextQuotaCooldown l False = (d, m)" by fastforce
  have "quotaBackoffBase \<le> d" "0 \<le> m" "m \<le> 11"
    using nextQuotaCooldown_range [OF n] nextQuotaCooldown_level [OF assms(2,3)] by (simp_all add: n)
  then show "0 \<le> t" "0 \<le> l'" "l' \<le> 11" "t = zeroTime \<longleftrightarrow> disable"
    using assms by (auto simp: nextCloudflareCooldown_def n split: if_splits)
qed

lemma failing_quota [simp]: "msQuota (failing err now st) = msQuota st"
  by (simp add: Let_def split: option.splits)

definition hint_ok :: "duration option \<Rightarrow> gotime \<Rightarrow> bool" where
  "hint_ok retryAfter now \<longleftrightarrow> (case retryAfter of None \<Rightarrow> True | Some r \<Rightarrow> 0 < now + r)"

lemma cooldownState_quota:
  assumes "nextCloudflareCooldown (BackoffLevel (msQuota st)) disable now = (c, l)"
    and "quotaCooldownAfterFailure (msQuota st) now = (t, m)"
  shows "msQuota (fst (cooldownState seconds err retryAfter now disable st)) = msQuota st \<or>
    (\<exists>reason up level. msQuota (fst (cooldownState seconds err retryAfter now disable st)) =
         \<lparr>Exceeded = True, quotaReason = reason, NextRecoverAt = up, BackoffLevel = level\<rparr> \<and>
       msNextRetryAfter (fst (cooldownState seconds err retryAfter now disable st)) = up \<and>
       (up, level) \<in> {(c, l), (if disable then (zeroTime, BackoffLevel (msQuota st))
                                 else case retryAfter of Some r \<Rightarrow> (now + r, BackoffLevel (msQuota st)) | None \<Rightarrow> (t, m))})"
  unfolding cooldownState_def Let_def assms prod.case
  by (cases disable; cases retryAfter) (simp_all add: assms(2))

lemma failed_state_ok:
  assumes "state_ok st" "0 < now" "hint_ok retryAfter now"
  shows "state_ok (failed_state seconds err retryAfter now disable st)"
proof -
  let ?st = "failing err now st"
  define s where "s = fst (cooldownState seconds err retryAfter now disable ?st)"
  have q: "0 \<le> BackoffLevel (msQuota ?st)" "BackoffLevel (msQuota ?st) \<le> 11"
    "Exceeded (msQuota ?st) \<longleftrightarrow> NextRecoverAt (msQuota ?st) \<noteq> zeroTime" "0 \<le> NextRecoverAt (msQuota ?st)"
    using assms(1) unfolding failing_quota state_ok_def by simp_all
  obtain c l where cf: "nextCloudflareCooldown (BackoffLevel (msQuota ?st)) disable now = (c, l)" by fastforce
  obtain t m where qc: "quotaCooldownAfterFailure (msQuota ?st) now = (t, m)" by fastforce
  note cf_ok = nextCloudflareCooldown_ok [OF cf q(1,2) assms(2)]
  note qc_ok = quotaCooldownAfterFailure_ok [OF qc q(1,2) assms(2)]
  have res: "failed_state seconds err retryAfter now disable st =
     (if disable \<and> msNextRetryAfter s = zeroTime \<and> NextRecoverAt (msQuota s) = zeroTime
         then s\<lparr>msUnavailable := False, msQuota := (msQuota s)\<lparr>Exceeded := False\<rparr>\<rparr> else s)"
    unfolding failed_state_def s_def by (simp only: Let_def)
  consider "msQuota s = msQuota ?st"
    | (new) reason up level where "msQuota s = \<lparr>Exceeded = True, quotaReason = reason, NextRecoverAt = up, BackoffLevel = level\<rparr>"
       "msNextRetryAfter s = up" "(up, level) \<in> {(c, l), (if disable then (zeroTime, BackoffLevel (msQuota ?st))
                                 else case retryAfter of Some r \<Rightarrow> (now + r, BackoffLevel (msQuota ?st)) | None \<Rightarrow> (t, m))}"
    using cooldownState_quota [OF cf qc] unfolding s_def by blast
  then show ?thesis
  proof cases
    case 1
    then show ?thesis using q unfolding res state_ok_def by auto
  next
    case new
    have "0 \<le> level" "level \<le> 11" "0 \<le> up" "up = zeroTime \<longrightarrow> disable"
      using new(3) cf_ok qc_ok q(1,2) assms(2,3) unfolding failing_quota
      by (auto simp: hint_ok_def split: if_splits option.splits)
    then show ?thesis unfolding res state_ok_def using new(1,2) by auto
  qed
qed
lemma applyModelFailure_changed:
  assumes "states_ok (ModelStates a)" "plain_key key" "0 < now" "hint_ok retryAfter now"
    and "applyModelFailure seconds err retryAfter now disable key a = (a', suspend, quota)"
  shows "changed a a' key (failed_state seconds err retryAfter now disable (old_state a key)) now \<and>
    ID a' = ID a \<and> Disabled a' = Disabled a \<and> authStatus a' = StatusError \<and> Metadata a' = Metadata a"
proof -
  let ?st = "failed_state seconds err retryAfter now disable (old_state a key)"
  obtain st0 a1 where ens: "ensureModelState a key = ((key, st0), a1)" and st0: "st0 = old_state a key" "state_ok st0"
    and a1: "a1 = a\<lparr>ModelStates := ModelStates a1\<rparr>"
    using ensureModelState_plain [OF assms(1,2)] by auto
  have st: "state_ok ?st" using failed_state_ok [OF st0(2) assms(3,4)] st0(1) by simp
  obtain s1 sus qu where cs: "cooldownState seconds err retryAfter now disable (failing err now st0) = (s1, sus, qu)"
    by (metis prod.collapse)
  define b where "b = (case err of None \<Rightarrow> a1 | Some e \<Rightarrow> a1\<lparr>LastError := err, StatusMessage := errMessage e\<rparr>)"
  define c where "c = (if \<not> isTransientCredentialContextResultError err \<and> \<not> isModelSupportResultError err \<and>
                  isCloudflareChallengeResultError err \<and> LastError b \<noteq> None
               then b\<lparr>StatusMessage := ''cloudflare challenge''\<rparr> else b)"
  define a2 where "a2 = (setModelState key ?st c)\<lparr>authStatus := StatusError, UpdatedAt := now\<rparr>"
  have s1: "?st = (if disable \<and> msNextRetryAfter s1 = zeroTime \<and> NextRecoverAt (msQuota s1) = zeroTime
                then s1\<lparr>msUnavailable := False, msQuota := (msQuota s1)\<lparr>Exceeded := False\<rparr>\<rparr> else s1)"
    unfolding failed_state_def cs [unfolded st0(1)] fst_conv by (simp only: Let_def)
  have "applyModelFailure seconds err retryAfter now disable key a = (updateAggregatedAvailability now a2, sus, qu)"
    unfolding applyModelFailure_def ens prod.case a2_def c_def b_def s1 Let_def cs [unfolded Let_def] ..
  then have a': "a' = updateAggregatedAvailability now a2" using assms(5) by simp
  have b: "ModelStates b = ModelStates a1" "ID b = ID a" "Disabled b = Disabled a" "Metadata b = Metadata a"
    using arg_cong [OF a1, of ID] arg_cong [OF a1, of Disabled] arg_cong [OF a1, of Metadata]
    by (simp_all add: b_def split: option.split)
  have a2: "ModelStates a2 = ModelStates (setModelState key ?st a1)"
    "ID a2 = ID a" "Disabled a2 = Disabled a" "authStatus a2 = StatusError" "Metadata a2 = Metadata a"
    by (simp_all add: a2_def c_def b setModelState_def)
  have "0 \<le> now" using assms(3) by simp
  then show ?thesis
    using changed_put [OF assms(1,2) st _ ens a2(1)] a2 by (simp add: a')
qed

text \<open>
  C24 (the aggregated availability). The aggregate the code keeps beside the model states is the one
  the set of states defines, whatever order the map is walked in: the credential is
  unavailable exactly when it has states and each of them is blocked now, it then retries at the
  earliest deadline of a blocked state that has one, and its quota is exceeded exactly when
  that of a state is, with the earliest recovery time and the highest level among those.
\<close>

theorem aggregated_availability:
  assumes "0 \<le> now"
  shows "let S = state_set (ModelStates a); a' = updateAggregatedAvailability now a; q = Quota a' in
    Unavailable a' = (S \<noteq> {} \<and> (\<forall>st \<in> S. blocked_state now st)) \<and>
    NextRetryAfter a' = (if Unavailable a' then earliest_of (retries now S) else zeroTime) \<and>
    Exceeded q = (\<exists>st \<in> S. Exceeded (msQuota st)) \<and> NextRecoverAt q = earliest_of (recoveries S) \<and>
    BackoffLevel q = linorder_class.Max (insert 0 (levels S)) \<and>
    ModelStates a' = settle_all now (ModelStates a)"
proof -
  have none: "recoveries S = {}" "levels S = {}" if "\<not> (\<exists>st \<in> S. Exceeded (msQuota st))" for S
    using that by (auto simp: recoveries_def levels_def)
  show ?thesis
  proof (cases "state_set (ModelStates a) = {}")
    case True
    then show ?thesis using none [of "{}"] settle_none [OF True]
      by (simp add: aggregate_spec [OF assms] clearAggregatedAvailability_def Let_def earliest_of_def)
  next
    case False
    then show ?thesis using none [of "state_set (ModelStates a)"]
      by (auto simp: aggregate_spec [OF assms] Let_def earliest_of_def)
  qed
qed

lemma aggregated_availability_witness:
  "Unavailable (updateAggregatedAvailability 5 ((exampleAuth ''a'' [])\<lparr>ModelStates :=
     [(''m'', Some (activeState\<lparr>msUnavailable := True, msNextRetryAfter := 9\<rparr>)),
      (''n'', Some (activeState\<lparr>msStatus := StatusDisabled\<rparr>))]\<rparr>))"
  using aggregated_availability [of 5 "(exampleAuth ''a'' [])\<lparr>ModelStates :=
     [(''m'', Some (activeState\<lparr>msUnavailable := True, msNextRetryAfter := 9\<rparr>)),
      (''n'', Some (activeState\<lparr>msStatus := StatusDisabled\<rparr>))]\<rparr>"]
  by (simp add: Let_def blocked_state_def activeState_def)

section \<open>A rate limit\<close>

definition rate_limited :: "ResultError option \<Rightarrow> bool" where
  "rate_limited err \<longleftrightarrow> statusCodeFromResult err = 429 \<and> \<not> isTransientCredentialContextResultError err \<and>
     \<not> isModelSupportResultError err \<and> \<not> isCloudflareChallengeResultError err \<and> \<not> isInvalidGrantResultError err"

abbreviation quota_deadline :: "duration option \<Rightarrow> QuotaState \<Rightarrow> gotime \<Rightarrow> gotime" where
  "quota_deadline retryAfter q now \<equiv>
     (case retryAfter of Some r \<Rightarrow> now + r | None \<Rightarrow> fst (quotaCooldownAfterFailure q now))"

lemma failed_state_rate_limited:
  assumes "rate_limited err"
  shows "let st = failed_state seconds err retryAfter now False st0; d = quota_deadline retryAfter (msQuota st0) now in
    msStatus st = StatusError \<and> msUnavailable st \<and> Exceeded (msQuota st) \<and> msNextRetryAfter st = d \<and>
    NextRecoverAt (msQuota st) = d"
proof -
  obtain t m where qc: "quotaCooldownAfterFailure (msQuota (failing err now st0)) now = (t, m)" by fastforce
  have fst: "msStatus (failing err now st0) = StatusError" "msUnavailable (failing err now st0)"
    by (simp_all add: Let_def split: option.splits)
  have "cooldownState seconds err retryAfter now False (failing err now st0) =
      (let (d, l) = (case retryAfter of Some r \<Rightarrow> (now + r, BackoffLevel (msQuota (failing err now st0))) | None \<Rightarrow> (t, m)) in
       ((failing err now st0)\<lparr>msNextRetryAfter := d, msQuota := \<lparr>Exceeded = True, quotaReason = ''quota'',
         NextRecoverAt = d, BackoffLevel = l\<rparr>\<rparr>, Some ''quota'', True))"
    unfolding cooldownState_def Let_def [of "statusCodeFromResult err"] qc using assms
    by (simp add: rate_limited_def Let_def [of "\<lambda>t. _ t"])
  then show ?thesis
    using fst qc unfolding failed_state_def failing_quota
    by (cases retryAfter) (simp_all add: Let_def [of "fst _"] Let_def [of "failed_state _ _ _ _ _ _"])
qed

lemma model_block_deadline:
  assumes "msStatus st = StatusError" "msUnavailable st" "Exceeded (msQuota st)" "msNextRetryAfter st = d"
    "NextRecoverAt (msQuota st) = d" "0 < d" "0 \<le> t"
  shows "model_block st t = (if t < d then (True, blockReasonCooldown, d) else open_model)"
  using assms by (simp add: model_block_def availabilityBlock_def)

lemma applyModelFailure_fst:
  assumes "states_ok (ModelStates a)" "plain_key key" "0 < now" "hint_ok retryAfter now"
  shows "changed a (fst (applyModelFailure seconds err retryAfter now disable key a)) key
    (failed_state seconds err retryAfter now disable (old_state a key)) now"
proof -
  obtain a' s q where "applyModelFailure seconds err retryAfter now disable key a = (a', s, q)"
    by (metis prod.collapse)
  with applyModelFailure_changed [OF assms this] show ?thesis by simp
qed

lemma old_state_ok: "states_ok (ModelStates a) \<Longrightarrow> state_ok (old_state a key)"
  using state_set_lookup [of "ModelStates a"]
  by (auto simp: states_ok_def state_ok_def activeState_def split: option.splits)


abbreviation exampleRateLimit :: ResultError where
  "exampleRateLimit \<equiv> \<lparr>errCode = '''', errMessage = '''', errRetryable = False, HTTPStatus = 429\<rparr>"

lemma example_model: "plain_key ''m''" "canonicalModelKey ''m'' = ''m''" "rate_limited (Some exampleRateLimit)"
  by code_simp+

lemma example_states: "states_ok (ModelStates (exampleAuth ''a'' []))"
  by (simp add: exampleAuth_def states_ok_def gomap_ok_def)

end
