(* ===== verification/ResultProps.thy ===== *)
theory ResultProps
  imports CooldownProps
begin

text \<open>
  Facts about \<open>MarkResult\<close>: the table of credentials stays well-formed whatever result is marked,
  no result takes a credential out of the disabled status, a terminal failure disables every file
  of the same member, and a success makes its model available.
\<close>

section \<open>The table of credentials\<close>

text \<open>
  Every entry sits under its own identifier and its model states are well-formed.
  \<open>evolves m m'\<close>: the same entries, still well-formed, none of them enabled again.
\<close>

definition table_ok :: "auth_table \<Rightarrow> bool" where
  "table_ok m \<longleftrightarrow> gomap_ok m \<and> (\<forall>k a. glookup m k = Some (Some a) \<longrightarrow> ID a = k \<and> states_ok (ModelStates a))"

definition grows :: "Auth \<Rightarrow> Auth \<Rightarrow> bool" where
  "grows a a' \<longleftrightarrow> ID a' = ID a \<and> (states_ok (ModelStates a) \<longrightarrow> states_ok (ModelStates a')) \<and> (Disabled a \<longrightarrow> Disabled a')"

definition evolves :: "auth_table \<Rightarrow> auth_table \<Rightarrow> bool" where
  "evolves m m' \<longleftrightarrow> (gomap_ok m \<longrightarrow> gomap_ok m') \<and> (\<forall>k. rel_option (rel_option grows) (glookup m k) (glookup m' k))"

lemma grows_refl [simp]: "grows a a"
  by (simp add: grows_def)

lemma grows_trans: "grows a b \<Longrightarrow> grows b c \<Longrightarrow> grows a c"
  by (auto simp: grows_def)

lemma evolves_refl [simp]: "evolves m m"
  by (simp add: evolves_def option.rel_refl)

lemma evolves_trans: "evolves m n \<Longrightarrow> evolves n p \<Longrightarrow> evolves m p"
proof -
  have "transp grows" by (rule transpI) (rule grows_trans)
  then have "transp (rel_option (rel_option grows))" by (intro option.rel_transp)
  then show "evolves m n \<Longrightarrow> evolves n p \<Longrightarrow> evolves m p" unfolding evolves_def by (blast dest: transpD)
qed
lemma evolves_put:
  assumes "glookup m k = Some (Some a)" "grows a a'"
  shows "evolves m (gput k (Some a') m)"
  using assms by (simp add: evolves_def glookup_put option.rel_refl)

lemma evolves_lookup:
  "evolves m m' \<Longrightarrow> glookup m k = Some (Some a) \<Longrightarrow> \<exists>a'. glookup m' k = Some (Some a') \<and> grows a a'"
  unfolding evolves_def by (drule conjunct2, drule spec [of _ k]) (auto simp: option_rel_Some1)

lemma evolves_origin:
  "evolves m m' \<Longrightarrow> glookup m' k = Some (Some a') \<Longrightarrow> \<exists>a. glookup m k = Some (Some a) \<and> grows a a'"
  unfolding evolves_def by (drule conjunct2, drule spec [of _ k]) (auto simp: option_rel_Some2)

lemma evolves_ok:
  assumes "evolves m m'" "table_ok m"
  shows "table_ok m'"
proof -
  have "ID a' = k \<and> states_ok (ModelStates a')" if "glookup m' k = Some (Some a')" for k a'
    using evolves_origin [OF assms(1) that] assms(2) by (auto simp: table_ok_def grows_def)
  moreover have "gomap_ok m'" using assms by (simp add: evolves_def table_ok_def)
  ultimately show ?thesis by (simp add: table_ok_def)
qed
lemma table_ok_entry: "table_ok m \<Longrightarrow> glookup m k = Some (Some a) \<Longrightarrow> ID a = k \<and> states_ok (ModelStates a)"
  by (simp add: table_ok_def)

section \<open>One credential\<close>

lemma recordRecentRequest_frame [simp]:
  "ID (recordRecentRequest now s a) = ID a" "Disabled (recordRecentRequest now s a) = Disabled a"
  "ModelStates (recordRecentRequest now s a) = ModelStates a"
  by (simp_all add: recordRecentRequest_def Let_def)

lemma authFailureBranch_frame [simp]:
  "ID (authFailureBranch seconds err retryAfter now disable a) = ID a"
  "Disabled (authFailureBranch seconds err retryAfter now disable a) = Disabled a"
  "ModelStates (authFailureBranch seconds err retryAfter now disable a) = ModelStates a"
  unfolding authFailureBranch_def Let_def
  by (simp_all split: prod.split)

lemma applyAuthFailureStateWithTransientPolicy_frame:
  "grows a (applyAuthFailureStateWithTransientPolicy gj seconds err retryAfter now disable keep a)"
  by (cases err)
    (simp_all add: applyAuthFailureStateWithTransientPolicy_def applyAuthFailureState_def grows_def Let_def)
lemma update_states_ok:
  assumes "states_ok (ModelStates a)" "0 \<le> now"
  shows "states_ok (ModelStates (updateAggregatedAvailability now a))"
  using assms states_ok_settle [OF assms(1), of now]
  by (auto simp: aggregate_spec clearAggregatedAvailability_def Let_def)

lemma set_ensured:
  assumes "states_ok (ModelStates a)" "plain_key key" "state_ok st" "0 \<le> now"
    and "ensureModelState a key = ((key', st0), a1)"
  shows "changed a (updateAggregatedAvailability now (setModelState key' st a1)) key st now \<and>
    ID (updateAggregatedAvailability now (setModelState key' st a1)) = ID a \<and>
    Disabled (updateAggregatedAvailability now (setModelState key' st a1)) = Disabled a"
proof -
  have "ID a1 = ID a" "Disabled a1 = Disabled a"
    using ensureModelState_plain [OF assms(1,2)] assms(5) by auto
  then show ?thesis using changed_put [OF assms(1-5) refl] assms(4) by (simp add: setModelState_def)
qed

lemma changed_ok: "changed a a' key st now \<Longrightarrow> states_ok (ModelStates a')"
  by (simp add: changed_def)

lemma reset_ok: "state_ok (resetModelState now st)"
  by (simp add: resetModelState_def state_ok_def)

definition result_ok :: "execution_result \<Rightarrow> string \<Rightarrow> gotime \<Rightarrow> bool" where
  "result_ok res modelKey now \<longleftrightarrow> (modelKey = '''' \<or> plain_key modelKey) \<and> 0 < now \<and> hint_ok (resRetryAfter res) now"

lemma changed_grows:
  "changed a a' key st now \<Longrightarrow> ID a' = ID a \<Longrightarrow> Disabled a' = Disabled a \<Longrightarrow> grows a a'"
  by (simp add: grows_def changed_def)

lemma applyModelFailure_grows:
  assumes "states_ok (ModelStates a)" "plain_key key" "0 < now" "hint_ok retryAfter now"
  shows "grows a (fst (applyModelFailure seconds err retryAfter now disable key a))"
proof -
  obtain a' s q where r: "applyModelFailure seconds err retryAfter now disable key a = (a', s, q)"
    by (metis prod.collapse)
  with applyModelFailure_changed [OF assms r] have "grows a a'" by (blast intro: changed_grows)
  with r show ?thesis by simp
qed

lemma invalidated_grows: "grows a (invalidated err now a)"
  by (simp add: grows_def)

text \<open>The three branches of \<open>markCredential\<close> as equations.\<close>

definition succeeded_model :: "gotime \<Rightarrow> string \<Rightarrow> Auth \<Rightarrow> Auth" where
  "succeeded_model now key a =
     (let ((key', st), a1) = ensureModelState a key;
          a2 = updateAggregatedAvailability now (setModelState key' (resetModelState now st) a1)
      in (if hasModelError a2 now then a2 else a2\<lparr>LastError := None, StatusMessage := '''', authStatus := StatusActive\<rparr>)
           \<lparr>UpdatedAt := now\<rparr>)"

definition failed_credential :: "manager_config \<Rightarrow> execution_result \<Rightarrow> string \<Rightarrow> gotime \<Rightarrow> Auth \<Rightarrow> Auth" where
  "failed_credential mc res key now a =
     (if key = '''' then applyAuthFailureStateWithTransientPolicy (mcGjson mc) (mcTransientSeconds mc) (resError res)
          (resRetryAfter res) now (mcCoolingDisabled mc a) (keepsTransientAccountActive (mcGjson mc) (mcKeepActive mc) (resError res)) a
      else if managerSkipsCooldown (mcGjson mc) (mcKeepActive mc) (resError res) then a
      else fst (applyModelFailure (mcTransientSeconds mc) (result_error (resError res)) (resRetryAfter res) now
             (mcCoolingDisabled mc a) key a))"

definition marked :: "manager_config \<Rightarrow> execution_result \<Rightarrow> string \<Rightarrow> gotime \<Rightarrow> Auth \<Rightarrow> Auth" where
  "marked mc res key now a =
     (if \<not> resSuccess res \<and> isTerminalCredentialResultError (result_error (resError res))
      then invalidated (result_error (resError res)) now a
      else if resSuccess res
      then (let a = a\<lparr>successCount := wrap64 (successCount a + 1)\<rparr>
            in if key = '''' then clearAuthStateOnSuccess now a else succeeded_model now key a)
      else failed_credential mc res key now (a\<lparr>failedCount := wrap64 (failedCount a + 1)\<rparr>))"

lemma fst_fst_if: "fst (fst (if c then x else y)) = (if c then fst (fst x) else fst (fst y))"
  by simp

lemma markCredential_marked: "fst (fst (markCredential mc res key now a env)) = marked mc res key now a"
  unfolding markCredential_def marked_def failed_credential_def succeeded_model_def Let_def fst_fst_if
  by (simp add: case_prod_beta)

lemma changed_cong: "ModelStates b = ModelStates a' \<Longrightarrow> changed a b key st now \<longleftrightarrow> changed a a' key st now"
  by (simp add: changed_def)

lemma succeeded_model_changed:
  assumes "states_ok (ModelStates a)" "plain_key key" "0 \<le> now"
  shows "\<exists>st. changed a (succeeded_model now key a) key (resetModelState now st) now \<and>
    ID (succeeded_model now key a) = ID a \<and> Disabled (succeeded_model now key a) = Disabled a"
proof -
  obtain key' st a1 where ens: "ensureModelState a key = ((key', st), a1)" by (metis prod.collapse)
  note r = set_ensured [OF assms(1,2) reset_ok assms(3) ens, of now st]
  have "changed a (succeeded_model now key a) key (resetModelState now st) now"
    by (rule changed_cong [THEN iffD2, OF _ conjunct1 [OF r]]) (simp add: succeeded_model_def ens Let_def)
  moreover have "ID (succeeded_model now key a) = ID a" "Disabled (succeeded_model now key a) = Disabled a"
    using r by (simp_all add: succeeded_model_def ens Let_def)
  ultimately show ?thesis by blast
qed

lemma frame_grows:
  "ID a' = ID a \<Longrightarrow> Disabled a' = Disabled a \<Longrightarrow> ModelStates a' = ModelStates a \<Longrightarrow> grows a a'"
  by (simp add: grows_def)

lemma marked_grows:
  assumes "states_ok (ModelStates a)" "result_ok res key now"
  shows "grows a (marked mc res key now a)"
proof -
  have now: "0 \<le> now" "0 < now" "hint_ok (resRetryAfter res) now" using assms(2) by (simp_all add: result_ok_def)
  let ?s = "a\<lparr>successCount := wrap64 (successCount a + 1)\<rparr>" and ?f = "a\<lparr>failedCount := wrap64 (failedCount a + 1)\<rparr>"
  have ms: "states_ok (ModelStates ?s)" "states_ok (ModelStates ?f)" using assms(1) by simp_all
  have s: "grows a ?s" "grows a ?f" by (simp_all add: frame_grows)
  have clear: "grows ?s (clearAuthStateOnSuccess now ?s)" by (simp add: clearAuthStateOnSuccess_def frame_grows)
  show ?thesis
  proof (cases "key = ''''")
    case True
    then show ?thesis
      using grows_trans [OF s(1) clear] invalidated_grows grows_trans [OF s(2) applyAuthFailureStateWithTransientPolicy_frame]
      by (simp add: marked_def failed_credential_def)
  next
    case False
    then have k: "plain_key key" using assms(2) by (simp add: result_ok_def)
    have "grows ?s (succeeded_model now key ?s)"
      using succeeded_model_changed [OF ms(1) k now(1)] by (blast intro: changed_grows)
    moreover have "grows ?f (failed_credential mc res key now ?f)"
      using applyModelFailure_grows [OF ms(2) k now(2,3)] False by (simp add: failed_credential_def)
    ultimately show ?thesis
      using grows_trans [OF s(1)] grows_trans [OF s(2)] invalidated_grows False by (simp add: marked_def)
  qed
qed

section \<open>Peers\<close>

lemma changePeers_lookup:
  "glookup (fst (changePeers f m)) k =
     (case glookup m k of Some (Some c) \<Rightarrow> (case f k c of None \<Rightarrow> Some (Some c) | Some c' \<Rightarrow> Some (Some c')) | x \<Rightarrow> x) \<and>
   map fst (fst (changePeers f m)) = map fst m"
proof (induction m)
  case (Cons entry m)
  obtain k' c where entry: "entry = (k', c)" by fastforce
  obtain m' ps where m': "changePeers f m = (m', ps)" by fastforce
  show ?case using Cons by (auto simp: entry m' split: option.splits)
qed simp

lemma changePeers_evolves:
  assumes "\<And>k c c'. glookup m k = Some (Some c) \<Longrightarrow> f k c = Some c' \<Longrightarrow> grows c c'"
  shows "evolves m (fst (changePeers f m))"
proof -
  have "rel_option (rel_option grows) (glookup m k) (glookup (fst (changePeers f m)) k)" for k
    using assms [of k] by (auto simp: changePeers_lookup split: option.splits)
  then show ?thesis by (simp add: evolves_def gomap_ok_def changePeers_lookup)
qed

lemma changePeers_peers:
  "p \<in> set (snd (changePeers f m)) \<Longrightarrow> \<exists>k c. (k, Some c) \<in> set m \<and> f k c = Some p"
proof (induction m)
  case (Cons entry m)
  obtain k' c where entry: "entry = (k', c)" by fastforce
  obtain m' ps where m': "changePeers f m = (m', ps)" by fastforce
  show ?case using Cons by (fastforce simp: entry m' split: option.splits)
qed simp

lemma propagateTerminalCredential_evolves:
  "evolves m (fst (propagateTerminalCredential digest source err now m))"
  unfolding propagateTerminalCredential_def
  by (auto intro!: changePeers_evolves invalidated_grows split: if_splits)

lemma canonical_plain: "result_ok res modelKey now \<Longrightarrow> modelKey \<noteq> '''' \<Longrightarrow> canonicalModelKey modelKey = modelKey"
  by (simp add: result_ok_def plain_key_def)

lemma canonical_empty: "canonicalModelKey '''' = ''''"
  by code_simp

lemma put_state_grows:
  assumes "plain_key key" "state_ok st" "0 \<le> now" "ID b = ID a" "Disabled b = Disabled a"
    and "ModelStates b = gput key (Some st) (ModelStates a)"
  shows "grows a ((updateAggregatedAvailability now b)\<lparr>UpdatedAt := t\<rparr>)"
  using assms update_states_ok [of b now] states_ok_put [of "ModelStates a" key st]
  by (simp add: grows_def)

lemma propagateCanonicalCooldown_evolves:
  assumes "result_ok res modelKey now" "states_ok (ModelStates source)"
  shows "evolves m (fst (propagateCanonicalCooldown digest source modelKey now m))"
proof -
  have now: "0 \<le> now" using assms(1) by (simp add: result_ok_def)
  have key: "canonicalModelKey modelKey = modelKey"
    using canonical_plain [OF assms(1)] canonical_empty by (cases "modelKey = ''''") simp_all
  have st: "state_ok st" if "glookup (ModelStates source) modelKey = Some (Some st)" for st
    using assms(2) that state_set_lookup [of "ModelStates source" st] by (auto simp: states_ok_def)
  show ?thesis
  proof (cases "modelKey = ''''")
    case True
    then show ?thesis unfolding propagateCanonicalCooldown_def key Let_def
      by (auto intro!: changePeers_evolves simp: grows_def split: if_splits)
  next
    case False
    then have "plain_key modelKey" using assms(1) by (simp add: result_ok_def)
    then show ?thesis unfolding propagateCanonicalCooldown_def key Let_def
      using False st now
      by (auto intro!: changePeers_evolves put_state_grows simp: setModelState_def split: if_splits option.splits)
  qed
qed

lemma coordinateRateLimitPeer_grows:
  assumes "result_ok res modelKey now" "states_ok (ModelStates a)"
  shows "grows a (fst (coordinateRateLimitPeer modelKey now retryAfter a env))"
proof (cases "modelKey = '''' \<or> Disabled a \<or> authStatus a = StatusDisabled")
  case True
  then show ?thesis using canonical_empty
    by (auto simp: coordinateRateLimitPeer_def grows_def Let_def)
next
  case False
  then have k: "canonicalModelKey modelKey = modelKey" "plain_key modelKey"
    using canonical_plain [OF assms(1)] assms(1) by (simp_all add: result_ok_def)
  have now: "0 < now" "0 \<le> now" using assms(1) by (simp_all add: result_ok_def)
  let ?a = "a\<lparr>authStatus := StatusError, StatusMessage := ''rate limit exceeded; recovery coordinated'',
                     Unavailable := True, UpdatedAt := now\<rparr>"
  have ok: "states_ok (ModelStates ?a)" using assms(2) by simp
  obtain key st a1 where ens: "ensureModelState ?a modelKey = ((key, st), a1)" by (metis prod.collapse)
  have "state_ok st" using ensureModelState_plain [OF ok k(2)] ens by auto
  then have "state_ok (st\<lparr>msStatus := StatusError, msStatusMessage := StatusMessage a1, msUnavailable := True,
      msNextRetryAfter := now + authRecoveryPeerCooldown, msQuota := (msQuota st)\<lparr>Exceeded := True,
      quotaReason := ''rate_limit_recovery'', NextRecoverAt := now + authRecoveryPeerCooldown\<rparr>, msUpdatedAt := now\<rparr>)"
    using now by (simp add: state_ok_def)
  note set_ensured [OF ok k(2) this now(2) ens]
  then show ?thesis using False k(1) assms(2)
    by (simp add: coordinateRateLimitPeer_def ens Let_def grows_def changed_def)
qed

lemma coordinatePeers_evolves:
  assumes "result_ok res modelKey now" "table_ok m"
  shows "evolves m (snd (fst (coordinatePeers modelKey now retryAfter peers m env)))"
  using assms(2)
proof (induction peers arbitrary: m env)
  case (Cons peer peers)
  show ?case
  proof (cases "\<exists>live. glookup m (ID peer) = Some (Some live)")
    case False
    then show ?thesis using Cons by (auto split: option.splits)
  next
    case True
    then obtain live where live: "glookup m (ID peer) = Some (Some live)" by blast
    obtain live' env' where peer: "coordinateRateLimitPeer modelKey now retryAfter live env = (live', env')" by fastforce
    let ?m = "gput (ID peer) (Some live') m"
    obtain rest m' env'' where r: "coordinatePeers modelKey now retryAfter peers ?m env' = ((rest, m'), env'')"
      by (metis prod.collapse)
    have "states_ok (ModelStates live)" using table_ok_entry [OF Cons.prems live] by blast
    from coordinateRateLimitPeer_grows [OF assms(1) this, of retryAfter env]
    have step: "evolves m ?m" using live by (intro evolves_put) (simp_all add: peer)
    then have "evolves ?m m'" using Cons.IH [OF evolves_ok [OF step Cons.prems], of env'] by (simp add: r)
    then show ?thesis using step by (simp add: live peer r evolves_trans)
  qed
qed simp

lemma markRateLimitRecoveryQueued_frame:
  "ID (snd (markRateLimitRecoveryQueued fresh stamp now a)) = ID a"
  "Disabled (snd (markRateLimitRecoveryQueued fresh stamp now a)) = Disabled a"
  "ModelStates (snd (markRateLimitRecoveryQueued fresh stamp now a)) = ModelStates a"
  unfolding markRateLimitRecoveryQueued_def by (simp_all add: Let_def)
section \<open>The whole step\<close>

lemma markLocked_unknown:
  "\<not> (\<exists>a. glookup m (resAuthID res) = Some (Some a)) \<Longrightarrow> markLocked mc res modelKey now m env = ((m, env), emptyOutcome)"
  by (auto simp: markLocked_def split: option.splits)

lemma gput_gput: "gput k v (gput k w m) = gput k v m"
  by (induction m) auto

lemma success_no_recovery: "\<not> shouldQueueRateLimitRecovery a True err"
  by (simp add: shouldQueueRateLimitRecovery_def split: option.split)

text \<open>The tables the locked part goes through.\<close>

lemma markLocked_steps:
  assumes "glookup m (resAuthID res) = Some (Some a0)"
  shows "\<exists>a a' m2 m3 peers env3.
    a = marked mc res modelKey now (recordRecentRequest now (resSuccess res) a0) \<and>
    m2 = (if \<not> resSuccess res \<and> isTerminalCredentialResultError (result_error (resError res))
          then fst (propagateTerminalCredential (mcDigest mc) a (result_error (resError res)) now (gput (resAuthID res) (Some a) m))
          else gput (resAuthID res) (Some a) m) \<and>
    (m3 = m2 \<or> m3 = fst (propagateCanonicalCooldown (mcDigest mc) a modelKey now m2)) \<and>
    (resSuccess res \<or> isTerminalCredentialResultError (result_error (resError res)) \<longrightarrow> m3 = m2) \<and>
    (a' = a \<or> a' = snd (markRateLimitRecoveryQueued (mcFresh mc) (mcStamp mc) now a)) \<and>
    (resSuccess res \<longrightarrow> fst (fst (markLocked mc res modelKey now m env)) = gput (resAuthID res) (Some a) m) \<and>
    (fst (fst (markLocked mc res modelKey now m env)) = gput (resAuthID res) (Some a') m3 \<or>
     fst (fst (markLocked mc res modelKey now m env)) =
       snd (fst (coordinatePeers modelKey now (resRetryAfter res) peers (gput (resAuthID res) (Some a') m3) env3)))"
proof -
  let ?err = "result_error (resError res)" and ?key = "resAuthID res"
  let ?terminal = "\<not> resSuccess res \<and> isTerminalCredentialResultError ?err"
  obtain ext env1 where e1: "(if mcAffinityActive mc \<and> cacheAffinityUsageLimitResult ?err
      then (let (x, st) = freezeUsageLimit now (resRetryAfter res) (env (ID a0)) in (x, env(ID a0 := st)))
      else (False, env)) = (ext, env1)" by (metis prod.collapse)
  obtain a env2 fl where a: "markCredential mc res modelKey now (recordRecentRequest now (resSuccess res) a0) env1 = ((a, env2), fl)"
    by (metis prod.collapse)
  obtain rec env3 where l: "markLimits mc res now a env2 = (rec, env3)" by fastforce
  obtain m2 tp where m2: "(if ?terminal then propagateTerminalCredential (mcDigest mc) a ?err now (gput ?key (Some a) m)
      else (gput ?key (Some a) m, [])) = (m2, tp)" by (metis prod.collapse)
  obtain m3 cp where m3: "(if \<not> ?terminal \<and> \<not> resSuccess res \<and> shouldPropagateCanonicalCooldown ?err
      then propagateCanonicalCooldown (mcDigest mc) a modelKey now m2 else (m2, [])) = (m3, cp)" by (metis prod.collapse)
  obtain g a' where q: "(if rec then markRateLimitRecoveryQueued (mcFresh mc) (mcStamp mc) now a else (None, a)) = (g, a')"
    by (metis prod.collapse)
  obtain cp' m5 env4 where c: "(if rec then coordinatePeers modelKey now (resRetryAfter res) cp (gput ?key (Some a') m3) env3
      else ((cp, gput ?key (Some a') m3), env3)) = ((cp', m5), env4)" by (metis prod.collapse)
  have "fst (fst (markLocked mc res modelKey now m env)) = m5"
    unfolding markLocked_def assms option.case Let_def e1 [unfolded Let_def] prod.case a l m2 m3 q c fst_conv ..
  moreover have "a = marked mc res modelKey now (recordRecentRequest now (resSuccess res) a0)"
    using markCredential_marked [of mc res modelKey now _ env1] by (simp add: a flip: markCredential_marked [of _ _ _ _ _ env1])
  moreover have "m2 = (if ?terminal then fst (propagateTerminalCredential (mcDigest mc) a ?err now (gput ?key (Some a) m))
      else gput ?key (Some a) m)" using arg_cong [OF m2 [symmetric], of fst] by (simp only: if_distrib [of fst] fst_conv)
  moreover have "m3 = m2 \<or> m3 = fst (propagateCanonicalCooldown (mcDigest mc) a modelKey now m2)"
    "resSuccess res \<or> isTerminalCredentialResultError ?err \<longrightarrow> m3 = m2"
    using m3 by (auto split: if_splits)
  moreover have "a' = a \<or> a' = snd (markRateLimitRecoveryQueued (mcFresh mc) (mcStamp mc) now a)"
    using q by (auto split: if_splits)
  moreover have "m5 = gput ?key (Some a') m3 \<or>
      m5 = snd (fst (coordinatePeers modelKey now (resRetryAfter res) cp (gput ?key (Some a') m3) env3))"
    using c by (auto split: if_splits)
  moreover have "resSuccess res \<longrightarrow> m5 = gput ?key (Some a) m"
  proof
    assume s: "resSuccess res"
    then have "\<not> rec" using l success_no_recovery by (simp add: markLimits_def Let_def)
    then show "m5 = gput ?key (Some a) m" using s c q m3 m2 by (auto simp: gput_gput)
  qed
  ultimately show ?thesis by blast
qed

lemma markLocked_evolves:
  assumes "table_ok m" "result_ok res modelKey now"
  shows "evolves m (fst (fst (markLocked mc res modelKey now m env)))"
proof (cases "\<exists>a. glookup m (resAuthID res) = Some (Some a)")
  case False
  then show ?thesis by (simp add: markLocked_unknown)
next
  case True
  then obtain a0 where a0: "glookup m (resAuthID res) = Some (Some a0)" by blast
  let ?key = "resAuthID res"
  obtain a a' m2 m3 peers env3 where
    a: "a = marked mc res modelKey now (recordRecentRequest now (resSuccess res) a0)" and
    m2: "m2 = (if \<not> resSuccess res \<and> isTerminalCredentialResultError (result_error (resError res))
          then fst (propagateTerminalCredential (mcDigest mc) a (result_error (resError res)) now (gput ?key (Some a) m))
          else gput ?key (Some a) m)" and
    m3: "m3 = m2 \<or> m3 = fst (propagateCanonicalCooldown (mcDigest mc) a modelKey now m2)" and
    a': "a' = a \<or> a' = snd (markRateLimitRecoveryQueued (mcFresh mc) (mcStamp mc) now a)" and
    m5: "fst (fst (markLocked mc res modelKey now m env)) = gput ?key (Some a') m3 \<or>
     fst (fst (markLocked mc res modelKey now m env)) =
       snd (fst (coordinatePeers modelKey now (resRetryAfter res) peers (gput ?key (Some a') m3) env3))"
    using markLocked_steps [OF a0, of mc modelKey now env] by blast
  have ok0: "ID a0 = ?key" "states_ok (ModelStates a0)" using table_ok_entry [OF assms(1) a0] by simp_all
  have "grows a0 (recordRecentRequest now (resSuccess res) a0)" by (rule frame_grows) simp_all
  moreover have "grows (recordRecentRequest now (resSuccess res) a0) a"
    unfolding a by (rule marked_grows [OF _ assms(2)]) (simp add: ok0)
  ultimately have ga: "grows a0 a" by (rule grows_trans)
  have e1: "evolves m (gput ?key (Some a) m)" using a0 ga by (rule evolves_put)
  moreover have "evolves (gput ?key (Some a) m) m2"
    using m2 propagateTerminalCredential_evolves by simp
  ultimately have e2: "evolves m m2" by (rule evolves_trans)
  have aok: "states_ok (ModelStates a)" using ga ok0 by (simp add: grows_def)
  then have "evolves m2 m3" using m3 propagateCanonicalCooldown_evolves [OF assms(2)] by auto
  with e2 have e3: "evolves m m3" by (rule evolves_trans)
  obtain b where b: "glookup m3 ?key = Some (Some b)" "grows a0 b" using evolves_lookup [OF e3 a0] by blast
  have a'f: "ID a' = ID a" "Disabled a' = Disabled a" "ModelStates a' = ModelStates a"
    using a' markRateLimitRecoveryQueued_frame by auto
  have "evolves m (gput ?key (Some a') m3)"
    using e3 ga a'f aok assms(1) a0
    by (auto simp: evolves_def glookup_put grows_def)
  moreover have "evolves (gput ?key (Some a') m3) (fst (fst (markLocked mc res modelKey now m env)))"
    using m5 coordinatePeers_evolves [OF assms(2) evolves_ok [OF calculation assms(1)]] by auto
  ultimately show ?thesis by (rule evolves_trans)
qed

lemma MarkResult_evolves:
  assumes "table_ok m" "result_ok res (canonicalModelKey (resModel res)) now"
  shows "evolves m (fst (fst (MarkResult mc res now m env)))"
  using markLocked_evolves [OF assms, of mc env]
  by (auto simp: MarkResult_def Let_def split: prod.splits)

lemma MarkResult_fst:
  "resAuthID res \<noteq> '''' \<Longrightarrow>
   fst (fst (MarkResult mc res now m env)) = fst (fst (markLocked mc res (canonicalModelKey (resModel res)) now m env))"
  by (simp add: MarkResult_def Let_def split: prod.split)

text \<open>
  C6 (marking a result keeps the table well-formed). Whatever the result, the table of credentials
  keeps its entries, each under its own identifier, and every credential keeps well-formed model
  states: each under its canonical name, its quota exceeded exactly when it names a recovery
  time, and its level one the backoff ladder reaches.
\<close>

theorem MarkResult_table:
  assumes "table_ok m" "result_ok res (canonicalModelKey (resModel res)) now"
  shows "table_ok (fst (fst (MarkResult mc res now m env))) \<and>
    (glookup (fst (fst (MarkResult mc res now m env))) k = None \<longleftrightarrow> glookup m k = None)"
  using MarkResult_evolves [OF assms, of mc env] evolves_ok [OF _ assms(1)]
  by (auto simp: evolves_def dest!: spec [of _ k] elim: option.rel_cases)

lemma markLocked_terminal:
  assumes "table_ok m" "result_ok res modelKey now" "glookup m (resAuthID res) = Some (Some a0)"
    and "\<not> resSuccess res" "isTerminalCredentialResultError (result_error (resError res))"
    and "a = invalidated (result_error (resError res)) now (recordRecentRequest now False a0)"
    and "glookup m k = Some (Some c)"
    and "k = resAuthID res \<or> codexCanonicalIdentityKey (mcDigest mc) a \<noteq> '''' \<and> codexSameMemberIdentity (mcDigest mc) a c"
  shows "\<exists>c'. glookup (fst (fst (markLocked mc res modelKey now m env))) k = Some (Some c') \<and> Disabled c'"
proof -
  let ?key = "resAuthID res" and ?err = "result_error (resError res)"
  have marked: "marked mc res modelKey now (recordRecentRequest now (resSuccess res) a0) = a"
    using assms(4-6) by (simp add: marked_def)
  obtain a' m2 m3 peers env3 where
    s2: "m2 = (if \<not> resSuccess res \<and> isTerminalCredentialResultError ?err
          then fst (propagateTerminalCredential (mcDigest mc) a ?err now (gput ?key (Some a) m))
          else gput ?key (Some a) m)" and
    s3: "resSuccess res \<or> isTerminalCredentialResultError ?err \<longrightarrow> m3 = m2" and
    a': "a' = a \<or> a' = snd (markRateLimitRecoveryQueued (mcFresh mc) (mcStamp mc) now a)" and
    m5: "fst (fst (markLocked mc res modelKey now m env)) = gput ?key (Some a') m3 \<or>
     fst (fst (markLocked mc res modelKey now m env)) =
       snd (fst (coordinatePeers modelKey now (resRetryAfter res) peers (gput ?key (Some a') m3) env3))"
    using markLocked_steps [OF assms(3), of mc modelKey now env] unfolding marked by blast
  have m2: "m2 = fst (propagateTerminalCredential (mcDigest mc) a ?err now (gput ?key (Some a) m))" and m3: "m3 = m2"
    using s2 s3 assms(4,5) by simp_all
  have ok0: "ID a0 = ?key" "states_ok (ModelStates a0)" using table_ok_entry [OF assms(1,3)] by simp_all
  have ida: "ID a = ?key" "Disabled a" "states_ok (ModelStates a)" using assms(6) ok0 by simp_all
  then have da': "Disabled a'" "ID a' = ?key" "states_ok (ModelStates a')"
    using a' markRateLimitRecoveryQueued_frame by auto
  have ga: "grows a0 a" using assms(6) ok0 by (simp add: grows_def)
  have put: "evolves m (gput ?key (Some a) m)" using assms(3) ga by (rule evolves_put)
  then have m2e: "evolves m m2" unfolding m2
    using propagateTerminalCredential_evolves by (rule evolves_trans)
  have "table_ok (gput ?key (Some a') m3)"
    using evolves_ok [OF m2e assms(1)] da' by (auto simp: m3 table_ok_def glookup_put)
  then have e: "evolves (gput ?key (Some a') m3) (fst (fst (markLocked mc res modelKey now m env)))"
    using m5 coordinatePeers_evolves [OF assms(2)] by auto
  have "\<exists>c'. glookup (gput ?key (Some a') m3) k = Some (Some c') \<and> Disabled c'"
  proof (cases "k = ?key")
    case True
    then show ?thesis using da' by (simp add: glookup_put)
  next
    case False
    then have "codexCanonicalIdentityKey (mcDigest mc) a \<noteq> ''''" "codexSameMemberIdentity (mcDigest mc) a c"
      using assms(8) by simp_all
    moreover have "?err \<noteq> None" using assms(5) by (auto simp: isTerminalCredentialResultError_def split: option.splits)
    ultimately have "glookup m2 k = Some (Some (invalidated ?err now c))"
      using False assms(7) ida(1)
      by (auto simp: m2 propagateTerminalCredential_def changePeers_lookup glookup_put)
    then show ?thesis using False by (simp add: m3 glookup_put)
  qed
  then obtain c' where "glookup (gput ?key (Some a') m3) k = Some (Some c')" "Disabled c'" by blast
  with evolves_lookup [OF e this(1)] show ?thesis by (auto simp: grows_def)
qed

text \<open>
  C18 (no result enables a credential). A disabled credential is disabled after any result of any
  credential; after a terminal failure - a revoked or deleted account - the credential that
  failed is disabled, and with it every other file of the same member.
\<close>

theorem MarkResult_disables:
  assumes "table_ok m" "result_ok res (canonicalModelKey (resModel res)) now" "glookup m k = Some (Some c)"
    and "glookup m (resAuthID res) = Some (Some a0)" "resAuthID res \<noteq> ''''"
    and "a = invalidated (result_error (resError res)) now (recordRecentRequest now False a0)"
  shows "\<exists>c'. glookup (fst (fst (MarkResult mc res now m env))) k = Some (Some c') \<and> ID c' = ID c \<and>
    (Disabled c \<longrightarrow> Disabled c') \<and>
    (\<not> resSuccess res \<and> isTerminalCredentialResultError (result_error (resError res)) \<and>
       (k = resAuthID res \<or>
        codexCanonicalIdentityKey (mcDigest mc) a \<noteq> '''' \<and> codexSameMemberIdentity (mcDigest mc) a c) \<longrightarrow> Disabled c')"
proof -
  obtain c' where c': "glookup (fst (fst (MarkResult mc res now m env))) k = Some (Some c')" "grows c c'"
    using evolves_lookup [OF MarkResult_evolves [OF assms(1,2)] assms(3)] by blast
  with markLocked_terminal [OF assms(1,2,4) _ _ assms(6,3), of mc env] show ?thesis
    unfolding MarkResult_fst [OF assms(5)] by (auto simp: grows_def)
qed

text \<open>
  C35 (a success opens its model). After a successful request of a model, the credential's entry
  accepts that model at every later time, whatever cooldown it was under, and each other model
  of a credential that has model states exactly when it accepted it before.
\<close>

theorem MarkResult_success_opens:
  assumes "table_ok m" "result_ok res (canonicalModelKey (resModel res)) now" "canonicalModelKey (resModel res) \<noteq> ''''"
    and "glookup m (resAuthID res) = Some (Some a0)" "resAuthID res \<noteq> ''''" "resSuccess res"
    and "now \<le> t" "model \<noteq> ''''"
  shows "\<exists>a'. glookup (fst (fst (MarkResult mc res now m env))) (resAuthID res) = Some (Some a') \<and>
    (canonicalModelKey model = canonicalModelKey (resModel res) \<longrightarrow> authModelAvailabilityBlock (Some a') model t = open_model) \<and>
    (canonicalModelKey model \<noteq> canonicalModelKey (resModel res) \<and> ModelStates a0 \<noteq> [] \<longrightarrow>
       authModelAvailabilityBlock (Some a') model t = authModelAvailabilityBlock (Some a0) model t)"
proof -
  let ?key = "canonicalModelKey (resModel res)"
  define b where "b = (recordRecentRequest now True a0)\<lparr>successCount := wrap64 (successCount (recordRecentRequest now True a0) + 1)\<rparr>"
  let ?a = "succeeded_model now ?key b"
  have ms: "ModelStates b = ModelStates a0" by (simp add: b_def)
  have key: "plain_key ?key" and now: "0 \<le> now" using assms(2,3) by (simp_all add: result_ok_def)
  have ok: "states_ok (ModelStates b)" using table_ok_entry [OF assms(1,4)] by (simp add: ms)
  obtain st where ch: "changed b ?a ?key (resetModelState now st) now"
    using succeeded_model_changed [OF ok key now] by blast
  have "marked mc res ?key now (recordRecentRequest now True a0) = ?a"
    using assms(3,6) by (simp add: marked_def b_def)
  then have "glookup (fst (fst (MarkResult mc res now m env))) (resAuthID res) = Some (Some ?a)"
    using markLocked_steps [OF assms(4), of mc ?key now env] assms(6)
    by (auto simp: MarkResult_fst [OF assms(5)] glookup_put)
  moreover have "model_block (resetModelState now st) t = open_model"
    by (simp add: model_block_def resetModelState_def availabilityBlock_def)
  moreover have "authModelAvailabilityBlock (Some b) model t = authModelAvailabilityBlock (Some a0) model t"
    if "ModelStates a0 \<noteq> []"
    using that assms(8) by (simp add: authModelAvailabilityBlock_def ms)
  ultimately show ?thesis
    using changed_availability [OF ch key reset_ok now assms(7,8)]
      changed_isolated [OF ch ok _ key reset_ok now assms(7,8)] by (auto simp: ms)
qed

section \<open>Concrete results\<close>

definition exampleManager :: manager_config where
  "exampleManager = \<lparr>mcGjson = \<lparr>gjsonValid = (\<lambda>_. False), gjsonGet = (\<lambda>_ _. '''')\<rparr>,
     mcDigest = (\<lambda>s. s), mcKeepActive = True, mcTransientSeconds = 0, mcCoolingDisabled = (\<lambda>_. False),
     mcTrackCooldowns = False, mcAffinityActive = False, mcOverdraftInjected = False, mcStickySession = '''',
     mcFresh = ''r'', mcStamp = ''s''\<rparr>"

definition exampleResult :: "failure option \<Rightarrow> execution_result" where
  "exampleResult err = \<lparr>resAuthID = ''a'', resModel = ''m'', resSuccess = (err = None), resRetryAfter = None, resError = err\<rparr>"

abbreviation exampleTerminal :: failure where
  "exampleTerminal \<equiv> \<lparr>failureError = \<lparr>errCode = terminalCredentialErrorCode, errMessage = '''', errRetryable = False, HTTPStatus = 401\<rparr>,
     failureKind = None, failureEvidence = None\<rparr>"

abbreviation exampleTable :: auth_table where
  "exampleTable \<equiv> [(''a'', Some (exampleAuth ''a'' []))]"

lemma example_table: "table_ok exampleTable"
  by (simp add: table_ok_def gomap_ok_def example_states, simp add: exampleAuth_def)

lemma example_result: "result_ok (exampleResult err) ''m'' 5" "canonicalModelKey (resModel (exampleResult err)) = ''m''"
  by (simp_all add: result_ok_def exampleResult_def example_model hint_ok_def)

lemma example_terminal: "isTerminalCredentialResultError (result_error (Some exampleTerminal))"
  by code_simp

lemma MarkResult_table_witness:
  "table_ok (fst (fst (MarkResult exampleManager (exampleResult (Some exampleTerminal)) 5 exampleTable (\<lambda>_. newRuntimeLimits))))"
  using MarkResult_table [OF example_table, of "exampleResult (Some exampleTerminal)" 5 exampleManager]
  unfolding example_result(2) by (simp add: example_result(1))

lemma MarkResult_disables_witness:
  "\<exists>c'. glookup (fst (fst (MarkResult exampleManager (exampleResult (Some exampleTerminal)) 5 exampleTable
      (\<lambda>_. newRuntimeLimits)))) ''a'' = Some (Some c') \<and> Disabled c'"
  using MarkResult_disables [OF example_table, of "exampleResult (Some exampleTerminal)" 5 "''a''" "exampleAuth ''a'' []"
      "exampleAuth ''a'' []" _ exampleManager "\<lambda>_. newRuntimeLimits", OF _ _ _ _ refl] example_terminal
  unfolding example_result(2) by (auto simp: example_result(1)) (auto simp: exampleResult_def)

lemma MarkResult_success_opens_witness:
  "\<exists>a'. glookup (fst (fst (MarkResult exampleManager (exampleResult None) 5 exampleTable (\<lambda>_. newRuntimeLimits)))) ''a'' =
     Some (Some a') \<and> authModelAvailabilityBlock (Some a') ''m'' 6 = open_model"
  using MarkResult_success_opens [OF example_table, of "exampleResult None" 5 "exampleAuth ''a'' []" 6 "''m''" exampleManager
      "\<lambda>_. newRuntimeLimits"]
  unfolding example_result(2) by (auto simp: example_result(1)) (auto simp: exampleResult_def example_model)

end
