(* ===== verification/SessionCache.thy ===== *)
theory SessionCache
  imports GoTime
begin

text \<open>
  The session cache of \<open>sdk/cliproxy/auth/session_cache.go\<close>: which credential a session is bound
  to. One logical session may be known by several identifiers; they form a group, and every
  identifier of the group holds a copy of the same entry, which lists them.

  Every operation that takes the lock is one step. The clock is an argument, one for each
  reading. The eviction loop of \<open>enforceLimitLocked\<close> is a partial function: that it ends is a
  theorem about the caches the operations can build, not a matter of its shape.
\<close>

abbreviation maxStableSessionAliases :: nat where "maxStableSessionAliases \<equiv> 64"

record sessionEntry =
  seAuthID :: string
  seExpiresAt :: gotime
  seAliases :: "string list"
  seBoundAt :: gotime
  seHits :: int

type_synonym session_entries = "(string, sessionEntry) gomap"

record SessionCache =
  scEntries :: session_entries
  scTtl :: duration
  scMaxEntries :: int
  scMaxHits :: int
  scMaxAge :: duration

definition NewSessionCacheWithBounds :: "duration \<Rightarrow> int \<Rightarrow> int \<Rightarrow> duration \<Rightarrow> SessionCache" where
  "NewSessionCacheWithBounds ttl maxEntries maxHits maxAge =
     \<lparr>scEntries = [], scTtl = (if ttl \<le> 0 then 30 * minute else ttl), scMaxEntries = maxEntries,
      scMaxHits = maxHits, scMaxAge = maxAge\<rparr>"

definition NewSessionCacheWithLimit :: "duration \<Rightarrow> int \<Rightarrow> SessionCache" where
  "NewSessionCacheWithLimit ttl maxEntries = NewSessionCacheWithBounds ttl maxEntries 0 0"

definition NewSessionCache :: "duration \<Rightarrow> SessionCache" where
  "NewSessionCache ttl = NewSessionCacheWithLimit ttl 0"

section \<open>Lists of identifiers\<close>

text \<open>\<open>strings.Cut(alias, "::")\<close>: what follows the first double colon.\<close>

fun after_colons :: "string \<Rightarrow> string option" where
  "after_colons (c # d # cs) = (if c = CHR '':'' \<and> d = CHR '':'' then Some cs else after_colons (d # cs))"
| "after_colons _ = None"

definition isLocalPromptCacheSessionAlias :: "string \<Rightarrow> bool" where
  "isLocalPromptCacheSessionAlias alias =
     (if has_prefix alias ''pck:'' then True
      else case after_colons alias of None \<Rightarrow> False | Some sessionAndModel \<Rightarrow> has_prefix sessionAndModel ''pck:'')"

text \<open>The loop, with whether a prompt-cache key was kept and how many other identifiers were.\<close>

fun compactLoop :: "(string \<Rightarrow> bool) \<Rightarrow> string list \<Rightarrow> bool \<Rightarrow> nat \<Rightarrow> string list" where
  "compactLoop isPrompt [] hasPrompt kept = []"
| "compactLoop isPrompt (alias # rest) hasPrompt kept =
     (if isPrompt alias
      then (if hasPrompt then compactLoop isPrompt rest hasPrompt kept
            else alias # compactLoop isPrompt rest True kept)
      else if kept \<ge> maxStableSessionAliases then compactLoop isPrompt rest hasPrompt kept
      else alias # compactLoop isPrompt rest hasPrompt (kept + 1))"

definition compactSessionAliasesWith :: "(string \<Rightarrow> bool) \<Rightarrow> string list \<Rightarrow> string list" where
  "compactSessionAliasesWith isPrompt aliases = compactLoop isPrompt aliases False 0"

definition compactSessionAliases :: "string list \<Rightarrow> string list" where
  "compactSessionAliases aliases = compactSessionAliasesWith isLocalPromptCacheSessionAlias aliases"

definition compactHomeSessionAliases :: "string list \<Rightarrow> string list" where
  "compactHomeSessionAliases aliases = compactSessionAliasesWith (\<lambda>alias. has_prefix alias ''pck:'') aliases"

definition addAlias :: "string \<Rightarrow> string list \<Rightarrow> string list" where
  "addAlias alias aliases = (if alias = '''' \<or> alias \<in> set aliases then aliases else aliases @ [alias])"

definition mergeSessionAliases :: "string list \<Rightarrow> string list \<Rightarrow> string list" where
  "mergeSessionAliases existing candidates = fold addAlias candidates (fold addAlias existing [])"

definition equalSessionAliases :: "string list \<Rightarrow> string list \<Rightarrow> bool" where
  "equalSessionAliases left right \<longleftrightarrow> length left = length right \<and> list_all2 (=) left right"

section \<open>Groups\<close>

definition same_group :: "sessionEntry \<Rightarrow> sessionEntry \<Rightarrow> bool" where
  "same_group current entry \<longleftrightarrow>
     seAuthID current = seAuthID entry \<and> seExpiresAt current = seExpiresAt entry \<and>
     equalSessionAliases (seAliases current) (seAliases entry)"

definition removeAliasGroupLocked :: "sessionEntry \<Rightarrow> session_entries \<Rightarrow> session_entries" where
  "removeAliasGroupLocked entry m =
     fold (\<lambda>alias m. case glookup m alias of
             None \<Rightarrow> m
           | Some current \<Rightarrow> if same_group current entry then gdel alias m else m)
       (seAliases entry) m"

definition boundState :: "string \<Rightarrow> gotime \<Rightarrow> sessionEntry list \<Rightarrow> gotime \<times> int" where
  "boundState authID now previousGroups =
     fold (\<lambda>previous (boundAt, hits).
             if seAuthID previous \<noteq> authID then (boundAt, hits)
             else (if seBoundAt previous \<noteq> zeroTime \<and> (boundAt = now \<or> seBoundAt previous < boundAt)
                   then seBoundAt previous else boundAt,
                   if seHits previous > hits then seHits previous else hits))
       previousGroups (now, 1)"

definition replaceAliasGroupsLocked ::
  "gotime \<Rightarrow> string \<Rightarrow> gotime \<Rightarrow> string list \<Rightarrow> sessionEntry list \<Rightarrow> session_entries \<Rightarrow> session_entries" where
  "replaceAliasGroupsLocked now authID expiresAt aliases previousGroups m =
     (let (boundAt, hits) = boundState authID now previousGroups;
          m = fold removeAliasGroupLocked previousGroups m;
          entry = \<lparr>seAuthID = authID, seExpiresAt = expiresAt, seAliases = aliases, seBoundAt = boundAt, seHits = hits\<rparr>
      in fold (\<lambda>alias m. gput alias entry m) aliases m)"

text \<open>The oldest entry is the first with the least expiry in the order the map is walked in.\<close>

definition oldestEntry :: "session_entries \<Rightarrow> sessionEntry option" where
  "oldestEntry m =
     fold (\<lambda>(_, entry) oldest. case oldest of
             None \<Rightarrow> Some entry
           | Some o' \<Rightarrow> if seExpiresAt entry < seExpiresAt o' then Some entry else Some o')
       m None"

partial_function (option) enforceLoop :: "int \<Rightarrow> session_entries \<Rightarrow> session_entries option" where
  "enforceLoop maxEntries m =
     (if int (length m) > maxEntries
      then (case oldestEntry m of
              None \<Rightarrow> Some m
            | Some oldest \<Rightarrow> enforceLoop maxEntries (removeAliasGroupLocked oldest m))
      else Some m)"

definition enforceLimitLocked :: "int \<Rightarrow> session_entries \<Rightarrow> session_entries option" where
  "enforceLimitLocked maxEntries m = (if maxEntries \<le> 0 then Some m else enforceLoop maxEntries m)"

section \<open>Operations\<close>

text \<open>
  \<open>Get\<close> first reads under the read lock; only an expired entry makes it take the write lock and
  read again, so other operations may run between the two parts.
\<close>

definition GetFast :: "string \<Rightarrow> gotime \<Rightarrow> SessionCache \<Rightarrow> string option option" where
  "GetFast sessionID now c =
     (if sessionID = '''' then Some None
      else case glookup (scEntries c) sessionID of
             None \<Rightarrow> Some None
           | Some entry \<Rightarrow> if now < seExpiresAt entry then Some (Some (seAuthID entry)) else None)"

definition GetSlow :: "string \<Rightarrow> gotime \<Rightarrow> SessionCache \<Rightarrow> string option \<times> SessionCache" where
  "GetSlow sessionID now c =
     (case glookup (scEntries c) sessionID of
        None \<Rightarrow> (None, c)
      | Some entry \<Rightarrow>
          if now < seExpiresAt entry then (Some (seAuthID entry), c)
          else (None, c\<lparr>scEntries := removeAliasGroupLocked entry (scEntries c)\<rparr>))"

definition Get :: "string \<Rightarrow> gotime \<Rightarrow> gotime \<Rightarrow> SessionCache \<Rightarrow> string option \<times> SessionCache" where
  "Get sessionID now now' c =
     (case GetFast sessionID now c of Some r \<Rightarrow> (r, c) | None \<Rightarrow> GetSlow sessionID now' c)"

definition GetAndRefresh :: "string \<Rightarrow> gotime \<Rightarrow> gotime \<Rightarrow> SessionCache \<Rightarrow> string option \<times> SessionCache" where
  "GetAndRefresh sessionID now now' c =
     (if sessionID = '''' then (None, c)
      else case glookup (scEntries c) sessionID of
        None \<Rightarrow> (None, c)
      | Some entry \<Rightarrow>
          if \<not> now < seExpiresAt entry \<or>
             (scMaxHits c > 0 \<and> seHits entry \<ge> scMaxHits c) \<or>
             (scMaxAge c > 0 \<and> seBoundAt entry \<noteq> zeroTime \<and> now - seBoundAt entry \<ge> scMaxAge c)
          then (None, c\<lparr>scEntries := removeAliasGroupLocked entry (scEntries c)\<rparr>)
          else let entry = entry\<lparr>seHits := wrap64 (seHits entry + 1)\<rparr>;
                   aliases = compactSessionAliases (mergeSessionAliases [sessionID] (seAliases entry))
               in (Some (seAuthID entry),
                   c\<lparr>scEntries := replaceAliasGroupsLocked now' (seAuthID entry) (now + scTtl c) aliases [entry] (scEntries c)\<rparr>))"

text \<open>The loop over the identifiers: the aliases and the groups collected so far.\<close>

fun collectGroups ::
  "gotime \<Rightarrow> string list \<Rightarrow> string list \<Rightarrow> sessionEntry list \<Rightarrow> session_entries \<Rightarrow>
     (string list \<times> sessionEntry list) \<times> session_entries" where
  "collectGroups now [] aliases groups m = ((aliases, groups), m)"
| "collectGroups now (sessionID # rest) aliases groups m =
     (case glookup m sessionID of
        None \<Rightarrow> collectGroups now rest aliases groups m
      | Some entry \<Rightarrow>
          if \<not> now < seExpiresAt entry then collectGroups now rest aliases groups (removeAliasGroupLocked entry m)
          else collectGroups now rest (mergeSessionAliases aliases (seAliases entry)) (groups @ [entry]) m)"

text \<open>\<open>None\<close> would be an eviction loop that does not end.\<close>

definition SetAliases :: "string \<Rightarrow> string list \<Rightarrow> gotime \<Rightarrow> gotime \<Rightarrow> SessionCache \<Rightarrow> SessionCache option" where
  "SetAliases authID sessionIDs now now' c =
     (if authID = '''' then Some c
      else let ((aliases, previousGroups), m) =
                 collectGroups now sessionIDs (mergeSessionAliases [] sessionIDs) [] (scEntries c);
               aliases = compactSessionAliases aliases
           in if aliases = [] then Some (c\<lparr>scEntries := m\<rparr>)
              else map_option (\<lambda>m. c\<lparr>scEntries := m\<rparr>)
                     (enforceLimitLocked (scMaxEntries c)
                       (replaceAliasGroupsLocked now' authID (now + scTtl c) aliases previousGroups m)))"

definition setSession :: "string \<Rightarrow> string \<Rightarrow> gotime \<Rightarrow> gotime \<Rightarrow> SessionCache \<Rightarrow> SessionCache option" where
  "setSession sessionID authID now now' c = SetAliases authID [sessionID] now now' c"

text \<open>The loop of \<open>Invalidate\<close> over the other identifiers of the group.\<close>

definition dropAlias :: "string \<Rightarrow> sessionEntry \<Rightarrow> string \<Rightarrow> session_entries \<Rightarrow> session_entries" where
  "dropAlias sessionID entry alias m =
     (if alias = sessionID then m
      else case glookup m alias of
             None \<Rightarrow> m
           | Some current \<Rightarrow>
               if seAuthID current \<noteq> seAuthID entry then m
               else gput alias (current\<lparr>seAliases := filter (\<lambda>candidate. candidate \<noteq> sessionID) (seAliases current)\<rparr>) m)"

definition InvalidateSession :: "string \<Rightarrow> SessionCache \<Rightarrow> SessionCache" where
  "InvalidateSession sessionID c =
     (if sessionID = '''' then c
      else let m = gdel sessionID (scEntries c)
           in c\<lparr>scEntries := (case glookup (scEntries c) sessionID of
                               None \<Rightarrow> m
                             | Some entry \<Rightarrow> fold (dropAlias sessionID entry) (seAliases entry) m)\<rparr>)"

definition InvalidateAuth :: "string \<Rightarrow> SessionCache \<Rightarrow> SessionCache" where
  "InvalidateAuth authID c =
     (if authID = '''' then c else c\<lparr>scEntries := filter (\<lambda>(_, entry). seAuthID entry \<noteq> authID) (scEntries c)\<rparr>)"

definition cleanup :: "gotime \<Rightarrow> SessionCache \<Rightarrow> SessionCache" where
  "cleanup now c = c\<lparr>scEntries := filter (\<lambda>(_, entry). now < seExpiresAt entry) (scEntries c)\<rparr>"

end
