(* ===== verification/SessionCacheProps.thy ===== *)
theory SessionCacheProps
  imports SessionCache
begin

text \<open>
  Facts about the session cache: the identifiers of a session stay one group in every reachable
  cache, so the eviction loop ends; a binding serves a bounded number of requests, and a new
  binding is found until it expires.
\<close>

section \<open>Removing a group\<close>

lemma same_group_iff:
  "same_group c e \<longleftrightarrow> seAuthID c = seAuthID e \<and> seExpiresAt c = seExpiresAt e \<and> seAliases c = seAliases e"
  by (auto simp: same_group_def equalSessionAliases_def list.rel_eq)

lemma remove_keeps_ok: "gomap_ok m \<Longrightarrow> gomap_ok (removeAliasGroupLocked e m)"
proof -
  have "gomap_ok m \<Longrightarrow> gomap_ok (fold (\<lambda>alias m. case glookup m alias of
             None \<Rightarrow> m | Some current \<Rightarrow> if same_group current e then gdel alias m else m) as m)" for as
    by (induction as arbitrary: m) (auto split: option.split)
  then show "gomap_ok m \<Longrightarrow> gomap_ok (removeAliasGroupLocked e m)" by (simp add: removeAliasGroupLocked_def)
qed

lemma remove_lookup:
  "glookup (removeAliasGroupLocked e m) a =
    (case glookup m a of Some c \<Rightarrow> if a \<in> set (seAliases e) \<and> same_group c e then None else Some c | None \<Rightarrow> None)"
proof -
  have "glookup (fold (\<lambda>alias m. case glookup m alias of
             None \<Rightarrow> m | Some current \<Rightarrow> if same_group current e then gdel alias m else m) as m) a =
    (case glookup m a of Some c \<Rightarrow> if a \<in> set as \<and> same_group c e then None else Some c | None \<Rightarrow> None)" for as
    by (induction as arbitrary: m) (auto simp: glookup_del split: option.split)
  then show ?thesis by (simp add: removeAliasGroupLocked_def)
qed

text \<open>
  The invariant: every identifier of an entry holds that entry, the entry lists each
  identifier once, and among them the one it is found under.
\<close>

definition groups_ok :: "session_entries \<Rightarrow> bool" where
  "groups_ok m \<longleftrightarrow> gomap_ok m \<and> (\<forall>k e. glookup m k = Some e \<longrightarrow>
     k \<in> set (seAliases e) \<and> distinct (seAliases e) \<and> (\<forall>a \<in> set (seAliases e). glookup m a = Some e))"

lemma groups_okD:
  assumes "groups_ok m" "glookup m k = Some e"
  shows "k \<in> set (seAliases e)" "distinct (seAliases e)" "a \<in> set (seAliases e) \<Longrightarrow> glookup m a = Some e"
  using assms unfolding groups_ok_def by blast+

lemma groups_ok_map: "groups_ok m \<Longrightarrow> gomap_ok m"
  unfolding groups_ok_def by blast

lemma groups_okI:
  assumes "gomap_ok m" "\<And>k e. glookup m k = Some e \<Longrightarrow>
     k \<in> set (seAliases e) \<and> distinct (seAliases e) \<and> (\<forall>a \<in> set (seAliases e). glookup m a = Some e)"
  shows "groups_ok m"
  using assms unfolding groups_ok_def by blast

lemma remove_groups_ok:
  assumes "groups_ok m"
  shows "groups_ok (removeAliasGroupLocked e m)"
proof -
  have "k \<in> set (seAliases c) \<and> distinct (seAliases c) \<and>
        (\<forall>a \<in> set (seAliases c). glookup (removeAliasGroupLocked e m) a = Some c)"
    if k: "glookup (removeAliasGroupLocked e m) k = Some c" for k c
  proof -
    have c: "glookup m k = Some c" "\<not> (k \<in> set (seAliases e) \<and> same_group c e)"
      using k by (auto simp: remove_lookup split: option.splits if_splits)
    note g = groups_okD [OF assms c(1)]
    have "\<not> same_group c e" using c(2) g(1) by (auto simp: same_group_iff)
    then show ?thesis using g by (auto simp: remove_lookup)
  qed
  then show ?thesis by (intro groups_okI remove_keeps_ok groups_ok_map [OF assms])
qed

lemma remove_smaller:
  assumes "groups_ok m" "glookup m k = Some e"
  shows "length (removeAliasGroupLocked e m) < length m"
proof -
  have len: "length x = card (fst ` set x)" if "gomap_ok x" for x :: session_entries
    using that distinct_card [of "map fst x"] by (simp add: gomap_ok_def)
  have ok: "gomap_ok m" "gomap_ok (removeAliasGroupLocked e m)"
    using groups_ok_map [OF assms(1)] remove_keeps_ok by blast+
  have "fst ` set (removeAliasGroupLocked e m) \<subseteq> fst ` set m"
  proof
    fix a assume "a \<in> fst ` set (removeAliasGroupLocked e m)"
    then have "glookup (removeAliasGroupLocked e m) a \<noteq> None" by (simp only: glookup_in_keys not_False_eq_True)
    then have "glookup m a \<noteq> None" by (auto simp: remove_lookup split: option.splits)
    then show "a \<in> fst ` set m" by (simp only: glookup_in_keys)
  qed
  moreover have "glookup (removeAliasGroupLocked e m) k = None"
    using assms groups_okD(1) [OF assms] by (simp add: remove_lookup same_group_iff)
  then have "k \<notin> fst ` set (removeAliasGroupLocked e m)" by (metis glookup_in_keys)
  moreover have "k \<in> fst ` set m" using assms(2) by (metis glookup_in_keys option.distinct(1))
  ultimately have "fst ` set (removeAliasGroupLocked e m) \<subset> fst ` set m" by blast
  then show ?thesis by (simp add: len [OF ok(1)] len [OF ok(2)] psubset_card_mono)
qed

section \<open>The eviction loop ends\<close>

lemma oldest_step:
  "fold (\<lambda>(_, entry) oldest. case oldest of
             None \<Rightarrow> Some entry
           | Some o' \<Rightarrow> if seExpiresAt entry < seExpiresAt o' then Some entry else Some o') m (Some o0) =
   (case oldestEntry m of None \<Rightarrow> Some o0 | Some e \<Rightarrow> if seExpiresAt e < seExpiresAt o0 then Some e else Some o0)"
  unfolding oldestEntry_def
proof (induction m arbitrary: o0)
  case (Cons ke m)
  obtain k e where ke: "ke = (k, e)" by fastforce
  show ?case
    using Cons.IH [of o0] Cons.IH [of e]
    by (auto simp: ke split: option.splits if_splits)
qed simp

lemma oldest_Cons:
  "oldestEntry ((k, e) # m) = (case oldestEntry m of None \<Rightarrow> Some e | Some e' \<Rightarrow> if seExpiresAt e' < seExpiresAt e then Some e' else Some e)"
  using oldest_step [of m e] by (simp add: oldestEntry_def)

lemma oldest_spec:
  "m \<noteq> [] \<Longrightarrow> \<exists>k e. oldestEntry m = Some e \<and> (k, e) \<in> set m \<and> (\<forall>(k', e') \<in> set m. seExpiresAt e \<le> seExpiresAt e')"
proof (induction m)
  case (Cons ke m)
  obtain k e where ke: "ke = (k, e)" by fastforce
  show ?case
  proof (cases "m = []")
    case True
    then show ?thesis by (simp add: ke oldestEntry_def)
  next
    case False
    then obtain k' e' where "oldestEntry m = Some e'" "(k', e') \<in> set m" "\<forall>(k'', e'') \<in> set m. seExpiresAt e' \<le> seExpiresAt e''"
      using Cons.IH by blast
    then show ?thesis using oldest_Cons [of k e m]
      by (cases "seExpiresAt e' < seExpiresAt e") (auto simp: ke intro: order_trans less_imp_le)
  qed
qed simp

lemma enforceLoop_ends:
  assumes "groups_ok m" "0 < n"
  shows "\<exists>m'. enforceLoop n m = Some m' \<and> groups_ok m' \<and> int (length m') \<le> n \<and> glookup m' \<subseteq>\<^sub>m glookup m"
  using assms(1)
proof (induction "length m" arbitrary: m rule: less_induct)
  case less
  show ?case
  proof (cases "int (length m) > n")
    case False
    then show ?thesis using less.prems by (simp add: enforceLoop.simps)
  next
    case True
    then have "m \<noteq> []" using assms(2) by auto
    then obtain k e where e: "oldestEntry m = Some e" "(k, e) \<in> set m" using oldest_spec by blast
    then have k: "glookup m k = Some e" using groups_ok_map [OF less.prems] by (simp add: gomap_mem)
    let ?m = "removeAliasGroupLocked e m"
    obtain m' where "enforceLoop n ?m = Some m'" "groups_ok m'" "int (length m') \<le> n" "glookup m' \<subseteq>\<^sub>m glookup ?m"
      using less.hyps [OF remove_smaller [OF less.prems k] remove_groups_ok [OF less.prems]] by blast
    moreover have "glookup ?m \<subseteq>\<^sub>m glookup m" by (auto simp: map_le_def remove_lookup split: option.splits if_splits)
    ultimately show ?thesis using True e(1) by (auto simp: enforceLoop.simps [of n m] intro: map_le_trans)
  qed
qed

section \<open>Lists of identifiers, again\<close>

lemma fold_addAlias:
  "distinct xs \<Longrightarrow> distinct (fold addAlias ys xs) \<and> set (fold addAlias ys xs) = set xs \<union> (set ys - {''''}) \<and>
   (\<exists>zs. fold addAlias ys xs = xs @ zs)"
proof (induction ys arbitrary: xs)
  case (Cons y ys)
  have "distinct (addAlias y xs)" using Cons.prems by (simp add: addAlias_def)
  from Cons.IH [OF this] show ?case by (auto simp: addAlias_def split: if_splits)
qed simp

lemma merge_spec:
  "distinct (mergeSessionAliases xs ys) \<and> set (mergeSessionAliases xs ys) = (set xs \<union> set ys) - {''''}"
  using fold_addAlias [of "[]" xs] fold_addAlias [of "fold addAlias xs []" ys] by (auto simp: mergeSessionAliases_def)

lemma compactLoop_subset: "set (compactLoop f as h n) \<subseteq> set as"
  by (induction as arbitrary: h n) (simp_all, blast)

lemma compactLoop_distinct: "distinct as \<Longrightarrow> distinct (compactLoop f as h n)"
  using compactLoop_subset [of f] by (induction as arbitrary: h n) (simp_all, blast)

lemma compact_spec:
  assumes "distinct as"
  shows "distinct (compactSessionAliases as)" "set (compactSessionAliases as) \<subseteq> set as"
  using compactLoop_subset compactLoop_distinct [OF assms] by (simp_all add: compactSessionAliases_def compactSessionAliasesWith_def)

lemma compact_head: "as \<noteq> [] \<Longrightarrow> hd as \<in> set (compactSessionAliases as)"
  by (cases as) (simp_all add: compactSessionAliases_def compactSessionAliasesWith_def)

lemma compactLoop_length:
  "length (filter (\<lambda>a. \<not> f a) (compactLoop f as h n)) \<le> maxStableSessionAliases - n \<and>
   length (filter f (compactLoop f as h n)) \<le> (if h then 0 else 1)"
  by (induction f as h n rule: compactLoop.induct) auto

lemma compact_length: "length (compactSessionAliases as) \<le> maxStableSessionAliases + 1"
  using compactLoop_length [of isLocalPromptCacheSessionAlias as False 0]
    sum_length_filter_compl [of isLocalPromptCacheSessionAlias "compactSessionAliases as"]
  by (simp add: compactSessionAliases_def compactSessionAliasesWith_def)

section \<open>Replacing groups\<close>

lemma fold_remove_lookup:
  "glookup (fold removeAliasGroupLocked gs m) a =
    (case glookup m a of Some c \<Rightarrow> if \<exists>g \<in> set gs. a \<in> set (seAliases g) \<and> same_group c g then None else Some c | None \<Rightarrow> None)"
  by (induction gs arbitrary: m) (auto simp: remove_lookup split: option.splits)

lemma fold_remove_ok: "groups_ok m \<Longrightarrow> groups_ok (fold removeAliasGroupLocked gs m)"
  by (induction gs arbitrary: m) (auto intro: remove_groups_ok)

lemma fold_put_lookup:
  "glookup (fold (\<lambda>a m. gput a e m) as m) k = (if k \<in> set as then Some e else glookup m k)"
  by (induction as arbitrary: m) (auto simp: glookup_put)

lemma fold_put_ok: "gomap_ok m \<Longrightarrow> gomap_ok (fold (\<lambda>a m. gput a e m) as m)"
  by (induction as arbitrary: m) auto

abbreviation new_entry :: "string \<Rightarrow> gotime \<Rightarrow> string list \<Rightarrow> sessionEntry list \<Rightarrow> gotime \<Rightarrow> sessionEntry" where
  "new_entry authID expiresAt aliases previous now \<equiv>
     \<lparr>seAuthID = authID, seExpiresAt = expiresAt, seAliases = aliases,
      seBoundAt = fst (boundState authID now previous), seHits = snd (boundState authID now previous)\<rparr>"

lemma replace_lookup:
  "glookup (replaceAliasGroupsLocked now authID expiresAt aliases previous m) k =
     (if k \<in> set aliases then Some (new_entry authID expiresAt aliases previous now)
      else glookup (fold removeAliasGroupLocked previous m) k)"
  by (simp add: replaceAliasGroupsLocked_def fold_put_lookup split: prod.split)

text \<open>Nothing else is under a new identifier once the previous groups are gone.\<close>

definition owned :: "string list \<Rightarrow> sessionEntry list \<Rightarrow> session_entries \<Rightarrow> bool" where
  "owned aliases previous m \<longleftrightarrow> (\<forall>a \<in> set aliases. case glookup m a of None \<Rightarrow> True
     | Some c \<Rightarrow> (\<exists>g \<in> set previous. a \<in> set (seAliases g) \<and> same_group c g))"

lemma replace_ok:
  assumes "groups_ok m" "distinct aliases" "owned aliases previous m"
  shows "groups_ok (replaceAliasGroupsLocked now authID expiresAt aliases previous m)"
proof (rule groups_okI)
  let ?m = "fold removeAliasGroupLocked previous m"
  have ok: "groups_ok ?m" using assms(1) by (rule fold_remove_ok)
  show "gomap_ok (replaceAliasGroupsLocked now authID expiresAt aliases previous m)"
    using groups_ok_map [OF ok] by (simp add: replaceAliasGroupsLocked_def fold_put_ok split: prod.split)
  have gone: "glookup ?m a = None" if "a \<in> set aliases" for a
    using assms(3) that by (auto simp: owned_def fold_remove_lookup split: option.splits)
  fix k e assume k: "glookup (replaceAliasGroupsLocked now authID expiresAt aliases previous m) k = Some e"
  show "k \<in> set (seAliases e) \<and> distinct (seAliases e) \<and>
    (\<forall>a \<in> set (seAliases e). glookup (replaceAliasGroupsLocked now authID expiresAt aliases previous m) a = Some e)"
  proof (cases "k \<in> set aliases")
    case True
    then show ?thesis using k assms(2) by (auto simp: replace_lookup)
  next
    case False
    then have e: "glookup ?m k = Some e" using k by (simp add: replace_lookup)
    have "a \<notin> set aliases" if "a \<in> set (seAliases e)" for a
      using groups_okD(3) [OF ok e that] gone [of a] by auto
    then show ?thesis using groups_okD [OF ok e] by (auto simp: replace_lookup)
  qed
qed

lemma owned_remove: "owned aliases gs m \<Longrightarrow> owned aliases gs (removeAliasGroupLocked e m)"
  unfolding owned_def by (auto simp: remove_lookup split: option.splits)

lemma owned_more: "owned aliases gs m \<Longrightarrow> owned aliases (gs @ [g]) m"
  unfolding owned_def by (auto split: option.splits)

text \<open>
  What the loop of \<open>SetAliases\<close> leaves: an identifier still to be looked at may be held by
  anyone; every other one is free or in a collected group.
\<close>

lemma collect_spec:
  assumes "groups_ok m" "owned [a \<leftarrow> aliases. a \<notin> set ids] gs m" "distinct aliases"
    and "collectGroups now ids aliases gs m = ((aliases', gs'), m')"
  shows "groups_ok m' \<and> owned aliases' gs' m' \<and> distinct aliases' \<and> set aliases \<subseteq> set aliases' \<union> {''''} \<and>
    glookup m' \<subseteq>\<^sub>m glookup m"
  using assms
proof (induction ids arbitrary: aliases gs m)
  case (Cons i ids)
  show ?case
  proof (cases "glookup m i")
    case None
    have "owned [a \<leftarrow> aliases. a \<notin> set ids] gs m"
      using Cons.prems(2) None unfolding owned_def by auto
    then show ?thesis using Cons.IH [of m aliases gs] Cons.prems None by simp
  next
    case (Some e)
    note g = groups_okD [OF Cons.prems(1) Some]
    show ?thesis
    proof (cases "now < seExpiresAt e")
      case False
      have "glookup (removeAliasGroupLocked e m) i = None" using Some g(1) by (simp add: remove_lookup same_group_iff)
      then have "owned [a \<leftarrow> aliases. a \<notin> set ids] gs (removeAliasGroupLocked e m)"
        using owned_remove [OF Cons.prems(2), of e] unfolding owned_def by auto
      moreover have "glookup (removeAliasGroupLocked e m) \<subseteq>\<^sub>m glookup m"
        by (auto simp: map_le_def remove_lookup split: option.splits if_splits)
      ultimately show ?thesis
        using Cons.IH [OF remove_groups_ok [OF Cons.prems(1)], of aliases gs e] Cons.prems(3,4) Some False
        by (auto intro: map_le_trans)
    next
      case True
      let ?al = "mergeSessionAliases aliases (seAliases e)"
      have "owned [a \<leftarrow> ?al. a \<notin> set ids] (gs @ [e]) m"
        unfolding owned_def
      proof
        fix a assume a: "a \<in> set [a \<leftarrow> ?al. a \<notin> set ids]"
        show "case glookup m a of None \<Rightarrow> True | Some c \<Rightarrow> \<exists>g \<in> set (gs @ [e]). a \<in> set (seAliases g) \<and> same_group c g"
        proof (cases "a \<in> set (seAliases e)")
          case True
          then show ?thesis using g(3) by (auto simp: same_group_iff)
        next
          case False
          then have "a \<in> set [a \<leftarrow> aliases. a \<notin> set (i # ids)]" using a g(1) merge_spec [of aliases "seAliases e"] by auto
          then show ?thesis using Cons.prems(2) unfolding owned_def by (auto split: option.splits)
        qed
      qed
      moreover have "distinct ?al" "set aliases \<subseteq> set ?al \<union> {''''}" using merge_spec by auto
      ultimately show ?thesis using Cons.IH [of m ?al "gs @ [e]"] Cons.prems Some True by auto
    qed
  qed
qed auto

section \<open>Every operation keeps the groups\<close>

lemma boundState_hits:
  "1 \<le> snd (boundState authID now ps) \<and>
   (\<forall>n. 1 \<le> n \<and> (\<forall>p \<in> set ps. seHits p \<le> n) \<longrightarrow> snd (boundState authID now ps) \<le> n) \<and>
   (\<forall>p \<in> set ps. seAuthID p = authID \<longrightarrow> seHits p \<le> snd (boundState authID now ps))"
proof -
  have "h \<le> r \<and> (\<forall>n. h \<le> n \<and> (\<forall>p \<in> set ps. seHits p \<le> n) \<longrightarrow> r \<le> n) \<and> (\<forall>p \<in> set ps. seAuthID p = authID \<longrightarrow> seHits p \<le> r)"
    if "r = snd (fold (\<lambda>previous (boundAt, hits).
             if seAuthID previous \<noteq> authID then (boundAt, hits)
             else (if seBoundAt previous \<noteq> zeroTime \<and> (boundAt = now \<or> seBoundAt previous < boundAt)
                   then seBoundAt previous else boundAt,
                   if seHits previous > hits then seHits previous else hits)) ps (t, h))" for r t h
    using that
  proof (induction ps arbitrary: t h)
    case (Cons p ps)
    show ?case
    proof (cases "seAuthID p = authID")
      case True
      define h' where "h' = max h (seHits p)"
      have "(if seHits p > h then seHits p else h) = h'" by (simp add: h'_def)
      then show ?thesis using Cons.IH [of _ h'] Cons.prems True unfolding fold_Cons by (auto simp: h'_def)
    next
      case False
      then show ?thesis using Cons by auto
    qed
  qed auto
  then show ?thesis unfolding boundState_def by blast
qed
lemma dropAlias_lookup:
  "glookup (fold (dropAlias s e) as m) k =
    (if k \<in> set as \<and> k \<noteq> s
     then map_option (\<lambda>c. if seAuthID c = seAuthID e then c\<lparr>seAliases := filter (\<lambda>x. x \<noteq> s) (seAliases c)\<rparr> else c) (glookup m k)
     else glookup m k)"
  by (induction as arbitrary: m) (auto simp: dropAlias_def glookup_put split: option.split)

lemma dropAlias_ok: "gomap_ok m \<Longrightarrow> gomap_ok (fold (dropAlias s e) as m)"
  by (induction as arbitrary: m) (auto simp: dropAlias_def split: option.split)

lemma invalidate_lookup:
  assumes "groups_ok (scEntries c)" "s \<noteq> ''''"
  shows "glookup (scEntries (InvalidateSession s c)) k =
    (if k = s then None
     else case glookup (scEntries c) s of
            Some e \<Rightarrow> if k \<in> set (seAliases e) then Some (e\<lparr>seAliases := filter (\<lambda>x. x \<noteq> s) (seAliases e)\<rparr>) else glookup (scEntries c) k
          | None \<Rightarrow> glookup (scEntries c) k)"
proof (cases "glookup (scEntries c) s")
  case None
  then show ?thesis using assms(2) by (simp add: InvalidateSession_def glookup_del)
next
  case (Some e)
  then show ?thesis using assms(2) groups_okD(3) [OF assms(1) Some, of k]
    by (simp add: InvalidateSession_def glookup_del dropAlias_lookup)
qed

lemma invalidate_ok:
  assumes "groups_ok (scEntries c)"
  shows "groups_ok (scEntries (InvalidateSession s c))"
proof (cases "s = ''''")
  case False
  note look = invalidate_lookup [OF assms False]
  show ?thesis
  proof (rule groups_okI)
    show "gomap_ok (scEntries (InvalidateSession s c))"
      using groups_ok_map [OF assms] False by (auto simp: InvalidateSession_def Let_def dropAlias_ok split: option.split)
    fix k e assume k: "glookup (scEntries (InvalidateSession s c)) k = Some e"
    show "k \<in> set (seAliases e) \<and> distinct (seAliases e) \<and>
      (\<forall>a \<in> set (seAliases e). glookup (scEntries (InvalidateSession s c)) a = Some e)"
    proof (cases "glookup (scEntries c) s")
      case None
      then have e: "glookup (scEntries c) k = Some e" using k by (simp add: look split: if_splits)
      note g = groups_okD [OF assms e]
      show ?thesis using g None by (auto simp: look)
    next
      case (Some e0)
      note g0 = groups_okD [OF assms Some]
      show ?thesis
      proof (cases "k \<in> set (seAliases e0)")
        case True
        then show ?thesis using k g0 Some by (auto simp: look split: if_splits)
      next
        case False
        then have e: "glookup (scEntries c) k = Some e" "k \<noteq> s" using k Some by (simp_all add: look split: if_splits)
        note g = groups_okD [OF assms e(1)]
        have "a \<notin> set (seAliases e0)" if "a \<in> set (seAliases e)" for a
          using g(1) g(3) [OF that] g0(3) [of a] False by auto
        then have "a \<noteq> s \<and> a \<notin> set (seAliases e0)" if "a \<in> set (seAliases e)" for a using that g0(1) by auto
        then show ?thesis using g Some by (simp add: look)
      qed
    qed
  qed
qed (use assms in \<open>simp add: InvalidateSession_def\<close>)

lemma filter_groups_ok:
  assumes "groups_ok m"
  shows "groups_ok (filter (\<lambda>(_, e). P e) m)"
proof (rule groups_okI)
  have look: "glookup (filter (\<lambda>(_, e). P e) m) k = (case glookup m k of None \<Rightarrow> None | Some v \<Rightarrow> if P v then Some v else None)" for k
    by (rule glookup_filter [OF groups_ok_map [OF assms]])
  show "gomap_ok (filter (\<lambda>(_, e). P e) m)" using groups_ok_map [OF assms] by simp
  fix k e assume "glookup (filter (\<lambda>(_, e). P e) m) k = Some e"
  then have e: "glookup m k = Some e" "P e" by (auto simp: look split: option.splits if_splits)
  note g = groups_okD [OF assms e(1)]
  show "k \<in> set (seAliases e) \<and> distinct (seAliases e) \<and>
    (\<forall>a \<in> set (seAliases e). glookup (filter (\<lambda>(_, e). P e) m) a = Some e)"
    using g e(2) by (simp add: look)
qed

section \<open>The reachable caches\<close>

definition hits_ok :: "int \<Rightarrow> session_entries \<Rightarrow> bool" where
  "hits_ok n m \<longleftrightarrow> (0 < n \<longrightarrow> in_int64 n \<and> (\<forall>k e. glookup m k = Some e \<longrightarrow> 1 \<le> seHits e \<and> seHits e \<le> n))"

definition cache_ok :: "SessionCache \<Rightarrow> bool" where
  "cache_ok c \<longleftrightarrow> groups_ok (scEntries c) \<and> (0 < scMaxEntries c \<longrightarrow> int (length (scEntries c)) \<le> scMaxEntries c) \<and>
     hits_ok (scMaxHits c) (scEntries c)"

inductive session_step :: "SessionCache \<Rightarrow> SessionCache \<Rightarrow> bool" where
  get: "session_step c (snd (GetSlow sessionID now c))"
| refresh: "session_step c (snd (GetAndRefresh sessionID now now' c))"
| bind: "SetAliases authID sessionIDs now now' c = Some c' \<Longrightarrow> session_step c c'"
| drop: "session_step c (InvalidateSession sessionID c)"
| drop_auth: "session_step c (InvalidateAuth authID c)"
| sweep: "session_step c (cleanup now c)"

definition new_cache :: "SessionCache \<Rightarrow> bool" where
  "new_cache c \<longleftrightarrow> (\<exists>ttl n h a. in_int64 h \<and> c = NewSessionCacheWithBounds ttl n h a)"

lemma gomap_length_le:
  assumes "gomap_ok m" "gomap_ok m'" "\<And>k. glookup m' k \<noteq> None \<Longrightarrow> glookup m k \<noteq> None"
  shows "length m' \<le> length m"
proof -
  have "fst ` set m' \<subseteq> fst ` set m" using assms(3) unfolding glookup_in_keys by blast
  then have "card (fst ` set m') \<le> card (fst ` set m)" by (intro card_mono) simp_all
  then show ?thesis using assms(1,2) distinct_card [of "map fst m"] distinct_card [of "map fst m'"] by (simp add: gomap_ok_def)
qed

lemma cache_ok_sub:
  assumes "cache_ok c" "groups_ok m" "\<And>k. glookup m k \<noteq> None \<Longrightarrow> glookup (scEntries c) k \<noteq> None"
    and "\<And>k e. 0 < scMaxHits c \<Longrightarrow> in_int64 (scMaxHits c) \<Longrightarrow> glookup m k = Some e \<Longrightarrow>
      1 \<le> seHits e \<and> seHits e \<le> scMaxHits c"
  shows "cache_ok (c\<lparr>scEntries := m\<rparr>)"
proof -
  have "length m \<le> length (scEntries c)"
    using assms(1-3) groups_ok_map by (intro gomap_length_le) (auto simp: cache_ok_def)
  then show ?thesis using assms(1,2,4) by (auto simp: cache_ok_def hits_ok_def)
qed

lemma cache_ok_hits:
  "cache_ok c \<Longrightarrow> 0 < scMaxHits c \<Longrightarrow> glookup (scEntries c) k = Some e \<Longrightarrow> 1 \<le> seHits e \<and> seHits e \<le> scMaxHits c"
  by (auto simp: cache_ok_def hits_ok_def)

lemma cache_ok_groups: "cache_ok c \<Longrightarrow> groups_ok (scEntries c)"
  by (simp add: cache_ok_def)

lemma cache_ok_submap:
  assumes "cache_ok c" "groups_ok m" "glookup m \<subseteq>\<^sub>m glookup (scEntries c)"
  shows "cache_ok (c\<lparr>scEntries := m\<rparr>)"
  using assms(3) cache_ok_hits [OF assms(1)] by (intro cache_ok_sub assms(1,2)) (force simp: map_le_def dom_def)+

lemma remove_submap: "glookup (removeAliasGroupLocked e m) \<subseteq>\<^sub>m glookup m"
  by (auto simp: map_le_def remove_lookup split: option.splits if_splits)

lemma filter_submap: "gomap_ok m \<Longrightarrow> glookup (filter (\<lambda>(_, e). P e) m) \<subseteq>\<^sub>m glookup m"
  by (auto simp: map_le_def glookup_filter split: option.splits if_splits)

lemma cache_ok_remove: "cache_ok c \<Longrightarrow> cache_ok (c\<lparr>scEntries := removeAliasGroupLocked e (scEntries c)\<rparr>)"
  by (intro cache_ok_submap remove_groups_ok cache_ok_groups remove_submap)

lemma refresh_cases:
  assumes "cache_ok c" "GetAndRefresh sessionID now now' c = (r, c')"
  shows "(r = None \<and> (c' = c \<or> (\<exists>e. c' = c\<lparr>scEntries := removeAliasGroupLocked e (scEntries c)\<rparr>))) \<or>
    (\<exists>e aliases. glookup (scEntries c) sessionID = Some e \<and> r = Some (seAuthID e) \<and> (0 < scMaxHits c \<longrightarrow> seHits e < scMaxHits c) \<and>
      sessionID \<in> set aliases \<and> distinct aliases \<and> set aliases \<subseteq> set (seAliases e) \<and>
      c' = c\<lparr>scEntries := replaceAliasGroupsLocked now' (seAuthID e) (now + scTtl c) aliases
               [e\<lparr>seHits := wrap64 (seHits e + 1)\<rparr>] (scEntries c)\<rparr>)"
proof (cases "sessionID = '''' \<or> glookup (scEntries c) sessionID = None")
  case True
  then have "GetAndRefresh sessionID now now' c = (None, c)"
    by (elim disjE) (simp_all add: GetAndRefresh_def)
  then show ?thesis using assms(2) by simp
next
  case False
  then obtain e where s: "sessionID \<noteq> ''''" and e: "glookup (scEntries c) sessionID = Some e" by blast
  note g = groups_okD [OF cache_ok_groups [OF assms(1)] e]
  let ?as = "compactSessionAliases (mergeSessionAliases [sessionID] (seAliases e))"
  have m: "mergeSessionAliases [sessionID] (seAliases e) \<noteq> [] \<and> hd (mergeSessionAliases [sessionID] (seAliases e)) = sessionID"
    using fold_addAlias [of "[sessionID]" "seAliases e"] s by (auto simp: mergeSessionAliases_def addAlias_def)
  have "sessionID \<in> set ?as" using compact_head [of "mergeSessionAliases [sessionID] (seAliases e)"] m by simp
  moreover have "distinct ?as" "set ?as \<subseteq> set (seAliases e)"
    using compact_spec [of "mergeSessionAliases [sessionID] (seAliases e)"] merge_spec [of "[sessionID]" "seAliases e"] g(1) by auto
  moreover have "(r, c') = (if \<not> now < seExpiresAt e \<or> (scMaxHits c > 0 \<and> seHits e \<ge> scMaxHits c) \<or>
             (scMaxAge c > 0 \<and> seBoundAt e \<noteq> zeroTime \<and> now - seBoundAt e \<ge> scMaxAge c)
          then (None, c\<lparr>scEntries := removeAliasGroupLocked e (scEntries c)\<rparr>)
          else (Some (seAuthID e), c\<lparr>scEntries := replaceAliasGroupsLocked now' (seAuthID e) (now + scTtl c) ?as
               [e\<lparr>seHits := wrap64 (seHits e + 1)\<rparr>] (scEntries c)\<rparr>))"
    unfolding assms(2) [symmetric] GetAndRefresh_def Let_def using s e by simp
  ultimately show ?thesis using e by (auto split: if_split_asm)
qed

lemma refresh_hits:
  assumes "cache_ok c" "glookup (scEntries c) k = Some e" "0 < scMaxHits c" "seHits e < scMaxHits c"
  shows "wrap64 (seHits e + 1) = seHits e + 1"
proof -
  have "in_int64 (scMaxHits c)" using assms(1,3) by (simp add: cache_ok_def hits_ok_def)
  then have "in_int64 (seHits e + 1)" using cache_ok_hits [OF assms(1,3,2)] assms(4) by (simp add: in_int64_def)
  then show ?thesis by simp
qed

lemma refresh_ok:
  assumes "cache_ok c"
  shows "cache_ok (snd (GetAndRefresh sessionID now now' c))"
proof -
  obtain r c' where r: "GetAndRefresh sessionID now now' c = (r, c')" by fastforce
  from refresh_cases [OF assms r] show ?thesis
  proof (elim disjE exE conjE)
    fix e :: sessionEntry and aliases
    let ?e = "e\<lparr>seHits := wrap64 (seHits e + 1)\<rparr>"
    assume e: "glookup (scEntries c) sessionID = Some e" and h: "0 < scMaxHits c \<longrightarrow> seHits e < scMaxHits c"
      and al: "distinct aliases" "set aliases \<subseteq> set (seAliases e)"
      and c': "c' = c\<lparr>scEntries := replaceAliasGroupsLocked now' (seAuthID e) (now + scTtl c) aliases [?e] (scEntries c)\<rparr>"
    note ok = cache_ok_groups [OF assms]
    note g = groups_okD [OF ok e]
    have "owned aliases [?e] (scEntries c)" using g(3) al(2) by (auto simp: owned_def same_group_iff)
    note rep = replace_ok [OF ok al(1) this, of now' "seAuthID e" "now + scTtl c"]
    have hits: "snd (boundState (seAuthID e) now' [?e]) \<le> scMaxHits c" "1 \<le> snd (boundState (seAuthID e) now' [?e])"
      if "0 < scMaxHits c"
      using boundState_hits [of "seAuthID e" now' "[?e]"] refresh_hits [OF assms e that] h that by auto
    show ?thesis unfolding r snd_conv c'
    proof (rule cache_ok_sub [OF assms rep])
      fix k assume "glookup (replaceAliasGroupsLocked now' (seAuthID e) (now + scTtl c) aliases [?e] (scEntries c)) k \<noteq> None"
      then show "glookup (scEntries c) k \<noteq> None"
        using g(3) [of k] al(2) by (auto simp: replace_lookup remove_lookup split: if_splits option.splits)
    next
      fix k e' assume n: "0 < scMaxHits c"
        and k: "glookup (replaceAliasGroupsLocked now' (seAuthID e) (now + scTtl c) aliases [?e] (scEntries c)) k = Some e'"
      then show "1 \<le> seHits e' \<and> seHits e' \<le> scMaxHits c"
        using hits [OF n] cache_ok_hits [OF assms n, of k]
        by (auto simp: replace_lookup remove_lookup split: if_splits option.splits)
    qed
  qed (auto simp: r assms intro: cache_ok_remove)
qed

lemma map_leD: "f \<subseteq>\<^sub>m g \<Longrightarrow> f k = Some v \<Longrightarrow> g k = Some v"
  by (force simp: map_le_def dom_def)

lemma collect_hits:
  assumes "collectGroups now ids aliases gs m = ((aliases', gs'), m')"
  shows "set gs' \<subseteq> set gs \<union> {e. \<exists>k. glookup m k = Some e}"
  using assms
proof (induction ids arbitrary: aliases gs m)
  case (Cons i ids)
  show ?case
  proof (cases "glookup m i")
    case None
    then show ?thesis using Cons.IH [of aliases gs m] Cons.prems by simp
  next
    case (Some e)
    show ?thesis
    proof (cases "now < seExpiresAt e")
      case False
      have "glookup m k = Some x" if "glookup (removeAliasGroupLocked e m) k = Some x" for k x
        using that by (auto simp: remove_lookup split: option.splits if_splits)
      then show ?thesis
        using Cons.IH [of aliases gs "removeAliasGroupLocked e m"] Cons.prems Some False by simp blast
    next
      case True
      then show ?thesis using Cons.IH [of _ "gs @ [e]" m] Cons.prems Some by auto
    qed
  qed
qed simp

lemma enforce_ends:
  assumes "groups_ok m"
  shows "\<exists>m'. enforceLimitLocked n m = Some m' \<and> groups_ok m' \<and> (0 < n \<longrightarrow> int (length m') \<le> n) \<and> glookup m' \<subseteq>\<^sub>m glookup m"
  using enforceLoop_ends [OF assms, of n] assms by (cases "0 < n") (auto simp: enforceLimitLocked_def)

text \<open>What \<open>SetAliases\<close> returns on a well-formed cache.\<close>

lemma SetAliases_cases:
  assumes "cache_ok c"
  shows "\<exists>m. SetAliases authID ids now now' c = Some (c\<lparr>scEntries := m\<rparr>) \<and> groups_ok m \<and>
    (0 < scMaxEntries c \<longrightarrow> int (length m) \<le> scMaxEntries c) \<and>
    (glookup m \<subseteq>\<^sub>m glookup (scEntries c) \<or>
     (\<exists>aliases gs m1. authID \<noteq> '''' \<and> set gs \<subseteq> {e. \<exists>k. glookup (scEntries c) k = Some e} \<and> glookup m1 \<subseteq>\<^sub>m glookup (scEntries c) \<and>
        glookup m \<subseteq>\<^sub>m glookup (replaceAliasGroupsLocked now' authID (now + scTtl c) aliases gs m1)))"
proof (cases "authID = ''''")
  case True
  then show ?thesis using assms by (intro exI [of _ "scEntries c"]) (simp add: SetAliases_def cache_ok_def)
next
  case False
  obtain aliases gs m1 where col: "collectGroups now ids (mergeSessionAliases [] ids) [] (scEntries c) = ((aliases, gs), m1)"
    by (metis prod.collapse)
  let ?al = "compactSessionAliases aliases"
  have "owned [a \<leftarrow> mergeSessionAliases [] ids. a \<notin> set ids] [] (scEntries c)"
    using merge_spec [of "[]" ids] by (auto simp: owned_def)
  from collect_spec [OF cache_ok_groups [OF assms] this _ col] merge_spec
  have m1: "groups_ok m1" "owned aliases gs m1" "distinct aliases" "glookup m1 \<subseteq>\<^sub>m glookup (scEntries c)" by auto
  have gs: "set gs \<subseteq> {e. \<exists>k. glookup (scEntries c) k = Some e}" using collect_hits [OF col] by simp
  show ?thesis
  proof (cases "?al = []")
    case True
    have "int (length m1) \<le> scMaxEntries c" if "0 < scMaxEntries c"
      using cache_ok_submap [OF assms m1(1,4)] that by (simp add: cache_ok_def)
    then show ?thesis using True False m1(1,4) col
      by (intro exI [of _ m1]) (simp add: SetAliases_def)
  next
    case ne: False
    have "owned ?al gs m1" using m1(2) compact_spec(2) [OF m1(3)] unfolding owned_def by blast
    note rep = replace_ok [OF m1(1) compact_spec(1) [OF m1(3)] this, of now' authID "now + scTtl c"]
    let ?r = "replaceAliasGroupsLocked now' authID (now + scTtl c) ?al gs m1"
    obtain m where m: "enforceLimitLocked (scMaxEntries c) ?r = Some m" "groups_ok m"
      "0 < scMaxEntries c \<longrightarrow> int (length m) \<le> scMaxEntries c" "glookup m \<subseteq>\<^sub>m glookup ?r"
      using enforce_ends [OF rep] by blast
    have "SetAliases authID ids now now' c = Some (c\<lparr>scEntries := m\<rparr>)"
      using False ne col m(1) by (simp add: SetAliases_def)
    then show ?thesis using m(2-4) False gs m1(4) by blast
  qed
qed

lemma set_ok:
  assumes "cache_ok c" "SetAliases authID ids now now' c = Some c'"
  shows "cache_ok c'"
proof -
  obtain m where m: "c' = c\<lparr>scEntries := m\<rparr>" "groups_ok m" "0 < scMaxEntries c \<longrightarrow> int (length m) \<le> scMaxEntries c"
    and cases: "glookup m \<subseteq>\<^sub>m glookup (scEntries c) \<or>
     (\<exists>aliases gs m1. authID \<noteq> '''' \<and> set gs \<subseteq> {e. \<exists>k. glookup (scEntries c) k = Some e} \<and> glookup m1 \<subseteq>\<^sub>m glookup (scEntries c) \<and>
        glookup m \<subseteq>\<^sub>m glookup (replaceAliasGroupsLocked now' authID (now + scTtl c) aliases gs m1))"
    using SetAliases_cases [OF assms(1), of authID ids now now'] assms(2) by auto
  have "1 \<le> seHits e \<and> seHits e \<le> scMaxHits c" if n: "0 < scMaxHits c" and k: "glookup m k = Some e" for k e
    using cases
  proof (elim disjE exE conjE)
    assume "glookup m \<subseteq>\<^sub>m glookup (scEntries c)"
    then show ?thesis using map_leD k cache_ok_hits [OF assms(1) n, of k e] by metis
  next
    fix aliases gs m1
    assume gs: "set gs \<subseteq> {e. \<exists>k. glookup (scEntries c) k = Some e}" and m1: "glookup m1 \<subseteq>\<^sub>m glookup (scEntries c)"
      and r: "glookup m \<subseteq>\<^sub>m glookup (replaceAliasGroupsLocked now' authID (now + scTtl c) aliases gs m1)"
    have "glookup (replaceAliasGroupsLocked now' authID (now + scTtl c) aliases gs m1) k = Some e"
      using r k by (rule map_leD)
    then consider "e = new_entry authID (now + scTtl c) aliases gs now'" | "glookup m1 k = Some e"
      unfolding replace_lookup fold_remove_lookup
      by (cases "k \<in> set aliases"; cases "glookup m1 k") (simp_all split: if_splits)
    then show ?thesis
    proof cases
      case 1
      have "\<forall>p \<in> set gs. seHits p \<le> scMaxHits c" using gs cache_ok_hits [OF assms(1) n] by blast
      then show ?thesis using boundState_hits [of authID now' gs] n by (simp add: 1)
    next
      case 2
      with m1 have "glookup (scEntries c) k = Some e" by (rule map_leD)
      then show ?thesis using cache_ok_hits [OF assms(1) n] by blast
    qed
  qed
  then show ?thesis using m assms(1) by (auto simp: cache_ok_def hits_ok_def)
qed

lemma invalidate_source:
  assumes "groups_ok (scEntries c)" "s \<noteq> ''''" "glookup (scEntries (InvalidateSession s c)) k = Some e"
  shows "\<exists>e0. glookup (scEntries c) k = Some e0 \<and> seHits e0 = seHits e"
proof (cases "glookup (scEntries c) s")
  case None
  then show ?thesis using assms(3) by (simp add: invalidate_lookup [OF assms(1,2)] split: if_splits)
next
  case (Some e0)
  then show ?thesis using assms(3) groups_okD(3) [OF assms(1) Some, of k]
    by (auto simp: invalidate_lookup [OF assms(1,2)] split: if_splits)
qed

lemma session_step_ok: "session_step c c' \<Longrightarrow> cache_ok c \<Longrightarrow> cache_ok c'"
proof (induction rule: session_step.induct)
  case (get c sessionID now)
  then show ?case by (auto simp: GetSlow_def cache_ok_remove split: option.split)
next
  case (refresh c sessionID now now')
  then show ?case by (rule refresh_ok)
next
  case (bind authID sessionIDs now now' c c')
  then show ?case by (blast intro: set_ok)
next
  case (drop c sessionID)
  have "cache_ok (c\<lparr>scEntries := scEntries (InvalidateSession sessionID c)\<rparr>)"
  proof (cases "sessionID = ''''")
    case False
    note source = invalidate_source [OF cache_ok_groups [OF drop] False]
    show ?thesis
    proof (rule cache_ok_sub [OF drop invalidate_ok [OF cache_ok_groups [OF drop]]])
      fix k assume "glookup (scEntries (InvalidateSession sessionID c)) k \<noteq> None"
      then show "glookup (scEntries c) k \<noteq> None" using source by blast
    next
      fix k e assume n: "0 < scMaxHits c" and "glookup (scEntries (InvalidateSession sessionID c)) k = Some e"
      then show "1 \<le> seHits e \<and> seHits e \<le> scMaxHits c"
        using source [of k e] cache_ok_hits [OF drop n] by fastforce
    qed
  qed (use drop in \<open>simp add: InvalidateSession_def\<close>)
  then show ?case by (auto simp: InvalidateSession_def Let_def split: if_splits)
next
  case (drop_auth c authID)
  then show ?case
    by (auto simp: InvalidateAuth_def intro!: cache_ok_submap filter_groups_ok cache_ok_groups filter_submap groups_ok_map)
next
  case (sweep c now)
  then show ?case
    by (auto simp: cleanup_def intro!: cache_ok_submap filter_groups_ok cache_ok_groups filter_submap groups_ok_map)
qed

lemma new_cache_ok: "new_cache c \<Longrightarrow> cache_ok c"
  by (auto simp: new_cache_def cache_ok_def hits_ok_def NewSessionCacheWithBounds_def groups_ok_def)

interpretation sessions: invariant_system new_cache session_step cache_ok
  by unfold_locales (auto intro: new_cache_ok session_step_ok)

text \<open>
  C4 (the identifiers of a session stay one group). In every cache that the operations can build,
  in any interleaving, every identifier holds an entry that lists it, once, and every
  identifier an entry lists holds exactly that entry; a limit on the number of identifiers
  is kept, and so is the one on the requests a binding has served.
\<close>

theorem session_groups_closed:
  assumes "reachable new_cache session_step c" "glookup (scEntries c) k = Some e"
  shows "k \<in> set (seAliases e) \<and> distinct (seAliases e) \<and> (\<forall>a. a \<in> set (seAliases e) \<longrightarrow> glookup (scEntries c) a = Some e) \<and>
    (0 < scMaxEntries c \<longrightarrow> int (length (scEntries c)) \<le> scMaxEntries c) \<and>
    (0 < scMaxHits c \<longrightarrow> 1 \<le> seHits e \<and> seHits e \<le> scMaxHits c)"
proof -
  have ok: "cache_ok c" using assms(1) by (rule sessions.reachable_inv)
  show ?thesis using groups_okD [OF cache_ok_groups [OF ok] assms(2)] cache_ok_hits [OF ok _ assms(2)] ok
    by (auto simp: cache_ok_def)
qed

text \<open>
  C25 (evicting ends). On every cache the operations can build, binding a session returns: the loop
  that evicts the oldest group until the limit is met ends, with the limit met.
\<close>

theorem SetAliases_ends:
  assumes "reachable new_cache session_step c"
  shows "\<exists>c'. SetAliases authID sessionIDs now now' c = Some c' \<and>
    (0 < scMaxEntries c \<longrightarrow> int (length (scEntries c')) \<le> scMaxEntries c)"
  using SetAliases_cases [OF sessions.reachable_inv [OF assms], of authID sessionIDs now now'] by auto

lemma new_cache_example: "new_cache (NewSessionCacheWithBounds 9 1 3 0)"
  unfolding new_cache_def by (intro exI [of _ 9] exI [of _ 1] exI [of _ 3] exI [of _ 0]) (simp add: in_int64_def)

abbreviation example_cache :: SessionCache where
  "example_cache \<equiv> (NewSessionCacheWithBounds 9 1 3 0)\<lparr>scEntries :=
     [(''s'', \<lparr>seAuthID = ''a'', seExpiresAt = 14, seAliases = [''s''], seBoundAt = 5, seHits = 1\<rparr>)]\<rparr>"

lemma example_cache_reachable: "reachable new_cache session_step example_cache"
proof -
  have "SetAliases ''a'' [''s''] 5 5 (NewSessionCacheWithBounds 9 1 3 0) = Some example_cache"
    by (simp add: SetAliases_def NewSessionCacheWithBounds_def mergeSessionAliases_def addAlias_def compactSessionAliases_def
        compactSessionAliasesWith_def isLocalPromptCacheSessionAlias_def replaceAliasGroupsLocked_def boundState_def
        enforceLimitLocked_def enforceLoop.simps)
  then have "session_step (NewSessionCacheWithBounds 9 1 3 0) example_cache" by (rule bind)
  then show ?thesis by (rule reachable_step [OF reachable_init [where init = new_cache, OF new_cache_example]])
qed

lemma session_groups_closed_witness: "int (length (scEntries example_cache)) \<le> 1"
  using session_groups_closed [OF example_cache_reachable, of "''s''"] by (simp add: NewSessionCacheWithBounds_def)

lemma SetAliases_ends_witness: "\<exists>c'. SetAliases ''b'' [''t''] 6 6 example_cache = Some c'"
  using SetAliases_ends [OF example_cache_reachable] by blast

section \<open>How long a binding serves\<close>

text \<open>Requests of one session at given clocks, all of them served.\<close>

fun served :: "string \<Rightarrow> (gotime \<times> gotime) list \<Rightarrow> SessionCache \<Rightarrow> bool" where
  "served sessionID [] c = True"
| "served sessionID ((now, now') # rest) c =
     (case GetAndRefresh sessionID now now' c of
        (None, _) \<Rightarrow> False
      | (Some _, c') \<Rightarrow> served sessionID rest c')"

lemma served_hits:
  assumes "cache_ok c" "0 < scMaxHits c" "glookup (scEntries c) sessionID = Some e" "served sessionID clocks c"
  shows "seHits e + int (length clocks) \<le> scMaxHits c"
  using assms
proof (induction clocks arbitrary: c e)
  case Nil
  then show ?case using cache_ok_hits by fastforce
next
  case (Cons t clocks)
  obtain now now' where t: "t = (now, now')" by fastforce
  obtain r c' where r: "GetAndRefresh sessionID now now' c = (r, c')" by fastforce
  have sv: "r \<noteq> None" "served sessionID clocks c'" using Cons.prems(4) by (auto simp: t r split: option.splits)
  obtain aliases where al: "seHits e < scMaxHits c" "sessionID \<in> set aliases"
    and c': "c' = c\<lparr>scEntries := replaceAliasGroupsLocked now' (seAuthID e) (now + scTtl c) aliases
               [e\<lparr>seHits := wrap64 (seHits e + 1)\<rparr>] (scEntries c)\<rparr>"
    using refresh_cases [OF Cons.prems(1) r] sv(1) Cons.prems(2,3) by auto
  let ?e = "e\<lparr>seHits := wrap64 (seHits e + 1)\<rparr>"
  have "glookup (scEntries c') sessionID = Some (new_entry (seAuthID e) (now + scTtl c) aliases [?e] now')"
    using al(2) by (simp add: c' replace_lookup)
  moreover have "cache_ok c'" using refresh_ok [OF Cons.prems(1), of sessionID now now'] by (simp add: r)
  moreover have "scMaxHits c' = scMaxHits c" by (simp add: c')
  ultimately have "snd (boundState (seAuthID e) now' [?e]) + int (length clocks) \<le> scMaxHits c"
    using Cons.IH [of c'] sv(2) Cons.prems(2) by fastforce
  moreover have "seHits e + 1 \<le> snd (boundState (seAuthID e) now' [?e])"
    using boundState_hits [of "seAuthID e" now' "[?e]"] refresh_hits [OF Cons.prems(1,3,2) al(1)] by simp
  ultimately show ?case by simp
qed



section \<open>The newest binding\<close>

lemma enforceLoop_keeps:
  assumes "groups_ok m" "\<And>k x. glookup m k = Some x \<Longrightarrow> x = e \<or> seExpiresAt x < seExpiresAt e"
    and "int (length (seAliases e)) \<le> n" "0 < n" "enforceLoop n m = Some m'" "glookup m a = Some e"
  shows "glookup m' a = Some e"
  using assms
proof (induction "length m" arbitrary: m rule: less_induct)
  case less
  show ?case
  proof (cases "int (length m) > n")
    case False
    then show ?thesis using less.prems by (simp add: enforceLoop.simps)
  next
    case True
    note ok = less.prems(1)
    have "m \<noteq> []" using True less.prems(4) by auto
    then obtain k x where x: "oldestEntry m = Some x" "(k, x) \<in> set m" "\<forall>(k', e') \<in> set m. seExpiresAt x \<le> seExpiresAt e'"
      using oldest_spec by blast
    then have k: "glookup m k = Some x" using groups_ok_map [OF ok] by (simp add: gomap_mem)
    have "card (fst ` set m) = length m" using groups_ok_map [OF ok] distinct_card [of "map fst m"] by (simp add: gomap_ok_def)
    moreover have "card (set (seAliases e)) \<le> length (seAliases e)" by (rule card_length)
    ultimately have "\<not> fst ` set m \<subseteq> set (seAliases e)" using True less.prems(3) card_mono [of "set (seAliases e)" "fst ` set m"] by auto
    then obtain k' x' where k': "(k', x') \<in> set m" "k' \<notin> set (seAliases e)" by fastforce
    then have lk': "glookup m k' = Some x'" using groups_ok_map [OF ok] by (simp add: gomap_mem)
    have "x' \<noteq> e" using groups_okD(1) [OF ok lk'] k'(2) by auto
    then have "seExpiresAt x' < seExpiresAt e" using less.prems(2) [OF lk'] by simp
    then have older: "seExpiresAt x < seExpiresAt e" using x(3) k'(1) by fastforce
    let ?m = "removeAliasGroupLocked x m"
    have "glookup ?m a = Some e" using less.prems(6) older by (auto simp: remove_lookup same_group_iff)
    moreover have "y = e \<or> seExpiresAt y < seExpiresAt e" if "glookup ?m j = Some y" for j y
      using less.prems(2) [of j y] that by (auto simp: remove_lookup split: option.splits if_splits)
    moreover have "enforceLoop n ?m = Some m'" using less.prems(5) True x(1) by (simp add: enforceLoop.simps [of n m])
    ultimately show ?thesis
      using less.hyps [OF remove_smaller [OF ok k] remove_groups_ok [OF ok]] less.prems(3,4) by blast
  qed
qed

lemma merge_prefix: "distinct xs \<Longrightarrow> '''' \<notin> set xs \<Longrightarrow> \<exists>zs. mergeSessionAliases xs ys = xs @ zs"
proof -
  have "distinct (as @ xs) \<Longrightarrow> '''' \<notin> set xs \<Longrightarrow> fold addAlias xs as = as @ xs" for as xs :: "string list"
    by (induction xs arbitrary: as) (auto simp: addAlias_def)
  from this [of "[]" xs] show "distinct xs \<Longrightarrow> '''' \<notin> set xs \<Longrightarrow> ?thesis"
    using fold_addAlias [of xs ys] by (auto simp: mergeSessionAliases_def)
qed

lemma collect_prefix:
  assumes "collectGroups now ids aliases gs m = ((aliases', gs'), m')" "distinct aliases" "'''' \<notin> set aliases"
  shows "\<exists>zs. aliases' = aliases @ zs"
  using assms
proof (induction ids arbitrary: aliases gs m)
  case (Cons i ids)
  show ?case
  proof (cases "glookup m i")
    case None
    then show ?thesis using Cons.IH [of aliases gs m] Cons.prems by simp
  next
    case (Some e)
    obtain zs where al: "mergeSessionAliases aliases (seAliases e) = aliases @ zs"
      using merge_prefix [OF Cons.prems(2,3)] by blast
    have "distinct (aliases @ zs)" "'''' \<notin> set (aliases @ zs)"
      using merge_spec [of aliases "seAliases e"] unfolding al by auto
    then show ?thesis using Cons.IH [of aliases gs] Cons.IH [of "aliases @ zs" "gs @ [e]" m] Cons.prems Some al
      by (auto split: if_splits)
  qed
qed simp

lemma compact_prefix: "set (compactSessionAliases xs) \<subseteq> set (compactSessionAliases (xs @ ys))"
proof -
  have "set (compactLoop f xs h n) \<subseteq> set (compactLoop f (xs @ ys) h n)" for f h n
    by (induction f xs h n rule: compactLoop.induct) auto
  then show ?thesis by (simp add: compactSessionAliases_def compactSessionAliasesWith_def)
qed

text \<open>
  A new binding is found. When every earlier binding expires before the new one does, and
  the limit, if there is one, leaves room for one session, each identifier that the binding keeps -
  of those given, the first 64 stable ones and one prompt-cache key - is answered with the bound
  credential until the binding expires, even though binding it may evict other groups.
\<close>

theorem newest_binding_served:
  assumes "reachable new_cache session_step c" "authID \<noteq> ''''" "SetAliases authID sessionIDs now now' c = Some c'"
    and "a \<in> set (compactSessionAliases (mergeSessionAliases [] sessionIDs))"
    and "scMaxEntries c \<le> 0 \<or> 65 \<le> scMaxEntries c"
    and "\<forall>k e. glookup (scEntries c) k = Some e \<longrightarrow> seExpiresAt e < now + scTtl c" "t < now + scTtl c"
  shows "Get a t t' c' = (Some authID, c')"
proof -
  have ok: "cache_ok c" using assms(1) by (rule sessions.reachable_inv)
  obtain aliases gs m1 where col: "collectGroups now sessionIDs (mergeSessionAliases [] sessionIDs) [] (scEntries c) = ((aliases, gs), m1)"
    by (metis prod.collapse)
  note mg = merge_spec [of "[]" sessionIDs]
  have "owned [a \<leftarrow> mergeSessionAliases [] sessionIDs. a \<notin> set sessionIDs] [] (scEntries c)"
    using mg by (auto simp: owned_def)
  from collect_spec [OF cache_ok_groups [OF ok] this _ col] mg
  have m1: "groups_ok m1" "owned aliases gs m1" "distinct aliases" "glookup m1 \<subseteq>\<^sub>m glookup (scEntries c)" by auto
  obtain zs where "aliases = mergeSessionAliases [] sessionIDs @ zs" using collect_prefix [OF col] mg by auto
  then have a: "a \<in> set (compactSessionAliases aliases)" using assms(4) compact_prefix by blast
  then have ne: "compactSessionAliases aliases \<noteq> []" by auto
  let ?al = "compactSessionAliases aliases" and ?exp = "now + scTtl c"
  let ?r = "replaceAliasGroupsLocked now' authID ?exp ?al gs m1" and ?e = "new_entry authID ?exp ?al gs now'"
  have "owned ?al gs m1" using m1(2) compact_spec(2) [OF m1(3)] unfolding owned_def by blast
  note rep = replace_ok [OF m1(1) compact_spec(1) [OF m1(3)] this, of now' authID ?exp]
  obtain m where m: "enforceLimitLocked (scMaxEntries c) ?r = Some m" "c' = c\<lparr>scEntries := m\<rparr>"
    using assms(2,3) ne col by (auto simp: SetAliases_def)
  have ra: "glookup ?r a = Some ?e" using a by (simp add: replace_lookup)
  have older: "x = ?e \<or> seExpiresAt x < seExpiresAt ?e" if "glookup ?r k = Some x" for k x
  proof (cases "k \<in> set ?al")
    case False
    then have "glookup m1 k = Some x"
      using that by (auto simp: replace_lookup fold_remove_lookup split: option.splits if_splits)
    then show ?thesis using map_leD [OF m1(4), of k x] assms(6) by simp
  qed (use that in \<open>simp add: replace_lookup\<close>)
  have "glookup m a = Some ?e"
  proof (cases "scMaxEntries c \<le> 0")
    case True
    then show ?thesis using m(1) ra by (simp add: enforceLimitLocked_def)
  next
    case False
    then have n: "0 < scMaxEntries c" "enforceLoop (scMaxEntries c) ?r = Some m" using m(1) by (simp_all add: enforceLimitLocked_def)
    have "int (length (seAliases ?e)) \<le> scMaxEntries c" using False assms(5) compact_length [of aliases] by simp
    from enforceLoop_keeps [OF rep older this n ra] show ?thesis .
  qed
  moreover have "a \<noteq> ''''" using assms(4) compact_spec(2) mg by fastforce
  ultimately show ?thesis using assms(7) by (simp add: Get_def GetFast_def m(2))
qed

lemma newest_binding_served_witness:
  "fst (Get ''s'' 13 13 ((NewSessionCacheWithBounds 9 100 0 0)\<lparr>scEntries :=
     [(''s'', \<lparr>seAuthID = ''a'', seExpiresAt = 14, seAliases = [''s''], seBoundAt = 5, seHits = 1\<rparr>)]\<rparr>)) = Some ''a''"
proof -
  let ?c = "NewSessionCacheWithBounds 9 100 0 0"
  let ?c' = "?c\<lparr>scEntries := [(''s'', \<lparr>seAuthID = ''a'', seExpiresAt = 14, seAliases = [''s''], seBoundAt = 5, seHits = 1\<rparr>)]\<rparr>"
  have "new_cache ?c" unfolding new_cache_def by (intro exI [of _ 9] exI [of _ 100] exI [of _ 0]) (simp add: in_int64_def)
  then have r: "reachable new_cache session_step ?c" by (rule reachable_init)
  have s: "SetAliases ''a'' [''s''] 5 5 ?c = Some ?c'"
    by (simp add: SetAliases_def NewSessionCacheWithBounds_def mergeSessionAliases_def addAlias_def compactSessionAliases_def
        compactSessionAliasesWith_def isLocalPromptCacheSessionAlias_def replaceAliasGroupsLocked_def boundState_def
        enforceLimitLocked_def enforceLoop.simps)
  have "''s'' \<in> set (compactSessionAliases (mergeSessionAliases [] [''s'']))" by code_simp
  note served = newest_binding_served [OF r _ s this, of 13 13]
  have "scMaxEntries ?c = 100" "scTtl ?c = 9" "scEntries ?c = []" by (simp_all add: NewSessionCacheWithBounds_def)
  with served show ?thesis by simp
qed

end
