(* ===== verification/Lifecycle.thy ===== *)
theory Lifecycle
  imports Results
begin

text \<open>
  The lifecycle of a credential that is being initialised or recovers
  (\<open>sdk/cliproxy/auth/recovery.go\<close>, with the readings of \<open>initialization.go\<close>): the states it
  goes through, the backoff between attempts, and the loop that runs the attempts.

  Each section under the manager's mutex is one function on the table of credentials and the
  request-time limits. An attempt is the sequence of these sections; what other goroutines do
  to the table between two of them is an argument of \<open>runLifecycleRecovery\<close>. The calls of the
  provider are arguments too. \<open>fmt\<close> is \<open>time.Time.Format\<close> with the nanosecond layout.
\<close>

abbreviation authRecoveryAttemptTimeout :: duration where "authRecoveryAttemptTimeout \<equiv> 30 * second"
abbreviation authRecoveryInitialBackoff :: duration where "authRecoveryInitialBackoff \<equiv> 5 * second"
abbreviation authRecoveryMaxBackoff :: duration where "authRecoveryMaxBackoff \<equiv> 5 * minute"
abbreviation authRecoveryRequestBuffer :: nat where "authRecoveryRequestBuffer \<equiv> 256"
abbreviation defaultAuthRecoveryConcurrency :: int where "defaultAuthRecoveryConcurrency \<equiv> 4"

datatype authLifecycleKind = authLifecycleInitialization | authLifecycleRecovery

record authRecoveryRequest =
  rqAuthID :: string
  rqKind :: authLifecycleKind
  rqGeneration :: string
  rqDue :: gotime
  rqRateLimit :: bool

text \<open>An error: its text, its HTTP status, and what its \<open>TerminalCredentialFailure\<close> method answers.\<close>

record go_error =
  geText :: string
  geStatus :: int
  geTerminal :: bool

datatype lifecycle_error = StaleLifecycle | LifecycleError go_error

section \<open>Readings of the metadata\<close>

definition initializationMetadataString :: "(string, gov) gomap \<Rightarrow> string \<Rightarrow> string" where
  "initializationMetadataString metadata key = trim_space (metadataString metadata key)"

definition initializationMetadataTime :: "(string, gov) gomap \<Rightarrow> string \<Rightarrow> gotime" where
  "initializationMetadataTime metadata key =
     (let value = initializationMetadataString metadata key
      in if value = '''' then zeroTime
         else case time_parse RFC3339 value of None \<Rightarrow> zeroTime | Some parsed \<Rightarrow> parsed)"

definition initializationMetadataInt :: "(string, gov) gomap \<Rightarrow> string \<Rightarrow> int" where
  "initializationMetadataInt metadata key =
     (case glookup metadata key of
        Some (GInt KInt value) \<Rightarrow> max value 0
      | Some (GInt KInt64 value) \<Rightarrow> max value 0
      | Some (GFloat64 value) \<Rightarrow> max (flt_to_int64 value) 0
      | Some (GStr value) \<Rightarrow> (case parse_int64 (trim_space value) of Some parsed \<Rightarrow> max parsed 0 | None \<Rightarrow> 0)
      | _ \<Rightarrow> 0)"

definition AuthInitializationGeneration :: "Auth \<Rightarrow> string" where
  "AuthInitializationGeneration a = trim_space (metadataString (Metadata a) ''initialization_generation'')"

definition AuthInitializationAttempts :: "Auth \<Rightarrow> int" where
  "AuthInitializationAttempts a = initializationMetadataInt (Metadata a) ''initialization_attempts''"

definition AuthRecoveryAttempts :: "Auth \<Rightarrow> int" where
  "AuthRecoveryAttempts a = initializationMetadataInt (Metadata a) ''recovery_attempts''"

definition isRateLimitRecovery :: "Auth \<Rightarrow> bool" where
  "isRateLimitRecovery a = equal_fold (trim_space (metadataString (Metadata a) ''recovery_reason'')) ''rate_limit_exceeded''"

definition isImportedCodexTeam :: "(string, gov) gomap \<Rightarrow> bool" where
  "isImportedCodexTeam metadata \<longleftrightarrow>
     metadata \<noteq> [] \<and> equal_fold (initializationMetadataString metadata ''type'') ''codex'' \<and>
     list_ex (\<lambda>key. equal_fold (initializationMetadataString metadata key) ''team'')
       [''chatgpt_plan_type'', ''chatgptPlanType'', ''plan_type'', ''planType'']"

text \<open>\<open>fresh\<close> is the identifier the new generation is given, \<open>stamp\<close> the formatted time.\<close>

definition PrepareImportedCodexTeamInitialization ::
  "string \<Rightarrow> string \<Rightarrow> (string, gov) gomap \<Rightarrow> string option \<times> (string, gov) gomap" where
  "PrepareImportedCodexTeamInitialization fresh stamp metadata =
     (if \<not> isImportedCodexTeam metadata then (None, metadata)
      else let md = gput ''initialization_state'' (GStr ''initializing'') metadata;
               md = gput ''initialization_generation'' (GStr fresh) md;
               md = gput ''initialization_attempts'' (GInt KInt64 0) md;
               md = gput ''initialization_updated_at'' (GStr stamp) md
           in (Some fresh,
               fold gdel [''initialization_error'', ''initialization_next_retry_at'', ''initialization_ready_at'',
                 ''initialization_quota_refreshed_at'', ''recovery_state'', ''recovery_generation'',
                 ''recovery_error'', ''recovery_next_retry_at''] md))"

definition restoreRetry :: "string \<Rightarrow> Auth \<Rightarrow> Auth" where
  "restoreRetry key a =
     (let nextRetry = initializationMetadataTime (Metadata a) key
      in (a\<lparr>Unavailable := True\<rparr>)\<lparr>NextRetryAfter := (if nextRetry = zeroTime then NextRetryAfter a else nextRetry)\<rparr>)"

definition applyRecoveryStateFromMetadata :: "Auth \<Rightarrow> Auth" where
  "applyRecoveryStateFromMetadata a =
     (if Disabled a \<or> authStatus a = StatusDisabled then a
      else let set = (\<lambda>st message. restoreRetry ''recovery_next_retry_at'' (a\<lparr>authStatus := st, StatusMessage := message\<rparr>))
           in (case AuthRecoveryState (Some a) of
                 Some RecoveryStateRefreshingToken \<Rightarrow> set StatusRecoveringToken ''recovering token''
               | Some RecoveryStateRefreshingQuota \<Rightarrow> set StatusRecoveringQuota ''recovering quota''
               | Some RecoveryStateProbingUsage \<Rightarrow> set StatusProbingUsage ''probing usage''
               | Some RecoveryStateFailed \<Rightarrow>
                   (let detail = initializationMetadataString (Metadata a) ''recovery_error''
                    in set StatusRecoveryFailed
                         (if detail \<noteq> '''' then ''recovery failed; retrying: '' @ detail else ''recovery failed''))
               | _ \<Rightarrow> a))"

definition ApplyInitializationStateFromMetadata :: "Auth \<Rightarrow> Auth" where
  "ApplyInitializationStateFromMetadata a =
     (if Disabled a \<or> authStatus a = StatusDisabled then a
      else let set = (\<lambda>st message. restoreRetry ''initialization_next_retry_at'' (a\<lparr>authStatus := st, StatusMessage := message\<rparr>))
           in (case InitializationStateFromMetadata (Metadata a) of
                 Some InitializationStateInitializing \<Rightarrow> set StatusInitializing ''initialization queued''
               | Some InitializationStateRefreshingToken \<Rightarrow> set StatusRefreshingToken ''refreshing token''
               | Some InitializationStateRefreshingQuota \<Rightarrow> set StatusRefreshingQuota ''refreshing quota''
               | Some InitializationStateFailed \<Rightarrow>
                   (let detail = initializationMetadataString (Metadata a) ''initialization_error''
                    in set StatusInitializationFailed
                         (if detail \<noteq> '''' then ''initialization failed; retrying: '' @ detail else ''initialization failed''))
               | _ \<Rightarrow> applyRecoveryStateFromMetadata a))"

section \<open>Requests\<close>

text \<open>\<open>None\<close> when the credential asks for no attempt. The first part is the one on recoveries.\<close>

definition recoveryRequest :: "Auth \<Rightarrow> gotime \<Rightarrow> authRuntimeLimits \<Rightarrow> authRecoveryRequest option" where
  "recoveryRequest a now st =
     (case AuthRecoveryState (Some a) of
        None \<Rightarrow> None
      | Some state \<Rightarrow>
          if state = RecoveryStateReady then None
          else let generation = AuthRecoveryGeneration a;
                   rateLimit = isRateLimitRecovery a;
                   due = initializationMetadataTime (Metadata a) ''recovery_next_retry_at'';
                   due = (if rateLimit
                          then (let runtimeDue = RateLimitedUntil (fst (runtimeLimitSnapshot a now st));
                                    due = (if runtimeDue > due then runtimeDue else due)
                                in if due = zeroTime \<or> (state \<noteq> RecoveryStateFailed \<and> \<not> due > now) then now else due)
                          else if due = zeroTime \<or> state \<noteq> RecoveryStateFailed then now else due)
               in if generation = '''' then None
                  else Some \<lparr>rqAuthID = ID a, rqKind = authLifecycleRecovery, rqGeneration = generation,
                         rqDue = due, rqRateLimit = rateLimit\<rparr>)"

definition lifecycleRecoveryRequest :: "Auth \<Rightarrow> gotime \<Rightarrow> authRuntimeLimits \<Rightarrow> authRecoveryRequest option" where
  "lifecycleRecoveryRequest a now st =
     (if Disabled a \<or> authStatus a = StatusDisabled then None
      else case InitializationStateFromMetadata (Metadata a) of
        None \<Rightarrow> recoveryRequest a now st
      | Some state \<Rightarrow>
          if state = InitializationStateReady then recoveryRequest a now st
          else let due = initializationMetadataTime (Metadata a) ''initialization_next_retry_at'';
                   due = (if due = zeroTime \<or> state \<noteq> InitializationStateFailed then now else due);
                   generation = AuthInitializationGeneration a
               in if generation = '''' then None
                  else Some \<lparr>rqAuthID = ID a, rqKind = authLifecycleInitialization, rqGeneration = generation,
                         rqDue = due, rqRateLimit = False\<rparr>)"

definition lifecycleGenerationMatches :: "Auth option \<Rightarrow> authRecoveryRequest \<Rightarrow> bool" where
  "lifecycleGenerationMatches auth request =
     (case auth of
        None \<Rightarrow> False
      | Some a \<Rightarrow>
          if Disabled a \<or> authStatus a = StatusDisabled \<or> rqGeneration request = '''' then False
          else if rqKind request = authLifecycleInitialization
          then AuthInitializationGeneration a = rqGeneration request \<and> IsAuthInitializationBlocking auth
          else AuthRecoveryGeneration a = rqGeneration request \<and> IsAuthRecoveryBlocking auth)"

text \<open>\<open>m.auths[request.authID]\<close>, where the generation still matches.\<close>

definition lifecycleAuth :: "auth_table \<Rightarrow> authRecoveryRequest \<Rightarrow> Auth option" where
  "lifecycleAuth auths request =
     (case glookup auths (rqAuthID request) of
        Some (Some a) \<Rightarrow> if lifecycleGenerationMatches (Some a) request then Some a else None
      | _ \<Rightarrow> None)"

text \<open>The loop \<open>for i := 1; i < attempts && backoff < max; i++\<close> runs at most \<open>attempts - 1\<close> times.\<close>

fun doubleBackoff :: "nat \<Rightarrow> duration \<Rightarrow> duration" where
  "doubleBackoff 0 backoff = backoff"
| "doubleBackoff (Suc n) backoff =
     (if backoff < authRecoveryMaxBackoff then doubleBackoff n (dur_mul backoff 2) else backoff)"

definition authRecoveryBackoff :: "int \<Rightarrow> duration" where
  "authRecoveryBackoff attempts =
     (let attempts = (if attempts < 1 then 1 else attempts);
          backoff = doubleBackoff (nat (attempts - 1)) authRecoveryInitialBackoff
      in if backoff > authRecoveryMaxBackoff then authRecoveryMaxBackoff else backoff)"

section \<open>The sections of an attempt\<close>

text \<open>\<open>publishLifecycleUpdate\<close>: what is told to the rest of the system.\<close>

abbreviation publishLifecycleUpdate :: "Auth \<Rightarrow> effect list" where
  "publishLifecycleUpdate a \<equiv> [UpsertScheduler a, Persist a, RefreshTailBurstCandidates, OnAuthUpdated a]"

definition transitionLifecycle ::
  "string \<Rightarrow> gotime \<Rightarrow> authRecoveryRequest \<Rightarrow> bool \<Rightarrow> auth_table \<Rightarrow> (lifecycle_error + Auth) \<times> auth_table" where
  "transitionLifecycle stamp now request tokenPhase auths =
     (case lifecycleAuth auths request of
        None \<Rightarrow> (Inl StaleLifecycle, auths)
      | Some a \<Rightarrow>
          let init = (rqKind request = authLifecycleInitialization);
              p = (if init then ''initialization_'' else ''recovery_'');
              md = gput (p @ ''state'')
                     (GStr (if tokenPhase then (if init then ''refreshing_token'' else ''recovering_token'')
                            else (if init then ''refreshing_quota'' else ''recovering_quota''))) (Metadata a);
              attempts = (if init then AuthInitializationAttempts a else AuthRecoveryAttempts a);
              md = (if tokenPhase then gput (p @ ''attempts'') (GInt KInt (wrap64 (attempts + 1))) md else md);
              md = gput (p @ ''updated_at'') (GStr stamp) md;
              md = (if tokenPhase then gdel (p @ ''next_retry_at'') (gdel (p @ ''error'') md) else md);
              st = (if tokenPhase then (if init then StatusRefreshingToken else StatusRecoveringToken)
                    else (if init then StatusRefreshingQuota else StatusRecoveringQuota));
              message = (if tokenPhase then (if init then ''refreshing token'' else ''recovering token'')
                         else (if init then ''refreshing quota'' else ''recovering quota''));
              a = a\<lparr>Metadata := md, authStatus := st, StatusMessage := message, Unavailable := True,
                    NextRetryAfter := zeroTime, UpdatedAt := now\<rparr>
          in (Inr a, gput (ID a) (Some a) auths))"

definition transitionLifecycleUsageProbe ::
  "string \<Rightarrow> gotime \<Rightarrow> authRecoveryRequest \<Rightarrow> auth_table \<Rightarrow> (lifecycle_error + Auth) \<times> auth_table" where
  "transitionLifecycleUsageProbe stamp now request auths =
     (case lifecycleAuth auths request of
        None \<Rightarrow> (Inl StaleLifecycle, auths)
      | Some a \<Rightarrow>
          let md = gput ''recovery_state'' (GStr ''probing_usage'') (Metadata a);
              md = gput ''recovery_attempts'' (GInt KInt (wrap64 (AuthRecoveryAttempts a + 1))) md;
              md = gput ''recovery_updated_at'' (GStr stamp) md;
              a = a\<lparr>Metadata := md, authStatus := StatusProbingUsage, StatusMessage := ''probing usage'',
                    Unavailable := True, NextRetryAfter := zeroTime, UpdatedAt := now\<rparr>
          in (Inr a, gput (ID a) (Some a) auths))"

text \<open>The refreshed credential, with everything but the credentials taken from the current one.\<close>

definition mergeRefreshed :: "gotime \<Rightarrow> Auth \<Rightarrow> Auth \<Rightarrow> Auth" where
  "mergeRefreshed now updated current =
     updated\<lparr>ID := ID current, FileName := FileName current, authStatus := authStatus current,
       StatusMessage := StatusMessage current, Disabled := Disabled current, Unavailable := True,
       Quota := Quota current, LastError := LastError current, NextRetryAfter := NextRetryAfter current,
       ModelStates := ModelStates current, successCount := successCount current,
       failedCount := failedCount current, recentRequests := recentRequests current,
       NextRefreshAfter := zeroTime, UpdatedAt := now\<rparr>"

definition authHasRefreshCredential :: "Auth \<Rightarrow> bool" where
  "authHasRefreshCredential a \<longleftrightarrow>
     authMetadataString a ''refresh_token'' \<noteq> '''' \<or> authMetadataString a ''refreshToken'' \<noteq> ''''"

definition authAccessToken :: "Auth \<Rightarrow> string" where
  "authAccessToken a =
     (if authMetadataString a ''access_token'' \<noteq> '''' then authMetadataString a ''access_token''
      else authMetadataString a ''accessToken'')"

abbreviation plain_error :: "string \<Rightarrow> lifecycle_error" where
  "plain_error text \<equiv> LifecycleError \<lparr>geText = text, geStatus = 0, geTerminal = False\<rparr>"

text \<open>
  \<open>exec\<close> is the executor of the credential's provider, if there is one; its refresh may return
  no credential, which stands for the unchanged one. \<open>between\<close> is what the table becomes
  while it runs.
\<close>

definition forceRefreshLifecycleToken ::
  "(Auth \<Rightarrow> (Auth \<Rightarrow> go_error + Auth option) option) \<Rightarrow> (auth_table \<Rightarrow> auth_table) \<Rightarrow> gotime \<Rightarrow>
     authRecoveryRequest \<Rightarrow> auth_table \<Rightarrow> (lifecycle_error + Auth) \<times> auth_table" where
  "forceRefreshLifecycleToken exec between now request auths =
     (case lifecycleAuth auths request of
        None \<Rightarrow> (Inl StaleLifecycle, auths)
      | Some cloned \<Rightarrow>
          case exec cloned of
            None \<Rightarrow> (Inl (plain_error ''provider executor is unavailable''), auths)
          | Some refresh \<Rightarrow>
              if \<not> authHasRefreshCredential cloned
              then (Inl (plain_error ''refresh credential is unavailable''), auths)
              else case refresh cloned of
                Inl err \<Rightarrow> (Inl (LifecycleError err), between auths)
              | Inr updated \<Rightarrow>
                  let updated = (case updated of None \<Rightarrow> cloned | Some u \<Rightarrow> u);
                      auths = between auths
                  in case lifecycleAuth auths request of
                       None \<Rightarrow> (Inl StaleLifecycle, auths)
                     | Some current \<Rightarrow>
                         let merged = mergeRefreshed now updated current
                         in (Inr merged, gput (rqAuthID request) (Some merged) auths))"

definition copyRefreshedCredentialMetadata :: "Auth \<Rightarrow> Auth \<Rightarrow> Auth" where
  "copyRefreshedCredentialMetadata target source =
     target\<lparr>Metadata := fold (\<lambda>key md. case glookup (Metadata source) key of None \<Rightarrow> md | Some v \<Rightarrow> gput key v md)
       [''access_token'', ''refresh_token'', ''id_token'', ''expired'', ''last_refresh''] (Metadata target)\<rparr>"

text \<open>A credential that is available again.\<close>

abbreviation recovered :: "gotime \<Rightarrow> Auth \<Rightarrow> Auth" where
  "recovered now a \<equiv>
     a\<lparr>ModelStates := [], Quota := zeroQuota, LastError := None, authStatus := StatusActive, StatusMessage := '''',
       Unavailable := False, NextRetryAfter := zeroTime, NextRefreshAfter := zeroTime, UpdatedAt := now\<rparr>"

text \<open>The other files of the same member that are not in a lifecycle of their own recover too.\<close>

definition recoverPeer :: "(string \<Rightarrow> string) \<Rightarrow> gotime \<Rightarrow> Auth \<Rightarrow> string \<Rightarrow> Auth \<Rightarrow> Auth option" where
  "recoverPeer digest now a candidateID candidate =
     (if candidateID = ID a \<or> Disabled candidate \<or> authStatus candidate = StatusDisabled \<or>
         IsAuthLifecycleBlocking (Some candidate) \<or> \<not> codexSameMemberIdentity digest a candidate then None
      else Some (recovered now (copyRefreshedCredentialMetadata candidate a)))"

definition completeLifecycle ::
  "(string \<Rightarrow> string) \<Rightarrow> string \<Rightarrow> gotime \<Rightarrow> authRecoveryRequest \<Rightarrow> auth_table \<Rightarrow> limits_env \<Rightarrow>
     (lifecycle_error option \<times> effect list) \<times> (auth_table \<times> limits_env)" where
  "completeLifecycle digest stamp now request auths env =
     (case lifecycleAuth auths request of
        None \<Rightarrow> ((Some StaleLifecycle, []), (auths, env))
      | Some a0 \<Rightarrow>
          let init = (rqKind request = authLifecycleInitialization);
              clear = (\<lambda>a env. env(ID a := clearTransientRateLimitRecovery a now (env (ID a))));
              p = (if init then ''initialization_'' else ''recovery_'');
              a = recovered now a0;
              env = (if init then env else clear a env);
              md = gput (p @ ''state'') (GStr ''ready'') (Metadata a);
              md = gput (p @ ''ready_at'') (GStr stamp) md;
              md = gput (p @ ''quota_refreshed_at'') (GStr stamp) md;
              md = gdel (p @ ''next_retry_at'') (gdel (p @ ''error'') md);
              md = (if \<not> init \<and> rqRateLimit request then gput ''recovery_usage_probed_at'' (GStr stamp) md else md);
              a = a\<lparr>Metadata := md\<rparr>;
              auths = gput (rqAuthID request) (Some a) auths;
              peer = recoverPeer digest now a;
              (auths', peers) = (if init then (auths, []) else changePeers peer auths);
              models = map (\<lambda>(m, _). (ID a0, m)) (ModelStates a0) @
                (if init then [] else concat (map (\<lambda>(candidateID, c). case c of
                   Some candidate \<Rightarrow> (case peer candidateID candidate of
                      Some _ \<Rightarrow> map (\<lambda>(m, _). (candidateID, m)) (ModelStates candidate) | None \<Rightarrow> [])
                 | None \<Rightarrow> []) auths));
              env = fold clear peers env;
              auths' = gput (ID a) (Some a) auths'
          in ((None,
               [InvalidateSessionAffinity (rqAuthID request)] @
               concat (map (\<lambda>(i, m). [ClearModelQuotaExceeded i m, ResumeClientModel i m]) models) @
               [PersistCooldownStates] @ publishLifecycleUpdate a @
               concat (map (\<lambda>q. InvalidateSessionAffinity (ID q) # publishLifecycleUpdate q) peers)),
              (auths', env)))"

definition isTerminalCredentialFailure :: "go_error \<Rightarrow> bool" where
  "isTerminalCredentialFailure err \<longleftrightarrow>
     geTerminal err \<or>
     contains_any (to_lower (geText err))
       [''refresh_token_reused'', ''refresh_token_invalidated'', ''token_invalidated'', ''invalidated oauth token'',
        ''token_revoked'', ''account_deactivated'', ''deactivated_workspace'',
        ''personal access token owner is inactive'', ''biscuit_baker_service_auth_credential_error_status'']"

definition isUnauthorizedError :: "go_error \<Rightarrow> bool" where
  "isUnauthorizedError err \<longleftrightarrow>
     geStatus err = 401 \<or> contains_any (to_lower (geText err)) [''status 401'', ''401 unauthorized'']"

definition refreshErrorFromError :: "go_error \<Rightarrow> ResultError" where
  "refreshErrorFromError err =
     (let statusCode = (if geStatus err = 0 \<and> isUnauthorizedError err then 401 else geStatus err)
      in \<lparr>errCode = (if statusCode = 401 then ''unauthorized'' else ''''), errMessage = geText err,
          errRetryable = False, HTTPStatus = statusCode\<rparr>)"

text \<open>The wait before the next attempt, \<open>0\<close> for none.\<close>

definition failLifecycle ::
  "(string \<Rightarrow> string) \<Rightarrow> (gotime \<Rightarrow> string) \<Rightarrow> gotime \<Rightarrow> authRecoveryRequest \<Rightarrow> go_error \<Rightarrow> auth_table \<Rightarrow>
     (duration \<times> effect list) \<times> auth_table" where
  "failLifecycle digest fmt now request err auths =
     (case lifecycleAuth auths request of
        None \<Rightarrow> ((0, []), auths)
      | Some a \<Rightarrow>
          let init = (rqKind request = authLifecycleInitialization);
              p = (if init then ''initialization_'' else ''recovery_'');
              attempts = (if init then AuthInitializationAttempts a else AuthRecoveryAttempts a);
              terminal = \<not> rqRateLimit request \<and> isTerminalCredentialFailure err;
              retry = authRecoveryBackoff attempts;
              nextRetry = now + retry;
              message = trim_space (geText err);
              md = gput (p @ ''state'') (GStr (if init then ''initialization_failed'' else ''recovery_failed'')) (Metadata a);
              md = gput (p @ ''error'') (GStr message) md;
              md = gput (p @ ''updated_at'') (GStr (fmt now)) md;
              md = (if terminal then gdel (p @ ''next_retry_at'') md
                    else gput (p @ ''next_retry_at'') (GStr (fmt nextRetry)) md);
              a = a\<lparr>Metadata := md, LastError := Some (refreshErrorFromError err), Unavailable := True, UpdatedAt := now\<rparr>;
              a = (if terminal
                   then a\<lparr>Disabled := True, authStatus := StatusDisabled, StatusMessage := ''credential invalidated'',
                          NextRetryAfter := zeroTime, NextRefreshAfter := zeroTime,
                          Metadata := gput ''disabled'' (GBool True) md\<rparr>
                   else a\<lparr>authStatus := (if init then StatusInitializationFailed else StatusRecoveryFailed),
                          StatusMessage := (if init then ''initialization failed; retrying: ''
                                            else ''recovery failed; retrying: '') @ message,
                          NextRetryAfter := nextRetry\<rparr>);
              auths = gput (rqAuthID request) (Some a) auths;
              (auths, peers) = (if terminal then propagateTerminalCredential digest a (LastError a) now auths else (auths, []));
              auths = gput (ID a) (Some a) auths
          in ((if terminal then 0 else retry,
               publishLifecycleUpdate a @
               concat (map (\<lambda>q. InvalidateSessionAffinity (ID q) # publishLifecycleUpdate q) peers) @
               (if terminal then [InvalidateSessionAffinity (rqAuthID request)] else [])),
              auths))"

section \<open>One attempt\<close>

text \<open>
  The outcome: done, superseded by a newer generation, or failed with a wait before the next
  attempt. \<open>other i\<close> is what the rest of the system does to the table before section \<open>i\<close>;
  \<open>cancelled\<close> tells whether an error is the cancellation of the loop itself. The clock is the
  same for all sections of an attempt. \<open>pcQuota\<close> is the provider's quota call together with
  the update of the snapshot. The updates published between the sections are not listed among
  the effects, and the time of the last refresh is not part of the credential's record.
\<close>

datatype lifecycle_outcome = LifecycleDone | LifecycleStale | LifecycleRetry duration

record provider_calls =
  pcRefresh :: "Auth \<Rightarrow> (Auth \<Rightarrow> go_error + Auth option) option"
  pcQuota :: "Auth \<Rightarrow> go_error option"
  pcProbe :: "Auth \<Rightarrow> (Auth \<Rightarrow> go_error option) option"

abbreviation asError :: "go_error option \<Rightarrow> lifecycle_error option" where
  "asError err \<equiv> map_option LifecycleError err"

definition probeLifecycleUsage :: "provider_calls \<Rightarrow> authRecoveryRequest \<Rightarrow> auth_table \<Rightarrow> lifecycle_error option" where
  "probeLifecycleUsage calls request auths =
     (case lifecycleAuth auths request of
        None \<Rightarrow> Some StaleLifecycle
      | Some probeAuth \<Rightarrow>
          case pcProbe calls probeAuth of
            None \<Rightarrow> Some (plain_error ''provider usage prober is unavailable'')
          | Some probe \<Rightarrow>
              if trim_space (authAccessToken probeAuth) = ''''
              then Some (plain_error ''access token is unavailable for usage probe'')
              else asError (probe probeAuth))"

text \<open>The part before \<open>completeLifecycle\<close>: the error it ends with, if any, and the table.\<close>

definition attemptRateLimit ::
  "provider_calls \<Rightarrow> (nat \<Rightarrow> auth_table \<Rightarrow> auth_table) \<Rightarrow> (gotime \<Rightarrow> string) \<Rightarrow> gotime \<Rightarrow> authRecoveryRequest \<Rightarrow>
     auth_table \<Rightarrow> lifecycle_error option \<times> auth_table" where
  "attemptRateLimit calls other fmt now request auths =
     (let (r, auths) = transitionLifecycleUsageProbe (fmt now) now request (other 0 auths)
      in case r of
           Inl e \<Rightarrow> (Some e, auths)
         | Inr _ \<Rightarrow>
             let auths = other 1 auths
             in case lifecycleAuth auths request of
                  None \<Rightarrow> (Some StaleLifecycle, auths)
                | Some current \<Rightarrow>
                    case pcQuota calls current of
                      Some err \<Rightarrow> (Some (LifecycleError err), auths)
                    | None \<Rightarrow> let auths = other 2 auths in (probeLifecycleUsage calls request auths, auths))"

definition attemptRefresh ::
  "provider_calls \<Rightarrow> (nat \<Rightarrow> auth_table \<Rightarrow> auth_table) \<Rightarrow> (gotime \<Rightarrow> string) \<Rightarrow> gotime \<Rightarrow> authRecoveryRequest \<Rightarrow>
     auth_table \<Rightarrow> lifecycle_error option \<times> auth_table" where
  "attemptRefresh calls other fmt now request auths =
     (let (r, auths) = transitionLifecycle (fmt now) now request True (other 0 auths)
      in case r of
           Inl e \<Rightarrow> (Some e, auths)
         | Inr _ \<Rightarrow>
             let (r, auths) = forceRefreshLifecycleToken (pcRefresh calls) (other 2) now request (other 1 auths)
             in case r of
                  Inl e \<Rightarrow> (Some e, auths)
                | Inr refreshed \<Rightarrow>
                    let (r, auths) = transitionLifecycle (fmt now) now request False (other 3 auths)
                    in case r of
                         Inl e \<Rightarrow> (Some e, auths)
                       | Inr _ \<Rightarrow> (asError (pcQuota calls refreshed), auths))"

definition runLifecycleRecovery ::
  "(string \<Rightarrow> string) \<Rightarrow> provider_calls \<Rightarrow> (nat \<Rightarrow> auth_table \<Rightarrow> auth_table) \<Rightarrow> (go_error \<Rightarrow> bool) \<Rightarrow>
     (gotime \<Rightarrow> string) \<Rightarrow> gotime \<Rightarrow> authRecoveryRequest \<Rightarrow> auth_table \<Rightarrow> limits_env \<Rightarrow>
     (lifecycle_outcome \<times> effect list) \<times> (auth_table \<times> limits_env)" where
  "runLifecycleRecovery digest calls other cancelled fmt now request auths env =
     (let (err, auths) = (if rqRateLimit request then attemptRateLimit calls other fmt now request auths
                          else attemptRefresh calls other fmt now request auths);
          auths = other 4 auths;
          ((err, effects), (auths, env)) =
            (case err of
               None \<Rightarrow> completeLifecycle digest (fmt now) now request auths env
             | Some e \<Rightarrow> ((Some e, []), (auths, env)))
      in case err of
           None \<Rightarrow> ((LifecycleDone, effects), (auths, env))
         | Some StaleLifecycle \<Rightarrow> ((LifecycleStale, effects), (auths, env))
         | Some (LifecycleError e) \<Rightarrow>
             if cancelled e then ((LifecycleStale, effects), (auths, env))
             else let ((retry, effects'), auths) = failLifecycle digest fmt now request e (other 5 auths)
                  in ((LifecycleRetry retry, effects @ effects'), (auths, env)))"

end
