(* ===== verification/RecoveryLoop.thy ===== *)
theory RecoveryLoop
  imports Lifecycle
begin

text \<open>
  The loop that runs lifecycle attempts (\<open>authRecoveryLoop\<close> in \<open>sdk/cliproxy/auth/recovery.go\<close>):
  a bounded channel of requests with a map for the overflow, the requests that wait for their
  time, the ones in progress and the workers. The loop's own code runs alone; workers and the
  callers of \<open>enqueue\<close> interleave with it, each channel operation being one step.
\<close>

record authRecoveryLoop =
  rlConcurrency :: int
  rlRequests :: "authRecoveryRequest list"
  rlResults :: "(authRecoveryRequest \<times> duration \<times> bool) list"
  rlOverflow :: "(string, authRecoveryRequest) gomap"
  rlPending :: "(string, authRecoveryRequest) gomap"
  rlActive :: "(string, authRecoveryRequest) gomap"
  rlRunning :: "authRecoveryRequest list"

definition newAuthRecoveryLoop :: "int \<Rightarrow> authRecoveryLoop" where
  "newAuthRecoveryLoop concurrency =
     \<lparr>rlConcurrency = (if concurrency \<le> 0 then defaultAuthRecoveryConcurrency else concurrency),
      rlRequests = [], rlResults = [], rlOverflow = [], rlPending = [], rlActive = [], rlRunning = []\<rparr>"

definition enqueueRecovery :: "gotime \<Rightarrow> authRecoveryRequest \<Rightarrow> authRecoveryLoop \<Rightarrow> authRecoveryLoop" where
  "enqueueRecovery now request l =
     (if rqAuthID request = '''' \<or> rqGeneration request = '''' then l
      else let request = (if rqDue request = zeroTime then request\<lparr>rqDue := now\<rparr> else request)
           in if length (rlRequests l) < authRecoveryRequestBuffer
              then l\<lparr>rlRequests := rlRequests l @ [request]\<rparr>
              else l\<lparr>rlOverflow := gput (rqAuthID request) request (rlOverflow l)\<rparr>)"

text \<open>\<open>rebuild\<close>: the requests of all credentials.\<close>

definition rebuildRecovery :: "gotime \<Rightarrow> auth_table \<Rightarrow> limits_env \<Rightarrow> authRecoveryLoop \<Rightarrow> authRecoveryLoop" where
  "rebuildRecovery now auths env l =
     fold (\<lambda>(_, auth) l. case auth of
             None \<Rightarrow> l
           | Some a \<Rightarrow> (case lifecycleRecoveryRequest a now (env (ID a)) of
                          None \<Rightarrow> l | Some request \<Rightarrow> enqueueRecovery now request l))
       auths l"

text \<open>A credential's request is enqueued after a result asked for a recovery.\<close>

definition queueLifecycleRecovery ::
  "string \<Rightarrow> gotime \<Rightarrow> gotime \<Rightarrow> auth_table \<Rightarrow> limits_env \<Rightarrow> authRecoveryLoop \<Rightarrow> authRecoveryLoop" where
  "queueLifecycleRecovery authID now now' auths env l =
     (if trim_space authID = '''' then l
      else case glookup auths authID of
             Some (Some a) \<Rightarrow>
               (case lifecycleRecoveryRequest a now (env (ID a)) of
                  None \<Rightarrow> l | Some request \<Rightarrow> enqueueRecovery now' request l)
           | _ \<Rightarrow> l)"

text \<open>A request is put on the waiting list unless one of its generation waits for an earlier time.\<close>

definition putPending ::
  "authRecoveryRequest \<Rightarrow> (string, authRecoveryRequest) gomap \<Rightarrow> (string, authRecoveryRequest) gomap" where
  "putPending request pending =
     (case glookup pending (rqAuthID request) of
        None \<Rightarrow> gput (rqAuthID request) request pending
      | Some current \<Rightarrow>
          if rqGeneration current \<noteq> rqGeneration request \<or> rqDue request < rqDue current
          then gput (rqAuthID request) request pending else pending)"

definition drainOverflow :: "authRecoveryLoop \<Rightarrow> authRecoveryLoop" where
  "drainOverflow l =
     l\<lparr>rlPending := fold (\<lambda>(_, request) pending. putPending request pending) (rlOverflow l) (rlPending l),
       rlOverflow := []\<rparr>"

text \<open>The request that is due and was due first.\<close>

definition selectDue :: "gotime \<Rightarrow> (string, authRecoveryRequest) gomap \<Rightarrow> authRecoveryRequest option" where
  "selectDue now pending =
     fold (\<lambda>(_, request) selected.
             if rqDue request > now then selected
             else case selected of
                    None \<Rightarrow> Some request
                  | Some s \<Rightarrow> if rqDue request < rqDue s then Some request else selected)
       pending None"

text \<open>Every round takes a request off the waiting list, so its length is fuel enough.\<close>

fun dispatchLoop :: "nat \<Rightarrow> gotime \<Rightarrow> authRecoveryLoop \<Rightarrow> authRecoveryLoop" where
  "dispatchLoop 0 now l = l"
| "dispatchLoop (Suc n) now l =
     (if int (length (rlActive l)) < rlConcurrency l
      then (case selectDue now (rlPending l) of
              None \<Rightarrow> l
            | Some selected \<Rightarrow>
                dispatchLoop n now
                  (l\<lparr>rlPending := gdel (rqAuthID selected) (rlPending l),
                     rlActive := gput (rqAuthID selected) selected (rlActive l),
                     rlRunning := rlRunning l @ [selected]\<rparr>))
      else l)"

definition dispatch :: "gotime \<Rightarrow> authRecoveryLoop \<Rightarrow> authRecoveryLoop" where
  "dispatch now l = dispatchLoop (length (rlPending l)) now l"

definition receiveRequest :: "authRecoveryRequest \<Rightarrow> authRecoveryLoop \<Rightarrow> authRecoveryLoop" where
  "receiveRequest request l =
     (case glookup (rlActive l) (rqAuthID request) of
        Some current \<Rightarrow>
          if rqGeneration current = rqGeneration request \<and> rqKind current = rqKind request then l
          else l\<lparr>rlPending := putPending request (rlPending l)\<rparr>
      | None \<Rightarrow> l\<lparr>rlPending := putPending request (rlPending l)\<rparr>)"

definition receiveResult ::
  "gotime \<Rightarrow> authRecoveryRequest \<Rightarrow> duration \<Rightarrow> bool \<Rightarrow> authRecoveryLoop \<Rightarrow> authRecoveryLoop" where
  "receiveResult now request retry stale l =
     (let l = l\<lparr>rlActive := gdel (rqAuthID request) (rlActive l)\<rparr>
      in if retry > 0 \<and> \<not> stale \<and>
            (case glookup (rlPending l) (rqAuthID request) of
               None \<Rightarrow> True | Some current \<Rightarrow> rqGeneration current = rqGeneration request)
         then l\<lparr>rlPending := gput (rqAuthID request) (request\<lparr>rqDue := now + retry\<rparr>) (rlPending l)\<rparr>
         else l)"

text \<open>
  The steps: a caller enqueues a request; the loop takes what overflowed and starts what is due,
  then takes a request, a result, or a tick; a worker ends.
\<close>

inductive loop_step :: "authRecoveryLoop \<Rightarrow> authRecoveryLoop \<Rightarrow> bool" where
  enqueue: "loop_step l (enqueueRecovery now request l)"
| tick: "loop_step l (dispatch now (drainOverflow l))"
| request: "rlRequests l = request # rest \<Longrightarrow>
    loop_step l (receiveRequest request ((dispatch now (drainOverflow l))\<lparr>rlRequests := rest\<rparr>))"
| result: "rlResults l = (request, retry, stale) # rest \<Longrightarrow>
    loop_step l (receiveResult now' request retry stale ((dispatch now (drainOverflow l))\<lparr>rlResults := rest\<rparr>))"
| worker: "request \<in> set (rlRunning l) \<Longrightarrow> length (rlResults l) < authRecoveryRequestBuffer \<Longrightarrow>
    loop_step l (l\<lparr>rlRunning := remove1 request (rlRunning l), rlResults := rlResults l @ [(request, retry, stale)]\<rparr>)"

end
