(* ===== verification/LifecycleProps.thy ===== *)
theory LifecycleProps
  imports RecoveryLoop ResultProps
begin

text \<open>
  Facts about the lifecycle of a credential: the backoff, what an attempt leaves behind when it
  succeeds, when it fails and when it was superseded, and the bounds of the loop.
\<close>

section \<open>Backoff\<close>

lemma doubleBackoff_value:
  "0 < b \<Longrightarrow> b \<le> 2 * authRecoveryMaxBackoff \<Longrightarrow>
   \<exists>k \<le> n. doubleBackoff n b = 2 ^ k * b \<and> (k = n \<or> authRecoveryMaxBackoff \<le> 2 ^ k * b) \<and> (\<forall>j < k. 2 ^ j * b < authRecoveryMaxBackoff)"
proof (induction n arbitrary: b)
  case (Suc n)
  show ?case
  proof (cases "b < authRecoveryMaxBackoff")
    case False
    then show ?thesis by (intro exI [of _ 0]) simp
  next
    case True
    have d: "dur_mul b 2 = 2 * b" using True Suc.prems by (simp add: dur_mul_def in_int64_def)
    have "0 < 2 * b" "2 * b \<le> 2 * authRecoveryMaxBackoff" using True Suc.prems by simp_all
    from Suc.IH [OF this] obtain k where k: "k \<le> n" "doubleBackoff n (2 * b) = 2 ^ k * (2 * b)"
      "k = n \<or> authRecoveryMaxBackoff \<le> 2 ^ k * (2 * b)" "\<forall>j < k. 2 ^ j * (2 * b) < authRecoveryMaxBackoff" by blast
    have "2 ^ j * b < authRecoveryMaxBackoff" if "j < Suc k" for j
      using that k(4) True by (cases j) (auto simp: mult.assoc)
    then show ?thesis using k True by (intro exI [of _ "Suc k"]) (auto simp: d mult.assoc mult.left_commute)
  qed
qed simp

text \<open>
  The wait between attempts. The loop that doubles the wait ends with it at five seconds times
  two to the number of earlier attempts, at most five minutes, whatever the counter read from
  the credential - a counter below one counts as one.
\<close>

theorem recovery_backoff:
  "authRecoveryBackoff attempts =
     min (authRecoveryInitialBackoff * 2 ^ nat (max attempts 1 - 1)) authRecoveryMaxBackoff"
proof -
  define n where "n = nat (max attempts 1 - 1)"
  have ns: "nat ((if attempts < 1 then 1 else attempts) - 1) = n" by (simp add: n_def max_def)
  obtain k where k: "k \<le> n" "doubleBackoff n authRecoveryInitialBackoff = 2 ^ k * authRecoveryInitialBackoff"
    "k = n \<or> authRecoveryMaxBackoff \<le> 2 ^ k * authRecoveryInitialBackoff"
    using doubleBackoff_value [of authRecoveryInitialBackoff n] by auto
  have "(2 :: int) ^ k \<le> 2 ^ n" using k(1) by (intro power_increasing) simp_all
  then have "2 ^ k * authRecoveryInitialBackoff \<le> authRecoveryInitialBackoff * 2 ^ n" by (simp add: mult.commute)
  then have "authRecoveryMaxBackoff \<le> authRecoveryInitialBackoff * 2 ^ n" if "k \<noteq> n"
    using k(3) that by (blast intro: order_trans)
  then show ?thesis using k(2,3) unfolding authRecoveryBackoff_def Let_def ns n_def [symmetric]
    by (cases "k = n") (simp_all add: min_def mult.commute)
qed

lemma recovery_backoff_range: "authRecoveryInitialBackoff \<le> authRecoveryBackoff n \<and> authRecoveryBackoff n \<le> authRecoveryMaxBackoff"
proof -
  obtain k where k: "doubleBackoff (nat ((if n < 1 then 1 else n) - 1)) authRecoveryInitialBackoff = 2 ^ k * authRecoveryInitialBackoff"
    using doubleBackoff_value [of authRecoveryInitialBackoff] by force
  have "(1 :: int) \<le> 2 ^ k" by simp
  then show ?thesis unfolding authRecoveryBackoff_def Let_def k by (auto simp del: one_le_power)
qed

section \<open>The credential of an attempt\<close>

lemma lifecycleAuth_Some:
  "lifecycleAuth m rq = Some a \<Longrightarrow> glookup m (rqAuthID rq) = Some (Some a) \<and> lifecycleGenerationMatches (Some a) rq"
  by (auto simp: lifecycleAuth_def split: option.splits if_splits)

definition ids_ok :: "auth_table \<Rightarrow> bool" where
  "ids_ok m \<longleftrightarrow> (\<forall>k a. glookup m k = Some (Some a) \<longrightarrow> ID a = k)"

lemma ids_ok_put: "ids_ok m \<Longrightarrow> ID a = k \<Longrightarrow> ids_ok (gput k (Some a) m)"
  by (simp add: ids_ok_def glookup_put)

lemma ids_okD: "ids_ok m \<Longrightarrow> glookup m k = Some (Some a) \<Longrightarrow> ID a = k"
  by (simp add: ids_ok_def)

lemma lifecycleAuth_id: "ids_ok m \<Longrightarrow> lifecycleAuth m rq = Some a \<Longrightarrow> ID a = rqAuthID rq"
  by (blast dest: lifecycleAuth_Some ids_okD)

lemma transition_ids: "ids_ok m \<Longrightarrow> ids_ok (snd (transitionLifecycle stamp now rq b m))"
  by (auto simp: transitionLifecycle_def Let_def split: option.split intro!: ids_ok_put)

lemma probe_ids: "ids_ok m \<Longrightarrow> ids_ok (snd (transitionLifecycleUsageProbe stamp now rq m))"
  by (auto simp: transitionLifecycleUsageProbe_def Let_def split: option.split intro!: ids_ok_put)

lemma refresh_ids:
  assumes "ids_ok m" "\<And>x. ids_ok x \<Longrightarrow> ids_ok (between x)"
  shows "ids_ok (snd (forceRefreshLifecycleToken exec between now rq m))"
  using assms(1) assms(2) [OF assms(1)]
  by (auto simp: forceRefreshLifecycleToken_def Let_def mergeRefreshed_def lifecycleAuth_id
      split: option.split sum.split intro!: ids_ok_put)

definition preserves :: "(auth_table \<Rightarrow> bool) \<Rightarrow> (nat \<Rightarrow> auth_table \<Rightarrow> auth_table) \<Rightarrow> bool" where
  "preserves P other \<longleftrightarrow> (\<forall>i m. P m \<longrightarrow> P (other i m))"

lemma preservesD: "preserves P other \<Longrightarrow> P m \<Longrightarrow> P (other i m)"
  by (simp add: preserves_def)

lemma attempt_ids:
  assumes "ids_ok m" "preserves ids_ok other"
  shows "ids_ok (snd (attemptRateLimit calls other fmt now rq m))" "ids_ok (snd (attemptRefresh calls other fmt now rq m))"
proof -
  have p: "ids_ok (snd (transitionLifecycleUsageProbe (fmt now) now rq (other 0 m)))"
    by (intro probe_ids preservesD [OF assms(2)] assms(1))
  show "ids_ok (snd (attemptRateLimit calls other fmt now rq m))"
    using p preservesD [OF assms(2)] by (auto simp: attemptRateLimit_def Let_def split: prod.split sum.split option.split)
  have t: "ids_ok (snd (transitionLifecycle (fmt now) now rq True (other 0 m)))" by (intro transition_ids preservesD [OF assms(2)] assms(1))
  have r: "ids_ok (snd (forceRefreshLifecycleToken exec (other 2) now rq (other 1 x)))" if "ids_ok x" for exec x
    using that by (intro refresh_ids preservesD [OF assms(2)])
  have t2: "ids_ok (snd (transitionLifecycle (fmt now) now rq False (other 3 x)))" if "ids_ok x" for x
    using that by (intro transition_ids preservesD [OF assms(2)])
  show "ids_ok (snd (attemptRefresh calls other fmt now rq m))"
    unfolding attemptRefresh_def Let_def
    using t r t2 by (auto split: prod.split sum.split) (metis snd_conv)+
qed

section \<open>How an attempt ends\<close>

lemma run_parts:
  obtains err m where "(if rqRateLimit rq then attemptRateLimit calls other fmt now rq auths
      else attemptRefresh calls other fmt now rq auths) = (err, m)"
    "runLifecycleRecovery digest calls other cancelled fmt now rq auths env =
     (let ((err, effects), (m, env)) =
            (case err of
               None \<Rightarrow> completeLifecycle digest (fmt now) now rq (other 4 m) env
             | Some e \<Rightarrow> ((Some e, []), (other 4 m, env)))
      in case err of
           None \<Rightarrow> ((LifecycleDone, effects), (m, env))
         | Some StaleLifecycle \<Rightarrow> ((LifecycleStale, effects), (m, env))
         | Some (LifecycleError e) \<Rightarrow>
             if cancelled e then ((LifecycleStale, effects), (m, env))
             else let ((retry, effects'), m) = failLifecycle digest fmt now rq e (other 5 m)
                  in ((LifecycleRetry retry, effects @ effects'), (m, env)))"
proof -
  obtain err m where e: "(if rqRateLimit rq then attemptRateLimit calls other fmt now rq auths
      else attemptRefresh calls other fmt now rq auths) = (err, m)" by (metis prod.collapse)
  show thesis by (rule that [OF e]) (simp add: runLifecycleRecovery_def e Let_def)
qed

lemma complete_cases:
  assumes "completeLifecycle digest stamp now rq m env = ((err, effects), (m', env'))"
  shows "(err = Some StaleLifecycle \<and> m' = m \<and> env' = env \<and> lifecycleAuth m rq = None) \<or>
    (\<exists>a a'. err = None \<and> lifecycleAuth m rq = Some a \<and> ID a' = ID a \<and> glookup m' (ID a) = Some (Some a') \<and>
       authStatus a' = StatusActive \<and> Disabled a' = Disabled a \<and> \<not> Unavailable a' \<and> ModelStates a' = [] \<and> NextRetryAfter a' = zeroTime \<and> Quota a' = zeroQuota \<and>
       metadataString (Metadata a') (if rqKind rq = authLifecycleInitialization then ''initialization_state'' else ''recovery_state'') = ''ready'')"
proof (cases "lifecycleAuth m rq")
  case None
  then show ?thesis using assms by (simp add: completeLifecycle_def)
next
  case (Some a)
  then show ?thesis using assms unfolding completeLifecycle_def Some option.case Let_def
    by (cases "rqKind rq = authLifecycleInitialization")
      (auto simp: glookup_put glookup_del split: prod.splits)
qed

lemma fail_cases:
  assumes "failLifecycle digest fmt now rq err m = ((retry, effects), m')"
  shows "(lifecycleAuth m rq = None \<and> retry = 0 \<and> m' = m) \<or>
    (\<exists>a a'. lifecycleAuth m rq = Some a \<and> ID a' = ID a \<and> glookup m' (ID a) = Some (Some a') \<and>
       (if \<not> rqRateLimit rq \<and> isTerminalCredentialFailure err then retry = 0 \<and> Disabled a' \<and> authStatus a' = StatusDisabled
        else authRecoveryInitialBackoff \<le> retry \<and> retry \<le> authRecoveryMaxBackoff \<and> Disabled a' = Disabled a \<and>
          authStatus a' = (if rqKind rq = authLifecycleInitialization then StatusInitializationFailed else StatusRecoveryFailed) \<and>
          NextRetryAfter a' = now + retry \<and> (\<forall>k. k \<noteq> ID a \<and> k \<noteq> rqAuthID rq \<longrightarrow> glookup m' k = glookup m k) \<and>
          (let p = (if rqKind rq = authLifecycleInitialization then ''initialization_'' else ''recovery_'')
           in Metadata a' = gput (p @ ''next_retry_at'') (GStr (fmt (now + retry))) (gput (p @ ''updated_at'') (GStr (fmt now))
               (gput (p @ ''error'') (GStr (trim_space (geText err))) (gput (p @ ''state'')
                 (GStr (if rqKind rq = authLifecycleInitialization then ''initialization_failed'' else ''recovery_failed'')) (Metadata a)))))))"
proof (cases "lifecycleAuth m rq")
  case None
  then show ?thesis using assms by (simp add: failLifecycle_def)
next
  case (Some a)
  then show ?thesis using assms recovery_backoff_range unfolding failLifecycle_def Some option.case Let_def
    by (cases "rqKind rq = authLifecycleInitialization"; cases "\<not> rqRateLimit rq \<and> isTerminalCredentialFailure err")
      (auto simp: glookup_put glookup_del split: prod.splits)
qed

lemma run_ids:
  assumes "ids_ok auths" "preserves ids_ok other"
    and "(if rqRateLimit rq then attemptRateLimit calls other fmt now rq auths
      else attemptRefresh calls other fmt now rq auths) = (err, m)"
  shows "ids_ok m"
  using attempt_ids [OF assms(1,2), where calls = calls and fmt = fmt and now = now and rq = rq] assms(3)
  by (auto split: if_splits)

lemma run_done:
  assumes "runLifecycleRecovery digest calls other cancelled fmt now rq auths env = ((LifecycleDone, effects), (m', env'))"
    and "ids_ok auths" "preserves ids_ok other"
  obtains m where "ids_ok m" "completeLifecycle digest (fmt now) now rq m env = ((None, effects), (m', env'))"
proof -
  obtain err m where e: "(if rqRateLimit rq then attemptRateLimit calls other fmt now rq auths
      else attemptRefresh calls other fmt now rq auths) = (err, m)"
    and r: "runLifecycleRecovery digest calls other cancelled fmt now rq auths env =
     (let ((err, effects), (m, env)) =
            (case err of
               None \<Rightarrow> completeLifecycle digest (fmt now) now rq (other 4 m) env
             | Some e \<Rightarrow> ((Some e, []), (other 4 m, env)))
      in case err of
           None \<Rightarrow> ((LifecycleDone, effects), (m, env))
         | Some StaleLifecycle \<Rightarrow> ((LifecycleStale, effects), (m, env))
         | Some (LifecycleError e) \<Rightarrow>
             if cancelled e then ((LifecycleStale, effects), (m, env))
             else let ((retry, effects'), m) = failLifecycle digest fmt now rq e (other 5 m)
                  in ((LifecycleRetry retry, effects @ effects'), (m, env)))"
    by (rule run_parts)
  have "completeLifecycle digest (fmt now) now rq (other 4 m) env = ((None, effects), (m', env'))"
    using r assms(1)
    by (auto split: option.splits prod.splits lifecycle_error.splits if_splits)
  then show thesis using that preservesD [OF assms(3) run_ids [OF assms(2,3) e]] by blast
qed

lemma ready_text: "to_lower (trim_space ''ready'') = ''ready''"
  by code_simp

text \<open>
  C16 (a finished lifecycle leaves the credential ready). Whatever other parts of the system do to
  the table between the sections of an attempt, when the attempt reports that it is done the
  credential is active, no longer blocked by that lifecycle, and accepted for every model.
\<close>

theorem lifecycle_done_ready:
  assumes "runLifecycleRecovery digest calls other cancelled fmt now rq auths env = ((LifecycleDone, effects), (m, env'))"
    and "ids_ok auths" "preserves ids_ok other"
  shows "\<exists>a. glookup m (rqAuthID rq) = Some (Some a) \<and> authStatus a = StatusActive \<and> \<not> Disabled a \<and>
    (\<forall>model t. authModelAvailabilityBlock (Some a) model t = open_model) \<and>
    \<not> (if rqKind rq = authLifecycleInitialization then IsAuthInitializationBlocking (Some a) else IsAuthRecoveryBlocking (Some a))"
proof -
  obtain m0 where m0: "ids_ok m0" and c: "completeLifecycle digest (fmt now) now rq m0 env = ((None, effects), (m, env'))"
    by (rule run_done [OF assms])
  obtain a0 a where a0: "lifecycleAuth m0 rq = Some a0" and a: "ID a = ID a0" "glookup m (ID a0) = Some (Some a)"
    "authStatus a = StatusActive" "Disabled a = Disabled a0" "\<not> Unavailable a" "ModelStates a = []" "NextRetryAfter a = zeroTime"
    "Quota a = zeroQuota"
    "metadataString (Metadata a) (if rqKind rq = authLifecycleInitialization then ''initialization_state'' else ''recovery_state'') = ''ready''"
    using complete_cases [OF c] by blast
  have "\<not> Disabled a0" using lifecycleAuth_Some [OF a0] by (simp add: lifecycleGenerationMatches_def split: if_splits)
  moreover have "authModelAvailabilityBlock (Some a) model t = open_model" for model t
    using a by (simp add: authModelAvailabilityBlock_def availabilityBlock_def)
  moreover have "\<not> (if rqKind rq = authLifecycleInitialization then IsAuthInitializationBlocking (Some a) else IsAuthRecoveryBlocking (Some a))"
    using a(3,9)
    by (cases "rqKind rq")
      (auto simp: IsAuthInitializationBlocking_def IsAuthRecoveryBlocking_def InitializationStateFromMetadata_def AuthRecoveryState_def ready_text)
  ultimately show ?thesis using a lifecycleAuth_id [OF m0 a0] by auto
qed

lemma run_retry:
  assumes "runLifecycleRecovery digest calls other cancelled fmt now rq auths env = ((LifecycleRetry retry, effects), (m', env'))"
    and "ids_ok auths" "preserves ids_ok other"
  obtains m err effects' where "ids_ok m" "failLifecycle digest fmt now rq err m = ((retry, effects'), m')"
proof -
  obtain err m where e: "(if rqRateLimit rq then attemptRateLimit calls other fmt now rq auths
      else attemptRefresh calls other fmt now rq auths) = (err, m)"
    and r: "runLifecycleRecovery digest calls other cancelled fmt now rq auths env =
     (let ((err, effects), (m, env)) =
            (case err of
               None \<Rightarrow> completeLifecycle digest (fmt now) now rq (other 4 m) env
             | Some e \<Rightarrow> ((Some e, []), (other 4 m, env)))
      in case err of
           None \<Rightarrow> ((LifecycleDone, effects), (m, env))
         | Some StaleLifecycle \<Rightarrow> ((LifecycleStale, effects), (m, env))
         | Some (LifecycleError e) \<Rightarrow>
             if cancelled e then ((LifecycleStale, effects), (m, env))
             else let ((retry, effects'), m) = failLifecycle digest fmt now rq e (other 5 m)
                  in ((LifecycleRetry retry, effects @ effects'), (m, env)))"
    by (rule run_parts)
  have ok: "ids_ok (other 4 m)" using preservesD [OF assms(3) run_ids [OF assms(2,3) e]] .
  show thesis
  proof (cases err)
    case None
    obtain cerr ceff cm cenv where c: "completeLifecycle digest (fmt now) now rq (other 4 m) env = ((cerr, ceff), (cm, cenv))"
      by (metis prod.collapse)
    from complete_cases [OF c] show thesis using r assms(1) None c by auto
  next
    case (Some le)
    then show thesis using r assms(1) that [OF preservesD [OF assms(3) ok]]
      by (auto split: prod.splits lifecycle_error.splits if_splits)
  qed
qed

text \<open>
  The time stamps the source writes are read back as the time they were made from: what is
  needed of \<open>Format\<close>, at one time.
\<close>

definition stamps :: "(gotime \<Rightarrow> string) \<Rightarrow> gotime \<Rightarrow> bool" where
  "stamps fmt t \<longleftrightarrow> fmt t \<noteq> '''' \<and> trim_space (fmt t) = fmt t \<and> time_parse RFC3339 (fmt t) = Some t"

lemma failed_text: "to_lower (trim_space ''initialization_failed'') = ''initialization_failed''"
  "to_lower (trim_space ''recovery_failed'') = ''recovery_failed''"
  by code_simp+

lemma stamped_time:
  "stamps fmt t \<Longrightarrow> glookup md key = Some (GStr (fmt t)) \<Longrightarrow> initializationMetadataTime md key = t"
  by (simp add: stamps_def initializationMetadataTime_def initializationMetadataString_def Let_def)

text \<open>
  C17 (a failed attempt is tried again). When an attempt fails and may be repeated, the credential it
  leaves in the table - and with it the file that is written - asks for an attempt of the same
  generation, also after a restart: not before the wait is over, and exactly then unless a rate
  limit lasts longer.
\<close>

theorem failed_attempt_requeued:
  assumes "runLifecycleRecovery digest calls other cancelled fmt now rq auths env = ((LifecycleRetry retry, effects), (m, env'))"
    and "ids_ok auths" "preserves ids_ok other" "0 < retry" "stamps fmt (now + retry)" "0 < now"
  shows "authRecoveryInitialBackoff \<le> retry \<and> retry \<le> authRecoveryMaxBackoff \<and>
    (\<exists>a. glookup m (rqAuthID rq) = Some (Some a) \<and> \<not> Disabled a \<and> NextRetryAfter a = now + retry \<and>
       (rqKind rq = authLifecycleInitialization \<or> InitializationStateFromMetadata (Metadata a) \<in> {None, Some InitializationStateReady} \<longrightarrow>
         (\<exists>rq'. lifecycleRecoveryRequest a later st = Some rq' \<and> rqAuthID rq' = rqAuthID rq \<and> rqKind rq' = rqKind rq \<and>
            rqGeneration rq' = rqGeneration rq \<and> now + retry \<le> rqDue rq' \<and> (\<not> rqRateLimit rq' \<longrightarrow> rqDue rq' = now + retry))))"
proof -
  obtain m0 err eff where m0: "ids_ok m0" and f: "failLifecycle digest fmt now rq err m0 = ((retry, eff), m)"
    by (rule run_retry [OF assms(1-3)])
  let ?init = "rqKind rq = authLifecycleInitialization"
  let ?p = "if ?init then ''initialization_'' else ''recovery_''"
  obtain a0 a where a0: "lifecycleAuth m0 rq = Some a0" and a: "ID a = ID a0" "glookup m (ID a0) = Some (Some a)"
    "authRecoveryInitialBackoff \<le> retry" "retry \<le> authRecoveryMaxBackoff" "Disabled a = Disabled a0"
    "authStatus a = (if ?init then StatusInitializationFailed else StatusRecoveryFailed)" "NextRetryAfter a = now + retry"
    "Metadata a = gput (?p @ ''next_retry_at'') (GStr (fmt (now + retry))) (gput (?p @ ''updated_at'') (GStr (fmt now))
               (gput (?p @ ''error'') (GStr (trim_space (geText err))) (gput (?p @ ''state'')
                 (GStr (if ?init then ''initialization_failed'' else ''recovery_failed'')) (Metadata a0))))"
    using fail_cases [OF f] assms(4) by (auto simp: Let_def split: if_split_asm)
  have match: "\<not> Disabled a0" "rqGeneration rq \<noteq> ''''"
    "if ?init then AuthInitializationGeneration a0 = rqGeneration rq else AuthRecoveryGeneration a0 = rqGeneration rq"
    using lifecycleAuth_Some [OF a0] by (simp_all add: lifecycleGenerationMatches_def split: if_splits)
  have id: "ID a0 = rqAuthID rq" by (rule lifecycleAuth_id [OF m0 a0])
  have status: "authStatus a \<noteq> StatusDisabled" using a(6) by simp
  have due: "initializationMetadataTime (Metadata a) (?p @ ''next_retry_at'') = now + retry"
    by (rule stamped_time [OF assms(5)]) (simp add: a(8) glookup_put)
  have pos: "0 < now + retry" using assms(4,6) by simp
  have req: "\<exists>rq'. lifecycleRecoveryRequest a later st = Some rq' \<and> rqAuthID rq' = rqAuthID rq \<and> rqKind rq' = rqKind rq \<and>
            rqGeneration rq' = rqGeneration rq \<and> now + retry \<le> rqDue rq' \<and> (\<not> rqRateLimit rq' \<longrightarrow> rqDue rq' = now + retry)"
    if "?init \<or> InitializationStateFromMetadata (Metadata a) \<in> {None, Some InitializationStateReady}"
  proof (cases ?init)
    case True
    then have "InitializationStateFromMetadata (Metadata a) = Some InitializationStateFailed"
      "AuthInitializationGeneration a = rqGeneration rq"
      using match(3) by (simp_all add: InitializationStateFromMetadata_def AuthInitializationGeneration_def a(8) glookup_put failed_text)
    then show ?thesis using True match due status a(1,5) id pos by (simp add: lifecycleRecoveryRequest_def)
  next
    case False
    then have st: "AuthRecoveryState (Some a) = Some RecoveryStateFailed" and gen: "AuthRecoveryGeneration a = rqGeneration rq"
      using match(3) by (simp_all add: AuthRecoveryState_def AuthRecoveryGeneration_def a(8) glookup_put failed_text)
    have kind: "rqKind rq = authLifecycleRecovery" using False by (cases "rqKind rq") simp_all
    have "lifecycleRecoveryRequest a later st = recoveryRequest a later st"
      using that False status a(5) match(1) by (auto simp: lifecycleRecoveryRequest_def)
    then show ?thesis using st gen kind due False match(2) a(1) id pos
      by (simp add: recoveryRequest_def Let_def)
  qed
  then show ?thesis using a match(1) id by auto
qed

section \<open>A rate limit does not disable\<close>

definition stays :: "auth_table \<Rightarrow> auth_table \<Rightarrow> bool" where
  "stays m m' \<longleftrightarrow> (\<forall>k a. glookup m k = Some (Some a) \<and> \<not> Disabled a \<longrightarrow>
     (\<exists>a'. glookup m' k = Some (Some a') \<and> \<not> Disabled a'))"

lemma stays_refl [simp]: "stays m m"
  by (simp add: stays_def)

lemma stays_trans: "stays m n \<Longrightarrow> stays n p \<Longrightarrow> stays m p"
  unfolding stays_def by meson

lemma stays_put: "\<not> Disabled a \<Longrightarrow> stays m (gput k (Some a) m)"
  by (simp add: stays_def glookup_put)

lemma stays_around:
  "stays (gput j (Some b) m) y \<Longrightarrow> \<not> Disabled b \<Longrightarrow> \<not> Disabled c \<Longrightarrow> stays m (gput i (Some c) y)"
  by (blast intro: stays_trans stays_put)

lemma matched_enabled: "lifecycleAuth m rq = Some a \<Longrightarrow> \<not> Disabled a"
  by (auto simp: lifecycleGenerationMatches_def dest!: lifecycleAuth_Some split: if_splits)

lemma probe_stays: "stays m (snd (transitionLifecycleUsageProbe stamp now rq m))"
  using matched_enabled [of m rq]
  by (auto simp: transitionLifecycleUsageProbe_def Let_def split: option.split intro!: stays_put)

lemma changePeers_stays:
  assumes "\<And>k c c'. f k c = Some c' \<Longrightarrow> Disabled c' = Disabled c"
  shows "stays m (fst (changePeers f m))"
  using assms by (auto simp: stays_def changePeers_lookup split: option.splits)

lemma complete_stays:
  assumes "completeLifecycle digest stamp now rq m env = ((err, effects), (m', env'))"
  shows "stays m m'"
proof (cases "lifecycleAuth m rq")
  case None
  then show ?thesis using assms by (simp add: completeLifecycle_def)
next
  case (Some a)
  have peers: "changePeers (recoverPeer digest now b) x = (y, ps) \<Longrightarrow> stays x y" for b x y ps
  proof -
    assume "changePeers (recoverPeer digest now b) x = (y, ps)"
    moreover have "Disabled c' = Disabled c" if "recoverPeer digest now b k c = Some c'" for k c c'
      using that by (auto simp: recoverPeer_def copyRefreshedCredentialMetadata_def split: if_splits)
    then have "stays x (fst (changePeers (recoverPeer digest now b) x))" by (rule changePeers_stays)
    ultimately show "stays x y" by simp
  qed
  show ?thesis using assms matched_enabled [OF Some] unfolding completeLifecycle_def Some option.case Let_def
    by (cases "rqKind rq = authLifecycleInitialization")
      (auto split: prod.splits dest!: peers intro!: stays_trans [OF stays_put stays_put] elim!: stays_around)
qed

lemma fail_stays:
  assumes "failLifecycle digest fmt now rq err m = ((retry, effects), m')" "rqRateLimit rq"
  shows "stays m m'"
proof (cases "lifecycleAuth m rq")
  case None
  then show ?thesis using assms by (simp add: failLifecycle_def)
next
  case (Some a)
  then show ?thesis using assms matched_enabled [OF Some] unfolding failLifecycle_def Some option.case Let_def
    by (auto intro!: stays_trans [OF stays_put stays_put])
qed

definition interferes_mildly :: "(nat \<Rightarrow> auth_table \<Rightarrow> auth_table) \<Rightarrow> bool" where
  "interferes_mildly other \<longleftrightarrow> (\<forall>i m. stays m (other i m))"

lemma attempt_stays:
  assumes "interferes_mildly other" "attemptRateLimit calls other fmt now rq m = (err, m')"
  shows "stays m m'"
proof -
  have o: "stays x (other i x)" for i x using assms(1) by (simp add: interferes_mildly_def)
  obtain r m1 where p: "transitionLifecycleUsageProbe (fmt now) now rq (other 0 m) = (r, m1)" by fastforce
  have "stays m m1" using stays_trans [OF o probe_stays [of "other 0 m" "fmt now" now rq]] by (simp add: p)
  then have s: "stays m m1" "stays m (other 1 m1)" "stays m (other 2 (other 1 m1))"
    using o stays_trans by blast+
  show ?thesis using assms(2) s by (auto simp: attemptRateLimit_def p Let_def split: sum.splits option.splits)
qed

text \<open>
  C23 (recovering from a rate limit disables nothing). Whatever the provider answers to the probe -
  a revoked token included - an attempt that was queued for a rate limit leaves every enabled
  credential enabled, as long as the rest of the system does so between its sections.
\<close>

theorem rate_limit_recovery_keeps_enabled:
  assumes "runLifecycleRecovery digest calls other cancelled fmt now rq auths env = ((outcome, effects), (m, env'))"
    and "rqRateLimit rq" "interferes_mildly other" "glookup auths k = Some (Some a)" "\<not> Disabled a"
  shows "\<exists>a'. glookup m k = Some (Some a') \<and> \<not> Disabled a'"
proof -
  have o: "stays x (other i x)" for i x using assms(3) by (simp add: interferes_mildly_def)
  obtain err m1 where e: "attemptRateLimit calls other fmt now rq auths = (err, m1)" by fastforce
  have s1: "stays auths m1" "stays auths (other 4 m1)"
    using attempt_stays [OF assms(3) e] stays_trans [OF _ o] by blast+
  obtain cerr ceff cm cenv where c: "completeLifecycle digest (fmt now) now rq (other 4 m1) env = ((cerr, ceff), (cm, cenv))"
    by (metis prod.collapse)
  have s2: "stays auths cm" using stays_trans [OF s1(2) complete_stays [OF c]] .
  have s3: "stays auths y" if "failLifecycle digest fmt now rq g (other 5 x) = ((r, eff), y)" "stays auths x" for g x r eff y
    using stays_trans [OF stays_trans [OF that(2) o] fail_stays [OF that(1) assms(2)]] .
  have "stays auths m"
    using assms(1,2) s1 s2 e c
    by (cases err) (auto simp: runLifecycleRecovery_def Let_def split: prod.splits option.splits lifecycle_error.splits if_splits dest: s3)
  then show ?thesis using assms(4,5) by (auto simp: stays_def)
qed

section \<open>The loop\<close>

text \<open>
  The requests in progress are at most as many as configured, the channels keep to their bound,
  and every request anywhere names a credential and a generation.
\<close>

definition requests_ok :: "authRecoveryRequest set \<Rightarrow> bool" where
  "requests_ok S \<longleftrightarrow> (\<forall>r \<in> S. rqAuthID r \<noteq> '''' \<and> rqGeneration r \<noteq> '''')"

definition keyed :: "(string, authRecoveryRequest) gomap \<Rightarrow> bool" where
  "keyed m \<longleftrightarrow> gomap_ok m \<and> (\<forall>k r. glookup m k = Some r \<longrightarrow> rqAuthID r = k \<and> k \<noteq> '''' \<and> rqGeneration r \<noteq> '''')"

definition loop_ok :: "authRecoveryLoop \<Rightarrow> bool" where
  "loop_ok l \<longleftrightarrow> 0 < rlConcurrency l \<and> int (length (rlActive l)) \<le> rlConcurrency l \<and>
     length (rlRequests l) \<le> authRecoveryRequestBuffer \<and> length (rlResults l) \<le> authRecoveryRequestBuffer \<and>
     requests_ok (set (rlRequests l) \<union> set (rlRunning l) \<union> fst ` set (rlResults l)) \<and>
     keyed (rlOverflow l) \<and> keyed (rlPending l) \<and> keyed (rlActive l)"

lemma keyed_put: "keyed m \<Longrightarrow> rqAuthID r \<noteq> '''' \<Longrightarrow> rqGeneration r \<noteq> '''' \<Longrightarrow> keyed (gput (rqAuthID r) r m)"
  unfolding keyed_def by (simp add: glookup_put)

lemma keyed_del: "keyed m \<Longrightarrow> keyed (gdel k m)"
  unfolding keyed_def by (simp add: glookup_del)

lemma keyed_lookup: "keyed m \<Longrightarrow> (k, r) \<in> set m \<Longrightarrow> rqAuthID r = k \<and> k \<noteq> '''' \<and> rqGeneration r \<noteq> ''''"
  by (simp add: keyed_def gomap_mem)

lemma putPending_keyed: "keyed m \<Longrightarrow> rqAuthID r \<noteq> '''' \<Longrightarrow> rqGeneration r \<noteq> '''' \<Longrightarrow> keyed (putPending r m)"
  by (auto simp: putPending_def keyed_put split: option.split)

lemma fold_putPending:
  "requests_ok (snd ` set o') \<Longrightarrow> keyed m \<Longrightarrow> keyed (fold (\<lambda>(_, request) pending. putPending request pending) o' m)"
  by (induction o' arbitrary: m) (auto simp: requests_ok_def putPending_keyed)
lemma drain_ok: "loop_ok l \<Longrightarrow> loop_ok (drainOverflow l)"
proof -
  assume ok: "loop_ok l"
  have "keyed (fold (\<lambda>(_, request) pending. putPending request pending) (rlOverflow l) (rlPending l))"
    using ok keyed_lookup [of "rlOverflow l"] by (intro fold_putPending) (auto simp: loop_ok_def requests_ok_def)
  moreover have "keyed []" by (simp add: keyed_def)
  ultimately show "loop_ok (drainOverflow l)" using ok by (simp add: loop_ok_def drainOverflow_def)
qed

lemma selectDue_mem: "selectDue now m = Some r \<Longrightarrow> \<exists>k. (k, r) \<in> set m"
proof -
  have "fold (\<lambda>(_, request) selected. if rqDue request > now then selected
             else case selected of None \<Rightarrow> Some request
                  | Some s \<Rightarrow> if rqDue request < rqDue s then Some request else selected) m s = Some r \<Longrightarrow>
        s = Some r \<or> (\<exists>k. (k, r) \<in> set m)" for s
  proof (induction m arbitrary: s)
    case (Cons x m)
    obtain k q where x: "x = (k, q)" by fastforce
    define s' where "s' = (if rqDue q > now then s
             else case s of None \<Rightarrow> Some q | Some t \<Rightarrow> if rqDue q < rqDue t then Some q else s)"
    have "s' = s \<or> s' = Some q" unfolding s'_def by (cases s) auto
    moreover have "s' = Some r \<or> (\<exists>k. (k, r) \<in> set m)" using Cons.IH [of s'] Cons.prems unfolding x s'_def by simp
    ultimately show ?case unfolding x by auto
  qed simp
  then show "selectDue now m = Some r \<Longrightarrow> \<exists>k. (k, r) \<in> set m" unfolding selectDue_def by blast
qed

lemma length_put_le: "gomap_ok m \<Longrightarrow> length (gput k v m) \<le> Suc (length m)"
  by (simp add: length_put)

lemma dispatchLoop_ok: "loop_ok l \<Longrightarrow> loop_ok (dispatchLoop n now l)"
proof (induction n arbitrary: l)
  case (Suc n)
  show ?case
  proof (cases "int (length (rlActive l)) < rlConcurrency l \<and> selectDue now (rlPending l) \<noteq> None")
    case True
    then obtain r where r: "selectDue now (rlPending l) = Some r" by blast
    have "keyed (rlPending l)" "keyed (rlActive l)" using Suc.prems by (simp_all add: loop_ok_def)
    moreover have m: "rqAuthID r \<noteq> '''' \<and> rqGeneration r \<noteq> ''''"
      using keyed_lookup [OF calculation(1)] selectDue_mem [OF r] by blast
    moreover have "length (gput (rqAuthID r) r (rlActive l)) \<le> Suc (length (rlActive l))"
      using calculation(2) by (intro length_put_le) (simp add: keyed_def)
    ultimately have "loop_ok (l\<lparr>rlPending := gdel (rqAuthID r) (rlPending l), rlActive := gput (rqAuthID r) r (rlActive l),
        rlRunning := rlRunning l @ [r]\<rparr>)"
      using Suc.prems True by (auto simp: loop_ok_def requests_ok_def keyed_put keyed_del)
    then show ?thesis using Suc.IH True r by simp
  next
    case False
    then show ?thesis using Suc.prems by auto
  qed
qed simp

lemma dispatch_ok: "loop_ok l \<Longrightarrow> loop_ok (dispatch now (drainOverflow l))"
  by (simp add: dispatch_def dispatchLoop_ok drain_ok)

lemma dispatchLoop_channels [simp]:
  "rlRequests (dispatchLoop n now l) = rlRequests l" "rlResults (dispatchLoop n now l) = rlResults l"
  "rlConcurrency (dispatchLoop n now l) = rlConcurrency l"
  by (induction n arbitrary: l) (auto split: option.split)

lemma dispatch_channels [simp]:
  "rlRequests (dispatch now (drainOverflow l)) = rlRequests l" "rlResults (dispatch now (drainOverflow l)) = rlResults l"
  by (simp_all add: dispatch_def drainOverflow_def)

lemma enqueue_ok:
  assumes "loop_ok l"
  shows "loop_ok (enqueueRecovery now request l)"
proof (cases "rqAuthID request = '''' \<or> rqGeneration request = ''''")
  case True
  then show ?thesis using assms by (simp add: enqueueRecovery_def)
next
  case False
  define r where "r = (if rqDue request = zeroTime then request\<lparr>rqDue := now\<rparr> else request)"
  have r: "rqAuthID r = rqAuthID request" "rqAuthID r \<noteq> ''''" "rqGeneration r \<noteq> ''''" using False by (simp_all add: r_def)
  have e: "enqueueRecovery now request l =
      (if length (rlRequests l) < authRecoveryRequestBuffer then l\<lparr>rlRequests := rlRequests l @ [r]\<rparr>
       else l\<lparr>rlOverflow := gput (rqAuthID r) r (rlOverflow l)\<rparr>)"
    using False by (simp add: enqueueRecovery_def Let_def r_def)
  have "keyed (gput (rqAuthID r) r (rlOverflow l))" using assms r by (intro keyed_put) (simp_all add: loop_ok_def)
  then show ?thesis using assms r unfolding e by (auto simp: loop_ok_def requests_ok_def)
qed

lemma receiveRequest_ok:
  assumes "loop_ok l" "rqAuthID request \<noteq> ''''" "rqGeneration request \<noteq> ''''"
  shows "loop_ok (receiveRequest request l)"
proof -
  have "keyed (putPending request (rlPending l))" using assms by (intro putPending_keyed) (simp_all add: loop_ok_def)
  then have "loop_ok (l\<lparr>rlPending := putPending request (rlPending l)\<rparr>)" using assms(1) by (simp add: loop_ok_def)
  then show ?thesis using assms(1) by (auto simp: receiveRequest_def split: option.split)
qed

lemma length_del_le: "length (gdel k m) \<le> length m"
  by (rule length_delete_le)

lemma receiveResult_ok:
  assumes "loop_ok l" "rqAuthID request \<noteq> ''''" "rqGeneration request \<noteq> ''''"
  shows "loop_ok (receiveResult now request retry stale l)"
proof -
  have a: "keyed (gdel (rqAuthID request) (rlActive l))" using assms by (intro keyed_del) (simp add: loop_ok_def)
  have n: "length (gdel (rqAuthID request) (rlActive l)) \<le> length (rlActive l)"
    by (rule length_del_le)
  let ?l = "l\<lparr>rlActive := gdel (rqAuthID request) (rlActive l)\<rparr>"
  have l: "loop_ok ?l" using assms(1) a n by (simp add: loop_ok_def)
  have "keyed (gput (rqAuthID (request\<lparr>rqDue := t\<rparr>)) (request\<lparr>rqDue := t\<rparr>) (rlPending l))" for t
    using assms by (intro keyed_put) (simp_all add: loop_ok_def)
  then have "loop_ok (?l\<lparr>rlPending := gput (rqAuthID request) (request\<lparr>rqDue := t\<rparr>) (rlPending l)\<rparr>)" for t
    using l by (simp add: loop_ok_def)
  then show ?thesis using l by (simp add: receiveResult_def Let_def)
qed

lemma loop_step_ok:
  assumes l: "loop_ok l" and step: "loop_step l l'"
  shows "loop_ok l'"
  using step
proof cases
  case (enqueue now request)
  then show ?thesis using enqueue_ok [OF l] by simp
next
  case (tick now)
  then show ?thesis using dispatch_ok [OF l] by simp
next
  case (request req rest now)
  have "loop_ok ((dispatch now (drainOverflow l))\<lparr>rlRequests := rest\<rparr>)"
    using dispatch_ok [OF l, of now] request(2) by (auto simp: loop_ok_def requests_ok_def)
  moreover have "rqAuthID req \<noteq> ''''" "rqGeneration req \<noteq> ''''" using l request(2) by (auto simp: loop_ok_def requests_ok_def)
  ultimately show ?thesis unfolding request(1) by (rule receiveRequest_ok)
next
  case (result req retry stale rest now' now)
  have "loop_ok ((dispatch now (drainOverflow l))\<lparr>rlResults := rest\<rparr>)"
    using dispatch_ok [OF l, of now] result(2) by (auto simp: loop_ok_def requests_ok_def)
  moreover have "rqAuthID req \<noteq> ''''" "rqGeneration req \<noteq> ''''" using l result(2) by (auto simp: loop_ok_def requests_ok_def)
  ultimately show ?thesis unfolding result(1) by (rule receiveResult_ok)
next
  case (worker req retry stale)
  have "set (remove1 req (rlRunning l)) \<subseteq> set (rlRunning l)" by (rule set_remove1_subset)
  then show ?thesis using l worker unfolding loop_ok_def by (auto simp: requests_ok_def)
qed

definition new_loop :: "authRecoveryLoop \<Rightarrow> bool" where
  "new_loop l \<longleftrightarrow> (\<exists>concurrency. l = newAuthRecoveryLoop concurrency)"

lemma new_loop_ok: "new_loop l \<Longrightarrow> loop_ok l"
  by (auto simp: new_loop_def newAuthRecoveryLoop_def loop_ok_def requests_ok_def keyed_def)

interpretation recoveries: invariant_system new_loop loop_step loop_ok
  by unfold_locales (auto intro: new_loop_ok loop_step_ok)



text \<open>
  The workers are not bounded like that: a request of a newer generation replaces the one in
  progress in the map, so with two allowed three can run.
\<close>

definition exampleRequest :: "string \<Rightarrow> bool \<Rightarrow> authRecoveryRequest" where
  "exampleRequest generation rateLimit =
     \<lparr>rqAuthID = ''a'', rqKind = authLifecycleRecovery, rqGeneration = generation, rqDue = 1, rqRateLimit = rateLimit\<rparr>"

definition one_more :: "string \<Rightarrow> authRecoveryLoop \<Rightarrow> authRecoveryLoop" where
  "one_more generation l =
     (let l = enqueueRecovery 1 (exampleRequest generation True) l
      in case rlRequests l of
           [] \<Rightarrow> l
         | request # rest \<Rightarrow>
             dispatch 1 (drainOverflow (receiveRequest request ((dispatch 1 (drainOverflow l))\<lparr>rlRequests := rest\<rparr>))))"

lemma one_more_steps:
  assumes "reachable init loop_step l"
  shows "reachable init loop_step (one_more generation l)"
proof -
  note more = reachable_step [where step = loop_step, OF _ loop_step.enqueue] reachable_step [where step = loop_step, OF _ loop_step.tick]
    reachable_step [where step = loop_step, OF _ loop_step.request]
  let ?l = "enqueueRecovery 1 (exampleRequest generation True) l"
  have l: "reachable init loop_step ?l" by (rule more(1) [OF assms])
  show ?thesis
  proof (cases "rlRequests ?l")
    case Nil
    then show ?thesis using l by (simp add: one_more_def)
  next
    case (Cons request rest)
    then show ?thesis using more(2) [OF more(3) [OF l Cons]] by (simp add: one_more_def)
  qed
qed

lemma running_exceeds:
  "\<exists>l. reachable new_loop loop_step l \<and> rlConcurrency l < int (length (rlRunning l)) \<and> length (rlActive l) = 1"
proof (intro exI conjI)
  let ?l = "one_more ''3'' (one_more ''2'' (one_more ''1'' (newAuthRecoveryLoop 2)))"
  show "reachable new_loop loop_step ?l"
    by (intro one_more_steps reachable_init) (auto simp: new_loop_def)
  show "rlConcurrency ?l < int (length (rlRunning ?l))" by code_simp
  show "length (rlActive ?l) = 1" by code_simp
qed


section \<open>Examples\<close>

definition exampleLifecycle :: "auth_table" where
  "exampleLifecycle = [(''a'', Some (exampleAuth ''a''
     [(''recovery_state'', GStr ''probing_usage''), (''recovery_generation'', GStr ''1''), (''access_token'', GStr ''t'')]))]"

definition exampleCalls :: "go_error option \<Rightarrow> provider_calls" where
  "exampleCalls answer = \<lparr>pcRefresh = (\<lambda>_. None), pcQuota = (\<lambda>_. None), pcProbe = (\<lambda>_. Some (\<lambda>_. answer))\<rparr>"

abbreviation exampleRun where
  "exampleRun answer \<equiv> runLifecycleRecovery (\<lambda>s. s) (exampleCalls answer) (\<lambda>_ m. m) (\<lambda>_. False)
     (\<lambda>_. ''1970-01-01T00:00:05Z'') unix_epoch (exampleRequest ''1'' True) exampleLifecycle (\<lambda>_. newRuntimeLimits)"

abbreviation "exampleRevoked \<equiv> \<lparr>geText = ''token_revoked'', geStatus = 401, geTerminal = True\<rparr>"

lemma example_done: "fst (fst (exampleRun None)) = LifecycleDone"
  by code_simp

lemma example_retry: "fst (fst (exampleRun (Some exampleRevoked))) = LifecycleRetry authRecoveryInitialBackoff"
  by code_simp

lemma example_ids: "ids_ok exampleLifecycle"
  by (simp add: ids_ok_def exampleLifecycle_def exampleAuth_def)

lemma run_outcome:
  "fst (fst r) = outcome \<Longrightarrow> r = ((outcome, snd (fst r)), (fst (snd r), snd (snd r)))"
  by auto

lemma lifecycle_done_ready_witness: "\<exists>a. glookup (fst (snd (exampleRun None))) ''a'' = Some (Some a) \<and> authStatus a = StatusActive"
proof -
  have "preserves ids_ok (\<lambda>_ m. m)" by (simp add: preserves_def)
  from lifecycle_done_ready [OF run_outcome [OF example_done] example_ids this] show ?thesis
    by (auto simp: exampleRequest_def)
qed

lemma failed_attempt_requeued_witness:
  "\<exists>a. glookup (fst (snd (exampleRun (Some exampleRevoked)))) ''a'' = Some (Some a) \<and> \<not> Disabled a \<and>
     NextRetryAfter a = unix_epoch + authRecoveryInitialBackoff"
proof -
  have p: "preserves ids_ok (\<lambda>_ m. m)" by (simp add: preserves_def)
  have s: "stamps (\<lambda>_. ''1970-01-01T00:00:05Z'') (unix_epoch + authRecoveryInitialBackoff)" unfolding stamps_def by code_simp
  have "0 < authRecoveryInitialBackoff" "0 < unix_epoch" by code_simp+
  from failed_attempt_requeued [OF run_outcome [OF example_retry] example_ids p this(1) s this(2)] show ?thesis
    by (auto simp: exampleRequest_def)
qed

lemma rate_limit_recovery_keeps_enabled_witness:
  "\<exists>a. glookup (fst (snd (exampleRun (Some exampleRevoked)))) ''a'' = Some (Some a) \<and> \<not> Disabled a"
proof -
  have m: "interferes_mildly (\<lambda>_ m. m)" by (simp add: interferes_mildly_def)
  have r: "rqRateLimit (exampleRequest ''1'' True)" by (simp add: exampleRequest_def)
  obtain a where a: "glookup exampleLifecycle ''a'' = Some (Some a)" "\<not> Disabled a"
    by (simp add: exampleLifecycle_def exampleAuth_def)
  show ?thesis by (rule rate_limit_recovery_keeps_enabled [OF run_outcome [OF example_retry] r m a])
qed

end
