(* ===== verification/ShareLimiter.thy ===== *)
theory ShareLimiter
  imports Failures Thinking "HOL-Library.Word" "HOL-Library.Log_Nat"
begin

text \<open>
  The coordinator of cache affinity (\<open>sdk/cliproxy/cacheaffinity/coordinator.go\<close>): the share of
  cold routes that may be bound in a sliding window, the decisions that were suppressed, how a
  request's identity is read, and the inspection of prompt prefixes.

  The counters for diagnostics are left out. The mutexes are the atomicity of a step. The
  fingerprint of a prompt, the name-based UUID and SHA-256 are parameters.
\<close>

abbreviation defaultShareWindow :: duration where "defaultShareWindow \<equiv> 5 * minute"
abbreviation defaultShareBucket :: duration where "defaultShareBucket \<equiv> 10 * second"
abbreviation shareBucketCount :: nat where "shareBucketCount \<equiv> 30"
abbreviation affinityShardCount :: nat where "affinityShardCount \<equiv> 64"

section \<open>Ratios of counters\<close>

text \<open>
  Rounding to the nearest of the numbers with 53 significant binary digits, a tie going to the
  even one. \<open>scale2\<close> is a power of two with an integer exponent.
\<close>

definition scale2 :: "int \<Rightarrow> rat" where
  "scale2 e = (if 0 \<le> e then 2 ^ nat e else 1 / 2 ^ nat (- e))"

definition round_even :: "rat \<Rightarrow> int" where
  "round_even q =
     (let f = \<lfloor>q\<rfloor>; r = q - of_int f
      in if r < 1 / 2 \<or> (r = 1 / 2 \<and> even f) then f else f + 1)"

definition exponent53 :: "rat \<Rightarrow> int" where
  "exponent53 q =
     (let (n, d) = quotient_of q; e = 52 - (bitlen n - bitlen d)
      in if q * scale2 e < 2 ^ 52 then e + 1 else e)"

definition round53 :: "rat \<Rightarrow> rat" where
  "round53 q = (if q \<le> 0 then 0 else of_int (round_even (q * scale2 (exponent53 q))) / scale2 (exponent53 q))"

text \<open>\<open>float64(a) / float64(b)\<close> of two \<open>uint64\<close>.\<close>

definition u64_float :: "64 word \<Rightarrow> rat" where
  "u64_float w = round53 (of_nat (unat w))"

definition u64_ratio :: "64 word \<Rightarrow> 64 word \<Rightarrow> gofloat" where
  "u64_ratio a b =
     (if b = 0 then (if a = 0 then NaN else PosInf) else Fin (round53 (u64_float a / u64_float b)))"

abbreviation flt_le :: "gofloat \<Rightarrow> gofloat \<Rightarrow> bool" where
  "flt_le a b \<equiv> flt_less a b \<or> (a = b \<and> a \<noteq> NaN)"

section \<open>The share of cold routes\<close>

record shareBucket =
  sbEpoch :: int
  sbTotal :: "64 word"
  sbActive :: "64 word"

type_synonym shareScope = "shareBucket list"

definition emptyShareScope :: shareScope where
  "emptyShareScope = replicate shareBucketCount \<lparr>sbEpoch = 0, sbTotal = 0, sbActive = 0\<rparr>"

definition shareEpoch :: "gotime \<Rightarrow> int" where
  "shareEpoch now = go_div (wrap64 (now - unix_epoch)) defaultShareBucket"

text \<open>The buckets that count at an epoch, and their sums.\<close>

definition bucketCounts :: "int \<Rightarrow> shareBucket \<Rightarrow> bool" where
  "bucketCounts epoch item \<longleftrightarrow> \<not> (sbEpoch item \<le> 0 \<or> epoch - sbEpoch item \<ge> int shareBucketCount)"

definition windowTotal :: "int \<Rightarrow> shareScope \<Rightarrow> 64 word" where
  "windowTotal epoch state = fold (\<lambda>item total. if bucketCounts epoch item then total + sbTotal item else total) state 0"

definition windowActive :: "int \<Rightarrow> shareScope \<Rightarrow> 64 word" where
  "windowActive epoch state = fold (\<lambda>item active. if bucketCounts epoch item then active + sbActive item else active) state 0"

text \<open>A negative epoch would index out of range and panic: \<open>None\<close>.\<close>

definition admitScope :: "gofloat \<Rightarrow> int \<Rightarrow> shareScope \<Rightarrow> (bool \<times> shareScope) option" where
  "admitScope maxShareRatio epoch state =
     (let i = go_mod epoch (int shareBucketCount)
      in if i < 0 then None
         else let index = nat i;
                  bucket = state ! index;
                  bucket = (if sbEpoch bucket \<noteq> epoch then \<lparr>sbEpoch = epoch, sbTotal = 0, sbActive = 0\<rparr> else bucket);
                  state = state[index := bucket];
                  total = windowTotal epoch state;
                  active = windowActive epoch state;
                  allowed = (total = 0 \<or> flt_le (u64_ratio (active + 1) (total + 1)) maxShareRatio);
                  bucket = bucket\<lparr>sbTotal := sbTotal bucket + 1,
                                  sbActive := (if allowed then sbActive bucket + 1 else sbActive bucket)\<rparr>
              in Some (allowed, state[index := bucket]))"

type_synonym shareLimiter = "(string, shareScope) gomap"

definition ratioLimits :: "gofloat \<Rightarrow> bool" where
  "ratioLimits maxShareRatio \<longleftrightarrow> \<not> (flt_le maxShareRatio (Fin 0) \<or> flt_le (Fin 1) maxShareRatio)"

definition admitShare :: "string \<Rightarrow> gofloat \<Rightarrow> gotime \<Rightarrow> shareLimiter \<Rightarrow> (bool \<times> shareLimiter) option" where
  "admitShare scope0 maxShareRatio now l =
     (if \<not> ratioLimits maxShareRatio then Some (True, l)
      else let scope = (if trim_space scope0 = '''' then ''default'' else trim_space scope0);
               state = (case glookup l scope of None \<Rightarrow> emptyShareScope | Some s \<Rightarrow> s)
           in map_option (\<lambda>(allowed, state). (allowed, gput scope state l))
                (admitScope maxShareRatio (shareEpoch now) state))"

section \<open>Reading a request\<close>

type_synonym metadata = "(string, gov) gomap"

abbreviation AccountGroupPolicyKey :: string where "AccountGroupPolicyKey \<equiv> ''account_group_policy_key''"
abbreviation RouteKeyKey :: string where "RouteKeyKey \<equiv> ''__cliproxy_cache_affinity_route_key''"
abbreviation PrefixFingerprintKey :: string where "PrefixFingerprintKey \<equiv> ''__cliproxy_cache_affinity_prefix_fingerprint''"
abbreviation AffinityActiveKey :: string where "AffinityActiveKey \<equiv> ''__cliproxy_cache_affinity_active''"
abbreviation DecisionIDKey :: string where "DecisionIDKey \<equiv> ''__cliproxy_cache_affinity_decision_id''"
abbreviation ShareLimitedKey :: string where "ShareLimitedKey \<equiv> ''__cliproxy_cache_affinity_share_limited''"

definition mdString :: "metadata \<Rightarrow> string \<Rightarrow> string" where
  "mdString md key = trim_space (metadataString md key)"

definition mdBool :: "metadata \<Rightarrow> string \<Rightarrow> bool" where
  "mdBool md key = (case glookup md key of Some (GBool b) \<Rightarrow> b | _ \<Rightarrow> False)"

definition canonicalModelFamily :: "string \<Rightarrow> string" where
  "canonicalModelFamily model0 =
     (let model = trim_space (ModelName (ParseSuffix model0)) in if model = '''' then ''unknown'' else to_lower model)"

definition normalizeEndpoint :: "string \<Rightarrow> string" where
  "normalizeEndpoint path0 =
     (let path = to_lower (trim_space path0)
      in if str_contains path ''/responses'' then ''responses''
         else if str_contains path ''/chat/completions'' then ''chat''
         else if str_contains path ''/completions'' then ''completions''
         else if str_contains path ''/realtime'' then ''realtime''
         else if str_contains path ''/models'' then ''models''
         else path)"

definition shareScopeKey :: "metadata \<Rightarrow> string \<Rightarrow> string" where
  "shareScopeKey md modelFamily0 =
     (let groupKey = (if mdString md AccountGroupPolicyKey = '''' then ''all'' else mdString md AccountGroupPolicyKey);
          endpoint = normalizeEndpoint (mdString md ''request_path'');
          endpoint = (if endpoint = '''' then ''default'' else endpoint);
          modelFamily = (if trim_space modelFamily0 = '''' then ''unknown'' else trim_space modelFamily0)
      in groupKey @ [char_of (0 :: nat)] @ modelFamily @ [char_of (0 :: nat)] @ endpoint)"

definition AdmitNewBinding ::
  "metadata \<Rightarrow> string \<Rightarrow> gofloat \<Rightarrow> gotime \<Rightarrow> gotime \<Rightarrow> shareLimiter \<Rightarrow> (bool \<times> shareLimiter) option" where
  "AdmitNewBinding md model maxShareRatio now clock l =
     (if \<not> ratioLimits maxShareRatio then Some (True, l)
      else admitShare (shareScopeKey md (canonicalModelFamily model)) maxShareRatio
             (if now = zeroTime then clock else now) l)"

section \<open>Suppressed decisions\<close>

record suppressedDecisions =
  sdEntries :: "(string, gotime) gomap"
  sdLastSweep :: gotime

definition markSuppressed :: "string \<Rightarrow> gotime \<Rightarrow> suppressedDecisions \<Rightarrow> suppressedDecisions" where
  "markSuppressed decisionID0 now s =
     (let decisionID = trim_space decisionID0
      in if decisionID = '''' then s
         else let s = (if sdLastSweep s = zeroTime \<or> now - sdLastSweep s \<ge> defaultShareBucket
                       then s\<lparr>sdEntries := filter (\<lambda>(_, expires). expires > now) (sdEntries s), sdLastSweep := now\<rparr> else s)
              in s\<lparr>sdEntries := gput decisionID (now + defaultShareWindow) (sdEntries s)\<rparr>)"

definition containsSuppressed :: "string \<Rightarrow> gotime \<Rightarrow> suppressedDecisions \<Rightarrow> bool \<times> suppressedDecisions" where
  "containsSuppressed decisionID0 now s =
     (let decisionID = trim_space decisionID0
      in if decisionID = '''' then (False, s)
         else case glookup (sdEntries s) decisionID of
                None \<Rightarrow> (False, s)
              | Some expiresAt \<Rightarrow>
                  if \<not> expiresAt > now then (False, s\<lparr>sdEntries := gdel decisionID (sdEntries s)\<rparr>) else (True, s))"

definition RecordShareLimited :: "metadata \<Rightarrow> gotime \<Rightarrow> suppressedDecisions \<Rightarrow> metadata \<times> suppressedDecisions" where
  "RecordShareLimited md now s =
     (let md = gput ShareLimitedKey (GBool True) md in (md, markSuppressed (mdString md DecisionIDKey) now s))"

definition ShareLimited :: "metadata \<Rightarrow> gotime \<Rightarrow> suppressedDecisions \<Rightarrow> bool \<times> suppressedDecisions" where
  "ShareLimited md now s =
     (if mdBool md ShareLimitedKey then (True, s) else containsSuppressed (mdString md DecisionIDKey) now s)"

definition MetadataValue :: "metadata \<Rightarrow> string \<Rightarrow> gotime \<Rightarrow> suppressedDecisions \<Rightarrow> string \<times> suppressedDecisions" where
  "MetadataValue md key now s =
     (if \<not> mdBool md AffinityActiveKey then ('''', s)
      else let (limited, s) = ShareLimited md now s in (if limited then '''' else mdString md key, s))"

section \<open>The identity of a request\<close>

definition NormalizeExplicitID :: "string \<Rightarrow> string" where
  "NormalizeExplicitID raw0 =
     (if list_ex (\<lambda>c. code_of c < 32 \<or> code_of c = 127) raw0 then ''''
      else let raw = trim_space raw0 in if raw = '''' \<or> length raw > 256 then '''' else raw)"

fun firstValue :: "string list \<Rightarrow> string option" where
  "firstValue [] = None"
| "firstValue (value # values) = (if trim_space value \<noteq> '''' then Some (trim_space value) else firstValue values)"

fun headerScan :: "http_header \<Rightarrow> string \<Rightarrow> string" where
  "headerScan [] name = ''''"
| "headerScan ((key, values) # rest) name =
     (if \<not> equal_fold key name then headerScan rest name
      else case firstValue values of Some value \<Rightarrow> value | None \<Rightarrow> headerScan rest name)"

definition headerValue :: "http_header \<Rightarrow> string \<Rightarrow> string" where
  "headerValue headers name =
     (if trim_space (header_get headers name) \<noteq> '''' then trim_space (header_get headers name) else headerScan headers name)"

text \<open>The first name whose value, made explicit, is not empty.\<close>

fun firstExplicit :: "(string \<Rightarrow> string) \<Rightarrow> string list \<Rightarrow> (string \<times> string) option" where
  "firstExplicit read [] = None"
| "firstExplicit read (name # rest) =
     (let value = NormalizeExplicitID (read name) in if value \<noteq> '''' then Some (name, value) else firstExplicit read rest)"

definition codexTurnIdentity :: "gjson_reader \<Rightarrow> http_header \<Rightarrow> (string \<times> string \<times> string) option" where
  "codexTurnIdentity gj headers =
     (let turnMetadata = headerValue headers ''X-Codex-Turn-Metadata''
      in if turnMetadata = '''' then None
         else map_option (\<lambda>(path, value). (''codex-turn:'' @ value, ''codex_turn'', if path = ''prompt_cache_key'' then value else ''''))
                (firstExplicit (gjsonGet gj turnMetadata) [''prompt_cache_key'', ''window_id'', ''conversation_id'']))"

definition resolveIdentityBeforeBody :: "gjson_reader \<Rightarrow> http_header \<Rightarrow> metadata \<Rightarrow> string \<times> string \<times> string" where
  "resolveIdentityBeforeBody gj headers md =
     (case firstExplicit (headerValue headers)
             [''X-Claude-Code-Session-Id'', ''Session-Id'', ''Session_id'', ''X-Session-ID'', ''X-Session-Affinity''] of
        Some (name, value) \<Rightarrow> (to_lower name @ '':'' @ value, ''session_header'', '''')
      | None \<Rightarrow>
          (case codexTurnIdentity gj headers of
             Some r \<Rightarrow> r
           | None \<Rightarrow>
               let windowID = NormalizeExplicitID (headerValue headers ''X-Codex-Window-Id'')
               in if windowID \<noteq> '''' then (''codex-window:'' @ windowID, ''codex_turn'', '''')
                  else if mdString md ''execution_session_id'' \<noteq> ''''
                  then (''execution:'' @ mdString md ''execution_session_id'', ''execution'', '''')
                  else if mdString md ''derived_session_id'' \<noteq> ''''
                  then (''derived:'' @ mdString md ''derived_session_id'', ''derived'', '''')
                  else ('''', '''', '''')))"

text \<open>\<open>strings.LastIndex\<close> of a text: what follows its last occurrence.\<close>

fun after_last :: "string \<Rightarrow> string \<Rightarrow> string option" where
  "after_last sep [] = None"
| "after_last sep (c # cs) =
     (case after_last sep cs of
        Some r \<Rightarrow> Some r
      | None \<Rightarrow> if has_prefix (c # cs) sep then Some (drop (length sep) (c # cs)) else None)"

definition claudeMetadataSessionID :: "gjson_reader \<Rightarrow> string \<Rightarrow> string" where
  "claudeMetadataSessionID gj body =
     (let userID = trim_space (gjsonGet gj body ''metadata.user_id'')
      in if userID = '''' then ''''
         else if has_prefix userID ''{'' then NormalizeExplicitID (gjsonGet gj userID ''session_id'')
         else case after_last ''_session_'' userID of Some r \<Rightarrow> NormalizeExplicitID r | None \<Rightarrow> '''')"

definition resolveIdentityFromBody :: "gjson_reader \<Rightarrow> http_header \<Rightarrow> string \<Rightarrow> string \<Rightarrow> metadata \<Rightarrow> string \<times> string" where
  "resolveIdentityFromBody gj headers body promptCacheKey md =
     (if promptCacheKey \<noteq> '''' then (''prompt_cache_key:'' @ promptCacheKey, ''body_session'')
      else case firstExplicit (gjsonGet gj body) [''session_id'', ''sessionId'', ''conversation_id'', ''conversation.id''] of
             Some (path, value) \<Rightarrow> (path @ '':'' @ value, ''body_session'')
           | None \<Rightarrow>
               let claude = claudeMetadataSessionID gj body;
                   request = NormalizeExplicitID (headerValue headers ''X-Client-Request-Id'');
                   caller = mdString md ''caller_scope''
               in if claude \<noteq> '''' then (''claude:'' @ claude, ''body_session'')
                  else if request \<noteq> '''' then (''client-request:'' @ request, ''client_request'')
                  else if caller \<noteq> '''' then (''caller:'' @ caller, ''caller'')
                  else ('''', ''''))"

end
