(* ===== verification/PrefixInspection.thy ===== *)
theory PrefixInspection
  imports ShareLimiter
begin

text \<open>
  The rest of \<open>sdk/cliproxy/cacheaffinity/coordinator.go\<close>: the settings, the inspection of the
  prompt prefixes of routes, and the decision that is published in a request's metadata.

  An inspection has two critical sections with the computation of the fingerprint between
  them, during which other requests run: \<open>inspectBegin\<close> and \<open>inspectFinish\<close>.
\<close>

abbreviation prefixInspectInterval :: duration where "prefixInspectInterval \<equiv> 5 * second"

section \<open>Settings\<close>

text \<open>\<open>parseDuration\<close> is \<open>time.ParseDuration\<close>.\<close>

record cacheAffinityConfig =
  caEnabled :: bool
  caShadow :: bool
  caExpiryDrainIgnoreAffinity :: bool
  caMaxEntries :: int
  caMaxRetryCredentials :: int
  caMaxConcurrency :: int
  caWebsocketPoolSlots :: int
  caMaxSessionRequests :: int
  caMaxSessionDuration :: string
  caMaxShareRatio :: gofloat
  caPrefixHeatEnabled :: bool
  caPrefixHeatTTL :: string
  caPrefixHeatMaxEntries :: int
  caPrefixHeatMinBytes :: int
  caQuotaPreemptUsedRatio :: gofloat
  caQuotaHardStopUsedRatio :: gofloat

record affinitySettings =
  stEnabled :: bool
  stShadow :: bool
  stExpiryDrainIgnoreAffinity :: bool
  stMaxEntries :: int
  stMaxRetryCredentials :: int
  stMaxConcurrency :: int
  stWebsocketPoolSlots :: int
  stMaxSessionRequests :: int
  stMaxSessionDuration :: duration
  stMaxShareRatio :: gofloat
  stPrefixHeatEnabled :: bool
  stPrefixHeatTTL :: duration
  stPrefixHeatMaxEntries :: int
  stPrefixHeatMinBytes :: int
  stQuotaPreemptUsedRatio :: gofloat
  stQuotaHardStopUsedRatio :: gofloat

definition durationSetting :: "(string \<Rightarrow> duration option) \<Rightarrow> string \<Rightarrow> duration \<Rightarrow> duration" where
  "durationSetting parseDuration raw0 fallback =
     (let raw = trim_space raw0
      in if raw = '''' then fallback
         else case parseDuration raw of Some parsed \<Rightarrow> if parsed > 0 then parsed else fallback | None \<Rightarrow> fallback)"

definition positiveOr :: "int \<Rightarrow> int \<Rightarrow> int" where
  "positiveOr value fallback = (if value \<le> 0 then fallback else value)"

definition quotaRatios :: "gofloat \<Rightarrow> gofloat \<Rightarrow> gofloat \<times> gofloat" where
  "quotaRatios preempt hardStop =
     (let preempt = (if flt_le preempt (Fin 0) \<or> flt_le (Fin 1) preempt
                     then Fin (round53 (97 / 100)) else preempt);
          hardStop = (if flt_le hardStop preempt \<or> flt_less (Fin 1) hardStop
                      then (if flt_le (Fin (round53 (99 / 100))) preempt then Fin 1 else Fin (round53 (99 / 100)))
                      else hardStop)
      in (preempt, hardStop))"

definition Settings :: "(string \<Rightarrow> duration option) \<Rightarrow> cacheAffinityConfig \<Rightarrow> affinitySettings" where
  "Settings parseDuration raw =
     (let maxEntries = positiveOr (caMaxEntries raw) 65536;
          slots = caWebsocketPoolSlots raw;
          share = caMaxShareRatio raw;
          (preempt, hardStop) = quotaRatios (caQuotaPreemptUsedRatio raw) (caQuotaHardStopUsedRatio raw)
      in \<lparr>stEnabled = caEnabled raw, stShadow = caShadow raw,
          stExpiryDrainIgnoreAffinity = caExpiryDrainIgnoreAffinity raw,
          stMaxEntries = maxEntries,
          stMaxRetryCredentials = positiveOr (caMaxRetryCredentials raw) 2,
          stMaxConcurrency = positiveOr (caMaxConcurrency raw) 8,
          stWebsocketPoolSlots = (if slots \<le> 0 then 8 else if slots > 30 then 30 else slots),
          stMaxSessionRequests = positiveOr (caMaxSessionRequests raw) 500,
          stMaxSessionDuration = durationSetting parseDuration (caMaxSessionDuration raw) hour,
          stMaxShareRatio = (if flt_less share (Fin 0) then Fin 0 else if flt_less (Fin 1) share then Fin 1 else share),
          stPrefixHeatEnabled = caPrefixHeatEnabled raw,
          stPrefixHeatTTL = durationSetting parseDuration (caPrefixHeatTTL raw) (10 * minute),
          stPrefixHeatMaxEntries = positiveOr (caPrefixHeatMaxEntries raw) maxEntries,
          stPrefixHeatMinBytes = positiveOr (caPrefixHeatMinBytes raw) 4096,
          stQuotaPreemptUsedRatio = preempt, stQuotaHardStopUsedRatio = hardStop\<rparr>)"

section \<open>Inspecting a prefix\<close>

record prefixEntry =
  peFingerprint :: string
  peLastSeen :: gotime
  peNextInspect :: gotime
  peInspecting :: bool

type_synonym prefixShard = "(string, prefixEntry) gomap"

definition prefixCapacity :: "int \<Rightarrow> int" where
  "prefixCapacity maxEntries =
     (let capacity = wrap64 (go_div maxEntries (int affinityShardCount) + 1) in if capacity < 1 then 1 else capacity)"

text \<open>The entry seen longest ago among those that are not being inspected.\<close>

definition oldestPrefix :: "prefixShard \<Rightarrow> string \<times> gotime" where
  "oldestPrefix shard =
     fold (\<lambda>(key, entry) (oldestKey, oldest).
             if peInspecting entry then (oldestKey, oldest)
             else if oldestKey = '''' \<or> peLastSeen entry < oldest then (key, peLastSeen entry)
             else (oldestKey, oldest))
       shard ('''', zeroTime)"

text \<open>\<open>Skip\<close>: the answer is given at once; \<open>Inspect\<close>: the fingerprint is computed next.\<close>

datatype inspect_begin = Skip string | Inspect

definition inspectBegin ::
  "string \<Rightarrow> int \<Rightarrow> gotime \<Rightarrow> duration \<Rightarrow> prefixShard \<Rightarrow> inspect_begin \<times> prefixShard" where
  "inspectBegin routeKey maxEntries now interval shard =
     (case glookup shard routeKey of
        Some previous \<Rightarrow>
          let previous = previous\<lparr>peLastSeen := now\<rparr>
          in if peInspecting previous \<or> now < peNextInspect previous
             then (Skip (peFingerprint previous), gput routeKey previous shard)
             else (Inspect, gput routeKey (previous\<lparr>peInspecting := True, peNextInspect := now + interval\<rparr>) shard)
      | None \<Rightarrow>
          let entry = \<lparr>peFingerprint = '''', peLastSeen = now, peNextInspect = now + interval, peInspecting = True\<rparr>
          in if int (length shard) \<ge> prefixCapacity maxEntries
             then (let oldestKey = fst (oldestPrefix shard)
                   in if oldestKey \<noteq> '''' then (Inspect, gput routeKey entry (gdel oldestKey shard))
                      else (Skip '''', shard))
             else (Inspect, gput routeKey entry shard))"

definition inspectFinish :: "string \<Rightarrow> string \<Rightarrow> gotime \<Rightarrow> prefixShard \<Rightarrow> bool \<times> prefixShard" where
  "inspectFinish routeKey currentFingerprint now shard =
     (case glookup shard routeKey of
        None \<Rightarrow> (False, shard)
      | Some current \<Rightarrow>
          (peFingerprint current \<noteq> '''' \<and> peFingerprint current \<noteq> currentFingerprint,
           gput routeKey (current\<lparr>peFingerprint := currentFingerprint, peLastSeen := now, peInspecting := False\<rparr>) shard))"

text \<open>Without interference; \<open>sum0\<close> is the first byte of SHA-256.\<close>

definition inspectPrefixWith ::
  "(string \<Rightarrow> nat) \<Rightarrow> string \<Rightarrow> int \<Rightarrow> gotime \<Rightarrow> duration \<Rightarrow> string \<Rightarrow> prefixShard list \<Rightarrow>
     (string \<times> bool) \<times> prefixShard list" where
  "inspectPrefixWith sum0 routeKey maxEntries now interval fingerprint shards =
     (if routeKey = '''' then (('''', False), shards)
      else let i = sum0 routeKey mod affinityShardCount
           in case inspectBegin routeKey maxEntries now interval (shards ! i) of
                (Skip answer, shard) \<Rightarrow> ((answer, False), shards[i := shard])
              | (Inspect, shard) \<Rightarrow>
                  let (changed, shard) = inspectFinish routeKey fingerprint now shard
                  in ((fingerprint, changed), shards[i := shard]))"

section \<open>The decision\<close>

record Decision =
  deRouteKey :: string
  deUpstreamKey :: string
  dePoolKey :: string
  dePrefixFP :: string
  dePrefixHeatFP :: string
  deSource :: string
  deDecisionID :: string
  deActive :: bool
  dePrefixChanged :: bool

record affinity_request =
  afHeaders :: http_header
  afBody :: string
  afModel :: string
  afOptions :: metadata
  afRequest :: metadata

text \<open>
  What the library functions compute: the name-based UUID of a text, the fingerprint of a
  prefix for a model family, the one of a reusable prefix with its least size.
\<close>

record affinity_hashes =
  ahUuid :: "string \<Rightarrow> string"
  ahSum0 :: "string \<Rightarrow> nat"
  ahPrefix :: "string \<Rightarrow> string \<Rightarrow> string"
  ahReusable :: "string \<Rightarrow> string \<Rightarrow> int \<Rightarrow> string"

definition stableID :: "affinity_hashes \<Rightarrow> string \<Rightarrow> string list \<Rightarrow> string" where
  "stableID h kind values =
     ahUuid h (''cli-proxy-api:cache-affinity:v1:'' @ kind @ '':'' @
       concat (case values of [] \<Rightarrow> [] | v # vs \<Rightarrow> v # concat (map (\<lambda>v. [[char_of (0 :: nat)], v]) vs)))"

definition explicitPromptCacheKey :: "gjson_reader \<Rightarrow> string \<Rightarrow> string" where
  "explicitPromptCacheKey gj body = NormalizeExplicitID (gjsonGet gj body ''prompt_cache_key'')"

definition publishDecision :: "Decision \<Rightarrow> metadata \<Rightarrow> metadata" where
  "publishDecision d md =
     gput DecisionIDKey (GStr (deDecisionID d))
      (gput AffinityActiveKey (GBool (deActive d))
       (gput PrefixFingerprintKey (GStr (dePrefixHeatFP d))
        (gput ''__cliproxy_cache_affinity_pool_key'' (GStr (dePoolKey d))
         (gput ''__cliproxy_cache_affinity_upstream_key'' (GStr (deUpstreamKey d))
          (gput RouteKeyKey (GStr (deRouteKey d)) md)))))"

text \<open>The identity, its source and the prompt-cache key the client named.\<close>

definition requestIdentity :: "gjson_reader \<Rightarrow> affinity_request \<Rightarrow> string \<times> string \<times> string" where
  "requestIdentity gj r =
     (let (identity, source, promptCacheKey) = resolveIdentityBeforeBody gj (afHeaders r) (afOptions r);
          (identity, source, promptCacheKey) =
            (if identity \<noteq> '''' then (identity, source, promptCacheKey)
             else let promptCacheKey = explicitPromptCacheKey gj (afBody r);
                      (identity, source) = resolveIdentityFromBody gj (afHeaders r) (afBody r) promptCacheKey (afOptions r)
                  in (identity, source, promptCacheKey))
      in (identity, source,
          if identity \<noteq> '''' \<and> promptCacheKey = '''' \<and> source \<noteq> ''execution'' \<and> source \<noteq> ''derived''
          then explicitPromptCacheKey gj (afBody r) else promptCacheKey))"

definition Enrich ::
  "gjson_reader \<Rightarrow> affinity_hashes \<Rightarrow> affinitySettings \<Rightarrow> gotime \<Rightarrow> string \<Rightarrow> affinity_request \<Rightarrow> prefixShard list \<Rightarrow>
     (affinity_request \<times> Decision option) \<times> prefixShard list" where
  "Enrich gj h st now decisionID r shards =
     (if \<not> stEnabled st then ((r, None), shards)
      else let model = (if mdString (afOptions r) ''requested_model'' \<noteq> '''' then mdString (afOptions r) ''requested_model''
                        else trim_space (afModel r));
               (identity, source, promptCacheKey) = requestIdentity gj r
           in if identity = '''' then ((r, None), shards)
              else let modelFamily = canonicalModelFamily model;
                       routeKey = stableID h ''route'' [identity];
                       ((fp, changed), shards) = inspectPrefixWith (ahSum0 h) routeKey (stMaxEntries st) now
                         prefixInspectInterval (ahPrefix h modelFamily (afBody r)) shards;
                       d = \<lparr>deRouteKey = routeKey,
                            deUpstreamKey = (if promptCacheKey = '''' then stableID h ''prompt-cache'' [modelFamily, identity] else promptCacheKey),
                            dePoolKey = stableID h ''pool'' [modelFamily], dePrefixFP = fp,
                            dePrefixHeatFP = (if stPrefixHeatEnabled st
                              then ahReusable h modelFamily (afBody r) (stPrefixHeatMinBytes st) else ''''),
                            deSource = source, deDecisionID = decisionID, deActive = \<not> stShadow st, dePrefixChanged = changed\<rparr>
                   in ((r\<lparr>afOptions := publishDecision d (afOptions r), afRequest := publishDecision d (afRequest r)\<rparr>, Some d), shards))"

end
