(* ===== verification/AffinityProps.thy ===== *)
theory AffinityProps
  imports PrefixInspection
begin

text \<open>
  Facts about the coordinator of cache affinity: the ring of buckets is a sliding window over the
  history of cold routes, a suppressed decision stays suppressed, and a route is inspected by one
  request at a time.
\<close>

section \<open>The sliding window\<close>

text \<open>
  The history: the epochs of the cold routes so far and whether each was bound. A limiter that
  keeps all of it decides from those of the last 30 epochs.
\<close>

type_synonym share_log = "(int \<times> bool) list"

definition recent :: "int \<Rightarrow> (int \<times> bool) \<Rightarrow> bool" where
  "recent epoch x \<longleftrightarrow> epoch - fst x < int shareBucketCount"

definition spec_allows :: "gofloat \<Rightarrow> int \<Rightarrow> share_log \<Rightarrow> bool" where
  "spec_allows r epoch hist =
     (let T = filter (recent epoch) hist; A = filter snd T
      in (of_nat (length T) :: 64 word) = 0 \<or>
         flt_le (u64_ratio (of_nat (length A) + 1) (of_nat (length T) + 1)) r)"

fun spec_run :: "gofloat \<Rightarrow> int list \<Rightarrow> share_log \<Rightarrow> bool list" where
  "spec_run r [] hist = []"
| "spec_run r (epoch # epochs) hist =
     (let allowed = spec_allows r epoch hist in allowed # spec_run r epochs ((epoch, allowed) # hist))"

fun admit_run :: "gofloat \<Rightarrow> int list \<Rightarrow> shareScope \<Rightarrow> (bool list \<times> shareScope) option" where
  "admit_run r [] state = Some ([], state)"
| "admit_run r (epoch # epochs) state =
     Option.bind (admitScope r epoch state) (\<lambda>(allowed, state).
     map_option (\<lambda>(rest, state). (allowed # rest, state)) (admit_run r epochs state))"

text \<open>A bucket holds the counts of its epoch, and no later epoch with its index has occurred.\<close>

definition slot :: "int \<Rightarrow> nat" where
  "slot epoch = nat (epoch mod int shareBucketCount)"

definition at_epoch :: "int \<Rightarrow> share_log \<Rightarrow> share_log" where
  "at_epoch k hist = filter (\<lambda>x. fst x = k) hist"

definition bucket_ok :: "int \<Rightarrow> nat \<Rightarrow> shareBucket \<Rightarrow> share_log \<Rightarrow> bool" where
  "bucket_ok epoch i b hist \<longleftrightarrow>
     0 \<le> sbEpoch b \<and> sbEpoch b \<le> epoch \<and> (sbEpoch b \<noteq> 0 \<longrightarrow> slot (sbEpoch b) = i) \<and>
     sbTotal b = of_nat (length (at_epoch (sbEpoch b) hist)) \<and>
     sbActive b = of_nat (length (filter snd (at_epoch (sbEpoch b) hist))) \<and>
     (\<forall>x \<in> set hist. slot (fst x) = i \<longrightarrow> fst x \<le> sbEpoch b)"

definition represents :: "int \<Rightarrow> shareScope \<Rightarrow> share_log \<Rightarrow> bool" where
  "represents epoch state hist \<longleftrightarrow>
     length state = shareBucketCount \<and> (\<forall>x \<in> set hist. 0 < fst x \<and> fst x \<le> epoch) \<and>
     (\<forall>i < shareBucketCount. bucket_ok epoch i (state ! i) hist)"

lemma same_slot_window:
  assumes "slot k = slot k'" "k \<le> k'" "k' \<le> epoch" "epoch - k < int shareBucketCount"
  shows "k = k'"
proof -
  have "k mod 30 = k' mod 30" using assms(1) by (simp add: slot_def nat_eq_iff2)
  then have "30 dvd (k' - k)" by (metis mod_eq_dvd_iff)
  moreover have "0 \<le> k' - k" "k' - k < 30" using assms(2-4) by simp_all
  ultimately show ?thesis by (metis dvd_imp_mod_0 eq_iff_diff_eq_0 mod_pos_pos_trivial)
qed

lemma bucket_window:
  assumes ok: "bucket_ok epoch0 i b hist" and "epoch0 \<le> epoch" and pos: "\<forall>x \<in> set hist. 0 < fst x"
  shows "filter (\<lambda>x. recent epoch x \<and> slot (fst x) = i) hist = (if bucketCounts epoch b then at_epoch (sbEpoch b) hist else [])"
proof (cases "bucketCounts epoch b")
  case True
  then have w: "0 < sbEpoch b" "epoch - sbEpoch b < int shareBucketCount" by (simp_all add: bucketCounts_def)
  have "recent epoch x \<and> slot (fst x) = i \<longleftrightarrow> fst x = sbEpoch b" if "x \<in> set hist" for x
  proof
    assume a: "recent epoch x \<and> slot (fst x) = i"
    then have "fst x \<le> sbEpoch b" using ok that by (simp add: bucket_ok_def)
    moreover have "slot (fst x) = slot (sbEpoch b)" using a ok w(1) by (simp add: bucket_ok_def)
    moreover have "sbEpoch b \<le> epoch" using ok assms(2) by (simp add: bucket_ok_def)
    ultimately show "fst x = sbEpoch b" using a same_slot_window by (auto simp: recent_def)
  qed (use ok w in \<open>simp add: recent_def bucket_ok_def\<close>)
  then show ?thesis using True by (simp add: at_epoch_def cong: filter_cong)
next
  case False
  have "\<not> (recent epoch x \<and> slot (fst x) = i)" if "x \<in> set hist" for x
  proof
    assume a: "recent epoch x \<and> slot (fst x) = i"
    then have "fst x \<le> sbEpoch b" "0 < fst x" using ok pos that by (simp_all add: bucket_ok_def)
    then show False using a False by (auto simp: recent_def bucketCounts_def)
  qed
  then show ?thesis using False by (simp add: filter_empty_conv)
qed

text \<open>The history, counted index by index.\<close>

lemma count_by_slot:
  "(of_nat (length (filter P hist)) :: 64 word) =
   (\<Sum>i \<leftarrow> [0..<shareBucketCount]. of_nat (length (filter (\<lambda>x. P x \<and> slot (fst x) = i) hist)))"
proof (induction hist)
  case (Cons x hist)
  have s: "slot (fst x) < shareBucketCount" by (simp add: slot_def nat_less_iff)
  have "(\<Sum>i \<leftarrow> [0..<shareBucketCount]. (of_nat (length (filter (\<lambda>y. P y \<and> slot (fst y) = i) (x # hist))) :: 64 word)) =
      (\<Sum>i \<leftarrow> [0..<shareBucketCount]. of_nat (length (filter (\<lambda>y. P y \<and> slot (fst y) = i) hist)) +
         (if P x \<and> i = slot (fst x) then 1 else 0))"
    by (intro arg_cong [of _ _ sum_list] map_cong) auto
  also have "\<dots> = of_nat (length (filter P hist)) + (\<Sum>i \<leftarrow> [0..<shareBucketCount]. if P x \<and> i = slot (fst x) then 1 else 0)"
    unfolding Cons.IH by (rule sum_list_addf)
  also have "(\<Sum>i \<leftarrow> [0..<shareBucketCount]. if P x \<and> i = slot (fst x) then 1 else 0) = (if P x then 1 else (0 :: 64 word))"
    using s by (cases "P x") (simp_all add: sum_list_distinct_conv_sum_set)
  finally show ?case by simp
qed simp

lemma window_sum:
  "windowTotal epoch state = (\<Sum>b \<leftarrow> state. if bucketCounts epoch b then sbTotal b else 0)"
  "windowActive epoch state = (\<Sum>b \<leftarrow> state. if bucketCounts epoch b then sbActive b else 0)"
proof -
  have "fold (\<lambda>item total. if P item then total + f item else total) state a = a + (\<Sum>b \<leftarrow> state. if P b then f b else (0 :: 64 word))" for P f a
    by (induction state arbitrary: a) (simp_all add: algebra_simps)
  then show "windowTotal epoch state = (\<Sum>b \<leftarrow> state. if bucketCounts epoch b then sbTotal b else 0)"
    "windowActive epoch state = (\<Sum>b \<leftarrow> state. if bucketCounts epoch b then sbActive b else 0)"
    by (simp_all add: windowTotal_def windowActive_def)
qed

lemma window_log:
  assumes "represents epoch0 state hist" "epoch0 \<le> epoch"
  shows "windowTotal epoch state = of_nat (length (filter (recent epoch) hist))"
    "windowActive epoch state = of_nat (length (filter snd (filter (recent epoch) hist)))"
proof -
  have len: "state = map ((!) state) [0..<shareBucketCount]"
    using assms(1) map_nth [of state] by (simp add: represents_def)
  have pos: "\<forall>x \<in> set hist. 0 < fst x" using assms(1) by (simp add: represents_def)
  have ok: "bucket_ok epoch0 i (state ! i) hist" if "i < shareBucketCount" for i
    using assms(1) that unfolding represents_def by blast
  note w = bucket_window [OF ok assms(2) pos]
  have t: "(if bucketCounts epoch (state ! i) then sbTotal (state ! i) else 0) =
      of_nat (length (filter (\<lambda>x. recent epoch x \<and> slot (fst x) = i) hist))" if "i < shareBucketCount" for i
    using ok [OF that] by (simp add: w [OF that] bucket_ok_def)
  have f: "filter (\<lambda>x. (recent epoch x \<and> snd x) \<and> slot (fst x) = i) hist = filter snd (filter (\<lambda>x. recent epoch x \<and> slot (fst x) = i) hist)" for i
    by (simp add: conj_ac)
  have a: "(if bucketCounts epoch (state ! i) then sbActive (state ! i) else 0) =
      of_nat (length (filter (\<lambda>x. (recent epoch x \<and> snd x) \<and> slot (fst x) = i) hist))" if "i < shareBucketCount" for i
  proof -
    have "filter (\<lambda>x. (recent epoch x \<and> snd x) \<and> slot (fst x) = i) hist =
        filter snd (if bucketCounts epoch (state ! i) then at_epoch (sbEpoch (state ! i)) hist else [])"
      by (simp only: f w [OF that])
    then show ?thesis using ok [OF that] by (simp add: bucket_ok_def)
  qed
  show "windowTotal epoch state = of_nat (length (filter (recent epoch) hist))"
  proof -
    have "map (\<lambda>b. if bucketCounts epoch b then sbTotal b else 0) state =
        map (\<lambda>i. if bucketCounts epoch (state ! i) then sbTotal (state ! i) else 0) [0..<shareBucketCount]"
      by (subst len) (simp only: map_map comp_def)
    also have "\<dots> = map (\<lambda>i. of_nat (length (filter (\<lambda>x. recent epoch x \<and> slot (fst x) = i) hist))) [0..<shareBucketCount]"
      by (rule map_cong [OF refl], rule t) (simp only: set_upt atLeastLessThan_iff)
    finally show ?thesis unfolding window_sum(1) count_by_slot [of "recent epoch"] by (rule arg_cong)
  qed
  have "filter snd (filter (recent epoch) hist) = filter (\<lambda>x. recent epoch x \<and> snd x) hist" by (simp add: conj_ac)
  then show "windowActive epoch state = of_nat (length (filter snd (filter (recent epoch) hist)))"
  proof -
    assume f2: "filter snd (filter (recent epoch) hist) = filter (\<lambda>x. recent epoch x \<and> snd x) hist"
    have "map (\<lambda>b. if bucketCounts epoch b then sbActive b else 0) state =
        map (\<lambda>i. if bucketCounts epoch (state ! i) then sbActive (state ! i) else 0) [0..<shareBucketCount]"
      by (subst len) (simp only: map_map comp_def)
    also have "\<dots> = map (\<lambda>i. of_nat (length (filter (\<lambda>x. (recent epoch x \<and> snd x) \<and> slot (fst x) = i) hist))) [0..<shareBucketCount]"
      by (rule map_cong [OF refl], rule a) (simp only: set_upt atLeastLessThan_iff)
    finally show ?thesis unfolding window_sum(2) f2 count_by_slot [of "\<lambda>x. recent epoch x \<and> snd x"] by (rule arg_cong)
  qed
qed

text \<open>Rolling the current bucket over to its epoch keeps the history.\<close>

lemma bucket_mono: "bucket_ok epoch0 i b hist \<Longrightarrow> epoch0 \<le> epoch \<Longrightarrow> bucket_ok epoch i b hist"
  by (auto simp: bucket_ok_def)

lemma represents_mono: "represents epoch0 state hist \<Longrightarrow> epoch0 \<le> epoch \<Longrightarrow> represents epoch state hist"
  unfolding represents_def using bucket_mono by (meson order_trans)

lemma slot_less: "slot epoch < shareBucketCount"
  by (simp add: slot_def nat_less_iff)

lemma represents_roll:
  assumes rep: "represents epoch state hist" "0 < epoch"
  shows "represents epoch (state[slot epoch :=
      if sbEpoch (state ! slot epoch) \<noteq> epoch then \<lparr>sbEpoch = epoch, sbTotal = 0, sbActive = 0\<rparr> else state ! slot epoch]) hist"
proof (cases "sbEpoch (state ! slot epoch) = epoch")
  case True
  then show ?thesis using rep by simp
next
  case False
  let ?i = "slot epoch"
  have ok: "bucket_ok epoch i (state ! i) hist" if "i < shareBucketCount" for i using rep(1) that unfolding represents_def by blast
  have le: "\<forall>x \<in> set hist. 0 < fst x \<and> fst x \<le> epoch" using rep(1) by (simp add: represents_def)
  have none: "fst x \<noteq> epoch" if "x \<in> set hist" for x
  proof
    assume e: "fst x = epoch"
    then have "epoch \<le> sbEpoch (state ! ?i)" using ok [OF slot_less] that unfolding bucket_ok_def by blast
    moreover have "sbEpoch (state ! ?i) \<le> epoch" using ok [OF slot_less] unfolding bucket_ok_def by blast
    ultimately show False using False by simp
  qed
  then have "at_epoch epoch hist = []" by (simp add: at_epoch_def filter_empty_conv)
  then have "bucket_ok epoch ?i \<lparr>sbEpoch = epoch, sbTotal = 0, sbActive = 0\<rparr> hist"
    using le rep(2) by (simp add: bucket_ok_def)
  moreover have len: "length state = shareBucketCount" using rep(1) by (simp add: represents_def)
  ultimately have "bucket_ok epoch i (state[?i := \<lparr>sbEpoch = epoch, sbTotal = 0, sbActive = 0\<rparr>] ! i) hist" if "i < shareBucketCount" for i
    using ok [OF that] that by (cases "i = ?i") simp_all
  then show ?thesis using False le len unfolding represents_def by simp
qed

text \<open>Counting one more route of the current epoch.\<close>

lemma represents_count:
  assumes rep: "represents epoch state hist" "0 < epoch" "sbEpoch (state ! slot epoch) = epoch"
  shows "represents epoch (state[slot epoch := (state ! slot epoch)\<lparr>sbTotal := sbTotal (state ! slot epoch) + 1,
      sbActive := (if allowed then sbActive (state ! slot epoch) + 1 else sbActive (state ! slot epoch))\<rparr>]) ((epoch, allowed) # hist)"
proof -
  let ?i = "slot epoch"
  let ?b = "(state ! ?i)\<lparr>sbTotal := sbTotal (state ! ?i) + 1,
      sbActive := (if allowed then sbActive (state ! ?i) + 1 else sbActive (state ! ?i))\<rparr>"
  have ok: "bucket_ok epoch i (state ! i) hist" if "i < shareBucketCount" for i using rep(1) that unfolding represents_def by blast
  have len: "length state = shareBucketCount" and le: "\<forall>x \<in> set hist. 0 < fst x \<and> fst x \<le> epoch"
    using rep(1) by (simp_all add: represents_def)
  have here: "bucket_ok epoch ?i ?b ((epoch, allowed) # hist)"
    using ok [OF slot_less, of epoch] rep(2,3) by (simp add: bucket_ok_def at_epoch_def)
  have other: "bucket_ok epoch i (state ! i) ((epoch, allowed) # hist)" if "i < shareBucketCount" "i \<noteq> ?i" for i
  proof -
    have "sbEpoch (state ! i) \<noteq> epoch" using ok [OF that(1)] that(2) rep(2) unfolding bucket_ok_def by auto
    then show ?thesis using ok [OF that(1)] that(2) by (simp add: bucket_ok_def at_epoch_def)
  qed
  have "bucket_ok epoch i (state[?i := ?b] ! i) ((epoch, allowed) # hist)" if "i < shareBucketCount" for i
    using here other [OF that] that len by (cases "i = ?i") simp_all
  then show ?thesis using le len rep(2) unfolding represents_def by simp
qed

lemma admit_spec:
  assumes "represents epoch0 state hist" "epoch0 \<le> epoch" "0 < epoch"
  obtains state' where "admitScope r epoch state = Some (spec_allows r epoch hist, state')"
    "represents epoch state' ((epoch, spec_allows r epoch hist) # hist)"
proof -
  note rep = represents_mono [OF assms(1,2)]
  let ?i = "slot epoch"
  define b where "b = (if sbEpoch (state ! ?i) \<noteq> epoch then \<lparr>sbEpoch = epoch, sbTotal = 0, sbActive = 0\<rparr> else state ! ?i)"
  define s where "s = state[?i := b]"
  have rs: "represents epoch s hist" unfolding s_def b_def by (rule represents_roll [OF rep assms(3)])
  have len: "length state = shareBucketCount" using rep by (simp add: represents_def)
  have sb: "s ! ?i = b" "sbEpoch b = epoch" using len slot_less [of epoch] by (simp_all add: s_def b_def)
  have go: "go_mod epoch (int shareBucketCount) = epoch mod int shareBucketCount" using assms(3) by (simp add: go_mod_nonneg)
  have nn: "\<not> epoch mod int shareBucketCount < 0" by simp
  define allowed where "allowed = (windowTotal epoch s = 0 \<or> flt_le (u64_ratio (windowActive epoch s + 1) (windowTotal epoch s + 1)) r)"
  have al: "allowed = spec_allows r epoch hist"
    unfolding allowed_def spec_allows_def Let_def window_log [OF rs order_refl] ..
  define b' where "b' = b\<lparr>sbTotal := sbTotal b + 1, sbActive := (if allowed then sbActive b + 1 else sbActive b)\<rparr>"
  have "admitScope r epoch state = Some (allowed, s[?i := b'])"
    unfolding admitScope_def go Let_def using nn by (simp only: if_False slot_def [symmetric] b_def [symmetric] s_def [symmetric] allowed_def [symmetric] b'_def [symmetric])
  moreover have "represents epoch (s[?i := b']) ((epoch, allowed) # hist)"
    using represents_count [OF rs assms(3), of allowed] sb(2) unfolding sb(1) b'_def by blast
  ultimately show thesis using that unfolding al by blast
qed

lemma represents_empty: "represents 0 emptyShareScope []"
  unfolding represents_def emptyShareScope_def by (simp add: bucket_ok_def at_epoch_def)

lemma admit_run_spec:
  "represents epoch0 state hist \<Longrightarrow> sorted (epoch0 # epochs) \<Longrightarrow> \<forall>k \<in> set epochs. 0 < k \<Longrightarrow>
   \<exists>state'. admit_run r epochs state = Some (spec_run r epochs hist, state')"
proof (induction epochs arbitrary: epoch0 state hist)
  case (Cons epoch epochs)
  obtain state' where a: "admitScope r epoch state = Some (spec_allows r epoch hist, state')"
    "represents epoch state' ((epoch, spec_allows r epoch hist) # hist)"
    using admit_spec [OF Cons.prems(1), of epoch r] Cons.prems(2,3) by auto
  from Cons.IH [OF a(2)] Cons.prems(2,3) obtain s where
    "admit_run r epochs state' = Some (spec_run r epochs ((epoch, spec_allows r epoch hist) # hist), s)" by auto
  then show ?case using a(1) by (simp add: Let_def)
qed simp

text \<open>
  C27 (the share of cold routes). However many cold routes of a scope arrive, at non-decreasing
  times, the ring of thirty buckets decides each as a limiter that keeps the whole history: the
  route is bound when no other arrived in the window, or when the share of bound routes in the
  window, itself included, is at most the configured one.
\<close>

theorem share_window:
  assumes "sorted epochs" "\<forall>k \<in> set epochs. 0 < k"
  shows "\<exists>state. admit_run r epochs emptyShareScope = Some (spec_run r epochs [], state)"
proof -
  have "sorted (0 # epochs)" using assms by force
  then show ?thesis using admit_run_spec [OF represents_empty _ assms(2)] by blast
qed

lemma share_window_witness:
  "\<exists>state. admit_run (Fin (1 / 2)) [100, 100, 131] emptyShareScope = Some (spec_run (Fin (1 / 2)) [100, 100, 131] [], state)"
  using share_window [of "[100, 100, 131]" "Fin (1 / 2)"] by simp

lemma spec_run_example: "spec_run (Fin (1 / 2)) [100, 100, 100, 131] [] = [True, False, False, True]"
  by code_simp

section \<open>A suppressed decision stays suppressed\<close>

text \<open>What other requests do to the store, at clocks between two times.\<close>

inductive suppress_step :: "gotime \<Rightarrow> gotime \<Rightarrow> suppressedDecisions \<Rightarrow> suppressedDecisions \<Rightarrow> bool" for lo hi where
  mark: "lo \<le> t \<Longrightarrow> t \<le> hi \<Longrightarrow> suppress_step lo hi s (markSuppressed decision t s)"
| look: "lo \<le> t \<Longrightarrow> t \<le> hi \<Longrightarrow> suppress_step lo hi s (snd (containsSuppressed decision t s))"

definition suppressed_until :: "string \<Rightarrow> gotime \<Rightarrow> suppressedDecisions \<Rightarrow> bool" where
  "suppressed_until decision until s \<longleftrightarrow>
     gomap_ok (sdEntries s) \<and> (\<exists>e. glookup (sdEntries s) decision = Some e \<and> until \<le> e)"

lemma mark_until:
  assumes "suppressed_until d u s" "t < u" "u \<le> t + defaultShareWindow"
  shows "suppressed_until d u (markSuppressed d' t s)"
proof -
  obtain e where e: "gomap_ok (sdEntries s)" "glookup (sdEntries s) d = Some e" "u \<le> e" using assms(1) by (auto simp: suppressed_until_def)
  let ?f = "filter (\<lambda>(_, expires). expires > t) (sdEntries s)"
  have "glookup ?f d = Some e" using e assms(2) by (simp add: glookup_filter)
  then show ?thesis using e assms(3)
    by (auto simp: suppressed_until_def markSuppressed_def Let_def glookup_put)
qed

lemma look_until:
  "suppressed_until d u s \<Longrightarrow> t < u \<Longrightarrow> suppressed_until d u (snd (containsSuppressed d' t s))"
  by (auto simp: suppressed_until_def containsSuppressed_def Let_def glookup_del split: option.split)

lemma suppress_steps:
  assumes "(suppress_step lo hi)\<^sup>*\<^sup>* s s'" "suppressed_until d u s" "hi < u" "u \<le> lo + defaultShareWindow"
  shows "suppressed_until d u s'"
  using assms(1,2)
proof (induction rule: rtranclp.induct)
  case (rtrancl_into_rtrancl a b c)
  have b: "suppressed_until d u b" using rtrancl_into_rtrancl.IH rtrancl_into_rtrancl.prems .
  from rtrancl_into_rtrancl.hyps(2) show ?case
  proof cases
    case (mark t decision)
    then show ?thesis using mark_until [OF b, of t decision] assms(3,4) by simp
  next
    case (look t decision)
    then show ?thesis using look_until [OF b, of t decision] assms(3) by simp
  qed
qed simp

lemma mark_new:
  assumes "gomap_ok (sdEntries s)" "trim_space d \<noteq> ''''"
  shows "suppressed_until (trim_space d) (now + defaultShareWindow) (markSuppressed d now s)"
  using assms by (simp add: suppressed_until_def markSuppressed_def Let_def glookup_put)

lemma trim_drop_space: "dropWhile is_space (trim_space s) = trim_space s"
proof -
  define d where "d = dropWhile is_space s"
  have t: "trim_space s = rev (dropWhile is_space (rev d))" by (simp add: trim_space_def d_def)
  obtain n where n: "trim_space s = take n d"
    unfolding t by (metis dropWhile_eq_drop rev_rev_ident take_rev rev_drop)
  show ?thesis
  proof (cases "trim_space s")
    case (Cons c cs)
    then have "d \<noteq> []" "hd d = c" using n by (cases d; cases n; simp)+
    then have "\<not> is_space c" unfolding d_def by (metis hd_dropWhile)
    then show ?thesis using Cons by simp
  qed simp
qed

text \<open>
  C30 (a suppressed decision routes nothing). Once a request's cold binding was refused for its share,
  no later stage of the request reads a routing value from its metadata for five minutes, not
  even from a copy that lacks the mark, whatever other requests do to the store meanwhile.
\<close>

theorem suppressed_decision_hidden:
  assumes "gomap_ok (sdEntries s)" "RecordShareLimited md now s = (md', s')" "trim_space (mdString md DecisionIDKey) \<noteq> ''''"
    and "(suppress_step now later)\<^sup>*\<^sup>* s' s''" "later < now + defaultShareWindow" "mdString copy DecisionIDKey = mdString md DecisionIDKey"
  shows "fst (MetadataValue copy key later s'') = '''' \<and> fst (MetadataValue md' key later s'') = ''''"
proof -
  let ?d = "trim_space (mdString md DecisionIDKey)"
  have md: "mdString (gput ShareLimitedKey (GBool True) md) DecisionIDKey = mdString md DecisionIDKey"
    by (simp add: mdString_def glookup_put)
  have s': "s' = markSuppressed (mdString md DecisionIDKey) now s" "md' = gput ShareLimitedKey (GBool True) md"
    using assms(2) md by (simp_all add: RecordShareLimited_def Let_def)
  have "suppressed_until ?d (now + defaultShareWindow) s''"
    using suppress_steps [OF assms(4) mark_new [OF assms(1,3), of now, folded s'(1)] assms(5)] by simp
  then have c: "fst (containsSuppressed (mdString md DecisionIDKey) later s'')"
    using assms(3,5) by (auto simp: suppressed_until_def containsSuppressed_def Let_def)
  have "fst (MetadataValue copy key later s'') = ''''"
    using c assms(6) by (auto simp: MetadataValue_def ShareLimited_def Let_def split: prod.splits)
  moreover have "mdBool md' ShareLimitedKey" by (simp add: s'(2) mdBool_def glookup_put)
  then have "fst (MetadataValue md' key later s'') = ''''" by (simp add: MetadataValue_def ShareLimited_def)
  ultimately show ?thesis ..
qed

section \<open>One inspection at a time\<close>

text \<open>The shard of a route and the requests that are computing a fingerprint.\<close>

inductive inspect_step :: "int \<Rightarrow> prefixShard \<times> string list \<Rightarrow> prefixShard \<times> string list \<Rightarrow> bool" for maxEntries where
  start: "routeKey \<noteq> '''' \<Longrightarrow> inspectBegin routeKey maxEntries now interval shard = (Inspect, shard') \<Longrightarrow>
    inspect_step maxEntries (shard, running) (shard', routeKey # running)"
| skip: "routeKey \<noteq> '''' \<Longrightarrow> inspectBegin routeKey maxEntries now interval shard = (Skip answer, shard') \<Longrightarrow>
    inspect_step maxEntries (shard, running) (shard', running)"
| finish: "routeKey \<in> set running \<Longrightarrow> inspectFinish routeKey fingerprint now shard = (changed, shard') \<Longrightarrow>
    inspect_step maxEntries (shard, running) (shard', remove1 routeKey running)"

definition inspecting :: "prefixShard \<Rightarrow> string set" where
  "inspecting shard = {k. \<exists>e. glookup shard k = Some e \<and> peInspecting e}"

definition inspect_ok :: "int \<Rightarrow> prefixShard \<times> string list \<Rightarrow> bool" where
  "inspect_ok maxEntries st \<longleftrightarrow>
     gomap_ok (fst st) \<and> distinct (snd st) \<and> set (snd st) = inspecting (fst st) \<and>
     int (length (fst st)) \<le> prefixCapacity maxEntries"

lemma prefixCapacity_pos: "1 \<le> prefixCapacity maxEntries"
  by (simp add: prefixCapacity_def Let_def)

lemma oldestPrefix_mem:
  assumes "oldestPrefix shard = (k, t)" "k \<noteq> ''''"
  shows "\<exists>e. (k, e) \<in> set shard \<and> \<not> peInspecting e"
proof -
  define f where "f = (\<lambda>(key :: string, entry :: prefixEntry) (oldestKey, oldest). if peInspecting entry then (oldestKey, oldest)
             else if oldestKey = '''' \<or> peLastSeen entry < oldest then (key, peLastSeen entry) else (oldestKey, oldest))"
  have "fold f m acc = (k, t) \<Longrightarrow> k \<noteq> '''' \<Longrightarrow> k = fst acc \<or> (\<exists>e. (k, e) \<in> set m \<and> \<not> peInspecting e)" for m acc
  proof (induction m arbitrary: acc)
    case (Cons x m)
    obtain key entry where x: "x = (key, entry)" by fastforce
    have "fst (f x acc) = fst acc \<or> (fst (f x acc) = key \<and> \<not> peInspecting entry)"
      by (cases acc) (simp add: f_def x)
    moreover have "k = fst (f x acc) \<or> (\<exists>e. (k, e) \<in> set m \<and> \<not> peInspecting e)" using Cons by simp
    ultimately show ?case using x by auto
  qed simp
  from this [of shard "('''', zeroTime)"] assms show ?thesis by (auto simp: oldestPrefix_def f_def)
qed

lemma inspecting_put: "inspecting (gput k e m) = (if peInspecting e then insert k (inspecting m) else inspecting m - {k})"
  by (auto simp: inspecting_def glookup_put)

lemma inspecting_del: "inspecting (gdel k m) = inspecting m - {k}"
  by (auto simp: inspecting_def glookup_del split: if_splits)

lemma begin_cases:
  assumes "inspectBegin k maxEntries now interval shard = (answer, shard')" "gomap_ok shard"
    and "int (length shard) \<le> prefixCapacity maxEntries"
  shows "gomap_ok shard' \<and> int (length shard') \<le> prefixCapacity maxEntries \<and>
    (answer = Inspect \<longrightarrow> k \<notin> inspecting shard \<and> inspecting shard' = insert k (inspecting shard)) \<and>
    (answer \<noteq> Inspect \<longrightarrow> inspecting shard' = inspecting shard)"
proof (cases "glookup shard k")
  case (Some previous)
  then have "k \<in> inspecting shard \<longleftrightarrow> peInspecting previous" by (simp add: inspecting_def)
  then show ?thesis using assms Some
    by (auto simp: inspectBegin_def Let_def inspecting_put length_put split: if_splits)
next
  case None
  then have k: "k \<notin> inspecting shard" by (simp add: inspecting_def)
  obtain oldestKey t where o': "oldestPrefix shard = (oldestKey, t)" by fastforce
  show ?thesis
  proof (cases "int (length shard) \<ge> prefixCapacity maxEntries")
    case False
    then show ?thesis using assms None k by (auto simp: inspectBegin_def Let_def inspecting_put length_put)
  next
    case True
    show ?thesis
    proof (cases "oldestKey = ''''")
      case True
      then show ?thesis using assms None o' \<open>int (length shard) \<ge> prefixCapacity maxEntries\<close>
        by (auto simp: inspectBegin_def Let_def)
    next
      case False
      obtain e where e: "glookup shard oldestKey = Some e" "\<not> peInspecting e"
        using oldestPrefix_mem [OF o' False] assms(2) by (auto simp: gomap_mem)
      then have n: "oldestKey \<notin> inspecting shard" by (simp add: inspecting_def)
      have "length (gdel oldestKey shard) < length shard"
        using map_of_SomeD [OF e(1)] unfolding AList.delete_eq by (rule length_filter_less) simp
      moreover have "glookup (gdel oldestKey shard) k = None" using None by (simp add: glookup_del)
      ultimately show ?thesis using assms None o' False True n k
        by (auto simp: inspectBegin_def Let_def inspecting_put inspecting_del length_put)
    qed
  qed
qed

lemma finish_cases:
  assumes "inspectFinish k fp now shard = (changed, shard')" "gomap_ok shard" "k \<in> inspecting shard"
  shows "gomap_ok shard' \<and> length shard' = length shard \<and> inspecting shard' = inspecting shard - {k}"
  using assms by (auto simp: inspectFinish_def inspecting_put length_put inspecting_def glookup_put split: option.splits if_splits)

lemma inspect_step_ok: "inspect_ok maxEntries st \<Longrightarrow> inspect_step maxEntries st st' \<Longrightarrow> inspect_ok maxEntries st'"
proof -
  assume ok: "inspect_ok maxEntries st" and step: "inspect_step maxEntries st st'"
  from step show "inspect_ok maxEntries st'"
  proof cases
    case (start routeKey now interval shard shard' running)
    then show ?thesis using ok begin_cases [OF start(4)] by (auto simp: inspect_ok_def)
  next
    case (skip routeKey now interval shard answer shard' running)
    then show ?thesis using ok begin_cases [OF skip(4)] by (auto simp: inspect_ok_def)
  next
    case (finish routeKey running fingerprint now shard changed shard')
    then have "routeKey \<in> inspecting shard" "gomap_ok shard" using ok by (simp_all add: inspect_ok_def)
    then show ?thesis using ok finish finish_cases [OF finish(4)] by (auto simp: inspect_ok_def)
  qed
qed

definition no_routes :: "prefixShard \<times> string list \<Rightarrow> bool" where
  "no_routes st \<longleftrightarrow> st = ([], [])"

interpretation inspections: invariant_system no_routes "inspect_step maxEntries" "inspect_ok maxEntries" for maxEntries
proof
  show "no_routes st \<Longrightarrow> inspect_ok maxEntries st" for st
    using prefixCapacity_pos [of maxEntries] by (simp add: no_routes_def inspect_ok_def inspecting_def)
  show "inspect_ok maxEntries st \<Longrightarrow> inspect_step maxEntries st st' \<Longrightarrow> inspect_ok maxEntries st'" for st st'
    by (rule inspect_step_ok)
qed

text \<open>
  C28 (a route is inspected once at a time). In any interleaving of requests, no two compute the
  fingerprint of the same route at once, a route whose fingerprint is being computed is not
  evicted - so a finished computation always finds its entry - and the shard keeps to its share of
  the configured number of routes.
\<close>

theorem one_inspection:
  assumes "reachable no_routes (inspect_step maxEntries) (shard, running)"
  shows "distinct running \<and> (\<forall>k. k \<in> set running \<longleftrightarrow> (\<exists>e. glookup shard k = Some e \<and> peInspecting e)) \<and>
    int (length shard) \<le> prefixCapacity maxEntries"
  using inspections.reachable_inv [OF assms] by (auto simp: inspect_ok_def inspecting_def)

lemma one_inspection_witness:
  "distinct [''r''] \<and> int (length [(''r'', \<lparr>peFingerprint = '''', peLastSeen = 5, peNextInspect = 6, peInspecting = True\<rparr>)]) \<le> prefixCapacity 64"
proof -
  have b: "inspectBegin ''r'' 64 5 1 [] = (Inspect, [(''r'', \<lparr>peFingerprint = '''', peLastSeen = 5, peNextInspect = 6, peInspecting = True\<rparr>)])"
    by code_simp
  have "reachable no_routes (inspect_step 64) ([], [])" by (rule reachable_init) (simp add: no_routes_def)
  from reachable_step [OF this inspect_step.start [OF _ b]] one_inspection show ?thesis by blast
qed

lemma suppressed_decision_hidden_witness:
  "fst (MetadataValue [(DecisionIDKey, GStr ''7'')] RouteKeyKey 9
     (snd (RecordShareLimited [(DecisionIDKey, GStr ''7'')] 5 \<lparr>sdEntries = [], sdLastSweep = 0\<rparr>))) = ''''"
proof -
  let ?md = "[(DecisionIDKey, GStr ''7'')]" and ?s = "\<lparr>sdEntries = [], sdLastSweep = 0\<rparr>"
  have i: "mdString ?md DecisionIDKey = ''7''" "trim_space ''7'' = ''7''" by code_simp+
  show ?thesis
    using suppressed_decision_hidden [of ?s ?md 5 "fst (RecordShareLimited ?md 5 ?s)" "snd (RecordShareLimited ?md 5 ?s)"
        9 "snd (RecordShareLimited ?md 5 ?s)" ?md RouteKeyKey] i by simp
qed

end
