(* ===== verification/PrefixHeat.thy ===== *)
theory PrefixHeat
  imports Selectors "HOL-Library.Word"
begin

unbundle bit_operations_syntax

text \<open>
  Which credentials have recently served a prompt prefix (\<open>sdk/cliproxy/auth/prefix_heat.go\<close>): 64
  shards, each a map of entries with a list that keeps them in the order of their last use.

  The map's values and the list's elements are the same pointers in the source; here the list
  holds the keys, so an element of the list is looked up by its key. \<open>recency\<close> starts with the
  front of the list, the entry used last. Each critical section is one step.
\<close>

abbreviation defaultPrefixHeatMaxEntries :: int where "defaultPrefixHeatMaxEntries \<equiv> 65536"
abbreviation prefixHeatShardCount :: nat where "prefixHeatShardCount \<equiv> 64"

record prefixHeatEntry =
  heAuthID :: string
  heLastSeen :: gotime

record prefixHeatShard =
  heEntries :: "(string, prefixHeatEntry) gomap"
  heRecency :: "string list"

record prefixHeatTracker =
  heShards :: "prefixHeatShard list"
  heTtl :: duration
  heMaxEntries :: int

definition heatTtlSetting :: "duration \<Rightarrow> duration" where
  "heatTtlSetting ttl = (if ttl \<le> 0 then 10 * minute else ttl)"

definition heatMaxSetting :: "int \<Rightarrow> int" where
  "heatMaxSetting maxEntries = (if maxEntries \<le> 0 then defaultPrefixHeatMaxEntries else maxEntries)"

definition emptyHeatShard :: prefixHeatShard where
  "emptyHeatShard = \<lparr>heEntries = [], heRecency = []\<rparr>"

definition newPrefixHeatTracker :: "duration \<Rightarrow> int \<Rightarrow> prefixHeatTracker" where
  "newPrefixHeatTracker ttl maxEntries =
     \<lparr>heShards = replicate prefixHeatShardCount emptyHeatShard, heTtl = heatTtlSetting ttl,
      heMaxEntries = heatMaxSetting maxEntries\<rparr>"

definition prefixHeatKey :: "string \<Rightarrow> string \<Rightarrow> string" where
  "prefixHeatKey prefixFingerprint authID = prefixFingerprint @ [char_of (0 :: nat)] @ authID"

text \<open>The hash works on 32-bit words and wraps around.\<close>

definition heatHash :: "string \<Rightarrow> 32 word" where
  "heatHash s = fold (\<lambda>c hash. (hash XOR word_of_nat (code_of c)) * 16777619) s 2166136261"

definition prefixHeatShardIndex :: "string \<Rightarrow> nat" where
  "prefixHeatShardIndex prefixFingerprint = unat (heatHash prefixFingerprint mod 64)"

definition heatTtl :: "prefixHeatTracker \<Rightarrow> duration" where
  "heatTtl t = heatTtlSetting (heTtl t)"

definition shardCapacity :: "prefixHeatTracker \<Rightarrow> int" where
  "shardCapacity t =
     (let maxEntries = heatMaxSetting (heMaxEntries t);
          capacity = go_div (wrap64 (maxEntries + int prefixHeatShardCount - 1)) (int prefixHeatShardCount)
      in if capacity < 1 then 1 else capacity)"

definition removePrefixHeatElement :: "string option \<Rightarrow> prefixHeatShard \<Rightarrow> prefixHeatShard" where
  "removePrefixHeatElement element shard =
     (case element of
        None \<Rightarrow> shard
      | Some key \<Rightarrow> \<lparr>heEntries = gdel key (heEntries shard), heRecency = remove1 key (heRecency shard)\<rparr>)"

text \<open>\<open>recency.Back()\<close>: the entry whose last use is longest ago.\<close>

definition heatBack :: "prefixHeatShard \<Rightarrow> string option" where
  "heatBack shard = (if heRecency shard = [] then None else Some (last (heRecency shard)))"

text \<open>The loop that drops entries while there are too many; \<open>None\<close> would be a loop that does not end.\<close>

partial_function (option) trimShard :: "int \<Rightarrow> prefixHeatShard \<Rightarrow> prefixHeatShard option" where
  "trimShard capacity shard =
     (if int (length (heEntries shard)) > capacity
      then trimShard capacity (removePrefixHeatElement (heatBack shard) shard)
      else Some shard)"

fun trimShards :: "int \<Rightarrow> prefixHeatShard list \<Rightarrow> prefixHeatShard list option" where
  "trimShards capacity [] = Some []"
| "trimShards capacity (shard # rest) =
     Option.bind (trimShard capacity shard) (\<lambda>shard.
     Option.bind (trimShards capacity rest) (\<lambda>rest. Some (shard # rest)))"

definition UpdateHeatConfig :: "duration \<Rightarrow> int \<Rightarrow> prefixHeatTracker \<Rightarrow> prefixHeatTracker option" where
  "UpdateHeatConfig ttl maxEntries t =
     (let t = t\<lparr>heTtl := heatTtlSetting ttl, heMaxEntries := heatMaxSetting maxEntries\<rparr>
      in map_option (\<lambda>shards. t\<lparr>heShards := shards\<rparr>) (trimShards (shardCapacity t) (heShards t)))"

definition putHeatShard :: "nat \<Rightarrow> prefixHeatShard \<Rightarrow> prefixHeatTracker \<Rightarrow> prefixHeatTracker" where
  "putHeatShard i shard t = t\<lparr>heShards := (heShards t)[i := shard]\<rparr>"

text \<open>\<open>clock\<close> is read only when the caller gives no time.\<close>

definition RecordHeat ::
  "string \<Rightarrow> string \<Rightarrow> gotime \<Rightarrow> gotime \<Rightarrow> prefixHeatTracker \<Rightarrow> prefixHeatTracker option" where
  "RecordHeat prefixFingerprint0 authID0 now clock t =
     (let prefixFingerprint = trim_space prefixFingerprint0; authID = trim_space authID0
      in if prefixFingerprint = '''' \<or> authID = '''' then Some t
         else let now = (if now = zeroTime then clock else now);
                  key = prefixHeatKey prefixFingerprint authID;
                  i = prefixHeatShardIndex prefixFingerprint;
                  shard = heShards t ! i
              in case glookup (heEntries shard) key of
                   Some entry \<Rightarrow>
                     Some (putHeatShard i
                       \<lparr>heEntries = gput key (entry\<lparr>heLastSeen := now\<rparr>) (heEntries shard),
                        heRecency = key # remove1 key (heRecency shard)\<rparr> t)
                 | None \<Rightarrow>
                     map_option (\<lambda>shard. putHeatShard i shard t)
                       (trimShard (shardCapacity t)
                         \<lparr>heEntries = gput key \<lparr>heAuthID = authID, heLastSeen = now\<rparr> (heEntries shard),
                          heRecency = key # heRecency shard\<rparr>))"

text \<open>The least number of requests in flight, in the order of the list.\<close>

fun lowestLoop :: "gotime \<Rightarrow> Auth list \<Rightarrow> int \<Rightarrow> Auth list \<Rightarrow> limits_env \<Rightarrow> Auth list \<times> limits_env" where
  "lowestLoop now [] lowest balanced env = (balanced, env)"
| "lowestLoop now (a # rest) lowest balanced env =
     (let (current, env) = concurrencyOf now a env
      in if balanced = [] \<or> current < lowest then lowestLoop now rest current [a] env
         else if current = lowest then lowestLoop now rest lowest (balanced @ [a]) env
         else lowestLoop now rest lowest balanced env)"

definition lowestConcurrencyAuths :: "gotime \<Rightarrow> Auth list \<Rightarrow> limits_env \<Rightarrow> Auth list \<times> limits_env" where
  "lowestConcurrencyAuths now auths env =
     (if length auths \<le> 1 then (auths, env) else lowestLoop now auths 0 [] env)"

text \<open>
  A candidate's entry, unless it has none; an expired entry is dropped in a second critical
  section, which looks at it again.
\<close>

definition heatOf :: "prefixHeatTracker \<Rightarrow> string \<Rightarrow> Auth \<Rightarrow> (string \<times> prefixHeatEntry) option" where
  "heatOf t prefixFingerprint a =
     (if trim_space (ID a) = '''' then None
      else let key = prefixHeatKey prefixFingerprint (trim_space (ID a))
           in map_option (Pair key) (glookup (heEntries (heShards t ! prefixHeatShardIndex prefixFingerprint)) key))"

definition heatExpired :: "duration \<Rightarrow> gotime \<Rightarrow> prefixHeatEntry \<Rightarrow> bool" where
  "heatExpired ttl now entry \<longleftrightarrow> \<not> now < heLastSeen entry + ttl"

definition hotCandidates :: "string \<Rightarrow> Auth list \<Rightarrow> gotime \<Rightarrow> prefixHeatTracker \<Rightarrow> Auth list \<times> string list" where
  "hotCandidates prefixFingerprint auths now t =
     (filter (\<lambda>a. case heatOf t prefixFingerprint a of
                    None \<Rightarrow> False | Some (_, entry) \<Rightarrow> \<not> heatExpired (heatTtl t) now entry) auths,
      List.map_filter (\<lambda>a. case heatOf t prefixFingerprint a of
                    None \<Rightarrow> None | Some (key, entry) \<Rightarrow> if heatExpired (heatTtl t) now entry then Some key else None) auths)"

definition dropExpiredHeat :: "duration \<Rightarrow> gotime \<Rightarrow> string list \<Rightarrow> prefixHeatShard \<Rightarrow> prefixHeatShard" where
  "dropExpiredHeat ttl now ks shard =
     fold (\<lambda>key shard. case glookup (heEntries shard) key of
             None \<Rightarrow> shard
           | Some entry \<Rightarrow> if heatExpired ttl now entry then removePrefixHeatElement (Some key) shard else shard)
       ks shard"

definition HotAuths ::
  "string \<Rightarrow> Auth list \<Rightarrow> gotime \<Rightarrow> gotime \<Rightarrow> prefixHeatTracker \<Rightarrow> limits_env \<Rightarrow>
     (Auth list \<times> prefixHeatTracker) \<times> limits_env" where
  "HotAuths prefixFingerprint0 auths now clock t env =
     (let prefixFingerprint = trim_space prefixFingerprint0
      in if auths = [] \<or> prefixFingerprint = '''' then (([], t), env)
         else let now = (if now = zeroTime then clock else now);
                  (hot, expired) = hotCandidates prefixFingerprint auths now t;
                  i = prefixHeatShardIndex prefixFingerprint;
                  t' = (if expired = [] then t
                        else putHeatShard i (dropExpiredHeat (heatTtl t) now expired (heShards t ! i)) t);
                  (lowest, env) = lowestConcurrencyAuths now hot env
              in ((lowest, t'), env))"

text \<open>The walk from the back of the list removes every entry of the credential.\<close>

definition invalidateShard :: "string \<Rightarrow> prefixHeatShard \<Rightarrow> prefixHeatShard" where
  "invalidateShard authID shard =
     fold (\<lambda>key shard. case glookup (heEntries shard) key of
             None \<Rightarrow> shard
           | Some entry \<Rightarrow> if heAuthID entry = authID then removePrefixHeatElement (Some key) shard else shard)
       (rev (heRecency shard)) shard"

definition InvalidateHeat :: "string \<Rightarrow> prefixHeatTracker \<Rightarrow> prefixHeatTracker" where
  "InvalidateHeat authID0 t =
     (let authID = trim_space authID0
      in if authID = '''' then t else t\<lparr>heShards := map (invalidateShard authID) (heShards t)\<rparr>)"

section \<open>The list and the map agree\<close>

definition heat_shard_ok :: "prefixHeatShard \<Rightarrow> bool" where
  "heat_shard_ok shard \<longleftrightarrow>
     gomap_ok (heEntries shard) \<and> distinct (heRecency shard) \<and> set (heRecency shard) = fst ` set (heEntries shard)"

definition heat_ok :: "prefixHeatTracker \<Rightarrow> bool" where
  "heat_ok t \<longleftrightarrow> length (heShards t) = prefixHeatShardCount \<and>
     (\<forall>shard \<in> set (heShards t). heat_shard_ok shard \<and> int (length (heEntries shard)) \<le> shardCapacity t)"

lemma shardCapacity_pos: "1 \<le> shardCapacity t"
  by (simp add: shardCapacity_def Let_def)

lemma shardCapacity_shards [simp]: "shardCapacity (t\<lparr>heShards := s\<rparr>) = shardCapacity t"
  by (simp add: shardCapacity_def)

lemma heat_size: "heat_shard_ok shard \<Longrightarrow> length (heRecency shard) = length (heEntries shard)"
  unfolding heat_shard_ok_def gomap_ok_def by (metis distinct_card length_map set_map)

lemma keys_del: "fst ` set (gdel k m) = fst ` set m - {k}"
  by (auto simp: dom_map_of_conv_image_fst [symmetric] delete_conv' split: if_splits)

lemma keys_put: "fst ` set (gput k v m) = insert k (fst ` set m)"
  by (auto simp: dom_map_of_conv_image_fst [symmetric] update_conv' split: if_splits)

lemma remove_ok: "heat_shard_ok shard \<Longrightarrow> heat_shard_ok (removePrefixHeatElement k shard)"
  unfolding heat_shard_ok_def removePrefixHeatElement_def
  by (cases k) (simp_all add: keys_del)

lemma heatBack_mem: "heatBack shard = Some k \<Longrightarrow> k \<in> set (heRecency shard)"
  by (auto simp: heatBack_def split: if_splits)

lemma remove_length:
  assumes "heat_shard_ok shard" "k \<in> set (heRecency shard)"
  shows "length (heEntries (removePrefixHeatElement (Some k) shard)) < length (heEntries shard)"
proof -
  have "length (heRecency (removePrefixHeatElement (Some k) shard)) < length (heRecency shard)"
    using assms(2) length_pos_if_in_set [OF assms(2)] by (simp add: removePrefixHeatElement_def length_remove1)
  then show ?thesis using heat_size [OF assms(1)] heat_size [OF remove_ok [OF assms(1)]] by simp
qed

lemma remove1_last: "xs \<noteq> [] \<Longrightarrow> distinct xs \<Longrightarrow> remove1 (last xs) xs = butlast xs"
  by (cases xs rule: rev_cases) (auto simp: remove1_append)

lemma take_butlast_le: "n < length xs \<Longrightarrow> take n (butlast xs) = take n xs"
  by (simp add: take_butlast)

text \<open>
  Trimming returns: it keeps the entries used last, as many as the capacity allows, and drops the
  others from the map and the list alike.
\<close>

lemma trimShard_ends:
  assumes "heat_shard_ok shard" "0 \<le> capacity"
  shows "\<exists>shard'. trimShard capacity shard = Some shard' \<and> heat_shard_ok shard' \<and>
    heRecency shard' = take (nat capacity) (heRecency shard) \<and>
    (\<forall>k. glookup (heEntries shard') k = (if k \<in> set (heRecency shard') then glookup (heEntries shard) k else None))"
  using assms(1)
proof (induction "length (heEntries shard)" arbitrary: shard rule: less_induct)
  case less
  have keys: "k \<in> set (heRecency shard) \<longleftrightarrow> glookup (heEntries shard) k \<noteq> None" for k
    using less.prems glookup_in_keys [of "heEntries shard" k] by (auto simp: heat_shard_ok_def)
  show ?case
  proof (cases "int (length (heEntries shard)) > capacity")
    case False
    then have "heRecency shard = take (nat capacity) (heRecency shard)" using heat_size [OF less.prems] by simp
    then show ?thesis using less.prems False keys by (simp add: trimShard.simps)
  next
    case True
    then have ne: "heRecency shard \<noteq> []" using heat_size [OF less.prems] assms(2) by auto
    let ?k = "last (heRecency shard)"
    let ?s = "removePrefixHeatElement (Some ?k) shard"
    have bk: "heatBack shard = Some ?k" using ne by (simp add: heatBack_def)
    have lt: "length (heEntries ?s) < length (heEntries shard)" by (rule remove_length [OF less.prems]) (use ne in simp)
    have tl: "heRecency ?s = butlast (heRecency shard)"
      using less.prems ne by (simp add: removePrefixHeatElement_def remove1_last heat_shard_ok_def)
    have "nat capacity < length (heRecency shard)" using True heat_size [OF less.prems] assms(2) by simp
    then have tk: "take (nat capacity) (butlast (heRecency shard)) = take (nat capacity) (heRecency shard)"
      by (rule take_butlast_le)
    from less.hyps [OF lt remove_ok [OF less.prems]] obtain s' where s': "trimShard capacity ?s = Some s'" "heat_shard_ok s'"
      "heRecency s' = take (nat capacity) (heRecency shard)"
      "\<And>k. glookup (heEntries s') k = (if k \<in> set (heRecency s') then glookup (heEntries ?s) k else None)"
      unfolding tl tk by blast
    have "trimShard capacity shard = Some s'" using True s'(1) by (simp add: trimShard.simps [of _ shard] bk)
    moreover have "?k \<notin> set (heRecency s')"
    proof -
      have "distinct (butlast (heRecency shard) @ [?k])" using less.prems ne by (simp add: heat_shard_ok_def)
      then have "?k \<notin> set (butlast (heRecency shard))" by simp
      then show ?thesis unfolding s'(3) tk [symmetric] by (meson in_set_takeD)
    qed
    then have "glookup (heEntries s') k = (if k \<in> set (heRecency s') then glookup (heEntries shard) k else None)" for k
      using s'(4) [of k] by (auto simp: removePrefixHeatElement_def glookup_del)
    ultimately show ?thesis using s'(2,3) by blast
  qed
qed

lemma trimShard_size:
  "heat_shard_ok shard \<Longrightarrow> 0 \<le> capacity \<Longrightarrow> trimShard capacity shard = Some shard' \<Longrightarrow>
   heat_shard_ok shard' \<and> int (length (heEntries shard')) \<le> capacity"
  using trimShard_ends [of shard capacity] heat_size [of shard'] by auto

section \<open>Every operation keeps them so\<close>

lemma heat_okD:
  "heat_ok t \<Longrightarrow> heat_shard_ok (heShards t ! prefixHeatShardIndex p) \<and>
    int (length (heEntries (heShards t ! prefixHeatShardIndex p))) \<le> shardCapacity t"
proof -
  have "heatHash p mod 64 < 64" by (rule word_mod_less_divisor) simp
  then have "prefixHeatShardIndex p < 64" by (simp add: prefixHeatShardIndex_def word_less_nat_alt)
  then show "heat_ok t \<Longrightarrow> ?thesis" by (simp add: heat_ok_def)
qed

lemma heat_put:
  "heat_ok t \<Longrightarrow> heat_shard_ok shard \<Longrightarrow> int (length (heEntries shard)) \<le> shardCapacity t \<Longrightarrow> heat_ok (putHeatShard i shard t)"
  by (auto simp: heat_ok_def putHeatShard_def shardCapacity_def dest: subsetD [OF set_update_subset_insert])

lemma move_front_ok:
  assumes "heat_shard_ok shard" "glookup (heEntries shard) key = Some e"
  shows "heat_shard_ok \<lparr>heEntries = gput key e' (heEntries shard), heRecency = key # remove1 key (heRecency shard)\<rparr> \<and>
    length (gput key e' (heEntries shard)) = length (heEntries shard)"
proof -
  have "key \<in> fst ` set (heEntries shard)" using assms(2) glookup_in_keys [of "heEntries shard" key] by simp
  then show ?thesis using assms by (auto simp: heat_shard_ok_def keys_put length_put)
qed

lemma push_front_ok:
  assumes "heat_shard_ok shard" "glookup (heEntries shard) key = None"
  shows "heat_shard_ok \<lparr>heEntries = gput key e (heEntries shard), heRecency = key # heRecency shard\<rparr>"
proof -
  have "key \<notin> fst ` set (heEntries shard)" using assms(2) glookup_in_keys [of "heEntries shard" key] by blast
  then show ?thesis using assms by (simp add: heat_shard_ok_def keys_put)
qed

lemma record_ok:
  assumes "heat_ok t"
  shows "\<exists>t'. RecordHeat p authID now clock t = Some t' \<and> heat_ok t'"
proof (cases "trim_space p = '''' \<or> trim_space authID = ''''")
  case True
  then show ?thesis using assms by (simp add: RecordHeat_def)
next
  case False
  define key where "key = prefixHeatKey (trim_space p) (trim_space authID)"
  define i where "i = prefixHeatShardIndex (trim_space p)"
  define n where "n = (if now = zeroTime then clock else now)"
  note ok = heat_okD [OF assms, of "trim_space p", folded i_def]
  have r: "RecordHeat p authID now clock t =
      (case glookup (heEntries (heShards t ! i)) key of
         Some entry \<Rightarrow> Some (putHeatShard i
             \<lparr>heEntries = gput key (entry\<lparr>heLastSeen := n\<rparr>) (heEntries (heShards t ! i)),
              heRecency = key # remove1 key (heRecency (heShards t ! i))\<rparr> t)
       | None \<Rightarrow> map_option (\<lambda>shard. putHeatShard i shard t)
           (trimShard (shardCapacity t)
             \<lparr>heEntries = gput key \<lparr>heAuthID = trim_space authID, heLastSeen = n\<rparr> (heEntries (heShards t ! i)),
              heRecency = key # heRecency (heShards t ! i)\<rparr>))"
    using False unfolding RecordHeat_def Let_def key_def i_def n_def by (simp only: if_False)
  show ?thesis
  proof (cases "glookup (heEntries (heShards t ! i)) key")
    case (Some entry)
    note mv = move_front_ok [OF conjunct1 [OF ok] Some, of "entry\<lparr>heLastSeen := n\<rparr>"]
    then have "heat_ok (putHeatShard i
        \<lparr>heEntries = gput key (entry\<lparr>heLastSeen := n\<rparr>) (heEntries (heShards t ! i)),
         heRecency = key # remove1 key (heRecency (heShards t ! i))\<rparr> t)"
      using ok by (intro heat_put [OF assms]) simp_all
    then show ?thesis by (simp add: r Some)
  next
    case None
    have c: "0 \<le> shardCapacity t" using shardCapacity_pos [of t] by linarith
    obtain s' where s': "trimShard (shardCapacity t)
             \<lparr>heEntries = gput key \<lparr>heAuthID = trim_space authID, heLastSeen = n\<rparr> (heEntries (heShards t ! i)),
              heRecency = key # heRecency (heShards t ! i)\<rparr> = Some s'"
      using trimShard_ends [OF push_front_ok [OF conjunct1 [OF ok] None] c] by blast
    with trimShard_size [OF push_front_ok [OF conjunct1 [OF ok] None] c s'] show ?thesis
      by (simp add: r None heat_put [OF assms])
  qed
qed

lemma trimShards_ends:
  "0 \<le> capacity \<Longrightarrow> \<forall>shard \<in> set shards. heat_shard_ok shard \<Longrightarrow>
   \<exists>shards'. trimShards capacity shards = Some shards' \<and> length shards' = length shards \<and>
     (\<forall>shard \<in> set shards'. heat_shard_ok shard \<and> int (length (heEntries shard)) \<le> capacity)"
proof (induction shards)
  case (Cons shard shards)
  obtain s' where s': "trimShard capacity shard = Some s'" using trimShard_ends [OF _ Cons.prems(1), of shard] Cons.prems(2) by auto
  from Cons.IH [OF Cons.prems(1)] Cons.prems(2) obtain rest where "trimShards capacity shards = Some rest" "length rest = length shards"
     "\<forall>shard \<in> set rest. heat_shard_ok shard \<and> int (length (heEntries shard)) \<le> capacity" by auto
  then show ?case using s' trimShard_size [OF _ Cons.prems(1) s'] Cons.prems(2) by simp
qed simp

lemma config_ok: "heat_ok t \<Longrightarrow> \<exists>t'. UpdateHeatConfig ttl maxEntries t = Some t' \<and> heat_ok t'"
proof -
  assume ok: "heat_ok t"
  let ?t = "t\<lparr>heTtl := heatTtlSetting ttl, heMaxEntries := heatMaxSetting maxEntries\<rparr>"
  have "0 \<le> shardCapacity ?t" using shardCapacity_pos [of ?t] by linarith
  from trimShards_ends [OF this, of "heShards t"] ok obtain shards where "trimShards (shardCapacity ?t) (heShards t) = Some shards"
    "length shards = length (heShards t)" "\<forall>shard \<in> set shards. heat_shard_ok shard \<and> int (length (heEntries shard)) \<le> shardCapacity ?t"
    by (auto simp: heat_ok_def)
  then show ?thesis using ok by (auto simp: UpdateHeatConfig_def Let_def heat_ok_def shardCapacity_def)
qed

lemma heat_fold_remove_ok:
  assumes "heat_shard_ok shard"
  shows "heat_shard_ok (fold (\<lambda>key shard. case glookup (heEntries shard) key of
             None \<Rightarrow> shard
           | Some entry \<Rightarrow> if P entry then removePrefixHeatElement (Some key) shard else shard) ks shard) \<and>
    length (heEntries (fold (\<lambda>key shard. case glookup (heEntries shard) key of
             None \<Rightarrow> shard
           | Some entry \<Rightarrow> if P entry then removePrefixHeatElement (Some key) shard else shard) ks shard)) \<le> length (heEntries shard)"
  using assms
proof (induction ks arbitrary: shard)
  case (Cons key ks)
  let ?s = "case glookup (heEntries shard) key of
             None \<Rightarrow> shard
           | Some entry \<Rightarrow> if P entry then removePrefixHeatElement (Some key) shard else shard"
  have "heat_shard_ok ?s" using remove_ok [OF Cons.prems, of "Some key"] Cons.prems by (simp split: option.split)
  moreover have "length (heEntries ?s) \<le> length (heEntries shard)"
    by (simp add: removePrefixHeatElement_def length_delete_le split: option.split)
  ultimately show ?case using Cons.IH [of ?s] by simp
qed simp

lemma drop_ok: "heat_shard_ok shard \<Longrightarrow>
    heat_shard_ok (dropExpiredHeat ttl now ks shard) \<and> length (heEntries (dropExpiredHeat ttl now ks shard)) \<le> length (heEntries shard)"
  unfolding dropExpiredHeat_def by (rule heat_fold_remove_ok)

lemma invalidate_shard_ok: "heat_shard_ok shard \<Longrightarrow>
    heat_shard_ok (invalidateShard authID shard) \<and> length (heEntries (invalidateShard authID shard)) \<le> length (heEntries shard)"
  unfolding invalidateShard_def by (rule heat_fold_remove_ok)

lemma hot_ok: "heat_ok t \<Longrightarrow> heat_ok (snd (fst (HotAuths p auths now clock t env)))"
proof -
  assume ok: "heat_ok t"
  have "heat_ok (putHeatShard (prefixHeatShardIndex q) (dropExpiredHeat ttl n ks (heShards t ! prefixHeatShardIndex q)) t)" for q ttl n ks
    using heat_okD [OF ok, of q] drop_ok [of "heShards t ! prefixHeatShardIndex q" ttl n ks] by (intro heat_put [OF ok]) auto
  then show ?thesis using ok by (auto simp: HotAuths_def Let_def hotCandidates_def split: prod.split)
qed

lemma heat_invalidate_ok: "heat_ok t \<Longrightarrow> heat_ok (InvalidateHeat authID t)"
proof -
  assume ok: "heat_ok t"
  have "heat_shard_ok (invalidateShard i s) \<and> int (length (heEntries (invalidateShard i s))) \<le> shardCapacity t"
    if "s \<in> set (heShards t)" for i s
    using ok that invalidate_shard_ok [of s i] by (force simp: heat_ok_def)
  then show ?thesis using ok by (simp add: heat_ok_def InvalidateHeat_def Let_def)
qed

section \<open>Reachable trackers\<close>

inductive heat_step :: "prefixHeatTracker \<Rightarrow> prefixHeatTracker \<Rightarrow> bool" where
  recorded: "RecordHeat p authID now clock t = Some t' \<Longrightarrow> heat_step t t'"
| hot: "heat_step t (snd (fst (HotAuths p auths now clock t env)))"
| configure: "UpdateHeatConfig ttl maxEntries t = Some t' \<Longrightarrow> heat_step t t'"
| invalidate: "heat_step t (InvalidateHeat authID t)"

definition new_heat :: "prefixHeatTracker \<Rightarrow> bool" where
  "new_heat t \<longleftrightarrow> (\<exists>ttl maxEntries. t = newPrefixHeatTracker ttl maxEntries)"

lemma new_heat_ok: "new_heat t \<Longrightarrow> heat_ok t"
proof -
  assume "new_heat t"
  moreover have "0 \<le> shardCapacity t" using shardCapacity_pos [of t] by linarith
  ultimately show ?thesis
    by (auto simp: new_heat_def newPrefixHeatTracker_def heat_ok_def emptyHeatShard_def heat_shard_ok_def)
qed

lemma heat_step_ok: "heat_ok t \<Longrightarrow> heat_step t t' \<Longrightarrow> heat_ok t'"
proof -
  assume ok: "heat_ok t" and step: "heat_step t t'"
  from step show "heat_ok t'"
  proof cases
    case (recorded p authID now clock)
    then show ?thesis using record_ok [OF ok, of p authID now clock] by simp
  next
    case (hot p auths now clock env)
    then show ?thesis using hot_ok [OF ok] by simp
  next
    case (configure ttl maxEntries)
    then show ?thesis using config_ok [OF ok, of ttl maxEntries] by simp
  next
    case (invalidate authID)
    then show ?thesis using heat_invalidate_ok [OF ok] by simp
  qed
qed

interpretation heat: invariant_system new_heat heat_step heat_ok
  by unfold_locales (auto intro: new_heat_ok heat_step_ok)

section \<open>What is hot\<close>

lemma lowestLoop_set: "set (fst (lowestLoop now as lowest balanced env)) \<subseteq> set as \<union> set balanced"
proof (induction as arbitrary: lowest balanced env)
  case (Cons a as)
  obtain c env' where "concurrencyOf now a env = (c, env')" by fastforce
  then show ?case using Cons.IH by (fastforce split: if_splits)
qed simp

lemma lowest_set: "set (fst (lowestConcurrencyAuths now as env)) \<subseteq> set as"
  using lowestLoop_set [of now as 0 "[]" env] by (simp add: lowestConcurrencyAuths_def)

lemma lowestLoop_ne: "balanced \<noteq> [] \<or> as \<noteq> [] \<Longrightarrow> fst (lowestLoop now as lowest balanced env) \<noteq> []"
proof (induction as arbitrary: lowest balanced env)
  case (Cons a as)
  obtain c env' where c: "concurrencyOf now a env = (c, env')" by fastforce
  then show ?case using Cons.IH [of "[a]"] Cons.IH [of "balanced @ [a]"] Cons.IH [of balanced] by auto
qed simp

lemma lowest_ne: "as \<noteq> [] \<Longrightarrow> fst (lowestConcurrencyAuths now as env) \<noteq> []"
  using lowestLoop_ne [of "[]" as now 0 env] by (simp add: lowestConcurrencyAuths_def)

definition hot_for :: "prefixHeatTracker \<Rightarrow> string \<Rightarrow> gotime \<Rightarrow> Auth \<Rightarrow> bool" where
  "hot_for t p now a = (case heatOf t p a of None \<Rightarrow> False | Some (_, entry) \<Rightarrow> \<not> heatExpired (heatTtl t) now entry)"

lemma HotAuths_fst:
  "now \<noteq> zeroTime \<Longrightarrow> trim_space p \<noteq> '''' \<Longrightarrow>
   fst (fst (HotAuths p as now clock t env)) = fst (lowestConcurrencyAuths now (filter (hot_for t (trim_space p) now) as) env)"
proof (cases "as = []")
  case True
  then show ?thesis by (simp add: HotAuths_def lowestConcurrencyAuths_def)
next
  case False
  assume a: "now \<noteq> zeroTime" "trim_space p \<noteq> ''''"
  have f: "hot_for t (trim_space p) now = (\<lambda>a. case heatOf t (trim_space p) a of None \<Rightarrow> False
      | Some (_, entry) \<Rightarrow> \<not> heatExpired (heatTtl t) now entry)"
    by (rule ext) (simp add: hot_for_def)
  obtain l e where l: "lowestConcurrencyAuths now (filter (hot_for t (trim_space p) now) as) env = (l, e)" by fastforce
  show ?thesis using False a l unfolding HotAuths_def hotCandidates_def Let_def f by simp
qed

lemma record_lookup:
  assumes "heat_ok t" "RecordHeat p (ID a) now clock t = Some t'" "now \<noteq> zeroTime"
    and "trim_space p \<noteq> ''''" "trim_space (ID a) \<noteq> ''''"
  shows "\<exists>key entry. heatOf t' (trim_space p) a = Some (key, entry) \<and> heLastSeen entry = now \<and> heatTtl t' = heatTtl t"
proof -
  define key where "key = prefixHeatKey (trim_space p) (trim_space (ID a))"
  define i where "i = prefixHeatShardIndex (trim_space p)"
  note ok = heat_okD [OF assms(1), of "trim_space p", folded i_def]
  have "heatHash (trim_space p) mod 64 < 64" by (rule word_mod_less_divisor) simp
  then have i: "i < length (heShards t)"
    using assms(1) by (simp add: i_def prefixHeatShardIndex_def word_less_nat_alt heat_ok_def)
  have h: "heatOf (putHeatShard i s t) (trim_space p) a = map_option (Pair key) (glookup (heEntries s) key)"
    "heatTtl (putHeatShard i s t) = heatTtl t" for s
    using i assms(5) by (simp_all add: heatOf_def Let_def key_def i_def putHeatShard_def heatTtl_def)
  show ?thesis
  proof (cases "glookup (heEntries (heShards t ! i)) key")
    case (Some e)
    then have "t' = putHeatShard i \<lparr>heEntries = gput key (e\<lparr>heLastSeen := now\<rparr>) (heEntries (heShards t ! i)),
        heRecency = key # remove1 key (heRecency (heShards t ! i))\<rparr> t"
      using assms(2-5) by (simp add: RecordHeat_def Let_def key_def i_def)
    then show ?thesis by (simp add: h glookup_put)
  next
    case None
    let ?s = "\<lparr>heEntries = gput key \<lparr>heAuthID = trim_space (ID a), heLastSeen = now\<rparr> (heEntries (heShards t ! i)),
              heRecency = key # heRecency (heShards t ! i)\<rparr>"
    have c: "1 \<le> shardCapacity t" by (rule shardCapacity_pos)
    obtain s' where s': "trimShard (shardCapacity t) ?s = Some s'" "heRecency s' = take (nat (shardCapacity t)) (heRecency ?s)"
      "\<And>k. glookup (heEntries s') k = (if k \<in> set (heRecency s') then glookup (heEntries ?s) k else None)"
      using trimShard_ends [OF push_front_ok [OF conjunct1 [OF ok] None], of "shardCapacity t"] c by fastforce
    have "t' = putHeatShard i s' t"
      using assms(2-5) None s'(1) by (simp add: RecordHeat_def Let_def key_def i_def)
    moreover have "key \<in> set (heRecency s')" using s'(2) c by (cases "nat (shardCapacity t)") simp_all
    ultimately show ?thesis using s'(3) [of key] by (simp add: h glookup_put)
  qed
qed

text \<open>
  C29 (prefix heat). In every tracker that the operations can build, recording a success returns, and
  a cold request with the same prefix finds the credential hot until the time to live has passed; what
  is hot are always candidates recorded for the prefix within the time to live, and when a
  candidate is hot some are returned. The map and the list of a shard hold the same entries, at
  most the shard's share of the configured number.
\<close>

theorem prefix_heat_bounded:
  assumes "reachable new_heat heat_step t" "now \<noteq> zeroTime" "trim_space p \<noteq> ''''" "trim_space (ID a) \<noteq> ''''"
    and "later \<noteq> zeroTime" "later < now + heatTtl t"
  shows "(\<forall>shard \<in> set (heShards t). set (heRecency shard) = fst ` set (heEntries shard) \<and> int (length (heEntries shard)) \<le> shardCapacity t) \<and>
    (\<exists>t'. RecordHeat p (ID a) now clock t = Some t' \<and>
      fst (fst (HotAuths p [a] later clock t' env)) = [a] \<and>
      (a \<in> set as \<longrightarrow> fst (fst (HotAuths p as later clock t' env)) \<noteq> []) \<and>
      (\<forall>b. b \<in> set (fst (fst (HotAuths p as later clock t' env))) \<longrightarrow> b \<in> set as \<and> hot_for t' (trim_space p) later b))"
proof -
  have ok: "heat_ok t" using assms(1) by (rule heat.reachable_inv)
  obtain t' where t': "RecordHeat p (ID a) now clock t = Some t'" using record_ok [OF ok] by blast
  obtain key entry where e: "heatOf t' (trim_space p) a = Some (key, entry)" "heLastSeen entry = now" "heatTtl t' = heatTtl t"
    using record_lookup [OF ok t' assms(2-4)] by blast
  then have hot: "hot_for t' (trim_space p) later a" using assms(6) by (simp add: heatExpired_def hot_for_def)
  note fst = HotAuths_fst [OF assms(5,3), of _ clock t' env]
  have one: "fst (fst (HotAuths p [a] later clock t' env)) = [a]"
    using hot by (simp add: fst lowestConcurrencyAuths_def)
  have "fst (fst (HotAuths p as later clock t' env)) \<noteq> []" if a: "a \<in> set as"
  proof -
    have "a \<in> set (filter (hot_for t' (trim_space p) later) as)" using a hot by simp
    then have "filter (hot_for t' (trim_space p) later) as \<noteq> []" by (metis list.set(1) empty_iff)
    then show ?thesis unfolding fst by (rule lowest_ne)
  qed
  moreover have "b \<in> set as \<and> hot_for t' (trim_space p) later b" if "b \<in> set (fst (fst (HotAuths p as later clock t' env)))" for b
    using that subsetD [OF lowest_set] unfolding fst by fastforce
  moreover have "\<forall>shard \<in> set (heShards t). set (heRecency shard) = fst ` set (heEntries shard) \<and> int (length (heEntries shard)) \<le> shardCapacity t"
    using ok by (simp add: heat_ok_def heat_shard_ok_def)
  ultimately show ?thesis using t' one by blast
qed

lemma prefix_heat_bounded_witness:
  "\<exists>t'. RecordHeat ''p'' (ID (exampleAuth ''a'' [])) 5 6 (newPrefixHeatTracker 0 0) = Some t' \<and>
     fst (fst (HotAuths ''p'' [exampleAuth ''a'' []] 7 6 t' (\<lambda>_. newRuntimeLimits))) = [exampleAuth ''a'' []]"
proof -
  have r: "reachable new_heat heat_step (newPrefixHeatTracker 0 0)"
    by (rule reachable_init) (auto simp: new_heat_def)
  have t: "trim_space ''p'' \<noteq> ''''" "trim_space (ID (exampleAuth ''a'' [])) \<noteq> ''''" by code_simp+
  have l: "(7 :: gotime) < 5 + heatTtl (newPrefixHeatTracker 0 0)" by code_simp
  show ?thesis using prefix_heat_bounded [OF r _ t _ l, of 6 "\<lambda>_. newRuntimeLimits" "[]"] by auto
qed

end
