(* ===== verification/SessionAffinity.thy ===== *)
theory SessionAffinity
  imports SessionCache PrefixHeat PrefixInspection "HOL-Library.Monad_Syntax"
begin

text \<open>
  The selector that keeps a session on its credential (\<open>SessionAffinitySelector\<close> of
  \<open>sdk/cliproxy/auth/selector.go\<close>). It composes two session caches - the bindings and the
  temporary failovers -, the prefix heat, the share limiter and one of the built-in selectors.

  A pick reads the clock several times; here it has one time. The identifiers of the session are
  what \<open>extractSessionIDs\<close> reads of headers, body and metadata, a parameter of the request. Which
  counter a pick advances is the \<open>affinity_route\<close> of its result. The route \<open>RouteShareLimited\<close> is
  also the pick that leaves the mark of \<open>RecordShareLimited\<close> on the request's metadata, which nothing in
  the pick reads after it. The limiter and the store of
  suppressed decisions belong to the process and are kept with the selector's state. \<open>None\<close> is a
  pick that does not return.
\<close>

datatype fallback_selector =
    FallbackRoundRobin cursor_selector
  | FallbackConcurrencyBalanced cursor_selector
  | FallbackWeighted weighted_selector
  | FallbackFillFirst

definition fallbackPick ::
  "pick_request \<Rightarrow> Auth list \<Rightarrow> fallback_selector \<Rightarrow> limits_env \<Rightarrow>
     (select_error + Auth) \<times> fallback_selector \<times> limits_env" where
  "fallbackPick req auths f env =
     (let as = map Some auths
      in case f of
           FallbackRoundRobin s \<Rightarrow> (let (r, s, env) = RoundRobinPick req as (s, env) in (r, FallbackRoundRobin s, env))
         | FallbackConcurrencyBalanced s \<Rightarrow>
             (let (r, s, env) = ConcurrencyBalancedPick req as (s, env) in (r, FallbackConcurrencyBalanced s, env))
         | FallbackWeighted s \<Rightarrow> (let (r, s, env) = WeightedRoundRobinPick req as (s, env) in (r, FallbackWeighted s, env))
         | FallbackFillFirst \<Rightarrow> (let (r, _, env) = FillFirstPick req as ((), env) in (r, FallbackFillFirst, env)))"

definition fallbackCandidates :: "fallback_selector \<Rightarrow> Auth option list \<Rightarrow> Auth option list" where
  "fallbackCandidates f auths = (case f of FallbackWeighted _ \<Rightarrow> positiveWeightAuths auths | _ \<Rightarrow> auths)"

record affinity_state =
  asFallback :: fallback_selector
  asCache :: SessionCache
  asFailover :: SessionCache
  asHighCacheMode :: bool
  asCacheAffinityEnabled :: bool
  asMaxShareRatio :: gofloat
  asExpiryDrainIgnoreAffinity :: bool
  asPrefixHeatEnabled :: bool
  asPrefixHeat :: prefixHeatTracker
  asQuotaPreempt :: gofloat
  asQuotaHardStop :: gofloat
  asShares :: shareLimiter
  asSuppressed :: suppressedDecisions

record affinity_config =
  acFallback :: "fallback_selector option"
  acTtl :: duration
  acHighCacheMode :: bool
  acCacheAffinityEnabled :: bool
  acMaxShareRatio :: gofloat
  acExpiryDrainIgnoreAffinity :: bool
  acMaxEntries :: int
  acMaxSessionRequests :: int
  acMaxSessionDuration :: duration
  acPrefixHeatEnabled :: bool
  acPrefixHeatTTL :: duration
  acPrefixHeatMaxEntries :: int
  acQuotaPreempt :: gofloat
  acQuotaHardStop :: gofloat

definition ConfigurePrefixHeat :: "bool \<Rightarrow> duration \<Rightarrow> int \<Rightarrow> affinity_state \<Rightarrow> affinity_state option" where
  "ConfigurePrefixHeat enabled ttl maxEntries s =
     map_option (\<lambda>heat. s\<lparr>asPrefixHeat := heat, asPrefixHeatEnabled := asCacheAffinityEnabled s \<and> enabled\<rparr>)
       (UpdateHeatConfig ttl maxEntries (asPrefixHeat s))"

definition ConfigureCacheAffinityMaxShareRatio :: "gofloat \<Rightarrow> affinity_state \<Rightarrow> affinity_state" where
  "ConfigureCacheAffinityMaxShareRatio value s =
     s\<lparr>asMaxShareRatio := (if flt_less value (Fin 0) then Fin 0 else if flt_less (Fin 1) value then Fin 1 else value)\<rparr>"

definition NewSessionAffinitySelectorWithConfig ::
  "affinity_config \<Rightarrow> shareLimiter \<Rightarrow> suppressedDecisions \<Rightarrow> affinity_state option" where
  "NewSessionAffinitySelectorWithConfig cfg shares suppressed =
     (let ttl = (if acTtl cfg \<le> 0 then hour else acTtl cfg);
          preempt = (if flt_le (acQuotaPreempt cfg) (Fin 0) \<or> flt_le (Fin 1) (acQuotaPreempt cfg)
                     then Fin (round53 (97 / 100)) else acQuotaPreempt cfg);
          hardStop = (if flt_le (acQuotaHardStop cfg) preempt \<or> flt_less (Fin 1) (acQuotaHardStop cfg)
                      then Fin (round53 (99 / 100)) else acQuotaHardStop cfg);
          cache = NewSessionCacheWithBounds ttl (acMaxEntries cfg) (acMaxSessionRequests cfg) (acMaxSessionDuration cfg);
          s = \<lparr>asFallback = (case acFallback cfg of None \<Rightarrow> FallbackRoundRobin \<lparr>cursors = [], maxKeys = 0\<rparr> | Some f \<Rightarrow> f),
               asCache = cache, asFailover = cache, asHighCacheMode = acHighCacheMode cfg,
               asCacheAffinityEnabled = acCacheAffinityEnabled cfg, asMaxShareRatio = Fin 0,
               asExpiryDrainIgnoreAffinity = acExpiryDrainIgnoreAffinity cfg, asPrefixHeatEnabled = False,
               asPrefixHeat = newPrefixHeatTracker (acPrefixHeatTTL cfg) (acPrefixHeatMaxEntries cfg),
               asQuotaPreempt = preempt, asQuotaHardStop = hardStop, asShares = shares, asSuppressed = suppressed\<rparr>
      in map_option (ConfigureCacheAffinityMaxShareRatio (acMaxShareRatio cfg))
           (ConfigurePrefixHeat (acPrefixHeatEnabled cfg) (acPrefixHeatTTL cfg) (acPrefixHeatMaxEntries cfg) s))"

section \<open>The request and its session\<close>

record affinity_pick =
  apPick :: pick_request
  apMetadata :: metadata
  apPrimaryID :: string
  apFallbackID :: string

definition sessionAffinityCacheKey :: "string \<Rightarrow> string \<Rightarrow> string \<Rightarrow> string" where
  "sessionAffinityCacheKey provider sessionID model =
     (if trim_space sessionID = '''' then '''' else provider @ ''::'' @ sessionID @ ''::'' @ model)"

definition highCacheShouldPreferCallerSession :: "string \<Rightarrow> bool" where
  "highCacheShouldPreferCallerSession primaryID0 =
     (let primaryID = trim_space primaryID0
      in primaryID = '''' \<or> has_prefix primaryID ''derived:'' \<or> has_prefix primaryID ''msg:'')"

definition highCacheCallerSessionID :: "metadata \<Rightarrow> string" where
  "highCacheCallerSessionID md =
     (let callerScope = NormalizeExplicitID (mdString md ''caller_scope'')
      in if callerScope = '''' then '''' else ''caller:'' @ callerScope)"

definition affinitySessionIDs :: "affinity_pick \<Rightarrow> gotime \<Rightarrow> affinity_state \<Rightarrow> (string \<times> string) \<times> affinity_state" where
  "affinitySessionIDs p now s =
     (let (routeKey, suppressed) = MetadataValue (apMetadata p) RouteKeyKey now (asSuppressed s);
          s = s\<lparr>asSuppressed := suppressed\<rparr>;
          primaryID = apPrimaryID p; fallbackID = apFallbackID p;
          callerID = highCacheCallerSessionID (apMetadata p)
      in if routeKey \<noteq> '''' then ((''cache-affinity:'' @ routeKey, ''''), s)
         else if \<not> asHighCacheMode s \<or> callerID = '''' then ((primaryID, fallbackID), s)
         else if highCacheShouldPreferCallerSession primaryID then ((callerID, fallbackID), s)
         else if fallbackID = '''' \<and> primaryID \<noteq> callerID then ((primaryID, callerID), s)
         else ((primaryID, fallbackID), s))"

section \<open>What the pick asks about credentials\<close>

abbreviation bypassing :: "Auth \<Rightarrow> Auth" where
  "bypassing a \<equiv> a\<lparr>tailBurstNormalConcurrencyAffinityBypass := True\<rparr>"

definition affinityBoundAuth ::
  "Auth option list \<Rightarrow> Auth list \<Rightarrow> string \<Rightarrow> string \<Rightarrow> string \<Rightarrow> gotime \<Rightarrow> limits_env \<Rightarrow> Auth option \<times> limits_env" where
  "affinityBoundAuth auths available provider model authID0 now env =
     (let authID = trim_space authID0
      in if authID = '''' then (None, env)
         else case find (\<lambda>a. ID a = authID) available of
                Some a \<Rightarrow> (Some (bypassing a), env)
              | None \<Rightarrow>
                  (case find (\<lambda>a. ID a = authID) (List.map_filter id auths) of
                     None \<Rightarrow> (None, env)
                   | Some a \<Rightarrow>
                       (let (r, env) = getAvailableAuthsAcrossPriorities [Some (bypassing a)] provider model now env
                        in (case r of Inr (x # _) \<Rightarrow> Some x | _ \<Rightarrow> None, env))))"

definition cacheAffinityNewSessionAuths :: "affinity_state \<Rightarrow> Auth list \<Rightarrow> string \<Rightarrow> gotime \<Rightarrow> limits_env \<Rightarrow> Auth list" where
  "cacheAffinityNewSessionAuths s auths model now env =
     (if \<not> asCacheAffinityEnabled s then auths
      else filter (\<lambda>a. quotaPreemptFallback a \<or>
             (case codexQuotaSnapshot model now (env (ID a)) of
                None \<Rightarrow> True | Some snapshot \<Rightarrow> \<not> flt_le (asQuotaPreempt s) (UsedRatio snapshot))) auths)"

definition cacheAffinityHardStopped :: "affinity_state \<Rightarrow> Auth \<Rightarrow> string \<Rightarrow> gotime \<Rightarrow> limits_env \<Rightarrow> bool" where
  "cacheAffinityHardStopped s a model now env =
     (if \<not> asCacheAffinityEnabled s \<or> quotaPreemptFallback a then False
      else case codexQuotaSnapshot model now (env (ID a)) of
             None \<Rightarrow> False | Some snapshot \<Rightarrow> flt_le (asQuotaHardStop s) (UsedRatio snapshot))"

definition shouldUseTemporaryFailover ::
  "affinity_state \<Rightarrow> Auth option list \<Rightarrow> string \<Rightarrow> string \<Rightarrow> gotime \<Rightarrow> limits_env \<Rightarrow> bool \<times> limits_env" where
  "shouldUseTemporaryFailover s auths cachedAuthID0 model now env =
     (let cachedAuthID = trim_space cachedAuthID0
      in if cachedAuthID = '''' then (False, env)
         else case find (\<lambda>a. ID a = cachedAuthID) (List.map_filter id auths) of
                None \<Rightarrow> (False, env)
              | Some a \<Rightarrow>
                  let ((blocked, reason, _), env) = isAuthBlockedForModel (Some a) model now env
                  in if \<not> blocked then (False, env)
                     else if asHighCacheMode s
                     then (reason \<noteq> blockReasonDisabled \<and> \<not> authQuotaExceeded (Some a) model \<and>
                             \<not> runtimeAuthHasPersistentQuotaFreeze now (env (ID a)), env)
                     else (reason = blockReasonOther, env))"

definition cacheAffinityShareLimited :: "affinity_pick \<Rightarrow> string \<Rightarrow> gotime \<Rightarrow> affinity_state \<Rightarrow> (bool \<times> affinity_state) option" where
  "cacheAffinityShareLimited p model now s =
     (if \<not> asCacheAffinityEnabled s \<or> \<not> ratioLimits (asMaxShareRatio s) then Some (False, s)
      else let (routeKey, suppressed) = MetadataValue (apMetadata p) RouteKeyKey now (asSuppressed s);
               s = s\<lparr>asSuppressed := suppressed\<rparr>
           in if routeKey = '''' then Some (False, s)
              else map_option (\<lambda>(admitted, shares). (\<not> admitted, s\<lparr>asShares := shares\<rparr>))
                     (AdmitNewBinding (apMetadata p) model (asMaxShareRatio s) now now (asShares s)))"

section \<open>Bindings\<close>

definition sessionKeys :: "string \<Rightarrow> string \<Rightarrow> string list" where
  "sessionKeys cacheKey fallbackKey = (if fallbackKey \<noteq> '''' then [cacheKey, fallbackKey] else [cacheKey])"

definition bindSession :: "string list \<Rightarrow> string \<Rightarrow> gotime \<Rightarrow> affinity_state \<Rightarrow> affinity_state option" where
  "bindSession ks authID now s = map_option (\<lambda>c. s\<lparr>asCache := c\<rparr>) (SetAliases authID ks now now (asCache s))"

definition bindFailover :: "string list \<Rightarrow> string \<Rightarrow> gotime \<Rightarrow> affinity_state \<Rightarrow> affinity_state option" where
  "bindFailover ks authID now s = map_option (\<lambda>c. s\<lparr>asFailover := c\<rparr>) (SetAliases authID ks now now (asFailover s))"

definition clearFailover :: "string list \<Rightarrow> affinity_state \<Rightarrow> affinity_state" where
  "clearFailover ks s = s\<lparr>asFailover := fold InvalidateSession ks (asFailover s)\<rparr>"

datatype affinity_route = RouteNone | RouteHit | RouteMiss | RouteRebind | RouteFailover | RouteShareLimited

type_synonym affinity_result = "((select_error + Auth) \<times> affinity_route) \<times> affinity_state \<times> limits_env"

text \<open>A failover that was bound earlier, where it is still among the candidates.\<close>

definition knownFailover ::
  "string list \<Rightarrow> Auth list \<Rightarrow> gotime \<Rightarrow> affinity_state \<Rightarrow> (Auth option \<times> affinity_state) option" where
  "knownFailover ks auths now s =
     (let (found, c) = GetAndRefresh (hd ks) now now (asFailover s);
          s = s\<lparr>asFailover := c\<rparr>
      in case found of
           None \<Rightarrow> Some (None, s)
         | Some failoverAuthID \<Rightarrow>
             (case find (\<lambda>a. ID a = failoverAuthID) auths of
                Some a \<Rightarrow> map_option (\<lambda>s. (Some a, s)) (bindFailover ks (ID a) now s)
              | None \<Rightarrow> Some (None, s\<lparr>asFailover := InvalidateSession (hd ks) (asFailover s)\<rparr>)))"

definition pickFallback :: "affinity_pick \<Rightarrow> Auth list \<Rightarrow> affinity_state \<Rightarrow> limits_env \<Rightarrow>
    (select_error + Auth) \<times> affinity_state \<times> limits_env" where
  "pickFallback p auths s env =
     (let (r, f, env) = fallbackPick (apPick p) auths (asFallback s) env in (r, s\<lparr>asFallback := f\<rparr>, env))"

text \<open>The warm credential steps aside for one that expires soon: that one, if any.\<close>

definition pickDrain ::
  "affinity_pick \<Rightarrow> string list \<Rightarrow> Auth \<Rightarrow> Auth list \<Rightarrow> gotime \<Rightarrow> affinity_state \<Rightarrow> limits_env \<Rightarrow>
     (Auth option \<times> affinity_state \<times> limits_env) option" where
  "pickDrain p ks a auths now s env =
     (let drainAuths = expiryDrainFailoverAuths (map Some auths) (Some a) (reqModel (apPick p)) now
      in if \<not> asExpiryDrainIgnoreAffinity s \<or> drainAuths = [] then Some (None, s, env)
         else do {
           (known, s) \<leftarrow> knownFailover ks drainAuths now s;
           case known of
             Some d \<Rightarrow> Some (Some d, s, env)
           | None \<Rightarrow>
               let (r, s, env) = pickFallback p drainAuths s env
               in case r of
                    Inl _ \<Rightarrow> Some (None, s, env)
                  | Inr d \<Rightarrow> map_option (\<lambda>s. (Some d, s, env)) (bindFailover ks (ID d) now s)
         })"

text \<open>A session whose binding names a credential that cannot serve it now.\<close>

definition pickAway ::
  "affinity_pick \<Rightarrow> string list \<Rightarrow> string \<Rightarrow> Auth option list \<Rightarrow> Auth list \<Rightarrow> gotime \<Rightarrow> affinity_state \<Rightarrow> limits_env \<Rightarrow>
     affinity_result option" where
  "pickAway p ks cachedAuthID cands fallbackAuths now s env =
     (let (temporary, env) = shouldUseTemporaryFailover s cands cachedAuthID (reqModel (apPick p)) now env
      in do {
        (known, s) \<leftarrow> (if temporary then knownFailover ks fallbackAuths now s else Some (None, s));
        case known of
          Some a \<Rightarrow> Some ((Inr a, RouteFailover), s, env)
        | None \<Rightarrow>
            let (r, s, env) = pickFallback p fallbackAuths s env
            in case r of
                 Inl e \<Rightarrow> Some ((Inl e, RouteNone), s, env)
               | Inr a \<Rightarrow>
                   if temporary then map_option (\<lambda>s. ((Inr a, RouteFailover), s, env)) (bindFailover ks (ID a) now s)
                   else map_option (\<lambda>s. ((Inr a, RouteRebind), clearFailover ks s, env)) (bindSession ks (ID a) now s)
      })"

text \<open>A session whose binding names a credential.\<close>

definition pickWarm ::
  "affinity_pick \<Rightarrow> string list \<Rightarrow> string \<Rightarrow> Auth option \<Rightarrow> Auth option list \<Rightarrow> Auth list \<Rightarrow> gotime \<Rightarrow> affinity_state \<Rightarrow>
     limits_env \<Rightarrow> affinity_result option" where
  "pickWarm p ks cachedAuthID bound cands fallbackAuths now s env =
     (case bound of
        Some a \<Rightarrow>
          if ID a \<noteq> cachedAuthID then pickAway p ks cachedAuthID cands fallbackAuths now s env
          else if cacheAffinityHardStopped s a (reqModel (apPick p)) now env
          then pickAway p ks cachedAuthID cands fallbackAuths now s env
          else let (stickyBypass, st) = consumeStickyBypass (hd ks) now (env (ID a));
                   env = env(ID a := st)
               in if stickyBypass
                  then pickAway p ks cachedAuthID cands fallbackAuths now
                         (clearFailover ks (s\<lparr>asCache := InvalidateSession (hd ks) (asCache s)\<rparr>)) env
                  else do {
                    (drained, s, env) \<leftarrow> pickDrain p ks a fallbackAuths now s env;
                    case drained of
                      Some d \<Rightarrow> Some ((Inr d, RouteFailover), s, env)
                    | None \<Rightarrow> map_option (\<lambda>s. ((Inr a, RouteHit), clearFailover ks s, env)) (bindSession ks (ID a) now s)
                  }
      | None \<Rightarrow> pickAway p ks cachedAuthID cands fallbackAuths now s env)"

definition pickPrefixHeatAuth ::
  "affinity_pick \<Rightarrow> Auth list \<Rightarrow> gotime \<Rightarrow> affinity_state \<Rightarrow> limits_env \<Rightarrow>
     (select_error + Auth) \<times> affinity_state \<times> limits_env" where
  "pickPrefixHeatAuth p auths now s env =
     (if \<not> asPrefixHeatEnabled s then pickFallback p auths s env
      else let (fingerprint, suppressed) = MetadataValue (apMetadata p) PrefixFingerprintKey now (asSuppressed s);
               ((hotAuths, heat), env) = HotAuths fingerprint auths now now (asPrefixHeat s) env;
               s = s\<lparr>asSuppressed := suppressed, asPrefixHeat := heat\<rparr>
           in if hotAuths = [] then pickFallback p auths s env
              else let (r, s, env) = pickFallback p hotAuths s env
                   in case r of Inr a \<Rightarrow> (Inr a, s, env) | Inl _ \<Rightarrow> pickFallback p auths s env)"

text \<open>A session without a binding.\<close>

definition pickCold ::
  "affinity_pick \<Rightarrow> string list \<Rightarrow> Auth list \<Rightarrow> gotime \<Rightarrow> affinity_state \<Rightarrow> limits_env \<Rightarrow> affinity_result option" where
  "pickCold p ks fallbackAuths now s env = do {
     (limited, s) \<leftarrow> cacheAffinityShareLimited p (reqModel (apPick p)) now s;
     if limited
     then let s = s\<lparr>asSuppressed := snd (RecordShareLimited (apMetadata p) now (asSuppressed s))\<rparr>;
              (r, s, env) = pickFallback p fallbackAuths s env
          in Some ((r, RouteShareLimited), s, env)
     else let (r, s, env) = pickPrefixHeatAuth p fallbackAuths now s env
          in case r of
               Inl e \<Rightarrow> Some ((Inl e, RouteNone), s, env)
             | Inr a \<Rightarrow> map_option (\<lambda>s. ((Inr a, RouteMiss), clearFailover ks s, env)) (bindSession ks (ID a) now s)
   }"

section \<open>The pick\<close>

definition affinityLookup ::
  "string \<Rightarrow> string \<Rightarrow> gotime \<Rightarrow> affinity_state \<Rightarrow> (string option \<times> string option) \<times> affinity_state" where
  "affinityLookup cacheKey fallbackKey now s =
     (let (primary, c) = GetAndRefresh cacheKey now now (asCache s);
          (fb, c) = (if primary = None \<and> fallbackKey \<noteq> '''' then GetAndRefresh fallbackKey now now c else (None, c))
      in ((primary, fb), s\<lparr>asCache := c\<rparr>))"

definition AffinityPick :: "affinity_pick \<Rightarrow> Auth option list \<Rightarrow> affinity_state \<Rightarrow> limits_env \<Rightarrow> affinity_result option" where
  "AffinityPick p auths s env =
     (let req = apPick p; now = reqNow req; provider = reqProvider req; model = reqModel req;
          ((primaryID, fallbackID), s) = affinitySessionIDs p now s;
          cands = fallbackCandidates (asFallback s) auths
      in if primaryID = ''''
         then (case getAvailableAuths cands provider model now env of
                 (Inl e, env) \<Rightarrow> Some ((Inl e, RouteNone), s, env)
               | (Inr available, env) \<Rightarrow>
                   let (r, s, env) = pickFallback p (expiryPriorityAuths available now) s env in Some ((r, RouteNone), s, env))
         else let cacheKey = sessionAffinityCacheKey provider primaryID model;
                  fallbackKey = (if fallbackID \<noteq> '''' \<and> fallbackID \<noteq> primaryID
                                 then sessionAffinityCacheKey provider fallbackID model else '''');
                  ks = sessionKeys cacheKey fallbackKey;
                  ((primary, fb), s) = affinityLookup cacheKey fallbackKey now s;
                  warmAuthID = (case primary of Some i \<Rightarrow> i | None \<Rightarrow> (case fb of Some i \<Rightarrow> i | None \<Rightarrow> ''''));
                  (r, env) = getAvailableAuthsAcrossPriorities cands provider model now env;
                  available = (case r of Inl _ \<Rightarrow> [] | Inr l \<Rightarrow> l);
                  (bound, env) = affinityBoundAuth cands available provider model warmAuthID now env;
                  fallbackAuths = expiryPriorityAuths (highestPriorityAuths (cacheAffinityNewSessionAuths s available model now env)) now
              in case (r, bound) of
                   (Inl e, None) \<Rightarrow> Some ((Inl e, RouteNone), s, env)
                 | _ \<Rightarrow>
                     (case primary of
                        Some cachedAuthID \<Rightarrow> pickWarm p ks cachedAuthID bound cands fallbackAuths now s env
                      | None \<Rightarrow>
                          (case (fb, bound) of
                             (Some fbAuthID, Some a) \<Rightarrow>
                               if ID a = fbAuthID
                               then map_option (\<lambda>s. ((Inr a, RouteHit), clearFailover ks s, env)) (bindSession ks (ID a) now s)
                               else pickCold p ks fallbackAuths now s env
                           | _ \<Rightarrow> pickCold p ks fallbackAuths now s env)))"

section \<open>Other operations\<close>

definition AffinityInvalidateAuth :: "string \<Rightarrow> affinity_state \<Rightarrow> affinity_state" where
  "AffinityInvalidateAuth authID s =
     s\<lparr>asCache := InvalidateAuth authID (asCache s), asFailover := InvalidateAuth authID (asFailover s),
       asPrefixHeat := InvalidateHeat authID (asPrefixHeat s)\<rparr>"

definition BindAuthSession :: "string \<Rightarrow> string \<Rightarrow> string \<Rightarrow> string \<Rightarrow> gotime \<Rightarrow> affinity_state \<Rightarrow> affinity_state option" where
  "BindAuthSession provider model sessionID authID now s =
     (let cacheKey = sessionAffinityCacheKey provider sessionID model
      in if cacheKey = '''' \<or> trim_space authID = '''' then Some s
         else map_option (\<lambda>c. s\<lparr>asCache := c, asFailover := InvalidateSession cacheKey (asFailover s)\<rparr>)
                (setSession cacheKey (trim_space authID) now now (asCache s)))"

definition BoundAuthSession :: "string \<Rightarrow> string \<Rightarrow> affinity_pick \<Rightarrow> gotime \<Rightarrow> affinity_state \<Rightarrow> string option \<times> affinity_state" where
  "BoundAuthSession provider model p now s =
     (let ((primaryID, fallbackID), s) = affinitySessionIDs p now s;
          nonempty = (\<lambda>found. case found of Some i \<Rightarrow> trim_space i \<noteq> '''' | None \<Rightarrow> False)
      in if primaryID = '''' then (None, s)
         else let (primary, c) = GetAndRefresh (sessionAffinityCacheKey provider primaryID model) now now (asCache s)
              in if nonempty primary then (map_option trim_space primary, s\<lparr>asCache := c\<rparr>)
                 else if fallbackID = '''' \<or> fallbackID = primaryID then (None, s\<lparr>asCache := c\<rparr>)
                 else let (fb, c) = GetAndRefresh (sessionAffinityCacheKey provider fallbackID model) now now c
                      in (if nonempty fb then map_option trim_space fb else None, s\<lparr>asCache := c\<rparr>))"

definition RecordCacheAffinitySuccess :: "string \<Rightarrow> metadata \<Rightarrow> gotime \<Rightarrow> affinity_state \<Rightarrow> affinity_state option" where
  "RecordCacheAffinitySuccess authID md now s =
     (if \<not> asPrefixHeatEnabled s \<or> mdBool md ''__cliproxy_codex_tail_burst'' then Some s
      else let (fingerprint, suppressed) = MetadataValue md PrefixFingerprintKey now (asSuppressed s);
               s = s\<lparr>asSuppressed := suppressed\<rparr>
           in if fingerprint = '''' \<or> trim_space authID = '''' then Some s
              else map_option (\<lambda>heat. s\<lparr>asPrefixHeat := heat\<rparr>)
                     (RecordHeat fingerprint (trim_space authID) now now (asPrefixHeat s)))"

end
