(* ===== verification/SessionAffinityProps.thy ===== *)
theory SessionAffinityProps
  imports SessionCacheProps SessionAffinity
begin

text \<open>
  What the session-affinity selector promises: a pick returns and keeps the caches bounded, it
  returns a credential that may serve the request, and a session stays on its credential.

  The pick asks about credentials several times, and each question may close expired windows of
  the credential's request-time state. The first section shows that asking again at the same time
  gives the same answer.
\<close>

section \<open>Asking twice\<close>

text \<open>What a question about the session or the quota of a credential reads.\<close>

definition same_view :: "authRuntimeLimits \<Rightarrow> authRuntimeLimits \<Rightarrow> bool" where
  "same_view st st' \<longleftrightarrow> stickyBypassSessions st' = stickyBypassSessions st \<and> stickyBypassNext st' = stickyBypassNext st \<and>
     codexQuotaSnapshots st' = codexQuotaSnapshots st"

lemma runtime_view: "same_view st (snd (runtimeAuthBlockedForModelWithTailBurst auth model now tb st))"
proof -
  have next_bypass: "stickyBypassNext (compactRuntimeWindowLocked now cfg st) = stickyBypassNext st" for cfg
    unfolding compactRuntimeWindowLocked_def Let_def
    by (cases "rateWindowStart st = 0"; cases "rateWindowCount st > 0") simp_all
  have skip: "stickyBypassNext (recordSkipLocked r u now st) = stickyBypassNext st"
    "codexQuotaSnapshots (recordSkipLocked r u now st) = codexQuotaSnapshots st" for r u st
    by (simp_all add: recordSkipLocked_def)
  show ?thesis
  proof (cases auth)
    case (Some a)
    show ?thesis
      unfolding Some runtimeAuthBlockedForModelWithTailBurst_def option.case Let_def case_prod_unfold if_distrib [of snd] snd_conv
      by (simp add: same_view_def next_bypass skip)
  qed (simp add: runtimeAuthBlockedForModelWithTailBurst_def same_view_def)
qed

lemma same_view_refl [simp]: "same_view st st"
  and same_view_trans: "same_view st st' \<Longrightarrow> same_view st' st'' \<Longrightarrow> same_view st st''"
  by (simp_all add: same_view_def)

lemma snapshot_view: "same_view st st' \<Longrightarrow> codexQuotaSnapshot model now st' = codexQuotaSnapshot model now st"
  by (simp add: same_view_def codexQuotaSnapshot_def snapshotStore_def)

lemma bypass_view: "same_view st st' \<Longrightarrow> fst (consumeStickyBypass key now st') = fst (consumeStickyBypass key now st)"
  by (simp add: same_view_def consumeStickyBypass_def pruneStickyBypassSessionsLocked_def Let_def split: option.split)

lemma check_view: "same_view (env i) (snd (isAuthBlockedForModel auth model now env) i)"
proof (cases auth)
  case (Some a)
  obtain x st where r: "runtimeAuthBlockedForModelWithTailBurst auth model now False (env (ID a)) = (x, st)" by fastforce
  then have "same_view (env (ID a)) st" using runtime_view [of "env (ID a)" auth model now False] by simp
  then show ?thesis using r Some
    by (cases x) (simp add: isAuthBlockedForModel_def isAuthBlockedForModelWithTailBurst_def Let_def)
qed (simp add: isAuthBlockedForModel_def isAuthBlockedForModelWithTailBurst_def)

lemma collect_view:
  "collectLoop auths model now av cc e env = (r, env') \<Longrightarrow> same_view (env i) (env' i)"
proof (induction auths arbitrary: av cc e env)
  case (Cons candidate rest)
  obtain b x t env1 where c: "isAuthBlockedForModel candidate model now env = ((b, x, t), env1)" by (metis prod.collapse)
  have "same_view (env1 i) (env' i)"
    using Cons.IH Cons.prems by (simp add: c Let_def split: if_splits)
  moreover have "same_view (env i) (env1 i)" using check_view [of env i candidate model now] by (simp add: c)
  ultimately show ?case by (blast intro: same_view_trans)
qed simp

lemma available_view:
  "getAvailableAuthsWithPriorityMode auths provider model now all env = (r, env') \<Longrightarrow> same_view (env i) (env' i)"
  by (auto simp: getAvailableAuthsWithPriorityMode_def collectAvailableByPriority_def Let_def
      split: if_splits prod.splits dest: collect_view)

text \<open>The verdict of a second check, also of one with the soft cap bypassed.\<close>

text \<open>The two halves of a compaction: closing deadlines and rolling the window.\<close>

definition settleDeadlines :: "gotime \<Rightarrow> authRuntimeLimits \<Rightarrow> authRuntimeLimits" where
  "settleDeadlines now st = (let d = (\<lambda>t. expireDeadline now t)
     in st\<lparr>frozenUntil := d (frozenUntil st), usageLimitFreezeUntil := d (usageLimitFreezeUntil st),
           quotaPreemptFreezeUntil := d (quotaPreemptFreezeUntil st), rateLimitedUntil := d (rateLimitedUntil st),
           upstreamRateLimitedUntil := d (upstreamRateLimitedUntil st)\<rparr>)"

definition rolled :: "gotime \<Rightarrow> duration \<Rightarrow> authRuntimeLimits \<Rightarrow> authRuntimeLimits" where
  "rolled now window st =
     (if rateWindowStart st = zeroTime
      then (if rateWindowCount st > 0 then st\<lparr>rateWindowCount := 0\<rparr> else st)
      else if time_sub now (rateWindowStart st) \<ge> window
      then st\<lparr>rateWindowStart := now, rateWindowCount := 0, rateLimitedUntil := zeroTime\<rparr>
      else st)"

definition rateWindow :: "RuntimeLimitConfig \<Rightarrow> duration" where
  "rateWindow cfg = (if dur_mul (rateLimitWindowSeconds cfg) second \<le> 0
     then defaultRuntimeRateLimitWindowSeconds * second else dur_mul (rateLimitWindowSeconds cfg) second)"

lemma compact_halves: "compactRuntimeWindowLocked now cfg st = rolled now (rateWindow cfg) (settleDeadlines now st)"
  by (simp only: compactRuntimeWindowLocked_def Let_def rateWindow_def rolled_def settleDeadlines_def)

lemma compact_again: "compactRuntimeWindowLocked now cfg (compactRuntimeWindowLocked now cfg st) = compactRuntimeWindowLocked now cfg st"
proof -
  define d where "d = (\<lambda>t. expireDeadline now t)"
  have d: "d (d t) = d t" "d 0 = 0" for t by (simp_all add: d_def)
  have c: "settleDeadlines now st = st\<lparr>frozenUntil := d (frozenUntil st), usageLimitFreezeUntil := d (usageLimitFreezeUntil st),
           quotaPreemptFreezeUntil := d (quotaPreemptFreezeUntil st), rateLimitedUntil := d (rateLimitedUntil st),
           upstreamRateLimitedUntil := d (upstreamRateLimitedUntil st)\<rparr>" for st
    by (simp only: settleDeadlines_def Let_def d_def)
  have "0 < rateWindow cfg" by (simp add: rateWindow_def)
  then have "\<not> rateWindow cfg \<le> time_sub now now" by (simp add: time_sub_def)
  then have "rolled now (rateWindow cfg) (rolled now (rateWindow cfg) st) = rolled now (rateWindow cfg) st" for st
    by (simp add: rolled_def)
  moreover have "settleDeadlines now (rolled now w (settleDeadlines now st)) = rolled now w (settleDeadlines now st)" for w
    by (simp add: rolled_def c d)
  ultimately show ?thesis by (simp only: compact_halves)
qed

abbreviation noted :: "gotime \<Rightarrow> string \<Rightarrow> gotime \<Rightarrow> gotime \<Rightarrow> authRuntimeLimits \<Rightarrow> authRuntimeLimits" where
  "noted v r u t st \<equiv> st\<lparr>rateLimitedUntil := v, lastSkipReason := r, lastSkipRecordedAt := u, lastSkipRecoveryTarget := t\<rparr>"

text \<open>The state a check leaves, up to the notes it makes.\<close>

definition settled :: "gotime \<Rightarrow> Auth \<Rightarrow> authRuntimeLimits \<Rightarrow> authRuntimeLimits \<Rightarrow> bool" where
  "settled now a st st' \<longleftrightarrow> (\<exists>v r u t. st' = noted v r u t (compactRuntimeWindowLocked now (runtimeLimitConfig a) st))"

lemma compact_window:
  "rateLimitWindowSeconds cfg = rateLimitWindowSeconds cfg' \<Longrightarrow> compactRuntimeWindowLocked now cfg st = compactRuntimeWindowLocked now cfg' st"
  by (simp add: compactRuntimeWindowLocked_def)

lemma settledI: "c = compactRuntimeWindowLocked now (runtimeLimitConfig a) st \<Longrightarrow> settled now a st (noted v r u t c)"
  by (auto simp: settled_def)

lemma runtime_settles: "settled now a st (snd (runtimeAuthBlockedForModelWithTailBurst (Some a) model now tb st))"
proof -
  define c where "c = compactRuntimeWindowLocked now (runtimeLimitConfig a) st"
  have c': "compactRuntimeWindowLocked now (runtimeLimitConfigForModel a model now st) st = c"
    unfolding c_def by (rule compact_window) simp
  have s: "settled now a st (noted v r u t c)" for v r u t by (rule settledI [OF c_def])
  have "settled now a st c"
    using s [where v = "rateLimitedUntil c" and r = "lastSkipReason c" and u = "lastSkipRecordedAt c" and t = "lastSkipRecoveryTarget c"] by simp
  moreover have "settled now a st (recordSkipLocked r u now c)" for r u
    using s [where v = "rateLimitedUntil c" and r = r and u = now and t = u] by (simp add: recordSkipLocked_def)
  moreover have "settled now a st (recordSkipLocked r u now (c\<lparr>rateLimitedUntil := v\<rparr>))" for r u v
    using s [where v = v and r = r and u = now and t = u] by (simp add: recordSkipLocked_def)
  ultimately show ?thesis
    unfolding runtimeAuthBlockedForModelWithTailBurst_def option.case Let_def case_prod_unfold if_distrib [of snd] snd_conv c'
    by (simp split: if_split)
qed

lemma compact_noted: "\<exists>v'. compactRuntimeWindowLocked now cfg (noted v r u t st) = noted v' r u t (compactRuntimeWindowLocked now cfg st)"
proof -
  have "settleDeadlines now (noted v r u t st) = noted (expireDeadline now v) r u t (settleDeadlines now st)"
  proof -
    define d where "d = (\<lambda>t. expireDeadline now t)"
    have c: "settleDeadlines now st = st\<lparr>frozenUntil := d (frozenUntil st), usageLimitFreezeUntil := d (usageLimitFreezeUntil st),
           quotaPreemptFreezeUntil := d (quotaPreemptFreezeUntil st), rateLimitedUntil := d (rateLimitedUntil st),
           upstreamRateLimitedUntil := d (upstreamRateLimitedUntil st)\<rparr>" for st
      by (simp only: settleDeadlines_def Let_def d_def)
    have "expireDeadline now v = d v" by (simp only: d_def)
    then show ?thesis by (simp only: c) simp
  qed
  moreover have "rolled now w (noted v r u t st) = noted (if rateWindowStart st \<noteq> 0 \<and> w \<le> time_sub now (rateWindowStart st) then 0 else v)
      r u t (rolled now w st)" for v w st
    by (simp add: rolled_def)
  ultimately have "compactRuntimeWindowLocked now cfg (noted v r u t st) =
      noted (if rateWindowStart (settleDeadlines now st) \<noteq> 0 \<and> rateWindow cfg \<le> time_sub now (rateWindowStart (settleDeadlines now st))
             then 0 else expireDeadline now v) r u t (compactRuntimeWindowLocked now cfg st)"
    unfolding compact_halves by (simp only:)
  then show ?thesis ..
qed

lemma drain_limit_noted: "codexQuotaSnapshots st' = codexQuotaSnapshots st \<Longrightarrow>
    expiryDrainConcurrencyLimit a model now n st' = expiryDrainConcurrencyLimit a model now n st"
  by (simp add: expiryDrainConcurrencyLimit_def expiryDrainConcurrencyCeiling_def codexQuotaSnapshot_def snapshotStore_def)

lemma config_same:
  assumes "Metadata b = Metadata a" "Attributes b = Attributes a"
  shows "runtimeLimitConfig b = runtimeLimitConfig a"
proof -
  have l: "runtimeLimitLookupAny b = runtimeLimitLookupAny a"
    unfolding runtimeLimitLookupAny_def assms ..
  have "runtimeLimitIntAny b ks = runtimeLimitIntAny a ks" "runtimeLimitBoolAny b ks = runtimeLimitBoolAny a ks" for ks
    by (induction ks) (simp_all only: runtimeLimitIntAny.simps runtimeLimitBoolAny.simps l)
  moreover have "runtimeLimitHasAny b = runtimeLimitHasAny a" by (rule ext) (simp add: runtimeLimitHasAny_def l)
  ultimately show ?thesis by (simp only: runtimeLimitConfig_def)
qed

lemma config_noted:
  assumes "codexQuotaSnapshots st' = codexQuotaSnapshots st"
  shows "runtimeLimitConfigForModel a model now st' = runtimeLimitConfigForModel a model now st"
  unfolding runtimeLimitConfigForModel_def expiryPriorityConcurrencyLimit_def drain_limit_noted [OF assms] ..

lemma preempt_noted: "runtimeQuotaPreemptFreezeBypassed a now tb (noted v r u t st) = runtimeQuotaPreemptFreezeBypassed a now tb st"
  by (simp add: runtimeQuotaPreemptFreezeBypassed_def onlyQuotaPreemptFreezeLocked_def)

lemma freeze_noted: "activeFreezeLocked now (noted v r u t st) = activeFreezeLocked now st"
  by (simp add: activeFreezeLocked_def)

lemma burst_noted: "codexBurstConcurrencyLimit a cfg model now tb (noted v r u t st) = codexBurstConcurrencyLimit a cfg model now tb st"
  unfolding codexBurstConcurrencyLimit_def by (subst drain_limit_noted) simp_all

lemma normal_noted: "codexNormalConcurrencyLimit (noted v r u t st) n f = codexNormalConcurrencyLimit st n f"
  by (simp add: codexNormalConcurrencyLimit_def)

lemma rate_noted: "rateUntil now cfg (noted v r u t st) = rateUntil now cfg st"
  by (simp add: rateUntil_def)

lemma count_noted:
  "currentConcurrency (noted v r u t st) = currentConcurrency st" "rateWindowCount (noted v r u t st) = rateWindowCount st"
  by simp_all

lemmas noted_verdict = count_noted preempt_noted freeze_noted burst_noted normal_noted rate_noted

lemma runtime_again:
  assumes "settled now a st st'" "Metadata b = Metadata a" "Attributes b = Attributes a"
  shows "fst (runtimeAuthBlockedForModelWithTailBurst (Some b) model now tb st') = fst (runtimeAuthBlockedForModelWithTailBurst (Some b) model now tb st)"
proof -
  define c where "c = compactRuntimeWindowLocked now (runtimeLimitConfig a) st"
  obtain v r u t where st': "st' = noted v r u t c" using assms(1) by (auto simp: settled_def c_def)
  have "runtimeLimitConfig b = runtimeLimitConfig a"
    using assms(2,3) by (rule config_same)
  then have w: "rateLimitWindowSeconds (runtimeLimitConfigForModel b model now st) = rateLimitWindowSeconds (runtimeLimitConfig a)" by simp
  have cfg: "runtimeLimitConfigForModel b model now st' = runtimeLimitConfigForModel b model now st"
    by (rule config_noted) (simp add: st' c_def)
  have c: "compactRuntimeWindowLocked now (runtimeLimitConfigForModel b model now st) st = c"
    unfolding c_def by (rule compact_window [OF w])
  have "compactRuntimeWindowLocked now (runtimeLimitConfigForModel b model now st) c = c"
    unfolding compact_window [OF w] unfolding c_def by (rule compact_again)
  then obtain v' where c': "compactRuntimeWindowLocked now (runtimeLimitConfigForModel b model now st) st' = noted v' r u t c"
    using compact_noted [where now = now and cfg = "runtimeLimitConfigForModel b model now st" and v = v and r = r and u = u and t = t and st = c] unfolding st' by auto
  show ?thesis
    unfolding runtimeAuthBlockedForModelWithTailBurst_def option.case Let_def case_prod_unfold if_distrib [of fst] fst_conv cfg c c' noted_verdict ..
qed

text \<open>Bypassing the soft cap never blocks, and a check by the bypassing copy sees what the first check saw.\<close>

lemma check_again:
  assumes "env' (ID a) = snd (isAuthBlockedForModel (Some a) model now env) (ID a)"
  shows "blocked_now model now env' (bypassing a) = blocked_now model now env (bypassing a)"
proof (cases "Disabled a \<or> authStatus a = StatusDisabled \<or> IsAuthLifecycleBlocking (Some a) \<or> runtimeAvailable a = Some False")
  case True
  then have "env' (ID a) = env (ID a)"
    using assms by (auto simp: isAuthBlockedForModel_def isAuthBlockedForModelWithTailBurst_def)
  then show ?thesis unfolding blocked_now_def by (subst blocked_env [of env' _ env]) simp_all
next
  case False
  have b: "IsAuthLifecycleBlocking (Some (bypassing a)) = IsAuthLifecycleBlocking (Some a)"
    by (simp add: IsAuthLifecycleBlocking_def IsAuthInitializationBlocking_def IsAuthRecoveryBlocking_def
        InitializationStateFromMetadata_def AuthRecoveryState_def)
  have m: "authModelAvailabilityBlock (Some (bypassing a)) model now = authModelAvailabilityBlock (Some a) model now"
    by (simp add: authModelAvailabilityBlock_def)
  have chk: "blocked_now model now e (bypassing a) \<longleftrightarrow>
      fst (fst (runtimeAuthBlockedForModelWithTailBurst (Some (bypassing a)) model now False (e (ID a)))) \<or>
      fst (authModelAvailabilityBlock (Some a) model now)" for e
    using False
    by (simp add: blocked_now_def isAuthBlockedForModel_def isAuthBlockedForModelWithTailBurst_def b m case_prod_unfold Let_def)
  have "env' (ID a) = snd (runtimeAuthBlockedForModelWithTailBurst (Some a) model now False (env (ID a)))"
    using assms False
    by (simp add: isAuthBlockedForModel_def isAuthBlockedForModelWithTailBurst_def case_prod_unfold Let_def)
  with runtime_settles have "settled now a (env (ID a)) (env' (ID a))" by simp
  from runtime_again [OF this, of "bypassing a"] show ?thesis unfolding chk by simp
qed

lemma blocked_own:
  "env1 (ID a) = env2 (ID a) \<Longrightarrow>
   snd (isAuthBlockedForModel (Some a) model now env1) (ID a) = snd (isAuthBlockedForModel (Some a) model now env2) (ID a)"
  by (simp add: isAuthBlockedForModel_def isAuthBlockedForModelWithTailBurst_def Let_def case_prod_unfold)

text \<open>After looking for candidates, each credential's state is the one its own check left.\<close>

lemma collect_state:
  assumes "distinct (map ID as)" "a \<in> set as" "env (ID a) = start (ID a)"
    and "collectLoop (map Some as) model now av cc e env = (r, env')"
  shows "env' (ID a) = snd (isAuthBlockedForModel (Some a) model now start) (ID a)"
  using assms
proof (induction as arbitrary: av cc e env)
  case (Cons b bs)
  obtain x y t env1 where c: "isAuthBlockedForModel (Some b) model now env = ((x, y, t), env1)" by (metis prod.collapse)
  obtain av1 cc1 e1 where run: "collectLoop (map Some bs) model now av1 cc1 e1 env1 = (r, env')"
    using Cons.prems(4) by (simp add: c Let_def split: if_splits)
  show ?case
  proof (cases "a = b")
    case True
    have "env' i = env1 i" if "i \<notin> ID ` set bs" for i
    proof -
      have "env' i = env1 i" if "collectLoop (map Some cs) model now av cc e env1 = (r, env')" "i \<notin> ID ` set cs" for cs av cc e env1
        using that
      proof (induction cs arbitrary: av cc e env1)
        case (Cons d ds)
        obtain x y t env2 where c: "isAuthBlockedForModel (Some d) model now env1 = ((x, y, t), env2)" by (metis prod.collapse)
        have "env2 i = env1 i" using blocked_frame [of i d model now env1] Cons.prems(2) by (simp add: c)
        moreover have "env' i = env2 i" using Cons.IH Cons.prems by (simp add: c Let_def split: if_splits)
        ultimately show ?case by simp
      qed simp
      then show ?thesis using run that by blast
    qed
    then have "env' (ID b) = env1 (ID b)" using Cons.prems(1) by simp
    moreover have "env1 (ID b) = snd (isAuthBlockedForModel (Some b) model now start) (ID b)"
      using Cons.prems(3) True c blocked_own [of env b start model now] by simp
    ultimately show ?thesis using True by simp
  next
    case False
    then have a: "a \<in> set bs" using Cons.prems(2) by simp
    then have "ID a \<noteq> ID b" using Cons.prems(1) by (metis distinct.simps(2) imageI list.simps(9) set_map)
    then have "env1 (ID a) = start (ID a)" using blocked_frame [of "ID a" b model now env] c Cons.prems(3) by simp
    then show ?thesis using Cons.IH [OF _ a _ run] Cons.prems(1) by simp
  qed
qed simp

section \<open>What a pick returns\<close>

lemma across_spec:
  assumes "distinct (map ID as)"
  shows "case getAvailableAuthsAcrossPriorities (map Some as) provider model now env of
      (Inl e, env') \<Rightarrow> filter (\<lambda>a. \<not> blocked_now model now env a) as = [] \<and> (as \<noteq> [] \<longrightarrow> (\<forall>a \<in> set as. env' (ID a) = snd (isAuthBlockedForModel (Some a) model now env) (ID a)))
    | (Inr l, env') \<Rightarrow> set l = {a \<in> set as. \<not> blocked_now model now env a} \<and>
        (\<forall>a \<in> set as. env' (ID a) = snd (isAuthBlockedForModel (Some a) model now env) (ID a))"
proof -
  obtain av c e env' where cl: "collectAvailableByPriority (map Some as) model now env = ((av, c, e), env')"
    by (metis prod.collapse)
  have "buckets_ok []" by (simp add: buckets_ok_def)
  note cb = collectLoop_buckets [OF assms _ this cl [unfolded collectAvailableByPriority_def], of env, simplified]
  have st: "\<forall>a \<in> set as. env' (ID a) = snd (isAuthBlockedForModel (Some a) model now env) (ID a)"
  proof
    fix a assume a: "a \<in> set as"
    show "env' (ID a) = snd (isAuthBlockedForModel (Some a) model now env) (ID a)"
      by (rule collect_state [where start = env, OF assms a refl cl [unfolded collectAvailableByPriority_def]])
  qed
  have ok: "buckets_ok av"
    and b: "bucket_of av p = filter (\<lambda>a. \<not> blocked_now model now env a \<and> authPriority (Some a) = p) as" for p
    using cb by (simp_all add: bucket_of_def)
  have mem: "set (concat (map snd av)) = {a \<in> set as. \<not> blocked_now model now env a}"
  proof (intro set_eqI iffI)
    fix a assume "a \<in> set (concat (map snd av))"
    then obtain p l where pl: "(p, l) \<in> set av" "a \<in> set l" by auto
    then have "bucket_of av p = l" using ok by (simp add: buckets_ok_def gomap_mem bucket_of_def)
    then show "a \<in> {a \<in> set as. \<not> blocked_now model now env a}" using pl(2) b [of p] by auto
  next
    fix a assume "a \<in> {a \<in> set as. \<not> blocked_now model now env a}"
    then have "a \<in> set (bucket_of av (authPriority (Some a)))" by (simp add: b)
    then obtain l where "glookup av (authPriority (Some a)) = Some l" "a \<in> set l"
      by (cases "glookup av (authPriority (Some a))") (auto simp: bucket_of_def)
    then show "a \<in> set (concat (map snd av))" using ok by (force simp: buckets_ok_def dest: map_of_SomeD)
  qed
  have none: "filter (\<lambda>a. \<not> blocked_now model now env a) as = []" if "av = []" using mem that by (auto simp: filter_empty_conv)
  show ?thesis
    using cl st mem none
    by (auto simp: getAvailableAuthsAcrossPriorities_def getAvailableAuthsWithPriorityMode_def availableAuthsFromPriorityBuckets_def Let_def)
qed

text \<open>Every candidate list is drawn from the list it was asked about.\<close>

definition drawn :: "Auth set \<Rightarrow> priority_buckets \<Rightarrow> bool" where
  "drawn S av \<longleftrightarrow> (\<forall>b \<in> snd ` set av. b \<noteq> [] \<and> set b \<subseteq> S)"

lemma put_values: "snd ` set (gput k v m) \<subseteq> insert v (snd ` set m)"
  by (induction m) auto

lemma collect_drawn:
  assumes "drawn S av" "{a. Some a \<in> set auths} \<subseteq> S" "collectLoop auths model now av cc e env = ((av', cc', e'), env')"
  shows "drawn S av'"
  using assms
proof (induction auths arbitrary: av cc e env)
  case (Cons candidate rest)
  obtain b x t env1 where c: "isAuthBlockedForModel candidate model now env = ((b, x, t), env1)" by (metis prod.collapse)
  have rest: "{a. Some a \<in> set rest} \<subseteq> S" using Cons.prems(2) by auto
  show ?case
  proof (cases b)
    case True
    then show ?thesis using Cons.IH [OF Cons.prems(1) rest] Cons.prems(3) by (auto simp: c split: if_splits)
  next
    case False
    then obtain a where a: "candidate = Some a"
      using c by (cases candidate) (auto simp: isAuthBlockedForModel_def isAuthBlockedForModelWithTailBurst_def)
    let ?p = "authPriority candidate" and ?l = "bucket_of av (authPriority candidate) @ [a]"
    have "set (bucket_of av ?p) \<subseteq> S"
    proof (cases "glookup av ?p")
      case (Some l)
      then have "(?p, l) \<in> set av" by (rule map_of_SomeD)
      then show ?thesis using Cons.prems(1) Some by (force simp: drawn_def bucket_of_def)
    qed (simp add: bucket_of_def)
    then have l: "set ?l \<subseteq> S" using Cons.prems(2) a by auto
    have "drawn S (gput ?p ?l av)"
      unfolding drawn_def
    proof
      fix b assume "b \<in> snd ` set (gput ?p ?l av)"
      then have "b = ?l \<or> b \<in> snd ` set av" using put_values [of ?p ?l av] by blast
      then show "b \<noteq> [] \<and> set b \<subseteq> S" using l Cons.prems(1) by (auto simp: drawn_def)
    qed
    moreover have "collectLoop rest model now (gput ?p ?l av) cc e env1 = ((av', cc', e'), env')"
      using Cons.prems(3) False a c by (simp add: bucket_of_def Let_def)
    ultimately show ?thesis using Cons.IH rest by blast
  qed
qed simp

lemma candidates_from:
  assumes "getAvailableAuthsWithPriorityMode auths provider model now all env = (Inr l, env')"
  shows "l \<noteq> [] \<and> set l \<subseteq> {a. Some a \<in> set auths}"
proof -
  obtain av c e env1 where cl: "collectAvailableByPriority auths model now env = ((av, c, e), env1)"
    by (metis prod.collapse)
  have d: "drawn {a. Some a \<in> set auths} av"
    using collect_drawn [OF _ _ cl [unfolded collectAvailableByPriority_def], of "{a. Some a \<in> set auths}"] by (simp add: drawn_def)
  have av: "av \<noteq> []" and l: "l = availableAuthsFromPriorityBuckets av all"
    using assms by (auto simp: getAvailableAuthsWithPriorityMode_def cl Let_def split: if_splits)
  define xs where "xs = (if all then concat (map snd av)
    else case glookup av (bestPriority (map fst av) 0 False) of None \<Rightarrow> [] | Some bucket \<Rightarrow> bucket)"
  have "l = (if length xs > 1 then sort_key ID xs else xs)"
    unfolding l availableAuthsFromPriorityBuckets_def xs_def Let_def ..
  moreover have "xs \<noteq> [] \<and> set xs \<subseteq> {a. Some a \<in> set auths}"
  proof (cases all)
    case True
    then show ?thesis using d av by (cases av) (auto simp: xs_def drawn_def)
  next
    case False
    have "bestPriority (map fst av) 0 False \<in> fst ` set av" using bestPriority_max [of "map fst av" False 0] av by simp
    then obtain b where "glookup av (bestPriority (map fst av) 0 False) = Some b" by (metis glookup_in_keys not_Some_eq)
    then show ?thesis using d False by (force simp: xs_def drawn_def dest: map_of_SomeD)
  qed
  ultimately show ?thesis by (metis length_0_conv length_sort set_sort)
qed

lemma selector_candidates_from:
  assumes "selectorCandidates req auths env = (Inr l, env')"
  shows "l \<noteq> [] \<and> set l \<subseteq> {a. Some a \<in> set auths}"
proof -
  obtain av where av: "getAvailableAuths auths (reqProvider req) (reqModel req) (reqNow req) env = (Inr av, env')"
    and l: "l = expiryPriorityAuths (preferCodexWebsocketAuths (reqDownstreamWebsocket req) (reqProvider req) (reqStream req) av) (reqNow req)"
    using assms by (auto simp: selectorCandidates_def split: prod.splits sum.splits)
  from candidates_from [OF av [unfolded getAvailableAuths_def]] show ?thesis
    unfolding l expiryPriorityAuths_Nil preferCodexWebsocketAuths_Nil
    using expiryPriorityAuths_subset preferCodexWebsocketAuths_subset by (meson order_trans)
qed

context selector begin

lemma pick_from:
  assumes "fst (pick req auths (s, env)) = Inr a"
  shows "Some a \<in> set auths \<and> admits (Some a)"
proof (cases "fst (selectorCandidates req (filter admits auths) env)")
  case (Inl e)
  from pick_error [OF this] assms show ?thesis by simp
next
  case (Inr l)
  then have l: "l \<noteq> []" "set l \<subseteq> {a. Some a \<in> set (filter admits auths)}"
    using selector_candidates_from [of req "filter admits auths" env l] by (metis prod.collapse)+
  then have "\<forall>a \<in> set l. admits (Some a)" by auto
  from pick_candidate [OF Inr l(1) this, of s] assms l(2) show ?thesis by auto
qed

end

lemma fallback_from: "fallbackPick req auths f env = (Inr a, f', env') \<Longrightarrow> a \<in> set auths"
proof (cases f)
  case (FallbackRoundRobin s)
  then show "fallbackPick req auths f env = (Inr a, f', env') \<Longrightarrow> ?thesis"
    using round_robin.pick_from [of req "map Some auths" s env a] by (auto simp: fallbackPick_def Let_def split: prod.splits)
next
  case (FallbackConcurrencyBalanced s)
  then show "fallbackPick req auths f env = (Inr a, f', env') \<Longrightarrow> ?thesis"
    using concurrency_balanced.pick_from [of req "map Some auths" s env a] by (auto simp: fallbackPick_def Let_def split: prod.splits)
next
  case (FallbackWeighted s)
  then show "fallbackPick req auths f env = (Inr a, f', env') \<Longrightarrow> ?thesis"
    using weighted.pick_from [of req "map Some auths" s env a] by (auto simp: fallbackPick_def Let_def split: prod.splits)
next
  case FallbackFillFirst
  then show "fallbackPick req auths f env = (Inr a, f', env') \<Longrightarrow> ?thesis"
    using fill_first.pick_from [of req "map Some auths" "()" env a] by (auto simp: fallbackPick_def Let_def split: prod.splits)
qed

lemma drain_subset: "set (expiryDrainFailoverAuths (map Some auths) cached model now) \<subseteq> set auths"
proof -
  define ds where "ds = sort_key (\<lambda>a. (expiry_of a, ID a)) [a. Some a \<leftarrow> map Some auths, authExpiryDrainActive (Some a) model now]"
  have ds: "set ds \<subseteq> set auths" by (auto simp: ds_def)
  show ?thesis
  proof (cases ds)
    case Nil
    then show ?thesis unfolding expiryDrainFailoverAuths_def Let_def ds_def [symmetric] by simp
  next
    case (Cons d rest)
    have "set (takeWhile P ds) \<subseteq> set auths" for P using ds set_takeWhileD by fastforce
    then show ?thesis unfolding expiryDrainFailoverAuths_def Let_def ds_def [symmetric] Cons list.case
      by (smt (verit, best) Cons empty_set empty_subsetI filter_is_subset order_trans)
  qed
qed

lemma highest_subset: "set (highestPriorityAuths auths) \<subseteq> set auths"
  by (auto simp: highestPriorityAuths_def split: prod.splits if_splits)

lemma new_session_subset: "set (cacheAffinityNewSessionAuths s auths model now env) \<subseteq> set auths"
  by (auto simp: cacheAffinityNewSessionAuths_def)

text \<open>The caches and the tracker of a selector, and what a part of the pick promises.\<close>

definition affinity_ok :: "affinity_state \<Rightarrow> bool" where
  "affinity_ok s \<longleftrightarrow> cache_ok (asCache s) \<and> cache_ok (asFailover s) \<and> heat_ok (asPrefixHeat s)"

definition picks :: "Auth set \<Rightarrow> affinity_result option \<Rightarrow> bool" where
  "picks S result \<longleftrightarrow> (\<exists>r route s env. result = Some ((r, route), s, env) \<and> affinity_ok s \<and> (\<forall>a. r = Inr a \<longrightarrow> a \<in> S))"

lemma bind_ok:
  assumes "affinity_ok s"
  shows "\<exists>c. cache_ok c \<and> bindSession ks authID now s = Some (s\<lparr>asCache := c\<rparr>)"
    "\<exists>c. cache_ok c \<and> bindFailover ks authID now s = Some (s\<lparr>asFailover := c\<rparr>)"
proof -
  have c: "cache_ok (asCache s)" "cache_ok (asFailover s)" using assms by (simp_all add: affinity_ok_def)
  obtain m where "SetAliases authID ks now now (asCache s) = Some (asCache s\<lparr>scEntries := m\<rparr>)"
    using SetAliases_cases [OF c(1)] by blast
  then show "\<exists>c. cache_ok c \<and> bindSession ks authID now s = Some (s\<lparr>asCache := c\<rparr>)"
    using set_ok [OF c(1)] by (intro exI [of _ "asCache s\<lparr>scEntries := m\<rparr>"]) (simp add: bindSession_def)
  obtain m where "SetAliases authID ks now now (asFailover s) = Some (asFailover s\<lparr>scEntries := m\<rparr>)"
    using SetAliases_cases [OF c(2)] by blast
  then show "\<exists>c. cache_ok c \<and> bindFailover ks authID now s = Some (s\<lparr>asFailover := c\<rparr>)"
    using set_ok [OF c(2)] by (intro exI [of _ "asFailover s\<lparr>scEntries := m\<rparr>"]) (simp add: bindFailover_def)
qed

lemma invalidate_session_ok: "cache_ok c \<Longrightarrow> cache_ok (InvalidateSession k c)"
  using session_step.drop session_step_ok by blast

lemma clear_ok: "affinity_ok s \<Longrightarrow> affinity_ok (clearFailover ks s)"
proof -
  have "cache_ok c \<Longrightarrow> cache_ok (fold InvalidateSession ks c)" for c
    by (induction ks arbitrary: c) (simp_all add: invalidate_session_ok)
  then show "affinity_ok s \<Longrightarrow> ?thesis" by (simp add: affinity_ok_def clearFailover_def)
qed

lemma affinity_updates:
  "affinity_ok (s\<lparr>asCache := c\<rparr>) \<longleftrightarrow> cache_ok c \<and> cache_ok (asFailover s) \<and> heat_ok (asPrefixHeat s)"
  "affinity_ok (s\<lparr>asFailover := c\<rparr>) \<longleftrightarrow> cache_ok (asCache s) \<and> cache_ok c \<and> heat_ok (asPrefixHeat s)"
  "affinity_ok (s\<lparr>asFallback := f\<rparr>) \<longleftrightarrow> affinity_ok s" "affinity_ok (s\<lparr>asSuppressed := d\<rparr>) \<longleftrightarrow> affinity_ok s"
  "affinity_ok (s\<lparr>asShares := l\<rparr>) \<longleftrightarrow> affinity_ok s"
  by (simp_all add: affinity_ok_def)

lemma affinity_okD: "affinity_ok s \<Longrightarrow> cache_ok (asCache s) \<and> cache_ok (asFailover s) \<and> heat_ok (asPrefixHeat s)"
  by (simp add: affinity_ok_def)

lemma known_picks:
  assumes "affinity_ok s" "set auths \<subseteq> S"
  shows "\<exists>known s'. knownFailover ks auths now s = Some (known, s') \<and> affinity_ok s' \<and> (\<forall>a. known = Some a \<longrightarrow> a \<in> S)"
proof -
  obtain found c where g: "GetAndRefresh (hd ks) now now (asFailover s) = (found, c)" by fastforce
  then have c: "cache_ok c" using refresh_ok [of "asFailover s" "hd ks" now now] assms(1) by (simp add: affinity_ok_def)
  then have ok: "affinity_ok (s\<lparr>asFailover := c\<rparr>)" using assms(1) by (simp add: affinity_ok_def)
  show ?thesis
  proof (cases found)
    case None
    then show ?thesis using ok by (simp add: knownFailover_def g)
  next
    case (Some i)
    show ?thesis
    proof (cases "find (\<lambda>a. ID a = i) auths")
      case None
      then show ?thesis using Some ok invalidate_session_ok by (simp add: knownFailover_def g affinity_ok_def)
    next
      case (Some a)
      obtain c' where "cache_ok c'" "bindFailover ks (ID a) now (s\<lparr>asFailover := c\<rparr>) = Some (s\<lparr>asFailover := c\<rparr>\<lparr>asFailover := c'\<rparr>)"
        using bind_ok(2) [OF ok] by blast
      moreover have "a \<in> S" using Some assms(2) by (auto simp: find_Some_iff)
      ultimately show ?thesis using Some \<open>found = Some i\<close> ok by (simp add: knownFailover_def g affinity_ok_def)
    qed
  qed
qed

lemma fallback_picks:
  assumes "affinity_ok s" "set auths \<subseteq> S" "pickFallback p auths s env = (r, s', env')"
  shows "affinity_ok s' \<and> (\<forall>a. r = Inr a \<longrightarrow> a \<in> S)"
  using assms fallback_from by (fastforce simp: pickFallback_def affinity_updates split: prod.splits)

lemma drain_picks:
  assumes "affinity_ok s" "set auths \<subseteq> S"
  shows "\<exists>d s' env'. pickDrain p ks a auths now s env = Some (d, s', env') \<and> affinity_ok s' \<and> (\<forall>a. d = Some a \<longrightarrow> a \<in> S)"
proof -
  define ds where "ds = expiryDrainFailoverAuths (map Some auths) (Some a) (reqModel (apPick p)) now"
  have ds: "set ds \<subseteq> S" using drain_subset assms(2) unfolding ds_def by blast
  obtain known s1 where k: "knownFailover ks ds now s = Some (known, s1)" "affinity_ok s1" "\<forall>a. known = Some a \<longrightarrow> a \<in> S"
    using known_picks [OF assms(1) ds] by blast
  obtain r s2 env2 where f: "pickFallback p ds s1 env = (r, s2, env2)" by (metis prod.collapse)
  note f' = fallback_picks [OF k(2) ds f]
  consider "\<not> asExpiryDrainIgnoreAffinity s \<or> ds = []" | d where "known = Some d" "asExpiryDrainIgnoreAffinity s" "ds \<noteq> []"
    | e where "known = None" "r = Inl e" "asExpiryDrainIgnoreAffinity s" "ds \<noteq> []"
    | d where "known = None" "r = Inr d" "asExpiryDrainIgnoreAffinity s" "ds \<noteq> []" by (metis option.exhaust sum.exhaust)
  then show ?thesis
  proof cases
    case 4
    obtain c where "cache_ok c" "bindFailover ks (ID d) now s2 = Some (s2\<lparr>asFailover := c\<rparr>)" using bind_ok(2) f' by blast
    then show ?thesis using 4 k f f' by (simp add: pickDrain_def ds_def [symmetric] affinity_ok_def)
  qed (use assms(1) k f f' in \<open>simp_all add: pickDrain_def ds_def [symmetric]\<close>)
qed

lemma away_picks:
  assumes "affinity_ok s" "set auths \<subseteq> S"
  shows "picks S (pickAway p ks cachedAuthID cands auths now s env)"
proof -
  obtain temporary env1 where t: "shouldUseTemporaryFailover s cands cachedAuthID (reqModel (apPick p)) now env = (temporary, env1)"
    by fastforce
  obtain known s1 where k: "(if temporary then knownFailover ks auths now s else Some (None, s)) = Some (known, s1)"
    "affinity_ok s1" "\<forall>a. known = Some a \<longrightarrow> a \<in> S"
    using known_picks [OF assms, of ks now] assms(1) by (cases temporary) auto
  obtain r s2 env2 where f: "pickFallback p auths s1 env1 = (r, s2, env2)" by (metis prod.collapse)
  note f' = fallback_picks [OF k(2) assms(2) f]
  have away: "pickAway p ks cachedAuthID cands auths now s env =
      (case known of Some a \<Rightarrow> Some ((Inr a, RouteFailover), s1, env1)
       | None \<Rightarrow> (case r of Inl e \<Rightarrow> Some ((Inl e, RouteNone), s2, env2)
           | Inr a \<Rightarrow> if temporary then map_option (\<lambda>s. ((Inr a, RouteFailover), s, env2)) (bindFailover ks (ID a) now s2)
                     else map_option (\<lambda>s. ((Inr a, RouteRebind), clearFailover ks s, env2)) (bindSession ks (ID a) now s2)))"
    unfolding pickAway_def t Let_def prod.case k(1) Option.bind.bind_lunit f ..
  show ?thesis
  proof (cases "\<exists>a. known = None \<and> r = Inr a")
    case True
    then obtain a where a: "known = None" "r = Inr a" by blast
    obtain c c' where "cache_ok c" "bindFailover ks (ID a) now s2 = Some (s2\<lparr>asFailover := c\<rparr>)"
      "cache_ok c'" "bindSession ks (ID a) now s2 = Some (s2\<lparr>asCache := c'\<rparr>)"
      using bind_ok f' by blast
    then show ?thesis using f' a by (auto simp: away picks_def affinity_updates intro!: clear_ok dest: affinity_okD)
  next
    case False
    then show ?thesis using k f' by (cases known; cases r) (auto simp: away picks_def)
  qed
qed

lemma hit_picks:
  assumes "affinity_ok s" "a \<in> S"
  shows "picks S (map_option (\<lambda>s. ((Inr a, route), clearFailover ks s, env)) (bindSession ks i now s))"
proof -
  obtain c where "cache_ok c" "bindSession ks i now s = Some (s\<lparr>asCache := c\<rparr>)" using bind_ok(1) [OF assms(1)] by blast
  then show ?thesis using assms by (auto simp: picks_def affinity_updates intro!: clear_ok dest: affinity_okD)
qed

lemma warm_picks:
  assumes "affinity_ok s" "set auths \<subseteq> S" "\<forall>a. bound = Some a \<longrightarrow> a \<in> S"
  shows "picks S (pickWarm p ks cachedAuthID bound cands auths now s env)"
proof -
  note away = away_picks [OF _ assms(2)]
  show ?thesis
  proof (cases "\<exists>a. bound = Some a \<and> ID a = cachedAuthID \<and> \<not> cacheAffinityHardStopped s a (reqModel (apPick p)) now env")
    case False
    then show ?thesis using away [OF assms(1)] by (auto simp: pickWarm_def split: option.split)
  next
    case True
    then obtain a where a: "bound = Some a" "ID a = cachedAuthID" "\<not> cacheAffinityHardStopped s a (reqModel (apPick p)) now env"
      by blast
    obtain sticky st where c: "consumeStickyBypass (hd ks) now (env cachedAuthID) = (sticky, st)" by fastforce
    show ?thesis
    proof (cases sticky)
      case True
      have "affinity_ok (s\<lparr>asCache := InvalidateSession (hd ks) (asCache s)\<rparr>)"
        using assms(1) invalidate_session_ok by (simp add: affinity_ok_def)
      from away [OF clear_ok [OF this]] show ?thesis using a c True by (simp add: pickWarm_def)
    next
      case False
      obtain d s1 env1 where d: "pickDrain p ks a auths now s (env(cachedAuthID := st)) = Some (d, s1, env1)" "affinity_ok s1"
        "\<forall>a. d = Some a \<longrightarrow> a \<in> S"
        using drain_picks [OF assms(1,2)] by blast
      have w: "pickWarm p ks cachedAuthID bound cands auths now s env =
          (case d of Some d \<Rightarrow> Some ((Inr d, RouteFailover), s1, env1)
           | None \<Rightarrow> map_option (\<lambda>s. ((Inr a, RouteHit), clearFailover ks s, env1)) (bindSession ks (ID a) now s1))"
        using a c False d(1) by (simp add: pickWarm_def)
      show ?thesis
      proof (cases d)
        case None
        have "a \<in> S" using assms(3) a(1) by simp
        from hit_picks [OF d(2) this] show ?thesis unfolding w None by simp
      next
        case (Some x)
        then show ?thesis using d by (auto simp: w picks_def)
      qed
    qed
  qed
qed

lemma heat_picks:
  assumes "affinity_ok s" "set auths \<subseteq> S" "pickPrefixHeatAuth p auths now s env = (r, s', env')"
  shows "affinity_ok s' \<and> (\<forall>a. r = Inr a \<longrightarrow> a \<in> S)"
proof (cases "asPrefixHeatEnabled s")
  case False
  then show ?thesis using assms fallback_picks [OF assms(1,2)] by (simp add: pickPrefixHeatAuth_def)
next
  case True
  obtain fp sup where m: "MetadataValue (apMetadata p) PrefixFingerprintKey now (asSuppressed s) = (fp, sup)" by fastforce
  obtain hot heat env1 where h: "HotAuths fp auths now now (asPrefixHeat s) env = ((hot, heat), env1)" by (metis prod.collapse)
  let ?s = "s\<lparr>asSuppressed := sup, asPrefixHeat := heat\<rparr>"
  have "heat_ok heat" using hot_ok [of "asPrefixHeat s" fp auths now now env] assms(1) by (simp add: h affinity_ok_def)
  then have ok: "affinity_ok ?s" using assms(1) by (simp add: affinity_ok_def)
  have hot: "set hot \<subseteq> set auths"
  proof -
    have "set hot \<subseteq> set (fst (hotCandidates (trim_space fp) auths (if now = zeroTime then now else now) (asPrefixHeat s))) \<or> hot = []"
      using h lowest_set [of now "fst (hotCandidates (trim_space fp) auths now (asPrefixHeat s))" env]
      by (auto simp: HotAuths_def Let_def case_prod_unfold split: if_splits)
    then show ?thesis by (auto simp: hotCandidates_def)
  qed
  obtain r1 s1 env2 where f1: "pickFallback p hot ?s env1 = (r1, s1, env2)" by (metis prod.collapse)
  have f1': "affinity_ok s1 \<and> (\<forall>a. r1 = Inr a \<longrightarrow> a \<in> S)"
    using fallback_picks [OF ok _ f1] hot assms(2) by blast
  note late = fallback_picks [OF _ assms(2)]
  show ?thesis
  proof (cases "hot = []")
    case hot_empty: True
    then have "pickFallback p auths ?s env1 = (r, s', env')" using assms(3) True by (simp add: pickPrefixHeatAuth_def m h)
    then show ?thesis by (rule late [OF ok])
  next
    case False
    then have run: "(case r1 of Inr a \<Rightarrow> (Inr a, s1, env2) | Inl _ \<Rightarrow> pickFallback p auths s1 env2) = (r, s', env')"
      using assms(3) True by (simp add: pickPrefixHeatAuth_def m h f1)
    then show ?thesis using f1' late [of s1 p env2 r s' env'] by (cases r1) auto
  qed
qed

text \<open>Times of the clock whose nanoseconds since 1970 fit in 64 bits, as \<open>UnixNano\<close> requires.\<close>

definition clock_ok :: "gotime \<Rightarrow> bool" where
  "clock_ok now \<longleftrightarrow> unix_epoch \<le> now \<and> now - unix_epoch \<le> maxInt64"

lemma admit_returns:
  assumes "clock_ok now"
  shows "\<exists>b l'. AdmitNewBinding md model r now now l = Some (b, l')"
proof -
  have "wrap64 (now - unix_epoch) = now - unix_epoch"
    using assms by (intro wrap64_id) (simp add: clock_ok_def in_int64_def)
  then have e: "0 \<le> shareEpoch now"
    using assms pos_imp_zdiv_nonneg_iff [of "defaultShareBucket" "now - unix_epoch"] by (simp add: shareEpoch_def clock_ok_def go_div_nonneg)
  then have "\<not> go_mod (shareEpoch now) (int shareBucketCount) < 0" by (simp add: go_mod_nonneg)
  then have "\<exists>b st'. admitScope r (shareEpoch now) st = Some (b, st')" for st
    unfolding admitScope_def Let_def by simp
  then show ?thesis
    unfolding AdmitNewBinding_def admitShare_def Let_def by (auto split: if_split)
qed

lemma cold_picks:
  assumes "affinity_ok s" "set auths \<subseteq> S" "clock_ok now"
  shows "picks S (pickCold p ks auths now s env)"
proof -
  obtain b s1 where l: "cacheAffinityShareLimited p (reqModel (apPick p)) now s = Some (b, s1)" "affinity_ok s1"
  proof (cases "\<not> asCacheAffinityEnabled s \<or> \<not> ratioLimits (asMaxShareRatio s)")
    case True
    then show ?thesis using that [of False s] assms(1) by (simp add: cacheAffinityShareLimited_def)
  next
    case False
    obtain k sup where m: "MetadataValue (apMetadata p) RouteKeyKey now (asSuppressed s) = (k, sup)" by fastforce
    obtain x l' where a: "AdmitNewBinding (apMetadata p) (reqModel (apPick p)) (asMaxShareRatio s) now now (asShares s) = Some (x, l')"
      using admit_returns [OF assms(3)] by blast
    show ?thesis
    proof (cases "k = ''''")
      case True
      show ?thesis
        by (rule that [of False "s\<lparr>asSuppressed := sup\<rparr>"])
          (use False m True assms(1) in \<open>simp_all add: cacheAffinityShareLimited_def affinity_updates\<close>)
    next
      case k: False
      show ?thesis
        by (rule that [of "\<not> x" "s\<lparr>asSuppressed := sup, asShares := l'\<rparr>"])
          (use False m k a assms(1) in \<open>simp_all add: cacheAffinityShareLimited_def affinity_updates\<close>)
    qed
  qed
  show ?thesis
  proof (cases b)
    case True
    let ?s = "s1\<lparr>asSuppressed := snd (RecordShareLimited (apMetadata p) now (asSuppressed s1))\<rparr>"
    obtain r s2 env2 where f: "pickFallback p auths ?s env = (r, s2, env2)" by (metis prod.collapse)
    then show ?thesis using fallback_picks [OF _ assms(2) f] l True by (auto simp: pickCold_def picks_def affinity_updates)
  next
    case False
    obtain r s2 env2 where f: "pickPrefixHeatAuth p auths now s1 env = (r, s2, env2)" by (metis prod.collapse)
    note f' = heat_picks [OF l(2) assms(2) f]
    show ?thesis
    proof (cases r)
      case (Inl e)
      then show ?thesis using l False f f' by (auto simp: pickCold_def picks_def)
    next
      case (Inr a)
      then show ?thesis using l False f f' hit_picks [of s2 a S] by (simp add: pickCold_def)
    qed
  qed
qed

section \<open>The whole pick\<close>

text \<open>The credentials of a list that may serve the request, with or without the soft cap.\<close>

definition servable :: "affinity_pick \<Rightarrow> limits_env \<Rightarrow> Auth list \<Rightarrow> Auth set" where
  "servable p env as = {a. \<exists>b \<in> set as. a = b \<and> \<not> blocked_now (reqModel (apPick p)) (reqNow (apPick p)) env b \<or>
     a = bypassing b \<and> (\<not> blocked_now (reqModel (apPick p)) (reqNow (apPick p)) env b \<or>
       \<not> blocked_now (reqModel (apPick p)) (reqNow (apPick p)) env (bypassing b))}"

lemma id_options: "List.map_filter id (map Some as) = as"
  by (induction as) (simp_all add: List.map_filter_simps)

lemma find_id: "distinct (map ID as) \<Longrightarrow> a \<in> set as \<Longrightarrow> find (\<lambda>x. ID x = ID a) as = Some a"
  by (induction as) force+

lemma find_in: "find P as = Some a \<Longrightarrow> a \<in> set as \<and> P a"
  by (induction as) (auto split: if_splits)

lemma single_check:
  assumes "getAvailableAuthsAcrossPriorities [Some x] provider model now env = (Inr (y # ys), env')"
  shows "y = x \<and> \<not> blocked_now model now env x"
proof -
  have "distinct (map ID [x])" by simp
  note across_spec [where provider = provider and model = model and now = now and env = env, OF this]
  then have "set (y # ys) = {a \<in> set [x]. \<not> blocked_now model now env a}"
    unfolding list.map assms prod.case sum.case by blast
  moreover have "y \<in> set (y # ys)" by (rule list.set_intros)
  ultimately have "y \<in> {a \<in> set [x]. \<not> blocked_now model now env a}" by (simp only:)
  then show ?thesis by (cases "y = x") simp_all
qed

lemma bound_servable:
  assumes "distinct (map ID as)"
    and "getAvailableAuthsAcrossPriorities (map Some as) provider (reqModel (apPick p)) (reqNow (apPick p)) env = (r, env1)"
    and "affinityBoundAuth (map Some as) (case r of Inl _ \<Rightarrow> [] | Inr l \<Rightarrow> l) provider (reqModel (apPick p)) i (reqNow (apPick p)) env1 =
      (Some a, env2)"
  shows "a \<in> servable p env as"
proof -
  let ?model = "reqModel (apPick p)" and ?now = "reqNow (apPick p)"
  let ?av = "case r of Inl _ \<Rightarrow> [] | Inr l \<Rightarrow> l"
  have av: "set ?av \<subseteq> {a \<in> set as. \<not> blocked_now ?model ?now env a}"
    and st: "b \<in> set as \<Longrightarrow> env1 (ID b) = snd (isAuthBlockedForModel (Some b) ?model ?now env) (ID b)" for b
    using across_spec [where provider = provider and model = ?model and now = ?now and env = env, OF assms(1)] assms(2) by (auto split: sum.splits)
  show ?thesis
  proof (cases "find (\<lambda>a. ID a = trim_space i) ?av")
    case (Some b)
    then have "a = bypassing b"
      using assms(3) unfolding affinityBoundAuth_def Let_def by (cases "trim_space i = ''''") simp_all
    then show ?thesis using av find_in [OF Some] by (auto simp: servable_def)
  next
    case None
    then obtain b where b: "find (\<lambda>a. ID a = trim_space i) as = Some b" and
      g: "(let (r, env) = getAvailableAuthsAcrossPriorities [Some (bypassing b)] provider ?model ?now env1
           in (case r of Inr (x # _) \<Rightarrow> Some x | _ \<Rightarrow> None, env)) = (Some a, env2)"
      using assms(3) unfolding affinityBoundAuth_def Let_def id_options
      by (cases "trim_space i = ''''"; cases "find (\<lambda>a. ID a = trim_space i) as") simp_all
    obtain ys where "getAvailableAuthsAcrossPriorities [Some (bypassing b)] provider ?model ?now env1 = (Inr (a # ys), env2)"
    proof -
      obtain r' e where r': "getAvailableAuthsAcrossPriorities [Some (bypassing b)] provider ?model ?now env1 = (r', e)" by fastforce
      then show ?thesis using g that by (cases r'; cases "case r' of Inl _ \<Rightarrow> [] | Inr l \<Rightarrow> l") simp_all
    qed
    note single_check [OF this]
    moreover have "b \<in> set as" using find_in [OF b] by simp
    moreover from this have "blocked_now ?model ?now env1 (bypassing b) = blocked_now ?model ?now env (bypassing b)"
      by (rule check_again [where a = b and env' = env1 and env = env, OF st])
    ultimately show ?thesis unfolding servable_def by blast
  qed
qed

text \<open>The candidates of the pick: the weighted selector only looks at positive weights.\<close>

definition weighed :: "affinity_state \<Rightarrow> Auth list \<Rightarrow> Auth list" where
  "weighed s as = (case asFallback s of FallbackWeighted _ \<Rightarrow> filter (\<lambda>a. authWeight (Some a) > 0) as | _ \<Rightarrow> as)"

lemma weighed_options: "fallbackCandidates (asFallback s) (map Some as) = map Some (weighed s as)"
  by (simp add: fallbackCandidates_def weighed_def positiveWeightAuths_def filter_map comp_def split: fallback_selector.split)

lemma weighed_distinct: "distinct (map ID as) \<Longrightarrow> distinct (map ID (weighed s as))"
  by (simp add: weighed_def distinct_map_filter split: fallback_selector.split)

lemma session_ids:
  "affinitySessionIDs p now s = (ids, s1) \<Longrightarrow>
     asCache s1 = asCache s \<and> asFailover s1 = asFailover s \<and> asPrefixHeat s1 = asPrefixHeat s \<and> asFallback s1 = asFallback s \<and>
     asCacheAffinityEnabled s1 = asCacheAffinityEnabled s \<and> asQuotaHardStop s1 = asQuotaHardStop s \<and>
     asExpiryDrainIgnoreAffinity s1 = asExpiryDrainIgnoreAffinity s"
  by (auto simp: affinitySessionIDs_def Let_def split: prod.splits if_splits)

lemma lookup_ok:
  assumes "affinity_ok s" "affinityLookup k f now s = (ids, s1)"
  shows "affinity_ok s1"
proof -
  obtain primary c where g: "GetAndRefresh k now now (asCache s) = (primary, c)" by fastforce
  have c: "cache_ok c" using refresh_ok [of "asCache s" k now now] assms(1) by (simp add: g affinity_ok_def)
  obtain fb c' where g': "GetAndRefresh f now now c = (fb, c')" by fastforce
  have "cache_ok c'" using refresh_ok [OF c, of f now now] by (simp add: g')
  then show ?thesis using assms c by (auto simp: affinityLookup_def g g' affinity_ok_def split: if_splits)
qed

lemma affinity_pick_serves:
  assumes "affinity_ok s" "distinct (map ID as)" "clock_ok (reqNow (apPick p))"
  shows "picks (servable p env (weighed s as)) (AffinityPick p (map Some as) s env)"
proof -
  let ?now = "reqNow (apPick p)" and ?model = "reqModel (apPick p)" and ?provider = "reqProvider (apPick p)"
  let ?ws = "weighed s as"
  obtain primaryID fallbackID s1 where i: "affinitySessionIDs p ?now s = ((primaryID, fallbackID), s1)" by (metis prod.collapse)
  note keep = session_ids [OF i]
  have ok1: "affinity_ok s1" using assms(1) keep by (simp add: affinity_ok_def)
  have cands: "fallbackCandidates (asFallback s1) (map Some as) = map Some ?ws" using keep weighed_options by simp
  have dist: "distinct (map ID ?ws)" by (rule weighed_distinct [OF assms(2)])
  show ?thesis
  proof (cases "primaryID = ''''")
    case True
    obtain r env1 where g: "getAvailableAuths (map Some ?ws) ?provider ?model ?now env = (r, env1)" by fastforce
    note best = available_candidates [OF dist refl, of ?model ?now env ?provider, unfolded g fst_conv]
    show ?thesis
    proof (cases r)
      case (Inl e)
      then show ?thesis using True i g ok1 by (simp add: AffinityPick_def cands picks_def)
    next
      case (Inr l)
      have l: "set (expiryPriorityAuths l ?now) \<subseteq> servable p env ?ws"
        using best Inr expiryPriorityAuths_subset [of l ?now] by (fastforce simp: servable_def)
      obtain x s2 env2 where f: "pickFallback p (expiryPriorityAuths l ?now) s1 env1 = (x, s2, env2)" by (metis prod.collapse)
      show ?thesis using fallback_picks [OF ok1 l f] True i g Inr f by (simp add: AffinityPick_def cands picks_def)
    qed
  next
    case False
    define k where "k = sessionAffinityCacheKey ?provider primaryID ?model"
    define f where "f = (if fallbackID \<noteq> '''' \<and> fallbackID \<noteq> primaryID then sessionAffinityCacheKey ?provider fallbackID ?model else '''')"
    obtain primary fb s2 where look: "affinityLookup k f ?now s1 = ((primary, fb), s2)" by (metis prod.collapse)
    have ok2: "affinity_ok s2" by (rule lookup_ok [OF ok1 look])
    define warm where "warm = (case primary of Some i \<Rightarrow> i | None \<Rightarrow> (case fb of Some i \<Rightarrow> i | None \<Rightarrow> ''''))"
    obtain r env1 where g: "getAvailableAuthsAcrossPriorities (map Some ?ws) ?provider ?model ?now env = (r, env1)" by fastforce
    define av where "av = (case r of Inl _ \<Rightarrow> [] | Inr l \<Rightarrow> l)"
    obtain bound env2 where b: "affinityBoundAuth (map Some ?ws) av ?provider ?model warm ?now env1 = (bound, env2)" by fastforce
    define fs where "fs = expiryPriorityAuths (highestPriorityAuths (cacheAffinityNewSessionAuths s2 av ?model ?now env2)) ?now"
    have "set av \<subseteq> {a \<in> set ?ws. \<not> blocked_now ?model ?now env a}"
      using across_spec [where provider = ?provider and model = ?model and now = ?now and env = env, OF dist] g by (auto simp: av_def split: sum.splits)
    then have fs: "set fs \<subseteq> servable p env ?ws"
      using expiryPriorityAuths_subset [of "highestPriorityAuths (cacheAffinityNewSessionAuths s2 av ?model ?now env2)" ?now]
        highest_subset [of "cacheAffinityNewSessionAuths s2 av ?model ?now env2"] new_session_subset [of s2 av ?model ?now env2]
      unfolding fs_def servable_def by blast
    have bound: "\<forall>a. bound = Some a \<longrightarrow> a \<in> servable p env ?ws"
      using bound_servable [OF dist g, of warm] b unfolding av_def by blast
    note warm' = warm_picks [OF ok2 fs bound] and cold = cold_picks [OF ok2 fs assms(3)]
    note pick = AffinityPick_def Let_def i prod.case cands k_def [symmetric] f_def [symmetric] look warm_def [symmetric] g
      av_def [symmetric] b fs_def [symmetric]
    show ?thesis
    proof (cases "(\<exists>e. r = Inl e) \<and> bound = None")
      case True
      then show ?thesis using False ok2 unfolding pick by (auto simp: picks_def)
    next
      case live: False
      show ?thesis
      proof (cases primary)
        case (Some cachedAuthID)
        then show ?thesis using False live warm' unfolding pick by (cases r; cases bound) simp_all
      next
        case None
        have hit: "picks (servable p env ?ws) (map_option (\<lambda>s. ((Inr a, RouteHit), clearFailover (sessionKeys k f) s, env2))
            (bindSession (sessionKeys k f) (ID a) ?now s2))" if "bound = Some a" for a
          using hit_picks [OF ok2] bound that by blast
        show ?thesis
          using None False live hit cold unfolding pick by (cases r; cases bound; cases fb) auto
      qed
    qed
  qed
qed

section \<open>Reachable selectors\<close>

inductive affinity_step :: "affinity_state \<Rightarrow> affinity_state \<Rightarrow> bool" where
  pick: "distinct (map ID as) \<Longrightarrow> clock_ok (reqNow (apPick p)) \<Longrightarrow> AffinityPick p (map Some as) s env = Some (r, s', env') \<Longrightarrow> affinity_step s s'"
| invalidate: "affinity_step s (AffinityInvalidateAuth authID s)"
| bind: "BindAuthSession provider model sessionID authID now s = Some s' \<Longrightarrow> affinity_step s s'"
| bound: "affinity_step s (snd (BoundAuthSession provider model p now s))"
| success: "RecordCacheAffinitySuccess authID md now s = Some s' \<Longrightarrow> affinity_step s s'"
| heat: "ConfigurePrefixHeat enabled ttl maxEntries s = Some s' \<Longrightarrow> affinity_step s s'"
| share: "affinity_step s (ConfigureCacheAffinityMaxShareRatio value s)"
| clean: "affinity_step s (s\<lparr>asCache := cleanup now (asCache s)\<rparr>)"
| clean_failover: "affinity_step s (s\<lparr>asFailover := cleanup now (asFailover s)\<rparr>)"

definition new_affinity :: "affinity_state \<Rightarrow> bool" where
  "new_affinity s \<longleftrightarrow> (\<exists>cfg shares suppressed. in_int64 (acMaxSessionRequests cfg) \<and>
     NewSessionAffinitySelectorWithConfig cfg shares suppressed = Some s)"

lemma cache_steps:
  assumes "cache_ok c"
  shows "cache_ok (InvalidateAuth authID c)" "cache_ok (cleanup now c)"
  using session_step_ok [OF session_step.drop_auth assms] session_step_ok [OF session_step.sweep assms] by auto

lemma configure_ok: "affinity_ok s \<Longrightarrow> \<exists>s'. ConfigurePrefixHeat enabled ttl maxEntries s = Some s' \<and> affinity_ok s'"
  using config_ok [of "asPrefixHeat s" ttl maxEntries] by (auto simp: ConfigurePrefixHeat_def affinity_ok_def)

lemma new_affinity_ok: "new_affinity s \<Longrightarrow> affinity_ok s"
proof -
  assume "new_affinity s"
  then obtain cfg shares suppressed where n: "in_int64 (acMaxSessionRequests cfg)"
    "NewSessionAffinitySelectorWithConfig cfg shares suppressed = Some s" by (auto simp: new_affinity_def)
  define ttl where "ttl = (if acTtl cfg \<le> 0 then hour else acTtl cfg)"
  have c: "cache_ok (NewSessionCacheWithBounds ttl (acMaxEntries cfg) (acMaxSessionRequests cfg) (acMaxSessionDuration cfg))"
    using n(1) by (intro new_cache_ok) (auto simp: new_cache_def)
  have h: "heat_ok (newPrefixHeatTracker (acPrefixHeatTTL cfg) (acPrefixHeatMaxEntries cfg))"
    by (intro new_heat_ok) (auto simp: new_heat_def)
  have "affinity_ok s0 \<Longrightarrow> ConfigurePrefixHeat e t m s0 = Some s1 \<Longrightarrow> affinity_ok s1" for s0 s1 e t m
    using configure_ok [of s0 e t m] by auto
  moreover have "affinity_ok (ConfigureCacheAffinityMaxShareRatio v s1) = affinity_ok s1" for v s1
    by (simp add: affinity_ok_def ConfigureCacheAffinityMaxShareRatio_def)
  moreover have "affinity_ok s0"
    if "asCache s0 = NewSessionCacheWithBounds ttl (acMaxEntries cfg) (acMaxSessionRequests cfg) (acMaxSessionDuration cfg)"
      "asFailover s0 = asCache s0" "asPrefixHeat s0 = newPrefixHeatTracker (acPrefixHeatTTL cfg) (acPrefixHeatMaxEntries cfg)" for s0
    using c h that by (simp add: affinity_ok_def)
  ultimately show "affinity_ok s"
    using n(2) unfolding NewSessionAffinitySelectorWithConfig_def Let_def ttl_def [symmetric] map_option_eq_Some
    by (elim exE conjE) (metis (no_types, lifting) affinity_state.select_convs(2,3,9))
qed

lemma bound_lookup_ok: "affinity_ok s \<Longrightarrow> affinity_ok (snd (BoundAuthSession provider model p now s))"
proof -
  assume ok: "affinity_ok s"
  obtain primaryID fallbackID s1 where i: "affinitySessionIDs p now s = ((primaryID, fallbackID), s1)" by (metis prod.collapse)
  have ok1: "affinity_ok s1" using ok session_ids [OF i] by (simp add: affinity_ok_def)
  obtain x c where g: "GetAndRefresh (sessionAffinityCacheKey provider primaryID model) now now (asCache s1) = (x, c)" by fastforce
  have c: "cache_ok c" using refresh_ok [of "asCache s1"] ok1 g by (metis affinity_okD snd_conv)
  obtain y c' where g': "GetAndRefresh (sessionAffinityCacheKey provider fallbackID model) now now c = (y, c')" by fastforce
  have c': "cache_ok c'" using refresh_ok [OF c] g' by (metis snd_conv)
  show ?thesis using ok1 c c' unfolding BoundAuthSession_def Let_def i prod.case g g' by (simp add: affinity_ok_def)
qed

lemma success_ok: "affinity_ok s \<Longrightarrow> \<exists>s'. RecordCacheAffinitySuccess authID md now s = Some s' \<and> affinity_ok s'"
proof -
  assume ok: "affinity_ok s"
  obtain fp sup where m: "MetadataValue md PrefixFingerprintKey now (asSuppressed s) = (fp, sup)" by fastforce
  obtain t where t: "RecordHeat fp (trim_space authID) now now (asPrefixHeat s) = Some t" "heat_ok t"
    using record_ok affinity_okD [OF ok] by blast
  then show ?thesis using ok unfolding RecordCacheAffinitySuccess_def m Let_def prod.case by (simp add: affinity_ok_def)
qed

lemma bind_session_ok:
  assumes "affinity_ok s" "BindAuthSession provider model sessionID authID now s = Some s'"
  shows "affinity_ok s'"
proof -
  let ?k = "sessionAffinityCacheKey provider sessionID model"
  obtain m where "SetAliases (trim_space authID) [?k] now now (asCache s) = Some (asCache s\<lparr>scEntries := m\<rparr>)"
    using SetAliases_cases affinity_okD [OF assms(1)] by blast
  moreover from this have "cache_ok (asCache s\<lparr>scEntries := m\<rparr>)" using set_ok affinity_okD [OF assms(1)] by blast
  ultimately show ?thesis
    using assms invalidate_session_ok by (auto simp: BindAuthSession_def setSession_def affinity_ok_def Let_def split: if_splits)
qed

lemma affinity_step_ok: "affinity_step s s' \<Longrightarrow> affinity_ok s \<Longrightarrow> affinity_ok s'"
proof (induction rule: affinity_step.induct)
  case (pick as p s env r s' env')
  from affinity_pick_serves [OF pick(4) pick(1,2), of env] pick(3) show ?case by (auto simp: picks_def)
next
  case (invalidate s authID)
  then show ?case using cache_steps heat_invalidate_ok by (simp add: AffinityInvalidateAuth_def affinity_ok_def)
next
  case (bind provider model sessionID authID now s s')
  then show ?case using bind_session_ok by blast
next
  case (bound s provider model p now)
  then show ?case by (rule bound_lookup_ok)
next
  case (success authID md now s s')
  then show ?case using success_ok [OF success(2), of authID md now] by auto
next
  case (heat enabled ttl maxEntries s s')
  then show ?case using configure_ok [OF heat(2), of enabled ttl maxEntries] by auto
next
  case (share s v)
  then show ?case by (simp add: affinity_ok_def ConfigureCacheAffinityMaxShareRatio_def)
qed (simp_all add: affinity_ok_def cache_steps)

interpretation affinity: invariant_system new_affinity affinity_step affinity_ok
  by unfold_locales (blast intro: new_affinity_ok affinity_step_ok)+

text \<open>
  C11 (a pick serves). In every state the selector can reach, whatever requests, results and
  configuration changes came before, a pick returns; what it returns is one of the candidates it was
  given, of positive weight where the weighted selector is behind it, and free to serve the model at
  this time - at most the soft cap on normal concurrency is bypassed; and the pick leaves both session
  caches closed and within their limits and the prefix heat bounded.
\<close>

theorem affinity_pick_safe:
  assumes "reachable new_affinity affinity_step s" "distinct (map ID as)" "clock_ok (reqNow (apPick p))"
  shows "\<exists>r route s' env'. AffinityPick p (map Some as) s env = Some ((r, route), s', env') \<and>
    (\<forall>a. r = Inr a \<longrightarrow> a \<in> servable p env (weighed s as)) \<and> affinity_ok s'"
  using affinity_pick_serves [OF affinity.reachable_inv [OF assms(1)] assms(2,3), of env] by (auto simp: picks_def)

section \<open>A session stays on its credential\<close>


lemma bound_view:
  assumes "affinityBoundAuth auths av provider model i now env = (bound, env')"
  shows "same_view (env j) (env' j)"
proof (cases "trim_space i = '''' \<or> find (\<lambda>a. ID a = trim_space i) av \<noteq> None \<or> find (\<lambda>a. ID a = trim_space i) (List.map_filter id auths) = None")
  case True
  then have "env' = env" using assms unfolding affinityBoundAuth_def Let_def
    by (cases "trim_space i = ''''"; cases "find (\<lambda>a. ID a = trim_space i) av") auto
  then show ?thesis by simp
next
  case False
  then obtain a where a: "find (\<lambda>a. ID a = trim_space i) (List.map_filter id auths) = Some a" by blast
  obtain r e where g: "getAvailableAuthsAcrossPriorities [Some (bypassing a)] provider model now env = (r, e)" by fastforce
  have "env' = e" using assms False a g unfolding affinityBoundAuth_def Let_def by simp
  then show ?thesis using available_view [OF g [unfolded getAvailableAuthsAcrossPriorities_def]] by simp
qed

lemma bound_found:
  assumes "distinct (map ID as)" "a \<in> set as" "trim_space (ID a) = ID a" "ID a \<noteq> ''''"
    and "getAvailableAuthsAcrossPriorities (map Some as) provider model now env = (r, env1)"
    and "\<not> blocked_now model now env a \<or> \<not> blocked_now model now env (bypassing a)"
  shows "fst (affinityBoundAuth (map Some as) (case r of Inl _ \<Rightarrow> [] | Inr l \<Rightarrow> l) provider model (ID a) now env1) = Some (bypassing a)"
proof -
  let ?av = "case r of Inl _ \<Rightarrow> [] | Inr l \<Rightarrow> l"
  note sp = across_spec [where provider = provider and model = model and now = now and env = env, OF assms(1), unfolded assms(5) prod.case]
  have st: "env1 (ID a) = snd (isAuthBlockedForModel (Some a) model now env) (ID a)"
    using sp assms(2) by (cases r) auto
  have av: "set ?av = {a \<in> set as. \<not> blocked_now model now env a}"
    using sp by (cases r) (auto simp: filter_empty_conv)
  show ?thesis
  proof (cases "find (\<lambda>x. ID x = ID a) ?av")
    case (Some b)
    have "b \<in> set as" "ID b = ID a" using find_in [OF Some] av by auto
    then have "b = a" using assms(1,2) by (simp add: distinct_map inj_on_def)
    then show ?thesis using Some assms(3,4) unfolding affinityBoundAuth_def Let_def by simp
  next
    case None
    then have "a \<notin> set ?av" by (auto simp: find_None_iff)
    then have "blocked_now model now env a" using av assms(2) by simp
    then have free: "\<not> blocked_now model now env1 (bypassing a)"
      using assms(6) check_again [where a = a and env' = env1 and env = env, OF st] by simp
    obtain r' e where g: "getAvailableAuthsAcrossPriorities [Some (bypassing a)] provider model now env1 = (r', e)" by fastforce
    have "distinct (map ID [bypassing a])" by simp
    note across_spec [where provider = provider and model = model and now = now and env = env1, OF this, unfolded list.map g prod.case]
    with free obtain l where l: "r' = Inr l" "set l = {bypassing a}" by (cases r') auto
    then obtain ys where "l = bypassing a # ys" by (cases l) auto
    then show ?thesis using None assms(3,4) find_id [OF assms(1,2)] g l(1)
      unfolding affinityBoundAuth_def Let_def id_options by simp
  qed
qed

text \<open>
  C10 (a session sticks). A session that is bound to a credential is served by it as long as it may
  serve the model at all, whatever the priorities, the loads and the shares of the others, and even
  when only the soft cap on normal concurrency excludes it: the pick reports a hit. What ends this
  is a hard stop of its quota, a pending sticky bypass, or, where configured, near-expiry draining.
\<close>

theorem session_sticks:
  assumes "reachable new_affinity affinity_step s" "distinct (map ID as)" "a \<in> set (weighed s as)"
    and "trim_space (ID a) = ID a" "ID a \<noteq> ''''"
    and "fst (affinitySessionIDs p now s) = (primaryID, fallbackID)" "primaryID \<noteq> ''''" "now = reqNow (apPick p)" "model = reqModel (apPick p)"
    and "key = sessionAffinityCacheKey (reqProvider (apPick p)) primaryID model"
    and "fst (GetAndRefresh key now now (asCache s)) = Some (ID a)"
    and "\<not> blocked_now model now env a \<or> \<not> blocked_now model now env (bypassing a)"
    and "\<not> cacheAffinityHardStopped s a model now env" "\<not> fst (consumeStickyBypass key now (env (ID a)))"
    and "\<not> asExpiryDrainIgnoreAffinity s"
  shows "\<exists>s' env'. AffinityPick p (map Some as) s env = Some ((Inr (bypassing a), RouteHit), s', env')"
proof -
  let ?provider = "reqProvider (apPick p)" and ?ws = "weighed s as"
  have ok: "affinity_ok s" by (rule affinity.reachable_inv [OF assms(1)])
  obtain s1 where i: "affinitySessionIDs p now s = ((primaryID, fallbackID), s1)" using assms(6) by (metis prod.collapse)
  note keep = session_ids [OF i]
  have ok1: "affinity_ok s1" using ok keep by (simp add: affinity_ok_def)
  have cands: "fallbackCandidates (asFallback s1) (map Some as) = map Some ?ws" using keep weighed_options by simp
  have dist: "distinct (map ID ?ws)" by (rule weighed_distinct [OF assms(2)])
  define f where "f = (if fallbackID \<noteq> '''' \<and> fallbackID \<noteq> primaryID then sessionAffinityCacheKey ?provider fallbackID model else '''')"
  obtain c where g: "GetAndRefresh key now now (asCache s1) = (Some (ID a), c)" using assms(11) keep by (metis prod.collapse)
  define s2 where "s2 = s1\<lparr>asCache := c\<rparr>"
  have look: "affinityLookup key f now s1 = ((Some (ID a), None), s2)" by (simp add: affinityLookup_def g s2_def)
  have ok2: "affinity_ok s2" by (rule lookup_ok [OF ok1 look])
  obtain r env1 where av: "getAvailableAuthsAcrossPriorities (map Some ?ws) ?provider model now env = (r, env1)" by fastforce
  define l where "l = (case r of Inl _ \<Rightarrow> [] | Inr l \<Rightarrow> l)"
  obtain bound env2 where b: "affinityBoundAuth (map Some ?ws) l ?provider model (ID a) now env1 = (bound, env2)" by fastforce
  have bound: "bound = Some (bypassing a)"
    using bound_found [OF dist assms(3,4,5) av assms(12)] b by (simp add: l_def)
  have view: "same_view (env (ID a)) (env2 (ID a))"
    using same_view_trans available_view [OF av [unfolded getAvailableAuthsAcrossPriorities_def]] bound_view [OF b] by blast
  define fs where "fs = expiryPriorityAuths (highestPriorityAuths (cacheAffinityNewSessionAuths s2 l model now env2)) now"
  have pick: "AffinityPick p (map Some as) s env = pickWarm p (sessionKeys key f) (ID a) bound (map Some ?ws) fs now s2 env2"
    unfolding AffinityPick_def Let_def assms(8,9) [symmetric] i prod.case assms(10) [symmetric] cands f_def [symmetric] look option.case av
      l_def [symmetric] b fs_def [symmetric] bound
    using assms(7) by (cases r) simp_all
  have hard: "\<not> cacheAffinityHardStopped s2 (bypassing a) model now env2"
  proof -
    have q: "asQuotaHardStop s2 = asQuotaHardStop s" "asCacheAffinityEnabled s2 = asCacheAffinityEnabled s" using keep by (simp_all add: s2_def)
    show ?thesis using assms(13) unfolding cacheAffinityHardStopped_def q
      by (cases "asCacheAffinityEnabled s"; cases "quotaPreemptFallback a") (simp_all add: snapshot_view [OF view])
  qed
  have hd: "hd (sessionKeys key f) = key" by (simp add: sessionKeys_def)
  obtain st where sticky: "consumeStickyBypass key now (env2 (ID a)) = (False, st)"
    using assms(14) bypass_view [OF view, of key now] by (metis prod.collapse)
  have drain: "pickDrain p ks x fs now s2 e = Some (None, s2, e)" for ks x e
    using assms(15) keep by (simp add: pickDrain_def s2_def)
  obtain c' where "bindSession (sessionKeys key f) (ID a) now s2 = Some (s2\<lparr>asCache := c'\<rparr>)" using bind_ok(1) [OF ok2] by blast
  then show ?thesis unfolding pick bound pickWarm_def using hard hd sticky drain assms(9) by simp
qed

section \<open>Concrete selectors\<close>

definition exampleAffinityConfig :: affinity_config where
  "exampleAffinityConfig = \<lparr>acFallback = Some FallbackFillFirst, acTtl = 9, acHighCacheMode = False, acCacheAffinityEnabled = False,
     acMaxShareRatio = Fin 0, acExpiryDrainIgnoreAffinity = False, acMaxEntries = 100, acMaxSessionRequests = 0,
     acMaxSessionDuration = 0, acPrefixHeatEnabled = False, acPrefixHeatTTL = 0, acPrefixHeatMaxEntries = 0,
     acQuotaPreempt = Fin 0, acQuotaHardStop = Fin 0\<rparr>"

definition exampleAffinityPick :: "gotime \<Rightarrow> affinity_pick" where
  "exampleAffinityPick now = \<lparr>apPick = \<lparr>reqProvider = ''codex'', reqModel = '''', reqNow = now, reqDownstreamWebsocket = False,
     reqStream = False, reqStateModel = ''''\<rparr>, apMetadata = [], apPrimaryID = ''s'', apFallbackID = ''''\<rparr>"

lemma example_affinity:
  "\<exists>s. NewSessionAffinitySelectorWithConfig exampleAffinityConfig [] \<lparr>sdEntries = [], sdLastSweep = 0\<rparr> = Some s \<and>
     asCache s = NewSessionCacheWithBounds 9 100 0 0 \<and> asFailover s = asCache s \<and> asFallback s = FallbackFillFirst \<and>
     \<not> asHighCacheMode s \<and> \<not> asCacheAffinityEnabled s \<and> \<not> asExpiryDrainIgnoreAffinity s"
proof -
  have t: "trimShards c (replicate n emptyHeatShard) = Some (replicate n emptyHeatShard)" if "1 \<le> c" for c n
    using that by (induction n) (simp_all add: trimShard.simps emptyHeatShard_def)
  let ?t = "newPrefixHeatTracker 0 0"
  have same: "?t\<lparr>heTtl := heatTtlSetting 0, heMaxEntries := heatMaxSetting 0\<rparr> = ?t" "?t\<lparr>heShards := heShards ?t\<rparr> = ?t"
    by (simp_all add: newPrefixHeatTracker_def)
  have "heShards ?t = replicate 64 emptyHeatShard" by (simp add: newPrefixHeatTracker_def)
  then have "trimShards (shardCapacity ?t) (heShards ?t) = Some (heShards ?t)" using t [OF shardCapacity_pos] by simp
  then have "UpdateHeatConfig 0 0 ?t = Some ?t"
    unfolding UpdateHeatConfig_def Let_def same by (simp only: option.map same)
  then show ?thesis
    unfolding NewSessionAffinitySelectorWithConfig_def exampleAffinityConfig_def Let_def ConfigurePrefixHeat_def
    by (simp add: ConfigureCacheAffinityMaxShareRatio_def)
qed

lemma affinity_pick_safe_witness:
  "\<exists>s. new_affinity s \<and> (\<exists>r route s' env'. AffinityPick (exampleAffinityPick unix_epoch) (map Some [exampleAuth ''a'' []]) s (\<lambda>_. newRuntimeLimits) =
     Some ((r, route), s', env'))"
proof -
  obtain s where n: "NewSessionAffinitySelectorWithConfig exampleAffinityConfig [] \<lparr>sdEntries = [], sdLastSweep = 0\<rparr> = Some s"
    using example_affinity by blast
  have new: "new_affinity s"
    unfolding new_affinity_def using n by (intro exI conjI) (simp_all add: exampleAffinityConfig_def in_int64_def)
  have ids: "distinct (map ID [exampleAuth ''a'' []])" by simp
  have clock: "clock_ok (reqNow (apPick (exampleAffinityPick unix_epoch)))" by (simp add: exampleAffinityPick_def clock_ok_def)
  show ?thesis
    using affinity_pick_safe [OF reachable_init [where init = new_affinity, OF new] ids clock, of "\<lambda>_. newRuntimeLimits"] new by blast
qed

lemma session_sticks_witness:
  "\<exists>s. reachable new_affinity affinity_step s \<and> (\<exists>s' env'. AffinityPick (exampleAffinityPick 5) (map Some [exampleAuth ''b'' [], exampleAuth ''a'' []]) s
     (\<lambda>_. newRuntimeLimits) = Some ((Inr (bypassing (exampleAuth ''a'' [])), RouteHit), s', env'))"
proof -
  let ?a = "exampleAuth ''a'' []" and ?as = "[exampleAuth ''b'' [], exampleAuth ''a'' []]"
  let ?c = "NewSessionCacheWithBounds 9 100 0 0" and ?k = "sessionAffinityCacheKey ''codex'' ''s'' ''''"
  let ?e = "\<lparr>seAuthID = ''a'', seExpiresAt = 13, seAliases = [?k], seBoundAt = 4, seHits = 1\<rparr>"
  obtain s where n: "NewSessionAffinitySelectorWithConfig exampleAffinityConfig [] \<lparr>sdEntries = [], sdLastSweep = 0\<rparr> = Some s"
    and f: "asCache s = ?c" "asFailover s = asCache s" "asFallback s = FallbackFillFirst"
      "\<not> asHighCacheMode s" "\<not> asCacheAffinityEnabled s" "\<not> asExpiryDrainIgnoreAffinity s"
    using example_affinity by blast
  have new: "new_affinity s"
    unfolding new_affinity_def using n by (intro exI conjI) (simp_all add: exampleAffinityConfig_def in_int64_def)
  have key: "?k = ''codex::s::''" by code_simp
  have trim: "trim_space ''a'' = ''a''" by code_simp
  have set: "setSession ?k ''a'' 4 4 ?c = Some (?c\<lparr>scEntries := [(?k, ?e)]\<rparr>)"
    by (simp add: key setSession_def SetAliases_def NewSessionCacheWithBounds_def mergeSessionAliases_def addAlias_def compactSessionAliases_def
        compactSessionAliasesWith_def isLocalPromptCacheSessionAlias_def replaceAliasGroupsLocked_def boundState_def
        enforceLimitLocked_def enforceLoop.simps)
  let ?s = "s\<lparr>asCache := ?c\<lparr>scEntries := [(?k, ?e)]\<rparr>, asFailover := InvalidateSession ?k ?c\<rparr>"
  have "BindAuthSession ''codex'' '''' ''s'' ''a'' 4 s = Some ?s"
    unfolding BindAuthSession_def Let_def trim using f set by (simp add: key)
  then have step: "affinity_step s ?s" by (rule affinity_step.bind)
  have "reachable new_affinity affinity_step s" using new by (rule reachable_init)
  from this step have r: "reachable new_affinity affinity_step ?s" by (rule reachable_step)
  have ids: "fst (affinitySessionIDs (exampleAffinityPick 5) 5 ?s) = (''s'', '''')"
    using f by (simp add: affinitySessionIDs_def exampleAffinityPick_def MetadataValue_def mdBool_def highCacheCallerSessionID_def Let_def)
  have look: "fst (GetAndRefresh ?k 5 5 (asCache ?s)) = Some (ID ?a)"
    by (simp add: GetAndRefresh_def NewSessionCacheWithBounds_def key exampleAuth_def)
  have d: "distinct (map ID ?as)" "?a \<in> set (weighed ?s ?as)" "trim_space (ID ?a) = ID ?a" "ID ?a \<noteq> ''''"
    using f trim by (simp_all add: weighed_def exampleAuth_def)
  have free: "\<not> blocked_now '''' 5 (\<lambda>_. newRuntimeLimits) ?a" by (rule example_free)
  have hard: "\<not> cacheAffinityHardStopped ?s ?a '''' 5 (\<lambda>_. newRuntimeLimits)" using f by (simp add: cacheAffinityHardStopped_def)
  have sticky: "\<not> fst (consumeStickyBypass ?k 5 newRuntimeLimits)"
    by (simp add: consumeStickyBypass_def pruneStickyBypassSessionsLocked_def newRuntimeLimits_def Let_def)
  have "\<exists>s' env'. AffinityPick (exampleAffinityPick 5) (map Some ?as) ?s (\<lambda>_. newRuntimeLimits) = Some ((Inr (bypassing ?a), RouteHit), s', env')"
    by (rule session_sticks [OF r d ids _ _ _ _ look]) (use free hard sticky f in \<open>simp_all add: exampleAffinityPick_def\<close>)
  then show ?thesis using r by blast
qed

end
