(* ===== verification/Candidates.thy ===== *)
theory Candidates
  imports Scheduler SessionAffinity Results
begin

text \<open>
  How the manager chooses a credential (\<open>sdk/cliproxy/auth/conductor_selection.go\<close>): which of its
  credentials a request may use, the one bypass of a frozen quota, what a plugin sees of them and may
  decide, and the two ways to pick - over the manager's own table, or over the scheduler's index.

  The manager is modelled outside home mode and for requests that do not ask for a tail burst. What
  the request's context says is in the request; the table of aliases, the model registry, the
  registered executors and the plugin are parameters in a record. The nil checks on the manager and on
  the candidates are dropped: the lists of this theory hold no nil. A pick reads the clock several
  times: \<open>clock phase i\<close> is the i-th reading of a phase, with no relation between them. \<open>None\<close> is
  a pick that does not return.
\<close>

section \<open>The setting of a pick\<close>

record plugin_candidate =
  pcID :: string
  pcProvider :: string
  pcPriority :: int
  pcStatus :: Status
  pcAttributes :: "(string, string) gomap"

record plugin_request =
  prProvider :: string
  prProviders :: "string list"
  prModel :: string
  prStream :: bool
  prMetadata :: request_metadata
  prCandidates :: "plugin_candidate list"

datatype plugin_answer = PluginError select_error | PluginUnhandled | PluginAnswer string string

record selection_setup =
  suDigest :: "string \<Rightarrow> string"
  suModels :: model_registry
  suClientModels :: "string \<Rightarrow> string list"
  suResolve :: selection_resolver
  suExecutors :: "string list"
  suAffinityActive :: bool
  suHardStop :: gofloat
  suNewCandidateMode :: bool
  suGroupPolicies :: "(string, accountGroupSelection) gomap option"
  suPlugin :: "(plugin_request \<Rightarrow> plugin_answer) option"

record selection_request =
  srSched :: schedRequest
  srPrimaryID :: string
  srFallbackID :: string

datatype manager_selector = BuiltinSelector fallback_selector | AffinitySelector affinity_state

record manager_state =
  mgAuths :: auth_table
  mgLimits :: limits_env
  mgSelector :: manager_selector
  mgScheduler :: authScheduler

definition isBuiltInSelector :: "manager_selector \<Rightarrow> bool" where
  "isBuiltInSelector sel = (case sel of BuiltinSelector _ \<Rightarrow> True | AffinitySelector _ \<Rightarrow> False)"

text \<open>\<open>registry.ClientSupportsModel\<close>, over the models each client registered.\<close>

definition ClientSupportsModel :: "(string \<Rightarrow> string list) \<Rightarrow> string \<Rightarrow> string \<Rightarrow> bool" where
  "ClientSupportsModel clientModels clientID0 modelID0 =
     (let clientID = trim_space clientID0; modelID = trim_space modelID0
      in if clientID = '''' \<or> modelID = '''' then False
         else list_ex (\<lambda>i. equal_fold (trim_space i) modelID) (clientModels clientID))"

definition selectionModelKeyForAuth :: "selection_resolver \<Rightarrow> Auth \<Rightarrow> string \<Rightarrow> string" where
  "selectionModelKeyForAuth resolve a routeModel = canonicalModelKey (resolve a routeModel)"

definition authSupportsRouteModel :: "selection_setup \<Rightarrow> Auth \<Rightarrow> string \<Rightarrow> bool" where
  "authSupportsRouteModel su a routeModel =
     (let routeKey = canonicalModelKey routeModel;
          supports = ClientSupportsModel (suClientModels su) (ID a)
      in if routeKey = '''' then True
         else if supports routeKey then True
         else let selectionKey = selectionModelKeyForAuth (suResolve su) a routeModel
              in selectionKey \<noteq> '''' \<and> selectionKey \<noteq> routeKey \<and> supports selectionKey)"

definition normalizeProviders :: "string list \<Rightarrow> string list" where
  "normalizeProviders providers =
     fold (\<lambda>provider out. let p = trim_space (to_lower provider)
                           in if p = '''' \<or> p \<in> set out then out else out @ [p]) providers []"

text \<open>\<open>m.Executor\<close>: whether an executor is registered for a provider key.\<close>

definition hasExecutor :: "selection_setup \<Rightarrow> string \<Rightarrow> bool" where
  "hasExecutor su provider0 =
     (let provider = trim_space provider0
      in if provider = '''' then False
         else provider \<in> set (suExecutors su) \<or> to_lower provider \<in> set (suExecutors su))"

section \<open>The one request beyond a quota freeze\<close>

text \<open>
  The walk over the candidates, with the best so far. Any candidate that is blocked for another reason
  ends it.
\<close>

fun fallbackLoop ::
  "selection_setup \<Rightarrow> string \<Rightarrow> gotime \<Rightarrow> Auth list \<Rightarrow> (Auth \<times> gofloat) option \<Rightarrow> limits_env \<Rightarrow>
     Auth option \<times> limits_env" where
  "fallbackLoop su routeModel now [] best env = (map_option fst best, env)"
| "fallbackLoop su routeModel now (candidate # rest) best env =
     (if Disabled candidate \<or> authStatus candidate = StatusDisabled then (None, env)
      else if runtimeAvailable candidate = Some False then (None, env)
      else let ((quotaOnly, hasCapacity), st) = runtimeQuotaPreemptFallbackState candidate now (env (ID candidate));
               env = env(ID candidate := st);
               checkModel = suResolve su candidate routeModel
           in if \<not> quotaOnly then (None, env)
              else if fst (authModelAvailabilityBlock (Some candidate) checkModel now) then (None, env)
              else case codexQuotaSnapshot checkModel now (env (ID candidate)) of
                     None \<Rightarrow> (None, env)
                   | Some snapshot \<Rightarrow>
                       if flt_less (UsedRatio snapshot) (suHardStop su) then (None, env)
                       else if \<not> hasCapacity then fallbackLoop su routeModel now rest best env
                       else fallbackLoop su routeModel now rest
                              (case best of
                                 None \<Rightarrow> Some (candidate, UsedRatio snapshot)
                               | Some (b, bestRatio) \<Rightarrow>
                                   if flt_less (UsedRatio snapshot) bestRatio \<or>
                                      (flt_le (UsedRatio snapshot) bestRatio \<and> flt_le bestRatio (UsedRatio snapshot) \<and>
                                       ID candidate < ID b)
                                   then Some (candidate, UsedRatio snapshot) else best) env)"

definition quotaPreemptFallbackAuth :: "selection_setup \<Rightarrow> quota_fallback" where
  "quotaPreemptFallbackAuth su auths routeModel now env =
     (if auths = [] then (None, env)
      else if \<not> suAffinityActive su \<or> flt_le (suHardStop su) (Fin 0) then (None, env)
      else let (best, env) = fallbackLoop su routeModel now auths None env
           in (map_option (\<lambda>b. b\<lparr>quotaPreemptFallback := True\<rparr>) best, env))"

section \<open>The candidates a selector is given\<close>

text \<open>\<open>collectLoop\<close> of the selectors, but each credential is asked about the model it knows the route by.\<close>

fun routeLoop ::
  "selection_resolver \<Rightarrow> string \<Rightarrow> gotime \<Rightarrow> Auth list \<Rightarrow> priority_buckets \<Rightarrow> int \<Rightarrow> gotime \<Rightarrow> limits_env \<Rightarrow>
     (priority_buckets \<times> int \<times> gotime) \<times> limits_env" where
  "routeLoop resolve routeModel now [] available cooldownCount earliest env =
     ((available, cooldownCount, earliest), env)"
| "routeLoop resolve routeModel now (candidate # rest) available cooldownCount earliest env =
     (let ((blocked, reason, upcoming), env') =
            isAuthBlockedForModel (Some candidate) (resolve candidate routeModel) now env
      in if \<not> blocked
         then let priority = authPriority (Some candidate)
              in routeLoop resolve routeModel now rest
                   (gput priority (bucket_of available priority @ [candidate]) available)
                   cooldownCount earliest env'
         else if reason = blockReasonCooldown
         then routeLoop resolve routeModel now rest available (cooldownCount + 1)
                (if upcoming \<noteq> zeroTime \<and> (earliest = zeroTime \<or> upcoming < earliest)
                 then upcoming else earliest) env'
         else routeLoop resolve routeModel now rest available cooldownCount earliest env')"

definition availableAuthsForRouteModelWithPriorityMode ::
  "selection_setup \<Rightarrow> Auth list \<Rightarrow> string \<Rightarrow> string \<Rightarrow> gotime \<Rightarrow> bool \<Rightarrow> limits_env \<Rightarrow>
     (select_error + Auth list) \<times> limits_env" where
  "availableAuthsForRouteModelWithPriorityMode su auths provider routeModel now allPriorities env =
     (if auths = [] then (Inl (SelectorError ''auth_not_found'' ''no auth candidates''), env)
      else let ((available, cooldownCount, earliest), env) =
                 routeLoop (suResolve su) routeModel now auths [] 0 zeroTime env
           in if available \<noteq> [] then (Inr (availableAuthsFromPriorityBuckets available allPriorities), env)
              else let (fallback, env) = quotaPreemptFallbackAuth su auths routeModel now env
                   in case fallback of
                        Some a \<Rightarrow> (Inr [a], env)
                      | None \<Rightarrow>
                          if cooldownCount = int (length auths) \<and> earliest \<noteq> zeroTime
                          then let providerForError = (if provider = ''mixed'' then '''' else provider);
                                   resetIn = time_sub earliest now;
                                   resetIn = (if resetIn < 0 then 0 else resetIn)
                               in (Inl (newModelCooldownError routeModel providerForError resetIn), env)
                          else (Inl (SelectorError ''auth_unavailable'' ''no auth available''), env))"

definition availableAuthsForRouteModel ::
  "selection_setup \<Rightarrow> Auth list \<Rightarrow> string \<Rightarrow> string \<Rightarrow> gotime \<Rightarrow> limits_env \<Rightarrow>
     (select_error + Auth list) \<times> limits_env" where
  "availableAuthsForRouteModel su auths provider routeModel now env =
     availableAuthsForRouteModelWithPriorityMode su auths provider routeModel now False env"

definition copySelectionModelStateForRouteModel :: "selection_resolver \<Rightarrow> string \<Rightarrow> Auth \<Rightarrow> Auth" where
  "copySelectionModelStateForRouteModel resolve routeModel a =
     (let routeKey = canonicalModelKey routeModel;
          selectionKey = selectionModelKeyForAuth resolve a routeModel
      in if routeKey = '''' \<or> ModelStates a = [] \<or> selectionKey = '''' \<or> selectionKey = routeKey then a
         else case glookup (ModelStates a) selectionKey of
                Some (Some selectionState) \<Rightarrow>
                  (case glookup (ModelStates a) routeKey of
                     Some (Some existing) \<Rightarrow>
                       a\<lparr>ModelStates := gput routeKey (mergeModelState (Some existing) (Some selectionState)) (ModelStates a)\<rparr>
                   | _ \<Rightarrow> a\<lparr>ModelStates := gput routeKey (Some selectionState) (ModelStates a)\<rparr>)
              | _ \<Rightarrow> a)"

definition cloneAuthsForSessionAffinitySelector :: "selection_resolver \<Rightarrow> Auth list \<Rightarrow> string \<Rightarrow> Auth list" where
  "cloneAuthsForSessionAffinitySelector resolve auths routeModel =
     map (copySelectionModelStateForRouteModel resolve routeModel) auths"

text \<open>
  The copies whose ids are wanted. The mark of the quota fallback is set on the copies themselves,
  which are shared with the list they are taken from: \<open>markedBy\<close> is that list after the call.
\<close>

definition markedBy :: "Auth list \<Rightarrow> Auth list \<Rightarrow> Auth list" where
  "markedBy chosen auths =
     map (\<lambda>a. case find (\<lambda>w. ID w = ID a) (rev chosen) of
                 Some selected \<Rightarrow> if quotaPreemptFallback selected then a\<lparr>quotaPreemptFallback := True\<rparr> else a
               | None \<Rightarrow> a) auths"

definition authSubsetByID :: "Auth list \<Rightarrow> Auth list \<Rightarrow> Auth list" where
  "authSubsetByID auths chosen = filter (\<lambda>a. ID a \<in> ID ` set chosen) (markedBy chosen auths)"

definition availableAuthsForSelector ::
  "selection_setup \<Rightarrow> manager_selector \<Rightarrow> Auth list \<Rightarrow> string \<Rightarrow> string \<Rightarrow> gotime \<Rightarrow> limits_env \<Rightarrow>
     (select_error + Auth list \<times> Auth list) \<times> limits_env" where
  "availableAuthsForSelector su sel auths provider routeModel now env =
     (let (r, env) = availableAuthsForRouteModel su auths provider routeModel now env
      in case sel of
           BuiltinSelector _ \<Rightarrow> (map_sum id (\<lambda>l. (l, l)) r, env)
         | AffinitySelector _ \<Rightarrow>
             let priorityAuths = (case r of Inl _ \<Rightarrow> [] | Inr l \<Rightarrow> l);
                 selectorAuths = cloneAuthsForSessionAffinitySelector (suResolve su) auths routeModel
             in (Inr (authSubsetByID selectorAuths priorityAuths, markedBy priorityAuths selectorAuths), env))"

section \<open>The plugin\<close>

fun replace_chars :: "string \<Rightarrow> string \<Rightarrow> string \<Rightarrow> string" where
  "replace_chars olds new [] = []"
| "replace_chars olds new (c # cs) = (if c \<in> set olds then new else [c]) @ replace_chars olds new cs"

definition sensitiveFragments :: "string list" where
  "sensitiveFragments = [''api_key'', ''apikey'', ''token'', ''secret'', ''cookie'', ''credential'', ''password'',
     ''storage'', ''authorization'', ''auth_header'', ''proxy_url'']"

definition schedulerAttributeSensitive :: "string \<Rightarrow> bool" where
  "schedulerAttributeSensitive key0 =
     (let key = to_lower (trim_space key0);
          normalized = replace_chars ''-. '' ''_'' key;
          compact = replace_chars ''_-. '' '''' key
      in list_ex (\<lambda>fragment. str_contains key fragment \<or> str_contains normalized fragment \<or>
                              str_contains compact fragment) sensitiveFragments)"

definition schedulerSafeAttributes :: "(string, string) gomap \<Rightarrow> (string, string) gomap" where
  "schedulerSafeAttributes src = filter (\<lambda>(key, _). \<not> schedulerAttributeSensitive key) src"

definition schedulerAuthCandidates :: "Auth list \<Rightarrow> plugin_candidate list" where
  "schedulerAuthCandidates auths =
     map (\<lambda>a. \<lparr>pcID = ID a, pcProvider = to_lower (trim_space (Provider a)), pcPriority = authPriority (Some a),
                pcStatus = authStatus a, pcAttributes = schedulerSafeAttributes (Attributes a)\<rparr>) auths"

definition schedulerProviders :: "string \<Rightarrow> string list \<Rightarrow> string list" where
  "schedulerProviders provider providers =
     fold (\<lambda>v out. let v = to_lower (trim_space v)
                    in if v = '''' \<or> v = ''mixed'' \<or> v \<in> set out then out else out @ [v]) (provider # providers) []"

definition pickSchedulerAuthByID :: "Auth list \<Rightarrow> string \<Rightarrow> Auth option" where
  "pickSchedulerAuthByID auths authID =
     (if trim_space authID = '''' then None else find (\<lambda>a. ID a = trim_space authID) auths)"

definition builtinSchedulerStrategy :: "string \<Rightarrow> schedulerStrategy option" where
  "builtinSchedulerStrategy delegate =
     (let d = trim_space delegate
      in if d = ''concurrency-balanced'' then Some schedulerStrategyConcurrencyBalanced
         else if d = ''round-robin'' then Some schedulerStrategyRoundRobin
         else if d = ''fill-first'' then Some schedulerStrategyFillFirst
         else None)"

definition shouldRetrySchedulerPick :: "select_error \<Rightarrow> bool" where
  "shouldRetrySchedulerPick e =
     (case e of ModelCooldown _ _ _ \<Rightarrow> True
      | SelectorError code _ \<Rightarrow> code = ''auth_not_found'' \<or> code = ''auth_unavailable'')"

text \<open>
  The scheduler resolves models and falls back through the manager, which connects the two when it is
  made; both read the manager's settings of the moment.
\<close>

definition wiredScheduler :: "selection_setup \<Rightarrow> authScheduler \<Rightarrow> authScheduler" where
  "wiredScheduler su s =
     setQuotaFallback (Some (quotaPreemptFallbackAuth su)) (setSelectionModelResolver (Some (suResolve su)) s)"

text \<open>The scheduler's two picks on the manager's state, with the provider of the credential.\<close>

definition schedulerMixed ::
  "selection_setup \<Rightarrow> schedulerStrategy \<Rightarrow> string list \<Rightarrow> string \<Rightarrow> schedRequest \<Rightarrow> (nat \<Rightarrow> gotime) \<Rightarrow>
     manager_state \<Rightarrow> (select_error + Auth \<times> string) \<times> manager_state" where
  "schedulerMixed su strategy providers model req clock mg =
     (let ((r, s), env) = pickMixedWithStrategy (suDigest su) providers model req strategy clock
                            (wiredScheduler su (mgScheduler mg)) (mgLimits mg)
      in (r, mg\<lparr>mgScheduler := s, mgLimits := env\<rparr>))"

definition schedulerSingle ::
  "selection_setup \<Rightarrow> schedulerStrategy \<Rightarrow> string \<Rightarrow> string \<Rightarrow> schedRequest \<Rightarrow> (nat \<Rightarrow> gotime) \<Rightarrow>
     manager_state \<Rightarrow> (select_error + Auth \<times> string) \<times> manager_state" where
  "schedulerSingle su strategy provider model req clock mg =
     (let ((r, s), env) = pickSingleWithStrategy (suDigest su) provider model req strategy clock
                            (wiredScheduler su (mgScheduler mg)) (mgLimits mg)
      in (map_sum id (\<lambda>a. (a, provider)) r, mg\<lparr>mgScheduler := s, mgLimits := env\<rparr>))"

definition syncScheduler :: "selection_setup \<Rightarrow> gotime \<Rightarrow> manager_state \<Rightarrow> manager_state" where
  "syncScheduler su now mg =
     (let (s, env) = schedulerRebuild (suDigest su) (suModels su) None now (map snd (mgAuths mg))
                       (wiredScheduler su (mgScheduler mg)) (mgLimits mg)
      in mg\<lparr>mgScheduler := s, mgLimits := env\<rparr>)"

text \<open>The scheduler is rebuilt from the table once when it has nothing to offer.\<close>

definition pickViaBuiltinScheduler ::
  "selection_setup \<Rightarrow> schedulerStrategy \<Rightarrow> string \<Rightarrow> string list \<Rightarrow> string \<Rightarrow> schedRequest \<Rightarrow> (nat \<Rightarrow> nat \<Rightarrow> gotime) \<Rightarrow>
     manager_state \<Rightarrow> (select_error + Auth) \<times> manager_state" where
  "pickViaBuiltinScheduler su strategy provider providers model req clock mg =
     (let key = to_lower (trim_space provider);
          pick = (\<lambda>c. if key = ''mixed'' then schedulerMixed su strategy providers model req c
                      else schedulerSingle su strategy key model req c);
          (r, mg) = pick (clock 1) mg;
          (r, mg) = (case r of
                       Inr a \<Rightarrow> (Inr a, mg)
                     | Inl e \<Rightarrow> if model \<noteq> '''' \<and> \<not> suNewCandidateMode su \<and> shouldRetrySchedulerPick e
                                then pick (clock 3) (syncScheduler su (clock 2 0) mg) else (Inl e, mg))
      in (map_sum id fst r, mg))"

text \<open>\<open>None\<close>: the plugin leaves the decision to the selector.\<close>

definition pickViaPluginScheduler ::
  "selection_setup \<Rightarrow> string \<Rightarrow> string list \<Rightarrow> string \<Rightarrow> schedRequest \<Rightarrow> Auth list \<Rightarrow> (nat \<Rightarrow> nat \<Rightarrow> gotime) \<Rightarrow>
     manager_state \<Rightarrow> (select_error + Auth) option \<times> manager_state" where
  "pickViaPluginScheduler su provider providers model req auths clock mg =
     (case suPlugin su of
        None \<Rightarrow> (None, mg)
      | Some plugin \<Rightarrow>
          if auths = [] then (None, mg)
          else let pkey = to_lower (trim_space provider);
                   preq = \<lparr>prProvider = (if pkey = ''mixed'' then '''' else pkey),
                           prProviders = schedulerProviders pkey providers, prModel = model,
                           prStream = optStream req, prMetadata = optMetadata req,
                           prCandidates = schedulerAuthCandidates auths\<rparr>
               in case plugin preq of
                    PluginError e \<Rightarrow> (Some (Inl e), mg)
                  | PluginUnhandled \<Rightarrow> (None, mg)
                  | PluginAnswer authID delegate \<Rightarrow>
                      (case pickSchedulerAuthByID auths authID of
                         Some a \<Rightarrow> (Some (Inr a), mg)
                       | None \<Rightarrow>
                           (case builtinSchedulerStrategy delegate of
                              None \<Rightarrow> (None, mg)
                            | Some strategy \<Rightarrow>
                                let (r, mg) = pickViaBuiltinScheduler su strategy pkey providers model req clock mg
                                in (Some r, mg))))"

section \<open>The selector's turn\<close>

definition selectionArgForSelector :: "manager_selector \<Rightarrow> string \<Rightarrow> string" where
  "selectionArgForSelector sel routeModel = (if isBuiltInSelector sel then '''' else routeModel)"

definition restoreModelCooldownErrorModel :: "string \<Rightarrow> select_error \<Rightarrow> select_error" where
  "restoreModelCooldownErrorModel requestedModel e =
     (case e of
        ModelCooldown model provider resetIn \<Rightarrow>
          if requestedModel = '''' \<or> model \<noteq> '''' then e else newModelCooldownError requestedModel provider resetIn
      | _ \<Rightarrow> e)"

text \<open>
  \<open>Selector.Pick\<close> for the selector of the manager: \<open>model\<close> is the argument, \<open>stateModel\<close> what the
  context carries for the weighted selector.
\<close>

definition selectorPick ::
  "selection_request \<Rightarrow> string \<Rightarrow> string \<Rightarrow> string \<Rightarrow> Auth list \<Rightarrow> gotime \<Rightarrow> manager_state \<Rightarrow>
     ((select_error + Auth) \<times> manager_state) option" where
  "selectorPick req provider model stateModel auths now mg =
     (let rq = srSched req;
          preq = \<lparr>reqProvider = provider, reqModel = model, reqNow = now,
                  reqDownstreamWebsocket = ctxDownstreamWebsocket rq, reqStream = optStream rq, reqStateModel = stateModel\<rparr>
      in case mgSelector mg of
           BuiltinSelector f \<Rightarrow>
             let (r, f, env) = fallbackPick preq auths f (mgLimits mg)
             in Some (r, mg\<lparr>mgSelector := BuiltinSelector f, mgLimits := env\<rparr>)
         | AffinitySelector s \<Rightarrow>
             map_option (\<lambda>((r, _), s, env). (r, mg\<lparr>mgSelector := AffinitySelector s, mgLimits := env\<rparr>))
               (AffinityPick \<lparr>apPick = preq, apMetadata = optMetadata rq, apPrimaryID = srPrimaryID req,
                              apFallbackID = srFallbackID req\<rparr> (map Some auths) s (mgLimits mg)))"

definition withWeightedSelectorStateModel :: "manager_selector \<Rightarrow> string \<Rightarrow> string" where
  "withWeightedSelectorStateModel sel routeModel =
     (case sel of BuiltinSelector (FallbackWeighted _) \<Rightarrow> if trim_space routeModel = '''' then '''' else routeModel | _ \<Rightarrow> '''')"

section \<open>Restricted clients\<close>

text \<open>
  The error for a client that no credential admits: some candidate would do but for the
  restriction of its client, and none does with it.
\<close>

definition codexClientRestricted :: select_error where
  "codexClientRestricted = SelectorError ''codex_client_restricted''
     ''This account only allows Codex official clients''"

fun restrictionLoop ::
  "schedRequest \<Rightarrow> string \<Rightarrow> (Auth \<Rightarrow> bool) \<Rightarrow> Auth list \<Rightarrow> bool \<Rightarrow> select_error option" where
  "restrictionLoop req pinned extra [] restricted = (if restricted then Some codexClientRestricted else None)"
| "restrictionLoop req pinned extra (a # rest) restricted =
     (let full = request_eligibility req; base = full\<lparr>codexClientRestrictionEvaluated := False\<rparr>
      in if Disabled a \<or> \<not> extra a \<or> (pinned \<noteq> '''' \<and> ID a \<noteq> pinned) \<or> ID a \<in> set (triedAuths req) \<or>
            \<not> eligibilityAllows base a
         then restrictionLoop req pinned extra rest restricted
         else if eligibilityAllows full a then None
         else restrictionLoop req pinned extra rest (restricted \<or> codexClientRestrictionEnabledForAuth a))"

abbreviation restriction_evaluated :: "schedRequest \<Rightarrow> bool" where
  "restriction_evaluated req \<equiv> metadataBool (optMetadata req) ''__cliproxy_codex_client_restriction_evaluated''"

definition codexClientRestrictionError ::
  "selection_setup \<Rightarrow> string list \<Rightarrow> string \<Rightarrow> schedRequest \<Rightarrow> auth_table \<Rightarrow> select_error option" where
  "codexClientRestrictionError su providerSet model req auths =
     (if providerSet = [] \<or> \<not> restriction_evaluated req then None
      else restrictionLoop req (pinnedAuthIDFromMetadata (optMetadata req))
             (\<lambda>a. executorKeyFromAuth a \<in> set providerSet \<and>
                   (trim_space model = '''' \<or> authSupportsRouteModel su a model))
             (List.map_filter snd auths) False)"

definition indexedCandidateList ::
  "selection_setup \<Rightarrow> string list \<Rightarrow> string \<Rightarrow> gotime \<Rightarrow> manager_state \<Rightarrow> Auth list \<times> manager_state" where
  "indexedCandidateList su providers model now mg =
     (let ((indexed, s), env) = snapshotCandidates (suDigest su) providers model now (mgScheduler mg) (mgLimits mg)
      in (indexed, mg\<lparr>mgScheduler := s, mgLimits := env\<rparr>))"

definition indexedCodexClientRestrictionError ::
  "selection_setup \<Rightarrow> string list \<Rightarrow> string \<Rightarrow> schedRequest \<Rightarrow> gotime \<Rightarrow> manager_state \<Rightarrow>
     select_error option \<times> manager_state" where
  "indexedCodexClientRestrictionError su providers model req now mg =
     (if \<not> restriction_evaluated req then (None, mg)
      else let (indexed, mg) = indexedCandidateList su providers model now mg
           in (restrictionLoop req (pinnedAuthIDFromMetadata (optMetadata req)) (\<lambda>_. True) indexed False, mg))"

section \<open>Picks over the table\<close>

text \<open>
  \<open>selectorFallback\<close> is the part the pick functions share: the plugin first, then the selector.
\<close>

abbreviation noAuthReturned :: select_error where
  "noAuthReturned \<equiv> SelectorError ''auth_not_found'' ''selector returned no auth''"

abbreviation executorNotFound :: select_error where
  "executorNotFound \<equiv> SelectorError ''executor_not_found'' ''executor not registered''"

definition routeModelKey :: "string \<Rightarrow> string" where
  "routeModelKey model =
     (let modelKey = trim_space model
      in if modelKey = '''' then ''''
         else let parsed = ModelName (ParseSuffix modelKey)
              in if parsed \<noteq> '''' then trim_space parsed else modelKey)"

text \<open>The credentials of the table a request may use; \<open>served\<close> says which executor keys are asked for.\<close>

definition legacyCandidates ::
  "selection_setup \<Rightarrow> (string \<Rightarrow> bool) \<Rightarrow> string \<Rightarrow> schedRequest \<Rightarrow> auth_table \<Rightarrow> Auth list" where
  "legacyCandidates su served model req auths =
     (let pinned = pinnedAuthIDFromMetadata (optMetadata req); eligibility = request_eligibility req
      in filter (\<lambda>a. \<not> Disabled a \<and> (pinned = '''' \<or> ID a = pinned) \<and> eligibilityAllows eligibility a \<and>
              served (executorKeyFromAuth a) \<and> ID a \<notin> set (triedAuths req) \<and>
              (routeModelKey model = '''' \<or> authSupportsRouteModel su a model))
           (List.map_filter snd auths))"

text \<open>
  What the manager's selector is asked, after the plugin: the error for a request without a model of
  its own is given the model back.
\<close>

definition legacyPick ::
  "selection_setup \<Rightarrow> string \<Rightarrow> string list \<Rightarrow> string \<Rightarrow> selection_request \<Rightarrow> Auth list \<Rightarrow> Auth list \<Rightarrow>
     (nat \<Rightarrow> nat \<Rightarrow> gotime) \<Rightarrow> manager_state \<Rightarrow> ((bool \<times> (select_error + Auth)) \<times> manager_state) option" where
  "legacyPick su provider providers model req available selectorAuths clock mg =
     (let sel = mgSelector mg;
          (decided, mg) = pickViaPluginScheduler su provider providers model (srSched req) available clock mg
      in case decided of
           Some r \<Rightarrow> Some ((True, r), mg)
         | None \<Rightarrow>
             map_option (\<lambda>(r, mg).
                 ((False, map_sum (if isBuiltInSelector sel then restoreModelCooldownErrorModel model else id) id r), mg))
               (selectorPick req provider (selectionArgForSelector sel model)
                  (withWeightedSelectorStateModel sel model) selectorAuths (clock 4 0) mg))"

definition pickNextLegacy ::
  "selection_setup \<Rightarrow> string \<Rightarrow> string \<Rightarrow> selection_request \<Rightarrow> (nat \<Rightarrow> nat \<Rightarrow> gotime) \<Rightarrow> manager_state \<Rightarrow>
     ((select_error + Auth) \<times> manager_state) option" where
  "pickNextLegacy su provider model req clock mg =
     (if provider \<notin> set (suExecutors su) then Some (Inl executorNotFound, mg)
      else let cands = legacyCandidates su (\<lambda>k. k = provider) model (srSched req) (mgAuths mg)
           in if cands = []
              then Some (Inl (case codexClientRestrictionError su [provider] model (srSched req) (mgAuths mg) of
                                Some e \<Rightarrow> e | None \<Rightarrow> auth_not_found), mg)
              else let (r, env) = availableAuthsForSelector su (mgSelector mg) cands provider model (clock 0 0) (mgLimits mg);
                       mg = mg\<lparr>mgLimits := env\<rparr>
                   in case r of
                        Inl e \<Rightarrow> Some (Inl e, mg)
                      | Inr (available, selectorAuths) \<Rightarrow>
                          map_option (\<lambda>((_, r), mg). (r, mg))
                            (legacyPick su provider [provider] model req available selectorAuths clock mg))"

definition pickNextMixedLegacy ::
  "selection_setup \<Rightarrow> string list \<Rightarrow> string \<Rightarrow> selection_request \<Rightarrow> (nat \<Rightarrow> nat \<Rightarrow> gotime) \<Rightarrow> manager_state \<Rightarrow>
     ((select_error + Auth \<times> string) \<times> manager_state) option" where
  "pickNextMixedLegacy su providers model req clock mg =
     (let providerSet = normalizeProviders providers
      in if providerSet = [] then Some (Inl (SelectorError ''provider_not_found'' ''no provider supplied''), mg)
         else let cands = legacyCandidates su (\<lambda>k. k \<noteq> '''' \<and> k \<in> set providerSet \<and> k \<in> set (suExecutors su))
                           model (srSched req) (mgAuths mg);
                  restriction = codexClientRestrictionError su providerSet model (srSched req) (mgAuths mg)
              in if cands = []
                 then Some (Inl (case restriction of Some e \<Rightarrow> e | None \<Rightarrow> auth_not_found), mg)
                 else let (r, env) = availableAuthsForSelector su (mgSelector mg) cands ''mixed'' model (clock 0 0) (mgLimits mg);
                          mg = mg\<lparr>mgLimits := env\<rparr>
                      in case r of
                           Inl e \<Rightarrow> Some (Inl e, mg)
                         | Inr (available, selectorAuths) \<Rightarrow>
                             map_option (\<lambda>((byPlugin, r), mg).
                                 (case r of
                                    Inl e \<Rightarrow> (Inl (if byPlugin then (case restriction of Some e' \<Rightarrow> e' | None \<Rightarrow> e) else e), mg)
                                  | Inr a \<Rightarrow> if hasExecutor su (executorKeyFromAuth a)
                                             then (Inr (a, executorKeyFromAuth a), mg) else (Inl executorNotFound, mg)))
                               (legacyPick su ''mixed'' providers model req available selectorAuths clock mg))"

section \<open>Picks over the index\<close>

definition indexedCandidates ::
  "selection_setup \<Rightarrow> string list \<Rightarrow> string \<Rightarrow> schedRequest \<Rightarrow> gotime \<Rightarrow> manager_state \<Rightarrow> Auth list \<times> manager_state" where
  "indexedCandidates su providers model req now mg =
     (let eligibility = request_eligibility req; pinned = pinnedAuthIDFromMetadata (optMetadata req);
          (indexed, mg) = indexedCandidateList su providers model now mg
      in (filter (\<lambda>a. \<not> Disabled a \<and> eligibilityAllows eligibility a \<and> (pinned = '''' \<or> ID a = pinned) \<and>
                       ID a \<notin> set (triedAuths req)) indexed, mg))"

text \<open>
  The pick both indexed functions make, \<open>provider\<close> being \<open>mixed\<close> for a request over several. With
  a built-in selector the scheduler itself picks, which is \<open>own\<close>.
\<close>

definition indexedPick ::
  "(manager_state \<Rightarrow> (select_error + Auth \<times> string) \<times> manager_state) \<Rightarrow> selection_setup \<Rightarrow> string \<Rightarrow> string list \<Rightarrow>
     string \<Rightarrow> selection_request \<Rightarrow> (nat \<Rightarrow> nat \<Rightarrow> gotime) \<Rightarrow> manager_state \<Rightarrow>
     ((select_error + Auth \<times> string) \<times> manager_state) option" where
  "indexedPick own su provider providers model req clock mg =
     (let sel = mgSelector mg; keyed = map_sum id (\<lambda>a. (a, executorKeyFromAuth a))
      in if suPlugin su = None \<and> isBuiltInSelector sel then Some (own mg)
         else let (cands, mg) = indexedCandidates su providers model (srSched req) (clock 6 0) mg;
                  (r, env) = availableAuthsForSelector su sel cands provider model (clock 0 0) (mgLimits mg);
                  mg = mg\<lparr>mgLimits := env\<rparr>
              in case r of
                   Inl e \<Rightarrow> Some (Inl e, mg)
                 | Inr (available, selectorAuths) \<Rightarrow>
                     let (decided, mg) = pickViaPluginScheduler su provider providers model (srSched req) available clock mg
                     in case decided of
                          Some r \<Rightarrow> Some (keyed r, mg)
                        | None \<Rightarrow>
                            if isBuiltInSelector sel then Some (own mg)
                            else map_option (\<lambda>(r, mg). (keyed r, mg))
                                   (selectorPick req provider model '''' selectorAuths (clock 4 0) mg))"

definition pickNextIndexed ::
  "selection_setup \<Rightarrow> string \<Rightarrow> string list \<Rightarrow> string \<Rightarrow> selection_request \<Rightarrow> (nat \<Rightarrow> nat \<Rightarrow> gotime) \<Rightarrow> manager_state \<Rightarrow>
     ((select_error + Auth) \<times> manager_state) option" where
  "pickNextIndexed su provider providers model req clock mg =
     map_option (\<lambda>(r, mg). (map_sum id fst r, mg))
       (indexedPick (schedulerSingle su schedulerStrategyCurrent provider model (srSched req) (clock 5))
          su provider providers model req clock mg)"

definition pickNextMixedIndexed ::
  "selection_setup \<Rightarrow> string list \<Rightarrow> string \<Rightarrow> selection_request \<Rightarrow> (nat \<Rightarrow> nat \<Rightarrow> gotime) \<Rightarrow> manager_state \<Rightarrow>
     ((select_error + Auth \<times> string) \<times> manager_state) option" where
  "pickNextMixedIndexed su providers model req clock mg =
     indexedPick (schedulerMixed su schedulerStrategyCurrent providers model (srSched req) (clock 5))
       su ''mixed'' providers model req clock mg"

section \<open>The pick\<close>

definition accountGroupPolicyActive :: "request_metadata \<Rightarrow> bool" where
  "accountGroupPolicyActive md \<longleftrightarrow> metadataBool md AccountGroupPolicyEvaluatedMetadataKey"

definition withPolicy :: "selection_setup \<Rightarrow> selection_request \<Rightarrow> selection_request" where
  "withPolicy su req =
     req\<lparr>srSched := (srSched req)\<lparr>optMetadata := withAccountGroupPolicy (suGroupPolicies su) (optMetadata (srSched req))\<rparr>\<rparr>"

definition pickNext ::
  "selection_setup \<Rightarrow> string \<Rightarrow> string \<Rightarrow> selection_request \<Rightarrow> (nat \<Rightarrow> nat \<Rightarrow> gotime) \<Rightarrow> manager_state \<Rightarrow>
     ((select_error + Auth) \<times> manager_state) option" where
  "pickNext su provider model req0 clock mg =
     (let req = withPolicy su req0
      in if \<not> suNewCandidateMode su \<and> \<not> accountGroupPolicyActive (optMetadata (srSched req))
         then pickNextLegacy su provider model req clock mg
         else if \<not> hasExecutor su provider then Some (Inl executorNotFound, mg)
         else map_option (\<lambda>(r, mg).
                case r of
                  Inr a \<Rightarrow> (Inr a, mg)
                | Inl e \<Rightarrow> let (restriction, mg) = indexedCodexClientRestrictionError su [provider] model (srSched req) (clock 7 0) mg
                           in (Inl (case restriction of Some e' \<Rightarrow> e' | None \<Rightarrow> e), mg))
                (pickNextIndexed su provider [provider] model req clock mg))"

definition pickNextMixed ::
  "selection_setup \<Rightarrow> string list \<Rightarrow> string \<Rightarrow> selection_request \<Rightarrow> (nat \<Rightarrow> nat \<Rightarrow> gotime) \<Rightarrow> manager_state \<Rightarrow>
     ((select_error + Auth \<times> string) \<times> manager_state) option" where
  "pickNextMixed su providers model req0 clock mg =
     (let req = withPolicy su req0
      in if \<not> suNewCandidateMode su \<and> \<not> accountGroupPolicyActive (optMetadata (srSched req))
         then pickNextMixedLegacy su providers model req clock mg
         else let eligibleProviders = filter (hasExecutor su) (normalizeProviders providers)
              in if eligibleProviders = [] then Some (Inl auth_not_found, mg)
                 else map_option (\<lambda>(r, mg).
                        case r of
                          Inr (a, pkey) \<Rightarrow>
                            if hasExecutor su pkey then (Inr (a, pkey), mg) else (Inl executorNotFound, mg)
                        | Inl e \<Rightarrow> let (restriction, mg) =
                                     indexedCodexClientRestrictionError su eligibleProviders model (srSched req) (clock 7 0) mg
                                   in (Inl (case restriction of Some e' \<Rightarrow> e' | None \<Rightarrow> e), mg))
                        (pickNextMixedIndexed su eligibleProviders model req clock mg))"

section \<open>A concrete setting\<close>

definition exampleSetup :: selection_setup where
  "exampleSetup = \<lparr>suDigest = (\<lambda>s. s), suModels = (\<lambda>_. []), suClientModels = (\<lambda>_. []), suResolve = (\<lambda>_ m. m),
     suExecutors = [''codex''], suAffinityActive = True, suHardStop = Fin 1, suNewCandidateMode = False,
     suGroupPolicies = None, suPlugin = None\<rparr>"

end
