(* ===== verification/CandidateProps.thy ===== *)
theory CandidateProps
  imports Candidates SchedulerProps ResultProps SessionAffinityProps
begin

text \<open>
  What the manager's choice of a credential promises: when a frozen quota is bypassed, and that every
  way to pick - table or index, plugin, built-in selector, session affinity, quota bypass - ends at a credential the request may
  use and did not try before.
\<close>

section \<open>The quota bypass\<close>

text \<open>What the loop asks of one candidate: frozen by quota preemption, and by nothing else.\<close>

abbreviation preempt_state :: "gotime \<Rightarrow> limits_env \<Rightarrow> Auth \<Rightarrow> (bool \<times> bool) \<times> authRuntimeLimits" where
  "preempt_state now env c \<equiv> runtimeQuotaPreemptFallbackState c now (env (ID c))"

definition usage_of :: "selection_setup \<Rightarrow> string \<Rightarrow> gotime \<Rightarrow> limits_env \<Rightarrow> Auth \<Rightarrow> gofloat option" where
  "usage_of su m now env c =
     map_option UsedRatio (codexQuotaSnapshot (suResolve su c m) now (snd (preempt_state now env c)))"

definition preempted_only :: "selection_setup \<Rightarrow> string \<Rightarrow> gotime \<Rightarrow> limits_env \<Rightarrow> Auth \<Rightarrow> bool" where
  "preempted_only su m now env c \<longleftrightarrow>
     \<not> Disabled c \<and> authStatus c \<noteq> StatusDisabled \<and> runtimeAvailable c \<noteq> Some False \<and>
     fst (fst (preempt_state now env c)) \<and>
     \<not> fst (authModelAvailabilityBlock (Some c) (suResolve su c m) now) \<and>
     (\<exists>u. usage_of su m now env c = Some u \<and> \<not> flt_less u (suHardStop su))"

abbreviation has_room :: "gotime \<Rightarrow> limits_env \<Rightarrow> Auth \<Rightarrow> bool" where
  "has_room now env c \<equiv> snd (fst (preempt_state now env c))"

text \<open>The best of what was seen: nobody seen with room has used less.\<close>

definition best_so_far ::
  "selection_setup \<Rightarrow> string \<Rightarrow> gotime \<Rightarrow> limits_env \<Rightarrow> Auth set \<Rightarrow> (Auth \<times> gofloat) option \<Rightarrow> bool" where
  "best_so_far su m now env S best \<longleftrightarrow>
     (case best of
        None \<Rightarrow> \<forall>c \<in> S. \<not> has_room now env c
      | Some (b, u) \<Rightarrow> b \<in> S \<and> has_room now env b \<and> usage_of su m now env b = Some u \<and>
          (\<forall>c \<in> S. \<forall>v. has_room now env c \<longrightarrow> usage_of su m now env c = Some v \<longrightarrow> \<not> flt_less v u))"

lemma flt_less_trans_neg:
  assumes "\<not> flt_less v u" "flt_less w u \<or> flt_le w u \<and> flt_le u w"
  shows "\<not> flt_less v w"
  using assms by (cases v; cases u; cases w) auto

lemma flt_less_irrefl: "\<not> flt_less u u"
  by (cases u) simp_all

lemma fallbackLoop_spec:
  assumes "distinct (map ID cs)" "\<forall>c \<in> set cs. env (ID c) = env1 (ID c)"
    and "best_so_far su m now env1 S best" "\<forall>c \<in> set cs. c \<notin> S"
    and "fallbackLoop su m now cs best env = (r, env')"
  shows "(\<forall>c \<in> set cs. preempted_only su m now env1 c) \<and>
      (\<exists>best'. r = map_option fst best' \<and> best_so_far su m now env1 (S \<union> set cs) best') \<or>
    r = None \<and> (\<exists>c \<in> set cs. \<not> preempted_only su m now env1 c)"
  using assms
proof (induction cs arbitrary: best env S)
  case Nil
  then show ?case by auto
next
  case (Cons c cs)
  obtain q room st where ps: "preempt_state now env c = ((q, room), st)" by (metis prod.collapse)
  have ps1: "preempt_state now env1 c = ((q, room), st)" using ps Cons.prems(2) by simp
  let ?u = "codexQuotaSnapshot (suResolve su c m) now st"
  show ?case
  proof (cases "preempted_only su m now env1 c")
    case False
    then have "r = None"
      using Cons.prems(5) ps by (auto simp: preempted_only_def usage_of_def ps1 Let_def split: if_splits option.splits)
    then show ?thesis using False by auto
  next
    case True
    then obtain sn where sn: "?u = Some sn" "\<not> flt_less (UsedRatio sn) (suHardStop su)"
      by (auto simp: preempted_only_def usage_of_def ps1)
    let ?best = "if \<not> room then best else (case best of
        None \<Rightarrow> Some (c, UsedRatio sn)
      | Some (b, u) \<Rightarrow> if flt_less (UsedRatio sn) u \<or> (flt_le (UsedRatio sn) u \<and> flt_le u (UsedRatio sn) \<and> ID c < ID b)
                       then Some (c, UsedRatio sn) else best)"
    have run: "fallbackLoop su m now cs ?best (env(ID c := st)) = (r, env')"
      using Cons.prems(5) True sn ps by (auto simp: preempted_only_def ps1 Let_def split: if_splits)
    have us: "usage_of su m now env1 c = Some (UsedRatio sn)" by (simp add: usage_of_def ps1 sn)
    have "best_so_far su m now env1 (insert c S) ?best"
    proof (cases "room")
      case False
      then show ?thesis using Cons.prems(3) ps1 by (auto simp: best_so_far_def split: option.splits)
    next
      case room: True
      show ?thesis
      proof (cases best)
        case None
        then show ?thesis using Cons.prems(3) room ps1 us by (auto simp: best_so_far_def flt_less_irrefl)
      next
        case (Some p)
        obtain b u where p: "p = (b, u)" by fastforce
        note b = Cons.prems(3) [unfolded best_so_far_def Some p option.case prod.case]
        show ?thesis
        proof (cases "flt_less (UsedRatio sn) u \<or> (flt_le (UsedRatio sn) u \<and> flt_le u (UsedRatio sn) \<and> ID c < ID b)")
          case True
          then have "\<not> flt_less v (UsedRatio sn)" if "\<not> flt_less v u" for v
            using flt_less_trans_neg [OF that, of "UsedRatio sn"] by blast
          then show ?thesis using True b room ps1 us Some p by (auto simp: best_so_far_def flt_less_irrefl)
        next
          case False
          then show ?thesis using b room ps1 us Some p by (auto simp: best_so_far_def)
        qed
      qed
    qed
    moreover have "\<forall>d \<in> set cs. ID d \<noteq> ID c" using Cons.prems(1) by (simp add: image_iff eq_commute)
    moreover from this have "\<forall>d \<in> set cs. (env(ID c := st)) (ID d) = env1 (ID d)" using Cons.prems(2) by simp
    moreover have "\<forall>d \<in> set cs. d \<notin> insert c S" using Cons.prems(1,4) by auto
    moreover have "distinct (map ID cs)" using Cons.prems(1) by simp
    ultimately show ?thesis using Cons.IH [OF _ _ _ _ run, of "insert c S"] True by auto
  qed
qed

lemma fallbackLoop_from:
  "fallbackLoop su m now cs best env = (Some b, env') \<Longrightarrow> b \<in> set cs \<or> Some b = map_option fst best"
proof (induction cs arbitrary: best env)
  case (Cons c cs)
  obtain q room st where ps: "preempt_state now env c = ((q, room), st)" by (metis prod.collapse)
  from Cons.prems ps obtain best' where "fallbackLoop su m now cs best' (env(ID c := st)) = (Some b, env')"
    and best': "best' = best \<or> (\<exists>u. best' = Some (c, u))"
    by (fastforce simp: Let_def split: if_splits option.splits)
  from Cons.IH [OF this(1)] best' show ?case by auto
qed auto

lemma quotaPreemptFallbackAuth_from:
  "quotaPreemptFallbackAuth su auths m now env = (Some a, env') \<Longrightarrow>
     \<exists>b \<in> set auths. a = b\<lparr>quotaPreemptFallback := True\<rparr>"
  by (auto simp: quotaPreemptFallbackAuth_def split: if_splits prod.splits dest: fallbackLoop_from)

lemma wired_fallback_ok: "fallback_ok (wiredScheduler su s)"
  by (auto simp: fallback_ok_def wiredScheduler_def setQuotaFallback_def served_as_def dest!: quotaPreemptFallbackAuth_from)

text \<open>
  C9 (a frozen quota is bypassed exactly when it must be). The manager sends a request past the
  freeze of a quota exactly when session affinity is on, the hard stop is set, every candidate is frozen
  by its quota and by nothing else with a known usage beyond the hard stop, and one of them has a
  free slot; it then takes one with a free slot of which none has used less of its quota, marked as
  the bypass.
\<close>

theorem quota_bypass_exact:
  assumes "distinct (map ID cs)" "quotaPreemptFallbackAuth su cs m now env = (r, env')"
    and "bypass = (suAffinityActive su \<and> \<not> flt_le (suHardStop su) (Fin 0) \<and> cs \<noteq> [] \<and>
           (\<forall>c \<in> set cs. preempted_only su m now env c) \<and> (\<exists>c \<in> set cs. has_room now env c))"
  shows "case r of
      None \<Rightarrow> \<not> bypass
    | Some a \<Rightarrow> bypass \<and> (\<exists>b \<in> set cs. \<exists>u. a = b\<lparr>quotaPreemptFallback := True\<rparr> \<and> has_room now env b \<and>
        usage_of su m now env b = Some u \<and>
        (\<forall>c \<in> set cs. \<forall>v. has_room now env c \<longrightarrow> usage_of su m now env c = Some v \<longrightarrow> \<not> flt_less v u))"
proof -
  obtain best env1 where run: "fallbackLoop su m now cs None env = (best, env1)" by fastforce
  have "best_so_far su m now env {} None" by (simp add: best_so_far_def)
  note loop = fallbackLoop_spec [OF assms(1) _ this _ run, simplified]
  show ?thesis
  proof (cases "cs = [] \<or> \<not> suAffinityActive su \<or> flt_le (suHardStop su) (Fin 0)")
    case True
    then have "r = None" using assms(2)
      by (cases "cs = []"; cases "suAffinityActive su") (simp_all add: quotaPreemptFallbackAuth_def)
    then show ?thesis using True assms(3) by auto
  next
    case False
    then have r: "r = map_option (\<lambda>b. b\<lparr>quotaPreemptFallback := True\<rparr>) best"
      using assms(2) run by (auto simp: quotaPreemptFallbackAuth_def)
    from loop show ?thesis
    proof
      assume all: "(\<forall>c\<in>set cs. preempted_only su m now env c) \<and>
        (\<exists>best'. best = map_option fst best' \<and> best_so_far su m now env (set cs) best')"
      then obtain best' where best': "best = map_option fst best'" "best_so_far su m now env (set cs) best'" by blast
      show ?thesis
      proof (cases best')
        case None
        then show ?thesis using best' r by (simp add: assms(3) best_so_far_def)
      next
        case (Some p)
        obtain b u where p: "p = (b, u)" by fastforce
        have b: "b \<in> set cs" "has_room now env b" "usage_of su m now env b = Some u"
          "\<forall>c \<in> set cs. \<forall>v. has_room now env c \<longrightarrow> usage_of su m now env c = Some v \<longrightarrow> \<not> flt_less v u"
          using best'(2) by (simp_all add: best_so_far_def Some p)
        have "bypass" unfolding assms(3) using False all b(1,2) by blast
        moreover have "r = Some (b\<lparr>quotaPreemptFallback := True\<rparr>)" using best'(1) r by (simp add: Some p)
        ultimately show ?thesis using b by auto
      qed
    next
      assume "best = None \<and> (\<exists>c\<in>set cs. \<not> preempted_only su m now env c)"
      then show ?thesis using r by (auto simp: assms(3))
    qed
  qed
qed

definition exampleUsed :: limits_env where
  "exampleUsed i = newRuntimeLimits\<lparr>quotaPreemptFreezeUntil := 100, codexQuotaSnapshots :=
     Some [(''*'', \<lparr>UsedRatio = Fin (if i = ''a'' then 2 else 1), SampledAt = 1, ExpiresAt = 1000, ResetAt = 1000, Generation = 0\<rparr>)]\<rparr>"

lemma example_bypass:
  "fst (quotaPreemptFallbackAuth exampleSetup [exampleAuth ''a'' [], exampleAuth ''b'' []] '''' 5 exampleUsed) =
     Some ((exampleAuth ''b'' [])\<lparr>quotaPreemptFallback := True\<rparr>)"
  by code_simp

lemma quota_bypass_exact_witness:
  "\<exists>b u. b\<lparr>quotaPreemptFallback := True\<rparr> = (exampleAuth ''b'' [])\<lparr>quotaPreemptFallback := True\<rparr> \<and>
     usage_of exampleSetup '''' 5 exampleUsed b = Some u \<and> has_room 5 exampleUsed b \<and>
     (\<forall>v. has_room 5 exampleUsed (exampleAuth ''a'' []) \<longrightarrow>
        usage_of exampleSetup '''' 5 exampleUsed (exampleAuth ''a'' []) = Some v \<longrightarrow> \<not> flt_less v u)"
proof -
  let ?as = "[exampleAuth ''a'' [], exampleAuth ''b'' []]"
  have distinct: "distinct (map ID ?as)" by (simp add: exampleAuth_def)
  obtain r env' where run: "quotaPreemptFallbackAuth exampleSetup ?as '''' 5 exampleUsed = (r, env')" by fastforce
  have r: "r = Some ((exampleAuth ''b'' [])\<lparr>quotaPreemptFallback := True\<rparr>)" using example_bypass by (simp add: run)
  from quota_bypass_exact [OF distinct run refl, unfolded r option.case] show ?thesis by force
qed

section \<open>What a request may use\<close>

text \<open>The same credential in all that a request asks about: the states of its models and the marks of one pick may differ.\<close>

definition prepared :: "Auth \<Rightarrow> Auth \<Rightarrow> bool" where
  "prepared c a \<longleftrightarrow> ID a = ID c \<and> Provider a = Provider c \<and> Label a = Label c \<and> Attributes a = Attributes c \<and>
     Metadata a = Metadata c \<and> groupIDs a = groupIDs c \<and> Disabled a = Disabled c"

lemma preparedI:
  "prepared c c" "prepared c (c\<lparr>quotaPreemptFallback := f\<rparr>)" "prepared c (c\<lparr>ModelStates := ms\<rparr>)" "prepared c (bypassing c)"
  by (simp_all add: prepared_def)

lemma prepared_trans: "prepared a b \<Longrightarrow> prepared b c \<Longrightarrow> prepared a c"
  by (simp add: prepared_def)

lemma served_prepared: "served_as c a \<Longrightarrow> prepared c a"
  by (auto simp: served_as_def preparedI)

lemma prepared_same:
  assumes "prepared c a"
  shows "ID a = ID c" "executorKeyFromAuth a = executorKeyFromAuth c" "AuthKind a = AuthKind c"
  using assms by (simp_all add: prepared_def executorKeyFromAuth_def AuthKind_def authAttribute_def
      authMetadataString_def authHasOAuthMetadata_def Let_def)

lemma prepared_allows: "prepared c a \<Longrightarrow> eligibilityAllows e a = eligibilityAllows e c"
  using prepared_same [of c a]
  by (simp add: prepared_def eligibilityAllows_def credentialPolicyAllows_def matchesAnyGroup_def
      codexClientRestrictionEnabledForAuth_def codexClientRestrictionAppServerEnabledForAuth_def isFreeCodexAuth_def authAttribute_def)

definition may_serve :: "schedRequest \<Rightarrow> string list \<Rightarrow> Auth \<Rightarrow> bool" where
  "may_serve req keys a \<longleftrightarrow>
     eligibilityAllows (request_eligibility req) a \<and> ID a \<notin> set (triedAuths req) \<and>
     (pinnedAuthIDFromMetadata (optMetadata req) \<noteq> '''' \<longrightarrow> ID a = pinnedAuthIDFromMetadata (optMetadata req)) \<and>
     executorKeyFromAuth a \<in> set keys"

lemma may_serve_prepared: "prepared c a \<Longrightarrow> may_serve req keys a = may_serve req keys c"
  by (simp add: may_serve_def prepared_same prepared_allows)

lemma normalizeProviders_keys: "normalizeProviders = normalizeProviderKeys"
  by (simp add: normalizeProviders_def normalizeProviderKeys_def trim_space_lower fun_eq_iff)

section \<open>The candidates of the index\<close>

text \<open>What the walk of a snapshot keeps: one account per place, and no credential twice.\<close>

abbreviation snapshot_entries :: "(string \<times> scheduledAuth option) list \<Rightarrow> Auth list \<Rightarrow> Auth set" where
  "snapshot_entries canonical out \<equiv> set out \<union> entryAuth ` set (List.map_filter snd canonical)"

definition snapshot_ok ::
  "Auth set \<Rightarrow> (string list \<times> (string, scheduledAuth option) gomap) \<times> Auth list \<Rightarrow> bool" where
  "snapshot_ok S acc \<longleftrightarrow> (case acc of ((seen, canonical), out) \<Rightarrow>
     gomap_ok canonical \<and> (\<forall>k v. glookup canonical k = Some v \<longrightarrow> v \<noteq> None) \<and> distinct (map ID out) \<and>
     (\<forall>k k' e e'. glookup canonical k = Some (Some e) \<longrightarrow> glookup canonical k' = Some (Some e') \<longrightarrow>
        ID (entryAuth e) = ID (entryAuth e') \<longrightarrow> k = k') \<and>
     (\<forall>k e. glookup canonical k = Some (Some e) \<longrightarrow>
        ID (entryAuth e) \<in> set seen \<and> ID (entryAuth e) \<notin> ID ` set out \<and> entryAuth e \<in> S) \<and>
     ID ` set out \<subseteq> set seen \<and> set out \<subseteq> S)"

lemma preferred_entry:
  "preferScheduledCanonicalEntry c (Some e) = Some e \<or> (\<exists>l. c = Some l \<and> preferScheduledCanonicalEntry c (Some e) = Some l)"
  by (cases c) (auto simp: preferScheduledCanonicalEntry_def Let_def split: option.splits)

lemma snapshotEntries_ok:
  assumes "snapshot_ok S acc" "\<forall>(i, e) \<in> set es. ID (entryAuth e) = i \<and> entryAuth e \<in> S"
  shows "snapshot_ok S (snapshotEntries digest es acc)"
  using assms
proof (induction digest es acc rule: snapshotEntries.induct)
  case (2 digest authID entry es seen canonical out)
  let ?key = "codexCanonicalIdentityKey digest (entryAuth entry)"
  let ?cur = "case glookup canonical ?key of None \<Rightarrow> None | Some c \<Rightarrow> c"
  let ?new = "preferScheduledCanonicalEntry ?cur (Some entry)"
  have e: "ID (entryAuth entry) = authID" "entryAuth entry \<in> S" and es: "\<forall>(i, e) \<in> set es. ID (entryAuth e) = i \<and> entryAuth e \<in> S"
    using "2.prems"(2) by auto
  show ?case
  proof (cases "authID \<in> set seen")
    case True
    then show ?thesis using "2.IH"(1) "2.prems"(1) es by simp
  next
    case fresh: False
    show ?thesis
    proof (cases "?key = ''''")
      case True
      have "snapshot_ok S ((seen @ [authID], canonical), out @ [entryAuth entry])"
        using "2.prems"(1) fresh e by (auto simp: snapshot_ok_def) metis
      then show ?thesis using "2.IH"(2) fresh True es by simp
    next
      case False
      obtain x where x: "?new = Some x" "x = entry \<or> glookup canonical ?key = Some (Some x)"
        using preferred_entry [of ?cur entry] by (auto split: option.splits)
      have "snapshot_ok S ((seen @ [authID], gput ?key (Some x) canonical), out)"
        using "2.prems"(1) fresh e x(2) by (auto simp: snapshot_ok_def glookup_put split: if_splits) (metis image_eqI)+
      then show ?thesis using "2.IH"(3) [OF fresh refl False refl] fresh False es x(1) by simp
    qed
  qed
qed simp

definition registered :: "authScheduler \<Rightarrow> string list \<Rightarrow> Auth set" where
  "registered s keys = {a. \<exists>key \<in> set keys. \<exists>meta. credentials_at s key (ID a) = Some meta \<and> metaAuth meta = a}"

lemma registered_key:
  assumes "sched_ok digest s" "a \<in> registered s keys"
  shows "executorKeyFromAuth a \<in> set keys"
proof -
  obtain key meta where m: "key \<in> set keys" "credentials_at s key (ID a) = Some meta" "metaAuth meta = a"
    using assms(2) by (auto simp: registered_def)
  from credentials_meta(1) [OF assms(1) m(2)] m(1,3) show ?thesis by (simp add: sched_meta_def)
qed

lemma shard_registered:
  assumes "sched_ok digest s" "shard_metas m = supporting k (credentials_at s key)" "key \<in> set keys" "shard_ok digest m"
    "(i, e) \<in> set (entries m)"
  shows "ID (entryAuth e) = i \<and> entryAuth e \<in> registered s keys"
proof -
  have "glookup (entries m) i = Some e"
    using assms(4,5) by (simp add: shard_ok_def entries_ok_def gomap_ok_def)
  then have "credentials_at s key i = Some (entryMeta e)"
    using fun_cong [OF assms(2), of i] by (auto simp: shard_metas_def supporting_def split: option.splits if_splits)
  from this credentials_meta(1) [OF assms(1) this] assms(3) show ?thesis by (auto simp: registered_def sched_meta_def)
qed

lemma snapshotProviders_ok:
  "snapshotProviders digest model now ks acc s env = ((acc', s'), env') \<Longrightarrow> sched_ok digest s \<Longrightarrow> set ks \<subseteq> set keys \<Longrightarrow>
     snapshot_ok (registered s keys) acc \<Longrightarrow> snapshot_ok (registered s keys) acc'"
proof (induction ks arbitrary: acc s env)
  case (Cons key ks)
  obtain found s1 env1 where es: "ensureShard digest key model now s env = ((found, s1), env1)" by (metis prod.collapse)
  note e = ensureShard_ok [OF Cons.prems(2) es]
  have reg: "registered s1 keys = registered s keys" using same_sched_at [OF e(1)] by (simp add: registered_def)
  let ?acc = "case found of None \<Rightarrow> acc | Some m \<Rightarrow> snapshotEntries digest (entries m) acc"
  have "snapshot_ok (registered s keys) ?acc"
  proof (cases found)
    case (Some m)
    have "\<forall>(i, e) \<in> set (entries m). ID (entryAuth e) = i \<and> entryAuth e \<in> registered s keys"
      using shard_registered [OF Cons.prems(2), of m "canonicalModelKey model" key keys] e(2) Some Cons.prems(3) by auto
    then show ?thesis using snapshotEntries_ok [OF Cons.prems(4)] Some by simp
  qed (simp add: Cons.prems(4))
  then show ?case using Cons.IH [of ?acc s1 env1] Cons.prems(1,3) es same_sched_ok [OF e(1)] reg by (simp cong: option.case_cong)
qed simp

lemma snapshot_distinct:
  assumes "gomap_ok canonical"
    "\<And>k k' e e'. glookup canonical k = Some (Some e) \<Longrightarrow> glookup canonical k' = Some (Some e') \<Longrightarrow>
        f e = f e' \<Longrightarrow> k = k'"
  shows "distinct (map f (List.map_filter snd canonical))"
  using assms
proof (induction canonical)
  case (Cons p canonical)
  obtain k v where p: "p = (k, v)" by fastforce
  have fresh: "k \<notin> fst ` set canonical" and ok: "gomap_ok canonical" using Cons.prems(1) by (auto simp: gomap_ok_def p)
  have there: "glookup (p # canonical) k' = Some w" if "glookup canonical k' = Some w" for k' w
    using that fresh glookup_in_keys [of canonical k] by (auto simp: p)
  have rest: "distinct (map f (List.map_filter snd canonical))"
    by (rule Cons.IH [OF ok]) (rule Cons.prems(2) [OF there there])
  show ?case
  proof (cases v)
    case (Some e)
    have "f e \<noteq> f x" if "x \<in> set (List.map_filter snd canonical)" for x
    proof
      assume eq: "f e = f x"
      from that obtain k' where "(k', Some x) \<in> set canonical" by (force simp: List.map_filter_def)
      then have "glookup canonical k' = Some (Some x)" and "k' \<in> fst ` set canonical"
        using ok by (force simp: gomap_ok_def)+
      with Cons.prems(2) [OF _ there eq, of k k'] fresh show False by (simp add: p Some)
    qed
    then show ?thesis using rest by (auto simp: List.map_filter_simps p Some)
  qed (use rest in \<open>simp add: List.map_filter_simps p\<close>)
qed (simp add: List.map_filter_simps)

lemma snapshotCandidates_ok:
  assumes "sched_ok digest s" "snapshotCandidates digest provs model now s env = ((as, s'), env')"
  shows "distinct (map ID as)" "set as \<subseteq> registered s (normalizeProviderKeys provs)"
proof -
  obtain seen canonical out s1 env1 where run: "snapshotProviders digest (canonicalModelKey model) now
      (normalizeProviderKeys provs) (([], []), []) s env = ((((seen, canonical), out), s1), env1)" by (metis prod.collapse)
  have ok: "snapshot_ok (registered s (normalizeProviderKeys provs)) ((seen, canonical), out)"
    by (rule snapshotProviders_ok [OF run assms(1)]) (auto simp: snapshot_ok_def)
  have as: "as = sort_key ID (out @ map entryAuth (List.map_filter snd canonical))"
    using assms(2) run by (simp add: snapshotCandidates_def)
  have at: "\<exists>k. glookup canonical k = Some (Some e)" if "e \<in> set (List.map_filter snd canonical)" for e
    using that ok by (force simp: List.map_filter_def snapshot_ok_def gomap_ok_def)
  have "distinct (map (\<lambda>e. ID (entryAuth e)) (List.map_filter snd canonical))"
    by (rule snapshot_distinct) (use ok in \<open>auto simp: snapshot_ok_def\<close>)
  moreover have "ID (entryAuth e) \<notin> ID ` set out \<and> entryAuth e \<in> registered s (normalizeProviderKeys provs)"
    if "e \<in> set (List.map_filter snd canonical)" for e
    using at [OF that] ok by (fastforce simp: snapshot_ok_def)
  ultimately have "distinct (map ID (out @ map entryAuth (List.map_filter snd canonical)))"
    "set (out @ map entryAuth (List.map_filter snd canonical)) \<subseteq> registered s (normalizeProviderKeys provs)"
    using ok by (auto simp: snapshot_ok_def comp_def image_iff) metis
  moreover have "mset (map ID as) = mset (map ID (out @ map entryAuth (List.map_filter snd canonical)))"
    by (simp add: as multiset.map_comp)
  ultimately show "distinct (map ID as)" "set as \<subseteq> registered s (normalizeProviderKeys provs)"
    using mset_eq_imp_distinct_iff as by (metis, simp)
qed

section \<open>Keys of models\<close>

text \<open>Reducing a model's key strips one suffix, so it may change again when it is reduced twice.\<close>

lemma canonicalModelKey_not_idempotent:
  "canonicalModelKey (canonicalModelKey ''m(a)(b)'') \<noteq> canonicalModelKey ''m(a)(b)''"
  by code_simp

end
