(* ===== verification/PickProps.thy ===== *)
theory PickProps
  imports CandidateProps
begin

text \<open>
  Every way the manager has to pick a credential - table or index, plugin, built-in selector, session
  affinity, quota bypass - ends at a credential the request may use and did not try before, and returns.
\<close>

section \<open>The lists a selector is given\<close>

definition from_candidates :: "Auth set \<Rightarrow> Auth set \<Rightarrow> bool" where
  "from_candidates C A \<longleftrightarrow> (\<forall>a \<in> A. \<exists>c \<in> C. prepared c a)"

lemma from_refl [simp]: "A \<subseteq> C \<Longrightarrow> from_candidates C A"
  using preparedI(1) by (auto simp: from_candidates_def)

lemma from_trans: "from_candidates B C \<Longrightarrow> from_candidates A B \<Longrightarrow> from_candidates A C"
  unfolding from_candidates_def using prepared_trans by blast

lemma from_subset: "from_candidates C A \<Longrightarrow> B \<subseteq> A \<Longrightarrow> from_candidates C B"
  by (auto simp: from_candidates_def)

text \<open>\<open>U\<close> is a set of ids the manager knows.\<close>

definition serves :: "string set \<Rightarrow> schedRequest \<Rightarrow> string list \<Rightarrow> Auth \<Rightarrow> bool" where
  "serves U req keys a \<longleftrightarrow> may_serve req keys a \<and> ID a \<in> U"

lemma serves_prepared: "prepared c a \<Longrightarrow> serves U req keys a = serves U req keys c"
  by (simp add: serves_def may_serve_prepared prepared_same(1))

lemma from_may_serve: "from_candidates C A \<Longrightarrow> \<forall>c \<in> C. serves U req keys c \<Longrightarrow> a \<in> A \<Longrightarrow> serves U req keys a"
  using serves_prepared by (fastforce simp: from_candidates_def)

lemma drawn_bucket: "drawn S av \<Longrightarrow> glookup av p = Some l \<Longrightarrow> set l \<subseteq> S"
  unfolding drawn_def by (drule map_of_SomeD) (drule bspec, erule image_eqI [rotated], auto)

lemma drawn_put: "drawn S av \<Longrightarrow> l \<noteq> [] \<Longrightarrow> set l \<subseteq> S \<Longrightarrow> drawn S (gput p l av)"
  using put_values [of p l av] unfolding drawn_def by blast

lemma routeLoop_drawn:
  "routeLoop resolve m now cs av n e env = ((av', n', e'), env') \<Longrightarrow> drawn S av \<Longrightarrow> set cs \<subseteq> S \<Longrightarrow> drawn S av'"
proof (induction cs arbitrary: av n e env)
  case (Cons c cs)
  obtain blocked reason upcoming env1 where chk: "isAuthBlockedForModel (Some c) (resolve c m) now env =
      ((blocked, reason, upcoming), env1)" by (metis prod.collapse)
  let ?p = "authPriority (Some c)"
  have bucket: "set (bucket_of av ?p) \<subseteq> S" using Cons.prems(2)
    using drawn_bucket [of S av ?p] by (cases "glookup av ?p") (simp_all add: bucket_of_def)
  then have put: "drawn S (gput ?p (bucket_of av ?p @ [c]) av)"
    using Cons.prems(2,3) by (intro drawn_put) simp_all
  show ?case using Cons.IH [of _ _ _ env1] Cons.prems put chk
    by (auto simp: Let_def split: if_splits)
qed simp

lemma buckets_from:
  assumes "drawn S av" "av \<noteq> []"
  shows "set (availableAuthsFromPriorityBuckets av all) \<subseteq> S"
proof -
  define xs where "xs = (if all then concat (map snd av)
    else case glookup av (bestPriority (map fst av) 0 False) of None \<Rightarrow> [] | Some bucket \<Rightarrow> bucket)"
  have "availableAuthsFromPriorityBuckets av all = (if length xs > 1 then sort_key ID xs else xs)"
    unfolding availableAuthsFromPriorityBuckets_def xs_def Let_def ..
  moreover have "set xs \<subseteq> S"
  proof (cases all)
    case True
    then show ?thesis using assms(1) by (auto simp: xs_def drawn_def)
  next
    case False
    then show ?thesis using drawn_bucket [OF assms(1), of "bestPriority (map fst av) 0 False"]
      by (cases "glookup av (bestPriority (map fst av) 0 False)") (simp_all add: xs_def)
  qed
  ultimately show ?thesis by (simp split: if_splits)
qed

lemma route_candidates_from:
  assumes "availableAuthsForRouteModel su auths provider m now env = (Inr l, env')"
  shows "from_candidates (set auths) (set l)"
proof -
  obtain av n e env1 where loop: "routeLoop (suResolve su) m now auths [] 0 zeroTime env = ((av, n, e), env1)"
    by (metis prod.collapse)
  have d: "drawn (set auths) av" by (rule routeLoop_drawn [OF loop]) (simp_all add: drawn_def)
  obtain f env2 where fb: "quotaPreemptFallbackAuth su auths m now env1 = (f, env2)" by fastforce
  note run = assms [unfolded availableAuthsForRouteModel_def availableAuthsForRouteModelWithPriorityMode_def loop Let_def]
  have ne: "auths \<noteq> []" using run by auto
  show ?thesis
  proof (cases "av = []")
    case False
    then show ?thesis using run ne buckets_from [OF d, of False] by auto
  next
    case True
    then obtain a where a: "f = Some a" "l = [a]" using run ne fb by (auto split: option.splits if_splits)
    then obtain b where "b \<in> set auths" "a = b\<lparr>quotaPreemptFallback := True\<rparr>"
      using quotaPreemptFallbackAuth_from [of su auths m now env1 a env2] fb by auto
    then show ?thesis using a by (auto simp: from_candidates_def intro!: bexI [of _ b] preparedI)
  qed
qed

lemma marked_from: "from_candidates (set auths) (set (markedBy chosen auths))" "map ID (markedBy chosen auths) = map ID auths"
  by (auto simp: from_candidates_def markedBy_def comp_def intro!: bexI preparedI split: option.split)

lemma copied_prepared: "prepared a (copySelectionModelStateForRouteModel resolve m a)"
  by (auto simp: copySelectionModelStateForRouteModel_def Let_def preparedI split: option.split)

lemma cloned_from: "from_candidates (set auths) (set (cloneAuthsForSessionAffinitySelector resolve auths m))"
  "map ID (cloneAuthsForSessionAffinitySelector resolve auths m) = map ID auths"
  using copied_prepared prepared_same(1) [OF copied_prepared]
  by (auto simp: from_candidates_def cloneAuthsForSessionAffinitySelector_def)

lemma selector_lists:
  assumes "availableAuthsForSelector su sel auths provider m now env = (Inr (av, sa), env')"
  shows "from_candidates (set auths) (set av)" "from_candidates (set auths) (set sa)"
    "\<not> isBuiltInSelector sel \<Longrightarrow> map ID sa = map ID auths"
proof -
  obtain r env1 where r: "availableAuthsForRouteModel su auths provider m now env = (r, env1)" by fastforce
  have "from_candidates (set auths) (set av) \<and> from_candidates (set auths) (set sa) \<and>
      (\<not> isBuiltInSelector sel \<longrightarrow> map ID sa = map ID auths)"
  proof (cases sel)
    case (BuiltinSelector f)
    then show ?thesis using assms r route_candidates_from [of su auths provider m now env]
      by (cases r) (auto simp: availableAuthsForSelector_def isBuiltInSelector_def)
  next
    case (AffinitySelector s)
    define p where "p = (case r of Inl _ \<Rightarrow> [] | Inr l \<Rightarrow> l)"
    let ?c = "cloneAuthsForSessionAffinitySelector (suResolve su) auths m"
    have sa: "sa = markedBy p ?c" "av = authSubsetByID ?c p"
      using assms r by (simp_all add: availableAuthsForSelector_def AffinitySelector p_def Let_def)
    have "from_candidates (set auths) (set sa)"
      unfolding sa by (rule from_trans [OF marked_from(1) cloned_from(1)])
    moreover from this have "from_candidates (set auths) (set av)"
      by (rule from_subset) (auto simp: sa authSubsetByID_def)
    ultimately show ?thesis by (simp add: sa marked_from(2) cloned_from(2))
  qed
  then show "from_candidates (set auths) (set av)" "from_candidates (set auths) (set sa)"
    "\<not> isBuiltInSelector sel \<Longrightarrow> map ID sa = map ID auths" by blast+
qed

section \<open>The state of the manager\<close>

definition ids_ok :: "auth_table \<Rightarrow> bool" where
  "ids_ok m \<longleftrightarrow> gomap_ok m \<and> (\<forall>(k, v) \<in> set m. \<forall>a. v = Some a \<longrightarrow> ID a = k \<and> trim_space k = k)"

definition manager_ok :: "string set \<Rightarrow> selection_setup \<Rightarrow> manager_state \<Rightarrow> bool" where
  "manager_ok U su mg \<longleftrightarrow> ids_ok (mgAuths mg) \<and> fst ` set (mgAuths mg) \<subseteq> U \<and>
     sched_ok (suDigest su) (mgScheduler mg) \<and> dom (credentials (mgScheduler mg)) \<subseteq> U \<and>
     (case mgSelector mg of BuiltinSelector _ \<Rightarrow> True | AffinitySelector s \<Rightarrow> affinity_ok s)"

text \<open>A step that ends well, keeps the manager's table, and has results with a property.\<close>

definition delivers ::
  "string set \<Rightarrow> selection_setup \<Rightarrow> manager_state \<Rightarrow> ('x \<Rightarrow> bool) \<Rightarrow> ((select_error + 'x) \<times> manager_state) option \<Rightarrow> bool" where
  "delivers U su mg P result \<longleftrightarrow>
     (\<exists>r mg'. result = Some (r, mg') \<and> manager_ok U su mg' \<and> mgAuths mg' = mgAuths mg \<and> (\<forall>x. r = Inr x \<longrightarrow> P x))"

lemma delivers_weaken: "delivers U su mg P result \<Longrightarrow> (\<And>x. P x \<Longrightarrow> Q x) \<Longrightarrow> delivers U su mg Q result"
  by (fastforce simp: delivers_def)

lemma delivers_error [intro]: "manager_ok U su mg' \<Longrightarrow> mgAuths mg' = mgAuths mg \<Longrightarrow> delivers U su mg P (Some (Inl e, mg'))"
  by (simp add: delivers_def)

lemma ids_distinct: "ids_ok m \<Longrightarrow> distinct (map ID (List.map_filter snd m))"
proof (induction m)
  case (Cons p m)
  obtain k v where p: "p = (k, v)" by fastforce
  have m: "ids_ok m" "k \<notin> fst ` set m" using Cons.prems by (auto simp: ids_ok_def gomap_ok_def p)
  have "ID a \<noteq> k" if "a \<in> set (List.map_filter snd m)" for a
  proof -
    from that obtain i where "(i, Some a) \<in> set m" by (force simp: List.map_filter_def)
    then have "ID a = i" "i \<in> fst ` set m" using m(1) by (force simp: ids_ok_def)+
    then show ?thesis using m(2) by auto
  qed
  then have "k \<notin> ID ` set (List.map_filter snd m)" by blast
  then show ?case using Cons.IH [OF m(1)] Cons.prems
    by (cases v) (auto simp: List.map_filter_simps p ids_ok_def)
qed (simp add: List.map_filter_simps)

lemma ids_trimmed: "ids_ok m \<Longrightarrow> \<forall>a \<in> set (map snd m). trimmed_id a"
  by (auto simp: ids_ok_def trimmed_id_def split: option.split)

section \<open>The scheduler's picks\<close>

lemma wired_ok: "sched_ok digest s \<Longrightarrow> sched_ok digest (wiredScheduler su s)"
  by (rule sched_ok_frame(1)) (simp_all add: wiredScheduler_def setQuotaFallback_def setSelectionModelResolver_def)

lemma wired_credentials: "credentials (wiredScheduler su s) = credentials s"
  by (rule ext) (simp add: credentials_def wiredScheduler_def setQuotaFallback_def setSelectionModelResolver_def
      cong: option.case_cong)

lemma request_candidate_serves:
  assumes "sched_ok digest s" "meta \<in> request_candidates s key k (request_allows req (pinnedAuthIDFromMetadata (optMetadata req)) strategy)"
    "served_as (metaAuth meta) a" "key \<in> set keys" "dom (credentials s) \<subseteq> U"
  shows "serves U req keys a \<and> executorKeyFromAuth a = key"
proof -
  have at: "credentials_at s key (ID (metaAuth meta)) = Some meta"
    and al: "request_allows req (pinnedAuthIDFromMetadata (optMetadata req)) strategy meta"
    using assms(2) by (auto simp: request_candidates_def)
  have "executorKeyFromAuth (metaAuth meta) = key"
    using credentials_meta(1) [OF assms(1) at] by (simp add: sched_meta_def)
  moreover have "ID (metaAuth meta) \<in> U" using credentials_meta(2) [OF assms(1) at] assms(5) by blast
  ultimately show ?thesis using al assms(4) served_as_same [OF assms(3)] prepared_allows [OF served_prepared [OF assms(3)]]
    by (simp add: serves_def may_serve_def request_allows_def)
qed

lemma schedulerMixed_serves:
  assumes "manager_ok U su mg" "schedulerMixed su strategy providers model req clock mg = (r, mg')"
  shows "manager_ok U su mg' \<and> mgAuths mg' = mgAuths mg \<and> mgSelector mg' = mgSelector mg \<and>
    (\<forall>a key. r = Inr (a, key) \<longrightarrow> serves U req (normalizeProviderKeys providers) a \<and> executorKeyFromAuth a = key)"
proof -
  let ?s = "wiredScheduler su (mgScheduler mg)"
  obtain s' env' where run: "pickMixedWithStrategy (suDigest su) providers model req strategy clock ?s (mgLimits mg) =
      ((r, s'), env')" and mg': "mg' = mg\<lparr>mgScheduler := s', mgLimits := env'\<rparr>"
    using assms(2) by (auto simp: schedulerMixed_def split: prod.splits)
  have ok: "sched_ok (suDigest su) ?s" "dom (credentials ?s) \<subseteq> U" using assms(1) by (simp_all add: manager_ok_def wired_ok wired_credentials)
  note p = pickMixed_all [OF ok(1) wired_fallback_ok run refl refl]
  have "serves U req (normalizeProviderKeys providers) a \<and> executorKeyFromAuth a = key" if "r = Inr (a, key)" for a key
    using p that request_candidate_serves [OF ok(1) _ _ _ ok(2)] by auto
  moreover have "credentials s' = credentials ?s" using p by (simp add: same_sched_def)
  ultimately show ?thesis using assms(1) ok(2) same_sched_ok [OF conjunct1 [OF p]] by (simp add: manager_ok_def mg')
qed

lemma schedulerSingle_serves:
  assumes "manager_ok U su mg" "schedulerSingle su strategy provider model req clock mg = (r, mg')"
  shows "manager_ok U su mg' \<and> mgAuths mg' = mgAuths mg \<and> mgSelector mg' = mgSelector mg \<and>
    (\<forall>a key. r = Inr (a, key) \<longrightarrow> serves U req [to_lower (trim_space provider)] a \<and> key = provider)"
proof -
  let ?s = "wiredScheduler su (mgScheduler mg)"
  obtain r0 s' env' where run: "pickSingleWithStrategy (suDigest su) provider model req strategy clock ?s (mgLimits mg) =
      ((r0, s'), env')" and mg': "mg' = mg\<lparr>mgScheduler := s', mgLimits := env'\<rparr>" and r: "r = map_sum id (\<lambda>a. (a, provider)) r0"
    using assms(2) by (auto simp: schedulerSingle_def split: prod.splits)
  have ok: "sched_ok (suDigest su) ?s" "dom (credentials ?s) \<subseteq> U" using assms(1) by (simp_all add: manager_ok_def wired_ok wired_credentials)
  note p = pickSingle_spec [OF ok(1) wired_fallback_ok run refl]
  have "serves U req [to_lower (trim_space provider)] a" if "r0 = Inr a" for a
    using p(2) that request_candidate_serves [OF ok(1) _ _ _ ok(2), of _ "to_lower (trim_space provider)"] by auto
  moreover have "credentials s' = credentials ?s" using p(1) by (simp add: same_sched_def)
  ultimately show ?thesis using assms(1) ok(2) same_sched_ok [OF p(1)] by (cases r0) (simp_all add: manager_ok_def mg' r)
qed

lemma spec_upsert_dom: "dom (fold (\<lambda>a. spec_upsert digest models resolve (sel a) a) as M) \<subseteq> dom M \<union> {ID a | a. Some a \<in> set as}"
proof (induction as arbitrary: M)
  case (Cons a as)
  have "dom (spec_upsert digest models resolve (sel a) a M) \<subseteq> dom M \<union> {ID x | x. a = Some x}"
    by (auto simp: spec_upsert_def split: option.splits if_splits)
  from Cons.IH [of "spec_upsert digest models resolve (sel a) a M"] this
  have "dom (fold (\<lambda>a. spec_upsert digest models resolve (sel a) a) as (spec_upsert digest models resolve (sel a) a M)) \<subseteq>
      dom M \<union> {ID x | x. a = Some x} \<union> {ID x | x. Some x \<in> set as}" by blast
  then show ?case by (auto dest!: subsetD)
qed simp

lemma ids_known: "ids_ok m \<Longrightarrow> Some a \<in> snd ` set m \<Longrightarrow> ID a \<in> fst ` set m"
  by (force simp: ids_ok_def)

lemma syncScheduler_ok:
  assumes "manager_ok U su mg"
  shows "manager_ok U su (syncScheduler su now mg) \<and> mgAuths (syncScheduler su now mg) = mgAuths mg \<and>
    mgSelector (syncScheduler su now mg) = mgSelector mg"
proof -
  obtain s' env' where run: "schedulerRebuild (suDigest su) (suModels su) None now (map snd (mgAuths mg))
      (wiredScheduler su (mgScheduler mg)) (mgLimits mg) = (s', env')" by fastforce
  have ids: "ids_ok (mgAuths mg)" "fst ` set (mgAuths mg) \<subseteq> U" using assms by (simp_all add: manager_ok_def)
  note r = schedulerRebuild_ok [OF run ids_trimmed [OF ids(1)]]
  have "dom (credentials s') \<subseteq> {ID a | a. Some a \<in> set (map snd (mgAuths mg))}"
    unfolding r(2) by (rule order_trans [OF spec_upsert_dom]) simp
  also have "\<dots> \<subseteq> U" using ids_known [OF ids(1)] ids(2) by auto
  finally have "dom (credentials s') \<subseteq> U" .
  then show ?thesis using assms r(1) by (simp add: syncScheduler_def run manager_ok_def)
qed

text \<open>The executor keys a pick for a provider, or for several, is about.\<close>

definition pick_keys :: "string \<Rightarrow> string list \<Rightarrow> string list" where
  "pick_keys provider providers =
     (if to_lower (trim_space provider) = ''mixed'' then normalizeProviderKeys providers else [to_lower (trim_space provider)])"

lemma pickViaBuiltinScheduler_serves:
  assumes "manager_ok U su mg" "pickViaBuiltinScheduler su strategy provider providers model req clock mg = (r, mg')"
  shows "manager_ok U su mg' \<and> mgAuths mg' = mgAuths mg \<and> mgSelector mg' = mgSelector mg \<and>
    (\<forall>a. r = Inr a \<longrightarrow> serves U req (pick_keys provider providers) a)"
proof -
  define pick where "pick = (\<lambda>c. if to_lower (trim_space provider) = ''mixed''
      then schedulerMixed su strategy providers model req c
      else schedulerSingle su strategy (to_lower (trim_space provider)) model req c)"
  have step: "manager_ok U su m2 \<and> mgAuths m2 = mgAuths m1 \<and> mgSelector m2 = mgSelector m1 \<and>
      (\<forall>a key. r = Inr (a, key) \<longrightarrow> serves U req (pick_keys provider providers) a)"
    if "manager_ok U su m1" "pick c m1 = (r, m2)" for c m1 r m2
    using schedulerMixed_serves [OF that(1), of strategy providers model req c r m2]
      schedulerSingle_serves [OF that(1), of strategy "to_lower (trim_space provider)" model req c r m2] that(2)
    by (auto simp: pick_def pick_keys_def trim_space_lower split: if_splits)
  obtain r1 m1 where one: "pick (clock 1) mg = (r1, m1)" by fastforce
  have run: "(case (case r1 of Inr a \<Rightarrow> (Inr a, m1)
      | Inl e \<Rightarrow> if model \<noteq> '''' \<and> \<not> suNewCandidateMode su \<and> shouldRetrySchedulerPick e
                 then pick (clock 3) (syncScheduler su (clock 2 0) m1) else (Inl e, m1)) of
      (r, mg) \<Rightarrow> (map_sum id fst r, mg)) = (r, mg')"
    using assms(2) one unfolding pickViaBuiltinScheduler_def Let_def pick_def
    by (cases "to_lower (trim_space provider) = ''mixed''") (simp_all cong: if_cong sum.case_cong)
  note s1 = step [OF assms(1) one]
  show ?thesis
  proof (cases r1)
    case (Inr p)
    then show ?thesis using run s1 by (cases p) auto
  next
    case (Inl e)
    obtain r2 m2 where two: "pick (clock 3) (syncScheduler su (clock 2 0) m1) = (r2, m2)" by fastforce
    note s2 = step [OF _ two] and sync = syncScheduler_ok [of U su m1 "clock 2 0"]
    show ?thesis using run s1 s2 sync by (cases r2) (auto simp: Inl two split: if_splits)
  qed
qed

lemma pickViaPluginScheduler_serves:
  assumes "manager_ok U su mg" "pickViaPluginScheduler su provider providers model req auths clock mg = (d, mg')"
  shows "manager_ok U su mg' \<and> mgAuths mg' = mgAuths mg \<and> mgSelector mg' = mgSelector mg \<and>
    (\<forall>a. d = Some (Inr a) \<longrightarrow> a \<in> set auths \<or> serves U req (pick_keys provider providers) a)"
proof -
  let ?key = "to_lower (trim_space provider)"
  have keys: "pick_keys ?key providers = pick_keys provider providers" by (simp add: pick_keys_def trim_space_lower)
  note run = assms(2) [unfolded pickViaPluginScheduler_def Let_def]
  consider "d = None" "mg' = mg" | e where "d = Some (Inl e)" "mg' = mg"
    | a where "d = Some (Inr a)" "mg' = mg" "a \<in> set auths"
    | strategy r where "pickViaBuiltinScheduler su strategy ?key providers model req clock mg = (r, mg')" "d = Some r"
    using run by (auto simp: pickSchedulerAuthByID_def dest: find_in
        split: option.splits plugin_answer.splits if_splits prod.splits)
  then show ?thesis
  proof cases
    case (4 strategy r)
    from pickViaBuiltinScheduler_serves [OF assms(1) this(1)] 4(2) show ?thesis by (simp add: keys)
  qed (use assms(1) in simp_all)
qed

section \<open>The selector's picks\<close>

lemma selectorPick_serves:
  assumes "manager_ok U su mg" "\<not> isBuiltInSelector (mgSelector mg) \<Longrightarrow> distinct (map ID auths)" "clock_ok now"
  shows "delivers U su mg (\<lambda>a. \<exists>c \<in> set auths. prepared c a) (selectorPick req provider model stateModel auths now mg)"
proof (cases "mgSelector mg")
  case (BuiltinSelector f)
  define preq where "preq = \<lparr>reqProvider = provider, reqModel = model, reqNow = now,
      reqDownstreamWebsocket = ctxDownstreamWebsocket (srSched req), reqStream = optStream (srSched req), reqStateModel = stateModel\<rparr>"
  obtain r f' env' where run: "fallbackPick preq auths f (mgLimits mg) = (r, f', env')" by (metis prod.collapse)
  then show ?thesis using assms(1) fallback_from [of preq auths f "mgLimits mg"] preparedI(1)
    by (auto simp: selectorPick_def BuiltinSelector Let_def preq_def delivers_def manager_ok_def)
next
  case (AffinitySelector s)
  define p where "p = \<lparr>apPick = \<lparr>reqProvider = provider, reqModel = model, reqNow = now,
      reqDownstreamWebsocket = ctxDownstreamWebsocket (srSched req), reqStream = optStream (srSched req), reqStateModel = stateModel\<rparr>,
      apMetadata = optMetadata (srSched req), apPrimaryID = srPrimaryID req, apFallbackID = srFallbackID req\<rparr>"
  have "affinity_ok s" "distinct (map ID auths)" "clock_ok (reqNow (apPick p))"
    using assms by (simp_all add: manager_ok_def AffinitySelector isBuiltInSelector_def p_def)
  from affinity_pick_serves [OF this, of "mgLimits mg"] obtain r route s' env' where
    run: "AffinityPick p (map Some auths) s (mgLimits mg) = Some ((r, route), s', env')" and ok: "affinity_ok s'"
    and a: "\<forall>a. r = Inr a \<longrightarrow> a \<in> servable p (mgLimits mg) (weighed s auths)" by (auto simp: picks_def)
  have "\<exists>c \<in> set auths. prepared c a" if r: "r = Inr a" for a
  proof -
    obtain b where "b \<in> set (weighed s auths)" "a = b \<or> a = bypassing b" using a r by (auto simp: servable_def)
    moreover from this have "b \<in> set auths" by (auto simp: weighed_def split: fallback_selector.splits)
    ultimately show ?thesis using preparedI by blast
  qed
  then show ?thesis using assms(1) run ok
    by (auto simp: selectorPick_def AffinitySelector Let_def p_def delivers_def manager_ok_def)
qed

section \<open>Picks over the table\<close>

lemma serves_mono: "serves U req keys a \<Longrightarrow> set keys \<subseteq> set keys' \<Longrightarrow> serves U req keys' a"
  by (auto simp: serves_def may_serve_def)

lemma legacyCandidates_serve:
  assumes "ids_ok m" "\<And>k. wanted k \<Longrightarrow> k \<in> set keys" "fst ` set m \<subseteq> U"
  shows "\<forall>c \<in> set (legacyCandidates su wanted model req m). serves U req keys c"
    "distinct (map ID (legacyCandidates su wanted model req m))"
proof -
  have "ID a \<in> U" if "a \<in> set (List.map_filter snd m)" for a
  proof -
    have "Some a \<in> snd ` set m" using that by (force simp: List.map_filter_def)
    then show ?thesis using ids_known [OF assms(1)] assms(3) by blast
  qed
  then show "\<forall>c \<in> set (legacyCandidates su wanted model req m). serves U req keys c"
    using assms(2) by (auto simp: legacyCandidates_def serves_def may_serve_def Let_def)
  show "distinct (map ID (legacyCandidates su wanted model req m))"
    using ids_distinct [OF assms(1)] by (simp add: legacyCandidates_def Let_def distinct_map_filter)
qed

lemma selector_turn:
  assumes "manager_ok U su mg" "\<forall>c \<in> set cands. serves U (srSched req) keys c" "distinct (map ID cands)"
    and "availableAuthsForSelector su (mgSelector mg) cands provider model now0 (mgLimits mg) = (Inr (av, sa), env')"
    and "clock_ok now"
  shows "\<forall>a \<in> set av. serves U (srSched req) keys a"
    "mgSelector mg' = mgSelector mg \<Longrightarrow> mgAuths mg' = mgAuths mg \<Longrightarrow> manager_ok U su mg' \<Longrightarrow>
      delivers U su mg (serves U (srSched req) keys) (selectorPick req provider arg stateModel sa now mg')"
proof -
  note l = selector_lists [OF assms(4)]
  show "\<forall>a \<in> set av. serves U (srSched req) keys a" using from_may_serve [OF l(1) assms(2)] by blast
  have sa: "serves U (srSched req) keys a" if "\<exists>c \<in> set sa. prepared c a" for a
    using that from_may_serve [OF l(2) assms(2)] serves_prepared by blast
  assume same: "mgSelector mg' = mgSelector mg" "mgAuths mg' = mgAuths mg" "manager_ok U su mg'"
  have "delivers U su mg' (serves U (srSched req) keys) (selectorPick req provider arg stateModel sa now mg')"
    by (rule delivers_weaken [OF selectorPick_serves [OF same(3) _ assms(5)] sa]) (use same(1) assms(3) l(3) in simp)
  then show "delivers U su mg (serves U (srSched req) keys) (selectorPick req provider arg stateModel sa now mg')"
    by (simp add: delivers_def same(2))
qed

lemma legacyPick_serves:
  assumes "manager_ok U su mg" "\<forall>c \<in> set cands. serves U (srSched req) keys c" "distinct (map ID cands)"
    and "availableAuthsForSelector su (mgSelector mg) cands provider model now0 (mgLimits mg) = (Inr (av, sa), env')"
    and "set (pick_keys provider providers) \<subseteq> set keys" "clock_ok (clock 4 0)"
  shows "\<exists>byPlugin r mg'. legacyPick su provider providers model req av sa clock (mg\<lparr>mgLimits := env'\<rparr>) =
      Some ((byPlugin, r), mg') \<and> manager_ok U su mg' \<and> mgAuths mg' = mgAuths mg \<and>
      (\<forall>a. r = Inr a \<longrightarrow> serves U (srSched req) keys a)"
proof -
  let ?mg = "mg\<lparr>mgLimits := env'\<rparr>"
  have ok: "manager_ok U su ?mg" using assms(1) by (simp add: manager_ok_def)
  obtain d mg1 where plug: "pickViaPluginScheduler su provider providers model (srSched req) av clock ?mg = (d, mg1)" by fastforce
  note p = pickViaPluginScheduler_serves [OF ok plug] and turn = selector_turn [OF assms(1-4,6)]
  show ?thesis
  proof (cases d)
    case (Some r)
    then show ?thesis using p plug turn(1) serves_mono [OF _ assms(5)] by (auto simp: legacyPick_def)
  next
    case None
    have "mgSelector mg1 = mgSelector mg" "mgAuths mg1 = mgAuths mg" "manager_ok U su mg1" using p by simp_all
    from turn(2) [OF this, of "selectionArgForSelector (mgSelector mg) model" "withWeightedSelectorStateModel (mgSelector mg) model"]
    obtain r mg2 where "selectorPick req provider (selectionArgForSelector (mgSelector mg) model)
        (withWeightedSelectorStateModel (mgSelector mg) model) sa (clock 4 0) mg1 = Some (r, mg2)"
      "manager_ok U su mg2" "mgAuths mg2 = mgAuths mg" "\<forall>a. r = Inr a \<longrightarrow> serves U (srSched req) keys a"
      by (auto simp: delivers_def)
    then show ?thesis using plug by (cases r) (auto simp: legacyPick_def None Let_def)
  qed
qed

lemma pick_keys_single: "pick_keys provider [provider] = [to_lower (trim_space provider)]"
  by (simp add: pick_keys_def normalizeProviderKeys_def)

lemma pick_keys_mixed: "pick_keys ''mixed'' providers = normalizeProviderKeys providers"
proof -
  have "to_lower (trim_space ''mixed'') = ''mixed''" by code_simp
  then show ?thesis by (simp add: pick_keys_def)
qed

lemma pickNextLegacy_serves:
  assumes "manager_ok U su mg" "clock_ok (clock 4 0)"
  shows "delivers U su mg (serves U (srSched req) [provider, to_lower (trim_space provider)])
    (pickNextLegacy su provider model req clock mg)"
proof -
  let ?keys = "[provider, to_lower (trim_space provider)]"
  define cands where "cands = legacyCandidates su (\<lambda>k. k = provider) model (srSched req) (mgAuths mg)"
  have ids: "ids_ok (mgAuths mg)" "fst ` set (mgAuths mg) \<subseteq> U" using assms(1) by (simp_all add: manager_ok_def)
  have "k = provider \<Longrightarrow> k \<in> set ?keys" for k by simp
  note c = legacyCandidates_serve [where wanted = "\<lambda>k. k = provider" and model = model and su = su and req = "srSched req",
      OF ids(1) this ids(2), folded cands_def]
  obtain r env' where r: "availableAuthsForSelector su (mgSelector mg) cands provider model (clock 0 0) (mgLimits mg) = (r, env')"
    by fastforce
  note unf = pickNextLegacy_def cands_def [symmetric] Let_def
  show ?thesis
  proof (cases "provider \<notin> set (suExecutors su) \<or> cands = []")
    case True
    then show ?thesis using assms(1) by (auto simp: unf)
  next
    case False
    show ?thesis
    proof (cases r)
      case (Inl e)
      then show ?thesis using False r assms(1) by (auto simp: unf delivers_def manager_ok_def)
    next
      case (Inr lists)
      obtain av sa where lists: "lists = (av, sa)" by fastforce
      obtain byPlugin q mg' where "legacyPick su provider [provider] model req av sa clock (mg\<lparr>mgLimits := env'\<rparr>) =
          Some ((byPlugin, q), mg')" "manager_ok U su mg'" "mgAuths mg' = mgAuths mg"
          "\<forall>a. q = Inr a \<longrightarrow> serves U (srSched req) ?keys a"
        using legacyPick_serves [OF assms(1) c r [unfolded Inr lists], of "[provider]" clock] assms(2)
        by (auto simp: pick_keys_single)
      then show ?thesis using False r by (auto simp: unf Inr lists delivers_def)
    qed
  qed
qed

lemma pickNextMixedLegacy_serves:
  assumes "manager_ok U su mg" "clock_ok (clock 4 0)"
  shows "delivers U su mg (\<lambda>(a, key). serves U (srSched req) (normalizeProviderKeys providers) a \<and>
      key = executorKeyFromAuth a \<and> hasExecutor su key) (pickNextMixedLegacy su providers model req clock mg)"
proof -
  let ?keys = "normalizeProviderKeys providers"
  let ?served = "\<lambda>k. k \<noteq> '''' \<and> k \<in> set ?keys \<and> k \<in> set (suExecutors su)"
  define cands where "cands = legacyCandidates su ?served model (srSched req) (mgAuths mg)"
  have ids: "ids_ok (mgAuths mg)" "fst ` set (mgAuths mg) \<subseteq> U" using assms(1) by (simp_all add: manager_ok_def)
  have "?served k \<Longrightarrow> k \<in> set ?keys" for k by simp
  note c = legacyCandidates_serve [where wanted = ?served and model = model and su = su and req = "srSched req",
      OF ids(1) this ids(2), folded cands_def]
  obtain r env' where r: "availableAuthsForSelector su (mgSelector mg) cands ''mixed'' model (clock 0 0) (mgLimits mg) = (r, env')"
    by fastforce
  note unf = pickNextMixedLegacy_def normalizeProviders_keys cands_def [symmetric] Let_def
  show ?thesis
  proof (cases "?keys = [] \<or> cands = []")
    case True
    then show ?thesis using assms(1) by (auto simp: unf)
  next
    case False
    show ?thesis
    proof (cases r)
      case (Inl e)
      then show ?thesis using False r assms(1) by (auto simp: unf delivers_def manager_ok_def)
    next
      case (Inr lists)
      obtain av sa where lists: "lists = (av, sa)" by fastforce
      obtain byPlugin q mg' where "legacyPick su ''mixed'' providers model req av sa clock (mg\<lparr>mgLimits := env'\<rparr>) =
          Some ((byPlugin, q), mg')" "manager_ok U su mg'" "mgAuths mg' = mgAuths mg"
          "\<forall>a. q = Inr a \<longrightarrow> serves U (srSched req) ?keys a"
        using legacyPick_serves [OF assms(1) c r [unfolded Inr lists], of providers clock] assms(2)
        by (auto simp: pick_keys_mixed)
      then show ?thesis using False r by (cases q) (auto simp: unf Inr lists delivers_def)
    qed
  qed
qed

section \<open>Picks over the index\<close>

lemma indexedCandidateList_ok:
  assumes "manager_ok U su mg" "indexedCandidateList su providers model now mg = (as, mg')"
  shows "manager_ok U su mg' \<and> mgAuths mg' = mgAuths mg \<and> mgSelector mg' = mgSelector mg"
    "distinct (map ID as)" "\<forall>a \<in> set as. executorKeyFromAuth a \<in> set (normalizeProviderKeys providers) \<and> ID a \<in> U"
proof -
  have ok: "sched_ok (suDigest su) (mgScheduler mg)" using assms(1) by (simp add: manager_ok_def)
  obtain s env where run: "snapshotCandidates (suDigest su) providers model now (mgScheduler mg) (mgLimits mg) = ((as, s), env)"
    and mg': "mg' = mg\<lparr>mgScheduler := s, mgLimits := env\<rparr>"
    using assms(2) by (auto simp: indexedCandidateList_def split: prod.splits)
  have "same_sched (suDigest su) (mgScheduler mg) s"
    using snapshotCandidates_same [OF ok, of providers model now "mgLimits mg"] by (simp add: run)
  then show "manager_ok U su mg' \<and> mgAuths mg' = mgAuths mg \<and> mgSelector mg' = mgSelector mg"
    using assms(1) same_sched_ok by (fastforce simp: mg' manager_ok_def same_sched_def)
  note c = snapshotCandidates_ok [OF ok run]
  from c(1) show "distinct (map ID as)" .
  have "dom (credentials (mgScheduler mg)) \<subseteq> U" using assms(1) by (simp add: manager_ok_def)
  then have "ID a \<in> U" if "a \<in> set as" for a
    using that c(2) credentials_meta(2) [OF ok] unfolding registered_def by blast
  then show "\<forall>a \<in> set as. executorKeyFromAuth a \<in> set (normalizeProviderKeys providers) \<and> ID a \<in> U"
    using c(2) registered_key [OF ok] by blast
qed

lemma indexedCandidates_serve:
  assumes "manager_ok U su mg" "indexedCandidates su providers model req now mg = (as, mg')"
  shows "manager_ok U su mg' \<and> mgAuths mg' = mgAuths mg \<and> mgSelector mg' = mgSelector mg"
    "distinct (map ID as)" "\<forall>a \<in> set as. serves U req (normalizeProviderKeys providers) a"
proof -
  obtain l mg1 where l: "indexedCandidateList su providers model now mg = (l, mg1)" by fastforce
  note c = indexedCandidateList_ok [OF assms(1) l]
  have run: "mg' = mg1" "as = filter (\<lambda>a. \<not> Disabled a \<and> eligibilityAllows (request_eligibility req) a \<and>
      (pinnedAuthIDFromMetadata (optMetadata req) = '''' \<or> ID a = pinnedAuthIDFromMetadata (optMetadata req)) \<and>
      ID a \<notin> set (triedAuths req)) l"
    using assms(2) by (auto simp: indexedCandidates_def l Let_def)
  show "manager_ok U su mg' \<and> mgAuths mg' = mgAuths mg \<and> mgSelector mg' = mgSelector mg" using c(1) run(1) by simp
  show "distinct (map ID as)" using c(2) run(2) by (simp add: distinct_map_filter)
  show "\<forall>a \<in> set as. serves U req (normalizeProviderKeys providers) a" using c(3) run(2) by (auto simp: serves_def may_serve_def)
qed

lemma restriction_ok:
  assumes "manager_ok U su mg" "indexedCodexClientRestrictionError su providers model req now mg = (r, mg')"
  shows "manager_ok U su mg' \<and> mgAuths mg' = mgAuths mg"
proof -
  obtain l mg1 where l: "indexedCandidateList su providers model now mg = (l, mg1)" by fastforce
  from indexedCandidateList_ok(1) [OF assms(1) l] assms l show ?thesis
    by (auto simp: indexedCodexClientRestrictionError_def split: if_splits)
qed

lemma indexedPick_serves:
  assumes "manager_ok U su mg" "clock_ok (clock 4 0)"
    and own: "\<And>m. manager_ok U su m \<Longrightarrow> case own m of (r, m') \<Rightarrow> manager_ok U su m' \<and> mgAuths m' = mgAuths m \<and>
        (\<forall>a key. r = Inr (a, key) \<longrightarrow> serves U (srSched req) keys a \<and> (tagged \<longrightarrow> key = executorKeyFromAuth a))"
    and keys: "set (pick_keys provider providers) \<subseteq> set keys" "set (normalizeProviderKeys providers) \<subseteq> set keys"
  shows "delivers U su mg (\<lambda>(a, key). serves U (srSched req) keys a \<and> (tagged \<longrightarrow> key = executorKeyFromAuth a))
    (indexedPick own su provider providers model req clock mg)" (is "delivers U su mg ?P _")
proof -
  have own': "delivers U su mg ?P (Some (own m))" if "manager_ok U su m" "mgAuths m = mgAuths mg" for m
    using own [OF that(1)] that by (auto simp: delivers_def split: prod.splits)
  let ?sel = "mgSelector mg" and ?keyed = "map_sum id (\<lambda>a. (a, executorKeyFromAuth a)) :: select_error + Auth \<Rightarrow> select_error + Auth \<times> string"
  obtain as mg1 where cands: "indexedCandidates su providers model (srSched req) (clock 6 0) mg = (as, mg1)" by fastforce
  note c = indexedCandidates_serve [OF assms(1) cands]
  have mg1: "manager_ok U su mg1" "mgAuths mg1 = mgAuths mg" "mgSelector mg1 = ?sel" using c(1) by simp_all
  have serve: "\<forall>a \<in> set as. serves U (srSched req) keys a" using c(3) serves_mono [OF _ keys(2)] by blast
  obtain r env' where av: "availableAuthsForSelector su ?sel as provider model (clock 0 0) (mgLimits mg1) = (r, env')" by fastforce
  show ?thesis
  proof (cases "suPlugin su = None \<and> isBuiltInSelector ?sel")
    case True
    then show ?thesis using own' [OF assms(1)] by (simp add: indexedPick_def)
  next
    case no_own: False
    show ?thesis
    proof (cases r)
      case (Inl e)
      then show ?thesis using no_own cands av mg1 by (auto simp: indexedPick_def Let_def delivers_def manager_ok_def)
    next
      case (Inr lists)
      obtain al sa where lists: "lists = (al, sa)" by fastforce
      let ?mg1 = "mg1\<lparr>mgLimits := env'\<rparr>"
      have ok: "manager_ok U su ?mg1" using mg1(1) by (simp add: manager_ok_def)
      obtain d mg2 where plug: "pickViaPluginScheduler su provider providers model (srSched req) al clock ?mg1 = (d, mg2)" by fastforce
      note p = pickViaPluginScheduler_serves [OF ok plug]
      note turn = selector_turn [OF mg1(1) serve c(2) av [folded mg1(3), unfolded Inr lists] assms(2)]
      have run: "indexedPick own su provider providers model req clock mg =
          (case d of Some r \<Rightarrow> Some (?keyed r, mg2)
           | None \<Rightarrow> if isBuiltInSelector ?sel then Some (own mg2)
                     else map_option (\<lambda>(r, mg). (?keyed r, mg)) (selectorPick req provider model '''' sa (clock 4 0) mg2))"
        by (simp only: indexedPick_def Let_def if_not_P [OF no_own] cands prod.case av Inr lists sum.case plug)
      show ?thesis
      proof (cases d)
        case (Some q)
        then show ?thesis using p turn(1) serves_mono [OF _ keys(1)] mg1
          by (cases q) (auto simp: run delivers_def)
      next
        case None
        have mg2: "mgSelector mg2 = mgSelector mg1" "mgAuths mg2 = mgAuths mg1" "manager_ok U su mg2" using p by simp_all
        show ?thesis
        proof (cases "isBuiltInSelector ?sel")
          case True
          then show ?thesis using own' [OF mg2(3)] mg2(2) mg1(2) by (simp add: run None)
        next
          case False
          from turn(2) [OF mg2, of model "''''"] obtain q mg3 where
            "selectorPick req provider model '''' sa (clock 4 0) mg2 = Some (q, mg3)" "manager_ok U su mg3"
            "mgAuths mg3 = mgAuths mg1" "\<forall>a. q = Inr a \<longrightarrow> serves U (srSched req) keys a" by (auto simp: delivers_def)
          then show ?thesis using False mg1(2) by (cases q) (simp_all add: run None delivers_def)
        qed
      qed
    qed
  qed
qed

lemma pick_keys_only: "set (normalizeProviderKeys [provider]) \<subseteq> {to_lower (trim_space provider)}"
  by (simp add: normalizeProviderKeys_def)

lemma pickNextIndexed_serves:
  assumes "manager_ok U su mg" "clock_ok (clock 4 0)"
  shows "delivers U su mg (serves U (srSched req) [to_lower (trim_space provider)])
    (pickNextIndexed su provider [provider] model req clock mg)"
proof -
  let ?keys = "[to_lower (trim_space provider)]"
  let ?own = "schedulerSingle su schedulerStrategyCurrent provider model (srSched req) (clock 5)"
  have own: "case ?own m of (r, m') \<Rightarrow> manager_ok U su m' \<and> mgAuths m' = mgAuths m \<and>
        (\<forall>a key. r = Inr (a, key) \<longrightarrow> serves U (srSched req) ?keys a \<and> (False \<longrightarrow> key = executorKeyFromAuth a))"
    if "manager_ok U su m" for m
    using schedulerSingle_serves [OF that, of schedulerStrategyCurrent provider model "srSched req" "clock 5"] by (cases "?own m") auto
  have "delivers U su mg (\<lambda>(a, key). serves U (srSched req) ?keys a \<and> (False \<longrightarrow> key = executorKeyFromAuth a))
      (indexedPick ?own su provider [provider] model req clock mg)"
    by (rule indexedPick_serves [where tagged = False and own = ?own and clock = clock and keys = ?keys and req = req, OF assms own]) (use pick_keys_only in \<open>simp_all add: pick_keys_single\<close>)
  then obtain r mg' where "indexedPick ?own su provider [provider] model req clock mg = Some (r, mg')" "manager_ok U su mg'"
    "mgAuths mg' = mgAuths mg" "\<forall>a key. r = Inr (a, key) \<longrightarrow> serves U (srSched req) ?keys a"
    by (auto simp: delivers_def)
  then show ?thesis by (cases r) (auto simp: pickNextIndexed_def delivers_def)
qed

lemma pickNextMixedIndexed_serves:
  assumes "manager_ok U su mg" "clock_ok (clock 4 0)"
  shows "delivers U su mg (\<lambda>(a, key). serves U (srSched req) (normalizeProviderKeys providers) a \<and> key = executorKeyFromAuth a)
    (pickNextMixedIndexed su providers model req clock mg)"
proof -
  let ?keys = "normalizeProviderKeys providers"
  let ?own = "schedulerMixed su schedulerStrategyCurrent providers model (srSched req) (clock 5)"
  have own: "case ?own m of (r, m') \<Rightarrow> manager_ok U su m' \<and> mgAuths m' = mgAuths m \<and>
        (\<forall>a key. r = Inr (a, key) \<longrightarrow> serves U (srSched req) ?keys a \<and> (True \<longrightarrow> key = executorKeyFromAuth a))"
    if "manager_ok U su m" for m
    using schedulerMixed_serves [OF that, of schedulerStrategyCurrent providers model "srSched req" "clock 5"] by (cases "?own m") simp
  have "delivers U su mg (\<lambda>(a, key). serves U (srSched req) ?keys a \<and> (True \<longrightarrow> key = executorKeyFromAuth a))
      (indexedPick ?own su ''mixed'' providers model req clock mg)"
    by (rule indexedPick_serves [where tagged = True and own = ?own and clock = clock and keys = ?keys and req = req, OF assms own]) (simp_all add: pick_keys_mixed)
  then show ?thesis by (simp add: pickNextMixedIndexed_def)
qed

lemma restricted_delivers:
  assumes "delivers U su mg P result" "\<And>x. P x \<Longrightarrow> Q x \<or> reject x"
  shows "delivers U su mg Q (map_option (\<lambda>(r, m). case r of
      Inr x \<Rightarrow> if reject x then (Inl rejected, m) else (Inr x, m)
    | Inl e \<Rightarrow> let (restriction, m) = indexedCodexClientRestrictionError su providers model req now m
              in (Inl (case restriction of Some e' \<Rightarrow> e' | None \<Rightarrow> e), m)) result)"
proof -
  obtain r m where r: "result = Some (r, m)" "manager_ok U su m" "mgAuths m = mgAuths mg" "\<forall>x. r = Inr x \<longrightarrow> P x"
    using assms(1) by (auto simp: delivers_def)
  show ?thesis
  proof (cases r)
    case (Inl e)
    obtain d m' where "indexedCodexClientRestrictionError su providers model req now m = (d, m')" by fastforce
    from restriction_ok [OF r(2) this] this show ?thesis using r(3) by (simp add: delivers_def r(1) Inl)
  next
    case (Inr x)
    then show ?thesis using r assms(2) [of x] by (auto simp: delivers_def)
  qed
qed

lemma normalize_again: "set ps \<subseteq> set (normalizeProviderKeys providers) \<Longrightarrow>
    set (normalizeProviderKeys ps) \<subseteq> set (normalizeProviderKeys providers)"
proof -
  assume ps: "set ps \<subseteq> set (normalizeProviderKeys providers)"
  have "set (fold (\<lambda>provider out. let key = to_lower (trim_space provider)
        in if key = '''' \<or> key \<in> set out then out else out @ [key]) qs out) \<subseteq> set out \<union> (\<lambda>p. to_lower (trim_space p)) ` set qs" for qs out
    by (induction qs arbitrary: out) (fastforce simp: Let_def split: if_splits)+
  from this [of ps "[]"] have "set (normalizeProviderKeys ps) \<subseteq> (\<lambda>p. to_lower (trim_space p)) ` set ps"
    by (simp add: normalizeProviderKeys_def)
  also have "\<dots> = set ps" using ps to_lower_trim_normalized by (force simp: image_iff)
  finally show ?thesis using ps by blast
qed

lemma pickNextMixed_serves:
  assumes "manager_ok U su mg" "clock_ok (clock 4 0)"
  shows "delivers U su mg (\<lambda>(a, key). serves U (srSched (withPolicy su req)) (normalizeProviderKeys providers) a \<and>
      key = executorKeyFromAuth a \<and> hasExecutor su key) (pickNextMixed su providers model req clock mg)"
proof -
  let ?req = "withPolicy su req" and ?ps = "filter (hasExecutor su) (normalizeProviderKeys providers)"
  show ?thesis
  proof (cases "\<not> suNewCandidateMode su \<and> \<not> accountGroupPolicyActive (optMetadata (srSched ?req))")
    case True
    then show ?thesis using pickNextMixedLegacy_serves [where clock = clock, OF assms] by (simp add: pickNextMixed_def Let_def)
  next
    case indexed: False
    show ?thesis
    proof (cases "?ps = []")
      case True
      then show ?thesis using indexed assms(1)
        by (auto simp: pickNextMixed_def Let_def normalizeProviders_keys simp del: filter_empty_conv)
    next
      case False
      have "delivers U su mg (\<lambda>(a, key). serves U (srSched ?req) (normalizeProviderKeys ?ps) a \<and> key = executorKeyFromAuth a)
          (pickNextMixedIndexed su ?ps model ?req clock mg)" by (rule pickNextMixedIndexed_serves [where clock = clock, OF assms])
      note d = restricted_delivers [where Q = "\<lambda>(a, key). serves U (srSched ?req) (normalizeProviderKeys providers) a \<and>
            key = executorKeyFromAuth a \<and> hasExecutor su key" and reject = "\<lambda>(a, key). \<not> hasExecutor su key" and
            rejected = executorNotFound and providers = ?ps and model = model and req = "srSched ?req" and now = "clock 7 0", OF this]
      have "(pickNextMixed su providers model req clock mg) = map_option (\<lambda>(r, m). case r of
          Inr x \<Rightarrow> if (case x of (a, key) \<Rightarrow> \<not> hasExecutor su key) then (Inl executorNotFound, m) else (Inr x, m)
        | Inl e \<Rightarrow> let (restriction, m) = indexedCodexClientRestrictionError su ?ps model (srSched ?req) (clock 7 0) m
              in (Inl (case restriction of Some e' \<Rightarrow> e' | None \<Rightarrow> e), m)) (pickNextMixedIndexed su ?ps model ?req clock mg)"
        unfolding pickNextMixed_def Let_def normalizeProviders_keys if_not_P [OF indexed] if_not_P [OF False]
        by (intro arg_cong2 [where f = map_option] refl ext) (simp split: prod.split sum.split)
      moreover have "serves U (srSched ?req) (normalizeProviderKeys providers) a"
        if "serves U (srSched ?req) (normalizeProviderKeys ?ps) a" for a
        by (rule serves_mono [OF that normalize_again]) auto
      ultimately show ?thesis using d by auto
    qed
  qed
qed

section \<open>The pick\<close>

text \<open>
  C5 (a pick of the manager serves the request). Over several providers, whatever the selector, the
  plugin and the clock, a pick returns: an error, or a credential together with its executor's key, which
  has a registered executor and belongs to one of the providers. The credential is one that the
  request's kind, policy, account groups and client restrictions admit, that was not tried before, and
  the pinned one if one is pinned. The pick leaves the table alone and keeps scheduler and selector consistent.
\<close>

theorem manager_pick_serves:
  assumes "manager_ok U su mg" "clock_ok (clock 4 0)"
  shows "\<exists>r mg'. pickNextMixed su providers model req clock mg = Some (r, mg') \<and>
    manager_ok U su mg' \<and> mgAuths mg' = mgAuths mg \<and>
    (\<forall>a key. r = Inr (a, key) \<longrightarrow> serves U (srSched (withPolicy su req)) (normalizeProviders providers) a \<and>
       key = executorKeyFromAuth a \<and> hasExecutor su key)"
  using pickNextMixed_serves [where clock = clock, OF assms, of req providers model]
  by (fastforce simp: delivers_def normalizeProviders_keys)

definition examplePicker :: manager_state where
  "examplePicker = \<lparr>mgAuths = [(''b'', Some (exampleAuth ''b'' [])), (''a'', Some (exampleAuth ''a'' []))],
     mgLimits = (\<lambda>_. newRuntimeLimits), mgSelector = BuiltinSelector FallbackFillFirst,
     mgScheduler = newAuthScheduler NoSelector\<rparr>"

definition exampleSelection :: selection_request where
  "exampleSelection = \<lparr>srSched = exampleRequest\<lparr>triedAuths := [''a'']\<rparr>, srPrimaryID = '''', srFallbackID = ''''\<rparr>"

lemma examplePicker_ok: "manager_ok {''a'', ''b''} exampleSetup examplePicker"
proof -
  have "trim_space ''a'' = ''a''" "trim_space ''b'' = ''b''" by code_simp+
  moreover have "credentials (newAuthScheduler NoSelector) = (\<lambda>_. None)"
    by (rule ext) (simp add: credentials_def newAuthScheduler_def)
  ultimately show ?thesis
    by (simp add: manager_ok_def examplePicker_def ids_ok_def exampleAuth_def gomap_ok_def sched_ok_new)
qed

lemma example_pick:
  "map_option (\<lambda>(r, mg). map_sum id (\<lambda>(a, k). (ID a, k)) r)
     (pickNextMixed exampleSetup [''Codex''] '''' exampleSelection (\<lambda>_ _. unix_epoch) examplePicker) = Some (Inr (''b'', ''codex''))"
  by code_simp

lemma manager_pick_serves_witness:
  "\<exists>a mg'. pickNextMixed exampleSetup [''Codex''] '''' exampleSelection (\<lambda>_ _. unix_epoch) examplePicker =
       Some (Inr (a, ''codex''), mg') \<and> ID a = ''b'' \<and> manager_ok {''a'', ''b''} exampleSetup mg' \<and>
     serves {''a'', ''b''} (srSched (withPolicy exampleSetup exampleSelection)) (normalizeProviders [''Codex'']) a"
proof -
  have "clock_ok unix_epoch" by (simp add: clock_ok_def)
  then obtain r mg' where run: "pickNextMixed exampleSetup [''Codex''] '''' exampleSelection (\<lambda>_ _. unix_epoch) examplePicker = Some (r, mg')"
    and m: "manager_ok {''a'', ''b''} exampleSetup mg'" and a: "\<forall>a key. r = Inr (a, key) \<longrightarrow>
      serves {''a'', ''b''} (srSched (withPolicy exampleSetup exampleSelection)) (normalizeProviders [''Codex'']) a"
    using manager_pick_serves [of "{''a'', ''b''}" exampleSetup examplePicker "\<lambda>_ _. unix_epoch" "[''Codex'']" "''''" exampleSelection] examplePicker_ok
    by blast
  obtain b where "r = Inr (b, ''codex'')" "ID b = ''b''"
    using example_pick [unfolded run] by (cases r) auto
  then show ?thesis using run m a by auto
qed

end
