(* ===== verification/RetryPolicy.thy ===== *)
theory RetryPolicy
  imports Candidates
begin

text \<open>
  Whether a request that failed is tried again, and after which wait: the retry functions of
  \<open>sdk/cliproxy/auth/conductor_selection.go\<close>, with the error as far as the code reads it and the
  credential's own retry limit (\<open>types.go\<close>).

  An error of an executor is an interface in the code, read through \<open>errors.As\<close>; \<open>exec_error\<close> holds what the
  readings give. \<open>eeFailure\<close> is what \<open>resultErrorFromError\<close> makes of it.
\<close>

record exec_error =
  eeFailure :: failure
  eeStatus :: int
  eeRetryAfter :: "duration option"
  eeInvalid :: bool
  eeScoped :: bool
  eeUnauthorized :: bool
  eeCanceled :: bool
  eeTerminated :: bool
  eeHomeBusy :: bool
  eeEndpointNotFound :: bool

datatype exec_failure = SelectFailed select_error | ExecFailed exec_error

text \<open>
  The readings of an error of the selection: only the client restriction and the cooldown have a status,
  none announces a wait, and the texts the selection gives to its errors are no request faults.
\<close>

definition failureStatus :: "exec_failure \<Rightarrow> int" where
  "failureStatus e =
     (case e of
        ExecFailed x \<Rightarrow> eeStatus x
      | SelectFailed (ModelCooldown _ _ _) \<Rightarrow> 429
      | SelectFailed (SelectorError code _) \<Rightarrow> if code = ''codex_client_restricted'' then 403 else 0)"

definition failureRead :: "(exec_error \<Rightarrow> bool) \<Rightarrow> exec_failure \<Rightarrow> bool" where
  "failureRead reading e = (case e of ExecFailed x \<Rightarrow> reading x | SelectFailed _ \<Rightarrow> False)"

definition RequestRetryOverride :: "Auth \<Rightarrow> int option" where
  "RequestRetryOverride a =
     (let read = (\<lambda>key. case glookup (Metadata a) key of
                         None \<Rightarrow> None
                       | Some v \<Rightarrow> map_option (\<lambda>n. if n < 0 then 0 else n) (parseIntAny v))
      in case read ''request_retry'' of Some n \<Rightarrow> Some n | None \<Rightarrow> read ''request-retry'')"

definition effectiveRetry :: "int \<Rightarrow> Auth \<Rightarrow> int" where
  "effectiveRetry requestRetry a =
     (let defaultRetry = (if requestRetry < 0 then 0 else requestRetry);
          n = (case RequestRetryOverride a of Some n \<Rightarrow> n | None \<Rightarrow> defaultRetry)
      in if n < 0 then 0 else n)"

text \<open>A credential of one of the providers that has attempts left.\<close>

definition mayRetry :: "int \<Rightarrow> int \<Rightarrow> string list \<Rightarrow> Auth \<Rightarrow> bool" where
  "mayRetry requestRetry attempt providerSet a \<longleftrightarrow>
     executorKeyFromAuth a \<in> set providerSet \<and> attempt < effectiveRetry requestRetry a"

text \<open>The walk over the credentials, with the least wait so far.\<close>

fun closestLoop ::
  "selection_setup \<Rightarrow> int \<Rightarrow> string list \<Rightarrow> string \<Rightarrow> int \<Rightarrow> gotime \<Rightarrow> Auth list \<Rightarrow> duration option \<Rightarrow> limits_env \<Rightarrow>
     duration option \<times> limits_env" where
  "closestLoop su requestRetry providerSet model attempt now [] found env = (found, env)"
| "closestLoop su requestRetry providerSet model attempt now (a # rest) found env =
     (if \<not> mayRetry requestRetry attempt providerSet a
      then closestLoop su requestRetry providerSet model attempt now rest found env
      else let checkModel = (if trim_space model \<noteq> '''' then suResolve su a model else model);
               ((blocked, reason, upcoming), env) = isAuthBlockedForModel (Some a) checkModel now env;
               wait = time_sub upcoming now
           in closestLoop su requestRetry providerSet model attempt now rest
                (if \<not> blocked \<or> upcoming = zeroTime \<or> reason = blockReasonDisabled \<or> wait < 0 then found
                 else case found of None \<Rightarrow> Some wait | Some w \<Rightarrow> Some (if wait < w then wait else w)) env)"

definition closestCooldownWait ::
  "selection_setup \<Rightarrow> int \<Rightarrow> string list \<Rightarrow> string \<Rightarrow> int \<Rightarrow> gotime \<Rightarrow> auth_table \<Rightarrow> limits_env \<Rightarrow>
     duration option \<times> limits_env" where
  "closestCooldownWait su requestRetry providers model attempt now auths env =
     (if providers = [] then (None, env)
      else closestLoop su requestRetry (normalizeProviders providers) model attempt now
             (List.map_filter snd auths) None env)"

definition retryAllowed :: "int \<Rightarrow> int \<Rightarrow> string list \<Rightarrow> auth_table \<Rightarrow> bool" where
  "retryAllowed requestRetry attempt providers auths \<longleftrightarrow>
     0 \<le> attempt \<and> normalizeProviders providers \<noteq> [] \<and>
     list_ex (mayRetry requestRetry attempt (normalizeProviders providers)) (List.map_filter snd auths)"

text \<open>\<open>None\<close>: no retry.\<close>

definition shouldRetryAfterError ::
  "selection_setup \<Rightarrow> int \<Rightarrow> exec_failure \<Rightarrow> int \<Rightarrow> string list \<Rightarrow> string \<Rightarrow> duration \<Rightarrow> gotime \<Rightarrow> auth_table \<Rightarrow>
     limits_env \<Rightarrow> duration option \<times> limits_env" where
  "shouldRetryAfterError su requestRetry e attempt providers model maxWait now auths env =
     (if failureRead eeHomeBusy e then (None, env)
      else if maxWait \<le> 0 then (None, env)
      else if failureStatus e = 200 then (None, env)
      else if failureRead eeInvalid e then (None, env)
      else case closestCooldownWait su requestRetry providers model attempt now auths env of
             (Some wait, env) \<Rightarrow> (if wait > maxWait then None else Some wait, env)
           | (None, env) \<Rightarrow>
               if failureStatus e \<noteq> 429 \<or> \<not> retryAllowed requestRetry attempt providers auths then (None, env)
               else case (case e of ExecFailed x \<Rightarrow> eeRetryAfter x | SelectFailed _ \<Rightarrow> None) of
                      None \<Rightarrow> (None, env)
                    | Some retryAfter \<Rightarrow>
                        (if retryAfter \<le> 0 \<or> retryAfter > maxWait then None else Some retryAfter, env))"

abbreviation cooldownWaitJitterCap :: duration where "cooldownWaitJitterCap \<equiv> 2 * second"

text \<open>\<open>random n\<close> is a draw of \<open>rand.N\<close>, from 0 up to and without \<open>n\<close>.\<close>

definition jitteredCooldownWait :: "(duration \<Rightarrow> duration) \<Rightarrow> duration \<Rightarrow> duration \<Rightarrow> duration" where
  "jitteredCooldownWait random wait maxWait =
     (if wait \<le> 0 then wait
      else let jitterRange = go_div wait 4;
               jitterRange = (if jitterRange > cooldownWaitJitterCap then cooldownWaitJitterCap else jitterRange);
               jitterRange = (if maxWait > 0 \<and> jitterRange > maxWait - wait then maxWait - wait else jitterRange)
           in if jitterRange \<le> 0 then wait else wait + random jitterRange)"

section \<open>Facts about the wait\<close>

lemma closestLoop_bounds:
  "closestLoop su rr ps model attempt now as found env = (r, env') \<Longrightarrow>
   (\<forall>w. found = Some w \<longrightarrow> 0 \<le> w \<and> (\<exists>a \<in> B. mayRetry rr attempt ps a)) \<Longrightarrow> set as \<subseteq> B \<Longrightarrow>
   r = Some w \<Longrightarrow> 0 \<le> w \<and> (\<exists>a \<in> B. mayRetry rr attempt ps a)"
proof (induction as arbitrary: found env)
  case (Cons a as)
  show ?case
  proof (cases "mayRetry rr attempt ps a")
    case False
    then have "closestLoop su rr ps model attempt now as found env = (r, env')" using Cons.prems(1) by simp
    from Cons.IH [OF this Cons.prems(2) _ Cons.prems(4)] Cons.prems(3) show ?thesis by simp
  next
    case True
    obtain b reason t env1 where bl: "isAuthBlockedForModel (Some a)
        (if trim_space model \<noteq> '''' then suResolve su a model else model) now env = ((b, reason, t), env1)"
      by (metis prod.collapse)
    let ?f = "if \<not> b \<or> t = zeroTime \<or> reason = blockReasonDisabled \<or> time_sub t now < 0 then found
                 else case found of None \<Rightarrow> Some (time_sub t now) | Some w \<Rightarrow> Some (if time_sub t now < w then time_sub t now else w)"
    have "closestLoop su rr ps model attempt now as ?f env1 = (r, env')"
      using Cons.prems(1) True bl by (simp add: Let_def)
    moreover have "\<forall>w. ?f = Some w \<longrightarrow> 0 \<le> w \<and> (\<exists>a \<in> B. mayRetry rr attempt ps a)"
      using Cons.prems(2,3) True by (auto split: option.splits if_splits)
    ultimately show ?thesis using Cons.IH [of ?f env1] Cons.prems(3,4) by simp
  qed
qed simp

lemma retry_granted:
  assumes "shouldRetryAfterError su rr e attempt providers model maxWait now auths env = (Some wait, env')"
  shows "0 \<le> wait \<and> wait \<le> maxWait \<and> 0 < maxWait \<and> \<not> failureRead eeInvalid e \<and>
    (\<exists>a. Some a \<in> snd ` set auths \<and> mayRetry rr attempt (normalizeProviders providers) a)"
proof -
  let ?B = "set (List.map_filter snd auths)"
  have B: "a \<in> ?B \<Longrightarrow> Some a \<in> snd ` set auths" for a
    by (force simp: List.map_filter_def)
  obtain w env1 where c: "closestCooldownWait su rr providers model attempt now auths env = (w, env1)" by fastforce
  have g: "\<not> failureRead eeHomeBusy e" "\<not> maxWait \<le> 0" "failureStatus e \<noteq> 200" "\<not> failureRead eeInvalid e"
    using assms by (auto simp: shouldRetryAfterError_def split: if_splits)
  note run = assms [unfolded shouldRetryAfterError_def, simplified g c if_False prod.case]
  show ?thesis
  proof (cases w)
    case (Some v)
    have "0 \<le> v \<and> (\<exists>a \<in> ?B. mayRetry rr attempt (normalizeProviders providers) a)"
      by (rule closestLoop_bounds [where found = None])
        (use c Some in \<open>auto simp: closestCooldownWait_def split: if_splits\<close>)
    then obtain a where "0 \<le> v" "Some a \<in> snd ` set auths" "mayRetry rr attempt (normalizeProviders providers) a"
      using B by blast
    then show ?thesis using run Some g by (auto split: if_splits)
  next
    case None
    then have "retryAllowed rr attempt providers auths" "0 < wait" "wait \<le> maxWait"
      using run by (auto split: if_splits option.splits)
    then obtain a where "0 < wait" "wait \<le> maxWait" "Some a \<in> snd ` set auths" "mayRetry rr attempt (normalizeProviders providers) a"
      using B unfolding retryAllowed_def list_ex_iff by blast
    then show ?thesis using g by auto
  qed
qed

lemma jitter_bounds:
  assumes "\<forall>n > 0. 0 \<le> random n \<and> random n < n" "0 \<le> wait" "maxWait > 0 \<longrightarrow> wait \<le> maxWait"
  shows "wait \<le> jitteredCooldownWait random wait maxWait \<and>
    (maxWait > 0 \<longrightarrow> jitteredCooldownWait random wait maxWait \<le> maxWait) \<and>
    jitteredCooldownWait random wait maxWait \<le> wait + min (wait div 4) cooldownWaitJitterCap"
proof (cases "wait = 0")
  case True
  then show ?thesis using assms(3) by (simp add: jitteredCooldownWait_def)
next
  case False
  define q where "q = wait div 4"
  have q: "go_div wait 4 = q" "0 \<le> q" using assms(2) by (simp_all add: go_div_nonneg q_def)
  define n where "n = (let j = min q cooldownWaitJitterCap in if maxWait > 0 \<and> j > maxWait - wait then maxWait - wait else j)"
  have run: "jitteredCooldownWait random wait maxWait = (if n \<le> 0 then wait else wait + random n)"
    using False assms(2) by (simp add: jitteredCooldownWait_def q n_def Let_def min_def)
  have n: "n \<le> min q cooldownWaitJitterCap" "maxWait > 0 \<longrightarrow> n \<le> maxWait - wait" by (auto simp: n_def Let_def)
  show ?thesis
  proof (cases "n \<le> 0")
    case True
    then show ?thesis using run assms(3) q(2) by (simp add: q_def)
  next
    case False
    then have "0 \<le> random n" "random n < n" using assms(1) by auto
    then show ?thesis unfolding run q_def [symmetric] using False n by auto
  qed
qed

text \<open>
  C32 (a retry waits within its bounds). A request is only tried again when its error is not a fault of
  the request and a credential of its providers has attempts left. The wait announced, with the random share
  added to it, is at least the wait asked for, at most the limit on waits, and exceeds the wait asked for by
  at most a quarter of it and at most two seconds.
\<close>

theorem retry_wait_bounded:
  assumes "shouldRetryAfterError su rr e attempt providers model maxWait now auths env = (Some wait, env')"
    and "\<forall>n > 0. 0 \<le> random n \<and> random n < n"
  shows "\<not> failureRead eeInvalid e \<and>
    (\<exists>a. Some a \<in> snd ` set auths \<and> mayRetry rr attempt (normalizeProviders providers) a) \<and>
    0 \<le> wait \<and> wait \<le> jitteredCooldownWait random wait maxWait \<and> jitteredCooldownWait random wait maxWait \<le> maxWait \<and>
    jitteredCooldownWait random wait maxWait \<le> wait + min (wait div 4) (2 * second)"
  using retry_granted [OF assms(1)] jitter_bounds [OF assms(2), of wait maxWait] by simp

abbreviation exampleLimited :: exec_failure where
  "exampleLimited \<equiv> ExecFailed \<lparr>eeFailure = \<lparr>failureError = \<lparr>errCode = '''', errMessage = '''', errRetryable = False, HTTPStatus = 429\<rparr>,
       failureKind = None, failureEvidence = None\<rparr>, eeStatus = 429, eeRetryAfter = Some 8, eeInvalid = False, eeScoped = False,
     eeUnauthorized = False, eeCanceled = False, eeTerminated = False, eeHomeBusy = False, eeEndpointNotFound = False\<rparr>"

abbreviation exampleRetryTable :: auth_table where
  "exampleRetryTable \<equiv> [(''a'', Some (exampleAuth ''a'' []))]"

lemma example_granted:
  "fst (shouldRetryAfterError exampleSetup 1 exampleLimited 0 [''codex''] '''' 9 5 exampleRetryTable (\<lambda>_. newRuntimeLimits)) = Some 8"
  by code_simp

lemma retry_wait_bounded_witness:
  "jitteredCooldownWait (\<lambda>n. n - 1) 8 9 \<in> {8..9} \<and>
   (\<exists>a. Some a \<in> snd ` set exampleRetryTable \<and> mayRetry 1 0 (normalizeProviders [''codex'']) a)"
proof -
  obtain env' where "shouldRetryAfterError exampleSetup 1 exampleLimited 0 [''codex''] '''' 9 5 exampleRetryTable
      (\<lambda>_. newRuntimeLimits) = (Some 8, env')" using example_granted by (metis prod.collapse)
  from retry_wait_bounded [OF this, of "\<lambda>n. n - 1"] show ?thesis by simp
qed

end
