(* ===== verification/Execution.thy ===== *)
theory Execution
  imports RetryPolicy Lifecycle "HOL-Library.Monad_Syntax"
begin

text \<open>
  The loops that carry a request from credential to credential: \<open>Execute\<close>, \<open>ExecuteCount\<close>,
  \<open>executeMixedOnce\<close> and \<open>executeCountMixedOnce\<close> of \<open>sdk/cliproxy/auth/conductor_execution.go\<close>, with the
  model lists of \<open>conductor_models.go\<close> and the retry budget of \<open>conductor_cache_affinity.go\<close>.

  The functions are modelled outside home mode, after the request was enriched, and for requests
  that do not ask for a tail burst. What is not the manager's is the record \<open>execution_world\<close>: the
  executors (a call returns a response or an error), the preparation and the refresh of tokens, the
  waits, the context of the request, the interceptor. Each interaction with the world has a number;
  whatever other requests, results and configuration changes do to the manager meanwhile is the
  change of the manager's state a call, a preparation or a refresh returns. The log records the order of
  attempts, calls and slots; it is not read. \<open>None\<close> is a request that does not return.
\<close>

section \<open>The world of a request\<close>

datatype exec_event = Attempted string | Acquired string | Called string string | Released string

record 'r execution_world =
  ewSetup :: selection_setup
  ewAffinity :: affinitySettings
  ewRequestRetry :: int
  ewMaxRetryCredentials :: int
  ewMaxRetryInterval :: duration
  ewPolicy :: ErrorHandlingConfig
  ewUntil :: "string \<Rightarrow> duration option"
  ewCandidates :: "Auth \<Rightarrow> string \<Rightarrow> string list"
  ewIntercept :: "nat \<Rightarrow> exec_error option"
  ewPrepare :: "nat \<Rightarrow> Auth \<Rightarrow> manager_state \<Rightarrow> (exec_error + Auth) \<times> manager_state"
  ewCall :: "nat \<Rightarrow> Auth \<Rightarrow> string \<Rightarrow> manager_state \<Rightarrow> (exec_error + 'r) \<times> manager_state"
  ewRefresh :: "nat \<Rightarrow> Auth \<Rightarrow> manager_state \<Rightarrow> Auth option \<times> manager_state"
  ewCancelled :: "nat \<Rightarrow> exec_error option"
  ewWait :: "nat \<Rightarrow> duration \<Rightarrow> exec_error option"
  ewRandom :: "nat \<Rightarrow> duration \<Rightarrow> duration"
  ewMark :: "nat \<Rightarrow> manager_config"
  ewClock :: "nat \<Rightarrow> nat \<Rightarrow> nat \<Rightarrow> gotime"
  ewResponseIDs :: "'r \<Rightarrow> string list"
  ewCreditsFallback :: "exec_failure \<Rightarrow> (exec_error + 'r) option"

record exec_request =
  erProviders :: "string list"
  erModel :: string
  erSelection :: selection_request
  erCount :: bool

record exec_state =
  exManager :: manager_state
  exStep :: nat
  exEffects :: "effect list"
  exLog :: "exec_event list"

abbreviation stepped :: "exec_event list \<Rightarrow> exec_state \<Rightarrow> exec_state" where
  "stepped events st \<equiv> st\<lparr>exStep := Suc (exStep st), exLog := exLog st @ events\<rparr>"

abbreviation in_limits :: "(limits_env \<Rightarrow> limits_env) \<Rightarrow> exec_state \<Rightarrow> exec_state" where
  "in_limits f st \<equiv> st\<lparr>exManager := (exManager st)\<lparr>mgLimits := f (mgLimits (exManager st))\<rparr>\<rparr>"

definition hasCodexProvider :: "string list \<Rightarrow> bool" where
  "hasCodexProvider providers \<longleftrightarrow> list_ex (\<lambda>p. equal_fold (trim_space p) ''codex'') providers"

definition cacheAffinityActive :: "affinitySettings \<Rightarrow> string list \<Rightarrow> bool" where
  "cacheAffinityActive settings providers \<longleftrightarrow> hasCodexProvider providers \<and> stEnabled settings \<and> \<not> stShadow settings"

definition effectiveMaxRetryCredentials :: "affinitySettings \<Rightarrow> int \<Rightarrow> string list \<Rightarrow> int" where
  "effectiveMaxRetryCredentials settings configured providers =
     (if \<not> hasCodexProvider providers then configured
      else if \<not> stEnabled settings \<or> stShadow settings \<or> stMaxRetryCredentials settings \<le> 0 then configured
      else if configured \<le> 0 \<or> configured > stMaxRetryCredentials settings then stMaxRetryCredentials settings
      else configured)"

section \<open>The models of an attempt\<close>

definition executionResultModel :: "string \<Rightarrow> string \<Rightarrow> bool \<Rightarrow> string" where
  "executionResultModel routeModel upstreamModel pooled =
     (if pooled \<and> trim_space upstreamModel \<noteq> '''' then trim_space upstreamModel
      else if trim_space routeModel \<noteq> '''' then trim_space routeModel
      else trim_space upstreamModel)"

definition stateModelForExecution :: "selection_resolver \<Rightarrow> Auth \<Rightarrow> string \<Rightarrow> string \<Rightarrow> bool \<Rightarrow> string" where
  "stateModelForExecution resolve a routeModel upstreamModel pooled =
     (let homeModel = authAttribute a ''home_upstream_model'';
          selectionModel = resolve a routeModel
      in if homeModel \<noteq> '''' then (if trim_space upstreamModel \<noteq> '''' then trim_space upstreamModel else homeModel)
         else if canonicalModelKey selectionModel = canonicalModelKey upstreamModel \<and> trim_space selectionModel \<noteq> ''''
         then trim_space upstreamModel
         else executionResultModel routeModel upstreamModel pooled)"

fun filterExecutionModels ::
  "selection_resolver \<Rightarrow> Auth \<Rightarrow> string \<Rightarrow> bool \<Rightarrow> gotime \<Rightarrow> string list \<Rightarrow> limits_env \<Rightarrow> string list \<times> limits_env" where
  "filterExecutionModels resolve a routeModel pooled now [] env = ([], env)"
| "filterExecutionModels resolve a routeModel pooled now (upstreamModel # rest) env =
     (let ((blocked, _, _), env) = isAuthBlockedForModelWithTailBurst (Some a)
                                     (stateModelForExecution resolve a routeModel upstreamModel pooled) now False env;
          (out, env) = filterExecutionModels resolve a routeModel pooled now rest env
      in (if blocked then out else upstreamModel # out, env))"

section \<open>Marking and binding\<close>

text \<open>The effects of a result on the scheduler and on the selector; the others leave the manager.\<close>

fun applyEffect :: "selection_setup \<Rightarrow> gotime \<Rightarrow> effect \<Rightarrow> manager_state \<Rightarrow> manager_state" where
  "applyEffect su now (UpsertScheduler a) mg =
     (let (s, env) = upsertAuth (suDigest su) (suModels su) (Some a) now None
                       (wiredScheduler su (mgScheduler mg)) (mgLimits mg)
      in mg\<lparr>mgScheduler := s, mgLimits := env\<rparr>)"
| "applyEffect su now (InvalidateSessionAffinity authID) mg =
     (case mgSelector mg of
        AffinitySelector s \<Rightarrow> mg\<lparr>mgSelector := AffinitySelector (AffinityInvalidateAuth authID s)\<rparr>
      | BuiltinSelector _ \<Rightarrow> mg)"
| "applyEffect su now _ mg = mg"

definition recordAvailabilityNeutralResult :: "execution_result \<Rightarrow> gotime \<Rightarrow> auth_table \<Rightarrow> auth_table \<times> effect list" where
  "recordAvailabilityNeutralResult res now auths =
     (if resAuthID res = '''' then (auths, [])
      else case glookup auths (resAuthID res) of
             Some (Some a) \<Rightarrow>
               let a = recordRecentRequest now (resSuccess res) a;
                   a = (if resSuccess res then a\<lparr>successCount := wrap64 (successCount a + 1)\<rparr>
                        else a\<lparr>failedCount := wrap64 (failedCount a + 1)\<rparr>)
               in (gput (resAuthID res) (Some a) auths, [Persist a, OnResult, PublishErrorEvent (Some a)])
           | _ \<Rightarrow> (auths, [OnResult, PublishErrorEvent None]))"

definition runtimeStickyBypassSessionKey :: "string \<Rightarrow> string \<Rightarrow> selection_request \<Rightarrow> string" where
  "runtimeStickyBypassSessionKey provider model req = sessionAffinityCacheKey provider (srPrimaryID req) model"

definition highCacheRuntimeStickyBypassSessionKey ::
  "string \<Rightarrow> string \<Rightarrow> selection_request \<Rightarrow> gotime \<Rightarrow> suppressedDecisions \<Rightarrow> string" where
  "highCacheRuntimeStickyBypassSessionKey provider model req now suppressed =
     (let md = optMetadata (srSched req);
          routeKey = fst (MetadataValue md RouteKeyKey now suppressed);
          caller = highCacheCallerSessionID md;
          (primary, fallback) = (if highCacheShouldPreferCallerSession (srPrimaryID req) \<and> caller \<noteq> ''''
                                 then (caller, '''') else (srPrimaryID req, srFallbackID req));
          primary = (if primary = '''' then caller else primary);
          primary = (if primary = '''' then fallback else primary)
      in if routeKey \<noteq> '''' then sessionAffinityCacheKey provider (''cache-affinity:'' @ routeKey) model
         else sessionAffinityCacheKey provider primary model)"

definition stickyKey :: "string \<Rightarrow> string \<Rightarrow> selection_request \<Rightarrow> gotime \<Rightarrow> manager_selector \<Rightarrow> string" where
  "stickyKey provider model req now sel =
     (case sel of
        AffinitySelector s \<Rightarrow>
          if asHighCacheMode s then highCacheRuntimeStickyBypassSessionKey provider model req now (asSuppressed s)
          else runtimeStickyBypassSessionKey provider model req
      | BuiltinSelector _ \<Rightarrow> runtimeStickyBypassSessionKey provider model req)"

definition resultOf :: "string \<Rightarrow> string \<Rightarrow> exec_error option \<Rightarrow> execution_result" where
  "resultOf authID model err =
     \<lparr>resAuthID = authID, resModel = model, resSuccess = (err = None),
      resRetryAfter = (case err of None \<Rightarrow> None | Some e \<Rightarrow> eeRetryAfter e), resError = map_option eeFailure err\<rparr>"

definition markResultNow ::
  "('r, 'z) execution_world_scheme \<Rightarrow> string \<Rightarrow> execution_result \<Rightarrow> bool \<Rightarrow> exec_state \<Rightarrow> exec_state" where
  "markResultNow w sticky res neutral st =
     (let n = exStep st; now = ewClock w n 8 0; mg = exManager st;
          ((auths, env), effs) =
            (if neutral
             then let (auths, effs) = recordAvailabilityNeutralResult res now (mgAuths mg) in ((auths, mgLimits mg), effs)
             else MarkResult ((ewMark w n)\<lparr>mcStickySession := sticky\<rparr>) res now (mgAuths mg) (mgLimits mg))
      in st\<lparr>exManager := fold (applyEffect (ewSetup w) (ewClock w n 8 1)) effs (mg\<lparr>mgAuths := auths, mgLimits := env\<rparr>),
            exStep := Suc n, exEffects := exEffects st @ effs\<rparr>)"

fun bindAll :: "string \<Rightarrow> string \<Rightarrow> string \<Rightarrow> gotime \<Rightarrow> string list \<Rightarrow> affinity_state \<Rightarrow> affinity_state option" where
  "bindAll provider model authID now [] s = Some s"
| "bindAll provider model authID now (sessionID # rest) s =
     do { s \<leftarrow> BindAuthSession provider model sessionID authID now s; bindAll provider model authID now rest s }"

text \<open>
  \<open>bindSessionAffinityFromResponsePayload\<close> and \<open>confirmCacheAffinityBinding\<close>: what a response binds. A
  built-in selector binds nothing.
\<close>

definition bindFromResponse ::
  "string \<Rightarrow> string \<Rightarrow> string \<Rightarrow> string list \<Rightarrow> metadata \<Rightarrow> gotime \<Rightarrow> manager_state \<Rightarrow> manager_state option" where
  "bindFromResponse provider model authID responseIDs md now mg =
     (case mgSelector mg of
        BuiltinSelector _ \<Rightarrow> Some mg
      | AffinitySelector s \<Rightarrow> do {
          s \<leftarrow> (if trim_space authID = '''' then Some s
                else bindAll provider model authID now (map ((@) ''response:'') responseIDs) s);
          let (routeKey, suppressed) = MetadataValue md RouteKeyKey now (asSuppressed s);
          let s = s\<lparr>asSuppressed := suppressed\<rparr>;
          s \<leftarrow> (if routeKey = '''' \<or> trim_space authID = '''' then Some s
                else do { s \<leftarrow> BindAuthSession provider model (''cache-affinity:'' @ routeKey) authID now s;
                          RecordCacheAffinitySuccess authID md now s });
          Some (mg\<lparr>mgSelector := AffinitySelector s\<rparr>) })"

section \<open>One call of a credential\<close>

definition tryRefreshAfterUnauthorized ::
  "('r, 'z) execution_world_scheme \<Rightarrow> Auth \<Rightarrow> exec_error \<Rightarrow> bool \<Rightarrow> exec_state \<Rightarrow> Auth option \<times> exec_state" where
  "tryRefreshAfterUnauthorized w a e alreadyTried st =
     (if alreadyTried \<or> eeScoped e \<or> \<not> eeUnauthorized e \<or> \<not> authHasRefreshCredential a then (None, st)
      else let (r, mg) = ewRefresh w (exStep st) a (exManager st) in (r, stepped [] (st\<lparr>exManager := mg\<rparr>)))"

definition claudeOAuthRequestCancellation ::
  "('r, 'z) execution_world_scheme \<Rightarrow> Auth \<Rightarrow> exec_error option \<Rightarrow> exec_state \<Rightarrow> exec_error option" where
  "claudeOAuthRequestCancellation w a err st =
     (if \<not> equal_fold (trim_space (Provider a)) ''claude'' \<or> \<not> equal_fold (authAttribute a ''auth_kind'') ''oauth'' then None
      else case ewCancelled w (exStep st) of
             Some c \<Rightarrow> if eeCanceled c then Some c
                       else (case err of Some e \<Rightarrow> if eeCanceled e then Some e else None | None \<Rightarrow> None)
           | None \<Rightarrow> (case err of Some e \<Rightarrow> if eeCanceled e then Some e else None | None \<Rightarrow> None))"

definition callUpstream ::
  "('r, 'z) execution_world_scheme \<Rightarrow> Auth \<Rightarrow> string \<Rightarrow> exec_state \<Rightarrow> (exec_error + 'r) \<times> exec_state" where
  "callUpstream w a model st =
     (let (r, mg) = ewCall w (exStep st) a model (exManager st)
      in (r, stepped [Called (ID a) model] (st\<lparr>exManager := mg\<rparr>)))"

text \<open>
  A call, and a second one with a refreshed credential where the first was unauthorized. \<open>Inl\<close> is the error of
  a request that was cancelled.
\<close>

definition callWithRefresh ::
  "('r, 'z) execution_world_scheme \<Rightarrow> Auth \<Rightarrow> string \<Rightarrow> bool \<Rightarrow> exec_state \<Rightarrow>
     ((exec_error + (exec_error + 'r)) \<times> Auth \<times> bool) \<times> exec_state" where
  "callWithRefresh w a model refreshed st =
     (let (r, st) = callUpstream w a model st
      in case r of
           Inr x \<Rightarrow> ((Inr (Inr x), a, refreshed), st)
         | Inl e \<Rightarrow>
             (case ewCancelled w (exStep st) of
                Some c \<Rightarrow> ((Inl c, a, refreshed), st)
              | None \<Rightarrow>
                  (case tryRefreshAfterUnauthorized w a e refreshed st of
                     (None, st) \<Rightarrow> ((Inr (Inl e), a, refreshed), st)
                   | (Some a', st) \<Rightarrow>
                       let (r, st) = callUpstream w a' model st
                       in case r of
                            Inr x \<Rightarrow> ((Inr (Inr x), a', True), st)
                          | Inl e' \<Rightarrow> (case ewCancelled w (exStep st) of
                                        Some c \<Rightarrow> ((Inl c, a', True), st)
                                      | None \<Rightarrow> ((Inr (Inl e'), a', True), st)))))"

section \<open>One credential\<close>

definition releaseRuntimeSlot :: "string \<Rightarrow> slot \<Rightarrow> exec_state \<Rightarrow> exec_state" where
  "releaseRuntimeSlot authID s st =
     in_limits (\<lambda>env. env(authID := snd (releaseSlot s (env authID)))) (stepped [Released authID] st)"

text \<open>
  What an attempt on the models of a credential comes to: the request is over, or it failed with the last
  error, and with the temporary failure that ended the walk.
\<close>

datatype 'r models_outcome = ModelsDone "exec_failure + 'r" | ModelsFailed "exec_error option" "failure option"

fun tryModels ::
  "('r, 'z) execution_world_scheme \<Rightarrow> exec_request \<Rightarrow> string \<Rightarrow> string \<Rightarrow> bool \<Rightarrow> string list \<Rightarrow> Auth \<Rightarrow> bool \<Rightarrow>
     exec_error option \<Rightarrow> exec_state \<Rightarrow> ('r models_outcome \<times> exec_state) option" where
  "tryModels w rq provider sticky pooled [] a refreshed authErr st = Some (ModelsFailed authErr None, st)"
| "tryModels w rq provider sticky pooled (upstreamModel # rest) a refreshed authErr st =
     (let routeModel = erModel rq;
          resultModel = stateModelForExecution (suResolve (ewSetup w)) a routeModel upstreamModel pooled
      in case ewIntercept w (exStep st) of
           Some e \<Rightarrow> Some (ModelsDone (Inl (ExecFailed e)), st)
         | None \<Rightarrow>
             let ((r, a, refreshed), st) = callWithRefresh w a upstreamModel refreshed (stepped [] st)
             in case r of
                  Inl c \<Rightarrow> Some (ModelsDone (Inl (ExecFailed c)), st)
                | Inr r \<Rightarrow>
                    let err = (case r of Inl e \<Rightarrow> Some e | Inr _ \<Rightarrow> None)
                    in case claudeOAuthRequestCancellation w a err st of
                         Some c \<Rightarrow> Some (ModelsDone (Inl (ExecFailed c)), st)
                       | None \<Rightarrow>
                           (case r of
                              Inl e \<Rightarrow>
                                let gj = mcGjson (ewMark w (exStep st));
                                    st = markResultNow w sticky (resultOf (ID a) resultModel (Some e))
                                           (erCount rq \<and> eeEndpointNotFound e) st
                                in if eeInvalid e then Some (ModelsDone (Inl (ExecFailed e)), st)
                                   else if isTemporaryFailureResult gj (Some (eeFailure e))
                                   then Some (ModelsFailed (Some e) (Some (eeFailure e)), st)
                                   else tryModels w rq provider sticky pooled rest a refreshed (Some e) st
                            | Inr resp \<Rightarrow>
                                let st = markResultNow w sticky (resultOf (ID a) resultModel None) False st
                                in map_option (\<lambda>mg. (ModelsDone (Inr resp), st\<lparr>exManager := mg\<rparr>))
                                     (bindFromResponse provider routeModel (ID a) (ewResponseIDs w resp)
                                        (optMetadata (srSched (erSelection rq))) (ewClock w (exStep st) 9 0) (exManager st))))"

section \<open>One round: credentials until one serves\<close>

record exec_vars =
  exTried :: "string list"
  exAttempted :: "string list"
  exLastErr :: "exec_error option"
  exSwitches :: int

datatype 'r attempt_step = Again exec_vars | Done "exec_failure + 'r"

abbreviation lastOr :: "exec_vars \<Rightarrow> select_error \<Rightarrow> exec_failure" where
  "lastOr v e \<equiv> (case exLastErr v of Some l \<Rightarrow> ExecFailed l | None \<Rightarrow> SelectFailed e)"

definition shouldReturnLastErrorOnPickFailure :: "exec_error option \<Rightarrow> bool" where
  "shouldReturnLastErrorOnPickFailure lastErr \<longleftrightarrow> lastErr \<noteq> None"

text \<open>What follows when no model of the credential served; the slot is still held.\<close>

definition afterModels ::
  "('r, 'z) execution_world_scheme \<Rightarrow> string \<Rightarrow> slot \<Rightarrow> 'r models_outcome \<Rightarrow> exec_vars \<Rightarrow> exec_state \<Rightarrow>
     'r attempt_step \<times> exec_state" where
  "afterModels w authID s outcome v st =
     (case outcome of
        ModelsDone r \<Rightarrow> (Done r, releaseRuntimeSlot authID s st)
      | ModelsFailed None _ \<Rightarrow> (Again v, releaseRuntimeSlot authID s st)
      | ModelsFailed (Some e) temporary \<Rightarrow>
          if eeInvalid e then (Done (Inl (ExecFailed e)), releaseRuntimeSlot authID s st)
          else let v = v\<lparr>exLastErr := Some e\<rparr>;
                   gj = mcGjson (ewMark w (exStep st));
                   waited = (\<lambda>d. ewWait w (exStep st) (jitteredCooldownWait (ewRandom w (exStep st)) d
                                   (dur_mul (TemporaryErrorMaxWaitSeconds (ewPolicy w)) second)))
               in case temporary of
                    None \<Rightarrow> (Again v, releaseRuntimeSlot authID s st)
                  | Some f \<Rightarrow>
                      let ((switch, failed), switches) =
                            transientRetryAction gj (ewUntil w) (\<lambda>d. waited d = None) (ewPolicy w) (Some f) (exSwitches v);
                          d = temporaryErrorWait (ewUntil w) (Some f)
                                (dur_mul (TemporaryErrorMaxWaitSeconds (ewPolicy w)) second);
                          v = v\<lparr>exSwitches := switches\<rparr>
                      in if failed then (Done (Inl (ExecFailed (case waited d of Some c \<Rightarrow> c | None \<Rightarrow> e))),
                                         releaseRuntimeSlot authID s (stepped [] st))
                         else if \<not> switch then (Done (Inl (ExecFailed e)), releaseRuntimeSlot authID s st)
                         else (Again v, releaseRuntimeSlot authID s (stepped [] st)))"

definition runSlot ::
  "('r, 'z) execution_world_scheme \<Rightarrow> exec_request \<Rightarrow> string \<Rightarrow> string \<Rightarrow> bool \<Rightarrow> string list \<Rightarrow> Auth \<Rightarrow> slot \<Rightarrow>
     exec_vars \<Rightarrow> exec_state \<Rightarrow> ('r attempt_step \<times> exec_state) option" where
  "runSlot w rq provider sticky pooled models a s v st =
     (let (r, mg) = ewPrepare w (exStep st) a (exManager st);
          st = stepped [] (st\<lparr>exManager := mg\<rparr>)
      in case r of
           Inl e \<Rightarrow>
             (case claudeOAuthRequestCancellation w a (Some e) st of
                Some c \<Rightarrow> Some (Done (Inl (ExecFailed c)), releaseRuntimeSlot (ID a) s st)
              | None \<Rightarrow>
                  let st = releaseRuntimeSlot (ID a) s st;
                      res = (resultOf (ID a) (erModel rq) (Some e))\<lparr>resRetryAfter := None\<rparr>
                  in Some (Again (v\<lparr>exLastErr := Some e\<rparr>), markResultNow w sticky res False st))
         | Inr prepared \<Rightarrow>
             map_option (\<lambda>(outcome, st). afterModels w (ID a) s outcome v st)
               (tryModels w rq provider sticky pooled models prepared False None st))"

definition executeAttempt ::
  "('r, 'z) execution_world_scheme \<Rightarrow> exec_request \<Rightarrow> int \<Rightarrow> exec_vars \<Rightarrow> exec_state \<Rightarrow>
     ('r attempt_step \<times> exec_state) option" where
  "executeAttempt w rq maxRetryCredentials v st =
     (let su = ewSetup w; n = exStep st; routeModel = erModel rq; sel = erSelection rq;
          req = sel\<lparr>srSched := (srSched sel)\<lparr>triedAuths := exTried v\<rparr>\<rparr>
      in if maxRetryCredentials > 0 \<and> int (length (exAttempted v)) \<ge> maxRetryCredentials
         then Some (Done (Inl (lastOr v auth_not_found)), st)
         else do {
           (picked, mg) \<leftarrow> pickNextMixed su (erProviders rq) routeModel req (ewClock w n) (exManager st);
           case picked of
             Inl e \<Rightarrow>
               Some (Done (Inl (if shouldReturnLastErrorOnPickFailure (exLastErr v) then lastOr v e else SelectFailed e)),
                     st\<lparr>exManager := mg\<rparr>)
           | Inr (a, provider) \<Rightarrow>
               let v = v\<lparr>exTried := List.insert (ID a) (exTried v)\<rparr>;
                   sticky = stickyKey provider routeModel (erSelection rq) (ewClock w n 9 0) (mgSelector mg);
                   cands = ewCandidates w a routeModel; pooled = (length cands > 1);
                   (models, env) = filterExecutionModels (suResolve su) a routeModel pooled (ewClock w n 9 1) cands (mgLimits mg);
                   (granted, slot_state) = acquireRuntimeSlotForModel (Some a) (ewClock w n 9 2) routeModel False (env (ID a));
                   st = stepped [Attempted (ID a)] (st\<lparr>exManager := mg\<lparr>mgLimits := env\<rparr>\<rparr>)
               in if models = [] then Some (Again v, st)
                  else let st = in_limits (\<lambda>env. env(ID a := slot_state)) st
                       in case granted of
                            Inl _ \<Rightarrow> Some (Again v, st)
                          | Inr s \<Rightarrow>
                              runSlot w rq provider sticky pooled models a s
                                (v\<lparr>exAttempted := List.insert (ID a) (exAttempted v)\<rparr>) (stepped [Acquired (ID a)] st)
         })"

partial_function (option) executeLoop ::
  "('r, 'z) execution_world_scheme \<Rightarrow> exec_request \<Rightarrow> int \<Rightarrow> exec_vars \<Rightarrow> exec_state \<Rightarrow>
     ((exec_failure + 'r) \<times> exec_state) option" where
  "executeLoop w rq maxRetryCredentials v st = do {
     (step, st) \<leftarrow> executeAttempt w rq maxRetryCredentials v st;
     case step of
       Done r \<Rightarrow> Some (r, st)
     | Again v \<Rightarrow> executeLoop w rq maxRetryCredentials v st
   }"

abbreviation noVars :: exec_vars where
  "noVars \<equiv> \<lparr>exTried = [], exAttempted = [], exLastErr = None, exSwitches = 0\<rparr>"

definition executeOnce ::
  "('r, 'z) execution_world_scheme \<Rightarrow> exec_request \<Rightarrow> int \<Rightarrow> exec_state \<Rightarrow> ((exec_failure + 'r) \<times> exec_state) option" where
  "executeOnce w rq maxRetryCredentials st =
     (if erProviders rq = []
      then Some (Inl (SelectFailed (SelectorError ''provider_not_found'' ''no provider supplied'')), st)
      else executeLoop w rq maxRetryCredentials noVars st)"

text \<open>A request for a response, and one for a count of tokens, which differ in the calls they mark.\<close>

definition executeMixedOnce ::
  "('r, 'z) execution_world_scheme \<Rightarrow> exec_request \<Rightarrow> int \<Rightarrow> exec_state \<Rightarrow> ((exec_failure + 'r) \<times> exec_state) option" where
  "executeMixedOnce w rq = executeOnce w (rq\<lparr>erCount := False\<rparr>)"

definition executeCountMixedOnce ::
  "('r, 'z) execution_world_scheme \<Rightarrow> exec_request \<Rightarrow> int \<Rightarrow> exec_state \<Rightarrow> ((exec_failure + 'r) \<times> exec_state) option" where
  "executeCountMixedOnce w rq = executeOnce w (rq\<lparr>erCount := True\<rparr>)"

section \<open>Rounds until no retry is due\<close>

text \<open>
  \<open>once\<close> is one round. A round that failed is followed by another after a wait, while the error and the
  credentials' retry limits allow it.
\<close>

partial_function (option) retryLoop ::
  "('r, 'z) execution_world_scheme \<Rightarrow> string list \<Rightarrow> string \<Rightarrow>
     (exec_state \<Rightarrow> ((exec_failure + 'r) \<times> exec_state) option) \<Rightarrow> int \<Rightarrow> exec_state \<Rightarrow>
     (((exec_failure + 'r) \<times> bool) \<times> exec_state) option" where
  "retryLoop w providers retryModel once attempt st = do {
     (r, st) \<leftarrow> once st;
     case r of
       Inr x \<Rightarrow> Some ((Inr x, True), st)
     | Inl e \<Rightarrow>
         if failureRead eeTerminated e then Some ((Inl e, True), st)
         else if cacheAffinityActive (ewAffinity w) providers then Some ((Inl e, False), st)
         else let mg = exManager st; n = exStep st;
                  (wait, env) = shouldRetryAfterError (ewSetup w) (ewRequestRetry w) e attempt providers retryModel
                                  (ewMaxRetryInterval w) (ewClock w n 10 0) (mgAuths mg) (mgLimits mg);
                  st = stepped [] (st\<lparr>exManager := mg\<lparr>mgLimits := env\<rparr>\<rparr>)
              in case wait of
                   None \<Rightarrow> Some ((Inl e, False), st)
                 | Some d \<Rightarrow>
                     (case (if d \<le> 0 then None
                            else ewWait w n (jitteredCooldownWait (ewRandom w n) d (ewMaxRetryInterval w))) of
                        Some c \<Rightarrow> Some ((Inl (ExecFailed c), True), st)
                      | None \<Rightarrow> retryLoop w providers retryModel once (attempt + 1) st)
   }"

definition Execute ::
  "('r, 'z) execution_world_scheme \<Rightarrow> exec_request \<Rightarrow> exec_state \<Rightarrow> ((exec_failure + 'r) \<times> exec_state) option" where
  "Execute w rq st =
     (let providers = normalizeProviders (erProviders rq);
          maxRetry = effectiveMaxRetryCredentials (ewAffinity w) (ewMaxRetryCredentials w) providers
      in if providers = []
         then Some (Inl (SelectFailed (SelectorError ''provider_not_found'' ''no provider supplied'')), st)
         else do {
           ((r, final), st) \<leftarrow> retryLoop w providers (erModel rq)
                               (executeMixedOnce w (rq\<lparr>erProviders := providers\<rparr>) maxRetry) 0 st;
           Some (case r of
                   Inl e \<Rightarrow> (if final then (Inl e, st)
                             else case ewCreditsFallback w e of
                                    Some (Inl c) \<Rightarrow> (Inl (ExecFailed c), st)
                                  | Some (Inr x) \<Rightarrow> (Inr x, st)
                                  | None \<Rightarrow> (Inl e, st))
                 | Inr x \<Rightarrow> (Inr x, st))
         })"

definition ExecuteCount ::
  "('r, 'z) execution_world_scheme \<Rightarrow> exec_request \<Rightarrow> exec_state \<Rightarrow> ((exec_failure + 'r) \<times> exec_state) option" where
  "ExecuteCount w rq st =
     (let providers = normalizeProviders (erProviders rq);
          maxRetry = effectiveMaxRetryCredentials (ewAffinity w) (ewMaxRetryCredentials w) providers
      in if providers = []
         then Some (Inl (SelectFailed (SelectorError ''provider_not_found'' ''no provider supplied'')), st)
         else map_option (\<lambda>((r, _), st). (r, st))
                (retryLoop w providers (erModel rq)
                   (executeCountMixedOnce w (rq\<lparr>erProviders := providers\<rparr>) maxRetry) 0 st))"

end
