(* ===== verification/Spec2Isabelle.thy ===== *)
theory Spec2Isabelle
  imports RuntimeSlots SchedulerProps ResultProps SessionCacheProps LifecycleProps AffinityProps SessionAffinityProps
    PickProps Execution
begin

text \<open>Header.\<close>

end
